(* ===== verification/Prelude.thy ===== *)
theory Prelude imports Main "HOL-Library.Word" "HOL-Library.Char_ord" "HOL-Library.List_Lexorder" "HOL-Library.Multiset" begin

text \<open>
  Prelude of the development: the automation collections, the result type of fallible
  Go functions, 64-bit signed arithmetic, and the generic lemmas on lists, sorting and
  deduplication that the component theories share.

  Go strings are byte strings and are modelled as \<^typ>\<open>string\<close> (one \<^typ>\<open>char\<close> per byte); the
  order on them is the bytewise lexicographic order of Go, which is the order of
  \<^verbatim>\<open>HOL-Library.List_Lexorder\<close> over \<^verbatim>\<open>HOL-Library.Char_ord\<close>.
\<close>

named_theorems go_defs \<open>definitions that unfold in routine proofs\<close>
named_theorems go_sorted \<open>sortedness of canonicalised lists\<close>

section \<open>Results of fallible functions\<close>

text \<open>A Go function returning \<^verbatim>\<open>(T, error)\<close>: \<open>Inl\<close> carries the error, \<open>Inr\<close> the value.\<close>

type_synonym ('e, 'a) result = "'e + 'a"

fun res_bind :: "('e, 'a) result \<Rightarrow> ('a \<Rightarrow> ('e, 'b) result) \<Rightarrow> ('e, 'b) result" where
  "res_bind (Inl e) f = Inl e"
| "res_bind (Inr x) f = f x"

definition guard_err :: "bool \<Rightarrow> 'e \<Rightarrow> ('e, unit) result" where
  "guard_err bad e = (if bad then Inl e else Inr ())"

definition map_error :: "('e \<Rightarrow> 'f) \<Rightarrow> ('e, 'a) result \<Rightarrow> ('f, 'a) result" where
  "map_error f r = (case r of Inl e \<Rightarrow> Inl (f e) | Inr x \<Rightarrow> Inr x)"

fun is_ok :: "('e, 'a) result \<Rightarrow> bool" where
  "is_ok (Inl e) = False"
| "is_ok (Inr x) = True"

lemma res_bind_Inr [simp]:
  "res_bind r f = Inr y \<longleftrightarrow> (\<exists>x. r = Inr x \<and> f x = Inr y)"
  by (cases r) auto

lemma res_bind_Inl:
  "res_bind r f = Inl e \<longleftrightarrow> r = Inl e \<or> (\<exists>x. r = Inr x \<and> f x = Inl e)"
  by (cases r) auto

lemma guard_err_Inr [simp]: "guard_err b e = Inr u \<longleftrightarrow> \<not> b"
  by (simp add: guard_err_def)

lemma guard_err_Inl [simp]: "guard_err b e = Inl e' \<longleftrightarrow> b \<and> e' = e"
  by (auto simp: guard_err_def)

lemma is_ok_iff: "is_ok r \<longleftrightarrow> (\<exists>x. r = Inr x)"
  by (cases r) auto

section \<open>Signed 64-bit arithmetic\<close>

text \<open>
  Go's \<^verbatim>\<open>int\<close> is 64 bits wide on the platforms the program is built for. Values are kept
  as \<^typ>\<open>int\<close> and every addition that may overflow is followed by \<open>wrap64\<close>.
\<close>

definition wrap64 :: "int \<Rightarrow> int" where
  "wrap64 x = (x + 2 ^ 63) mod 2 ^ 64 - 2 ^ 63"

definition in_int64 :: "int \<Rightarrow> bool" where
  "in_int64 x \<longleftrightarrow> - (2 ^ 63) \<le> x \<and> x < 2 ^ 63"

lemma wrap64_id: "in_int64 x \<Longrightarrow> wrap64 x = x"
  by (simp add: wrap64_def in_int64_def)

lemma wrap64_range: "in_int64 (wrap64 x)"
  by (simp add: wrap64_def in_int64_def)

text \<open>Go's integer division truncates towards zero.\<close>

definition quot64 :: "int \<Rightarrow> int \<Rightarrow> int" where
  "quot64 a b = sgn a * sgn b * (\<bar>a\<bar> div \<bar>b\<bar>)"

lemma quot64_nonneg: "0 \<le> a \<Longrightarrow> 0 < b \<Longrightarrow> quot64 a b = a div b"
  by (cases "a = 0") (simp_all add: quot64_def sgn_if)

section \<open>Sorting with a comparator\<close>

text \<open>
  \<^verbatim>\<open>sort.Slice\<close> and \<^verbatim>\<open>sort.SliceStable\<close> with a comparator \<open>lt\<close>. The model is stable
  insertion sort, which is what \<^verbatim>\<open>SliceStable\<close> computes; \<^verbatim>\<open>sort.Slice\<close> may order
  elements that neither precede each other differently.
\<close>

fun insort_by :: "('a \<Rightarrow> 'a \<Rightarrow> bool) \<Rightarrow> 'a \<Rightarrow> 'a list \<Rightarrow> 'a list" where
  "insort_by lt x [] = [x]"
| "insort_by lt x (y # ys) = (if lt y x then y # insort_by lt x ys else x # y # ys)"

definition sort_by :: "('a \<Rightarrow> 'a \<Rightarrow> bool) \<Rightarrow> 'a list \<Rightarrow> 'a list" where
  "sort_by lt xs = foldr (insort_by lt) xs []"

lemma sort_by_Nil [simp]: "sort_by lt [] = []"
  by (simp add: sort_by_def)

lemma sort_by_Cons [simp]: "sort_by lt (x # xs) = insort_by lt x (sort_by lt xs)"
  by (simp add: sort_by_def)

lemma mset_insort_by [simp]: "mset (insort_by lt x xs) = add_mset x (mset xs)"
  by (induction xs) auto

lemma mset_sort_by [simp]: "mset (sort_by lt xs) = mset xs"
  by (induction xs) auto

lemma set_sort_by [simp]: "set (sort_by lt xs) = set xs"
  by (metis mset_sort_by set_mset_mset)

lemma length_sort_by [simp]: "length (sort_by lt xs) = length xs"
  by (metis mset_sort_by size_mset)

lemma sort_by_eq_Nil [simp]: "sort_by lt xs = [] \<longleftrightarrow> xs = []"
  by (metis length_0_conv length_sort_by)

lemma distinct_sort_by [simp]: "distinct (map f (sort_by lt xs)) \<longleftrightarrow> distinct (map f xs)"
  by (rule mset_eq_imp_distinct_iff) simp

text \<open>
  The contract of a comparator: a strict order whose incomparability is transitive. Under
  it the sorted list has no inversion, whatever the input order was.
\<close>

locale comparator =
  fixes lt :: "'a \<Rightarrow> 'a \<Rightarrow> bool"
  assumes asym: "lt x y \<Longrightarrow> \<not> lt y x"
    and neg_trans: "\<not> lt x y \<Longrightarrow> \<not> lt y z \<Longrightarrow> \<not> lt x z"
begin

lemma insort_by_no_inversion:
  "sorted_wrt (\<lambda>a b. \<not> lt b a) xs \<Longrightarrow> sorted_wrt (\<lambda>a b. \<not> lt b a) (insort_by lt x xs)"
proof (induction xs)
  case Nil
  then show ?case by simp
next
  case (Cons y ys)
  have set_ins: "set (insort_by lt x ys) = insert x (set ys)"
    by (metis mset_insort_by set_mset_add_mset_insert set_mset_mset)
  show ?case
  proof (cases "lt y x")
    case True
    with Cons show ?thesis
      by (auto simp: set_ins dest: asym)
  next
    case False
    have "\<not> lt z x" if "z \<in> set ys" for z
      using Cons.prems that neg_trans [OF _ False, of z] by auto
    with Cons.prems False show ?thesis by auto
  qed
qed

lemma sort_by_no_inversion: "sorted_wrt (\<lambda>a b. \<not> lt b a) (sort_by lt xs)"
  by (induction xs) (auto intro: insort_by_no_inversion)

lemma sort_by_hd_least:
  assumes "sort_by lt xs = y # ys" and "x \<in> set xs"
  shows "\<not> lt x y"
proof -
  have "x \<in> set (y # ys)"
    using assms by (metis set_sort_by)
  moreover have "\<forall>z \<in> set ys. \<not> lt z y"
    using sort_by_no_inversion [of xs] assms(1) by simp
  moreover have "\<not> lt y y"
    using asym by blast
  ultimately show ?thesis by auto
qed

text \<open>Distinct lists whose elements are totally ordered have one sorted arrangement.\<close>

lemma sorted_arrangement_unique:
  assumes "sorted_wrt (\<lambda>a b. \<not> lt b a) xs" and "sorted_wrt (\<lambda>a b. \<not> lt b a) ys"
    and "mset xs = mset ys" and "\<And>a b. a \<in> set xs \<Longrightarrow> b \<in> set xs \<Longrightarrow> a \<noteq> b \<Longrightarrow> lt a b \<or> lt b a"
  shows "xs = ys"
  using assms
proof (induction xs arbitrary: ys)
  case Nil
  then show ?case by simp
next
  case (Cons x xs)
  then obtain y ys' where ys: "ys = y # ys'"
    by (metis list.exhaust list.set_intros(1) mset.simps(1) mset_zero_iff_right)
  have sets: "set (x # xs) = set (y # ys')"
    using Cons.prems(3) ys by (metis set_mset_mset)
  have "x = y"
  proof (rule ccontr)
    assume ne: "x \<noteq> y"
    have y_in: "y \<in> set (x # xs)"
      using sets by simp
    then have "y \<in> set xs"
      using ne by simp
    moreover have "x \<in> set ys'"
      using sets ne by auto
    ultimately have "\<not> lt y x" "\<not> lt x y"
      using Cons.prems(1,2) ys by auto
    moreover have "lt x y \<or> lt y x"
      using Cons.prems(4) [of x y] y_in ne by simp
    ultimately show False by blast
  qed
  moreover have "xs = ys'"
    using Cons.prems \<open>x = y\<close> ys by (intro Cons.IH) auto
  ultimately show ?case by (simp add: ys)
qed

text \<open>So the result does not depend on the order in which the elements arrived.\<close>

lemma sort_by_order_independent:
  assumes "mset xs = mset ys"
    and "\<And>a b. a \<in> set xs \<Longrightarrow> b \<in> set xs \<Longrightarrow> a \<noteq> b \<Longrightarrow> lt a b \<or> lt b a"
  shows "sort_by lt xs = sort_by lt ys"
  by (rule sorted_arrangement_unique)
    (use assms in \<open>auto intro: sort_by_no_inversion\<close>)

lemma sort_by_sorted: "sorted_wrt (\<lambda>a b. \<not> lt b a) xs \<Longrightarrow> sort_by lt xs = xs"
proof (induction xs)
  case (Cons x xs)
  then show ?case
    by (cases xs) auto
qed simp

lemma sort_by_idem [simp]: "sort_by lt (sort_by lt xs) = sort_by lt xs"
  by (rule sort_by_sorted) (rule sort_by_no_inversion)

text \<open>The first element depends only on the set of the elements, repetitions included.\<close>

lemma sort_by_hd_cong:
  assumes "set xs = set ys"
    and "\<And>a b. a \<in> set xs \<Longrightarrow> b \<in> set xs \<Longrightarrow> a \<noteq> b \<Longrightarrow> lt a b \<or> lt b a"
  shows "(case sort_by lt xs of [] \<Rightarrow> d | m # _ \<Rightarrow> f m) = (case sort_by lt ys of [] \<Rightarrow> d | m # _ \<Rightarrow> f m)"
proof (cases "sort_by lt xs")
  case Nil
  then show ?thesis
    using assms(1) by simp
next
  case (Cons x xs')
  then obtain y ys' where ys: "sort_by lt ys = y # ys'"
    using assms(1) by (cases "sort_by lt ys") auto
  have "x \<in> set xs" "y \<in> set ys"
    using set_sort_by [of lt xs] set_sort_by [of lt ys] Cons ys by auto
  then have "\<not> lt y x" "\<not> lt x y"
    using sort_by_hd_least [OF Cons] sort_by_hd_least [OF ys] assms(1) by auto
  then have "x = y"
    using assms \<open>x \<in> set xs\<close> \<open>y \<in> set ys\<close> by auto
  then show ?thesis
    using Cons ys by simp
qed

end

text \<open>Comparators that compare a key, and then break ties by a second comparator.\<close>

definition lex_less :: "('a \<Rightarrow> 'k::linorder) \<Rightarrow> ('a \<Rightarrow> 'a \<Rightarrow> bool) \<Rightarrow> 'a \<Rightarrow> 'a \<Rightarrow> bool" where
  "lex_less key lt a b = (if key a \<noteq> key b then key a < key b else lt a b)"

lemma comparator_lex_less: "comparator lt \<Longrightarrow> comparator (lex_less key lt)"
  unfolding comparator_def lex_less_def
  by (smt (verit, best) linorder_neqE order_less_asym order_less_trans)

lemma comparator_never: "comparator (\<lambda>a b. False)"
  by unfold_locales auto

lemma comparator_key: "comparator (\<lambda>a b. key a < (key b :: 'k::linorder))"
  by unfold_locales auto

section \<open>Sorted sets of strings\<close>

text \<open>
  The program's many canonicalisers collect strings in a map and sort the keys. Whatever
  order the map is read in, the outcome is the sorted duplicate-free list.
\<close>

definition sorted_set :: "string list \<Rightarrow> string list" where
  "sorted_set xs = sort (remdups xs)"

lemma set_sorted_set [simp]: "set (sorted_set xs) = set xs"
  by (simp add: sorted_set_def)

lemma distinct_sorted_set [simp, go_sorted]: "distinct (sorted_set xs)"
  by (simp add: sorted_set_def)

lemma sorted_sorted_set [simp, go_sorted]: "sorted (sorted_set xs)"
  by (simp add: sorted_set_def)

lemma sorted_set_cong: "set xs = set ys \<Longrightarrow> sorted_set xs = sorted_set ys"
  by (metis distinct_sorted_set set_sorted_set sorted_distinct_set_unique sorted_sorted_set)

lemma sorted_set_idem [simp]: "sorted_set (sorted_set xs) = sorted_set xs"
  by (rule sorted_set_cong) simp

lemma sorted_set_Nil [simp]: "sorted_set [] = []"
  by (simp add: sorted_set_def)

lemma sorted_set_eq_Nil [simp]: "sorted_set xs = [] \<longleftrightarrow> xs = []"
  by (metis set_empty set_sorted_set)

lemma sorted_set_hd_le: "sorted_set xs = y # ys \<Longrightarrow> x \<in> set xs \<Longrightarrow> y \<le> x"
  by (metis set_ConsD set_sorted_set sorted_simps(2) sorted_sorted_set order_refl)

lemma sorted_set_fixpoint: "sorted xs \<Longrightarrow> distinct xs \<Longrightarrow> sorted_set xs = xs"
  by (simp add: sorted_set_def distinct_remdups_id sorted_sort_id)

text \<open>First duplicate in a list of keys, as the \<^verbatim>\<open>seen\<close> maps of the program find it.\<close>

fun first_dup :: "'k list \<Rightarrow> 'k list \<Rightarrow> 'k option" where
  "first_dup seen [] = None"
| "first_dup seen (x # xs) = (if x \<in> set seen then Some x else first_dup (x # seen) xs)"

lemma first_dup_None_aux:
  "first_dup seen xs = None \<longleftrightarrow> distinct xs \<and> set seen \<inter> set xs = {}"
  by (induction seen xs rule: first_dup.induct) auto

lemma first_dup_None: "first_dup [] xs = None \<longleftrightarrow> distinct xs"
  by (simp add: first_dup_None_aux)

text \<open>First error in a list of checks, in order.\<close>

fun first_err :: "('a \<Rightarrow> ('e, unit) result) \<Rightarrow> 'a list \<Rightarrow> ('e, unit) result" where
  "first_err f [] = Inr ()"
| "first_err f (x # xs) = (case f x of Inl e \<Rightarrow> Inl e | Inr _ \<Rightarrow> first_err f xs)"

lemma first_err_ok: "first_err f xs = Inr () \<longleftrightarrow> (\<forall>x \<in> set xs. f x = Inr ())"
  by (induction xs) (auto split: sum.splits)

lemma first_err_cases:
  "first_err f xs = Inr () \<or> (\<exists>x \<in> set xs. \<exists>e. f x = Inl e \<and> first_err f xs = Inl e)"
  by (induction xs) (auto split: sum.splits)

text \<open>The same with the index of the element, counted from \<open>i\<close>.\<close>

fun first_err_at :: "nat \<Rightarrow> (nat \<Rightarrow> 'a \<Rightarrow> ('e, unit) result) \<Rightarrow> 'a list \<Rightarrow> ('e, unit) result" where
  "first_err_at i f [] = Inr ()"
| "first_err_at i f (x # xs) = (case f i x of Inl e \<Rightarrow> Inl e | Inr _ \<Rightarrow> first_err_at (Suc i) f xs)"

lemma first_err_at_ok: "first_err_at i f xs = Inr () \<longleftrightarrow> (\<forall>k < length xs. f (i + k) (xs ! k) = Inr ())"
proof (induction xs arbitrary: i)
  case (Cons x xs)
  have "(\<forall>k < length (x # xs). f (i + k) ((x # xs) ! k) = Inr ())
      \<longleftrightarrow> f i x = Inr () \<and> (\<forall>k < length xs. f (Suc i + k) (xs ! k) = Inr ())"
    by (auto simp: less_Suc_eq_0_disj)
  then show ?case
    using Cons.IH [of "Suc i"] by (cases "f i x") auto
qed simp

text \<open>\<^verbatim>\<open>sort.SliceIsSorted\<close>: no element precedes its predecessor.\<close>

definition slice_sorted :: "('a \<Rightarrow> 'a \<Rightarrow> bool) \<Rightarrow> 'a list \<Rightarrow> bool" where
  "slice_sorted lt xs \<longleftrightarrow> successively (\<lambda>a b. \<not> lt b a) xs"

lemma slice_sorted_if_no_inversion: "sorted_wrt (\<lambda>a b. \<not> lt b a) xs \<Longrightarrow> slice_sorted lt xs"
  unfolding slice_sorted_def by (induction xs rule: induct_list012) auto

text \<open>
  \<^verbatim>\<open>sort.Search\<close>: the binary search of the library, on the half-open interval from
  \<open>lo\<close> to \<open>hi\<close>.
\<close>

function search_loop :: "(nat \<Rightarrow> bool) \<Rightarrow> nat \<Rightarrow> nat \<Rightarrow> nat" where
  "search_loop f lo hi =
     (if hi \<le> lo then lo
      else let h = (lo + hi) div 2 in
           if \<not> f h then search_loop f (Suc h) hi else search_loop f lo h)"
  by auto
termination
  by (relation "measure (\<lambda>(f, lo, hi). hi - lo)") auto

declare search_loop.simps [simp del]

definition Search :: "nat \<Rightarrow> (nat \<Rightarrow> bool) \<Rightarrow> nat" where
  "Search n f = search_loop f 0 n"

text \<open>For a monotone predicate it is the least index at which the predicate holds.\<close>

lemma search_loop_least:
  assumes "lo \<le> hi" and "\<forall>i j. i \<le> j \<longrightarrow> j < n \<longrightarrow> f i \<longrightarrow> f j" and "\<forall>i < lo. \<not> f i"
    and "hi \<le> n" and "f hi \<or> hi = n"
  shows "search_loop f lo hi \<le> hi \<and> (\<forall>i < search_loop f lo hi. \<not> f i)
    \<and> (f (search_loop f lo hi) \<or> search_loop f lo hi = n)"
  using assms
proof (induction f lo hi rule: search_loop.induct)
  case (1 f lo hi)
  show ?case
  proof (cases "hi \<le> lo")
    case True
    then have "search_loop f lo hi = lo"
      by (subst search_loop.simps) simp
    moreover have "lo = hi"
      using True "1.prems"(1) by simp
    ultimately show ?thesis
      using "1.prems"(3,5) by simp
  next
    case False
    define h where "h = (lo + hi) div 2"
    have h: "lo \<le> h" "h < hi"
      using False by (auto simp: h_def)
    show ?thesis
    proof (cases "f h")
      case True
      have "search_loop f lo hi = search_loop f lo h"
        using False True by (subst search_loop.simps) (simp add: h_def Let_def)
      then show ?thesis
        using "1.IH"(2) [OF False h_def _ h(1) "1.prems"(2,3)] True h "1.prems"(4) by auto
    next
      case nf: False
      have "\<forall>i < Suc h. \<not> f i"
        using nf "1.prems"(2,4) h(2) by (metis less_Suc_eq_le order_less_le_trans)
      moreover have "search_loop f lo hi = search_loop f (Suc h) hi"
        using False nf by (subst search_loop.simps) (simp add: h_def Let_def)
      ultimately show ?thesis
        using "1.IH"(1) [OF False h_def nf _ "1.prems"(2)] h "1.prems"(4,5) by simp
    qed
  qed
qed

lemma Search_least:
  assumes "\<And>i j. i \<le> j \<Longrightarrow> j < n \<Longrightarrow> f i \<Longrightarrow> f j"
  shows "Search n f \<le> n \<and> (\<forall>i < Search n f. \<not> f i) \<and> (f (Search n f) \<or> Search n f = n)"
  unfolding Search_def using assms by (intro search_loop_least) blast+

text \<open>On a list with strictly increasing keys it finds the one element that has the key.\<close>

lemma Search_key:
  fixes key :: "'a \<Rightarrow> 'k::linorder" and k :: 'k
  assumes "sorted (map key xs)" and "distinct (map key xs)" and i: "i = Search (length xs) (\<lambda>i. k \<le> key (xs ! i))"
  shows "(if i < length xs \<and> key (xs ! i) = k then Some (xs ! i) else None) = find (\<lambda>x. key x = k) xs"
proof -
  have mono: "key (xs ! i) \<le> key (xs ! j)" if "i \<le> j" "j < length xs" for i j
    using assms(1) that sorted_nth_mono [of "map key xs" i j] by simp
  have least: "i \<le> length xs" "\<forall>j < i. key (xs ! j) < k" "i = length xs \<or> k \<le> key (xs ! i)"
  proof -
    have "k \<le> key (xs ! j)" if "i \<le> j" "j < length xs" "k \<le> key (xs ! i)" for i j
      using mono [of i j] that by auto
    from Search_least [of "length xs" "\<lambda>i. k \<le> key (xs ! i)", OF this]
    show "i \<le> length xs" "\<forall>j < i. key (xs ! j) < k" "i = length xs \<or> k \<le> key (xs ! i)"
      unfolding i by (auto simp: not_le)
  qed
  show ?thesis
  proof (cases "i < length xs \<and> key (xs ! i) = k")
    case True
    then have "find (\<lambda>x. key x = k) xs = Some (xs ! i)"
      using least(2) by (auto simp: find_Some_iff intro!: exI [of _ i])
    then show ?thesis
      using True by simp
  next
    case False
    have "key x \<noteq> k" if x: "x \<in> set xs" for x
    proof -
      obtain j where j: "j < length xs" "x = xs ! j"
        using x by (auto simp: in_set_conv_nth)
      show ?thesis
      proof (cases "j < i")
        case True
        then show ?thesis
          using least(2) j by auto
      next
        case ge: False
        then have "k < key (xs ! i)" "i < length xs"
          using False least j by auto
        then show ?thesis
          using mono [of i j] ge j by auto
      qed
    qed
    then have "find (\<lambda>x. key x = k) xs = None"
      by (simp add: find_None_iff)
    then show ?thesis
      using False by simp
  qed
qed

end
