(* ===== verification/GoStrings.thy ===== *)
theory GoStrings imports Prelude begin

text \<open>
  What the program uses of Go's \<^verbatim>\<open>strings\<close>, \<^verbatim>\<open>unicode\<close> and \<^verbatim>\<open>unicode/utf8\<close> packages. A Go
  string is a byte string; ranging over it decodes UTF-8, an invalid byte giving U+FFFD with
  width one. The Unicode property tables for code points from 128 on are data that the
  standard library generates; they are the fields of the record \<open>unicode\<close>, an
  argument of every definition that consults them. ASCII, white space and UTF-8 are written out.
\<close>

section \<open>UTF-8\<close>

definition byte_of :: "char \<Rightarrow> nat" where
  "byte_of c = of_char c"

definition byte :: "nat \<Rightarrow> char" where
  "byte n = char_of n"

definition rune_error :: nat where
  "rune_error = 65533"

definition in_range :: "nat \<Rightarrow> nat \<Rightarrow> char \<Rightarrow> bool" where
  "in_range lo hi c \<longleftrightarrow> lo \<le> byte_of c \<and> byte_of c \<le> hi"

text \<open>\<^verbatim>\<open>utf8.DecodeRuneInString\<close> of a non-empty string: the rune and its width less one.\<close>

fun decode_rune :: "char \<Rightarrow> string \<Rightarrow> nat \<times> nat" where
  "decode_rune c cs =
     (let b0 = byte_of c in
      if b0 < 128 then (b0, 0)
      else if 194 \<le> b0 \<and> b0 \<le> 223 then
        (case cs of c1 # _ \<Rightarrow>
           if in_range 128 191 c1 then ((b0 - 192) * 64 + (byte_of c1 - 128), 1) else (rune_error, 0)
         | _ \<Rightarrow> (rune_error, 0))
      else if 224 \<le> b0 \<and> b0 \<le> 239 then
        (case cs of c1 # c2 # _ \<Rightarrow>
           if in_range (if b0 = 224 then 160 else 128) (if b0 = 237 then 159 else 191) c1
              \<and> in_range 128 191 c2
           then ((b0 - 224) * 4096 + (byte_of c1 - 128) * 64 + (byte_of c2 - 128), 2)
           else (rune_error, 0)
         | _ \<Rightarrow> (rune_error, 0))
      else if 240 \<le> b0 \<and> b0 \<le> 244 then
        (case cs of c1 # c2 # c3 # _ \<Rightarrow>
           if in_range (if b0 = 240 then 144 else 128) (if b0 = 244 then 143 else 191) c1
              \<and> in_range 128 191 c2 \<and> in_range 128 191 c3
           then ((b0 - 240) * 262144 + (byte_of c1 - 128) * 4096 + (byte_of c2 - 128) * 64
                 + (byte_of c3 - 128), 3)
           else (rune_error, 0)
         | _ \<Rightarrow> (rune_error, 0))
      else (rune_error, 0))"

text \<open>The runes of a string, each with the bytes it was decoded from.\<close>

function segs :: "string \<Rightarrow> (nat \<times> string) list" where
  "segs [] = []"
| "segs (c # cs) =
     (let (r, n) = decode_rune c cs in (r, c # take n cs) # segs (drop n cs))"
  by pat_completeness auto
termination
  by (relation "measure length") auto

declare decode_rune.simps [simp del]

definition runes :: "string \<Rightarrow> nat list" where
  "runes s = map fst (segs s)"

definition valid_utf8 :: "string \<Rightarrow> bool" where
  "valid_utf8 s \<longleftrightarrow> (\<forall>(r, b) \<in> set (segs s). r \<noteq> rune_error \<or> length b = 3)"

definition scalar :: "nat \<Rightarrow> bool" where
  "scalar r \<longleftrightarrow> r < 1114112 \<and> \<not> (55296 \<le> r \<and> r < 57344)"

text \<open>\<^verbatim>\<open>utf8.AppendRune\<close>: anything that is not a scalar value is written as U+FFFD.\<close>

definition encode_rune :: "nat \<Rightarrow> string" where
  "encode_rune r0 =
     (let r = (if scalar r0 then r0 else rune_error) in
      if r < 128 then [byte r]
      else if r < 2048 then [byte (192 + r div 64), byte (128 + r mod 64)]
      else if r < 65536 then
        [byte (224 + r div 4096), byte (128 + r div 64 mod 64), byte (128 + r mod 64)]
      else
        [byte (240 + r div 262144), byte (128 + r div 4096 mod 64),
         byte (128 + r div 64 mod 64), byte (128 + r mod 64)])"

definition encode :: "nat list \<Rightarrow> string" where
  "encode rs = concat (map encode_rune rs)"

section \<open>Properties of runes\<close>

record unicode =
  u_letter :: "nat \<Rightarrow> bool"
  u_digit :: "nat \<Rightarrow> bool"
  u_cf :: "nat \<Rightarrow> bool"
  u_print :: "nat \<Rightarrow> bool"
  u_upper :: "nat \<Rightarrow> nat"
  u_lower :: "nat \<Rightarrow> nat"

text \<open>A concrete table with no letters beyond ASCII, for evaluation.\<close>

definition ascii_tables :: unicode where
  "ascii_tables = \<lparr>u_letter = (\<lambda>_. False), u_digit = (\<lambda>_. False), u_cf = (\<lambda>_. False),
     u_print = (\<lambda>_. False), u_upper = id, u_lower = id\<rparr>"

definition is_upper_az :: "nat \<Rightarrow> bool" where
  "is_upper_az r \<longleftrightarrow> 65 \<le> r \<and> r \<le> 90"

definition is_lower_az :: "nat \<Rightarrow> bool" where
  "is_lower_az r \<longleftrightarrow> 97 \<le> r \<and> r \<le> 122"

definition is_09 :: "nat \<Rightarrow> bool" where
  "is_09 r \<longleftrightarrow> 48 \<le> r \<and> r \<le> 57"

lemmas ascii_class_defs [go_defs] = is_upper_az_def is_lower_az_def is_09_def

definition IsLetter :: "unicode \<Rightarrow> nat \<Rightarrow> bool" where
  "IsLetter u r = (if r < 128 then is_upper_az r \<or> is_lower_az r else u_letter u r)"

definition IsDigit :: "unicode \<Rightarrow> nat \<Rightarrow> bool" where
  "IsDigit u r = (if r < 128 then is_09 r else u_digit u r)"

definition IsSpace :: "nat \<Rightarrow> bool" where
  "IsSpace r \<longleftrightarrow> 9 \<le> r \<and> r \<le> 13 \<or> r = 32 \<or> r = 133 \<or> r = 160 \<or> r = 5760
     \<or> 8192 \<le> r \<and> r \<le> 8202 \<or> r = 8232 \<or> r = 8233 \<or> r = 8239 \<or> r = 8287 \<or> r = 12288"

definition rune_upper :: "unicode \<Rightarrow> nat \<Rightarrow> nat" where
  "rune_upper u r = (if r < 128 then (if is_lower_az r then r - 32 else r) else u_upper u r)"

definition rune_lower :: "unicode \<Rightarrow> nat \<Rightarrow> nat" where
  "rune_lower u r = (if r < 128 then (if is_upper_az r then r + 32 else r) else u_lower u r)"

section \<open>Operations of package strings\<close>

definition ToUpper :: "unicode \<Rightarrow> string \<Rightarrow> string" where
  "ToUpper u s = encode (map (rune_upper u) (runes s))"

definition ToLower :: "unicode \<Rightarrow> string \<Rightarrow> string" where
  "ToLower u s = encode (map (rune_lower u) (runes s))"

definition seg_space :: "nat \<times> string \<Rightarrow> bool" where
  "seg_space p = IsSpace (fst p)"

definition drop_end :: "('a \<Rightarrow> bool) \<Rightarrow> 'a list \<Rightarrow> 'a list" where
  "drop_end P xs = rev (dropWhile P (rev xs))"

definition TrimSpace :: "string \<Rightarrow> string" where
  "TrimSpace s = concat (map snd (drop_end seg_space (dropWhile seg_space (segs s))))"

text \<open>\<^verbatim>\<open>strings.Fields\<close>: the maximal runs of segments that are not white space.\<close>

fun fields_aux :: "string \<Rightarrow> (nat \<times> string) list \<Rightarrow> string list" where
  "fields_aux cur [] = (if cur = [] then [] else [cur])"
| "fields_aux cur ((r, b) # ss) =
     (if IsSpace r then (if cur = [] then fields_aux [] ss else cur # fields_aux [] ss)
      else fields_aux (cur @ b) ss)"

definition Fields :: "string \<Rightarrow> string list" where
  "Fields s = fields_aux [] (segs s)"

fun Join :: "string list \<Rightarrow> string \<Rightarrow> string" where
  "Join [] sep = []"
| "Join [x] sep = x"
| "Join (x # xs) sep = x @ sep @ Join xs sep"

fun HasPrefix :: "string \<Rightarrow> string \<Rightarrow> bool" where
  "HasPrefix s [] = True"
| "HasPrefix [] (c # p) = False"
| "HasPrefix (d # s) (c # p) = (d = c \<and> HasPrefix s p)"

fun Contains :: "string \<Rightarrow> string \<Rightarrow> bool" where
  "Contains [] p = (p = [])"
| "Contains (c # s) p = (HasPrefix (c # s) p \<or> Contains s p)"

text \<open>\<^verbatim>\<open>strings.ReplaceAll\<close> of a single byte, the only form the modelled code uses on names.\<close>

definition replace_byte :: "string \<Rightarrow> char \<Rightarrow> string \<Rightarrow> string" where
  "replace_byte s c new = concat (map (\<lambda>d. if d = c then new else [d]) s)"

definition space_ch :: char where
  "space_ch = CHR '' ''"

section \<open>ASCII strings\<close>

definition ascii :: "string \<Rightarrow> bool" where
  "ascii s \<longleftrightarrow> (\<forall>c \<in> set s. byte_of c < 128)"

lemma byte_of_byte [simp]: "n < 256 \<Longrightarrow> byte_of (byte n) = n"
  by (simp add: byte_of_def byte_def of_char_of)

lemma byte_byte_of [simp]: "byte (byte_of c) = c"
  by (simp add: byte_of_def byte_def)

lemma byte_of_less [simp]: "byte_of c < 256"
  using of_char_of [of "of_char c"] by (simp add: byte_of_def)

lemma decode_rune_ascii: "byte_of c < 128 \<Longrightarrow> decode_rune c cs = (byte_of c, 0)"
  by (simp add: decode_rune.simps)

lemma segs_ascii: "ascii s \<Longrightarrow> segs s = map (\<lambda>c. (byte_of c, [c])) s"
  by (induction s) (auto simp: ascii_def decode_rune_ascii)

lemma runes_ascii: "ascii s \<Longrightarrow> runes s = map byte_of s"
  by (simp add: runes_def segs_ascii)

lemma encode_rune_ascii: "r < 128 \<Longrightarrow> encode_rune r = [byte r]"
  by (simp add: encode_rune_def scalar_def)

lemma encode_ascii: "(\<forall>r \<in> set rs. r < 128) \<Longrightarrow> encode rs = map byte rs"
  by (induction rs) (auto simp: encode_def encode_rune_ascii)

lemma encode_Nil [simp]: "encode [] = []"
  by (simp add: encode_def)

lemma encode_append [simp]: "encode (xs @ ys) = encode xs @ encode ys"
  by (simp add: encode_def)

lemma encode_Cons: "encode (r # rs) = encode_rune r @ encode rs"
  by (simp add: encode_def)

lemma encode_rune_nonempty [simp]: "encode_rune r \<noteq> []"
  by (simp add: encode_rune_def Let_def)

lemma encode_eq_Nil [simp]: "encode rs = [] \<longleftrightarrow> rs = []"
  by (cases rs) (auto simp: encode_def)

section \<open>Decoding what was encoded\<close>

lemma scalar_rune_error [simp]: "scalar rune_error"
  by (simp add: scalar_def rune_error_def)

text \<open>The payload bits of each encoding length, before they are packed into bytes.\<close>

lemma decode_bits_2:
  assumes "2 \<le> a" "a < 32" "b < 64"
  shows "decode_rune (byte (192 + a)) (byte (128 + b) # cs) = (a * 64 + b, 1)"
  using assms by (simp add: decode_rune.simps in_range_def)

lemma decode_bits_3:
  assumes "a < 16" "b < 64" "c < 64" "a = 0 \<longrightarrow> 32 \<le> b" "a = 13 \<longrightarrow> b < 32"
  shows "decode_rune (byte (224 + a)) (byte (128 + b) # byte (128 + c) # cs)
    = (a * 4096 + b * 64 + c, 2)"
  using assms by (cases "a = 13") (simp_all add: decode_rune.simps in_range_def)

lemma decode_bits_4:
  assumes "a < 5" "b < 64" "c < 64" "d < 64" "a = 0 \<longrightarrow> 16 \<le> b" "a = 4 \<longrightarrow> b < 16"
  shows "decode_rune (byte (240 + a)) (byte (128 + b) # byte (128 + c) # byte (128 + d) # cs)
    = (a * 262144 + b * 4096 + c * 64 + d, 3)"
  using assms by (cases "a = 4") (simp_all add: decode_rune.simps in_range_def)

lemma split_64: "r = r div 64 * 64 + r mod (64 :: nat)"
  by simp

lemma split_4096: "r div 64 = r div 4096 * 64 + r div 64 mod (64 :: nat)"
  using div_mult_mod_eq [of "r div 64" 64] by (simp add: div_mult2_eq [symmetric])

lemma split_262144: "r div 4096 = r div 262144 * 64 + r div 4096 mod (64 :: nat)"
  using div_mult_mod_eq [of "r div 4096" 64] by (simp add: div_mult2_eq [symmetric])

lemma decode_encode_2:
  assumes "128 \<le> r" "r < 2048"
  shows "decode_rune (byte (192 + r div 64)) (byte (128 + r mod 64) # cs) = (r, 1)"
  using assms decode_bits_2 [of "r div 64" "r mod 64" cs] by fastforce

lemma decode_encode_3:
  assumes "2048 \<le> r" "r < 65536" "scalar r"
  shows "decode_rune (byte (224 + r div 4096))
    (byte (128 + r div 64 mod 64) # byte (128 + r mod 64) # cs) = (r, 2)"
proof -
  obtain a b c where abc: "a = r div 4096" "b = r div 64 mod 64" "c = r mod 64" by simp
  have r: "r = a * 4096 + b * 64 + c"
    using split_64 [of r] split_4096 [of r] unfolding abc by linarith
  have bounds: "a < 16" "b < 64" "c < 64"
    using assms(2) by (auto simp: abc)
  have "a = 0 \<longrightarrow> 32 \<le> b" "a = 13 \<longrightarrow> b < 32"
    using assms r bounds by (auto simp: scalar_def)
  then have "decode_rune (byte (224 + a)) (byte (128 + b) # byte (128 + c) # cs) = (r, 2)"
    unfolding r using bounds by (intro decode_bits_3)
  then show ?thesis
    unfolding abc .
qed

lemma decode_encode_4:
  assumes "65536 \<le> r" "r < 1114112"
  shows "decode_rune (byte (240 + r div 262144))
    (byte (128 + r div 4096 mod 64) # byte (128 + r div 64 mod 64) # byte (128 + r mod 64) # cs)
    = (r, 3)"
proof -
  obtain a b c d where abcd: "a = r div 262144" "b = r div 4096 mod 64" "c = r div 64 mod 64"
    "d = r mod 64" by simp
  have r: "r = a * 262144 + b * 4096 + c * 64 + d"
    using split_64 [of r] split_4096 [of r] split_262144 [of r] unfolding abcd by linarith
  have bounds: "a < 5" "b < 64" "c < 64" "d < 64"
    using assms(2) by (auto simp: abcd)
  have "a = 0 \<longrightarrow> 16 \<le> b" "a = 4 \<longrightarrow> b < 16"
    using assms r bounds by auto
  then have "decode_rune (byte (240 + a)) (byte (128 + b) # byte (128 + c) # byte (128 + d) # cs)
      = (r, 3)"
    unfolding r using bounds by (intro decode_bits_4)
  then show ?thesis
    unfolding abcd .
qed

lemma segs_encode_rune:
  assumes "scalar r"
  shows "segs (encode_rune r @ cs) = (r, encode_rune r) # segs cs"
proof -
  consider "r < 128" | "128 \<le> r" "r < 2048" | "2048 \<le> r" "r < 65536" | "65536 \<le> r" "r < 1114112"
    using assms by (force simp: scalar_def)
  then show ?thesis
    using assms
    by cases (simp_all add: encode_rune_def decode_rune_ascii decode_encode_2 decode_encode_3
        decode_encode_4)
qed

text \<open>The round trip of UTF-8 on scalar values.\<close>

lemma segs_encode:
  "(\<forall>r \<in> set rs. scalar r) \<Longrightarrow> segs (encode rs) = map (\<lambda>r. (r, encode_rune r)) rs"
  by (induction rs) (simp_all add: encode_Cons segs_encode_rune)

lemma runes_encode: "(\<forall>r \<in> set rs. scalar r) \<Longrightarrow> runes (encode rs) = rs"
  by (simp add: runes_def segs_encode comp_def)

lemma scalar_bits_3:
  "a < 16 \<Longrightarrow> b < 64 \<Longrightarrow> c < 64 \<Longrightarrow> a = 13 \<longrightarrow> b < 32 \<Longrightarrow> scalar (a * 4096 + b * 64 + c)"
  by (cases "a < 13"; cases "a = 13") (auto simp: scalar_def)

lemma scalar_bits_4:
  "a < 5 \<Longrightarrow> b < 64 \<Longrightarrow> c < 64 \<Longrightarrow> d < 64 \<Longrightarrow> a = 0 \<longrightarrow> 16 \<le> b \<Longrightarrow> a = 4 \<longrightarrow> b < 16
    \<Longrightarrow> scalar (a * 262144 + b * 4096 + c * 64 + d)"
  by (cases "a = 0"; cases "a = 4") (auto simp: scalar_def)

lemma scalar_small: "r < 2048 \<Longrightarrow> scalar r"
  by (simp add: scalar_def)

lemma scalar_rune_2:
  "194 \<le> x \<Longrightarrow> x \<le> 223 \<Longrightarrow> in_range 128 191 c1 \<Longrightarrow> scalar ((x - 192) * 64 + (byte_of c1 - 128))"
  by (rule scalar_small) (auto simp: in_range_def)

lemma scalar_rune_3:
  "224 \<le> x \<Longrightarrow> x \<le> 239 \<Longrightarrow> in_range (if x = 224 then 160 else 128) (if x = 237 then 159 else 191) c1 \<Longrightarrow> in_range 128 191 c2
    \<Longrightarrow> scalar ((x - 224) * 4096 + (byte_of c1 - 128) * 64 + (byte_of c2 - 128))"
  by (rule scalar_bits_3) (auto simp: in_range_def split: if_splits)

lemma scalar_rune_4:
  "240 \<le> x \<Longrightarrow> x \<le> 244 \<Longrightarrow> in_range (if x = 240 then 144 else 128) (if x = 244 then 143 else 191) c1
    \<Longrightarrow> in_range 128 191 c2 \<Longrightarrow> in_range 128 191 c3
    \<Longrightarrow> scalar ((x - 240) * 262144 + (byte_of c1 - 128) * 4096 + (byte_of c2 - 128) * 64
         + (byte_of c3 - 128))"
  by (rule scalar_bits_4) (auto simp: in_range_def split: if_splits)

lemma scalar_if: "scalar (fst (if P then (r, n) else (rune_error, m))) \<longleftrightarrow> (P \<longrightarrow> scalar r)"
  by simp

lemma decode_rune_scalar: "scalar (fst (decode_rune c cs))"
proof -
  let ?b = "byte_of c"
  consider "?b < 128" | "128 \<le> ?b" "\<not> (194 \<le> ?b \<and> ?b \<le> 244)" | "194 \<le> ?b" "?b \<le> 223"
    | "224 \<le> ?b" "?b \<le> 239" | "240 \<le> ?b" "?b \<le> 244"
    by linarith
  then show ?thesis
  proof cases
    case 1
    then show ?thesis by (simp add: decode_rune_ascii scalar_small)
  next
    case 2
    then have "\<not> ?b < 128" "\<not> (194 \<le> ?b \<and> ?b \<le> 223)" "\<not> (224 \<le> ?b \<and> ?b \<le> 239)"
      "\<not> (240 \<le> ?b \<and> ?b \<le> 244)" by linarith+
    then show ?thesis
      unfolding decode_rune.simps Let_def by (simp only: if_not_P if_False fst_conv scalar_rune_error)
  next
    case 3
    then show ?thesis by (simp add: decode_rune.simps scalar_if scalar_rune_2 split: list.split)
  next
    case 4
    then show ?thesis
      by (simp add: decode_rune.simps Let_def scalar_if scalar_rune_3 split: list.split split del: if_split)
  next
    case 5
    then show ?thesis
      by (simp add: decode_rune.simps Let_def scalar_if scalar_rune_4 split: list.split split del: if_split)
  qed
qed

lemma segs_scalar: "(r, b) \<in> set (segs s) \<Longrightarrow> scalar r"
proof (induction s rule: segs.induct)
  case 1
  then show ?case by simp
next
  case (2 c cs)
  obtain r' n where d: "decode_rune c cs = (r', n)"
    by fastforce
  have "scalar r'"
    using decode_rune_scalar [of c cs] d by simp
  then show ?case
    using 2 d by (auto split: prod.splits)
qed

lemma runes_scalar: "r \<in> set (runes s) \<Longrightarrow> scalar r"
  by (auto simp: runes_def dest: segs_scalar)

lemma segs_bytes_nonempty: "(r, b) \<in> set (segs s) \<Longrightarrow> b \<noteq> []"
  by (induction s rule: segs.induct) (auto split: prod.splits)

lemma concat_segs: "concat (map snd (segs s)) = s"
  by (induction s rule: segs.induct) (auto split: prod.splits)

section \<open>Trimming and splitting\<close>

lemma drop_end_Nil [simp]: "drop_end P [] = []"
  by (simp add: drop_end_def)

lemma set_drop_end: "set (drop_end P xs) \<subseteq> set xs"
  by (auto simp: drop_end_def dest: set_dropWhileD)

lemma drop_end_id: "xs = [] \<or> \<not> P (last xs) \<Longrightarrow> drop_end P xs = xs"
  by (cases xs rule: rev_cases) (auto simp: drop_end_def)

lemma drop_end_last: "drop_end P xs \<noteq> [] \<Longrightarrow> \<not> P (last (drop_end P xs))"
  by (induction xs rule: rev_induct) (auto simp: drop_end_def)

lemma dropWhile_id: "xs = [] \<or> \<not> P (hd xs) \<Longrightarrow> dropWhile P xs = xs"
  by (cases xs) auto

text \<open>A list of runes whose first and last are not white space is left alone.\<close>

lemma TrimSpace_encode_id:
  assumes "\<forall>r \<in> set rs. scalar r" and "rs = [] \<or> \<not> IsSpace (hd rs)" and "rs = [] \<or> \<not> IsSpace (last rs)"
  shows "TrimSpace (encode rs) = encode rs"
proof -
  let ?m = "map (\<lambda>r. (r, encode_rune r)) rs"
  have "dropWhile seg_space ?m = ?m"
    using assms(2) by (intro dropWhile_id) (auto simp: hd_map seg_space_def)
  moreover have "drop_end seg_space ?m = ?m"
    using assms(3) by (intro drop_end_id) (auto simp: last_map seg_space_def)
  ultimately have "TrimSpace (encode rs) = concat (map snd ?m)"
    by (simp add: TrimSpace_def segs_encode [OF assms(1)])
  then show ?thesis
    by (simp add: encode_def comp_def)
qed

lemma TrimSpace_Nil [simp]: "TrimSpace [] = []"
  by (simp add: TrimSpace_def)

lemma Fields_Nil [simp]: "Fields [] = []"
  by (simp add: Fields_def)

lemma fields_aux_nonempty:
  "(\<forall>(r, b) \<in> set ss. b \<noteq> []) \<Longrightarrow> f \<in> set (fields_aux cur ss) \<Longrightarrow> f \<noteq> []"
  by (induction cur ss rule: fields_aux.induct) (auto split: if_splits)

lemma Fields_nonempty: "f \<in> set (Fields s) \<Longrightarrow> f \<noteq> []"
  unfolding Fields_def by (rule fields_aux_nonempty) (auto dest: segs_bytes_nonempty)

lemma HasPrefix_iff: "HasPrefix s p \<longleftrightarrow> (\<exists>t. s = p @ t)"
  by (induction s p rule: HasPrefix.induct) auto

lemma Join_snoc: "Join (xs @ [y]) sep = (if xs = [] then y else Join xs sep @ sep @ y)"
  by (induction xs sep rule: Join.induct) auto

lemma Contains_iff: "Contains s p \<longleftrightarrow> (\<exists>a b. s = a @ p @ b)"
proof (induction s p rule: Contains.induct)
  case (1 p)
  then show ?case by auto
next
  case (2 c s p)
  have "(\<exists>a b. c # s = a @ p @ b) \<longleftrightarrow> (\<exists>b. c # s = p @ b) \<or> (\<exists>a b. s = a @ p @ b)"
    by (auto simp: Cons_eq_append_conv)
  then show ?case
    using 2 by (simp add: HasPrefix_iff)
qed

lemma HasPrefix_Contains: "HasPrefix s p \<Longrightarrow> Contains s p"
  by (metis Contains_iff HasPrefix_iff append_Nil)

section \<open>Decoding parts of a string\<close>

text \<open>Decoding is one of five shapes, according to the first byte.\<close>

definition cont1 :: "(char \<Rightarrow> nat) \<Rightarrow> (char \<Rightarrow> bool) \<Rightarrow> string \<Rightarrow> nat \<times> nat" where
  "cont1 f P cs = (case cs of c1 # _ \<Rightarrow> if P c1 then (f c1, 1) else (rune_error, 0) | _ \<Rightarrow> (rune_error, 0))"

definition cont2 :: "(char \<Rightarrow> char \<Rightarrow> nat) \<Rightarrow> (char \<Rightarrow> char \<Rightarrow> bool) \<Rightarrow> string \<Rightarrow> nat \<times> nat" where
  "cont2 f P cs =
     (case cs of c1 # c2 # _ \<Rightarrow> if P c1 c2 then (f c1 c2, 2) else (rune_error, 0) | _ \<Rightarrow> (rune_error, 0))"

definition cont3 ::
  "(char \<Rightarrow> char \<Rightarrow> char \<Rightarrow> nat) \<Rightarrow> (char \<Rightarrow> char \<Rightarrow> char \<Rightarrow> bool) \<Rightarrow> string \<Rightarrow> nat \<times> nat" where
  "cont3 f P cs =
     (case cs of c1 # c2 # c3 # _ \<Rightarrow> if P c1 c2 c3 then (f c1 c2 c3, 3) else (rune_error, 0)
      | _ \<Rightarrow> (rune_error, 0))"

lemma decode_rune_shape:
  obtains (ascii) "byte_of c < 128" "\<And>cs. decode_rune c cs = (byte_of c, 0)"
  | (bad) "128 \<le> byte_of c" "\<And>cs. decode_rune c cs = (rune_error, 0)"
  | (two) f P where "128 \<le> byte_of c" "\<And>cs. decode_rune c cs = cont1 f P cs"
      "\<And>c1. P c1 \<Longrightarrow> 128 \<le> byte_of c1"
  | (three) f P where "128 \<le> byte_of c" "\<And>cs. decode_rune c cs = cont2 f P cs"
      "\<And>c1 c2. P c1 c2 \<Longrightarrow> 128 \<le> byte_of c1 \<and> 128 \<le> byte_of c2"
  | (four) f P where "128 \<le> byte_of c" "\<And>cs. decode_rune c cs = cont3 f P cs"
      "\<And>c1 c2 c3. P c1 c2 c3 \<Longrightarrow> 128 \<le> byte_of c1 \<and> 128 \<le> byte_of c2 \<and> 128 \<le> byte_of c3"
proof -
  let ?b = "byte_of c"
  consider "?b < 128" | "128 \<le> ?b" "\<not> (194 \<le> ?b \<and> ?b \<le> 244)" | "194 \<le> ?b" "?b \<le> 223"
    | "224 \<le> ?b" "?b \<le> 239" | "240 \<le> ?b" "?b \<le> 244"
    by linarith
  then show ?thesis
  proof cases
    case 1
    then show ?thesis by (intro ascii) (simp_all add: decode_rune_ascii)
  next
    case 2
    then have "\<not> ?b < 128" "\<not> (194 \<le> ?b \<and> ?b \<le> 223)" "\<not> (224 \<le> ?b \<and> ?b \<le> 239)"
      "\<not> (240 \<le> ?b \<and> ?b \<le> 244)" by linarith+
    then show ?thesis
      using 2 by (intro bad) (simp_all only: decode_rune.simps Let_def if_False)
  next
    case 3
    show ?thesis
      by (rule two [of "\<lambda>c1. (?b - 192) * 64 + (byte_of c1 - 128)" "in_range 128 191"])
        (use 3 in \<open>simp_all add: decode_rune.simps cont1_def in_range_def\<close>)
  next
    case 4
    show ?thesis
      by (rule three [of "\<lambda>c1 c2. (?b - 224) * 4096 + (byte_of c1 - 128) * 64 + (byte_of c2 - 128)"
            "\<lambda>c1 c2. in_range (if ?b = 224 then 160 else 128) (if ?b = 237 then 159 else 191) c1
              \<and> in_range 128 191 c2"])
        (use 4 in \<open>simp_all add: decode_rune.simps cont2_def Let_def del: if_split_asm split del: if_split\<close>,
         auto simp: in_range_def split: if_splits)
  next
    case 5
    show ?thesis
      by (rule four [of "\<lambda>c1 c2 c3. (?b - 240) * 262144 + (byte_of c1 - 128) * 4096
              + (byte_of c2 - 128) * 64 + (byte_of c3 - 128)"
            "\<lambda>c1 c2 c3. in_range (if ?b = 240 then 144 else 128) (if ?b = 244 then 143 else 191) c1
              \<and> in_range 128 191 c2 \<and> in_range 128 191 c3"])
        (use 5 in \<open>simp_all add: decode_rune.simps cont3_def Let_def split del: if_split\<close>,
         auto simp: in_range_def split: if_splits)
  qed
qed

lemmas cont_defs = cont1_def cont2_def cont3_def

lemma decode_rune_width: "snd (decode_rune c cs) \<le> length cs"
  by (cases c rule: decode_rune_shape) (auto simp: cont_defs split: list.split)

lemma decode_rune_ext: "0 < snd (decode_rune c cs) \<Longrightarrow> decode_rune c (cs @ ds) = decode_rune c cs"
  by (cases c rule: decode_rune_shape) (auto simp: cont_defs split: list.splits if_splits)

lemma decode_rune_prefix:
  assumes "snd (decode_rune c (cs @ ds)) \<le> length cs"
  shows "decode_rune c (cs @ ds) = decode_rune c cs"
  using assms
  by (cases c rule: decode_rune_shape; cases cs rule: remdups_adj.cases; cases ds)
    (auto simp: cont_defs split: list.splits if_splits)

definition ascii_start :: "string \<Rightarrow> bool" where
  "ascii_start s \<longleftrightarrow> s = [] \<or> byte_of (hd s) < 128"

lemma decode_rune_ascii_start: "ascii_start ds \<Longrightarrow> decode_rune c (cs @ ds) = decode_rune c cs"
  unfolding ascii_start_def
  by (cases c rule: decode_rune_shape; cases cs rule: remdups_adj.cases; cases ds)
    (auto simp: cont_defs dest: leD split: list.splits if_splits, (metis leD)+)

lemma segs_prefix: "segs (concat (map snd (take n (segs s)))) = take n (segs s)"
proof (induction s arbitrary: n rule: segs.induct)
  case 1
  then show ?case by simp
next
  case (2 c cs)
  obtain r w where d: "decode_rune c cs = (r, w)"
    by fastforce
  show ?case
  proof (cases n)
    case 0
    then show ?thesis by simp
  next
    case (Suc m)
    let ?t = "concat (map snd (take m (segs (drop w cs))))"
    have w: "w \<le> length cs"
      using decode_rune_width [of c cs] d by simp
    have "cs = (take w cs @ ?t) @ concat (map snd (drop m (segs (drop w cs))))"
      by (metis append.assoc append_take_drop_id concat_append concat_segs map_append)
    then have "decode_rune c (take w cs @ ?t) = (r, w)"
      using decode_rune_prefix [of c "take w cs @ ?t"] d w
      by (metis (no_types, lifting) le_add1 length_append length_take min.absorb2 snd_conv)
    then show ?thesis
      using 2 [OF d [symmetric] refl, of m] d w Suc by simp
  qed
qed

lemma segs_suffix: "segs (concat (map snd (drop n (segs s)))) = drop n (segs s)"
proof (induction s arbitrary: n rule: segs.induct)
  case 1
  then show ?case by simp
next
  case (2 c cs)
  obtain r w where d: "decode_rune c cs = (r, w)"
    by fastforce
  show ?case
    using 2 [OF d [symmetric] refl, of "n - 1"] d concat_segs [of "drop w cs"]
    by (cases n) simp_all
qed

lemma segs_infix: "segs s = as @ bs @ cs \<Longrightarrow> segs (concat (map snd bs)) = bs"
proof -
  assume s: "segs s = as @ bs @ cs"
  have "segs (concat (map snd (bs @ cs))) = bs @ cs"
    using segs_suffix [of "length as" s] s by simp
  then show ?thesis
    using segs_prefix [of "length bs" "concat (map snd (bs @ cs))"] by simp
qed

lemma segs_append: "ascii_start ds \<Longrightarrow> segs (cs @ ds) = segs cs @ segs ds"
proof (induction cs rule: segs.induct)
  case 1
  then show ?case by simp
next
  case (2 c cs)
  obtain r w where d: "decode_rune c cs = (r, w)"
    by fastforce
  have "w \<le> length cs"
    using decode_rune_width [of c cs] d by simp
  then show ?case
    using "2.IH" [OF d [symmetric] refl "2.prems"] d decode_rune_ascii_start [OF "2.prems", of c cs] by simp
qed

end
