(* ===== verification/GoJson.thy ===== *)
theory GoJson imports GoStrings begin

text \<open>
  JSON values and their serialisation by Go's \<^verbatim>\<open>encoding/json\<close>, with which the program computes
  every content digest. A struct is serialised field by field in declaration order under its
  tags; \<^verbatim>\<open>omitempty\<close> fields are left out when empty. SHA-256 is a parameter: a function
  \<open>sha\<close> from the bytes to their lowercase hexadecimal digest.
\<close>

section \<open>Values\<close>

text \<open>\<open>JNum\<close> is a number that is kept as the text it was read as (\<^verbatim>\<open>json.Number\<close>).\<close>

datatype json =
    JNull
  | JBool bool
  | JInt int
  | JStr string
  | JArr "json list"
  | JObj "(string \<times> json) list"
  | JNum string

text \<open>Struct fields: \<open>fld\<close> always present, \<open>opt\<close> under \<^verbatim>\<open>omitempty\<close>.\<close>

definition fld :: "string \<Rightarrow> json \<Rightarrow> (string \<times> json) list" where
  "fld k v = [(k, v)]"

definition opt :: "string \<Rightarrow> bool \<Rightarrow> json \<Rightarrow> (string \<times> json) list" where
  "opt k is_empty v = (if is_empty then [] else [(k, v)])"

definition jstrs :: "string list \<Rightarrow> json" where
  "jstrs xs = JArr (map JStr xs)"

section \<open>Serialisation\<close>

definition digit_ch :: "nat \<Rightarrow> char" where
  "digit_ch d = byte (48 + d)"

fun decimal :: "nat \<Rightarrow> string" where
  "decimal n = (if n < 10 then [digit_ch n] else decimal (n div 10) @ [digit_ch (n mod 10)])"

declare decimal.simps [simp del]

definition decimal_int :: "int \<Rightarrow> string" where
  "decimal_int i = (if i < 0 then CHR ''-'' # decimal (nat (- i)) else decimal (nat i))"

definition hex_ch :: "nat \<Rightarrow> char" where
  "hex_ch d = (if d < 10 then byte (48 + d) else byte (87 + d))"

definition u_escape :: "nat \<Rightarrow> string" where
  "u_escape r = [CHR 0x5C, CHR ''u'', hex_ch (r div 4096), hex_ch (r div 256 mod 16),
     hex_ch (r div 16 mod 16), hex_ch (r mod 16)]"

text \<open>
  \<^verbatim>\<open>appendString\<close> with HTML escaping: quotes, backslashes, control characters, the HTML
  characters and the two line separators are escaped, and an invalid byte becomes \<^verbatim>\<open>\ufffd\<close>.
\<close>

definition escape_seg :: "nat \<times> string \<Rightarrow> string" where
  "escape_seg p =
     (let r = fst p; bs = snd p in
      if r = 34 then [CHR 0x5C, CHR 0x22]
      else if r = 92 then [CHR 0x5C, CHR 0x5C]
      else if r = 8 then [CHR 0x5C, CHR ''b'']
      else if r = 9 then [CHR 0x5C, CHR ''t'']
      else if r = 10 then [CHR 0x5C, CHR ''n'']
      else if r = 12 then [CHR 0x5C, CHR ''f'']
      else if r = 13 then [CHR 0x5C, CHR ''r'']
      else if r < 32 \<or> r = 38 \<or> r = 60 \<or> r = 62 \<or> r = 8232 \<or> r = 8233 then u_escape r
      else if r = rune_error \<and> length bs = 1 then u_escape r
      else bs)"

definition quote_json :: "string \<Rightarrow> string" where
  "quote_json s = [CHR 0x22] @ concat (map escape_seg (segs s)) @ [CHR 0x22]"

fun marshal :: "json \<Rightarrow> string" where
  "marshal JNull = ''null''"
| "marshal (JBool b) = (if b then ''true'' else ''false'')"
| "marshal (JInt i) = decimal_int i"
| "marshal (JStr s) = quote_json s"
| "marshal (JNum s) = s"
| "marshal (JArr vs) = ''['' @ Join (map marshal vs) '','' @ '']''"
| "marshal (JObj kvs) =
     ''{'' @ Join (map (\<lambda>p. quote_json (fst p) @ '':'' @ marshal (snd p)) kvs) '','' @ ''}''"

text \<open>
  \<^verbatim>\<open>CanonicalJSON\<close>: the value is serialised, read back into maps and serialised again, which
  sorts the members of every object by key and keeps the last of several members with one key.
\<close>

definition sort_members :: "(string \<times> json) list \<Rightarrow> (string \<times> json) list" where
  "sort_members kvs = map (\<lambda>k. (k, the (map_of (rev kvs) k))) (sorted_set (map fst kvs))"

fun canonical_json :: "json \<Rightarrow> json" where
  "canonical_json (JArr vs) = JArr (map canonical_json vs)"
| "canonical_json (JObj kvs) = JObj (sort_members (map (\<lambda>p. (fst p, canonical_json (snd p))) kvs))"
| "canonical_json v = v"

lemma keys_sort_members: "map fst (sort_members kvs) = sorted_set (map fst kvs)"
  by (simp add: sort_members_def comp_def)

lemma sort_members_values: "(k, v) \<in> set (sort_members kvs) \<Longrightarrow> (k, v) \<in> set kvs"
proof -
  assume "(k, v) \<in> set (sort_members kvs)"
  then have k: "k \<in> fst ` set kvs" "v = the (map_of (rev kvs) k)"
    by (auto simp: sort_members_def)
  then obtain w where "map_of (rev kvs) k = Some w"
    by (metis map_of_eq_None_iff not_None_eq set_rev)
  then show ?thesis
    using k(2) map_of_SomeD by fastforce
qed

lemma sort_members_sorted:
  "sorted (map fst kvs) \<Longrightarrow> distinct (map fst kvs) \<Longrightarrow> sort_members kvs = kvs"
proof -
  assume s: "sorted (map fst kvs)" and d: "distinct (map fst kvs)"
  have k: "sorted_set (map fst kvs) = map fst kvs"
    using s d by (intro sorted_distinct_set_unique) auto
  have "map_of (rev kvs) k = Some v" if "(k, v) \<in> set kvs" for k v
    using that d by (simp add: map_of_eq_Some_iff rev_map [symmetric])
  then show "sort_members kvs = kvs"
    unfolding sort_members_def k by (auto simp: comp_def intro!: map_idI)
qed

lemma canonical_json_idem: "canonical_json (canonical_json v) = canonical_json v"
proof (induction v rule: canonical_json.induct)
  case (2 kvs)
  let ?f = "\<lambda>p. (fst p, canonical_json (snd p))"
  have "?f p = p" if "p \<in> set (sort_members (map ?f kvs))" for p
    using that sort_members_values [of "fst p" "snd p" "map ?f kvs"] 2 by (cases p) auto
  then have "map ?f (sort_members (map ?f kvs)) = sort_members (map ?f kvs)"
    by (rule map_idI)
  then show ?case
    by (simp add: sort_members_sorted keys_sort_members)
qed (simp_all cong: map_cong)

section \<open>Digests\<close>

definition digest_json :: "(string \<Rightarrow> string) \<Rightarrow> json \<Rightarrow> string" where
  "digest_json sha v = sha (marshal v)"

definition digest_canonical :: "(string \<Rightarrow> string) \<Rightarrow> json \<Rightarrow> string" where
  "digest_canonical sha v = sha (marshal (canonical_json v))"

text \<open>Two different inputs with one digest.\<close>

definition collision :: "('a \<Rightarrow> 'b) \<Rightarrow> bool" where
  "collision h \<longleftrightarrow> (\<exists>x y. x \<noteq> y \<and> h x = h y)"

section \<open>Optional members and slices\<close>

definition opts :: "string \<Rightarrow> string list \<Rightarrow> (string \<times> json) list" where
  "opts k xs = opt k (xs = []) (jstrs xs)"

text \<open>A slice without \<^verbatim>\<open>omitempty\<close>: nil is written as \<^verbatim>\<open>null\<close>.\<close>

definition jslice :: "string list \<Rightarrow> json" where
  "jslice xs = (if xs = [] then JNull else jstrs xs)"

definition opt_member :: "string \<Rightarrow> ('a \<Rightarrow> json) \<Rightarrow> 'a option \<Rightarrow> (string \<times> json) list" where
  "opt_member k f v = (case v of None \<Rightarrow> [] | Some x \<Rightarrow> [(k, f x)])"

lemma decimal_nonempty [simp]: "decimal n \<noteq> []"
  by (subst decimal.simps) simp

lemma fld_simps [simp]: "fld k v = [(k, v)]"
  by (simp add: fld_def)

end
