(* ===== verification/HashChain.thy ===== *)
theory HashChain imports GoJson begin

text \<open>
  The append-only logs of the program share one shape: every event carries its sequence
  number, the digest of its predecessor and its own digest, computed with the digest field
  blank. The locale \<open>hash_chain\<close> states what a component's event type provides, and its
  lemmas say what verifying such a log means; each component interprets it on its own events.
\<close>

section \<open>Verifying a log\<close>

text \<open>
  The verification loop: position (from 0), previous digest, remaining events. \<open>hash\<close> is
  the digest of the event with its own digest field cleared.
\<close>

fun chain_ok ::
  "('e \<Rightarrow> 64 word) \<Rightarrow> ('e \<Rightarrow> string) \<Rightarrow> ('e \<Rightarrow> string) \<Rightarrow> ('e \<Rightarrow> string) \<Rightarrow> nat \<Rightarrow> string \<Rightarrow> 'e list \<Rightarrow> bool"
where
  "chain_ok sq prev self hash i p [] = True"
| "chain_ok sq prev self hash i p (e # es) =
     (sq e = of_nat (Suc i) \<and> prev e = p \<and> hash e = self e
      \<and> chain_ok sq prev self hash (Suc i) (self e) es)"

definition chain_head :: "('e \<Rightarrow> string) \<Rightarrow> string \<Rightarrow> 'e list \<Rightarrow> string" where
  "chain_head self p es = (if es = [] then p else self (last es))"

lemma chain_head_Nil [simp]: "chain_head self p [] = p"
  by (simp add: chain_head_def)

lemma chain_head_snoc [simp]: "chain_head self p (es @ [e]) = self e"
  by (simp add: chain_head_def)

lemma chain_head_Cons: "chain_head self p (e # es) = chain_head self (self e) es"
  by (simp add: chain_head_def)

lemma chain_ok_append:
  "chain_ok sq prev self hash i p (xs @ ys) \<longleftrightarrow>
     chain_ok sq prev self hash i p xs
     \<and> chain_ok sq prev self hash (i + length xs) (chain_head self p xs) ys"
proof (induction xs arbitrary: i p)
  case Nil
  then show ?case by simp
next
  case (Cons x xs)
  then show ?case by (auto simp: chain_head_Cons)
qed

section \<open>The contract of an event type\<close>

text \<open>
  \<open>blank\<close> clears the digest field, \<open>seal\<close> sets it. The laws: sealing changes only the
  digest, and an event is determined by its blanked form and its digest.
\<close>

locale hash_chain =
  fixes sq :: "'e \<Rightarrow> 64 word"
    and prev :: "'e \<Rightarrow> string"
    and self :: "'e \<Rightarrow> string"
    and blank :: "'e \<Rightarrow> 'e"
    and seal :: "string \<Rightarrow> 'e \<Rightarrow> 'e"
    and digest :: "'e \<Rightarrow> string"
  assumes seal_sq: "sq (seal h e) = sq e"
    and seal_prev: "prev (seal h e) = prev e"
    and seal_self: "self (seal h e) = h"
    and blank_seal: "blank (seal h e) = blank e"
    and prev_blank: "prev (blank e) = prev e"
    and sq_blank: "sq (blank e) = sq e"
    and event_eqI: "blank e = blank f \<Longrightarrow> self e = self f \<Longrightarrow> e = f"
begin

lemma append_sealed_ok:
  assumes "chain_ok sq prev self (\<lambda>e. digest (blank e)) i p es"
    and "sq e = of_nat (Suc (i + length es))" and "prev e = chain_head self p es"
  shows "chain_ok sq prev self (\<lambda>e. digest (blank e)) i p (es @ [seal (digest (blank e)) e])"
  using assms by (simp add: chain_ok_append seal_sq seal_prev seal_self blank_seal)

text \<open>
  Tamper evidence: two verified logs of one length that end in the same digest are the same
  log, or two different blanked events with one digest have been found.
\<close>

lemma same_head_same_log:
  assumes "chain_ok sq prev self (\<lambda>e. digest (blank e)) i p xs"
    and "chain_ok sq prev self (\<lambda>e. digest (blank e)) i p ys"
    and "length xs = length ys" and "chain_head self p xs = chain_head self p ys"
  shows "xs = ys \<or> (\<exists>e \<in> set xs. \<exists>f \<in> set ys. blank e \<noteq> blank f \<and> digest (blank e) = digest (blank f))"
  using assms
proof (induction xs arbitrary: ys rule: rev_induct)
  case Nil
  then show ?case by simp
next
  case (snoc x xs)
  then obtain y ys' where ys: "ys = ys' @ [y]"
    by (metis length_0_conv rev_exhaust snoc_eq_iff_butlast)
  have xs_ok: "chain_ok sq prev self (\<lambda>e. digest (blank e)) i p xs" and
    ys_ok: "chain_ok sq prev self (\<lambda>e. digest (blank e)) i p ys'"
    using snoc.prems(1,2) ys by (auto simp: chain_ok_append)
  have x: "digest (blank x) = self x" "prev x = chain_head self p xs" and
    y: "digest (blank y) = self y" "prev y = chain_head self p ys'"
    using snoc.prems(1,2) ys by (auto simp: chain_ok_append)
  have same: "self x = self y"
    using snoc.prems(4) ys by simp
  show ?case
  proof (cases "blank x = blank y")
    case True
    then have "x = y"
      using same by (rule event_eqI)
    moreover have "chain_head self p xs = chain_head self p ys'"
      using True x(2) y(2) prev_blank by metis
    ultimately show ?thesis
      using snoc.IH [OF xs_ok ys_ok] snoc.prems(3) ys by auto
  next
    case False
    then show ?thesis
      using x(1) y(1) same ys by auto
  qed
qed

text \<open>
  Without the length: if the logs start at sequence one and the sequence numbers do not wrap,
  equal heads are enough, unless some digest equals the digest the log started from.
\<close>

lemma sequence_of_nth:
  "chain_ok sq prev self (\<lambda>e. digest (blank e)) i p es \<Longrightarrow> k < length es \<Longrightarrow> sq (es ! k) = of_nat (Suc (i + k))"
proof (induction es arbitrary: i p k)
  case Nil
  then show ?case by simp
next
  case (Cons e es)
  then show ?case
    by (cases k) auto
qed

lemma prev_of_nth:
  "chain_ok sq prev self (\<lambda>e. digest (blank e)) i p es \<Longrightarrow> k < length es
    \<Longrightarrow> prev (es ! k) = chain_head self p (take k es)"
proof (induction es arbitrary: i p k)
  case Nil
  then show ?case by simp
next
  case (Cons e es)
  then show ?case
    by (cases k) (auto simp: chain_head_Cons)
qed

lemma equal_heads_equal_lengths:
  assumes "chain_ok sq prev self (\<lambda>e. digest (blank e)) 0 p xs" and "chain_ok sq prev self (\<lambda>e. digest (blank e)) 0 p ys"
    and "xs \<noteq> []" and "ys \<noteq> []" and "self (last xs) = self (last ys)"
    and "length xs < 2 ^ 64" and "length ys < 2 ^ 64"
  shows "length xs = length ys
    \<or> (\<exists>e \<in> set xs. \<exists>f \<in> set ys. blank e \<noteq> blank f \<and> digest (blank e) = digest (blank f))"
proof (cases "blank (last xs) = blank (last ys)")
  case True
  have "sq (last es) = of_nat (length es)" if "es \<noteq> []" "chain_ok sq prev self (\<lambda>e. digest (blank e)) 0 p es" for es
    using sequence_of_nth [OF that(2), of "length es - 1"] that(1) by (simp add: last_conv_nth)
  then have "(of_nat (length xs) :: 64 word) = of_nat (length ys)"
    using True assms(1-4) sq_blank by metis
  then have "length xs = length ys"
    using assms(6,7) by (simp add: word_unat_eq_iff unat_of_nat take_bit_nat_eq_self)
  then show ?thesis by simp
next
  case False
  have "digest (blank (last es)) = self (last es)"
    if "es \<noteq> []" "chain_ok sq prev self (\<lambda>e. digest (blank e)) 0 p es" for es
    using that by (cases es rule: rev_cases) (auto simp: chain_ok_append)
  then show ?thesis
    using False assms last_in_set by metis
qed

lemma equal_heads_equal_logs:
  assumes "chain_ok sq prev self (\<lambda>e. digest (blank e)) 0 p xs" and "chain_ok sq prev self (\<lambda>e. digest (blank e)) 0 p ys"
    and "xs \<noteq> []" and "ys \<noteq> []" and "self (last xs) = self (last ys)"
    and "length xs < 2 ^ 64" and "length ys < 2 ^ 64"
  shows "xs = ys
    \<or> (\<exists>e \<in> set xs. \<exists>f \<in> set ys. blank e \<noteq> blank f \<and> digest (blank e) = digest (blank f))"
  using equal_heads_equal_lengths [OF assms] same_head_same_log [OF assms(1,2)] assms(3-5)
  by (auto simp: chain_head_def)

end

end
