(* ===== verification/Outbox.thy ===== *)
theory Outbox imports HashChain begin

text \<open>
  The operational outbox (\<^verbatim>\<open>internal/productionops/outbox.go\<close>): messages enqueued once per
  idempotency key, leased to a worker, then completed, retried, recovered or declared dead.
  The directory tree is the record \<open>outbox\<close>: one entry per message and receipt file, and the
  event files in the order of their zero-padded sequence numbers.
\<close>

section \<open>Data\<close>

record outbox_message =
  om_schema :: string
  om_id :: string
  om_topic :: string
  om_tenant :: string
  om_key :: string
  om_payload_sha :: string
  om_payload :: string
  om_max_attempts :: int
  om_created_at :: string
  om_sha :: string

record outbox_event =
  oe_schema :: string
  oe_stream :: string
  oe_sequence :: "64 word"
  oe_prev :: string
  oe_sha :: string
  oe_occurred_at :: string
  oe_message :: string
  oe_action :: string
  oe_attempt :: int
  oe_lease_hash :: string
  oe_lease_expires :: string
  oe_next_attempt :: string
  oe_detail :: string

record outbox_receipt =
  or_scope :: string
  or_key :: string
  or_request_sha :: string
  or_message :: string
  or_created_at :: string

record outbox_projection =
  op_message :: outbox_message
  op_state :: string
  op_attempt :: int
  op_lease_expires :: string
  op_next_attempt :: string
  op_last_sha :: string

record outbox_status =
  os_messages :: nat
  os_events :: nat
  os_pending :: nat
  os_leased :: nat
  os_completed :: nat
  os_dead :: nat

record outbox =
  ob_stream :: string
  ob_messages :: "(string \<times> outbox_message) list"
  ob_receipts :: "(string \<times> outbox_receipt) list"
  ob_log :: "outbox_event list"

datatype outbox_error =
    MissingFields | InvalidPayload | IdempotencyConflict | MessageNotFound | MessageChecksum
  | ChainMismatch | EventChecksum | NotLeased | TokenMismatch | LeaseExpired | FileExists
  | NothingPending

text \<open>
  What the operations use from outside: the digest, the JSON checks of the payload, the
  RFC 3339 rendering of instants (nanoseconds since the epoch) and its parser, and the order
  in which a Go map is ranged over.
\<close>

record outbox_env =
  env_sha :: "string \<Rightarrow> string"
  env_json_valid :: "string \<Rightarrow> bool"
  env_compact :: "string \<Rightarrow> string"
  env_rfc3339 :: "int \<Rightarrow> string"
  env_parse_time :: "string \<Rightarrow> int option"
  env_map_order :: "string list \<Rightarrow> string list"

definition zero_time :: int where
  "zero_time = - 62135596800 * 10 ^ 9"

text \<open>\<^verbatim>\<open>t, _ := time.Parse(...)\<close>: on an error the zero time is used.\<close>

definition parse_or_zero :: "outbox_env \<Rightarrow> string \<Rightarrow> int" where
  "parse_or_zero env s = (case env_parse_time env s of None \<Rightarrow> zero_time | Some t \<Rightarrow> t)"

section \<open>Digests\<close>

text \<open>The raw payload is spliced into the serialised message in compact form.\<close>

definition outbox_message_bytes :: "outbox_env \<Rightarrow> outbox_message \<Rightarrow> string" where
  "outbox_message_bytes env m =
     (let before = marshal (JObj
            (fld ''schema_version'' (JStr (om_schema m)) @ fld ''message_id'' (JStr (om_id m))
           @ fld ''topic'' (JStr (om_topic m)) @ fld ''tenant_id'' (JStr (om_tenant m))
           @ fld ''idempotency_key'' (JStr (om_key m)) @ fld ''payload_sha256'' (JStr (om_payload_sha m))));
          after = marshal (JObj
            (fld ''max_attempts'' (JInt (om_max_attempts m)) @ fld ''created_at'' (JStr (om_created_at m))
           @ fld ''message_sha256'' (JStr (om_sha m))))
      in butlast before @ '','' @ quote_json ''payload'' @ '':'' @ env_compact env (om_payload m)
         @ '','' @ tl after)"

definition outboxMessageHash :: "outbox_env \<Rightarrow> outbox_message \<Rightarrow> string" where
  "outboxMessageHash env m = env_sha env (outbox_message_bytes env (m\<lparr>om_sha := []\<rparr>))"

definition outbox_event_json :: "outbox_event \<Rightarrow> json" where
  "outbox_event_json e = JObj
     (fld ''schema_version'' (JStr (oe_schema e)) @ fld ''stream_id'' (JStr (oe_stream e))
    @ fld ''sequence'' (JInt (uint (oe_sequence e)))
    @ fld ''previous_event_sha256'' (JStr (oe_prev e)) @ fld ''event_sha256'' (JStr (oe_sha e))
    @ fld ''occurred_at'' (JStr (oe_occurred_at e)) @ fld ''message_id'' (JStr (oe_message e))
    @ fld ''action'' (JStr (oe_action e)) @ fld ''attempt'' (JInt (oe_attempt e))
    @ opt ''lease_token_hash'' (oe_lease_hash e = []) (JStr (oe_lease_hash e))
    @ opt ''lease_expires_at'' (oe_lease_expires e = []) (JStr (oe_lease_expires e))
    @ opt ''next_attempt_at'' (oe_next_attempt e = []) (JStr (oe_next_attempt e))
    @ opt ''detail'' (oe_detail e = []) (JStr (oe_detail e)))"

definition objectHash_event :: "outbox_env \<Rightarrow> outbox_event \<Rightarrow> string" where
  "objectHash_event env e = digest_json (env_sha env) (outbox_event_json e)"

definition blank_event :: "outbox_event \<Rightarrow> outbox_event" where
  "blank_event e = e\<lparr>oe_sha := []\<rparr>"

definition outboxEventHash :: "outbox_env \<Rightarrow> outbox_event \<Rightarrow> string" where
  "outboxEventHash env e = objectHash_event env (blank_event e)"

lemma blank_event_eqI: "blank_event e = blank_event f \<Longrightarrow> oe_sha e = oe_sha f \<Longrightarrow> e = f"
  by (cases e; cases f) (simp add: blank_event_def)

interpretation oc: hash_chain oe_sequence oe_prev oe_sha blank_event "\<lambda>h e. e\<lparr>oe_sha := h\<rparr>"
  "objectHash_event env" for env
  by unfold_locales (auto simp: blank_event_def intro: blank_event_eqI)

section \<open>Reading the store\<close>

definition read_message :: "outbox_env \<Rightarrow> outbox \<Rightarrow> string \<Rightarrow> (outbox_error, outbox_message) result" where
  "read_message env st mid =
     (case map_of (ob_messages st) mid of
        None \<Rightarrow> Inl MessageNotFound
      | Some m \<Rightarrow> if outboxMessageHash env m \<noteq> om_sha m then Inl MessageChecksum else Inr m)"

fun check_events :: "outbox_env \<Rightarrow> nat \<Rightarrow> string \<Rightarrow> outbox_event list \<Rightarrow> (outbox_error, unit) result" where
  "check_events env i p [] = Inr ()"
| "check_events env i p (e # es) =
     (if oe_sequence e \<noteq> of_nat (Suc i) \<or> oe_prev e \<noteq> p then Inl ChainMismatch
      else if outboxEventHash env e \<noteq> oe_sha e then Inl EventChecksum
      else check_events env (Suc i) (oe_sha e) es)"

definition events_of :: "outbox_event list \<Rightarrow> string \<Rightarrow> outbox_event list" where
  "events_of log mid = filter (\<lambda>e. oe_message e = mid) log"

definition project_step :: "outbox_projection \<Rightarrow> outbox_event \<Rightarrow> outbox_projection" where
  "project_step p0 e =
     (let p = p0\<lparr>op_attempt := oe_attempt e, op_last_sha := oe_sha e\<rparr> in
      if oe_action e \<in> {''enqueued'', ''recovered'', ''retry_scheduled''} then
        p\<lparr>op_state := ''pending'', op_next_attempt := oe_next_attempt e, op_lease_expires := []\<rparr>
      else if oe_action e = ''leased'' then
        p\<lparr>op_state := ''leased'', op_lease_expires := oe_lease_expires e\<rparr>
      else if oe_action e = ''completed'' then p\<lparr>op_state := ''completed'', op_lease_expires := []\<rparr>
      else if oe_action e = ''dead'' then p\<lparr>op_state := ''dead'', op_lease_expires := []\<rparr>
      else p)"

definition project :: "outbox_message \<Rightarrow> outbox_event list \<Rightarrow> outbox_projection" where
  "project m evs = foldl project_step
     \<lparr>op_message = m, op_state = ''pending'', op_attempt = 0, op_lease_expires = [],
      op_next_attempt = [], op_last_sha = []\<rparr> evs"

section \<open>Appending an event\<close>

definition appendEvent ::
  "outbox_env \<Rightarrow> outbox \<Rightarrow> string \<Rightarrow> string \<Rightarrow> int \<Rightarrow> string \<Rightarrow> string \<Rightarrow> string \<Rightarrow> string \<Rightarrow> int
    \<Rightarrow> outbox \<times> outbox_event"
where
  "appendEvent env st mid action attempt lease_hash lease_exp next_at detail now =
     (let (sq, prev) =
        (if ob_log st = [] then (1, [])
         else (oe_sequence (last (ob_log st)) + 1, oe_sha (last (ob_log st))));
        e0 = \<lparr>oe_schema = ''openwatchlist.operational-outbox-event.v1'', oe_stream = ob_stream st,
              oe_sequence = sq, oe_prev = prev, oe_sha = [], oe_occurred_at = env_rfc3339 env now,
              oe_message = mid, oe_action = action, oe_attempt = attempt, oe_lease_hash = lease_hash,
              oe_lease_expires = lease_exp, oe_next_attempt = next_at, oe_detail = detail\<rparr>;
        e = e0\<lparr>oe_sha := outboxEventHash env e0\<rparr>
      in (st\<lparr>ob_log := ob_log st @ [e]\<rparr>, e))"

section \<open>Enqueue\<close>

definition name_ch :: "nat \<Rightarrow> bool" where
  "name_ch r \<longleftrightarrow> is_lower_az r \<or> is_upper_az r \<or> is_09 r \<or> r = 45 \<or> r = 95"

definition safeName :: "string \<Rightarrow> string" where
  "safeName s = concat (map (\<lambda>r. if name_ch r then encode_rune r else ''_'') (runes s))"

definition receipt_name :: "string \<Rightarrow> string \<Rightarrow> string \<Rightarrow> string" where
  "receipt_name topic tenant key = safeName (topic @ ''__'' @ tenant @ ''__'' @ key)"

definition nul :: string where
  "nul = [byte 0]"

definition request_hash :: "outbox_env \<Rightarrow> string \<Rightarrow> string \<Rightarrow> string \<Rightarrow> string \<Rightarrow> string" where
  "request_hash env topic tenant key payload =
     env_sha env (topic @ nul @ tenant @ nul @ key @ nul @ payload)"

definition message_id :: "outbox_env \<Rightarrow> string \<Rightarrow> string \<Rightarrow> string \<Rightarrow> string \<Rightarrow> string" where
  "message_id env topic tenant key payload =
     ''outbox_'' @ take 32 (env_sha env (topic @ nul @ tenant @ nul @ key @ nul @ env_sha env payload))"

definition new_message ::
  "outbox_env \<Rightarrow> string \<Rightarrow> string \<Rightarrow> string \<Rightarrow> string \<Rightarrow> int \<Rightarrow> int \<Rightarrow> outbox_message" where
  "new_message env topic tenant key payload max_attempts now =
     (let m = \<lparr>om_schema = ''openwatchlist.operational-outbox-message.v1'',
               om_id = message_id env topic tenant key payload, om_topic = topic, om_tenant = tenant,
               om_key = key, om_payload_sha = env_sha env payload, om_payload = payload,
               om_max_attempts = (if max_attempts \<le> 0 then 5 else max_attempts),
               om_created_at = env_rfc3339 env now, om_sha = []\<rparr>
      in m\<lparr>om_sha := outboxMessageHash env m\<rparr>)"

text \<open>The message as it is read back: the payload file holds the compacted bytes.\<close>

definition stored_message :: "outbox_env \<Rightarrow> outbox_message \<Rightarrow> outbox_message" where
  "stored_message env m = m\<lparr>om_payload := env_compact env (om_payload m)\<rparr>"

definition Enqueue ::
  "outbox_env \<Rightarrow> outbox \<Rightarrow> string \<Rightarrow> string \<Rightarrow> string \<Rightarrow> string \<Rightarrow> int \<Rightarrow> int
    \<Rightarrow> outbox \<times> (outbox_error, outbox_message \<times> bool) result"
where
  "Enqueue env st topic tenant key payload max_attempts now =
     (if TrimSpace topic = [] \<or> TrimSpace tenant = [] \<or> TrimSpace key = [] then (st, Inl MissingFields)
      else if \<not> env_json_valid env payload then (st, Inl InvalidPayload)
      else
        (let rp = receipt_name topic tenant key in
         case map_of (ob_receipts st) rp of
           Some r \<Rightarrow>
             if or_request_sha r \<noteq> request_hash env topic tenant key payload
             then (st, Inl IdempotencyConflict)
             else (case read_message env st (or_message r) of
                     Inl e \<Rightarrow> (st, Inl e) | Inr m \<Rightarrow> (st, Inr (m, True)))
         | None \<Rightarrow>
             let m = new_message env topic tenant key payload max_attempts now; mid = om_id m in
             if map_of (ob_messages st) mid \<noteq> None then (st, Inl FileExists)
             else
               let st1 = st\<lparr>ob_messages := ob_messages st @ [(mid, stored_message env m)]\<rparr>;
                   r = \<lparr>or_scope = ''outbox:'' @ topic, or_key = key,
                        or_request_sha = request_hash env topic tenant key payload,
                        or_message = mid, or_created_at = om_created_at m\<rparr>;
                   st2 = st1\<lparr>ob_receipts := ob_receipts st1 @ [(rp, r)]\<rparr>;
                   st3 = fst (appendEvent env st2 mid ''enqueued'' 0 [] [] [] [] now)
               in (st3, Inr (m, False))))"

section \<open>Recovery, claiming and finishing\<close>

text \<open>The expired leases of a log snapshot get a \<^verbatim>\<open>recovered\<close> event each, in map order.\<close>

fun recover_loop :: "outbox_env \<Rightarrow> outbox_event list \<Rightarrow> int \<Rightarrow> string list \<Rightarrow> outbox \<Rightarrow> outbox" where
  "recover_loop env log now [] st = st"
| "recover_loop env log now (mid # ids) st =
     (let p = project \<lparr>om_schema = [], om_id = mid, om_topic = [], om_tenant = [], om_key = [],
                        om_payload_sha = [], om_payload = [], om_max_attempts = 0,
                        om_created_at = [], om_sha = []\<rparr> (events_of log mid)
      in recover_loop env log now ids
        (if op_state p = ''leased'' \<and> op_lease_expires p \<noteq> []
            \<and> \<not> now < parse_or_zero env (op_lease_expires p)
         then fst (appendEvent env st mid ''recovered'' (op_attempt p) [] [] [] ''expired lease recovered'' now)
         else st))"

definition Recover :: "outbox_env \<Rightarrow> outbox \<Rightarrow> int \<Rightarrow> outbox \<times> (outbox_error, unit) result" where
  "Recover env st now =
     (case check_events env 0 [] (ob_log st) of
        Inl e \<Rightarrow> (st, Inl e)
      | Inr _ \<Rightarrow>
          (recover_loop env (ob_log st) now
             (env_map_order env (remdups (map oe_message (ob_log st)))) st, Inr ()))"

definition lease_token :: "outbox_env \<Rightarrow> string \<Rightarrow> int \<Rightarrow> int \<Rightarrow> string" where
  "lease_token env mid now attempt = env_sha env (mid @ env_rfc3339 env now @ decimal_int attempt)"

fun claim_loop ::
  "outbox_env \<Rightarrow> outbox_event list \<Rightarrow> int \<Rightarrow> int \<Rightarrow> string list \<Rightarrow> outbox
    \<Rightarrow> outbox \<times> (outbox_error, outbox_projection \<times> string) result"
where
  "claim_loop env log now lease [] st = (st, Inl NothingPending)"
| "claim_loop env log now lease (mid # ids) st =
     (case read_message env st mid of
        Inl e \<Rightarrow> (st, Inl e)
      | Inr m \<Rightarrow>
          let p = project m (events_of log mid) in
          if op_state p \<noteq> ''pending'' then claim_loop env log now lease ids st
          else if op_next_attempt p \<noteq> [] \<and> now < parse_or_zero env (op_next_attempt p)
          then claim_loop env log now lease ids st
          else
            let attempt = op_attempt p + 1 in
            if attempt > om_max_attempts m then
              claim_loop env log now lease ids
                (fst (appendEvent env st mid ''dead'' (op_attempt p) [] [] [] ''max attempts exceeded'' now))
            else
              let token = lease_token env mid now attempt;
                  (st', e) = appendEvent env st mid ''leased'' attempt (env_sha env token)
                               (env_rfc3339 env (now + lease)) [] [] now
              in (st', Inr (project m (events_of log mid @ [e]), token)))"

definition thirty_seconds :: int where
  "thirty_seconds = 30 * 10 ^ 9"

definition Claim ::
  "outbox_env \<Rightarrow> outbox \<Rightarrow> int \<Rightarrow> int \<Rightarrow> outbox \<times> (outbox_error, outbox_projection \<times> string) result"
where
  "Claim env st now lease0 =
     (let lease = (if lease0 \<le> 0 then thirty_seconds else lease0) in
      case Recover env st now of
        (st1, Inl e) \<Rightarrow> (st1, Inl e)
      | (st1, Inr _) \<Rightarrow>
          (case check_events env 0 [] (ob_log st1) of
             Inl e \<Rightarrow> (st1, Inl e)
           | Inr _ \<Rightarrow> claim_loop env (ob_log st1) now lease (sort (map fst (ob_messages st1))) st1))"

definition finish ::
  "outbox_env \<Rightarrow> outbox \<Rightarrow> string \<Rightarrow> string \<Rightarrow> string \<Rightarrow> string \<Rightarrow> int \<Rightarrow> int
    \<Rightarrow> outbox \<times> (outbox_error, unit) result"
where
  "finish env st mid token action detail delay now =
     (case read_message env st mid of
        Inl e \<Rightarrow> (st, Inl e)
      | Inr m \<Rightarrow>
          (case check_events env 0 [] (ob_log st) of
             Inl e \<Rightarrow> (st, Inl e)
           | Inr _ \<Rightarrow>
               let ev = events_of (ob_log st) mid; p = project m ev in
               if op_state p \<noteq> ''leased'' \<or> ev = [] then (st, Inl NotLeased)
               else if oe_lease_hash (last ev) \<noteq> env_sha env token then (st, Inl TokenMismatch)
               else if parse_or_zero env (oe_lease_expires (last ev)) < now then (st, Inl LeaseExpired)
               else
                 let next_at = (if action = ''retry_scheduled'' then env_rfc3339 env (now + delay) else [])
                 in (fst (appendEvent env st mid action (op_attempt p) [] [] next_at detail now), Inr ())))"

definition Complete :: "outbox_env \<Rightarrow> outbox \<Rightarrow> string \<Rightarrow> string \<Rightarrow> int \<Rightarrow> outbox \<times> (outbox_error, unit) result"
where
  "Complete env st mid token now = finish env st mid token ''completed'' [] 0 now"

definition Retry ::
  "outbox_env \<Rightarrow> outbox \<Rightarrow> string \<Rightarrow> string \<Rightarrow> string \<Rightarrow> int \<Rightarrow> int \<Rightarrow> outbox \<times> (outbox_error, unit) result"
where
  "Retry env st mid token detail delay now = finish env st mid token ''retry_scheduled'' detail delay now"

section \<open>Status and verification\<close>

fun count_states :: "outbox_env \<Rightarrow> outbox \<Rightarrow> string list \<Rightarrow> outbox_status \<Rightarrow> (outbox_error, outbox_status) result"
where
  "count_states env st [] acc = Inr acc"
| "count_states env st (mid # ids) acc =
     (case read_message env st mid of
        Inl e \<Rightarrow> Inl e
      | Inr m \<Rightarrow>
          let s = op_state (project m (events_of (ob_log st) mid)) in
          count_states env st ids
            (if s = ''pending'' then acc\<lparr>os_pending := Suc (os_pending acc)\<rparr>
             else if s = ''leased'' then acc\<lparr>os_leased := Suc (os_leased acc)\<rparr>
             else if s = ''completed'' then acc\<lparr>os_completed := Suc (os_completed acc)\<rparr>
             else if s = ''dead'' then acc\<lparr>os_dead := Suc (os_dead acc)\<rparr>
             else acc))"

definition Status :: "outbox_env \<Rightarrow> outbox \<Rightarrow> (outbox_error, outbox_status) result" where
  "Status env st =
     (case check_events env 0 [] (ob_log st) of
        Inl e \<Rightarrow> Inl e
      | Inr _ \<Rightarrow> count_states env st (sort (map fst (ob_messages st)))
          \<lparr>os_messages = length (ob_messages st), os_events = length (ob_log st),
           os_pending = 0, os_leased = 0, os_completed = 0, os_dead = 0\<rparr>)"

definition Verify :: "outbox_env \<Rightarrow> outbox \<Rightarrow> (outbox_error, outbox_status) result" where
  "Verify env st =
     (case check_events env 0 [] (ob_log st) of
        Inl e \<Rightarrow> Inl e
      | Inr _ \<Rightarrow>
          (case first_err (\<lambda>mid. case read_message env st mid of Inl e \<Rightarrow> Inl e | Inr _ \<Rightarrow> Inr ())
                  (sort (map fst (ob_messages st))) of
             Inl e \<Rightarrow> Inl e
           | Inr _ \<Rightarrow> Status env st))"

definition empty_outbox :: "string \<Rightarrow> outbox" where
  "empty_outbox stream = \<lparr>ob_stream = (if stream = [] then ''platform-outbox-phase9g'' else stream),
     ob_messages = [], ob_receipts = [], ob_log = []\<rparr>"

end
