(* ===== verification/OutboxProofs.thy ===== *)
theory OutboxProofs imports Outbox begin

text \<open>
  The outbox against its life cycle: an abstract machine per message, the refinement of
  the projected state by it, the invariant every operation keeps, and what follows for
  leases, retries and idempotent enqueueing.
\<close>

section \<open>The life cycle of one message\<close>

datatype ostate = Pending | Leased | Completed | Dead

fun state_name :: "ostate \<Rightarrow> string" where
  "state_name Pending = ''pending''"
| "state_name Leased = ''leased''"
| "state_name Completed = ''completed''"
| "state_name Dead = ''dead''"

inductive lc_step :: "int \<Rightarrow> ostate \<times> int \<Rightarrow> string \<Rightarrow> ostate \<times> int \<Rightarrow> bool" for mx where
  lc_lease: "a + 1 \<le> mx \<Longrightarrow> lc_step mx (Pending, a) ''leased'' (Leased, a + 1)"
| lc_complete: "lc_step mx (Leased, a) ''completed'' (Completed, a)"
| lc_retry: "lc_step mx (Leased, a) ''retry_scheduled'' (Pending, a)"
| lc_recover: "lc_step mx (Leased, a) ''recovered'' (Pending, a)"
| lc_dead: "mx < a + 1 \<Longrightarrow> lc_step mx (Pending, a) ''dead'' (Dead, a)"

inductive_cases lc_step_CompletedE: "lc_step mx (Completed, a) act sa"
inductive_cases lc_step_DeadE: "lc_step mx (Dead, a) act sa"
inductive_cases lc_step_LeasedE: "lc_step mx sa act (Leased, a)"

inductive lc_run :: "int \<Rightarrow> outbox_event list \<Rightarrow> ostate \<times> int \<Rightarrow> bool" for mx where
  lc_start: "oe_action e = ''enqueued'' \<Longrightarrow> oe_attempt e = 0 \<Longrightarrow> lc_run mx [e] (Pending, 0)"
| lc_next: "lc_run mx es sa \<Longrightarrow> lc_step mx sa (oe_action e) (s', a') \<Longrightarrow> oe_attempt e = a'
    \<Longrightarrow> lc_run mx (es @ [e]) (s', a')"

text \<open>A finished message stays finished, and attempts never exceed the limit.\<close>

lemma lc_step_final: "lc_step mx (s, a) act (s', a') \<Longrightarrow> s \<noteq> Completed \<and> s \<noteq> Dead"
  by (auto elim: lc_step_CompletedE lc_step_DeadE)

lemma lc_run_attempts:
  assumes "lc_run mx es (s, a)" and "0 \<le> mx"
  shows "0 \<le> a \<and> a \<le> mx \<and> (s = Leased \<longrightarrow> 1 \<le> a)"
  using assms
proof (induction es "(s, a)" arbitrary: s a rule: lc_run.induct)
  case (lc_start e)
  then show ?case by simp
next
  case (lc_next es sa e s' a')
  obtain s0 a0 where sa: "sa = (s0, a0)"
    by fastforce
  have bound: "0 \<le> a0 \<and> a0 \<le> mx"
    using lc_next.hyps(2) [OF sa] lc_next.prems by blast
  show ?case
    using lc_next.hyps(3) bound unfolding sa by (cases rule: lc_step.cases) auto
qed

lemma project_snoc: "project m (es @ [e]) = project_step (project m es) e"
  by (simp add: project_def)

lemma op_message_step [simp]: "op_message (project_step p e) = op_message p"
  by (simp add: project_step_def Let_def)

lemma op_message_project [simp]: "op_message (project m es) = m"
  by (induction es rule: rev_induct) (simp_all add: project_snoc, simp add: project_def)

text \<open>The refinement: the code's projection computes the abstract state.\<close>

lemma lc_run_project:
  assumes "lc_run mx es (s, a)"
  shows "op_state (project m es) = state_name s \<and> op_attempt (project m es) = a"
  using assms
proof (induction es "(s, a)" arbitrary: s a rule: lc_run.induct)
  case (lc_start e)
  then show ?case by (simp add: project_def project_step_def)
next
  case (lc_next es sa e s' a')
  show ?case
    using lc_next.hyps(3,4)
    by (cases rule: lc_step.cases) (simp_all add: project_snoc project_step_def)
qed

lemma lc_run_last_leased:
  assumes "lc_run mx es (Leased, a)"
  shows "es \<noteq> [] \<and> oe_action (last es) = ''leased''
    \<and> op_lease_expires (project m es) = oe_lease_expires (last es)"
  using assms
  by (cases rule: lc_run.cases) (auto elim!: lc_step_LeasedE simp: project_snoc project_step_def)

section \<open>What the environment guarantees\<close>

text \<open>
  The documented behaviour of the packages the outbox uses: compaction of JSON is
  idempotent, a rendered instant parses back to itself and is not empty, and ranging over a
  map visits every key once. Instants are taken to lie within the years 0 to 9999, which are those RFC 3339
  can print; Go renders a later year in a form that does not parse.
\<close>

definition env_ok :: "outbox_env \<Rightarrow> bool" where
  "env_ok env \<longleftrightarrow>
     (\<forall>x. env_compact env (env_compact env x) = env_compact env x)
     \<and> (\<forall>t. env_parse_time env (env_rfc3339 env t) = Some t) \<and> (\<forall>t. env_rfc3339 env t \<noteq> [])
     \<and> (\<forall>xs. distinct xs \<longrightarrow> distinct (env_map_order env xs) \<and> set (env_map_order env xs) = set xs)"

lemma parse_or_zero_rfc [simp]: "env_ok env \<Longrightarrow> parse_or_zero env (env_rfc3339 env t) = t"
  by (simp add: env_ok_def parse_or_zero_def)

section \<open>The invariant\<close>

definition log_ok :: "outbox_env \<Rightarrow> outbox \<Rightarrow> bool" where
  "log_ok env st \<longleftrightarrow>
     chain_ok oe_sequence oe_prev oe_sha (\<lambda>e. objectHash_event env (blank_event e)) 0 [] (ob_log st)"

definition message_ok :: "outbox_env \<Rightarrow> outbox_event list \<Rightarrow> string \<Rightarrow> outbox_message \<Rightarrow> bool" where
  "message_ok env log k m \<longleftrightarrow> om_id m = k \<and> outboxMessageHash env m = om_sha m
     \<and> 0 < om_max_attempts m \<and> (\<exists>sa. lc_run (om_max_attempts m) (events_of log k) sa)"

definition outbox_inv :: "outbox_env \<Rightarrow> outbox \<Rightarrow> bool" where
  "outbox_inv env st \<longleftrightarrow> log_ok env st \<and> distinct (map fst (ob_messages st))
     \<and> (\<forall>k m. (k, m) \<in> set (ob_messages st) \<longrightarrow> message_ok env (ob_log st) k m)
     \<and> (\<forall>e \<in> set (ob_log st). oe_message e \<in> fst ` set (ob_messages st))"

lemma check_events_iff:
  "check_events env i p es = Inr () \<longleftrightarrow>
     chain_ok oe_sequence oe_prev oe_sha (\<lambda>e. objectHash_event env (blank_event e)) i p es"
  by (induction env i p es rule: check_events.induct) (auto simp: outboxEventHash_def)

lemma check_events_ok [simp]: "outbox_inv env st \<Longrightarrow> check_events env 0 [] (ob_log st) = Inr ()"
  by (simp add: check_events_iff outbox_inv_def log_ok_def)

subsection \<open>Appending\<close>

lemma appendEvent_fields:
  assumes "appendEvent env st k act att lh le nx dt now = (st', e)"
  shows "st' = st\<lparr>ob_log := ob_log st @ [e]\<rparr>" "oe_message e = k" "oe_action e = act"
    "oe_attempt e = att" "oe_lease_hash e = lh" "oe_lease_expires e = le" "oe_next_attempt e = nx"
  using assms by (auto simp: appendEvent_def Let_def split: if_splits prod.splits)

lemma snd_appendEvent [simp]:
  "oe_message (snd (appendEvent env st k act att lh le nx dt now)) = k"
  "oe_action (snd (appendEvent env st k act att lh le nx dt now)) = act"
  "oe_attempt (snd (appendEvent env st k act att lh le nx dt now)) = att"
  "oe_lease_hash (snd (appendEvent env st k act att lh le nx dt now)) = lh"
  "oe_lease_expires (snd (appendEvent env st k act att lh le nx dt now)) = le"
  "oe_next_attempt (snd (appendEvent env st k act att lh le nx dt now)) = nx"
  by (simp_all add: appendEvent_def Let_def)

lemma fst_appendEvent:
  "fst (appendEvent env st k act att lh le nx dt now)
     = st\<lparr>ob_log := ob_log st @ [snd (appendEvent env st k act att lh le nx dt now)]\<rparr>"
  by (metis appendEvent_fields(1) prod.collapse)

lemma append_messages [simp]:
  "ob_messages (fst (appendEvent env st k act att lh le nx dt now)) = ob_messages st"
  by (simp add: fst_appendEvent)

lemma events_of_append:
  "events_of (ob_log (fst (appendEvent env st k act att lh le nx dt now))) j =
     events_of (ob_log st) j
     @ (if j = k then [snd (appendEvent env st k act att lh le nx dt now)] else [])"
  by (simp add: fst_appendEvent events_of_def)

lemma append_log_ok:
  assumes "log_ok env st"
  shows "log_ok env (fst (appendEvent env st k act att lh le nx dt now))"
proof -
  let ?d = "objectHash_event env"
  let ?sq = "if ob_log st = [] then 1 else oe_sequence (last (ob_log st)) + 1"
  let ?p = "if ob_log st = [] then [] else oe_sha (last (ob_log st))"
  let ?e0 = "\<lparr>oe_schema = ''openwatchlist.operational-outbox-event.v1'', oe_stream = ob_stream st,
      oe_sequence = ?sq, oe_prev = ?p, oe_sha = [], oe_occurred_at = env_rfc3339 env now,
      oe_message = k, oe_action = act, oe_attempt = att, oe_lease_hash = lh,
      oe_lease_expires = le, oe_next_attempt = nx, oe_detail = dt\<rparr>"
  have "?sq = of_nat (Suc (0 + length (ob_log st)))"
  proof (cases "ob_log st = []")
    case False
    then show ?thesis
      using assms oc.sequence_of_nth [of env 0 "[]" "ob_log st" "length (ob_log st) - 1"]
      by (simp add: log_ok_def last_conv_nth)
  qed simp
  then have "chain_ok oe_sequence oe_prev oe_sha (\<lambda>e. ?d (blank_event e)) 0 []
      (ob_log st @ [?e0\<lparr>oe_sha := ?d (blank_event ?e0)\<rparr>])"
    using assms by (intro oc.append_sealed_ok) (auto simp: log_ok_def chain_head_def)
  moreover have "ob_log (fst (appendEvent env st k act att lh le nx dt now))
      = ob_log st @ [?e0\<lparr>oe_sha := ?d (blank_event ?e0)\<rparr>]"
    by (simp add: appendEvent_def Let_def outboxEventHash_def)
  ultimately show ?thesis
    by (simp add: log_ok_def)
qed

lemma append_inv:
  assumes inv: "outbox_inv env st" and m: "(k, m) \<in> set (ob_messages st)"
    and run: "lc_run (om_max_attempts m) (events_of (ob_log st) k) sa"
    and step: "lc_step (om_max_attempts m) sa act (s', att)"
  shows "outbox_inv env (fst (appendEvent env st k act att lh le nx dt now))"
proof -
  let ?st = "fst (appendEvent env st k act att lh le nx dt now)"
  let ?e = "snd (appendEvent env st k act att lh le nx dt now)"
  have "message_ok env (ob_log ?st) j mj" if j: "(j, mj) \<in> set (ob_messages st)" for j mj
  proof (cases "j = k")
    case True
    then have "mj = m"
      using m j inv by (auto simp: outbox_inv_def dest: eq_key_imp_eq_value)
    have "lc_run (om_max_attempts m) (events_of (ob_log st) k @ [?e]) (s', att)"
      using run step by (auto intro: lc_next)
    then show ?thesis
      using True \<open>mj = m\<close> inv m by (auto simp: message_ok_def outbox_inv_def events_of_append)
  next
    case False
    then show ?thesis
      using inv j by (auto simp: message_ok_def outbox_inv_def events_of_append)
  qed
  then show ?thesis
    using inv m append_log_ok [of env st k act att lh le nx dt now]
    by (auto simp: outbox_inv_def fst_appendEvent intro: rev_image_eqI)
qed

lemma inv_lookup:
  assumes "outbox_inv env st" and "map_of (ob_messages st) k = Some m"
  shows "(k, m) \<in> set (ob_messages st)" "message_ok env (ob_log st) k m" "read_message env st k = Inr m"
  using assms by (auto simp: outbox_inv_def read_message_def message_ok_def dest: map_of_SomeD)

lemma read_message_iff:
  "outbox_inv env st \<Longrightarrow> read_message env st k = Inr m \<longleftrightarrow> map_of (ob_messages st) k = Some m"
  using inv_lookup(3) by (auto simp: read_message_def split: option.splits if_splits)

lemma inv_state:
  assumes "outbox_inv env st" and "map_of (ob_messages st) k = Some m"
  obtains s a where "lc_run (om_max_attempts m) (events_of (ob_log st) k) (s, a)"
    "\<And>m'. op_state (project m' (events_of (ob_log st) k)) = state_name s"
    "\<And>m'. op_attempt (project m' (events_of (ob_log st) k)) = a"
  using inv_lookup(2) [OF assms] lc_run_project by (auto simp: message_ok_def)

lemma state_name_inj [simp]: "state_name s = state_name t \<longleftrightarrow> s = t"
  by (cases s; cases t) simp_all

lemma state_name_eqs [simp]:
  "state_name s = ''pending'' \<longleftrightarrow> s = Pending" "state_name s = ''leased'' \<longleftrightarrow> s = Leased"
  "''pending'' = state_name s \<longleftrightarrow> s = Pending" "''leased'' = state_name s \<longleftrightarrow> s = Leased"
  "state_name s = ''completed'' \<longleftrightarrow> s = Completed" "state_name s = ''dead'' \<longleftrightarrow> s = Dead"
  by (cases s; simp)+

section \<open>Every operation keeps the invariant\<close>

lemma project_id_irrelevant:
  "op_state (project m es) = op_state (project m' es)
    \<and> op_attempt (project m es) = op_attempt (project m' es)
    \<and> op_lease_expires (project m es) = op_lease_expires (project m' es)
    \<and> op_next_attempt (project m es) = op_next_attempt (project m' es)"
  by (induction es rule: rev_induct) (simp add: project_def, simp add: project_snoc project_step_def Let_def)

lemma inv_message_of_event:
  assumes "outbox_inv env st" and "k \<in> oe_message ` set (ob_log st)"
  obtains m where "map_of (ob_messages st) k = Some m"
proof -
  have "k \<in> fst ` set (ob_messages st)"
    using assms by (auto simp: outbox_inv_def)
  then show ?thesis
    using that by (metis map_of_eq_None_iff not_None_eq)
qed

lemma events_of_Nil_iff: "events_of log k = [] \<longleftrightarrow> k \<notin> oe_message ` set log"
  by (auto simp: events_of_def filter_empty_conv)

definition expired_lease :: "outbox_env \<Rightarrow> outbox_event list \<Rightarrow> int \<Rightarrow> string \<Rightarrow> bool" where
  "expired_lease env log now k \<longleftrightarrow>
     op_state (project undefined (events_of log k)) = ''leased''
     \<and> op_lease_expires (project undefined (events_of log k)) \<noteq> []
     \<and> \<not> now < parse_or_zero env (op_lease_expires (project undefined (events_of log k)))"

definition recover_one :: "outbox_env \<Rightarrow> outbox_event list \<Rightarrow> int \<Rightarrow> outbox \<Rightarrow> string \<Rightarrow> outbox" where
  "recover_one env log now st k =
     (if expired_lease env log now k
      then fst (appendEvent env st k ''recovered'' (op_attempt (project undefined (events_of log k)))
                  [] [] [] ''expired lease recovered'' now)
      else st)"

lemma recover_loop_Cons:
  "recover_loop env log now (k # ks) st = recover_loop env log now ks (recover_one env log now st k)"
proof -
  let ?m = "\<lparr>om_schema = [], om_id = k, om_topic = [], om_tenant = [], om_key = [],
    om_payload_sha = [], om_payload = [], om_max_attempts = 0, om_created_at = [], om_sha = []\<rparr>"
  show ?thesis
    using project_id_irrelevant [of ?m "events_of log k" undefined]
    by (simp add: Let_def recover_one_def expired_lease_def)
qed

lemma recover_one_messages [simp]: "ob_messages (recover_one env log now st k) = ob_messages st"
  by (simp add: recover_one_def)

lemma recover_one_events:
  "j \<noteq> k \<or> \<not> expired_lease env log now j
    \<Longrightarrow> events_of (ob_log (recover_one env log now st k)) j = events_of (ob_log st) j"
  by (auto simp: recover_one_def events_of_append)

lemma recover_one_inv:
  assumes inv: "outbox_inv env st" and k: "k \<in> fst ` set (ob_messages st)"
    and same: "events_of (ob_log st) k = events_of log k"
  shows "outbox_inv env (recover_one env log now st k)"
proof (cases "expired_lease env log now k")
  case True
  obtain m where m: "map_of (ob_messages st) k = Some m"
    using k by (metis map_of_eq_None_iff not_None_eq)
  obtain s a where run: "lc_run (om_max_attempts m) (events_of (ob_log st) k) (s, a)"
    and s: "\<And>m'. op_state (project m' (events_of (ob_log st) k)) = state_name s"
    and a: "\<And>m'. op_attempt (project m' (events_of (ob_log st) k)) = a"
    using inv_state [OF inv m] by metis
  have "s = Leased"
    using True s [of undefined] same by (auto simp: expired_lease_def)
  then have "outbox_inv env (fst (appendEvent env st k ''recovered'' a [] [] [] dt now))" for dt
    using append_inv [OF inv map_of_SomeD [OF m] run] lc_recover by blast
  then show ?thesis
    using a [of undefined] same by (simp add: recover_one_def inv)
next
  case False
  then show ?thesis
    using inv by (simp add: recover_one_def)
qed

lemma recover_loop_inv:
  assumes "outbox_inv env st" and "distinct ks"
    and "\<forall>k \<in> set ks. k \<in> fst ` set (ob_messages st) \<and> events_of (ob_log st) k = events_of log k"
  shows "outbox_inv env (recover_loop env log now ks st)
    \<and> ob_messages (recover_loop env log now ks st) = ob_messages st"
  using assms
proof (induction ks arbitrary: st)
  case Nil
  then show ?case by simp
next
  case (Cons k ks)
  let ?st = "recover_one env log now st k"
  have "outbox_inv env ?st"
    using Cons.prems by (intro recover_one_inv) auto
  moreover have "\<forall>j \<in> set ks. j \<in> fst ` set (ob_messages ?st)
      \<and> events_of (ob_log ?st) j = events_of log j"
    using Cons.prems(2,3) recover_one_events by (metis distinct.simps(2) list.set_intros(2) recover_one_messages)
  ultimately show ?case
    using Cons.IH [of ?st] Cons.prems(2) by (simp add: recover_loop_Cons del: recover_loop.simps)
qed

text \<open>Recovery touches a message only when its lease has expired.\<close>

lemma recover_loop_live:
  "\<not> expired_lease env log now j
    \<Longrightarrow> events_of (ob_log (recover_loop env log now ks st)) j = events_of (ob_log st) j"
proof (induction ks arbitrary: st)
  case Nil
  then show ?case by simp
next
  case (Cons k ks)
  then show ?case
    by (simp add: recover_loop_Cons recover_one_events del: recover_loop.simps)
qed

lemma Recover_inv:
  assumes ok: "env_ok env" and inv: "outbox_inv env st" and r: "Recover env st now = (st', res)"
  shows "outbox_inv env st' \<and> ob_messages st' = ob_messages st \<and> res = Inr ()"
proof -
  let ?ks = "env_map_order env (remdups (map oe_message (ob_log st)))"
  have order: "distinct ?ks" "set ?ks = oe_message ` set (ob_log st)"
    using ok by (auto simp: env_ok_def)
  have "st' = recover_loop env (ob_log st) now ?ks st" "res = Inr ()"
    using r inv by (auto simp: Recover_def)
  moreover have "\<forall>k \<in> set ?ks. k \<in> fst ` set (ob_messages st)
      \<and> events_of (ob_log st) k = events_of (ob_log st) k"
    using order(2) inv by (auto simp: outbox_inv_def)
  ultimately show ?thesis
    using recover_loop_inv [OF inv order(1), of "ob_log st" now] by simp
qed

text \<open>What a successful claim did, and that a failing one left the invariant in place.\<close>

definition claimed ::
  "outbox_env \<Rightarrow> int \<Rightarrow> int \<Rightarrow> outbox_event list \<Rightarrow> outbox \<Rightarrow> outbox_projection \<Rightarrow> string \<Rightarrow> bool" where
  "claimed env now lease log st' p tok \<longleftrightarrow>
     (\<exists>k m e a. map_of (ob_messages st') k = Some m \<and> events_of (ob_log st') k = events_of log k @ [e]
        \<and> p = project m (events_of log k @ [e]) \<and> op_state (project m (events_of log k)) = ''pending''
        \<and> op_attempt (project m (events_of log k)) = a \<and> a + 1 \<le> om_max_attempts m
        \<and> \<not> (op_next_attempt (project m (events_of log k)) \<noteq> []
              \<and> now < parse_or_zero env (op_next_attempt (project m (events_of log k))))
        \<and> tok = lease_token env k now (a + 1) \<and> oe_action e = ''leased'' \<and> oe_attempt e = a + 1
        \<and> oe_lease_hash e = env_sha env tok \<and> oe_lease_expires e = env_rfc3339 env (now + lease))"

lemma claim_loop_inv:
  assumes "outbox_inv env st" and "distinct ks"
    and "\<forall>k \<in> set ks. events_of (ob_log st) k = events_of log k"
    and "claim_loop env log now lease ks st = (st', res)"
  shows "outbox_inv env st' \<and> ob_messages st' = ob_messages st
    \<and> (\<forall>p tok. res = Inr (p, tok) \<longrightarrow> claimed env now lease log st' p tok)"
  using assms
proof (induction ks arbitrary: st)
  case Nil
  then show ?case by auto
next
  case (Cons k ks)
  show ?case
  proof (cases "read_message env st k")
    case (Inl e)
    then show ?thesis
      using Cons.prems by auto
  next
    case (Inr m)
    then have m: "map_of (ob_messages st) k = Some m"
      using Cons.prems(1) by (simp add: read_message_iff)
    obtain s a where run: "lc_run (om_max_attempts m) (events_of (ob_log st) k) (s, a)"
      and s: "op_state (project m (events_of log k)) = state_name s"
      and a: "op_attempt (project m (events_of log k)) = a"
      using inv_state [OF Cons.prems(1) m] Cons.prems(3) by (metis list.set_intros(1))
    note app = append_inv [OF Cons.prems(1) map_of_SomeD [OF m] run]
    let ?p = "project m (events_of log k)"
    let ?dead = "fst (appendEvent env st k ''dead'' a [] [] [] ''max attempts exceeded'' now)"
    define wait where "wait \<longleftrightarrow> op_next_attempt ?p \<noteq> [] \<and> now < parse_or_zero env (op_next_attempt ?p)"
    let ?tok = "lease_token env k now (a + 1)"
    let ?ap = "appendEvent env st k ''leased'' (a + 1) (env_sha env ?tok) (env_rfc3339 env (now + lease)) [] [] now"
    have unfold: "claim_loop env log now lease (k # ks) st =
      (if s \<noteq> Pending \<or> wait then claim_loop env log now lease ks st
       else if om_max_attempts m < a + 1 then claim_loop env log now lease ks ?dead
       else (fst ?ap, Inr (project m (events_of log k @ [snd ?ap]), ?tok)))"
      by (simp add: Inr s a Let_def wait_def case_prod_beta)
    consider (skip) "s \<noteq> Pending \<or> wait" | (dead) "s = Pending" "\<not> wait" "om_max_attempts m < a + 1"
      | (lease) "s = Pending" "\<not> wait" "a + 1 \<le> om_max_attempts m"
      by linarith
    then show ?thesis
    proof cases
      case skip
      then show ?thesis
        using Cons.IH [of st] Cons.prems unfold by auto
    next
      case dead
      have "outbox_inv env ?dead"
        using app [of "''dead''" Dead a] dead(1,3) lc_dead by simp
      moreover have "\<forall>j \<in> set ks. events_of (ob_log ?dead) j = events_of log j"
        using Cons.prems(2,3) by (auto simp: events_of_append)
      ultimately show ?thesis
        using Cons.IH [of ?dead] Cons.prems dead unfold by simp
    next
      case lease
      have eqs: "st' = fst ?ap" "res = Inr (project m (events_of log k @ [snd ?ap]), ?tok)"
        using Cons.prems(4) lease unfold by auto
      have "outbox_inv env (fst ?ap)"
        using app [of "''leased''" Leased "a + 1"] lease(1,3) lc_lease by simp
      moreover have "claimed env now lease log st' (project m (events_of log k @ [snd ?ap])) ?tok"
        unfolding claimed_def eqs
        using m s a lease Cons.prems(3)
        by (intro exI [of _ k] exI [of _ m] exI [of _ "snd ?ap"] exI [of _ a]) (simp add: events_of_append wait_def)
      ultimately show ?thesis
        using eqs by simp
    qed
  qed
qed

lemma Claim_inv:
  assumes ok: "env_ok env" and inv: "outbox_inv env st" and c: "Claim env st now lease0 = (st', res)"
  shows "outbox_inv env st' \<and> ob_messages st' = ob_messages st"
    and "res = Inr (p, tok) \<Longrightarrow>
      claimed env now (if lease0 \<le> 0 then thirty_seconds else lease0)
        (ob_log (fst (Recover env st now))) st' p tok"
proof -
  let ?lease = "if lease0 \<le> 0 then thirty_seconds else lease0"
  obtain st1 r where r: "Recover env st now = (st1, r)"
    by fastforce
  have st1: "outbox_inv env st1" "ob_messages st1 = ob_messages st" "r = Inr ()"
    using Recover_inv [OF ok inv r] by auto
  have loop: "claim_loop env (ob_log st1) now ?lease (sort (map fst (ob_messages st1))) st1 = (st', res)"
    using c r st1 by (simp add: Claim_def Let_def)
  have "distinct (sort (map fst (ob_messages st1)))"
    using st1(1) by (simp add: outbox_inv_def)
  then have "outbox_inv env st' \<and> ob_messages st' = ob_messages st1
      \<and> (\<forall>p tok. res = Inr (p, tok) \<longrightarrow> claimed env now ?lease (ob_log st1) st' p tok)"
    using claim_loop_inv [OF st1(1) _ _ loop] by simp
  then show "outbox_inv env st' \<and> ob_messages st' = ob_messages st"
    and "res = Inr (p, tok) \<Longrightarrow> claimed env now ?lease (ob_log (fst (Recover env st now))) st' p tok"
    using st1(2) r by auto
qed

lemma finish_inv:
  assumes inv: "outbox_inv env st" and act: "act = ''completed'' \<or> act = ''retry_scheduled''"
    and f: "finish env st k tok act detail delay now = (st', res)"
  shows "outbox_inv env st' \<and> ob_messages st' = ob_messages st"
proof (cases "res = Inr ()")
  case False
  then show ?thesis
    using f inv by (auto simp: finish_def Let_def split: sum.splits if_splits)
next
  case True
  then obtain m where m: "map_of (ob_messages st) k = Some m"
    and st: "op_state (project m (events_of (ob_log st) k)) = ''leased''"
    and eq: "st' = fst (appendEvent env st k act (op_attempt (project m (events_of (ob_log st) k))) [] []
      (if act = ''retry_scheduled'' then env_rfc3339 env (now + delay) else []) detail now)"
    using f inv by (auto simp: finish_def Let_def read_message_iff split: sum.splits if_splits)
  obtain s a where run: "lc_run (om_max_attempts m) (events_of (ob_log st) k) (s, a)"
    and s: "\<And>m'. op_state (project m' (events_of (ob_log st) k)) = state_name s"
    and a: "\<And>m'. op_attempt (project m' (events_of (ob_log st) k)) = a"
    using inv_state [OF inv m] by metis
  have "s = Leased"
    using st s by simp
  then have "\<exists>s'. lc_step (om_max_attempts m) (s, a) act (s', a)"
    using act by (auto intro: lc_complete lc_retry)
  then have "outbox_inv env (fst (appendEvent env st k act a [] [] nx detail now))" for nx
    using append_inv [OF inv map_of_SomeD [OF m] run] by blast
  then show ?thesis
    using eq a by simp
qed

lemma hash_stored: "env_ok env \<Longrightarrow> outboxMessageHash env (stored_message env m) = outboxMessageHash env m"
  by (simp add: outboxMessageHash_def outbox_message_bytes_def stored_message_def env_ok_def)

lemma hash_new:
  "outboxMessageHash env (new_message env topic tenant key payload mx now)
     = om_sha (new_message env topic tenant key payload mx now)"
  by (simp add: outboxMessageHash_def outbox_message_bytes_def new_message_def Let_def)

lemma Enqueue_inv:
  assumes ok: "env_ok env" and inv: "outbox_inv env st"
    and enq: "Enqueue env st topic tenant key payload mx now = (st', res)"
  shows "outbox_inv env st'"
proof (cases "st' = st")
  case True
  then show ?thesis using inv by simp
next
  case False
  define m where "m = new_message env topic tenant key payload mx now"
  define r where "r = \<lparr>or_scope = ''outbox:'' @ topic, or_key = key,
    or_request_sha = request_hash env topic tenant key payload, or_message = om_id m,
    or_created_at = om_created_at m\<rparr>"
  define st2 where "st2 = st\<lparr>ob_messages := ob_messages st @ [(om_id m, stored_message env m)],
    ob_receipts := ob_receipts st @ [(receipt_name topic tenant key, r)]\<rparr>"
  let ?ap = "appendEvent env st2 (om_id m) ''enqueued'' 0 [] [] [] [] now"
  have fresh: "map_of (ob_messages st) (om_id m) = None" and st': "st' = fst ?ap"
    using enq False
    by (auto simp: Enqueue_def Let_def st2_def r_def m_def split: option.splits sum.splits if_splits)
  have new_key: "om_id m \<notin> fst ` set (ob_messages st)"
    using fresh by (simp add: map_of_eq_None_iff)
  have no_events: "events_of (ob_log st) (om_id m) = []"
    using inv new_key by (auto simp: outbox_inv_def events_of_Nil_iff)
  have log: "ob_log st' = ob_log st @ [snd ?ap]"
    unfolding st' fst_appendEvent by (simp add: st2_def)
  have "message_ok env (ob_log st') (om_id m) (stored_message env m)"
  proof -
    have "lc_run (om_max_attempts m) [snd ?ap] (Pending, 0)"
      by (rule lc_start) simp_all
    moreover have "outboxMessageHash env (stored_message env m) = om_sha (stored_message env m)"
      using hash_new [of env topic tenant key payload mx now] hash_stored [OF ok, of m]
      by (simp add: m_def stored_message_def)
    moreover have "0 < om_max_attempts m"
      by (simp add: m_def new_message_def Let_def)
    moreover have "events_of (ob_log st') (om_id m) = [snd ?ap]"
      using no_events unfolding log by (simp add: events_of_def)
    ultimately show ?thesis
      unfolding message_ok_def by (auto simp: stored_message_def)
  qed
  moreover have "message_ok env (ob_log st') k mk" if "(k, mk) \<in> set (ob_messages st)" for k mk
  proof -
    have "k \<noteq> om_id m"
      using that new_key by (auto intro: rev_image_eqI)
    then have "events_of (ob_log st') k = events_of (ob_log st) k"
      unfolding log by (simp add: events_of_def)
    then show ?thesis
      using that inv by (auto simp: outbox_inv_def message_ok_def)
  qed
  moreover have "log_ok env st'"
    unfolding st' using inv by (intro append_log_ok) (simp add: outbox_inv_def log_ok_def st2_def)
  moreover have "ob_messages st' = ob_messages st @ [(om_id m, stored_message env m)]"
    unfolding st' by (simp add: st2_def)
  ultimately show ?thesis
    using inv new_key unfolding outbox_inv_def log by (auto simp: image_Un)
qed

section \<open>Reachable stores\<close>

inductive outbox_step :: "outbox_env \<Rightarrow> outbox \<Rightarrow> outbox \<Rightarrow> bool" for env where
  step_enqueue: "outbox_step env st (fst (Enqueue env st topic tenant key payload mx now))"
| step_claim: "outbox_step env st (fst (Claim env st now lease))"
| step_complete: "outbox_step env st (fst (Complete env st k tok now))"
| step_retry: "outbox_step env st (fst (Retry env st k tok detail delay now))"
| step_recover: "outbox_step env st (fst (Recover env st now))"

inductive outbox_reachable :: "outbox_env \<Rightarrow> outbox \<Rightarrow> bool" for env where
  reach_start: "outbox_reachable env (empty_outbox stream)"
| reach_step: "outbox_reachable env st \<Longrightarrow> outbox_step env st st' \<Longrightarrow> outbox_reachable env st'"

lemma outbox_step_inv:
  assumes "outbox_step env st st'" and ok: "env_ok env" and inv: "outbox_inv env st"
  shows "outbox_inv env st'"
  using assms(1)
proof cases
  case (step_enqueue topic tenant key payload mx now)
  then show ?thesis
    using Enqueue_inv [OF ok inv] by (metis prod.collapse)
next
  case (step_claim now lease)
  then show ?thesis
    using Claim_inv(1) [OF ok inv] by (metis prod.collapse)
next
  case (step_complete k tok now)
  then show ?thesis
    using finish_inv [OF inv] unfolding Complete_def by (metis prod.collapse)
next
  case (step_retry k tok detail delay now)
  then show ?thesis
    using finish_inv [OF inv] unfolding Retry_def by (metis prod.collapse)
next
  case (step_recover now)
  then show ?thesis
    using Recover_inv [OF ok inv] by (metis prod.collapse)
qed

lemma outbox_inv_empty: "outbox_inv env (empty_outbox stream)"
  by (simp add: outbox_inv_def log_ok_def empty_outbox_def)

lemma outbox_reachable_inv:
  assumes "outbox_reachable env st" and "env_ok env"
  shows "outbox_inv env st"
  using assms(1)
  by induction (auto intro: outbox_inv_empty outbox_step_inv assms(2))

end
