(* ===== verification/OutboxProps.thy ===== *)
theory OutboxProps imports OutboxProofs begin

text \<open>
  The properties of the outbox: verification and counting, bounded delivery, exclusive leases,
  completion within the lease, finality, progress after a crash, idempotent enqueueing, tamper
  evidence, and the collision of receipt names.
\<close>

section \<open>The log only grows\<close>

definition grows :: "outbox \<Rightarrow> outbox \<Rightarrow> bool" where
  "grows st st' \<longleftrightarrow> (\<exists>ms es. ob_messages st' = ob_messages st @ ms \<and> ob_log st' = ob_log st @ es)"

lemma grows_refl [simp]: "grows st st"
  by (simp add: grows_def)

lemma grows_trans: "grows a b \<Longrightarrow> grows b c \<Longrightarrow> grows a c"
  by (auto simp: grows_def)

lemma grows_append [simp]: "grows st (fst (appendEvent env st k act att lh le nx dt now))"
  by (simp add: grows_def fst_appendEvent)

lemma grows_recover_loop: "grows st (recover_loop env log now ks st)"
proof (induction ks arbitrary: st)
  case (Cons k ks)
  have "grows st (recover_one env log now st k)"
    by (simp add: recover_one_def)
  then show ?case
    using Cons.IH grows_trans by (metis recover_loop_Cons)
qed simp

lemma grows_Recover: "grows st (fst (Recover env st now))"
  by (auto simp: Recover_def grows_recover_loop split: sum.split)

lemma grows_claim_loop: "grows st (fst (claim_loop env log now lease ks st))"
proof (induction ks arbitrary: st)
  case (Cons k ks)
  show ?case
    by (auto simp: Let_def case_prod_beta intro: Cons.IH grows_trans [OF grows_append Cons.IH]
        split: sum.split)
qed simp

lemma grows_Claim: "grows st (fst (Claim env st now lease))"
  using grows_Recover [of st env now]
  by (auto simp: Claim_def Let_def intro: grows_trans grows_claim_loop split: prod.split sum.split)

lemma grows_finish: "grows st (fst (finish env st k tok act detail delay now))"
  by (auto simp: finish_def Let_def split: sum.split)

lemma grows_Enqueue: "grows st (fst (Enqueue env st topic tenant key payload mx now))"
  by (auto simp: Enqueue_def Let_def grows_def fst_appendEvent split: option.split sum.split)

lemma grows_step: "outbox_step env st st' \<Longrightarrow> grows st st'"
  by (induction rule: outbox_step.induct)
    (auto simp: grows_Enqueue grows_Claim grows_Recover Complete_def Retry_def grows_finish)

lemma grows_steps: "(outbox_step env)\<^sup>*\<^sup>* st st' \<Longrightarrow> grows st st'"
  by (induction rule: rtranclp_induct) (auto intro: grows_trans grows_step)

lemma steps_reachable: "(outbox_step env)\<^sup>*\<^sup>* st st' \<Longrightarrow> outbox_reachable env st \<Longrightarrow> outbox_reachable env st'"
  by (induction rule: rtranclp_induct) (auto intro: reach_step)

section \<open>Runs of the life cycle\<close>

lemma lc_run_nonempty: "lc_run mx es sa \<Longrightarrow> es \<noteq> []"
  by (cases rule: lc_run.cases) auto

lemma lc_run_det: "lc_run mx es (s, a) \<Longrightarrow> lc_run mx es (s', a') \<Longrightarrow> s' = s \<and> a' = a"
  using lc_run_project by (metis state_name_inj)

lemma lc_run_final:
  assumes "lc_run mx (es @ t) sa" and "lc_run mx es (s, a)" and "s = Completed \<or> s = Dead"
  shows "t = []"
  using assms(1)
proof (induction t arbitrary: sa rule: rev_induct)
  case Nil
  then show ?case by simp
next
  case (snoc e t)
  from snoc.prems show ?case
  proof (cases rule: lc_run.cases)
    case (lc_start e')
    then show ?thesis
      using lc_run_nonempty [OF assms(2)] by (simp add: append_eq_Cons_conv)
  next
    case (lc_next es' sa' e' s' a')
    then have run: "lc_run mx (es @ t) sa'"
      by (metis append.assoc append1_eq_conv)
    then have "t = []"
      by (rule snoc.IH)
    then have "sa' = (s, a)"
      using run lc_run_det [OF assms(2)] by (cases sa') simp
    then show ?thesis
      using lc_next assms(3) lc_step_final by blast
  qed
qed

lemma lc_run_leases:
  assumes "lc_run mx es (s, a)"
  shows "int (length (filter (\<lambda>e. oe_action e = ''leased'') es)) = a"
  using assms
proof (induction es "(s, a)" arbitrary: s a rule: lc_run.induct)
  case (lc_start e)
  then show ?case by simp
next
  case (lc_next es sa e s' a')
  then show ?case
    by (cases sa) (auto elim!: lc_step.cases)
qed

section \<open>Counting\<close>

lemma count_states_total:
  assumes "outbox_inv env st" and "\<forall>k \<in> set ks. k \<in> fst ` set (ob_messages st)"
  shows "\<exists>s. count_states env st ks acc = Inr s
    \<and> os_pending s + os_leased s + os_completed s + os_dead s
      = os_pending acc + os_leased acc + os_completed acc + os_dead acc + length ks
    \<and> os_messages s = os_messages acc \<and> os_events s = os_events acc"
  using assms(2)
proof (induction ks arbitrary: acc)
  case Nil
  then show ?case by simp
next
  case (Cons k ks)
  obtain m where m: "map_of (ob_messages st) k = Some m"
    using Cons.prems by (metis list.set_intros(1) map_of_eq_None_iff not_None_eq)
  obtain s a where "\<And>m'. op_state (project m' (events_of (ob_log st) k)) = state_name s"
    using inv_state [OF assms(1) m] by metis
  then obtain acc' where acc': "count_states env st (k # ks) acc = count_states env st ks acc'"
    "os_pending acc' + os_leased acc' + os_completed acc' + os_dead acc'
      = Suc (os_pending acc + os_leased acc + os_completed acc + os_dead acc)"
    "os_messages acc' = os_messages acc" "os_events acc' = os_events acc"
    using inv_lookup(3) [OF assms(1) m] by (cases s) (auto simp: Let_def)
  have "\<forall>k \<in> set ks. k \<in> fst ` set (ob_messages st)"
    using Cons.prems by simp
  from Cons.IH [OF this, of acc'] show ?case
    using acc' by auto
qed

section \<open>A concrete environment\<close>

text \<open>For the witnesses: instants written in unary, and the bytes themselves as digest.\<close>

definition demo_env :: outbox_env where
  "demo_env = \<lparr>env_sha = (\<lambda>s. s), env_json_valid = (\<lambda>_. True), env_compact = id,
     env_rfc3339 = (\<lambda>t. (if t < 0 then CHR ''-'' else CHR ''+'') # replicate (nat \<bar>t\<bar>) CHR ''x''),
     env_parse_time = (\<lambda>s. case s of [] \<Rightarrow> None
        | c # xs \<Rightarrow> Some (if c = CHR ''-'' then - int (length xs) else int (length xs))),
     env_map_order = id\<rparr>"

lemma demo_env_ok: "env_ok demo_env"
  by (auto simp: env_ok_def demo_env_def)

section \<open>Progress\<close>

lemma recover_loop_expired:
  assumes "distinct ks" and "k \<in> set ks" and "expired_lease env log now k"
  shows "\<exists>e. events_of (ob_log (recover_loop env log now ks st)) k = events_of (ob_log st) k @ [e]
    \<and> oe_action e = ''recovered'' \<and> oe_attempt e = op_attempt (project undefined (events_of log k))
    \<and> oe_next_attempt e = []"
  using assms
proof (induction ks arbitrary: st)
  case (Cons j ks)
  show ?case
  proof (cases "j = k")
    case True
    have skip: "events_of (ob_log (recover_loop env log now ks st')) k = events_of (ob_log st') k" for st'
      using Cons.prems(1) True
    proof (induction ks arbitrary: st')
      case (Cons i ks)
      then show ?case
        by (simp add: recover_loop_Cons recover_one_events del: recover_loop.simps(2))
    qed simp
    show ?thesis
      using True Cons.prems(3)
      by (simp add: recover_loop_Cons skip recover_one_def events_of_append del: recover_loop.simps(2))
  next
    case False
    then have "events_of (ob_log (recover_one env log now st j)) k = events_of (ob_log st) k"
      by (simp add: recover_one_events)
    then show ?thesis
      using False Cons.IH [of "recover_one env log now st j"] Cons.prems
      by (simp add: recover_loop_Cons del: recover_loop.simps(2))
  qed
qed simp

definition waiting :: "outbox_env \<Rightarrow> int \<Rightarrow> outbox_projection \<Rightarrow> bool" where
  "waiting env now p \<longleftrightarrow> op_next_attempt p \<noteq> [] \<and> now < parse_or_zero env (op_next_attempt p)"

lemma claim_loop_progress:
  assumes "\<forall>j \<in> set ks. \<exists>m. read_message env st j = Inr m" and "k \<in> set ks"
    and "read_message env st k = Inr m" and "op_state (project m (events_of log k)) = ''pending''"
    and "\<not> waiting env now (project m (events_of log k))"
    and "op_attempt (project m (events_of log k)) + 1 \<le> om_max_attempts m"
  shows "\<exists>st' x. claim_loop env log now lease ks st = (st', Inr x)"
  using assms
proof (induction ks arbitrary: st)
  case (Cons j ks)
  obtain mj where mj: "read_message env st j = Inr mj"
    using Cons.prems(1) by auto
  have same: "read_message env (fst (appendEvent env st i act att lh le nx dt now')) i' = read_message env st i'"
    for i act att lh le nx dt now' i'
    by (simp add: read_message_def)
  show ?case
  proof (cases "j = k")
    case True
    then show ?thesis
      using Cons.prems by (auto simp: Let_def case_prod_beta waiting_def)
  next
    case False
    have skip: "\<exists>st' x. claim_loop env log now lease ks st0 = (st', Inr x)"
      if "\<And>i. read_message env st0 i = read_message env st i" for st0
      using Cons.IH [of st0] Cons.prems False that by auto
    show ?thesis
      using skip [of st] skip [of "fst (appendEvent env st j ''dead''
        (op_attempt (project mj (events_of log j))) [] [] [] ''max attempts exceeded'' now)"]
      by (auto simp: mj Let_def case_prod_beta same)
  qed
qed simp

text \<open>A message is claimable when it is pending and due, or its holder let the lease run out.\<close>

definition claimable :: "outbox_env \<Rightarrow> outbox \<Rightarrow> int \<Rightarrow> string \<Rightarrow> bool" where
  "claimable env st now k =
     (case map_of (ob_messages st) k of
        None \<Rightarrow> False
      | Some m \<Rightarrow>
          let p = project m (events_of (ob_log st) k) in
          op_attempt p < om_max_attempts m
          \<and> (op_state p = ''pending'' \<and> \<not> waiting env now p \<or> expired_lease env (ob_log st) now k))"

lemma claim_progress_aux:
  assumes ok: "env_ok env" and inv: "outbox_inv env st" and c: "claimable env st now k"
  shows "\<exists>st' p tok. Claim env st now lease0 = (st', Inr (p, tok))"
proof -
  let ?lease = "if lease0 \<le> 0 then thirty_seconds else lease0"
  let ?ks = "env_map_order env (remdups (map oe_message (ob_log st)))"
  let ?st1 = "recover_loop env (ob_log st) now ?ks st"
  have order: "distinct ?ks" "set ?ks = oe_message ` set (ob_log st)"
    using ok by (auto simp: env_ok_def)
  have r: "Recover env st now = (?st1, Inr ())"
    using inv by (simp add: Recover_def)
  have inv1: "outbox_inv env ?st1" and msgs: "ob_messages ?st1 = ob_messages st"
    using Recover_inv [OF ok inv r] by auto
  obtain m where m: "map_of (ob_messages st) k = Some m"
    using c by (auto simp: claimable_def split: option.splits)
  let ?p = "project m (events_of (ob_log st) k)" and ?p1 = "project m (events_of (ob_log ?st1) k)"
  have att: "op_attempt ?p < om_max_attempts m"
    using c m by (simp add: claimable_def Let_def)
  have p1: "op_state ?p1 = ''pending'' \<and> \<not> waiting env now ?p1 \<and> op_attempt ?p1 = op_attempt ?p"
  proof (cases "expired_lease env (ob_log st) now k")
    case True
    have "events_of (ob_log st) k \<noteq> []"
      using True by (auto simp: expired_lease_def project_def)
    then have "k \<in> set ?ks"
      using order(2) by (auto simp: events_of_Nil_iff)
    then obtain e where e: "events_of (ob_log ?st1) k = events_of (ob_log st) k @ [e]"
      "oe_action e = ''recovered''" "oe_next_attempt e = []"
      "oe_attempt e = op_attempt (project undefined (events_of (ob_log st) k))"
      using recover_loop_expired [OF order(1) _ True, of st] by blast
    then show ?thesis
      using project_id_irrelevant [of m "events_of (ob_log st) k" undefined]
      by (simp add: project_snoc project_step_def waiting_def)
  next
    case False
    then show ?thesis
      using c m by (simp add: claimable_def Let_def recover_loop_live)
  qed
  have "\<exists>st' x. claim_loop env (ob_log ?st1) now ?lease (sort (map fst (ob_messages ?st1))) ?st1 = (st', Inr x)"
  proof (rule claim_loop_progress [where k = k and m = m])
    show "\<forall>j \<in> set (sort (map fst (ob_messages ?st1))). \<exists>m. read_message env ?st1 j = Inr m"
      using inv1 by (auto simp: read_message_iff intro: weak_map_of_SomeI)
    show "read_message env ?st1 k = Inr m"
      using m inv1 by (simp add: read_message_iff msgs)
    show "k \<in> set (sort (map fst (ob_messages ?st1)))"
      using m by (auto simp: msgs dest: map_of_SomeD intro: rev_image_eqI)
  qed (use p1 att in auto)
  then show ?thesis
    using inv1 by (auto simp: Claim_def r Let_def)
qed

section \<open>Enqueueing something new\<close>

lemma Enqueue_fresh:
  assumes "TrimSpace topic \<noteq> []" "TrimSpace tenant \<noteq> []" "TrimSpace key \<noteq> []"
    and "env_json_valid env payload" and "map_of (ob_receipts st) (receipt_name topic tenant key) = None"
    and "map_of (ob_messages st) (message_id env topic tenant key payload) = None"
  shows "\<exists>st'. Enqueue env st topic tenant key payload mx now
    = (st', Inr (new_message env topic tenant key payload mx now, False))"
proof -
  have "om_id (new_message env topic tenant key payload mx now) = message_id env topic tenant key payload"
    by (simp add: new_message_def Let_def)
  then show ?thesis
    using assms by (simp add: Enqueue_def Let_def)
qed

lemma Enqueue_result:
  assumes "Enqueue env st topic tenant key payload mx now = (st', Inr (m, False))"
  shows "TrimSpace topic \<noteq> []" "TrimSpace tenant \<noteq> []" "TrimSpace key \<noteq> []" "env_json_valid env payload"
    and "map_of (ob_messages st') (om_id m) = Some (stored_message env m)"
    and "m = new_message env topic tenant key payload mx now"
    and "\<exists>r. map_of (ob_receipts st') (receipt_name topic tenant key) = Some r
      \<and> or_request_sha r = request_hash env topic tenant key payload \<and> or_message r = om_id m"
    and "\<exists>e. ob_log st' = ob_log st @ [e] \<and> oe_message e = om_id m \<and> oe_action e = ''enqueued''
      \<and> oe_attempt e = 0 \<and> oe_next_attempt e = []"
proof -
  show "TrimSpace topic \<noteq> []" "TrimSpace tenant \<noteq> []" "TrimSpace key \<noteq> []" "env_json_valid env payload"
    using assms by (auto simp: Enqueue_def split: if_splits)
  show "m = new_message env topic tenant key payload mx now"
    using assms by (auto simp: Enqueue_def Let_def split: if_splits option.splits sum.splits)
  show "map_of (ob_messages st') (om_id m) = Some (stored_message env m)"
    using assms by (auto simp: Enqueue_def Let_def map_add_def split: if_splits option.splits sum.splits)
  show "\<exists>r. map_of (ob_receipts st') (receipt_name topic tenant key) = Some r
      \<and> or_request_sha r = request_hash env topic tenant key payload \<and> or_message r = om_id m"
    using assms
    by (auto simp: Enqueue_def Let_def map_add_def fst_appendEvent split: if_splits option.splits sum.splits)
  show "\<exists>e. ob_log st' = ob_log st @ [e] \<and> oe_message e = om_id m \<and> oe_action e = ''enqueued''
      \<and> oe_attempt e = 0 \<and> oe_next_attempt e = []"
    using assms by (auto simp: Enqueue_def Let_def fst_appendEvent split: if_splits option.splits sum.splits)
qed

section \<open>A concrete store\<close>

definition demo0 :: outbox where
  "demo0 = fst (Enqueue demo_env (empty_outbox []) ''alerts'' ''acme'' ''k1'' ''1'' 3 0)"

definition demo_msg :: outbox_message where
  "demo_msg = new_message demo_env ''alerts'' ''acme'' ''k1'' ''1'' 3 0"

lemmas trim_eval = TrimSpace_def drop_end_def seg_space_def IsSpace_def decode_rune.simps byte_of_def

lemma demo0_enqueued:
  "Enqueue demo_env (empty_outbox []) ''alerts'' ''acme'' ''k1'' ''1'' 3 0 = (demo0, Inr (demo_msg, False))"
proof -
  have "TrimSpace ''alerts'' \<noteq> []" "TrimSpace ''acme'' \<noteq> []" "TrimSpace ''k1'' \<noteq> []"
    by (simp_all add: trim_eval)
  then have "\<exists>st'. Enqueue demo_env (empty_outbox []) ''alerts'' ''acme'' ''k1'' ''1'' 3 0
      = (st', Inr (demo_msg, False))"
    unfolding demo_msg_def by (intro Enqueue_fresh) (simp_all add: demo_env_def empty_outbox_def)
  then show ?thesis
    by (auto simp: demo0_def)
qed

lemma demo0_reachable: "outbox_reachable demo_env demo0"
  unfolding demo0_def by (blast intro: reach_start reach_step step_enqueue)

lemma demo0_claimable: "claimable demo_env demo0 1 (om_id demo_msg)"
proof -
  note r = Enqueue_result [OF demo0_enqueued]
  obtain e where e: "ob_log demo0 = [e]" "oe_message e = om_id demo_msg" "oe_action e = ''enqueued''"
    "oe_attempt e = 0" "oe_next_attempt e = []"
    using r(8) by (auto simp: empty_outbox_def)
  have "om_max_attempts (stored_message demo_env demo_msg) = 3"
    by (simp add: demo_msg_def new_message_def stored_message_def Let_def)
  then show ?thesis
    using r(5) e by (simp add: claimable_def events_of_def project_def project_step_def waiting_def)
qed

lemma demo_claim: "\<exists>st' p tok. Claim demo_env demo0 1 10 = (st', Inr (p, tok))"
  by (rule claim_progress_aux [OF demo_env_ok outbox_reachable_inv [OF demo0_reachable demo_env_ok]
        demo0_claimable])

text \<open>A claim with nothing to recover serves the first due message in key order.\<close>

lemma recover_loop_none:
  "(\<forall>k \<in> set ks. \<not> expired_lease env log now k) \<Longrightarrow> recover_loop env log now ks st = st"
  by (induction ks arbitrary: st)
    (simp_all add: recover_loop_Cons recover_one_def del: recover_loop.simps(2))

lemma claim_loop_skip:
  "(\<forall>j \<in> set xs. \<exists>m. read_message env st j = Inr m \<and> op_state (project m (events_of log j)) \<noteq> ''pending'')
    \<Longrightarrow> claim_loop env log now lease (xs @ ys) st = claim_loop env log now lease ys st"
  by (induction xs) (auto simp: Let_def)

lemma claim_loop_hit:
  assumes "read_message env st k = Inr m" and "op_state (project m (events_of log k)) = ''pending''"
    and "\<not> waiting env now (project m (events_of log k))"
    and "op_attempt (project m (events_of log k)) < om_max_attempts m"
    and "att = op_attempt (project m (events_of log k)) + 1" and "tok = lease_token env k now att"
    and "app = appendEvent env st k ''leased'' att (env_sha env tok) (env_rfc3339 env (now + lease)) [] [] now"
  shows "claim_loop env log now lease (k # ys) st = (fst app, Inr (project m (events_of log k @ [snd app]), tok))"
  using assms by (auto simp: Let_def case_prod_beta waiting_def)

lemma claim_first_due:
  assumes ok: "env_ok env" and inv: "outbox_inv env st" and pos: "0 < lease"
    and none: "\<forall>j. \<not> expired_lease env (ob_log st) now j"
    and keys: "sort (map fst (ob_messages st)) = xs @ k # ys"
    and busy: "\<forall>j \<in> set xs. op_state (project undefined (events_of (ob_log st) j)) \<noteq> ''pending''"
    and m: "map_of (ob_messages st) k = Some m"
    and due: "op_state (project m (events_of (ob_log st) k)) = ''pending''"
    "\<not> waiting env now (project m (events_of (ob_log st) k))"
    "op_attempt (project m (events_of (ob_log st) k)) < om_max_attempts m"
  shows "\<exists>st' tok e. Claim env st now lease = (st', Inr (project m (events_of (ob_log st) k @ [e]), tok))
    \<and> ob_messages st' = ob_messages st \<and> ob_log st' = ob_log st @ [e] \<and> oe_message e = k
    \<and> oe_action e = ''leased'' \<and> oe_lease_expires e = env_rfc3339 env (now + lease)"
proof -
  have "\<exists>mj. read_message env st j = Inr mj \<and> op_state (project mj (events_of (ob_log st) j)) \<noteq> ''pending''"
    if "j \<in> set xs" for j
  proof -
    have "j \<in> set (sort (map fst (ob_messages st)))"
      using that keys by simp
    then obtain mj where "map_of (ob_messages st) j = Some mj"
      by (metis list.set_map map_of_eq_None_iff not_None_eq set_sort)
    then show ?thesis
      using busy that inv project_id_irrelevant [of mj _ undefined] by (auto simp: read_message_iff)
  qed
  note skip = claim_loop_skip [of xs env st "ob_log st" now lease "k # ys", OF ballI [OF this]]
  have "Recover env st now = (st, Inr ())"
    using inv none by (simp add: Recover_def recover_loop_none)
  then have "Claim env st now lease = claim_loop env (ob_log st) now lease (k # ys) st"
    using inv pos by (simp add: Claim_def keys skip del: claim_loop.simps)
  moreover have "read_message env st k = Inr m"
    using m inv by (simp add: read_message_iff)
  ultimately show ?thesis
    using claim_loop_hit [OF _ due refl refl refl] by (simp add: fst_appendEvent del: claim_loop.simps)
qed

definition demo3 :: outbox where
  "demo3 = fst (Enqueue demo_env demo0 ''alerts'' ''acme'' ''k2'' ''1'' 3 0)"

definition demo_msg2 :: outbox_message where
  "demo_msg2 = new_message demo_env ''alerts'' ''acme'' ''k2'' ''1'' 3 0"

lemma demo_ids: "om_id demo_msg < om_id demo_msg2"
  by (simp add: demo_msg_def demo_msg2_def new_message_def message_id_def demo_env_def Let_def nul_def)

lemma demo_receipts: "receipt_name ''alerts'' ''acme'' ''k1'' \<noteq> receipt_name ''alerts'' ''acme'' ''k2''"
  by (simp add: receipt_name_def safeName_def runes_def decode_rune.simps byte_of_def name_ch_def
      go_defs encode_rune_def scalar_def byte_def)

lemma Enqueue_appends:
  assumes "Enqueue env st topic tenant key payload mx now = (st', Inr (m, False))"
  shows "ob_messages st' = ob_messages st @ [(om_id m, stored_message env m)]"
    and "\<exists>r. ob_receipts st' = ob_receipts st @ [(receipt_name topic tenant key, r)]"
  using assms by (auto simp: Enqueue_def Let_def fst_appendEvent split: if_splits option.splits sum.splits)

lemma demo3_enqueued:
  "Enqueue demo_env demo0 ''alerts'' ''acme'' ''k2'' ''1'' 3 0 = (demo3, Inr (demo_msg2, False))"
proof -
  have "TrimSpace ''alerts'' \<noteq> []" "TrimSpace ''acme'' \<noteq> []" "TrimSpace ''k2'' \<noteq> []"
    by (simp_all add: trim_eval)
  moreover have "map_of (ob_receipts demo0) (receipt_name ''alerts'' ''acme'' ''k2'') = None"
    using Enqueue_appends(2) [OF demo0_enqueued] demo_receipts by (auto simp: empty_outbox_def)
  moreover have "map_of (ob_messages demo0) (message_id demo_env ''alerts'' ''acme'' ''k2'' ''1'') = None"
    using Enqueue_appends(1) [OF demo0_enqueued] demo_ids
    by (auto simp: empty_outbox_def demo_msg2_def new_message_def Let_def)
  ultimately have "\<exists>st'. Enqueue demo_env demo0 ''alerts'' ''acme'' ''k2'' ''1'' 3 0
      = (st', Inr (demo_msg2, False))"
    unfolding demo_msg2_def by (intro Enqueue_fresh) (simp_all add: demo_env_def)
  then show ?thesis
    by (auto simp: demo3_def)
qed

lemma demo3_reachable: "outbox_reachable demo_env demo3"
  unfolding demo3_def by (blast intro: demo0_reachable reach_step step_enqueue)

lemma demo_max [simp]:
  "om_max_attempts (stored_message demo_env demo_msg) = 3" "om_max_attempts (stored_message demo_env demo_msg2) = 3"
  by (simp_all add: demo_msg_def demo_msg2_def new_message_def stored_message_def Let_def)

lemma demo_two_claims:
  "\<exists>st1 p1 t1 st2 p2 t2. Claim demo_env demo3 1 10 = (st1, Inr (p1, t1))
     \<and> Claim demo_env (fst (Recover demo_env st1 4)) 5 10 = (st2, Inr (p2, t2))"
proof -
  let ?k = "om_id demo_msg" and ?k2 = "om_id demo_msg2"
  have ids: "?k < ?k2" "?k2 \<noteq> ?k" "?k \<le> ?k2" "?k \<noteq> ?k2"
    using demo_ids by auto
  obtain e e2 where log: "ob_log demo3 = [e, e2]" and e: "oe_message e = ?k" "oe_action e = ''enqueued''"
      "oe_attempt e = 0" "oe_next_attempt e = []"
    and e2: "oe_message e2 = ?k2" "oe_action e2 = ''enqueued''" "oe_attempt e2 = 0" "oe_next_attempt e2 = []"
    using Enqueue_result(8) [OF demo0_enqueued] Enqueue_result(8) [OF demo3_enqueued]
    by (auto simp: empty_outbox_def)
  have msgs: "ob_messages demo3 = [(?k, stored_message demo_env demo_msg), (?k2, stored_message demo_env demo_msg2)]"
    using Enqueue_appends(1) [OF demo0_enqueued] Enqueue_appends(1) [OF demo3_enqueued]
    by (simp add: empty_outbox_def)
  note ev = events_of_def log e e2 ids project_def project_step_def waiting_def expired_lease_def
  have "\<exists>st' tok e'. Claim demo_env demo3 1 10
        = (st', Inr (project (stored_message demo_env demo_msg) (events_of (ob_log demo3) ?k @ [e']), tok))
      \<and> ob_messages st' = ob_messages demo3 \<and> ob_log st' = ob_log demo3 @ [e'] \<and> oe_message e' = ?k
      \<and> oe_action e' = ''leased'' \<and> oe_lease_expires e' = env_rfc3339 demo_env (1 + 10)"
    by (rule claim_first_due [OF demo_env_ok outbox_reachable_inv [OF demo3_reachable demo_env_ok],
          of 10 1 "[]" ?k "[?k2]"]) (use ids in \<open>simp_all add: msgs ev\<close>)
  then obtain st1 p1 t1 e1 where c1: "Claim demo_env demo3 1 10 = (st1, Inr (p1, t1))"
    and st1: "ob_messages st1 = ob_messages demo3" "ob_log st1 = [e, e2, e1]" "oe_message e1 = ?k"
      "oe_action e1 = ''leased''" "oe_lease_expires e1 = env_rfc3339 demo_env 11"
    by (auto simp: log)
  have reach1: "outbox_reachable demo_env st1"
    using step_claim [of demo_env demo3 1 10] c1 by (auto intro: reach_step [OF demo3_reachable])
  have exp: "parse_or_zero demo_env (env_rfc3339 demo_env 11) = 11"
    using demo_env_ok by simp
  have "\<exists>st' tok e'. Claim demo_env st1 5 10
        = (st', Inr (project (stored_message demo_env demo_msg2) (events_of (ob_log st1) ?k2 @ [e']), tok))
      \<and> ob_messages st' = ob_messages st1 \<and> ob_log st' = ob_log st1 @ [e'] \<and> oe_message e' = ?k2
      \<and> oe_action e' = ''leased'' \<and> oe_lease_expires e' = env_rfc3339 demo_env (5 + 10)"
    by (rule claim_first_due [OF demo_env_ok outbox_reachable_inv [OF reach1 demo_env_ok],
          of 10 5 "[?k]" ?k2 "[]"]) (use ids in \<open>simp_all add: msgs ev st1 exp\<close>)
  moreover have "\<forall>j. \<not> expired_lease demo_env (ob_log st1) 4 j"
    using ids by (simp add: ev st1 exp)
  then have "fst (Recover demo_env st1 4) = st1"
    using outbox_reachable_inv [OF reach1 demo_env_ok] by (simp add: Recover_def recover_loop_none)
  ultimately show ?thesis
    using c1 by metis
qed

lemma claim_then_complete_aux:
  assumes ok: "env_ok env" and reach: "outbox_reachable env st"
    and c: "Claim env st now lease = (st1, Inr (p, tok))" and pos: "0 < lease" and "t \<le> now + lease"
  shows "\<exists>st2. Complete env st1 (om_id (op_message p)) tok t = (st2, Inr ())
    \<and> op_state (project (op_message p) (events_of (ob_log st2) (om_id (op_message p)))) = ''completed''"
proof -
  have inv: "outbox_inv env st"
    using reach ok by (rule outbox_reachable_inv)
  have inv1: "outbox_inv env st1"
    using Claim_inv(1) [OF ok inv c] by simp
  obtain k m e old where k: "map_of (ob_messages st1) k = Some m" "events_of (ob_log st1) k = old @ [e]"
    "op_message p = m" "oe_action e = ''leased''" "oe_lease_hash e = env_sha env tok"
    "oe_lease_expires e = env_rfc3339 env (now + lease)"
    using Claim_inv(2) [OF ok inv c] pos unfolding claimed_def by fastforce
  have "om_id m = k"
    using inv_lookup(2) [OF inv1 k(1)] by (simp add: message_ok_def)
  let ?app = "appendEvent env st1 k ''completed'' (oe_attempt e) [] [] [] [] t"
  have "Complete env st1 k tok t = (fst ?app, Inr ())"
    using k inv_lookup(3) [OF inv1 k(1)] inv1 ok assms(5)
    by (simp add: Complete_def finish_def Let_def project_snoc project_step_def)
  moreover have "op_state (project m (events_of (ob_log (fst ?app)) k)) = ''completed''"
    by (simp add: events_of_append project_snoc project_step_def)
  ultimately show ?thesis
    using k(3) \<open>om_id m = k\<close> by auto
qed

lemma demo_complete:
  assumes c: "Claim demo_env demo0 1 10 = (st1, Inr (p, tok))"
  shows "\<exists>st2. Complete demo_env st1 (om_id (op_message p)) tok 11 = (st2, Inr ())
    \<and> op_state (project (op_message p) (events_of (ob_log st2) (om_id (op_message p)))) = ''completed''"
  by (rule claim_then_complete_aux [OF demo_env_ok demo0_reachable c]) simp_all

section \<open>While a lease is held\<close>

text \<open>The steps that may come between: all but those of the holder and those that look at a clock past the expiry.\<close>

inductive lease_step :: "outbox_env \<Rightarrow> string \<Rightarrow> string \<Rightarrow> int \<Rightarrow> outbox \<Rightarrow> outbox \<Rightarrow> bool" for env k tok until where
  held_enqueue: "lease_step env k tok until st (fst (Enqueue env st topic tenant key payload mx now))"
| held_claim: "now < until \<Longrightarrow> lease_step env k tok until st (fst (Claim env st now lease))"
| held_recover: "now < until \<Longrightarrow> lease_step env k tok until st (fst (Recover env st now))"
| held_complete: "j \<noteq> k \<or> env_sha env t \<noteq> env_sha env tok \<Longrightarrow> lease_step env k tok until st (fst (Complete env st j t now))"
| held_retry: "j \<noteq> k \<or> env_sha env t \<noteq> env_sha env tok \<Longrightarrow>
    lease_step env k tok until st (fst (Retry env st j t detail delay now))"

definition held :: "outbox_env \<Rightarrow> string \<Rightarrow> string \<Rightarrow> int \<Rightarrow> outbox \<Rightarrow> bool" where
  "held env k tok until st \<longleftrightarrow> map_of (ob_messages st) k \<noteq> None
     \<and> (\<exists>old e. events_of (ob_log st) k = old @ [e] \<and> oe_action e = ''leased''
        \<and> oe_lease_hash e = env_sha env tok \<and> oe_lease_expires e = env_rfc3339 env until)"

lemma held_state: "held env k tok until st \<Longrightarrow> op_state (project m (events_of (ob_log st) k)) = ''leased''"
  by (auto simp: held_def project_snoc project_step_def)

lemma held_same:
  "held env k tok until st \<Longrightarrow> events_of (ob_log st') k = events_of (ob_log st) k \<Longrightarrow> map_of (ob_messages st') k = map_of (ob_messages st) k
    \<Longrightarrow> held env k tok until st'"
  by (simp add: held_def)

lemma held_not_expired: "env_ok env \<Longrightarrow> held env k tok until st \<Longrightarrow> now < until \<Longrightarrow> \<not> expired_lease env (ob_log st) now k"
  by (auto simp: held_def expired_lease_def project_snoc project_step_def)

lemma held_Recover:
  assumes "env_ok env" and "outbox_inv env st" and "held env k tok until st" and "now < until"
  shows "held env k tok until (fst (Recover env st now))"
  using held_not_expired [OF assms(1,3,4)] Recover_inv [OF assms(1,2), of now]
  by (intro held_same [OF assms(3)]) (auto simp: Recover_def recover_loop_live assms(2))

lemma claim_loop_others:
  assumes "\<And>m. op_state (project m (events_of log k)) \<noteq> ''pending''"
  shows "events_of (ob_log (fst (claim_loop env log now lease ks st))) k = events_of (ob_log st) k"
proof (induction ks arbitrary: st)
  case (Cons j ks)
  show ?case
    using assms by (auto simp: Let_def case_prod_beta Cons.IH events_of_append split: sum.split)
qed simp

lemma held_Claim:
  assumes ok: "env_ok env" and inv: "outbox_inv env st" and h: "held env k tok until st" and live: "now < until"
  shows "held env k tok until (fst (Claim env st now lease))"
proof -
  let ?st = "fst (Recover env st now)"
  have r: "Recover env st now = (?st, Inr ())" "outbox_inv env ?st"
    using Recover_inv [OF ok inv, of now] by (metis prod.collapse)+
  have h': "held env k tok until ?st"
    by (rule held_Recover [OF ok inv h live])
  have c: "fst (Claim env st now lease) = fst (claim_loop env (ob_log ?st) now (if lease \<le> 0 then thirty_seconds else lease)
      (sort (map fst (ob_messages ?st))) ?st)"
    using r(2) by (subst Claim_def, subst r(1)) (simp add: Let_def)
  have "events_of (ob_log (fst (Claim env st now lease))) k = events_of (ob_log ?st) k"
    unfolding c by (rule claim_loop_others) (simp add: held_state [OF h'])
  moreover have "ob_messages (fst (Claim env st now lease)) = ob_messages ?st"
    using Claim_inv(1) [OF ok inv, of now lease] Recover_inv [OF ok inv, of now] by (metis prod.collapse)
  ultimately show ?thesis
    using held_same [OF h'] by simp
qed

lemma held_finish:
  assumes inv: "outbox_inv env st" and h: "held env k tok until st" and other: "j \<noteq> k \<or> env_sha env t \<noteq> env_sha env tok"
  shows "held env k tok until (fst (finish env st j t action detail delay now))"
proof (cases "j = k")
  case True
  then have "env_sha env t \<noteq> env_sha env tok"
    using other by simp
  then have "fst (finish env st j t action detail delay now) = st"
    using h True by (auto simp: finish_def Let_def held_def split: sum.split)
  then show ?thesis
    using h by simp
next
  case False
  then show ?thesis
    by (intro held_same [OF h]) (auto simp: finish_def Let_def events_of_append split: sum.split)
qed

lemma held_Enqueue:
  assumes h: "held env k tok until st"
  shows "held env k tok until (fst (Enqueue env st topic tenant key payload mx now))"
proof -
  obtain m where m: "map_of (ob_messages st) k = Some m"
    using h by (auto simp: held_def)
  then have "om_id (new_message env topic tenant key payload mx now) \<noteq> k \<or> map_of (ob_messages st) (om_id (new_message env topic tenant key payload mx now)) \<noteq> None"
    by auto
  then show ?thesis
    using m by (intro held_same [OF h]) (auto simp: Enqueue_def Let_def events_of_append map_add_def split: option.split sum.split)
qed

lemma lease_step_held:
  assumes "lease_step env k tok until st st'" and "env_ok env" and "outbox_inv env st" and "held env k tok until st"
  shows "outbox_step env st st' \<and> held env k tok until st'"
  using assms(1)
  by cases (auto simp: Complete_def Retry_def intro: assms(2-4) outbox_step.intros [unfolded Complete_def Retry_def]
      held_Enqueue held_Claim held_Recover held_finish)

lemma held_steps:
  assumes "(lease_step env k tok until)\<^sup>*\<^sup>* st st'" and "env_ok env" and "outbox_inv env st" and "held env k tok until st"
  shows "outbox_inv env st' \<and> held env k tok until st'"
  using assms(1)
proof (induction rule: rtranclp_induct)
  case (step st' st'')
  then show ?case
    using lease_step_held [OF step(2) assms(2)] outbox_step_inv [OF _ assms(2)] by blast
qed (use assms in blast)

lemma Claim_holds:
  assumes ok: "env_ok env" and inv: "outbox_inv env st" and c: "Claim env st now lease = (st1, Inr (p, tok))" and pos: "0 < lease"
  shows "held env (om_id (op_message p)) tok (now + lease) st1"
proof -
  have "outbox_inv env st1"
    using Claim_inv(1) [OF ok inv c] by simp
  moreover obtain k m e old where k: "map_of (ob_messages st1) k = Some m" "events_of (ob_log st1) k = old @ [e]"
    "op_message p = m" "oe_action e = ''leased''" "oe_lease_hash e = env_sha env tok" "oe_lease_expires e = env_rfc3339 env (now + lease)"
    using Claim_inv(2) [OF ok inv c] pos unfolding claimed_def by fastforce
  ultimately show ?thesis
    using inv_lookup(2) by (auto simp: held_def message_ok_def)
qed

section \<open>Properties\<close>

text \<open>
  C15. Every reachable outbox verifies: the event chain and all message digests check, and
  the reported state counts add up to the number of messages.
\<close>

theorem outbox_verifies:
  assumes "env_ok env" and "outbox_reachable env st"
  shows "\<exists>s. Verify env st = Inr s \<and> os_messages s = length (ob_messages st)
    \<and> os_events s = length (ob_log st)
    \<and> os_pending s + os_leased s + os_completed s + os_dead s = os_messages s"
proof -
  have inv: "outbox_inv env st"
    using assms by (intro outbox_reachable_inv)
  have "first_err (\<lambda>k. case read_message env st k of Inl e \<Rightarrow> Inl e | Inr _ \<Rightarrow> Inr ())
      (sort (map fst (ob_messages st))) = Inr ()"
    using inv by (auto simp: first_err_ok read_message_iff intro: weak_map_of_SomeI
        split: sum.split) (metis Inr_not_Inl read_message_iff weak_map_of_SomeI)
  then have "Verify env st = Status env st"
    using inv by (simp add: Verify_def)
  then show ?thesis
    using inv count_states_total [OF inv, of "sort (map fst (ob_messages st))"
        "\<lparr>os_messages = length (ob_messages st), os_events = length (ob_log st),
           os_pending = 0, os_leased = 0, os_completed = 0, os_dead = 0\<rparr>"]
    by (auto simp: Status_def)
qed

theorem outbox_verifies_witness:
  "\<exists>s. Verify demo_env demo0 = Inr s \<and> os_pending s + os_leased s + os_completed s + os_dead s = os_messages s"
  using outbox_verifies [OF demo_env_ok demo0_reachable] by blast

text \<open>
  C28. Delivery is bounded: in a reachable outbox the number of times a message was leased is
  its attempt counter, which never exceeds its limit.
\<close>

theorem outbox_bounded_delivery:
  assumes "env_ok env" and "outbox_reachable env st" and "map_of (ob_messages st) k = Some m"
  shows "int (length (filter (\<lambda>e. oe_action e = ''leased'') (events_of (ob_log st) k)))
      = op_attempt (project m (events_of (ob_log st) k))
    \<and> op_attempt (project m (events_of (ob_log st) k)) \<le> om_max_attempts m"
proof -
  have inv: "outbox_inv env st"
    using assms by (intro outbox_reachable_inv)
  obtain s a where run: "lc_run (om_max_attempts m) (events_of (ob_log st) k) (s, a)"
    using inv_state [OF inv assms(3)] by metis
  have "0 < om_max_attempts m"
    using inv_lookup(2) [OF inv assms(3)] by (simp add: message_ok_def)
  then show ?thesis
    using lc_run_leases [OF run] lc_run_attempts [OF run] lc_run_project [OF run] by simp
qed

theorem outbox_bounded_delivery_witness:
  "op_attempt (project (stored_message demo_env demo_msg) (events_of (ob_log demo0) (om_id demo_msg))) \<le> 3"
  using outbox_bounded_delivery [OF demo_env_ok demo0_reachable Enqueue_result(5) [OF demo0_enqueued]]
  by (simp add: demo_msg_def new_message_def stored_message_def Let_def)

text \<open>
  C8. A lease is exclusive. After a claim, let anything happen to the outbox that neither presents the token of
  the lease for its message nor reads a clock at or after its expiry in a claim or a recovery: any number of
  enqueued messages, claims, recoveries, completions and retries. As long as the lease has not
  expired, no claim then returns the message.
\<close>

theorem claim_exclusive:
  assumes ok: "env_ok env" and reach: "outbox_reachable env st"
    and first: "Claim env st now lease = (st1, Inr (p1, tok1))" and pos: "0 < lease"
    and between: "(lease_step env (om_id (op_message p1)) tok1 (now + lease))\<^sup>*\<^sup>* st1 st'"
    and second: "Claim env st' now2 lease2 = (st2, Inr (p2, tok2))" and live: "now2 < now + lease"
  shows "om_id (op_message p2) \<noteq> om_id (op_message p1)"
proof -
  let ?k = "om_id (op_message p1)"
  have inv: "outbox_inv env st"
    using reach ok by (rule outbox_reachable_inv)
  have inv1: "outbox_inv env st1" and held1: "held env ?k tok1 (now + lease) st1"
    using Claim_inv(1) [OF ok inv first] Claim_holds [OF ok inv first pos] by auto
  then have inv': "outbox_inv env st'" and held': "held env ?k tok1 (now + lease) st'"
    using held_steps [OF between ok] by auto
  have "outbox_inv env st2"
    using Claim_inv(1) [OF ok inv' second] by simp
  then obtain j m where j: "map_of (ob_messages st2) j = Some m" "op_message p2 = m" "om_id m = j"
    "op_state (project m (events_of (ob_log (fst (Recover env st' now2))) j)) = ''pending''"
    using Claim_inv(2) [OF ok inv' second] inv_lookup(2) unfolding claimed_def message_ok_def by fastforce
  have "op_state (project m (events_of (ob_log (fst (Recover env st' now2))) ?k)) = ''leased''"
    using held_Recover [OF ok inv' held' live] by (rule held_state)
  then have "j \<noteq> ?k"
    using j(4) by auto
  then show ?thesis
    using j(2,3) by simp
qed

theorem claim_exclusive_witness:
  "\<exists>st1 p1 t1 st2 p2 t2. Claim demo_env demo3 1 10 = (st1, Inr (p1, t1))
     \<and> Claim demo_env (fst (Recover demo_env st1 4)) 5 10 = (st2, Inr (p2, t2)) \<and> om_id (op_message p2) \<noteq> om_id (op_message p1)"
proof -
  obtain st1 p1 t1 st2 p2 t2 where c: "Claim demo_env demo3 1 10 = (st1, Inr (p1, t1))"
    "Claim demo_env (fst (Recover demo_env st1 4)) 5 10 = (st2, Inr (p2, t2))"
    using demo_two_claims by blast
  have "(lease_step demo_env (om_id (op_message p1)) t1 (1 + 10))\<^sup>*\<^sup>* st1 (fst (Recover demo_env st1 4))"
    by (intro r_into_rtranclp held_recover) simp
  then show ?thesis
    using claim_exclusive [OF demo_env_ok demo3_reachable c(1) _ _ c(2)] c by auto
qed

text \<open>
  C27. The holder can finish: with the token it was given, completing at any instant of the
  lease succeeds and records the message as completed.
\<close>

theorem claim_then_complete:
  assumes ok: "env_ok env" and reach: "outbox_reachable env st"
    and c: "Claim env st now lease = (st1, Inr (p, tok))" and pos: "0 < lease" and "t \<le> now + lease"
  shows "\<exists>st2. Complete env st1 (om_id (op_message p)) tok t = (st2, Inr ())
    \<and> op_state (project (op_message p) (events_of (ob_log st2) (om_id (op_message p)))) = ''completed''"
  using assms by (rule claim_then_complete_aux)

theorem claim_then_complete_witness:
  "\<exists>st1 p tok st2. Claim demo_env demo0 1 10 = (st1, Inr (p, tok))
     \<and> Complete demo_env st1 (om_id (op_message p)) tok 11 = (st2, Inr ())"
proof -
  obtain st1 p tok where c: "Claim demo_env demo0 1 10 = (st1, Inr (p, tok))"
    using demo_claim by blast
  show ?thesis
    using claim_then_complete [OF demo_env_ok demo0_reachable c, of 11] c by auto
qed

text \<open>
  Finality: once a message is completed or dead, no later operation on the outbox ever
  adds an event for it, so its projection stays as it is.
\<close>

theorem finished_is_final:
  assumes ok: "env_ok env" and reach: "outbox_reachable env st" and steps: "(outbox_step env)\<^sup>*\<^sup>* st st'"
    and m: "map_of (ob_messages st) k = Some m"
    and fin: "op_state (project m (events_of (ob_log st) k)) \<in> {''completed'', ''dead''}"
  shows "events_of (ob_log st') k = events_of (ob_log st) k \<and> map_of (ob_messages st') k = Some m"
proof -
  have inv: "outbox_inv env st" and inv': "outbox_inv env st'"
    using outbox_reachable_inv [OF _ ok] reach steps_reachable [OF steps reach] by auto
  obtain ms es where g: "ob_messages st' = ob_messages st @ ms" "ob_log st' = ob_log st @ es"
    using grows_steps [OF steps] by (auto simp: grows_def)
  then have m': "map_of (ob_messages st') k = Some m"
    using m inv' by (auto simp: outbox_inv_def map_add_def split: option.split
        dest!: map_of_SomeD)
  obtain s a where run: "lc_run (om_max_attempts m) (events_of (ob_log st) k) (s, a)"
    using inv_state [OF inv m] by metis
  obtain s' a' where run': "lc_run (om_max_attempts m) (events_of (ob_log st) k @ events_of es k) (s', a')"
    using inv_state [OF inv' m'] by (metis g(2) events_of_def filter_append)
  have "s = Completed \<or> s = Dead"
    using fin lc_run_project [OF run] by (cases s) auto
  then have "events_of es k = []"
    using lc_run_final [OF run' run] by simp
  then show ?thesis
    using m' g(2) by (simp add: events_of_def)
qed

theorem finished_is_final_witness:
  "\<exists>st k m. op_state (project m (events_of (ob_log st) k)) = ''completed''
     \<and> events_of (ob_log (fst (Claim demo_env st 99 10))) k = events_of (ob_log st) k"
proof -
  obtain st1 p tok where c: "Claim demo_env demo0 1 10 = (st1, Inr (p, tok))"
    using demo_claim by blast
  let ?k = "om_id (op_message p)"
  have reach1: "outbox_reachable demo_env st1"
    using step_claim [of demo_env demo0 1 10] c by (auto intro: reach_step [OF demo0_reachable])
  obtain st2 where d: "Complete demo_env st1 ?k tok 11 = (st2, Inr ())"
    "op_state (project (op_message p) (events_of (ob_log st2) ?k)) = ''completed''"
    using demo_complete [OF c] by blast
  have reach2: "outbox_reachable demo_env st2"
    using step_complete [of demo_env st1 ?k tok 11] d(1) by (auto intro: reach_step [OF reach1])
  have "events_of (ob_log st2) ?k \<noteq> []"
    using d(2) by (auto simp: project_def)
  then obtain m where m: "map_of (ob_messages st2) ?k = Some m"
    using inv_message_of_event [OF outbox_reachable_inv [OF reach2 demo_env_ok]]
    by (auto simp: events_of_Nil_iff)
  have "op_state (project m (events_of (ob_log st2) ?k)) = ''completed''"
    using d(2) project_id_irrelevant by metis
  then show ?thesis
    using finished_is_final [OF demo_env_ok reach2 r_into_rtranclp [of "outbox_step demo_env", OF step_claim [of _ st2 99 10]] m]
    by blast
qed

text \<open>
  C34. Progress: when some message is due (pending and past its next attempt, or held under a
  lease that ran out) and has attempts left, a claim succeeds, whatever the order in which
  expired leases are recovered.
\<close>

theorem claim_progress:
  assumes "env_ok env" and "outbox_reachable env st" and "claimable env st now k"
  shows "\<exists>st' p tok. Claim env st now lease = (st', Inr (p, tok))"
  using assms by (intro claim_progress_aux outbox_reachable_inv)

theorem claim_progress_witness:
  "\<exists>st' p tok. Claim demo_env demo0 1 0 = (st', Inr (p, tok))"
  by (rule claim_progress [OF demo_env_ok demo0_reachable demo0_claimable])

text \<open>
  Enqueueing is idempotent: repeating a request that was accepted returns the stored message
  as a replay and changes nothing, while another payload under the same key is refused,
  unless the digests of the two requests coincide.
\<close>

theorem enqueue_idempotent:
  assumes ok: "env_ok env" and reach: "outbox_reachable env st"
    and e: "Enqueue env st topic tenant key payload mx now = (st1, Inr (m, False))"
    and other: "env_json_valid env payload2"
      "request_hash env topic tenant key payload2 \<noteq> request_hash env topic tenant key payload"
  shows "Enqueue env st1 topic tenant key payload mx2 now2 = (st1, Inr (stored_message env m, True))
    \<and> Enqueue env st1 topic tenant key payload2 mx2 now2 = (st1, Inl IdempotencyConflict)"
proof -
  note r = Enqueue_result [OF e]
  have "outbox_reachable env st1"
    using reach step_enqueue [of env st topic tenant key payload mx now] e by (auto intro: reach_step)
  then have "read_message env st1 (om_id m) = Inr (stored_message env m)"
    using r(5) outbox_reachable_inv [OF _ ok] by (simp add: read_message_iff)
  then show ?thesis
    using r(1-4,7) other by (auto simp: Enqueue_def)
qed

theorem enqueue_idempotent_witness:
  "Enqueue demo_env demo0 ''alerts'' ''acme'' ''k1'' ''1'' 5 7 = (demo0, Inr (stored_message demo_env demo_msg, True))
   \<and> Enqueue demo_env demo0 ''alerts'' ''acme'' ''k1'' ''2'' 5 7 = (demo0, Inl IdempotencyConflict)"
  using enqueue_idempotent [OF demo_env_ok reach_start demo0_enqueued, of "''2''"]
  by (simp add: request_hash_def demo_env_def)

text \<open>
  Tamper evidence: two event logs that verify and end in the same event digest are the same
  log, or they contain two different events with one digest.
\<close>

theorem outbox_tamper_evident:
  assumes "check_events env 0 [] xs = Inr ()" and "check_events env 0 [] ys = Inr ()"
    and "xs \<noteq> []" and "ys \<noteq> []" and "oe_sha (last xs) = oe_sha (last ys)"
    and "length xs < 2 ^ 64" and "length ys < 2 ^ 64"
  shows "xs = ys \<or> (\<exists>e \<in> set xs. \<exists>f \<in> set ys. blank_event e \<noteq> blank_event f
    \<and> outboxEventHash env e = outboxEventHash env f)"
  using oc.equal_heads_equal_logs [of env "[]" xs ys] assms
  by (simp add: check_events_iff outboxEventHash_def)

definition weak_env :: outbox_env where
  "weak_env = demo_env\<lparr>env_sha := (\<lambda>_. ''d'')\<rparr>"

definition weak_event :: "string \<Rightarrow> outbox_event" where
  "weak_event detail = \<lparr>oe_schema = ''v1'', oe_stream = ''s'', oe_sequence = 1, oe_prev = [], oe_sha = ''d'',
     oe_occurred_at = [], oe_message = ''m'', oe_action = ''enqueued'', oe_attempt = 0, oe_lease_hash = [],
     oe_lease_expires = [], oe_next_attempt = [], oe_detail = detail\<rparr>"

theorem outbox_tamper_evident_witness:
  "check_events weak_env 0 [] [weak_event ''x''] = Inr () \<and> check_events weak_env 0 [] [weak_event ''y''] = Inr ()
   \<and> blank_event (weak_event ''x'') \<noteq> blank_event (weak_event ''y'')
   \<and> outboxEventHash weak_env (weak_event ''x'') = outboxEventHash weak_env (weak_event ''y'')"
proof -
  have "outboxEventHash weak_env e = ''d''" for e
    by (simp add: outboxEventHash_def objectHash_event_def digest_json_def weak_env_def)
  then have ok: "check_events weak_env 0 [] [weak_event d] = Inr ()" for d
    by (simp add: weak_event_def)
  have "weak_event ''x'' \<noteq> weak_event ''y''" "oe_sha (weak_event d) = ''d''" for d
    by (simp_all add: weak_event_def)
  then show ?thesis
    using outbox_tamper_evident [OF ok ok, of "''x''" "''y''"] ok by auto
qed

text \<open>
  C39. Receipt names are not injective: the topic, tenant and key are joined by two underscores
  before unsafe characters are replaced, so that once tenant \<^verbatim>\<open>acme\<close> has used the key
  \<^verbatim>\<open>eu__k1\<close>, the first request of tenant \<^verbatim>\<open>acme__eu\<close> with key \<^verbatim>\<open>k1\<close> is refused as an
  idempotency conflict, whatever its topic and payload, unless the request digests coincide.
\<close>

theorem receipt_collision:
  assumes e: "Enqueue env st topic ''acme'' ''eu__k1'' payload mx now = (st1, Inr (m, False))"
    and "env_json_valid env payload2"
    and "request_hash env topic ''acme__eu'' ''k1'' payload2 \<noteq> request_hash env topic ''acme'' ''eu__k1'' payload"
  shows "Enqueue env st1 topic ''acme__eu'' ''k1'' payload2 mx2 now2 = (st1, Inl IdempotencyConflict)"
proof -
  have "receipt_name topic ''acme__eu'' ''k1'' = receipt_name topic ''acme'' ''eu__k1''"
    by (simp add: receipt_name_def)
  moreover have "TrimSpace ''acme__eu'' \<noteq> []" "TrimSpace ''k1'' \<noteq> []"
    by (simp_all add: trim_eval)
  ultimately show ?thesis
    using Enqueue_result [OF e] assms(2,3) by (auto simp: Enqueue_def)
qed

theorem receipt_collision_witness:
  "\<exists>st m. Enqueue demo_env demo0 ''alerts'' ''acme'' ''eu__k1'' ''1'' 3 0 = (st, Inr (m, False))
     \<and> Enqueue demo_env st ''alerts'' ''acme__eu'' ''k1'' ''1'' 3 0 = (st, Inl IdempotencyConflict)"
proof -
  have trim: "TrimSpace ''alerts'' \<noteq> []" "TrimSpace ''acme'' \<noteq> []" "TrimSpace ''eu__k1'' \<noteq> []"
    by (simp_all add: trim_eval)
  have "receipt_name ''alerts'' ''acme'' ''k1'' \<noteq> receipt_name ''alerts'' ''acme'' ''eu__k1''"
    by (simp add: receipt_name_def safeName_def runes_def decode_rune.simps byte_of_def name_ch_def
      go_defs encode_rune_def scalar_def byte_def)
  then have rp: "map_of (ob_receipts demo0) (receipt_name ''alerts'' ''acme'' ''eu__k1'') = None"
    using Enqueue_appends(2) [OF demo0_enqueued] by (auto simp: empty_outbox_def)
  have "om_id demo_msg \<noteq> message_id demo_env ''alerts'' ''acme'' ''eu__k1'' ''1''"
    by (simp add: demo_msg_def new_message_def message_id_def demo_env_def Let_def nul_def)
  then have "map_of (ob_messages demo0) (message_id demo_env ''alerts'' ''acme'' ''eu__k1'' ''1'') = None"
    using Enqueue_appends(1) [OF demo0_enqueued] by (auto simp: empty_outbox_def)
  then obtain st m where "Enqueue demo_env demo0 ''alerts'' ''acme'' ''eu__k1'' ''1'' 3 0 = (st, Inr (m, False))"
    using Enqueue_fresh [OF trim _ rp, of demo_env "''1''" 3 0] by (auto simp: demo_env_def)
  then show ?thesis
    using receipt_collision by (fastforce simp: request_hash_def demo_env_def nul_def)
qed

end
