(* ===== verification/Segments.thy ===== *)
theory Segments imports GoStrings begin

text \<open>
  How trimming, splitting into fields and upper-casing act on the decoded segments of a
  string. Decoding is stable under cutting at segment boundaries, so that these operations
  compose without decoding again; the idempotence results of the normalisers rest on it.
\<close>

section \<open>Trimming, splitting and upper-casing as operations on segments\<close>

definition seg_bytes :: "(nat \<times> string) list \<Rightarrow> string" where
  "seg_bytes ss = concat (map snd ss)"

lemma seg_bytes_simps [simp]:
  "seg_bytes [] = []" "seg_bytes (p # ss) = snd p @ seg_bytes ss" "seg_bytes (xs @ ys) = seg_bytes xs @ seg_bytes ys"
  by (simp_all add: seg_bytes_def)

lemma seg_bytes_segs [simp]: "seg_bytes (segs s) = s"
  by (simp add: seg_bytes_def concat_segs)

lemma segs_eq_Nil [simp]: "segs s = [] \<longleftrightarrow> s = []"
  by (cases s) (auto split: prod.splits)

lemma seg_nonempty: "p \<in> set (segs s) \<Longrightarrow> snd p \<noteq> []"
  using segs_bytes_nonempty by (cases p) auto

lemma seg_scalar: "p \<in> set (segs s) \<Longrightarrow> scalar (fst p)"
  using segs_scalar by (cases p) auto

lemma drop_end_prefix: "\<exists>n. drop_end P xs = take n xs"
  by (metis drop_end_def dropWhile_eq_drop rev_drop rev_rev_ident)

lemma segs_TrimSpace: "segs (TrimSpace s) = drop_end seg_space (dropWhile seg_space (segs s))"
proof -
  obtain n where "drop_end seg_space (dropWhile seg_space (segs s)) = take n (dropWhile seg_space (segs s))"
    using drop_end_prefix by blast
  then show ?thesis
    unfolding TrimSpace_def
    by (intro segs_infix [where as = "takeWhile seg_space (segs s)" and cs = "drop n (dropWhile seg_space (segs s))"])
      simp
qed

lemma drop_end_hd: "drop_end P xs \<noteq> [] \<Longrightarrow> hd (drop_end P xs) = hd xs"
  by (metis drop_end_prefix hd_take take_eq_Nil neq0_conv)

lemma trim_ends:
  fixes s :: string
  defines "t \<equiv> segs (TrimSpace s)"
  shows "t = [] \<or> \<not> seg_space (hd t) \<and> \<not> seg_space (last t)"
proof (cases "t = []")
  case False
  have ne: "dropWhile seg_space (segs s) \<noteq> []"
  proof
    assume "dropWhile seg_space (segs s) = []"
    with False show False by (simp add: t_def segs_TrimSpace del: dropWhile_eq_Nil_conv segs_eq_Nil)
  qed
  moreover have "hd t = hd (dropWhile seg_space (segs s))"
    using False drop_end_hd unfolding t_def segs_TrimSpace by blast
  ultimately show ?thesis
    using False drop_end_last [of seg_space "dropWhile seg_space (segs s)"] hd_dropWhile [of seg_space "segs s"]
    by (simp add: t_def segs_TrimSpace del: dropWhile_eq_Nil_conv)
qed simp

lemma TrimSpace_id:
  "segs s = [] \<or> \<not> seg_space (hd (segs s)) \<and> \<not> seg_space (last (segs s)) \<Longrightarrow> TrimSpace s = s"
  by (auto simp: TrimSpace_def dropWhile_id drop_end_id concat_segs)

lemma TrimSpace_idem [simp]: "TrimSpace (TrimSpace s) = TrimSpace s"
  using trim_ends by (rule TrimSpace_id)

text \<open>The maximal runs of segments without white space.\<close>

fun runs :: "(nat \<times> string) list \<Rightarrow> (nat \<times> string) list \<Rightarrow> (nat \<times> string) list list" where
  "runs cur [] = (if cur = [] then [] else [cur])"
| "runs cur (p # ss) =
     (if seg_space p then (if cur = [] then runs [] ss else cur # runs [] ss) else runs (cur @ [p]) ss)"

lemma seg_bytes_Nil: "(\<forall>p \<in> set ss. snd p \<noteq> []) \<Longrightarrow> seg_bytes ss = [] \<longleftrightarrow> ss = []"
  by (cases ss) auto

lemma fields_aux_runs:
  "(\<forall>p \<in> set cur. snd p \<noteq> []) \<Longrightarrow> (\<forall>p \<in> set ss. snd p \<noteq> [])
    \<Longrightarrow> fields_aux (seg_bytes cur) ss = map seg_bytes (runs cur ss)"
proof (induction cur ss rule: runs.induct)
  case (1 cur)
  then show ?case by (simp add: seg_bytes_Nil)
next
  case (2 cur p ss)
  then show ?case
    by (cases p) (auto simp: seg_bytes_Nil seg_space_def)
qed

lemma Fields_runs: "Fields s = map seg_bytes (runs [] (segs s))"
  using fields_aux_runs [of "[]" "segs s"] by (simp add: Fields_def seg_nonempty)

lemma runs_ConsE:
  assumes "w \<in> set (runs cur (p # ss))"
  obtains "w \<in> set (runs (cur @ [p]) ss)" "\<not> seg_space p" | "w \<in> set (runs [] ss)" "seg_space p"
    | "w = cur" "cur \<noteq> []"
  using assms by (auto split: if_splits)

lemma runs_word: "w \<in> set (runs cur ss) \<Longrightarrow> (\<forall>p \<in> set cur. \<not> seg_space p)
    \<Longrightarrow> w \<noteq> [] \<and> (\<forall>p \<in> set w. \<not> seg_space p)"
proof (induction cur ss rule: runs.induct)
  case (1 cur)
  then show ?case by (cases "cur = []") auto
next
  case (2 cur p ss)
  from "2.prems"(1) show ?case
  proof (cases rule: runs_ConsE)
    case 1
    with "2.IH"(3) "2.prems"(2) show ?thesis by simp
  next
    case 2
    show ?thesis
      by (cases "cur = []") (rule "2.IH"(1) [OF 2(2) _ 2(1)] "2.IH"(2) [OF 2(2) _ 2(1)], simp_all)+
  next
    case 3
    with "2.prems"(2) show ?thesis by simp
  qed
qed

lemma runs_infix: "w \<in> set (runs cur ss) \<Longrightarrow> \<exists>as bs. cur @ ss = as @ w @ bs"
proof (induction cur ss rule: runs.induct)
  case (1 cur)
  then have "cur @ [] = [] @ w @ []"
    by (auto split: if_splits)
  then show ?case by blast
next
  case (2 cur p ss)
  from "2.prems" show ?case
  proof (cases rule: runs_ConsE)
    case 1
    then show ?thesis
      using 2 by auto
  next
    case w: 2
    then obtain as bs where "ss = as @ w @ bs"
      using 2 by (cases "cur = []") auto
    then have "cur @ p # ss = (cur @ p # as) @ w @ bs"
      by simp
    then show ?thesis
      by blast
  next
    case 3
    then show ?thesis by (metis append_Nil)
  qed
qed

definition space_seg :: "nat \<times> string" where
  "space_seg = (32, '' '')"

fun join_runs :: "(nat \<times> string) list list \<Rightarrow> (nat \<times> string) list" where
  "join_runs [] = []"
| "join_runs [w] = w"
| "join_runs (w # ws) = w @ space_seg # join_runs ws"

lemma Join_runs: "Join (map seg_bytes ws) '' '' = seg_bytes (join_runs ws)"
  by (induction ws rule: join_runs.induct) (auto simp: space_seg_def)

lemma segs_space: "ascii_start ('' '' @ s)" "segs ('' '' @ s) = space_seg # segs s"
  by (simp_all add: ascii_start_def byte_of_def decode_rune_ascii space_seg_def)

lemma segs_join_runs: "(\<forall>w \<in> set ws. segs (seg_bytes w) = w) \<Longrightarrow> segs (seg_bytes (join_runs ws)) = join_runs ws"
proof (induction ws rule: join_runs.induct)
  case (3 w v ws)
  have "seg_bytes (join_runs (w # v # ws)) = seg_bytes w @ '' '' @ seg_bytes (join_runs (v # ws))"
    by (simp add: space_seg_def)
  then show ?case
    using 3 by (simp only: segs_append [OF segs_space(1)] segs_space(2)) simp
qed auto

lemma runs_append_word:
  "(\<forall>p \<in> set w. \<not> seg_space p) \<Longrightarrow> runs cur (w @ ss) = runs (cur @ w) ss"
  by (induction w arbitrary: cur) auto

lemma runs_join_runs:
  "(\<forall>w \<in> set ws. w \<noteq> [] \<and> (\<forall>p \<in> set w. \<not> seg_space p)) \<Longrightarrow> runs [] (join_runs ws) = ws"
proof (induction ws rule: join_runs.induct)
  case (2 w)
  then show ?case
    using runs_append_word [of w "[]" "[]"] by simp
next
  case (3 w v ws)
  then show ?case
    using runs_append_word [of w "[]" "space_seg # join_runs (v # ws)"]
    by (simp add: space_seg_def seg_space_def IsSpace_def)
qed simp

text \<open>Collapsing white space: the fields joined by single spaces.\<close>

lemma segs_collapse: "segs (Join (Fields s) '' '') = join_runs (runs [] (segs s))"
proof -
  have "segs (seg_bytes w) = w" if "w \<in> set (runs [] (segs s))" for w
    using runs_infix [OF that] unfolding seg_bytes_def by (auto intro: segs_infix)
  then show ?thesis
    by (simp add: Fields_runs Join_runs segs_join_runs)
qed

section \<open>Assumptions on the Unicode tables\<close>

text \<open>
  What the proofs use of the generated tables: case mapping yields scalar values, leaves
  upper-case (respectively lower-case) letters alone and does not turn white space into
  something else or the reverse; letters and digits are not white space.
\<close>

definition unicode_ok :: "unicode \<Rightarrow> bool" where
  "unicode_ok u \<longleftrightarrow> (\<forall>r. scalar r \<longrightarrow> 128 \<le> r \<longrightarrow>
      scalar (u_upper u r) \<and> rune_upper u (u_upper u r) = u_upper u r \<and> IsSpace (u_upper u r) = IsSpace r
    \<and> scalar (u_lower u r) \<and> rune_lower u (u_lower u r) = u_lower u r \<and> IsSpace (u_lower u r) = IsSpace r
    \<and> (IsSpace r \<longrightarrow> \<not> u_letter u r \<and> \<not> u_digit u r))"

lemma ascii_tables_ok: "unicode_ok ascii_tables"
  by (simp add: unicode_ok_def ascii_tables_def rune_upper_def rune_lower_def)

lemma case_ok:
  assumes "unicode_ok u" and "scalar r"
  shows "scalar (rune_upper u r)" "rune_upper u (rune_upper u r) = rune_upper u r"
    "IsSpace (rune_upper u r) = IsSpace r"
    and "scalar (rune_lower u r)" "rune_lower u (rune_lower u r) = rune_lower u r"
    "IsSpace (rune_lower u r) = IsSpace r"
proof -
  have "scalar (rune_upper u r) \<and> rune_upper u (rune_upper u r) = rune_upper u r
    \<and> IsSpace (rune_upper u r) = IsSpace r \<and> scalar (rune_lower u r)
    \<and> rune_lower u (rune_lower u r) = rune_lower u r \<and> IsSpace (rune_lower u r) = IsSpace r"
  proof (cases "r < 128")
    case True
    then show ?thesis
      by (auto simp: rune_upper_def rune_lower_def is_lower_az_def is_upper_az_def scalar_def IsSpace_def)
  next
    case False
    then show ?thesis
      using assms by (simp add: unicode_ok_def rune_upper_def [of u r] rune_lower_def [of u r])
  qed
  then show "scalar (rune_upper u r)" "rune_upper u (rune_upper u r) = rune_upper u r"
    "IsSpace (rune_upper u r) = IsSpace r" "scalar (rune_lower u r)"
    "rune_lower u (rune_lower u r) = rune_lower u r" "IsSpace (rune_lower u r) = IsSpace r"
    by auto
qed

lemma letter_digit_not_space:
  "unicode_ok u \<Longrightarrow> scalar r \<Longrightarrow> IsLetter u r \<or> IsDigit u r \<Longrightarrow> \<not> IsSpace r"
  by (cases "r < 128")
    (auto simp: unicode_ok_def IsLetter_def IsDigit_def is_upper_az_def is_lower_az_def is_09_def IsSpace_def)

definition up_seg :: "unicode \<Rightarrow> nat \<times> string \<Rightarrow> nat \<times> string" where
  "up_seg u p = (rune_upper u (fst p), encode_rune (rune_upper u (fst p)))"

lemma ToUpper_segs: "ToUpper u s = seg_bytes (map (up_seg u) (segs s))"
  by (simp add: ToUpper_def seg_bytes_def encode_def runes_def up_seg_def comp_def)

lemma segs_ToUpper: "unicode_ok u \<Longrightarrow> segs (ToUpper u s) = map (up_seg u) (segs s)"
proof -
  assume "unicode_ok u"
  then have "\<forall>r \<in> set (map (rune_upper u) (runes s)). scalar r"
    using runes_scalar by (auto simp: case_ok)
  then show ?thesis
    unfolding ToUpper_def by (simp add: segs_encode) (simp add: runes_def up_seg_def)
qed

lemma up_seg_space: "unicode_ok u \<Longrightarrow> scalar (fst p) \<Longrightarrow> seg_space (up_seg u p) = seg_space p"
  by (simp add: up_seg_def seg_space_def case_ok)

lemma up_seg_idem: "unicode_ok u \<Longrightarrow> scalar (fst p) \<Longrightarrow> up_seg u (up_seg u p) = up_seg u p"
  by (simp add: up_seg_def case_ok)

lemma ToUpper_idem: "unicode_ok u \<Longrightarrow> ToUpper u (ToUpper u s) = ToUpper u s"
  by (simp add: ToUpper_segs [of u "ToUpper u s"] segs_ToUpper comp_def)
    (simp add: ToUpper_segs up_seg_idem seg_scalar cong: map_cong)

lemma ToUpper_trimmed:
  assumes "unicode_ok u" and "segs s = [] \<or> \<not> seg_space (hd (segs s)) \<and> \<not> seg_space (last (segs s))"
  shows "TrimSpace (ToUpper u s) = ToUpper u s"
proof (rule TrimSpace_id)
  show "segs (ToUpper u s) = []
      \<or> \<not> seg_space (hd (segs (ToUpper u s))) \<and> \<not> seg_space (last (segs (ToUpper u s)))"
    using assms by (cases "segs s = []") (simp_all add: segs_ToUpper hd_map last_map up_seg_space seg_scalar [OF hd_in_set] seg_scalar [OF last_in_set])
qed

definition blank :: "string \<Rightarrow> bool" where
  "blank s \<longleftrightarrow> TrimSpace s = []"

lemma not_blank_ascii: "byte_of c < 128 \<Longrightarrow> \<not> IsSpace (byte_of c) \<Longrightarrow> \<not> blank (c # cs)"
proof
  assume c: "byte_of c < 128" "\<not> IsSpace (byte_of c)" and b: "blank (c # cs)"
  have s: "segs (c # cs) = (byte_of c, [c]) # segs cs"
    using c by (simp add: decode_rune_ascii)
  have "dropWhile seg_space (segs (c # cs)) = segs (c # cs)"
    unfolding s using c by (simp add: seg_space_def)
  then have "segs (TrimSpace (c # cs)) = drop_end seg_space ((byte_of c, [c]) # segs cs)"
    by (simp only: segs_TrimSpace s)
  moreover have "drop_end seg_space ((byte_of c, [c]) # segs cs) \<noteq> []"
    using c by (auto simp: drop_end_def seg_space_def)
  ultimately show False
    using b by (auto simp: blank_def)
qed

end
