(* ===== verification/Normalization.thy ===== *)
theory Normalization imports Segments begin

text \<open>
  The value normaliser of \<^verbatim>\<open>internal/normalization/normalize.go\<close>: one function from a profile
  name and a value to the normalised value, or an error for an unknown profile.
\<close>

datatype normalization_error = UnsupportedProfile string

definition collapseWhitespace :: "string \<Rightarrow> string" where
  "collapseWhitespace v = Join (Fields v) '' ''"

text \<open>\<^verbatim>\<open>strings.Map\<close> with a function that drops white space.\<close>

definition removeWhitespace :: "string \<Rightarrow> string" where
  "removeWhitespace v = encode (filter (\<lambda>r. \<not> IsSpace r) (runes (TrimSpace v)))"

definition Normalize :: "unicode \<Rightarrow> string \<Rightarrow> string \<Rightarrow> (normalization_error, string) result" where
  "Normalize u profile v =
     (if profile = ''none'' then Inr v
      else if profile \<in> {''party_name_v1'', ''address_v1'', ''text_context_v1'', ''reference_v1''}
      then Inr (ToUpper u (collapseWhitespace v))
      else if profile \<in> {''bic_v1'', ''lei_v1'', ''iban_v1'', ''identifier_v1''}
      then Inr (ToUpper u (removeWhitespace v))
      else if profile = ''country_code_v1'' then Inr (ToUpper u (TrimSpace v))
      else if profile \<in> {''amount_v1'', ''date_v1'', ''datetime_v1''} then Inr (TrimSpace v)
      else Inl (UnsupportedProfile profile))"

section \<open>Idempotence\<close>

lemma map_join_runs:
  "f space_seg = space_seg \<Longrightarrow> map f (join_runs ws) = join_runs (map (map f) ws)"
  by (induction ws rule: join_runs.induct) auto

lemma up_space_seg [simp]: "up_seg u space_seg = space_seg"
  by (simp add: up_seg_def space_seg_def rune_upper_def is_lower_az_def encode_rune_def scalar_def byte_def char_of_def bit_0)

lemma set_join_runs: "set (join_runs ws) \<subseteq> insert space_seg (\<Union> (set ` set ws))"
  by (induction ws rule: join_runs.induct) auto

lemma scalar_runs: "w \<in> set (runs [] (segs s)) \<Longrightarrow> p \<in> set w \<Longrightarrow> scalar (fst p)"
  using runs_infix [of w "[]" "segs s"] seg_scalar [of p s] by auto

lemma runs_up:
  assumes "unicode_ok u"
  shows "runs [] (map (up_seg u) (join_runs (runs [] (segs s)))) = map (map (up_seg u)) (runs [] (segs s))"
proof -
  have "w \<noteq> [] \<and> (\<forall>p \<in> set w. \<not> seg_space p)" if "w \<in> set (runs [] (segs s))" for w
    using runs_word [OF that] by simp
  then have "\<forall>w \<in> set (map (map (up_seg u)) (runs [] (segs s))). w \<noteq> [] \<and> (\<forall>p \<in> set w. \<not> seg_space p)"
    using assms scalar_runs by (auto simp: up_seg_space)
  then show ?thesis
    by (simp add: map_join_runs runs_join_runs)
qed

lemma collapse_upper_idem:
  assumes u: "unicode_ok u"
  shows "ToUpper u (collapseWhitespace (ToUpper u (collapseWhitespace v))) = ToUpper u (collapseWhitespace v)"
proof -
  let ?rs = "runs [] (segs v)"
  have "segs (collapseWhitespace (ToUpper u (collapseWhitespace v))) = map (up_seg u) (join_runs ?rs)"
    using runs_up [OF u] u by (simp add: collapseWhitespace_def segs_collapse segs_ToUpper map_join_runs)
  moreover have "map (up_seg u) (map (up_seg u) (join_runs ?rs)) = map (up_seg u) (join_runs ?rs)"
  proof -
    have "up_seg u (up_seg u p) = up_seg u p" if p: "p \<in> set (join_runs ?rs)" for p
    proof -
      consider "p = space_seg" | w where "w \<in> set ?rs" "p \<in> set w"
        using subsetD [OF set_join_runs p] by auto
      then show ?thesis
        by cases (simp_all add: up_seg_idem [OF u] scalar_runs)
    qed
    then show ?thesis by simp
  qed
  ultimately have "ToUpper u (collapseWhitespace (ToUpper u (collapseWhitespace v)))
      = seg_bytes (map (up_seg u) (join_runs ?rs))"
    by (simp only: ToUpper_segs)
  then show ?thesis
    by (simp add: ToUpper_segs [of u "collapseWhitespace v"]) (simp add: collapseWhitespace_def segs_collapse)
qed

lemma remove_upper_idem:
  assumes u: "unicode_ok u"
  shows "ToUpper u (removeWhitespace (ToUpper u (removeWhitespace v))) = ToUpper u (removeWhitespace v)"
proof -
  define rs where "rs = filter (\<lambda>r. \<not> IsSpace r) (runes (TrimSpace v))"
  have rs: "\<forall>r \<in> set rs. scalar r \<and> \<not> IsSpace r"
    using runes_scalar by (auto simp: rs_def)
  let ?w = "ToUpper u (removeWhitespace v)"
  have w: "?w = encode (map (rune_upper u) rs)"
    using rs by (simp add: removeWhitespace_def ToUpper_def runes_encode rs_def [symmetric])
  have up: "\<forall>r \<in> set (map (rune_upper u) rs). scalar r \<and> \<not> IsSpace r"
    using rs u by (auto simp: case_ok)
  then have "TrimSpace ?w = ?w"
    unfolding w by (intro TrimSpace_encode_id) (metis hd_in_set last_in_set)+
  moreover have "runes ?w = map (rune_upper u) rs"
    unfolding w using up by (intro runes_encode) auto
  ultimately have "removeWhitespace ?w = ?w"
    using up filter_True [of "map (rune_upper u) rs" "\<lambda>r. \<not> IsSpace r"] w
    by (simp add: removeWhitespace_def [of "encode (map (rune_upper u) rs)"])
  then show ?thesis
    using u by (simp add: ToUpper_idem)
qed

text \<open>
  Normalising is idempotent: for every profile, a value that came out of the normaliser
  passes through it unchanged, so stored and freshly normalised values can be compared.
\<close>

theorem normalize_idempotent:
  assumes u: "unicode_ok u" and w: "Normalize u profile v = Inr w"
  shows "Normalize u profile w = Inr w"
proof -
  have trim: "TrimSpace (ToUpper u (TrimSpace v)) = ToUpper u (TrimSpace v)"
    using u trim_ends by (rule ToUpper_trimmed)
  consider "w = v" "profile = ''none''"
    | "w = ToUpper u (collapseWhitespace v)" "profile \<in> {''party_name_v1'', ''address_v1'', ''text_context_v1'', ''reference_v1''}"
    | "w = ToUpper u (removeWhitespace v)" "profile \<in> {''bic_v1'', ''lei_v1'', ''iban_v1'', ''identifier_v1''}"
    | "w = ToUpper u (TrimSpace v)" "profile = ''country_code_v1''"
    | "w = TrimSpace v" "profile \<in> {''amount_v1'', ''date_v1'', ''datetime_v1''}"
    using w unfolding Normalize_def by (simp split: if_splits)
  then show ?thesis
  proof cases
    case 2
    then show ?thesis
      using collapse_upper_idem [OF u, of v] by (auto simp: Normalize_def)
  next
    case 3
    then show ?thesis
      using remove_upper_idem [OF u, of v] by (auto simp: Normalize_def)
  qed (use trim ToUpper_idem [OF u] in \<open>auto simp: Normalize_def\<close>)
qed

theorem normalize_idempotent_witness:
  "Normalize ascii_tables ''party_name_v1'' '' acme   corp'' = Inr ''ACME CORP''
   \<and> Normalize ascii_tables ''party_name_v1'' ''ACME CORP'' = Inr ''ACME CORP''"
proof -
  have "Normalize ascii_tables ''party_name_v1'' '' acme   corp'' = Inr ''ACME CORP''"
    by (simp add: Normalize_def collapseWhitespace_def Fields_def decode_rune.simps byte_of_def IsSpace_def char_of_def bit_0
        ToUpper_def runes_def encode_def encode_rune_def scalar_def byte_def rune_upper_def is_lower_az_def)
  then show ?thesis
    using normalize_idempotent [OF ascii_tables_ok] by blast
qed

end
