(* ===== verification/CandidateScoring.thy ===== *)
theory CandidateScoring imports Segments GoJson begin

text \<open>
  Candidate scoring (\<^verbatim>\<open>internal/candidatescoring\<close>): normalisation of names, identifiers, dates,
  countries and reason codes, the comparison of a subject with a candidate, the additive score
  under a validated policy, and the ranking of a bounded candidate set.
\<close>

section \<open>Data\<close>

record weights =
  w_identifier :: int
  w_name_exact :: int
  w_name_concat :: int
  w_name_token_set :: int
  w_name_particle :: int
  w_name_prefix :: int
  w_name_containment :: int
  w_dob_exact :: int
  w_dob_year :: int
  w_country_exact :: int
  w_entity_exact :: int
  w_dob_conflict :: int
  w_country_conflict :: int
  w_entity_conflict :: int

record thresholds =
  t_strong :: int
  t_review :: int
  t_weak :: int

record scoring_policy =
  sp_schema :: string
  sp_id :: string
  sp_version :: string
  sp_profile :: string
  sp_max_evidence :: int
  sp_floor :: int
  sp_ceiling :: int
  sp_weights :: weights
  sp_thresholds :: thresholds

record typed_id =
  id_type :: string
  id_value :: string

record subject =
  sj_names :: "string list"
  sj_identifiers :: "typed_id list"
  sj_countries :: "string list"
  sj_dobs :: "string list"
  sj_entity :: string

record candidate =
  cd_id :: string
  cd_names :: "string list"
  cd_identifiers :: "typed_id list"
  cd_countries :: "string list"
  cd_dobs :: "string list"
  cd_entity :: string

record lineage =
  ln_provider :: string
  ln_catalog :: string
  ln_component :: string
  ln_version :: string
  ln_activation :: string
  ln_profile :: string

record retrieval =
  rt_routes :: "string list"
  rt_reasons :: "string list"

record envelope =
  en_candidate :: candidate
  en_retrieval :: retrieval

record request =
  rq_schema :: string
  rq_id :: string
  rq_field :: string
  rq_original :: string
  rq_normalized :: string
  rq_subject :: subject
  rq_lineage :: lineage
  rq_candidates :: "envelope list"

record batch_request =
  bq_schema :: string
  bq_id :: string
  bq_items :: "request list"

record score_component =
  sc_component :: string
  sc_points :: int
  sc_reason :: string

record evidence_item =
  ev_kind :: string
  ev_outcome :: string
  ev_subject :: string
  ev_candidate :: string
  ev_points :: int
  ev_reason :: string

record candidate_result =
  cr_id :: string
  cr_score :: int
  cr_band :: string
  cr_exact_identifier :: bool
  cr_exact_name :: bool
  cr_reasons :: "string list"
  cr_components :: "score_component list"
  cr_evidence :: "evidence_item list"
  cr_retrieval :: retrieval
  cr_lineage :: lineage

record policy_reference =
  pr_id :: string
  pr_version :: string
  pr_sha :: string
  pr_profile :: string

record screened_field =
  sf_path :: string
  sf_original :: string
  sf_normalized :: string

record response =
  rs_schema :: string
  rs_request :: string
  rs_sha :: string
  rs_field :: screened_field
  rs_policy :: policy_reference
  rs_candidates :: "candidate_result list"

record batch_response =
  bs_schema :: string
  bs_id :: string
  bs_sha :: string
  bs_policy :: policy_reference
  bs_items :: "response list"

record loaded_policy =
  lp_policy :: scoring_policy
  lp_sha :: string

datatype scoring_error =
    PolicySchema | PolicyIdentity | PolicyProfile | PolicyEvidence | PolicyBounds | PolicyThresholds
  | PolicyWeights | PolicyConflictWeights | PolicyDecode | PolicyDigestLength | PolicyDigestMismatch
  | RequestSchema | RequestId | NoCandidates | TooManyCandidates | CandidateId nat
  | IncompleteLineage | LineageProfile | DuplicateCandidate string
  | BatchSchema | BatchId | BatchEmpty | DuplicateRequest string nat | BatchItem nat scoring_error

section \<open>Normalisation\<close>

text \<open>
  The loop of \<^verbatim>\<open>normalizeText\<close>: letters and digits are kept, every run of anything else
  becomes one space; \<open>last_space\<close> starts out true.
\<close>

fun text_loop :: "unicode \<Rightarrow> bool \<Rightarrow> nat list \<Rightarrow> nat list" where
  "text_loop u last_space [] = []"
| "text_loop u last_space (r # rs) =
     (if IsLetter u r \<or> IsDigit u r then r # text_loop u False rs
      else if \<not> last_space then 32 # text_loop u True rs
      else text_loop u last_space rs)"

definition normalizeText :: "unicode \<Rightarrow> string \<Rightarrow> string" where
  "normalizeText u v = TrimSpace (encode (text_loop u True (runes (ToUpper u (TrimSpace v)))))"

definition normalizeIdentifierType :: "unicode \<Rightarrow> string \<Rightarrow> string" where
  "normalizeIdentifierType u v = replace_byte (normalizeText u v) space_ch ''_''"

definition normalizeIdentifierValue :: "unicode \<Rightarrow> string \<Rightarrow> string" where
  "normalizeIdentifierValue u v = replace_byte (normalizeText u v) space_ch []"

definition normalizeCountry :: "unicode \<Rightarrow> string \<Rightarrow> string" where
  "normalizeCountry u v = replace_byte (normalizeText u v) space_ch []"

definition normalizeEntityType :: "unicode \<Rightarrow> string \<Rightarrow> string" where
  "normalizeEntityType u v =
     (let n = normalizeText u v in
      if n \<in> {''PERSON'', ''INDIVIDUAL'', ''NATURAL PERSON''} then ''PERSON''
      else if n \<in> {''ORGANIZATION'', ''ORGANISATION'', ''ENTITY'', ''COMPANY'', ''BUSINESS''} then ''ORGANIZATION''
      else if n \<in> {''VESSEL'', ''SHIP''} then ''VESSEL''
      else if n \<in> {''AIRCRAFT'', ''PLANE''} then ''AIRCRAFT''
      else n)"

definition tokenSet :: "unicode \<Rightarrow> string \<Rightarrow> string list" where
  "tokenSet u v = sorted_set (Fields (normalizeText u v))"

definition equalTokenSet :: "unicode \<Rightarrow> string \<Rightarrow> string \<Rightarrow> bool" where
  "equalTokenSet u a b \<longleftrightarrow> tokenSet u a \<noteq> [] \<and> tokenSet u a = tokenSet u b"

definition equalSpacesStripped :: "string \<Rightarrow> string \<Rightarrow> bool" where
  "equalSpacesStripped a b \<longleftrightarrow> replace_byte a space_ch [] = replace_byte b space_ch []"

definition particleTokens :: "string list" where
  "particleTokens = [''AL'', ''BIN'', ''VAN'', ''DER'', ''DE'', ''DA'', ''DEL'', ''DOS'', ''DAS'',
     ''LA'', ''LE'', ''VON'', ''IBN'']"

definition stripParticleTokens :: "string list \<Rightarrow> string list" where
  "stripParticleTokens tokens = filter (\<lambda>t. t \<notin> set particleTokens) tokens"

definition equalParticleStrippedTokenSet :: "unicode \<Rightarrow> string \<Rightarrow> string \<Rightarrow> bool" where
  "equalParticleStrippedTokenSet u a b \<longleftrightarrow>
     stripParticleTokens (tokenSet u a) \<noteq> []
     \<and> stripParticleTokens (tokenSet u a) = stripParticleTokens (tokenSet u b)"

definition uniqueSorted :: "(string \<Rightarrow> string) \<Rightarrow> string list \<Rightarrow> string list" where
  "uniqueSorted normalizer values = sorted_set (filter (\<lambda>n. n \<noteq> []) (map normalizer values))"

definition normalizeDate :: "string \<Rightarrow> string" where
  "normalizeDate v = (let v = TrimSpace v in if length v \<ge> 4 then v else [])"

text \<open>The loop of \<^verbatim>\<open>normalizeReasonCode\<close>, with the output so far.\<close>

fun reason_loop :: "string \<Rightarrow> bool \<Rightarrow> nat list \<Rightarrow> string" where
  "reason_loop out last_us [] = out"
| "reason_loop out last_us (r # rs) =
     (if is_lower_az r \<or> is_09 r then reason_loop (out @ encode_rune r) False rs
      else if \<not> last_us \<and> out \<noteq> [] then reason_loop (out @ ''_'') True rs
      else reason_loop out last_us rs)"

definition trim_byte :: "char \<Rightarrow> string \<Rightarrow> string" where
  "trim_byte c s = drop_end (\<lambda>d. d = c) (dropWhile (\<lambda>d. d = c) s)"

definition normalizeReasonCode :: "unicode \<Rightarrow> string \<Rightarrow> string" where
  "normalizeReasonCode u v = trim_byte (CHR ''_'') (reason_loop [] False (runes (ToLower u (TrimSpace v))))"

section \<open>Comparing a subject with a candidate\<close>

definition identifier_key :: "unicode \<Rightarrow> typed_id \<Rightarrow> string \<times> string" where
  "identifier_key u i = (normalizeIdentifierType u (id_type i), normalizeIdentifierValue u (id_value i))"

definition pair_less :: "string \<times> string \<Rightarrow> string \<times> string \<Rightarrow> bool" where
  "pair_less = lex_less fst (\<lambda>a b. snd a < snd b)"

definition display :: "string \<times> string \<Rightarrow> string" where
  "display k = fst k @ '':'' @ snd k"

definition identifierMatch :: "unicode \<Rightarrow> typed_id list \<Rightarrow> typed_id list \<Rightarrow> bool \<times> string \<times> string" where
  "identifierMatch u subj cand =
     (let candidate_set = filter (\<lambda>k. fst k \<noteq> [] \<and> snd k \<noteq> []) (map (identifier_key u) cand);
          matches = filter (\<lambda>k. k \<in> set candidate_set) (map (identifier_key u) subj)
      in case sort_by pair_less matches of
           [] \<Rightarrow> (False, [], [])
         | selected # _ \<Rightarrow> (True, display selected, display selected))"

text \<open>A name match: rank, shape, subject and candidate.\<close>

type_synonym name_match = "nat \<times> string \<times> string \<times> string"

definition name_shape :: "unicode \<Rightarrow> string \<Rightarrow> string \<Rightarrow> (nat \<times> string) option" where
  "name_shape u ns nc =
     (if ns = nc then Some (6, ''exact'')
      else if equalSpacesStripped ns nc then Some (5, ''concatenation_normalized'')
      else if equalTokenSet u ns nc then Some (4, ''token_set'')
      else if equalParticleStrippedTokenSet u ns nc then Some (3, ''particle_stripped'')
      else if HasPrefix ns nc \<or> HasPrefix nc ns then Some (2, ''prefix'')
      else if Contains ns nc \<or> Contains nc ns then Some (1, ''containment'')
      else None)"

definition name_matches :: "unicode \<Rightarrow> string list \<Rightarrow> string list \<Rightarrow> name_match list" where
  "name_matches u subj cand =
     concat (map (\<lambda>rawSubject.
       let ns = normalizeText u rawSubject in
       if ns = [] then []
       else concat (map (\<lambda>rawCandidate.
              let nc = normalizeText u rawCandidate in
              if nc = [] then []
              else (case name_shape u ns nc of None \<Rightarrow> [] | Some (rank, shape) \<Rightarrow> [(rank, shape, ns, nc)])) cand))
       subj)"

definition match_rank :: "name_match \<Rightarrow> nat" where "match_rank m = fst m"
definition match_shape :: "name_match \<Rightarrow> string" where "match_shape m = fst (snd m)"
definition match_subject :: "name_match \<Rightarrow> string" where "match_subject m = fst (snd (snd m))"
definition match_candidate :: "name_match \<Rightarrow> string" where "match_candidate m = snd (snd (snd m))"

definition match_less :: "name_match \<Rightarrow> name_match \<Rightarrow> bool" where
  "match_less a b =
     (if match_rank a \<noteq> match_rank b then match_rank a > match_rank b
      else if match_subject a \<noteq> match_subject b then match_subject a < match_subject b
      else match_candidate a < match_candidate b)"

definition bestNameMatch :: "unicode \<Rightarrow> string list \<Rightarrow> string list \<Rightarrow> string \<times> string \<times> string" where
  "bestNameMatch u subj cand =
     (case sort_by match_less (name_matches u subj cand) of
        [] \<Rightarrow> ([], [], [])
      | m # _ \<Rightarrow> (match_shape m, match_subject m, match_candidate m))"

text \<open>The first pair of the two lists, in loop order, that a test accepts.\<close>

fun find_pair :: "('a \<Rightarrow> 'b \<Rightarrow> bool) \<Rightarrow> 'a list \<Rightarrow> 'b list \<Rightarrow> ('a \<times> 'b) option" where
  "find_pair P [] cs = None"
| "find_pair P (s # ss) cs =
     (case find (P s) cs of Some c \<Rightarrow> Some (s, c) | None \<Rightarrow> find_pair P ss cs)"

definition same_year :: "string \<Rightarrow> string \<Rightarrow> bool" where
  "same_year s c \<longleftrightarrow> length s \<ge> 4 \<and> length c \<ge> 4 \<and> take 4 s = take 4 c"

definition dateMatch :: "string list \<Rightarrow> string list \<Rightarrow> string \<times> string \<times> string" where
  "dateMatch subj cand =
     (let s = uniqueSorted normalizeDate subj; c = uniqueSorted normalizeDate cand in
      if s = [] \<or> c = [] then ([], [], [])
      else (case find_pair (\<lambda>sv cv. sv = cv) s c of
              Some (sv, cv) \<Rightarrow> (''exact'', sv, cv)
            | None \<Rightarrow>
                (case find_pair same_year s c of
                   Some (sv, cv) \<Rightarrow> (''year'', sv, cv)
                 | None \<Rightarrow> (''conflict'', hd s, hd c))))"

definition setMatch :: "(string \<Rightarrow> string) \<Rightarrow> string list \<Rightarrow> string list \<Rightarrow> string \<times> string \<times> string" where
  "setMatch normalizer subj cand =
     (let s = uniqueSorted normalizer subj; c = uniqueSorted normalizer cand in
      if s = [] \<or> c = [] then ([], [], [])
      else (case find (\<lambda>v. v \<in> set c) s of
              Some v \<Rightarrow> (''exact'', v, v)
            | None \<Rightarrow> (''conflict'', hd s, hd c)))"

section \<open>Scoring one candidate\<close>

definition strengthBand :: "int \<Rightarrow> scoring_policy \<Rightarrow> string" where
  "strengthBand score p =
     (if score \<ge> t_strong (sp_thresholds p) then ''strong_candidate''
      else if score \<ge> t_review (sp_thresholds p) then ''review_candidate''
      else if score \<ge> t_weak (sp_thresholds p) then ''weak_candidate''
      else ''no_candidate_support'')"

text \<open>What the closure \<^verbatim>\<open>add\<close> accumulates.\<close>

record tally =
  ta_components :: "score_component list"
  ta_evidence :: "evidence_item list"
  ta_reasons :: "string list"

definition add_item ::
  "scoring_policy \<Rightarrow> string \<Rightarrow> int \<Rightarrow> string \<Rightarrow> string \<Rightarrow> string \<Rightarrow> string \<Rightarrow> string \<Rightarrow> tally \<Rightarrow> tally" where
  "add_item p compo points reason kind outcome sv cv t =
     t\<lparr>ta_components := ta_components t @
          (if points \<noteq> 0 then [\<lparr>sc_component = compo, sc_points = points, sc_reason = reason\<rparr>] else []),
       ta_reasons := ta_reasons t @ [reason],
       ta_evidence := (if int (length (ta_evidence t)) < sp_max_evidence p
          then ta_evidence t @ [\<lparr>ev_kind = kind, ev_outcome = outcome, ev_subject = sv, ev_candidate = cv,
                 ev_points = points, ev_reason = reason\<rparr>]
          else ta_evidence t)\<rparr>"

definition add_identifier :: "scoring_policy \<Rightarrow> bool \<times> string \<times> string \<Rightarrow> tally \<Rightarrow> tally" where
  "add_identifier p m t =
     (case m of (exact, sv, cv) \<Rightarrow>
        if exact then add_item p ''typed_identifier'' (w_identifier (sp_weights p)) ''typed_identifier_exact''
                        ''identifier'' ''support'' sv cv t
        else t)"

definition add_name :: "scoring_policy \<Rightarrow> string \<times> string \<times> string \<Rightarrow> tally \<Rightarrow> tally" where
  "add_name p m t =
     (case m of (shape, sv, cv) \<Rightarrow>
        let w = sp_weights p;
            add = (\<lambda>points reason. add_item p ''name'' points reason ''name'' ''support'' sv cv t) in
        if shape = ''exact'' then add (w_name_exact w) ''name_exact''
        else if shape = ''concatenation_normalized'' then add (w_name_concat w) ''name_concatenation_normalized''
        else if shape = ''token_set'' then add (w_name_token_set w) ''name_token_set_exact''
        else if shape = ''particle_stripped'' then add (w_name_particle w) ''name_particle_stripped''
        else if shape = ''prefix'' then add (w_name_prefix w) ''name_prefix''
        else if shape = ''containment'' then add (w_name_containment w) ''name_containment''
        else t)"

definition add_dob :: "scoring_policy \<Rightarrow> string \<times> string \<times> string \<Rightarrow> tally \<Rightarrow> tally" where
  "add_dob p m t =
     (case m of (outcome, sv, cv) \<Rightarrow>
        let w = sp_weights p;
            add = (\<lambda>points reason side. add_item p ''date_of_birth'' points reason ''date_of_birth'' side sv cv t) in
        if outcome = ''exact'' then add (w_dob_exact w) ''date_of_birth_exact'' ''support''
        else if outcome = ''year'' then add (w_dob_year w) ''date_of_birth_year_exact'' ''support''
        else if outcome = ''conflict'' then add (w_dob_conflict w) ''date_of_birth_conflict'' ''contradiction''
        else t)"

definition add_country :: "scoring_policy \<Rightarrow> string \<times> string \<times> string \<Rightarrow> tally \<Rightarrow> tally" where
  "add_country p m t =
     (case m of (outcome, sv, cv) \<Rightarrow>
        let w = sp_weights p;
            add = (\<lambda>points reason side. add_item p ''country'' points reason ''country'' side sv cv t) in
        if outcome = ''exact'' then add (w_country_exact w) ''country_exact'' ''support''
        else if outcome = ''conflict'' then add (w_country_conflict w) ''country_conflict'' ''contradiction''
        else t)"

definition add_entity :: "scoring_policy \<Rightarrow> string \<Rightarrow> string \<Rightarrow> tally \<Rightarrow> tally" where
  "add_entity p sv cv t =
     (let w = sp_weights p;
          add = (\<lambda>points reason side. add_item p ''entity_type'' points reason ''entity_type'' side sv cv t) in
      if sv \<noteq> [] \<and> cv \<noteq> [] then
        (if sv = cv then add (w_entity_exact w) ''entity_type_exact'' ''support''
         else add (w_entity_conflict w) ''entity_type_conflict'' ''contradiction'')
      else t)"

text \<open>The sum of the points in Go's \<^verbatim>\<open>int\<close>, and the two clamps in their order.\<close>

definition sum_points :: "score_component list \<Rightarrow> int" where
  "sum_points cs = foldl (\<lambda>s c. wrap64 (s + sc_points c)) 0 cs"

definition clamp_score :: "scoring_policy \<Rightarrow> int \<Rightarrow> int" where
  "clamp_score p s0 =
     (let s1 = (if s0 < sp_floor p then sp_floor p else s0)
      in if s1 > sp_ceiling p then sp_ceiling p else s1)"

definition tally_candidate :: "unicode \<Rightarrow> scoring_policy \<Rightarrow> subject \<Rightarrow> candidate \<Rightarrow> tally" where
  "tally_candidate u p s c =
     add_entity p (normalizeEntityType u (sj_entity s)) (normalizeEntityType u (cd_entity c))
      (add_country p (setMatch (normalizeCountry u) (sj_countries s) (cd_countries c))
        (add_dob p (dateMatch (sj_dobs s) (cd_dobs c))
          (add_name p (bestNameMatch u (sj_names s) (cd_names c))
            (add_identifier p (identifierMatch u (sj_identifiers s) (cd_identifiers c))
              \<lparr>ta_components = [], ta_evidence = [], ta_reasons = []\<rparr>))))"

definition scoreCandidate ::
  "unicode \<Rightarrow> scoring_policy \<Rightarrow> subject \<Rightarrow> lineage \<Rightarrow> envelope \<Rightarrow> candidate_result" where
  "scoreCandidate u p s l e =
     (let c = en_candidate e;
          t = tally_candidate u p s c;
          retrieved = uniqueSorted (normalizeReasonCode u) (rt_reasons (en_retrieval e));
          reasons = ta_reasons t @ map (\<lambda>r. ''retrieval_'' @ r) retrieved;
          score = clamp_score p (sum_points (ta_components t))
      in \<lparr>cr_id = cd_id c, cr_score = score, cr_band = strengthBand score p,
          cr_exact_identifier = fst (identifierMatch u (sj_identifiers s) (cd_identifiers c)),
          cr_exact_name = (fst (bestNameMatch u (sj_names s) (cd_names c)) = ''exact''),
          cr_reasons = uniqueSorted (normalizeReasonCode u) reasons,
          cr_components = ta_components t, cr_evidence = ta_evidence t,
          cr_retrieval = \<lparr>rt_routes = uniqueSorted (normalizeReasonCode u) (rt_routes (en_retrieval e)),
                          rt_reasons = retrieved\<rparr>,
          cr_lineage = l\<rparr>)"

end
