(* ===== verification/ScoringEngine.thy ===== *)
theory ScoringEngine imports CandidateScoring begin

text \<open>
  The scoring engine (\<^verbatim>\<open>policy.go\<close>, \<^verbatim>\<open>engine.go\<close> of \<^verbatim>\<open>internal/candidatescoring\<close>): policy and
  request validation, digests, ranking of the candidates of a request and ordered batches.
  Decoding of the policy bytes is a parameter.
\<close>

section \<open>Serialised forms\<close>

definition policy_json :: "scoring_policy \<Rightarrow> json" where
  "policy_json p =
     (let w = sp_weights p; t = sp_thresholds p in
      JObj (fld ''schema_version'' (JStr (sp_schema p)) @ fld ''policy_id'' (JStr (sp_id p))
          @ fld ''policy_version'' (JStr (sp_version p)) @ fld ''normalization_profile'' (JStr (sp_profile p))
          @ fld ''max_evidence_items'' (JInt (sp_max_evidence p)) @ fld ''score_floor'' (JInt (sp_floor p))
          @ fld ''score_ceiling'' (JInt (sp_ceiling p))
          @ fld ''weights'' (JObj
              (fld ''typed_identifier_exact'' (JInt (w_identifier w)) @ fld ''name_exact'' (JInt (w_name_exact w))
             @ fld ''name_concatenation_normalized'' (JInt (w_name_concat w))
             @ fld ''name_token_set'' (JInt (w_name_token_set w))
             @ fld ''name_particle_stripped'' (JInt (w_name_particle w)) @ fld ''name_prefix'' (JInt (w_name_prefix w))
             @ fld ''name_containment'' (JInt (w_name_containment w)) @ fld ''date_of_birth_exact'' (JInt (w_dob_exact w))
             @ fld ''date_of_birth_year'' (JInt (w_dob_year w)) @ fld ''country_exact'' (JInt (w_country_exact w))
             @ fld ''entity_type_exact'' (JInt (w_entity_exact w))
             @ fld ''date_of_birth_conflict'' (JInt (w_dob_conflict w))
             @ fld ''country_conflict'' (JInt (w_country_conflict w))
             @ fld ''entity_type_conflict'' (JInt (w_entity_conflict w))))
          @ fld ''thresholds'' (JObj
              (fld ''strong_candidate'' (JInt (t_strong t)) @ fld ''review_candidate'' (JInt (t_review t))
             @ fld ''weak_candidate'' (JInt (t_weak t))))))"

definition opt_strs :: "string \<Rightarrow> string list \<Rightarrow> (string \<times> json) list" where
  "opt_strs k xs = opt k (xs = []) (jstrs xs)"

definition opt_str :: "string \<Rightarrow> string \<Rightarrow> (string \<times> json) list" where
  "opt_str k s = opt k (s = []) (JStr s)"

definition identifiers_json :: "typed_id list \<Rightarrow> (string \<times> json) list" where
  "identifiers_json is = opt ''identifiers'' (is = [])
     (JArr (map (\<lambda>i. JObj (fld ''type'' (JStr (id_type i)) @ fld ''value'' (JStr (id_value i)))) is))"

definition subject_json :: "subject \<Rightarrow> json" where
  "subject_json s = JObj (opt_strs ''names'' (sj_names s) @ identifiers_json (sj_identifiers s)
     @ opt_strs ''countries'' (sj_countries s) @ opt_strs ''dates_of_birth'' (sj_dobs s)
     @ opt_str ''entity_type'' (sj_entity s))"

definition candidate_json :: "candidate \<Rightarrow> json" where
  "candidate_json c = JObj (fld ''candidate_id'' (JStr (cd_id c)) @ opt_strs ''names'' (cd_names c)
     @ identifiers_json (cd_identifiers c) @ opt_strs ''countries'' (cd_countries c)
     @ opt_strs ''dates_of_birth'' (cd_dobs c) @ opt_str ''entity_type'' (cd_entity c))"

definition lineage_json :: "lineage \<Rightarrow> json" where
  "lineage_json l = JObj (fld ''provider'' (JStr (ln_provider l)) @ fld ''catalog_id'' (JStr (ln_catalog l))
     @ fld ''component_id'' (JStr (ln_component l)) @ fld ''component_version'' (JStr (ln_version l))
     @ fld ''activation_id'' (JStr (ln_activation l)) @ fld ''normalization_profile'' (JStr (ln_profile l)))"

text \<open>\<^verbatim>\<open>omitempty\<close> has no effect on a struct field.\<close>

definition envelope_json :: "envelope \<Rightarrow> json" where
  "envelope_json e = JObj (fld ''candidate'' (candidate_json (en_candidate e))
     @ fld ''retrieval'' (JObj (opt_strs ''routes'' (rt_routes (en_retrieval e))
         @ opt_strs ''reason_codes'' (rt_reasons (en_retrieval e)))))"

definition request_json :: "request \<Rightarrow> json" where
  "request_json r = JObj (fld ''schema_version'' (JStr (rq_schema r)) @ fld ''request_id'' (JStr (rq_id r))
     @ opt_str ''field_path'' (rq_field r) @ opt_str ''original_value'' (rq_original r)
     @ opt_str ''normalized_value'' (rq_normalized r) @ fld ''subject'' (subject_json (rq_subject r))
     @ fld ''lineage'' (lineage_json (rq_lineage r))
     @ fld ''candidates'' (JArr (map envelope_json (rq_candidates r))))"

definition batch_json :: "batch_request \<Rightarrow> json" where
  "batch_json b = JObj (fld ''schema_version'' (JStr (bq_schema b)) @ fld ''batch_id'' (JStr (bq_id b))
     @ fld ''items'' (JArr (map request_json (bq_items b))))"

section \<open>Policies\<close>

definition validatePolicy :: "scoring_policy \<Rightarrow> (scoring_error, unit) result" where
  "validatePolicy p =
     (let w = sp_weights p; t = sp_thresholds p in
      if sp_schema p \<noteq> ''openwatchlist.candidate-scoring-policy.v1'' then Inl PolicySchema
      else if TrimSpace (sp_id p) = [] \<or> TrimSpace (sp_version p) = [] then Inl PolicyIdentity
      else if TrimSpace (sp_profile p) = [] then Inl PolicyProfile
      else if sp_max_evidence p < 1 \<or> sp_max_evidence p > 64 then Inl PolicyEvidence
      else if sp_floor p < 0 \<or> sp_ceiling p \<le> sp_floor p then Inl PolicyBounds
      else if t_weak t < sp_floor p \<or> t_review t < t_weak t \<or> t_strong t < t_review t \<or> t_strong t > sp_ceiling p
      then Inl PolicyThresholds
      else if \<exists>x \<in> set [w_identifier w, w_name_exact w, w_name_concat w, w_name_token_set w, w_name_particle w,
                 w_name_prefix w, w_name_containment w, w_dob_exact w, w_dob_year w, w_country_exact w,
                 w_entity_exact w]. x < 0
      then Inl PolicyWeights
      else if \<exists>x \<in> set [w_dob_conflict w, w_country_conflict w, w_entity_conflict w]. x > 0
      then Inl PolicyConflictWeights
      else Inr ())"

definition ParsePolicy ::
  "(string \<Rightarrow> string) \<Rightarrow> (string \<Rightarrow> scoring_policy option) \<Rightarrow> string \<Rightarrow> (scoring_error, loaded_policy) result" where
  "ParsePolicy sha decode raw =
     (case decode raw of
        None \<Rightarrow> Inl PolicyDecode
      | Some p \<Rightarrow>
          (case validatePolicy p of
             Inl e \<Rightarrow> Inl e
           | Inr _ \<Rightarrow> Inr \<lparr>lp_policy = p, lp_sha = digest_json sha (policy_json p)\<rparr>))"

definition NewEngine :: "(string \<Rightarrow> string) \<Rightarrow> loaded_policy \<Rightarrow> (scoring_error, loaded_policy) result" where
  "NewEngine sha lp =
     (case validatePolicy (lp_policy lp) of
        Inl e \<Rightarrow> Inl e
      | Inr _ \<Rightarrow>
          if length (lp_sha lp) \<noteq> 64 then Inl PolicyDigestLength
          else if digest_json sha (policy_json (lp_policy lp)) \<noteq> lp_sha lp then Inl PolicyDigestMismatch
          else Inr lp)"

definition PolicyReference :: "loaded_policy \<Rightarrow> policy_reference" where
  "PolicyReference lp = \<lparr>pr_id = sp_id (lp_policy lp), pr_version = sp_version (lp_policy lp),
     pr_sha = lp_sha lp, pr_profile = sp_profile (lp_policy lp)\<rparr>"

section \<open>Requests\<close>

fun blank_candidate :: "nat \<Rightarrow> envelope list \<Rightarrow> nat option" where
  "blank_candidate i [] = None"
| "blank_candidate i (e # es) =
     (if TrimSpace (cd_id (en_candidate e)) = [] then Some i else blank_candidate (Suc i) es)"

definition validateRequest :: "request \<Rightarrow> scoring_policy \<Rightarrow> (scoring_error, unit) result" where
  "validateRequest r p =
     (let l = rq_lineage r in
      if rq_schema r \<noteq> ''openwatchlist.candidate-scoring-request.v1'' then Inl RequestSchema
      else if TrimSpace (rq_id r) = [] then Inl RequestId
      else if rq_candidates r = [] then Inl NoCandidates
      else if length (rq_candidates r) > 1000 then Inl TooManyCandidates
      else (case blank_candidate 0 (rq_candidates r) of
        Some i \<Rightarrow> Inl (CandidateId i)
      | None \<Rightarrow>
          if ln_provider l = [] \<or> ln_catalog l = [] \<or> ln_component l = [] \<or> ln_version l = []
             \<or> ln_activation l = [] \<or> ln_profile l = [] then Inl IncompleteLineage
          else if ln_profile l \<noteq> sp_profile p then Inl LineageProfile
          else Inr ()))"

definition result_less :: "candidate_result \<Rightarrow> candidate_result \<Rightarrow> bool" where
  "result_less a b =
     (if cr_score a \<noteq> cr_score b then cr_score a > cr_score b
      else if cr_exact_identifier a \<noteq> cr_exact_identifier b then cr_exact_identifier a
      else if cr_exact_name a \<noteq> cr_exact_name b then cr_exact_name a
      else cr_id a < cr_id b)"

text \<open>The loop over the envelopes, with the trimmed identifiers seen so far.\<close>

fun score_loop ::
  "unicode \<Rightarrow> scoring_policy \<Rightarrow> subject \<Rightarrow> lineage \<Rightarrow> string list \<Rightarrow> envelope list
    \<Rightarrow> (scoring_error, candidate_result list) result" where
  "score_loop u p s l seen [] = Inr []"
| "score_loop u p s l seen (e # es) =
     (let cid = TrimSpace (cd_id (en_candidate e)) in
      if cid \<in> set seen then Inl (DuplicateCandidate cid)
      else (case score_loop u p s l (cid # seen) es of
              Inl err \<Rightarrow> Inl err
            | Inr rs \<Rightarrow> Inr (scoreCandidate u p s l e # rs)))"

definition Score ::
  "unicode \<Rightarrow> (string \<Rightarrow> string) \<Rightarrow> loaded_policy \<Rightarrow> request \<Rightarrow> (scoring_error, response) result" where
  "Score u sha lp r =
     (case validateRequest r (lp_policy lp) of
        Inl e \<Rightarrow> Inl e
      | Inr _ \<Rightarrow>
          (case score_loop u (lp_policy lp) (rq_subject r) (rq_lineage r) [] (rq_candidates r) of
             Inl e \<Rightarrow> Inl e
           | Inr results \<Rightarrow>
               Inr \<lparr>rs_schema = ''openwatchlist.candidate-scoring-response.v1'', rs_request = rq_id r,
                    rs_sha = digest_json sha (request_json r),
                    rs_field = \<lparr>sf_path = rq_field r, sf_original = rq_original r, sf_normalized = rq_normalized r\<rparr>,
                    rs_policy = PolicyReference lp,
                    rs_candidates = sort_by result_less results\<rparr>))"

fun batch_loop ::
  "unicode \<Rightarrow> (string \<Rightarrow> string) \<Rightarrow> loaded_policy \<Rightarrow> nat \<Rightarrow> string list \<Rightarrow> request list
    \<Rightarrow> (scoring_error, response list) result" where
  "batch_loop u sha lp i seen [] = Inr []"
| "batch_loop u sha lp i seen (r # rs) =
     (if rq_id r \<in> set seen then Inl (DuplicateRequest (rq_id r) i)
      else (case Score u sha lp r of
              Inl e \<Rightarrow> Inl (BatchItem i e)
            | Inr x \<Rightarrow> (case batch_loop u sha lp (Suc i) (rq_id r # seen) rs of
                          Inl e \<Rightarrow> Inl e | Inr xs \<Rightarrow> Inr (x # xs))))"

definition ScoreBatch ::
  "unicode \<Rightarrow> (string \<Rightarrow> string) \<Rightarrow> loaded_policy \<Rightarrow> batch_request \<Rightarrow> (scoring_error, batch_response) result" where
  "ScoreBatch u sha lp b =
     (if bq_schema b \<noteq> ''openwatchlist.candidate-scoring-batch-request.v1'' then Inl BatchSchema
      else if TrimSpace (bq_id b) = [] then Inl BatchId
      else if bq_items b = [] then Inl BatchEmpty
      else (case batch_loop u sha lp 0 [] (bq_items b) of
        Inl e \<Rightarrow> Inl e
      | Inr items \<Rightarrow> Inr \<lparr>bs_schema = ''openwatchlist.candidate-scoring-batch-response.v1'', bs_id = bq_id b,
            bs_sha = digest_json sha (batch_json b), bs_policy = PolicyReference lp, bs_items = items\<rparr>))"

section \<open>Comparators\<close>

interpretation results: comparator result_less
  by unfold_locales (auto simp: result_less_def split: if_splits)

interpretation pairs: comparator pair_less
  unfolding pair_less_def by (intro comparator_lex_less comparator_key)

interpretation matches: comparator match_less
  by unfold_locales (auto simp: match_less_def split: if_splits)

section \<open>Lemmas\<close>

lemma validatePolicy_ok:
  assumes "validatePolicy p = Inr ()"
  shows "0 \<le> sp_floor p" "sp_floor p < sp_ceiling p" "1 \<le> sp_max_evidence p" "sp_max_evidence p \<le> 64"
    and "sp_floor p \<le> t_weak (sp_thresholds p)" "t_weak (sp_thresholds p) \<le> t_review (sp_thresholds p)"
    and "t_review (sp_thresholds p) \<le> t_strong (sp_thresholds p)" "t_strong (sp_thresholds p) \<le> sp_ceiling p"
  using assms by (auto simp: validatePolicy_def Let_def split: if_splits)

lemma clamp_bounds:
  "sp_floor p < sp_ceiling p \<Longrightarrow> sp_floor p \<le> clamp_score p s \<and> clamp_score p s \<le> sp_ceiling p"
  by (auto simp: clamp_score_def Let_def)

lemma score_loop_Inr:
  "score_loop u p s l seen es = Inr rs \<longleftrightarrow>
     distinct (map (\<lambda>e. TrimSpace (cd_id (en_candidate e))) es)
     \<and> set seen \<inter> (\<lambda>e. TrimSpace (cd_id (en_candidate e))) ` set es = {}
     \<and> rs = map (scoreCandidate u p s l) es"
proof (induction es arbitrary: seen rs)
  case Nil
  then show ?case by auto
next
  case (Cons e es)
  show ?case
  proof (cases "score_loop u p s l (TrimSpace (cd_id (en_candidate e)) # seen) es")
    case (Inl err)
    then have "\<nexists>rs. score_loop u p s l (TrimSpace (cd_id (en_candidate e)) # seen) es = Inr rs"
      by simp
    then show ?thesis
      using Cons.IH [of "TrimSpace (cd_id (en_candidate e)) # seen" "map (scoreCandidate u p s l) es"]
      by (auto simp: Let_def Inl)
  next
    case (Inr rs')
    then show ?thesis
      using Cons.IH [of "TrimSpace (cd_id (en_candidate e)) # seen" rs'] by (auto simp: Let_def)
  qed
qed

lemma Score_Inr:
  "Score u sha lp r = Inr x \<Longrightarrow>
     validateRequest r (lp_policy lp) = Inr () \<and> distinct (map (\<lambda>e. TrimSpace (cd_id (en_candidate e))) (rq_candidates r))
     \<and> rs_candidates x
       = sort_by result_less (map (scoreCandidate u (lp_policy lp) (rq_subject r) (rq_lineage r)) (rq_candidates r))"
  by (auto simp: Score_def score_loop_Inr split: sum.splits)

lemma scoreCandidate_id [simp]: "cr_id (scoreCandidate u p s l e) = cd_id (en_candidate e)"
  by (simp add: scoreCandidate_def Let_def)

lemma scoreCandidate_score:
  "cr_score (scoreCandidate u p s l e)
    = clamp_score p (sum_points (ta_components (tally_candidate u p s (en_candidate e))))"
  "cr_band (scoreCandidate u p s l e) = strengthBand (cr_score (scoreCandidate u p s l e)) p"
  by (simp_all add: scoreCandidate_def Let_def)

end
