(* ===== verification/ScoringProps.thy ===== *)
theory ScoringProps imports ScoringEngine begin

text \<open>
  Properties of candidate scoring: scores within the policy's bounds and bands that agree with
  its thresholds, the additive formula, ranking independent of arrival order, bounded
  evidence, canonical reason codes, optimal and symmetric name comparison, and the overflow of
  unbounded weights.
\<close>

section \<open>Canonical text\<close>

lemma text_loop_class:
  "r \<in> set (text_loop u b rs) \<Longrightarrow> r = 32 \<or> r \<in> set rs \<and> (IsLetter u r \<or> IsDigit u r)"
  by (induction u b rs rule: text_loop.induct) (auto split: if_splits)

text \<open>Words of letters and digits separated by single spaces; \<open>b\<close> forbids a leading space.\<close>

fun spaced :: "unicode \<Rightarrow> bool \<Rightarrow> nat list \<Rightarrow> bool" where
  "spaced u b [] = True"
| "spaced u b (r # rs) =
     (if IsLetter u r \<or> IsDigit u r then spaced u False rs else r = 32 \<and> \<not> b \<and> spaced u True rs)"

lemma text_loop_spaced: "spaced u b (text_loop u b rs)"
  by (induction u b rs rule: text_loop.induct) (auto simp: IsLetter_def IsDigit_def go_defs)

lemma text_loop_id: "spaced u b rs \<Longrightarrow> text_loop u b rs = rs"
  by (induction u b rs rule: spaced.induct) (auto split: if_splits)

lemma spaced_prefix: "spaced u b (xs @ ys) \<Longrightarrow> spaced u b xs"
  by (induction u b xs rule: spaced.induct) (auto split: if_splits)

lemma spaced_class: "spaced u b rs \<Longrightarrow> r \<in> set rs \<Longrightarrow> r = 32 \<or> IsLetter u r \<or> IsDigit u r"
  by (induction u b rs rule: spaced.induct) (auto split: if_splits)

lemma spaced_hd: "spaced u True rs \<Longrightarrow> rs \<noteq> [] \<Longrightarrow> IsLetter u (hd rs) \<or> IsDigit u (hd rs)"
  by (cases rs) (auto split: if_splits)

text \<open>The runes of a normalised text.\<close>

definition text_runes :: "unicode \<Rightarrow> string \<Rightarrow> nat list" where
  "text_runes u v = drop_end IsSpace (text_loop u True (runes (ToUpper u (TrimSpace v))))"

lemma runes_ToUpper: "unicode_ok u \<Longrightarrow> runes (ToUpper u s) = map (rune_upper u) (runes s)"
  by (simp add: runes_def segs_ToUpper up_seg_def comp_def)

lemma drop_end_map: "drop_end P (map f xs) = map f (drop_end (\<lambda>x. P (f x)) xs)"
  by (simp add: drop_end_def rev_map dropWhile_map comp_def)

lemma text_runes_facts:
  assumes u: "unicode_ok u"
  shows "\<forall>r \<in> set (text_runes u v). scalar r \<and> rune_upper u r = r"
    and "spaced u True (text_runes u v)"
    and "text_runes u v = [] \<or> \<not> IsSpace (hd (text_runes u v)) \<and> \<not> IsSpace (last (text_runes u v))"
    and "normalizeText u v = encode (text_runes u v)"
proof -
  let ?l = "text_loop u True (runes (ToUpper u (TrimSpace v)))"
  have l: "scalar r \<and> rune_upper u r = r" if "r \<in> set ?l" for r
    using text_loop_class [OF that]
  proof
    assume "r = 32"
    then show ?thesis by (simp add: rune_upper_def is_lower_az_def scalar_def)
  next
    assume "r \<in> set (runes (ToUpper u (TrimSpace v))) \<and> (IsLetter u r \<or> IsDigit u r)"
    then obtain r0 where "r0 \<in> set (runes (TrimSpace v))" "r = rune_upper u r0"
      using u by (auto simp: runes_ToUpper)
    then show ?thesis
      using case_ok [OF u] runes_scalar by simp
  qed
  obtain n where n: "text_runes u v = take n ?l"
    using drop_end_prefix unfolding text_runes_def by blast
  show facts: "\<forall>r \<in> set (text_runes u v). scalar r \<and> rune_upper u r = r"
    using l unfolding n by (auto dest: in_set_takeD)
  have "spaced u True ?l"
    by (rule text_loop_spaced)
  then show sp: "spaced u True (text_runes u v)"
    unfolding n using spaced_prefix [of u True "take n ?l" "drop n ?l"] by simp
  show ends: "text_runes u v = [] \<or> \<not> IsSpace (hd (text_runes u v)) \<and> \<not> IsSpace (last (text_runes u v))"
  proof (cases "text_runes u v = []")
    case False
    then have "\<not> IsSpace (hd (text_runes u v))"
      using letter_digit_not_space [OF u] spaced_hd [OF sp] facts hd_in_set by blast
    moreover have "\<not> IsSpace (last (text_runes u v))"
      using drop_end_last [of IsSpace ?l] False by (simp add: text_runes_def)
    ultimately show ?thesis by simp
  qed simp
  have hd: "dropWhile IsSpace ?l = ?l"
    using spaced_hd [OF \<open>spaced u True ?l\<close>] letter_digit_not_space [OF u] l hd_in_set
    by (intro dropWhile_id) blast
  have "segs (encode ?l) = map (\<lambda>r. (r, encode_rune r)) ?l"
    using l by (intro segs_encode) auto
  then have "normalizeText u v = concat (map snd (map (\<lambda>r. (r, encode_rune r)) (text_runes u v)))"
    using hd by (simp add: normalizeText_def TrimSpace_def dropWhile_map drop_end_map comp_def seg_space_def
        text_runes_def)
  then show "normalizeText u v = encode (text_runes u v)"
    by (simp add: encode_def comp_def)
qed

lemma normalizeText_idem:
  assumes u: "unicode_ok u"
  shows "normalizeText u (normalizeText u v) = normalizeText u v"
proof -
  let ?t = "text_runes u v"
  note facts = text_runes_facts [OF u, of v]
  have trim: "TrimSpace (encode ?t) = encode ?t"
    using facts by (intro TrimSpace_encode_id) auto
  have "runes (encode ?t) = ?t"
    using facts by (intro runes_encode) auto
  moreover have "map (rune_upper u) ?t = ?t"
    using facts by (intro map_idI) auto
  ultimately have "text_loop u True (runes (ToUpper u (TrimSpace (encode ?t)))) = ?t"
    using facts text_loop_id [of u True ?t] u by (simp add: trim runes_ToUpper)
  then show ?thesis
    using trim facts(4) by (simp add: normalizeText_def [of u "encode ?t"])
qed

section \<open>Comparing names\<close>

fun shape_of_rank :: "nat \<Rightarrow> string" where
  "shape_of_rank r =
     (if r = 6 then ''exact'' else if r = 5 then ''concatenation_normalized'' else if r = 4 then ''token_set''
      else if r = 3 then ''particle_stripped'' else if r = 2 then ''prefix''
      else if r = 1 then ''containment'' else [])"

declare shape_of_rank.simps [simp del]

lemma name_shape_rank: "name_shape u a b = Some (r, s) \<Longrightarrow> s = shape_of_rank r \<and> 1 \<le> r \<and> r \<le> 6"
  by (auto simp: name_shape_def shape_of_rank.simps split: if_splits)

lemma name_shape_sym: "name_shape u a b = name_shape u b a"
  by (auto simp: name_shape_def equalSpacesStripped_def equalTokenSet_def equalParticleStrippedTokenSet_def)

lemma name_matches_iff:
  "(r, s, ns, nc) \<in> set (name_matches u subj cand) \<longleftrightarrow>
     ns \<noteq> [] \<and> nc \<noteq> [] \<and> ns \<in> normalizeText u ` set subj \<and> nc \<in> normalizeText u ` set cand
     \<and> name_shape u ns nc = Some (r, s)"
  by (auto simp: name_matches_def Let_def split: option.splits if_splits) force

lemma name_matches_set:
  "set subj = set subj' \<Longrightarrow> set cand = set cand' \<Longrightarrow> set (name_matches u subj cand) = set (name_matches u subj' cand')"
  by (intro set_eqI) (metis name_matches_iff prod_cases4)

lemma match_less_total:
  "a \<in> set (name_matches u s c) \<Longrightarrow> b \<in> set (name_matches u s c) \<Longrightarrow> a \<noteq> b \<Longrightarrow> match_less a b \<or> match_less b a"
  by (cases a rule: prod_cases4; cases b rule: prod_cases4)
    (auto simp: name_matches_iff match_less_def match_rank_def match_subject_def match_candidate_def
      dest: name_shape_rank)

lemma bestNameMatch_cong:
  "set s = set s' \<Longrightarrow> set c = set c' \<Longrightarrow> bestNameMatch u s c = bestNameMatch u s' c'"
  unfolding bestNameMatch_def
  by (rule matches.sort_by_hd_cong [OF name_matches_set match_less_total])

text \<open>The best rank over all pairs of names.\<close>

definition best_rank :: "unicode \<Rightarrow> string list \<Rightarrow> string list \<Rightarrow> nat" where
  "best_rank u s c = Max (insert 0 (match_rank ` set (name_matches u s c)))"

lemma best_rank_sym: "best_rank u s c = best_rank u c s"
proof -
  have "match_rank ` set (name_matches u s c) \<subseteq> match_rank ` set (name_matches u c s)" for s c
  proof
    fix r
    assume "r \<in> match_rank ` set (name_matches u s c)"
    then obtain sh a b where "(r, sh, a, b) \<in> set (name_matches u s c)"
      by (auto simp: match_rank_def)
    then have "(r, sh, b, a) \<in> set (name_matches u c s)"
      by (simp add: name_matches_iff name_shape_sym [of u b a])
    then show "r \<in> match_rank ` set (name_matches u c s)"
      by (force simp: match_rank_def)
  qed
  then show ?thesis
    unfolding best_rank_def by (metis subset_antisym)
qed

lemma bestNameMatch_rank: "fst (bestNameMatch u s c) = shape_of_rank (best_rank u s c)"
proof (cases "sort_by match_less (name_matches u s c)")
  case Nil
  then show ?thesis
    by (simp add: bestNameMatch_def best_rank_def shape_of_rank.simps)
next
  case (Cons m ms)
  have m: "m \<in> set (name_matches u s c)"
    using Cons set_sort_by [of match_less "name_matches u s c"] by auto
  have "match_rank x \<le> match_rank m" if "x \<in> set (name_matches u s c)" for x
    using matches.sort_by_hd_least [OF Cons that] by (auto simp: match_less_def split: if_splits)
  then have "best_rank u s c = match_rank m"
    using m unfolding best_rank_def by (intro Max_eqI) auto
  moreover have "match_shape m = shape_of_rank (match_rank m)"
    using m name_shape_rank by (cases m rule: prod_cases4) (auto simp: name_matches_iff match_shape_def match_rank_def)
  ultimately show ?thesis
    by (simp add: bestNameMatch_def Cons)
qed

section \<open>Independence of attribute order\<close>

lemma uniqueSorted_cong: "set xs = set ys \<Longrightarrow> uniqueSorted f xs = uniqueSorted f ys"
  unfolding uniqueSorted_def by (rule sorted_set_cong) simp

lemma identifierMatch_cong:
  assumes "set s = set s'" and "set c = set c'"
  shows "identifierMatch u s c = identifierMatch u s' c'"
  unfolding identifierMatch_def Let_def
  by (rule pairs.sort_by_hd_cong) (use assms in \<open>auto simp: pair_less_def lex_less_def prod_eq_iff\<close>)

text \<open>Two subjects, or candidates, that hold the same attributes, listed in any order and any number of times.\<close>

definition same_subject :: "subject \<Rightarrow> subject \<Rightarrow> bool" where
  "same_subject a b \<longleftrightarrow> set (sj_names a) = set (sj_names b) \<and> set (sj_identifiers a) = set (sj_identifiers b)
     \<and> set (sj_countries a) = set (sj_countries b) \<and> set (sj_dobs a) = set (sj_dobs b) \<and> sj_entity a = sj_entity b"

definition same_candidate :: "candidate \<Rightarrow> candidate \<Rightarrow> bool" where
  "same_candidate a b \<longleftrightarrow> cd_id a = cd_id b \<and> set (cd_names a) = set (cd_names b)
     \<and> set (cd_identifiers a) = set (cd_identifiers b) \<and> set (cd_countries a) = set (cd_countries b)
     \<and> set (cd_dobs a) = set (cd_dobs b) \<and> cd_entity a = cd_entity b"

definition same_envelope :: "envelope \<Rightarrow> envelope \<Rightarrow> bool" where
  "same_envelope a b \<longleftrightarrow> same_candidate (en_candidate a) (en_candidate b)
     \<and> set (rt_routes (en_retrieval a)) = set (rt_routes (en_retrieval b))
     \<and> set (rt_reasons (en_retrieval a)) = set (rt_reasons (en_retrieval b))"

lemma tally_cong:
  assumes "same_subject s s'" and "same_candidate c c'"
  shows "tally_candidate u p s c = tally_candidate u p s' c'"
proof -
  have "dateMatch (sj_dobs s) (cd_dobs c) = dateMatch (sj_dobs s') (cd_dobs c')"
    unfolding dateMatch_def using assms
    by (simp add: same_subject_def same_candidate_def uniqueSorted_cong [of "sj_dobs s" "sj_dobs s'"]
        uniqueSorted_cong [of "cd_dobs c" "cd_dobs c'"])
  moreover have "setMatch f (sj_countries s) (cd_countries c) = setMatch f (sj_countries s') (cd_countries c')" for f
    unfolding setMatch_def using assms
    by (simp add: same_subject_def same_candidate_def uniqueSorted_cong [of "sj_countries s" "sj_countries s'"]
        uniqueSorted_cong [of "cd_countries c" "cd_countries c'"])
  moreover have "identifierMatch u (sj_identifiers s) (cd_identifiers c)
      = identifierMatch u (sj_identifiers s') (cd_identifiers c')"
    using assms by (intro identifierMatch_cong) (auto simp: same_subject_def same_candidate_def)
  moreover have "bestNameMatch u (sj_names s) (cd_names c) = bestNameMatch u (sj_names s') (cd_names c')"
    using assms by (intro bestNameMatch_cong) (auto simp: same_subject_def same_candidate_def)
  moreover have "sj_entity s = sj_entity s'" "cd_entity c = cd_entity c'"
    using assms by (auto simp: same_subject_def same_candidate_def)
  ultimately show ?thesis
    by (simp add: tally_candidate_def)
qed

section \<open>The additive formula\<close>

text \<open>What each comparison contributes.\<close>

definition identifier_points :: "weights \<Rightarrow> bool \<Rightarrow> int" where
  "identifier_points w exact = (if exact then w_identifier w else 0)"

definition name_points :: "weights \<Rightarrow> string \<Rightarrow> int" where
  "name_points w shape =
     (if shape = ''exact'' then w_name_exact w else if shape = ''concatenation_normalized'' then w_name_concat w
      else if shape = ''token_set'' then w_name_token_set w else if shape = ''particle_stripped'' then w_name_particle w
      else if shape = ''prefix'' then w_name_prefix w else if shape = ''containment'' then w_name_containment w
      else 0)"

definition dob_points :: "weights \<Rightarrow> string \<Rightarrow> int" where
  "dob_points w outcome =
     (if outcome = ''exact'' then w_dob_exact w else if outcome = ''year'' then w_dob_year w
      else if outcome = ''conflict'' then w_dob_conflict w else 0)"

definition country_points :: "weights \<Rightarrow> string \<Rightarrow> int" where
  "country_points w outcome =
     (if outcome = ''exact'' then w_country_exact w else if outcome = ''conflict'' then w_country_conflict w else 0)"

definition entity_points :: "weights \<Rightarrow> string \<Rightarrow> string \<Rightarrow> int" where
  "entity_points w a b =
     (if a = [] \<or> b = [] then 0 else if a = b then w_entity_exact w else w_entity_conflict w)"

definition total_points :: "unicode \<Rightarrow> scoring_policy \<Rightarrow> subject \<Rightarrow> candidate \<Rightarrow> int" where
  "total_points u p s c =
     (let w = sp_weights p in
      identifier_points w (fst (identifierMatch u (sj_identifiers s) (cd_identifiers c)))
    + name_points w (fst (bestNameMatch u (sj_names s) (cd_names c)))
    + dob_points w (fst (dateMatch (sj_dobs s) (cd_dobs c)))
    + country_points w (fst (setMatch (normalizeCountry u) (sj_countries s) (cd_countries c)))
    + entity_points w (normalizeEntityType u (sj_entity s)) (normalizeEntityType u (cd_entity c)))"

text \<open>One call of \<open>add_item\<close> or none: what it does to the components, the evidence and the reasons.\<close>

definition adds :: "scoring_policy \<Rightarrow> int \<Rightarrow> tally \<Rightarrow> tally \<Rightarrow> bool" where
  "adds p points t t' \<longleftrightarrow>
     (t' = t \<and> points = 0)
     \<or> (\<exists>compo reason kind outcome sv cv. t' = add_item p compo points reason kind outcome sv cv t)"

lemma adds_none [simp]: "adds p 0 t t"
  by (simp add: adds_def)

lemma adds_one [simp]: "adds p points t (add_item p compo points reason kind outcome sv cv t)"
  unfolding adds_def by blast

lemma adds_steps:
  "adds p (identifier_points (sp_weights p) (fst m)) t (add_identifier p m t)"
  "adds p (name_points (sp_weights p) (fst n)) t (add_name p n t)"
  "adds p (dob_points (sp_weights p) (fst n)) t (add_dob p n t)"
  "adds p (country_points (sp_weights p) (fst n)) t (add_country p n t)"
  "adds p (entity_points (sp_weights p) a b) t (add_entity p a b t)"
  by (cases m, simp add: add_identifier_def identifier_points_def)
    (cases n, simp add: add_name_def name_points_def add_dob_def dob_points_def add_country_def
      country_points_def add_entity_def entity_points_def Let_def)+

lemma adds_components:
  assumes "adds p points t t'"
  shows "(\<Sum>c \<leftarrow> ta_components t'. sc_points c) = (\<Sum>c \<leftarrow> ta_components t. sc_points c) + points"
  using assms by (auto simp: adds_def add_item_def)

lemma adds_evidence:
  "adds p points t t' \<Longrightarrow> 0 \<le> sp_max_evidence p \<Longrightarrow> int (length (ta_evidence t)) \<le> sp_max_evidence p
    \<Longrightarrow> int (length (ta_evidence t')) \<le> sp_max_evidence p"
  by (auto simp: adds_def add_item_def)

text \<open>Wrapping after each addition is wrapping once.\<close>

lemma wrap64_add: "wrap64 (wrap64 x + y) = wrap64 (x + y)"
  by (simp add: wrap64_def mod_simps algebra_simps)

lemma sum_points_wraps: "sum_points cs = wrap64 (\<Sum>c \<leftarrow> cs. sc_points c)"
proof -
  have "foldl (\<lambda>s c. wrap64 (s + sc_points c)) (wrap64 s) cs = wrap64 (s + (\<Sum>c \<leftarrow> cs. sc_points c))" for s
    by (induction cs arbitrary: s) (simp_all add: wrap64_add add.assoc)
  from this [of 0] show ?thesis
    by (simp add: sum_points_def wrap64_id in_int64_def)
qed

lemma tally_points: "sum_points (ta_components (tally_candidate u p s c)) = wrap64 (total_points u p s c)"
proof -
  let ?im = "identifierMatch u (sj_identifiers s) (cd_identifiers c)" and ?nm = "bestNameMatch u (sj_names s) (cd_names c)"
  let ?dm = "dateMatch (sj_dobs s) (cd_dobs c)"
  let ?cm = "setMatch (normalizeCountry u) (sj_countries s) (cd_countries c)"
  let ?e1 = "normalizeEntityType u (sj_entity s)" and ?e2 = "normalizeEntityType u (cd_entity c)"
  define t0 where "t0 = \<lparr>ta_components = [], ta_evidence = [], ta_reasons = []\<rparr>"
  define t1 where "t1 = add_identifier p ?im t0"
  define t2 where "t2 = add_name p ?nm t1"
  define t3 where "t3 = add_dob p ?dm t2"
  define t4 where "t4 = add_country p ?cm t3"
  define t5 where "t5 = add_entity p ?e1 ?e2 t4"
  note steps = adds_steps(1) [of p ?im t0, folded t1_def] adds_steps(2) [of p ?nm t1, folded t2_def]
    adds_steps(3) [of p ?dm t2, folded t3_def] adds_steps(4) [of p ?cm t3, folded t4_def]
    adds_steps(5) [of p ?e1 ?e2 t4, folded t5_def]
  have t0: "ta_components t0 = []"
    by (simp add: t0_def)
  have "(\<Sum>c \<leftarrow> ta_components t5. sc_points c) = total_points u p s c"
    using steps [THEN adds_components(1)] by (simp add: total_points_def Let_def t0)
  then show ?thesis
    by (simp add: sum_points_wraps tally_candidate_def t5_def t4_def t3_def t2_def t1_def t0_def)
qed

lemma tally_evidence:
  assumes "0 \<le> sp_max_evidence p"
  shows "int (length (ta_evidence (tally_candidate u p s c))) \<le> sp_max_evidence p"
  unfolding tally_candidate_def
  by (intro adds_evidence [OF adds_steps(5)] adds_evidence [OF adds_steps(4)] adds_evidence [OF adds_steps(3)]
      adds_evidence [OF adds_steps(2)] adds_evidence [OF adds_steps(1)]) (use assms in simp_all)


section \<open>Canonical reason codes\<close>

definition code_ch :: "char \<Rightarrow> bool" where
  "code_ch c \<longleftrightarrow> is_lower_az (byte_of c) \<or> is_09 (byte_of c) \<or> c = CHR ''_''"

text \<open>Lower-case letters, digits and single inner underscores; \<open>b\<close> forbids a leading one.\<close>

fun code_words :: "bool \<Rightarrow> string \<Rightarrow> bool" where
  "code_words b [] = True"
| "code_words b (c # cs) =
     (code_ch c \<and> (if c = CHR ''_'' then \<not> b \<and> code_words True cs else code_words False cs))"

definition canonical_code :: "string \<Rightarrow> bool" where
  "canonical_code s \<longleftrightarrow> code_words True s \<and> (s = [] \<or> last s \<noteq> CHR ''_'')"

lemma code_words_append:
  "code_words b (xs @ ys) \<longleftrightarrow> code_words b xs \<and> code_words (if xs = [] then b else last xs = CHR ''_'') ys"
  by (induction xs arbitrary: b) auto

lemma underscore: "byte_of (CHR ''_'') = 95"
  by (simp add: byte_of_def)

lemma encode_code: "is_lower_az r \<or> is_09 r \<Longrightarrow> encode_rune r = [byte r] \<and> code_ch (byte r) \<and> byte r \<noteq> CHR ''_''"
proof -
  assume r: "is_lower_az r \<or> is_09 r"
  then have small: "r < 128" "r \<noteq> 95"
    by (auto simp: go_defs)
  moreover have "byte r \<noteq> CHR ''_''"
  proof -
    have "byte_of (byte r) = r"
      using small by simp
    then show ?thesis
      using small(2) underscore by metis
  qed
  ultimately show ?thesis
    using r by (simp add: encode_rune_ascii code_ch_def)
qed

lemma reason_loop_words:
  "code_words True out \<Longrightarrow> (last_us \<longleftrightarrow> out \<noteq> [] \<and> last out = CHR ''_'') \<Longrightarrow> code_words True (reason_loop out last_us rs)"
proof (induction out last_us rs rule: reason_loop.induct)
  case (2 out last_us r rs)
  then show ?case
    using encode_code [of r] by (auto simp: code_words_append code_ch_def)
qed simp

lemma reason_loop_id:
  "code_words (if out = [] then True else last_us) cs \<Longrightarrow> reason_loop out last_us (map byte_of cs) = out @ cs"
proof (induction cs arbitrary: out last_us)
  case (Cons c cs)
  show ?case
  proof (cases "c = CHR ''_''")
    case True
    then show ?thesis
      using Cons by (auto simp: underscore go_defs split: if_splits)
  next
    case False
    then have "encode_rune (byte_of c) = [c]" "is_lower_az (byte_of c) \<or> is_09 (byte_of c)"
      using Cons.prems encode_code [of "byte_of c"] by (auto simp: code_ch_def)
    then show ?thesis
      using Cons False by auto
  qed
qed simp

lemma code_words_hd: "code_words True s \<Longrightarrow> dropWhile (\<lambda>c. c = CHR ''_'') s = s"
  by (cases s) auto

lemma normalizeReasonCode_canonical: "canonical_code (normalizeReasonCode u v)"
proof -
  let ?l = "reason_loop [] False (runes (ToLower u (TrimSpace v)))"
  have l: "code_words True ?l"
    by (rule reason_loop_words) auto
  obtain n where n: "drop_end (\<lambda>c. c = CHR ''_'') ?l = take n ?l"
    using drop_end_prefix by blast
  have "code_words True (take n ?l)"
    using l code_words_append [of True "take n ?l" "drop n ?l"] by simp
  then show ?thesis
    using drop_end_last [of "\<lambda>c. c = CHR ''_''" ?l]
    by (auto simp: normalizeReasonCode_def trim_byte_def code_words_hd [OF l] n canonical_code_def)
qed

lemma code_words_ch: "code_words b s \<Longrightarrow> c \<in> set s \<Longrightarrow> code_ch c"
  by (induction b s rule: code_words.induct) (auto split: if_splits)

lemma code_ch_facts: "code_ch c \<Longrightarrow> byte_of c < 128 \<and> \<not> is_upper_az (byte_of c) \<and> \<not> IsSpace (byte_of c)"
  using underscore by (auto simp: code_ch_def go_defs IsSpace_def)

lemma normalizeReasonCode_id:
  assumes "canonical_code s"
  shows "normalizeReasonCode u s = s"
proof -
  have ch: "byte_of c < 128 \<and> \<not> is_upper_az (byte_of c) \<and> \<not> IsSpace (byte_of c)" if "c \<in> set s" for c
    using assms code_words_ch code_ch_facts that by (auto simp: canonical_code_def)
  have sg: "segs s = map (\<lambda>c. (byte_of c, [c])) s"
    using ch by (intro segs_ascii) (auto simp: ascii_def)
  have trim: "TrimSpace s = s"
    using ch by (intro TrimSpace_id) (cases "s = []", auto simp: sg hd_map last_map seg_space_def)
  have lower: "map (rune_lower u) (map byte_of s) = map byte_of s"
    using ch by (auto simp: rune_lower_def)
  have "runes s = map byte_of s"
    by (simp add: runes_def sg)
  then have low: "ToLower u s = encode (map byte_of s)"
    by (simp only: ToLower_def lower)
  have "runes (encode (map byte_of s)) = map byte_of s"
    using ch by (intro runes_encode) (auto intro!: scalar_small dest!: ch)
  then have "reason_loop [] False (runes (ToLower u (TrimSpace s))) = s"
    using assms reason_loop_id [of "[]" False s] by (simp add: trim low canonical_code_def)
  then show ?thesis
    using assms by (simp add: normalizeReasonCode_def trim_byte_def canonical_code_def code_words_hd drop_end_id)
qed

lemma canonical_retrieval: "canonical_code s \<Longrightarrow> s \<noteq> [] \<Longrightarrow> canonical_code (''retrieval_'' @ s)"
  by (simp add: canonical_code_def code_ch_def byte_of_def go_defs)


section \<open>A concrete policy\<close>

definition demo_policy :: scoring_policy where
  "demo_policy = \<lparr>sp_schema = ''openwatchlist.candidate-scoring-policy.v1'', sp_id = ''p'', sp_version = ''1'',
     sp_profile = ''n'', sp_max_evidence = 2, sp_floor = 0, sp_ceiling = 1000,
     sp_weights = \<lparr>w_identifier = 700, w_name_exact = 500, w_name_concat = 450, w_name_token_set = 400,
       w_name_particle = 350, w_name_prefix = 200, w_name_containment = 100, w_dob_exact = 200, w_dob_year = 80,
       w_country_exact = 50, w_entity_exact = 20, w_dob_conflict = - 300, w_country_conflict = - 50,
       w_entity_conflict = - 150\<rparr>,
     sp_thresholds = \<lparr>t_strong = 800, t_review = 500, t_weak = 200\<rparr>\<rparr>"

definition demo_lineage :: lineage where
  "demo_lineage = \<lparr>ln_provider = ''o'', ln_catalog = ''c'', ln_component = ''k'', ln_version = ''v'',
     ln_activation = ''a'', ln_profile = ''n''\<rparr>"

definition demo_envelope :: "string \<Rightarrow> string list \<Rightarrow> string list \<Rightarrow> envelope" where
  "demo_envelope cid names dobs = \<lparr>en_candidate = \<lparr>cd_id = cid, cd_names = names, cd_identifiers = [],
     cd_countries = [], cd_dobs = dobs, cd_entity = []\<rparr>, en_retrieval = \<lparr>rt_routes = [], rt_reasons = []\<rparr>\<rparr>"

definition demo_subject :: subject where
  "demo_subject = \<lparr>sj_names = [''ann lee''], sj_identifiers = [], sj_countries = [], sj_dobs = [''1970-01-02''],
     sj_entity = []\<rparr>"

definition demo_request :: "envelope list \<Rightarrow> request" where
  "demo_request es = \<lparr>rq_schema = ''openwatchlist.candidate-scoring-request.v1'', rq_id = ''r'', rq_field = [],
     rq_original = [], rq_normalized = [], rq_subject = demo_subject, rq_lineage = demo_lineage,
     rq_candidates = es\<rparr>"

definition demo_loaded :: loaded_policy where
  "demo_loaded = \<lparr>lp_policy = demo_policy, lp_sha = replicate 64 (CHR ''0'')\<rparr>"

definition demo_sha :: "string \<Rightarrow> string" where
  "demo_sha s = replicate 64 (CHR ''0'')"

lemmas str_eval = TrimSpace_def drop_end_def seg_space_def IsSpace_def decode_rune.simps byte_of_def byte_def
  char_of_def bit_0 runes_def encode_def encode_rune_def scalar_def ToUpper_def ToLower_def rune_upper_def
  rune_lower_def is_lower_az_def is_upper_az_def is_09_def IsLetter_def IsDigit_def Fields_def

lemma demo_valid: "validatePolicy demo_policy = Inr ()"
  by (simp add: validatePolicy_def demo_policy_def Let_def str_eval)

lemma demo_engine: "NewEngine demo_sha demo_loaded = Inr demo_loaded"
  by (simp add: NewEngine_def demo_loaded_def demo_valid digest_json_def demo_sha_def)

definition demo_e1 :: envelope where "demo_e1 = demo_envelope ''x1'' [''Ann Lee''] [''1970-05-05'']"
definition demo_e2 :: envelope where "demo_e2 = demo_envelope ''x2'' [''Lee Ann''] []"

lemma demo_request_ok:
  "es \<in> {[demo_e1, demo_e2], [demo_e2, demo_e1]} \<Longrightarrow> validateRequest (demo_request es) demo_policy = Inr ()"
  by (auto simp: validateRequest_def demo_request_def demo_e1_def demo_e2_def demo_envelope_def demo_lineage_def
      demo_policy_def Let_def str_eval)

lemma demo_distinct: "TrimSpace (cd_id (en_candidate demo_e1)) \<noteq> TrimSpace (cd_id (en_candidate demo_e2))"
  by (simp add: demo_e1_def demo_e2_def demo_envelope_def str_eval)

lemma demo_score:
  "es \<in> {[demo_e1, demo_e2], [demo_e2, demo_e1]} \<Longrightarrow> \<exists>x. Score u demo_sha demo_loaded (demo_request es) = Inr x"
  using demo_request_ok [of es] demo_distinct demo_distinct [symmetric]
  by (auto simp: Score_def demo_loaded_def demo_request_def Let_def)

lemma demo_normal: "normalizeText ascii_tables ''ann lee'' = ''ANN LEE''" "normalizeText ascii_tables ''Ann Lee'' = ''ANN LEE''"
  by (simp_all add: normalizeText_def str_eval)

lemma demo_exact: "bestNameMatch ascii_tables [''ann lee''] [''Ann Lee''] = (''exact'', ''ANN LEE'', ''ANN LEE'')"
  by (simp add: bestNameMatch_def name_matches_def demo_normal name_shape_def match_shape_def match_subject_def
      match_candidate_def Let_def)

section \<open>Reasons of a result\<close>

definition name_reason :: "string \<Rightarrow> string list" where
  "name_reason shape =
     (if shape = ''exact'' then [''name_exact'']
      else if shape = ''concatenation_normalized'' then [''name_concatenation_normalized'']
      else if shape = ''token_set'' then [''name_token_set_exact'']
      else if shape = ''particle_stripped'' then [''name_particle_stripped'']
      else if shape = ''prefix'' then [''name_prefix'']
      else if shape = ''containment'' then [''name_containment''] else [])"

definition dob_reason :: "string \<Rightarrow> string list" where
  "dob_reason outcome =
     (if outcome = ''exact'' then [''date_of_birth_exact''] else if outcome = ''year'' then [''date_of_birth_year_exact'']
      else if outcome = ''conflict'' then [''date_of_birth_conflict''] else [])"

definition country_reason :: "string \<Rightarrow> string list" where
  "country_reason outcome =
     (if outcome = ''exact'' then [''country_exact''] else if outcome = ''conflict'' then [''country_conflict''] else [])"

definition entity_reason :: "string \<Rightarrow> string \<Rightarrow> string list" where
  "entity_reason a b = (if a = [] \<or> b = [] then [] else if a = b then [''entity_type_exact''] else [''entity_type_conflict''])"

lemma reasons_steps:
  "ta_reasons (add_identifier p m t) = ta_reasons t @ (if fst m then [''typed_identifier_exact''] else [])"
  "ta_reasons (add_name p n t) = ta_reasons t @ name_reason (fst n)"
  "ta_reasons (add_dob p n t) = ta_reasons t @ dob_reason (fst n)"
  "ta_reasons (add_country p n t) = ta_reasons t @ country_reason (fst n)"
  "ta_reasons (add_entity p a b t) = ta_reasons t @ entity_reason a b"
  by (cases m, simp add: add_identifier_def add_item_def)
    (cases n, simp add: add_name_def name_reason_def add_dob_def dob_reason_def add_country_def
      country_reason_def add_entity_def entity_reason_def add_item_def Let_def)+

definition match_reasons :: "unicode \<Rightarrow> subject \<Rightarrow> candidate \<Rightarrow> string list" where
  "match_reasons u s c =
     (if fst (identifierMatch u (sj_identifiers s) (cd_identifiers c)) then [''typed_identifier_exact''] else [])
     @ name_reason (fst (bestNameMatch u (sj_names s) (cd_names c))) @ dob_reason (fst (dateMatch (sj_dobs s) (cd_dobs c)))
     @ country_reason (fst (setMatch (normalizeCountry u) (sj_countries s) (cd_countries c)))
     @ entity_reason (normalizeEntityType u (sj_entity s)) (normalizeEntityType u (cd_entity c))"

lemma tally_reasons: "ta_reasons (tally_candidate u p s c) = match_reasons u s c"
  by (simp add: tally_candidate_def reasons_steps match_reasons_def)

lemma code_chars:
  "code_words True s \<Longrightarrow> s \<noteq> [] \<Longrightarrow> last s \<noteq> CHR ''_'' \<Longrightarrow> canonical_code s \<and> s \<noteq> []"
  by (simp add: canonical_code_def)

lemma fixed_reasons:
  "canonical_code ''typed_identifier_exact''"
  "r \<in> set (name_reason n) \<Longrightarrow> canonical_code r \<and> r \<noteq> []"
  "r \<in> set (dob_reason n) \<Longrightarrow> canonical_code r \<and> r \<noteq> []"
  "r \<in> set (country_reason n) \<Longrightarrow> canonical_code r \<and> r \<noteq> []"
  "r \<in> set (entity_reason a b) \<Longrightarrow> canonical_code r \<and> r \<noteq> []"
  by (auto simp: name_reason_def dob_reason_def country_reason_def entity_reason_def canonical_code_def
      code_ch_def byte_of_def go_defs split: if_splits)

lemma match_reasons_canonical: "r \<in> set (match_reasons u s c) \<Longrightarrow> canonical_code r \<and> r \<noteq> []"
proof -
  assume "r \<in> set (match_reasons u s c)"
  then consider "r = ''typed_identifier_exact''" | n where "r \<in> set (name_reason n)" | n where "r \<in> set (dob_reason n)"
    | n where "r \<in> set (country_reason n)" | a b where "r \<in> set (entity_reason a b)"
    unfolding match_reasons_def by (simp split: if_splits) blast+
  then show ?thesis
    using fixed_reasons(1) by cases (simp_all add: fixed_reasons(2-))
qed

lemma uniqueSorted_canonical:
  "(\<forall>r \<in> set rs. canonical_code r \<and> r \<noteq> []) \<Longrightarrow> uniqueSorted (normalizeReasonCode u) rs = sorted_set rs"
  unfolding uniqueSorted_def by (intro sorted_set_cong) (force simp: normalizeReasonCode_id)

lemma retrieved_canonical:
  "r \<in> set (uniqueSorted (normalizeReasonCode u) xs) \<Longrightarrow> canonical_code r \<and> r \<noteq> []"
  by (auto simp: uniqueSorted_def normalizeReasonCode_canonical)

lemma result_reasons:
  "cr_reasons (scoreCandidate u p s l e) = sorted_set (match_reasons u s (en_candidate e)
     @ map (\<lambda>r. ''retrieval_'' @ r) (uniqueSorted (normalizeReasonCode u) (rt_reasons (en_retrieval e))))"
proof -
  let ?ret = "uniqueSorted (normalizeReasonCode u) (rt_reasons (en_retrieval e))"
  let ?all = "match_reasons u s (en_candidate e) @ map (\<lambda>r. ''retrieval_'' @ r) ?ret"
  have "canonical_code r \<and> r \<noteq> []" if "r \<in> set ?all" for r
  proof -
    from that consider "r \<in> set (match_reasons u s (en_candidate e))" | q where "q \<in> set ?ret" "r = ''retrieval_'' @ q"
      by (simp only: set_append set_map Un_iff image_iff) blast
    then show ?thesis
      by cases (use match_reasons_canonical canonical_retrieval retrieved_canonical in blast,
        use canonical_retrieval retrieved_canonical in fastforce)
  qed
  then have "uniqueSorted (normalizeReasonCode u) ?all = sorted_set ?all"
    by (intro uniqueSorted_canonical) blast
  moreover have "cr_reasons (scoreCandidate u p s l e) = uniqueSorted (normalizeReasonCode u) ?all"
    by (simp only: scoreCandidate_def Let_def tally_reasons candidate_result.simps)
  ultimately show ?thesis
    by (simp only:)
qed

section \<open>Properties\<close>

text \<open>
  C36. Scores respect the policy: an engine that was constructed returns, for every candidate of
  every accepted request, a score between the floor and the ceiling and the one of the four strength
  bands that the thresholds assign to it.
\<close>

theorem score_within_policy:
  assumes "NewEngine sha lp0 = Inr lp" and "Score u sha lp r = Inr x" and "c \<in> set (rs_candidates x)"
  shows "sp_floor (lp_policy lp) \<le> cr_score c \<and> cr_score c \<le> sp_ceiling (lp_policy lp)
    \<and> (cr_band c = ''strong_candidate'' \<longleftrightarrow> t_strong (sp_thresholds (lp_policy lp)) \<le> cr_score c)
    \<and> (cr_band c = ''no_candidate_support'' \<longleftrightarrow> cr_score c < t_weak (sp_thresholds (lp_policy lp)))
    \<and> (cr_band c = ''review_candidate'' \<longleftrightarrow> t_review (sp_thresholds (lp_policy lp)) \<le> cr_score c
         \<and> cr_score c < t_strong (sp_thresholds (lp_policy lp)))
    \<and> (cr_band c = ''weak_candidate'' \<longleftrightarrow> t_weak (sp_thresholds (lp_policy lp)) \<le> cr_score c
         \<and> cr_score c < t_review (sp_thresholds (lp_policy lp)))"
proof -
  have "validatePolicy (lp_policy lp) = Inr ()"
    using assms(1) by (auto simp: NewEngine_def split: sum.splits if_splits)
  note ok = validatePolicy_ok [OF this]
  obtain e where c: "c = scoreCandidate u (lp_policy lp) (rq_subject r) (rq_lineage r) e"
    using assms(3) Score_Inr [OF assms(2)] by auto
  have "sp_floor (lp_policy lp) \<le> cr_score c \<and> cr_score c \<le> sp_ceiling (lp_policy lp)"
    unfolding c scoreCandidate_score using ok(2) by (rule clamp_bounds)
  moreover have "cr_band c = strengthBand (cr_score c) (lp_policy lp)"
    unfolding c by (rule scoreCandidate_score)
  ultimately show ?thesis
    using ok by (auto simp: strengthBand_def)
qed

theorem score_within_policy_witness:
  "\<exists>x c. Score ascii_tables demo_sha demo_loaded (demo_request [demo_e1, demo_e2]) = Inr x
     \<and> c \<in> set (rs_candidates x) \<and> 0 \<le> cr_score c \<and> cr_score c \<le> 1000"
proof -
  obtain x where x: "Score ascii_tables demo_sha demo_loaded (demo_request [demo_e1, demo_e2]) = Inr x"
    using demo_score by blast
  have "rs_candidates x \<noteq> []"
    using Score_Inr [OF x] by (simp add: demo_request_def)
  then obtain c where c: "c \<in> set (rs_candidates x)"
    by (cases "rs_candidates x") auto
  show ?thesis
    using score_within_policy [OF demo_engine x c] x c by (auto simp: demo_loaded_def demo_policy_def)
qed

text \<open>
  C35. The score is additive: whatever the weights, a candidate's score is the sum of one identifier, one
  name-shape, one date, one country and one entity-type contribution, each counted once, taken as a 64-bit
  integer and then clamped to floor and ceiling; when the sum fits in 64 bits, its clamp.
\<close>

theorem score_formula:
  "cr_score (scoreCandidate u p s l e) = min (sp_ceiling p) (max (sp_floor p) (wrap64 (total_points u p s (en_candidate e))))
    \<and> (in_int64 (total_points u p s (en_candidate e)) \<longrightarrow>
      cr_score (scoreCandidate u p s l e) = min (sp_ceiling p) (max (sp_floor p) (total_points u p s (en_candidate e))))"
  unfolding scoreCandidate_score tally_points
  by (simp add: clamp_score_def Let_def max_def min_def wrap64_id)

theorem score_formula_witness:
  "cr_score (scoreCandidate ascii_tables demo_policy demo_subject demo_lineage demo_e1) = 580"
proof -
  have d: "dateMatch [''1970-01-02''] [''1970-05-05''] = (''year'', ''1970-01-02'', ''1970-05-05'')"
    by (simp add: dateMatch_def uniqueSorted_def sorted_set_def normalizeDate_def Let_def str_eval same_year_def)
  have "total_points ascii_tables demo_policy demo_subject (en_candidate demo_e1) = 580"
    by (simp add: total_points_def demo_subject_def demo_e1_def demo_envelope_def demo_exact d Let_def
        identifierMatch_def identifier_points_def name_points_def dob_points_def country_points_def entity_points_def
        setMatch_def uniqueSorted_def normalizeEntityType_def normalizeText_def demo_policy_def str_eval)
  then show ?thesis
    using score_formula [of ascii_tables demo_policy demo_subject demo_lineage demo_e1]
    by (simp add: demo_policy_def in_int64_def)
qed

text \<open>
  Ranking does not depend on arrival: two accepted requests that differ only in the order of
  their candidates get the same ranked results, with no result above a better one.
\<close>

theorem ranking_order_independent:
  assumes x: "Score u sha lp r = Inr x" and y: "Score u sha lp (r\<lparr>rq_candidates := es\<rparr>) = Inr y"
    and perm: "mset es = mset (rq_candidates r)"
  shows "rs_candidates y = rs_candidates x \<and> sorted_wrt (\<lambda>a b. \<not> result_less b a) (rs_candidates x)"
proof -
  let ?f = "scoreCandidate u (lp_policy lp) (rq_subject r) (rq_lineage r)"
  note X = Score_Inr [OF x] and Y = Score_Inr [OF y]
  have d: "distinct (map (\<lambda>e. cd_id (en_candidate e)) (rq_candidates r))"
    using X by (auto simp: distinct_map inj_on_def)
  have "result_less a b \<or> result_less b a"
    if ab: "a \<in> set (map ?f es)" "b \<in> set (map ?f es)" "a \<noteq> b" for a b
  proof -
    obtain e e' where e: "e \<in> set (rq_candidates r)" "e' \<in> set (rq_candidates r)" "a = ?f e" "b = ?f e'"
      using ab mset_eq_setD [OF perm] by auto
    then have "cd_id (en_candidate e) \<noteq> cd_id (en_candidate e')"
      using ab(3) d by (metis distinct_map inj_onD)
    then show ?thesis
      using e by (auto simp: result_less_def)
  qed
  then have "sort_by result_less (map ?f es) = sort_by result_less (map ?f (rq_candidates r))"
    using perm by (intro results.sort_by_order_independent) simp_all
  then show ?thesis
    using X Y results.sort_by_no_inversion by simp
qed

theorem ranking_order_independent_witness:
  "\<exists>x y. Score ascii_tables demo_sha demo_loaded (demo_request [demo_e1, demo_e2]) = Inr x
     \<and> Score ascii_tables demo_sha demo_loaded (demo_request [demo_e2, demo_e1]) = Inr y
     \<and> rs_candidates y = rs_candidates x"
proof -
  obtain x where x: "Score ascii_tables demo_sha demo_loaded (demo_request [demo_e1, demo_e2]) = Inr x"
    using demo_score [of "[demo_e1, demo_e2]"] by blast
  obtain y where y: "Score ascii_tables demo_sha demo_loaded (demo_request [demo_e2, demo_e1]) = Inr y"
    using demo_score [of "[demo_e2, demo_e1]"] by blast
  have r: "demo_request [demo_e2, demo_e1] = (demo_request [demo_e1, demo_e2])\<lparr>rq_candidates := [demo_e2, demo_e1]\<rparr>"
    and perm: "mset [demo_e2, demo_e1] = mset (rq_candidates (demo_request [demo_e1, demo_e2]))"
    by (simp_all add: demo_request_def)
  show ?thesis
    using ranking_order_independent [OF x y [unfolded r] perm] x y by blast
qed

text \<open>
  The order and repetition of attributes is immaterial: a subject and an envelope that list
  the same names, identifiers, countries, dates, routes and reasons get the same result.
\<close>

theorem score_attribute_order:
  assumes "same_subject s s'" and "same_envelope e e'"
  shows "scoreCandidate u p s l e = scoreCandidate u p s' l e'"
proof -
  have c: "same_candidate (en_candidate e) (en_candidate e')"
    using assms(2) by (simp add: same_envelope_def)
  have "identifierMatch u (sj_identifiers s) (cd_identifiers (en_candidate e))
      = identifierMatch u (sj_identifiers s') (cd_identifiers (en_candidate e'))"
    using assms(1) c by (intro identifierMatch_cong) (auto simp: same_subject_def same_candidate_def)
  moreover have "bestNameMatch u (sj_names s) (cd_names (en_candidate e))
      = bestNameMatch u (sj_names s') (cd_names (en_candidate e'))"
    using assms(1) c by (intro bestNameMatch_cong) (auto simp: same_subject_def same_candidate_def)
  moreover have "uniqueSorted f (rt_routes (en_retrieval e)) = uniqueSorted f (rt_routes (en_retrieval e'))"
    "uniqueSorted f (rt_reasons (en_retrieval e)) = uniqueSorted f (rt_reasons (en_retrieval e'))" for f
    using assms(2) by (auto simp: same_envelope_def intro: uniqueSorted_cong)
  moreover have "cd_id (en_candidate e) = cd_id (en_candidate e')"
    using c by (simp add: same_candidate_def)
  ultimately show ?thesis
    by (simp add: scoreCandidate_def Let_def tally_cong [OF assms(1) c])
qed

theorem score_attribute_order_witness:
  "scoreCandidate ascii_tables demo_policy demo_subject demo_lineage (demo_envelope ''x'' [''B'', ''Ann Lee'', ''B''] [])
   = scoreCandidate ascii_tables demo_policy demo_subject demo_lineage (demo_envelope ''x'' [''Ann Lee'', ''B''] [])"
  by (rule score_attribute_order) (auto simp: same_subject_def same_envelope_def same_candidate_def demo_envelope_def)

text \<open>
  Results explain themselves: the evidence stays within the policy's bound, the reason codes
  are sorted and distinct, and \<^verbatim>\<open>typed_identifier_exact\<close> and \<^verbatim>\<open>name_exact\<close> occur among them
  exactly when the corresponding flag is set; retrieval reasons cannot imitate them.
\<close>

theorem result_explained:
  assumes "validatePolicy p = Inr ()" and "r = scoreCandidate u p s l e"
  shows "int (length (cr_evidence r)) \<le> sp_max_evidence p \<and> sorted (cr_reasons r) \<and> distinct (cr_reasons r)
    \<and> (''typed_identifier_exact'' \<in> set (cr_reasons r) \<longleftrightarrow> cr_exact_identifier r)
    \<and> (''name_exact'' \<in> set (cr_reasons r) \<longleftrightarrow> cr_exact_name r)"
proof -
  let ?c = "en_candidate e"
  have "0 \<le> sp_max_evidence p"
    using validatePolicy_ok(3) [OF assms(1)] by simp
  then have "int (length (cr_evidence r)) \<le> sp_max_evidence p"
    using tally_evidence by (simp add: assms(2) scoreCandidate_def Let_def)
  moreover have "sorted (cr_reasons r)" "distinct (cr_reasons r)"
    by (simp_all add: assms(2) result_reasons)
  moreover have "''typed_identifier_exact'' \<in> set (cr_reasons r) \<longleftrightarrow> cr_exact_identifier r"
  proof -
    have "''typed_identifier_exact'' \<in> set (match_reasons u s ?c)
        \<longleftrightarrow> fst (identifierMatch u (sj_identifiers s) (cd_identifiers ?c))"
      by (auto simp: match_reasons_def name_reason_def dob_reason_def country_reason_def entity_reason_def)
    then show ?thesis
      unfolding assms(2) result_reasons by (auto simp: scoreCandidate_def Let_def)
  qed
  moreover have "''name_exact'' \<in> set (cr_reasons r) \<longleftrightarrow> cr_exact_name r"
  proof -
    have "''name_exact'' \<in> set (match_reasons u s ?c) \<longleftrightarrow> fst (bestNameMatch u (sj_names s) (cd_names ?c)) = ''exact''"
      by (auto simp: match_reasons_def name_reason_def dob_reason_def country_reason_def entity_reason_def)
    then show ?thesis
      unfolding assms(2) result_reasons by (auto simp: scoreCandidate_def Let_def)
  qed
  ultimately show ?thesis
    by blast
qed

theorem result_explained_witness:
  "''name_exact'' \<in> set (cr_reasons (scoreCandidate ascii_tables demo_policy demo_subject demo_lineage demo_e1))"
proof -
  have "cr_exact_name (scoreCandidate ascii_tables demo_policy demo_subject demo_lineage demo_e1)"
    by (simp add: scoreCandidate_def Let_def demo_e1_def demo_envelope_def demo_subject_def demo_exact)
  then show ?thesis
    using result_explained [OF demo_valid refl, of ascii_tables demo_subject demo_lineage demo_e1] by blast
qed

text \<open>
  Name comparison is optimal and symmetric: the reported shape is the strongest shape that
  any pair of the names has, so exchanging subject and candidate reports the same shape.
\<close>

theorem best_name_symmetric:
  "fst (bestNameMatch u s c) = shape_of_rank (best_rank u s c)
   \<and> fst (bestNameMatch u c s) = fst (bestNameMatch u s c)"
  using bestNameMatch_rank [of u s c] bestNameMatch_rank [of u c s] best_rank_sym [of u s c] by simp

text \<open>
  Text normalisation is canonical: normalising a second time changes nothing, so a catalog
  normalised at build time compares equal to one normalised at query time.
\<close>

theorem normalize_text_idempotent:
  assumes "unicode_ok u"
  shows "normalizeText u (normalizeText u v) = normalizeText u v"
  using assms by (rule normalizeText_idem)

theorem normalize_text_idempotent_witness:
  "normalizeText ascii_tables (normalizeText ascii_tables ''ann lee'') = ''ANN LEE''"
  using normalize_text_idempotent [OF ascii_tables_ok, of "''ann lee''"] by (simp add: demo_normal)

section \<open>Batches\<close>

lemma batch_loop_Inr:
  "batch_loop u sha lp i seen rs = Inr xs \<Longrightarrow>
     distinct (map rq_id rs) \<and> set seen \<inter> rq_id ` set rs = {} \<and> list_all2 (\<lambda>r x. Score u sha lp r = Inr x) rs xs"
  by (induction u sha lp i seen rs arbitrary: xs rule: batch_loop.induct) (auto split: if_splits sum.splits)

text \<open>
  A batch is its items: an accepted batch has distinct request identifiers, and its responses
  are, position by position, what scoring each request alone returns.
\<close>

theorem batch_is_pointwise:
  assumes "ScoreBatch u sha lp b = Inr y"
  shows "distinct (map rq_id (bq_items b)) \<and> list_all2 (\<lambda>r x. Score u sha lp r = Inr x) (bq_items b) (bs_items y)"
  using assms by (auto simp: ScoreBatch_def split: if_splits sum.splits dest: batch_loop_Inr)

definition demo_batch :: batch_request where
  "demo_batch = \<lparr>bq_schema = ''openwatchlist.candidate-scoring-batch-request.v1'', bq_id = ''b'',
     bq_items = [demo_request [demo_e1, demo_e2]]\<rparr>"

theorem batch_is_pointwise_witness:
  "\<exists>y x. ScoreBatch ascii_tables demo_sha demo_loaded demo_batch = Inr y \<and> bs_items y = [x]
     \<and> Score ascii_tables demo_sha demo_loaded (demo_request [demo_e1, demo_e2]) = Inr x"
proof -
  have "TrimSpace ''b'' \<noteq> []"
    by (simp add: str_eval)
  then obtain y where y: "ScoreBatch ascii_tables demo_sha demo_loaded demo_batch = Inr y"
    using demo_score [of "[demo_e1, demo_e2]" ascii_tables] by (auto simp: ScoreBatch_def demo_batch_def)
  then show ?thesis
    using batch_is_pointwise [OF y] by (auto simp: demo_batch_def list_all2_Cons1)
qed

definition huge_policy :: scoring_policy where
  "huge_policy = demo_policy\<lparr>sp_weights := (sp_weights demo_policy)\<lparr>w_name_exact := 2 ^ 63 - 1, w_dob_year := 1\<rparr>\<rparr>"

text \<open>
  C40. Unbounded weights overflow: a policy that passes validation, with a name weight at the
  top of the integer range, gives an exact name match together with an equal birth year the lowest
  score and the band \<^verbatim>\<open>no_candidate_support\<close>, because the sum of the points wraps around.
\<close>

theorem weight_overflow:
  "validatePolicy huge_policy = Inr ()
   \<and> cr_exact_name (scoreCandidate ascii_tables huge_policy demo_subject demo_lineage demo_e1)
   \<and> cr_score (scoreCandidate ascii_tables huge_policy demo_subject demo_lineage demo_e1) = sp_floor huge_policy
   \<and> cr_band (scoreCandidate ascii_tables huge_policy demo_subject demo_lineage demo_e1) = ''no_candidate_support''"
proof -
  have d: "dateMatch [''1970-01-02''] [''1970-05-05''] = (''year'', ''1970-01-02'', ''1970-05-05'')"
    by (simp add: dateMatch_def uniqueSorted_def sorted_set_def normalizeDate_def Let_def str_eval same_year_def)
  have v: "validatePolicy huge_policy = Inr ()"
    by (simp add: validatePolicy_def huge_policy_def demo_policy_def Let_def str_eval)
  have p: "map sc_points (ta_components (tally_candidate ascii_tables huge_policy demo_subject (en_candidate demo_e1)))
      = [2 ^ 63 - 1, 1]"
    by (simp add: tally_candidate_def demo_subject_def demo_e1_def demo_envelope_def demo_exact d
        identifierMatch_def add_identifier_def add_name_def add_dob_def add_country_def add_entity_def
        setMatch_def uniqueSorted_def normalizeEntityType_def normalizeText_def huge_policy_def demo_policy_def
        add_item_def Let_def str_eval)
  have "sum_points (ta_components (tally_candidate ascii_tables huge_policy demo_subject (en_candidate demo_e1))) = - (2 ^ 63)"
    using p by (auto simp: sum_points_def wrap64_def)
  then have "cr_score (scoreCandidate ascii_tables huge_policy demo_subject demo_lineage demo_e1) = 0"
    unfolding scoreCandidate_score by (simp add: clamp_score_def huge_policy_def demo_policy_def)
  then show ?thesis
    using v by (simp add: scoreCandidate_score(2) strengthBand_def huge_policy_def demo_policy_def)
      (simp add: scoreCandidate_def Let_def demo_e1_def demo_envelope_def demo_subject_def demo_exact)
qed

end
