(* ===== verification/FalsePositive.thy ===== *)
theory FalsePositive imports Segments GoJson begin

text \<open>
  False-positive classification (\<^verbatim>\<open>internal/falsepositive\<close>): the pattern library and the
  countervailing-evidence policy with their validation, canonical observations, the ten pattern
  tests, countervailing signals, the route of a classification, and batches.

  A slice that the code requires to equal its canonical form is modelled by a list in which
  the empty list stands for the nil slice, the only empty value that passes those checks.
  Unicode tables and SHA-256 are parameters.
\<close>

section \<open>Data\<close>

record pattern_definition =
  pd_code :: string
  pd_strength :: int
  pd_route :: string
  pd_blockers :: "string list"
  pd_reasons :: "string list"

record pattern_library =
  pl_schema :: string
  pl_id :: string
  pl_version :: string
  pl_checksum :: string
  pl_patterns :: "pattern_definition list"

record doc_reference =
  dr_id :: string
  dr_version :: string
  dr_checksum :: string

record countervailing_rule =
  cv_route :: string
  cv_class :: string
  cv_signal :: string
  cv_strength :: int
  cv_eligible :: bool
  cv_triggers :: "string list"

record secondary_rule =
  sr_class :: string
  sr_signal :: string
  sr_strength :: int
  sr_eligible :: bool

record countervailing_policy =
  cp_schema :: string
  cp_id :: string
  cp_version :: string
  cp_checksum :: string
  cp_rules :: "countervailing_rule list"
  cp_secondary :: secondary_rule

record source_assertion =
  sa_source :: string
  sa_authority :: string
  sa_list :: string
  sa_record :: string
  sa_programs :: "string list"

record observation =
  fo_schema :: string
  fo_id :: string
  fo_case :: string
  fo_message :: string
  fo_message_type :: string
  fo_source :: string
  fo_field :: string
  fo_native_path :: string
  fo_role :: string
  fo_value_type :: string
  fo_trigger :: string
  fo_input :: string
  fo_norm_input :: string
  fo_watch :: string
  fo_norm_watch :: string
  fo_watch_type :: string
  fo_route :: string
  fo_score :: int
  fo_exact :: bool
  fo_reasons :: "string list"
  fo_diagnostics :: "string list"
  fo_targets :: "string list"
  fo_secondary :: "string list"
  fo_required :: "string list"
  fo_present :: "string list"
  fo_technical :: "string list"
  fo_context :: "string list"
  fo_assertions :: "source_assertion list"

record observation_batch =
  fb_schema :: string
  fb_id :: string
  fb_source :: string
  fb_observations :: "observation list"

record pattern_evidence =
  pe_schema :: string
  pe_code :: string
  pe_strength :: int
  pe_route :: string
  pe_blockers :: "string list"
  pe_reasons :: "string list"
  pe_detail :: string

record signal =
  sg_schema :: string
  sg_code :: string
  sg_class :: string
  sg_strength :: int
  sg_eligible :: bool
  sg_detail :: string

record classification_summary =
  su_patterns :: int
  su_strongest :: int
  su_release :: int
  su_countervailing :: int

record classification =
  cl_schema :: string
  cl_id :: string
  cl_observation :: observation
  cl_version :: string
  cl_library :: doc_reference
  cl_policy :: doc_reference
  cl_patterns :: "pattern_evidence list"
  cl_signals :: "signal list"
  cl_route :: string
  cl_blockers :: "string list"
  cl_required :: "string list"
  cl_summary :: classification_summary

record named_count =
  nc_name :: string
  nc_count :: int

record fp_summary =
  fs_total :: int
  fs_patterns :: "named_count list"
  fs_routes :: "named_count list"
  fs_blockers :: "named_count list"

record classification_batch =
  cb_schema :: string
  cb_id :: string
  cb_input :: string
  cb_version :: string
  cb_library :: doc_reference
  cb_policy :: doc_reference
  cb_summary :: fp_summary
  cb_items :: "classification list"

datatype library_error =
    LibrarySchema | LibraryIdentity | LibraryEmpty | PatternCodeBlank nat | PatternDuplicate string
  | PatternStrength string | PatternRoute string | PatternBlockers string | PatternReasons string
  | LibraryOrder | LibraryChecksum

datatype rule_error =
    CvClass | CvSignal | CvStrength | CvTriggersEmpty | CvTriggersOrder | CvTriggersUnique | CvTrigger | CvEligible

datatype countervailing_error =
    CvSchema | CvIdentity | CvEmpty | CvUntypedRoute nat | CvDuplicateRoute string | CvRule nat rule_error
  | CvOrder | CvRouteMissing string | CvSecondaryClass | CvSecondarySignal | CvSecondaryStrength
  | CvSecondaryEligible | CvChecksum

datatype observation_error =
    ObsSchema | ObsField | ObsScore | ObsInputForm | ObsWatchForm | ObsId | ObsCollections
  | ObsAssertion | ObsPrograms

datatype observation_batch_error =
    ObsBatchSchema | ObsBatchIdentity | ObsBatchEmpty | ObsInvalid nat observation_error
  | ObsDuplicate string | ObsOrder | ObsBatchId

datatype classification_error =
    ClSchema | ClIdentity | ClObservation observation_error | ClPolicy | ClPatternOrder | ClPattern
  | ClPatternStrength | ClPatternCollections | ClSignalOrder | ClSignal | ClSignalStrength | ClSignalEligible
  | ClSupporting | ClNoPrimary | ClCollections | ClPatternCount | ClId

datatype fp_error =
    BadLibrary library_error | RequiredPattern string | BadCountervailing countervailing_error
  | BadObservations observation_batch_error
  | CbSchema | CbIdentity | CbVersion | CbInvalid nat classification_error | CbLibrary nat | CbPolicy nat
  | CbDuplicate string | CbSummary | CbId

section \<open>Text\<close>

text \<open>The loop of this package's \<^verbatim>\<open>normalizeText\<close>, with the output so far.\<close>

fun fp_text_loop :: "unicode \<Rightarrow> string \<Rightarrow> bool \<Rightarrow> nat list \<Rightarrow> string" where
  "fp_text_loop u out space [] = out"
| "fp_text_loop u out space (r # rs) =
     (if IsLetter u r \<or> IsDigit u r then fp_text_loop u (out @ encode_rune r) False rs
      else if \<not> space \<and> out \<noteq> [] then fp_text_loop u (out @ '' '') True rs
      else fp_text_loop u out space rs)"

definition fp_normalizeText :: "unicode \<Rightarrow> string \<Rightarrow> string" where
  "fp_normalizeText u v = TrimSpace (fp_text_loop u [] True (runes (ToUpper u (TrimSpace v))))"

definition tokens :: "unicode \<Rightarrow> string \<Rightarrow> string list" where
  "tokens u v = Fields (fp_normalizeText u v)"

definition compact :: "unicode \<Rightarrow> string \<Rightarrow> string" where
  "compact u v = Join (tokens u v) []"

text \<open>\<open>start\<close> runs over the positions at which the wanted sequence can begin.\<close>

definition containsWholeTokenSequence :: "unicode \<Rightarrow> string \<Rightarrow> string \<Rightarrow> bool" where
  "containsWholeTokenSequence u input needle =
     (let xs = tokens u input; want = tokens u needle in
      want \<noteq> [] \<and> length want \<le> length xs
      \<and> list_ex (\<lambda>start. take (length want) (drop start xs) = want) [0..<Suc (length xs - length want)])"

definition canonicalStrings :: "string list \<Rightarrow> string list" where
  "canonicalStrings values = sorted_set (filter (\<lambda>v. v \<noteq> []) (map TrimSpace values))"

text \<open>\<^verbatim>\<open>strconv.Quote\<close>, as used by the verb \<^verbatim>\<open>%q\<close>.\<close>

definition is_print :: "unicode \<Rightarrow> nat \<Rightarrow> bool" where
  "is_print u r = (if r < 128 then 32 \<le> r \<and> r < 127 else u_print u r)"

definition hex2 :: "nat \<Rightarrow> string" where
  "hex2 r = [hex_ch (r div 16 mod 16), hex_ch (r mod 16)]"

definition quote_seg :: "unicode \<Rightarrow> nat \<times> string \<Rightarrow> string" where
  "quote_seg u p =
     (let r = fst p in
      if r = rune_error \<and> length (snd p) = 1 then [CHR 0x5C, CHR ''x''] @ hex2 (byte_of (hd (snd p)))
      else if r = 34 then [CHR 0x5C, CHR 0x22]
      else if r = 92 then [CHR 0x5C, CHR 0x5C]
      else if is_print u r then encode_rune r
      else if r = 7 then [CHR 0x5C, CHR ''a'']
      else if r = 8 then [CHR 0x5C, CHR ''b'']
      else if r = 12 then [CHR 0x5C, CHR ''f'']
      else if r = 10 then [CHR 0x5C, CHR ''n'']
      else if r = 13 then [CHR 0x5C, CHR ''r'']
      else if r = 9 then [CHR 0x5C, CHR ''t'']
      else if r = 11 then [CHR 0x5C, CHR ''v'']
      else if r < 32 \<or> r = 127 then [CHR 0x5C, CHR ''x''] @ hex2 r
      else if r < 65536 then [CHR 0x5C, CHR ''u''] @ hex2 (r div 256) @ hex2 r
      else [CHR 0x5C, CHR ''U''] @ hex2 (r div 16777216) @ hex2 (r div 65536) @ hex2 (r div 256) @ hex2 r)"

definition quote :: "unicode \<Rightarrow> string \<Rightarrow> string" where
  "quote u s = [CHR 0x22] @ concat (map (quote_seg u) (segs s)) @ [CHR 0x22]"

section \<open>Serialised forms and identifiers\<close>

definition digestID :: "(string \<Rightarrow> string) \<Rightarrow> string \<Rightarrow> string list \<Rightarrow> string" where
  "digestID sha prefix values = prefix @ take 24 (sha (Join values [byte 31]))"

definition reference_json :: "string \<Rightarrow> string \<Rightarrow> string \<Rightarrow> doc_reference \<Rightarrow> json" where
  "reference_json ki kv kc r =
     JObj (fld ki (JStr (dr_id r)) @ fld kv (JStr (dr_version r)) @ fld kc (JStr (dr_checksum r)))"

definition library_json :: "pattern_library \<Rightarrow> json" where
  "library_json l = JObj (fld ''schema_version'' (JStr (pl_schema l)) @ fld ''library_id'' (JStr (pl_id l))
     @ fld ''library_version'' (JStr (pl_version l)) @ fld ''library_checksum'' (JStr (pl_checksum l))
     @ fld ''patterns'' (JArr (map (\<lambda>p. JObj (fld ''code'' (JStr (pd_code p))
         @ fld ''default_strength_basis_points'' (JInt (pd_strength p)) @ fld ''route_hint'' (JStr (pd_route p))
         @ fld ''escalation_blockers'' (jslice (pd_blockers p)) @ fld ''reason_codes'' (jslice (pd_reasons p))))
       (pl_patterns l))))"

definition cv_policy_json :: "countervailing_policy \<Rightarrow> json" where
  "cv_policy_json p = JObj (fld ''schema_version'' (JStr (cp_schema p)) @ fld ''policy_id'' (JStr (cp_id p))
     @ fld ''policy_version'' (JStr (cp_version p)) @ fld ''policy_checksum'' (JStr (cp_checksum p))
     @ fld ''exact_route_rules'' (JArr (map (\<lambda>r. JObj (fld ''match_route'' (JStr (cv_route r))
         @ fld ''evidence_class'' (JStr (cv_class r)) @ fld ''signal_code'' (JStr (cv_signal r))
         @ fld ''strength_basis_points'' (JInt (cv_strength r)) @ fld ''escalation_eligible'' (JBool (cv_eligible r))
         @ fld ''allowed_trigger_policies'' (jslice (cv_triggers r)))) (cp_rules p)))
     @ fld ''secondary_identifier_support_rule'' (let s = cp_secondary p in
         JObj (fld ''evidence_class'' (JStr (sr_class s)) @ fld ''signal_code'' (JStr (sr_signal s))
             @ fld ''strength_basis_points'' (JInt (sr_strength s))
             @ fld ''escalation_eligible'' (JBool (sr_eligible s)))))"

definition observation_json :: "observation \<Rightarrow> json" where
  "observation_json o' = JObj
     (fld ''schema_version'' (JStr (fo_schema o')) @ fld ''observation_id'' (JStr (fo_id o'))
    @ fld ''case_id'' (JStr (fo_case o')) @ fld ''message_id'' (JStr (fo_message o'))
    @ fld ''message_type'' (JStr (fo_message_type o')) @ fld ''source_system'' (JStr (fo_source o'))
    @ fld ''matched_field'' (JStr (fo_field o')) @ opt ''native_path'' (fo_native_path o' = []) (JStr (fo_native_path o'))
    @ fld ''semantic_role'' (JStr (fo_role o')) @ fld ''value_type'' (JStr (fo_value_type o'))
    @ fld ''trigger_policy'' (JStr (fo_trigger o')) @ fld ''input_value'' (JStr (fo_input o'))
    @ fld ''normalized_input_value'' (JStr (fo_norm_input o')) @ fld ''watchlist_value'' (JStr (fo_watch o'))
    @ fld ''normalized_watchlist_value'' (JStr (fo_norm_watch o'))
    @ fld ''watchlist_entity_type'' (JStr (fo_watch_type o')) @ fld ''match_route'' (JStr (fo_route o'))
    @ fld ''screening_score_basis_points'' (JInt (fo_score o')) @ fld ''exact'' (JBool (fo_exact o'))
    @ opts ''matcher_reason_codes'' (fo_reasons o') @ opts ''matcher_diagnostic_codes'' (fo_diagnostics o')
    @ opts ''target_entity_types'' (fo_targets o') @ opts ''secondary_identifier_matches'' (fo_secondary o')
    @ opts ''required_qualifiers'' (fo_required o') @ opts ''present_qualifiers'' (fo_present o')
    @ opts ''technical_markers'' (fo_technical o') @ opts ''context_markers'' (fo_context o')
    @ opt ''source_assertions'' (fo_assertions o' = []) (JArr (map (\<lambda>a. JObj
        (fld ''source_id'' (JStr (sa_source a)) @ fld ''authority'' (JStr (sa_authority a))
       @ fld ''list_id'' (JStr (sa_list a)) @ fld ''source_record_id'' (JStr (sa_record a))
       @ opts ''programs'' (sa_programs a))) (fo_assertions o'))))"

definition classification_json :: "classification \<Rightarrow> json" where
  "classification_json c = JObj
     (fld ''schema_version'' (JStr (cl_schema c)) @ fld ''classification_id'' (JStr (cl_id c))
    @ fld ''observation'' (observation_json (cl_observation c)) @ fld ''classifier_version'' (JStr (cl_version c))
    @ fld ''pattern_library'' (reference_json ''library_id'' ''library_version'' ''library_checksum'' (cl_library c))
    @ fld ''countervailing_policy'' (reference_json ''policy_id'' ''policy_version'' ''policy_checksum'' (cl_policy c))
    @ opt ''patterns'' (cl_patterns c = []) (JArr (map (\<lambda>p. JObj
        (fld ''schema_version'' (JStr (pe_schema p)) @ fld ''code'' (JStr (pe_code p))
       @ fld ''strength_basis_points'' (JInt (pe_strength p)) @ fld ''route_hint'' (JStr (pe_route p))
       @ fld ''escalation_blockers'' (jslice (pe_blockers p)) @ fld ''reason_codes'' (jslice (pe_reasons p))
       @ fld ''detail'' (JStr (pe_detail p)))) (cl_patterns c)))
    @ opt ''countervailing_signals'' (cl_signals c = []) (JArr (map (\<lambda>s. JObj
        (fld ''schema_version'' (JStr (sg_schema s)) @ fld ''code'' (JStr (sg_code s))
       @ fld ''evidence_class'' (JStr (sg_class s)) @ fld ''strength_basis_points'' (JInt (sg_strength s))
       @ fld ''escalation_eligible'' (JBool (sg_eligible s)) @ fld ''detail'' (JStr (sg_detail s)))) (cl_signals c)))
    @ fld ''route_hint'' (JStr (cl_route c)) @ opts ''escalation_blockers'' (cl_blockers c)
    @ opts ''requires_evidence'' (cl_required c)
    @ fld ''summary'' (let s = cl_summary c in JObj
        (fld ''pattern_count'' (JInt (su_patterns s)) @ fld ''strongest_pattern_basis_points'' (JInt (su_strongest s))
       @ fld ''release_support_basis_points'' (JInt (su_release s))
       @ fld ''countervailing_support_basis_points'' (JInt (su_countervailing s)))))"

definition stableObservationID :: "(string \<Rightarrow> string) \<Rightarrow> observation \<Rightarrow> string" where
  "stableObservationID sha o' = digestID sha ''fp_observation_''
     [''transaction-screening-observation/v1alpha1'', marshal (observation_json (o'\<lparr>fo_id := []\<rparr>))]"

definition stableObservationBatchID :: "(string \<Rightarrow> string) \<Rightarrow> observation_batch \<Rightarrow> string" where
  "stableObservationBatchID sha b = digestID sha ''fp_observation_batch_''
     ([''transaction-screening-observation-batch/v1alpha1'', fb_source b] @ map fo_id (fb_observations b))"

definition stableClassificationID :: "(string \<Rightarrow> string) \<Rightarrow> classification \<Rightarrow> string" where
  "stableClassificationID sha c = digestID sha ''fp_classification_''
     [''false-positive-classification/v1alpha2'', marshal (classification_json (c\<lparr>cl_id := []\<rparr>))]"

definition stableClassificationBatchID :: "(string \<Rightarrow> string) \<Rightarrow> classification_batch \<Rightarrow> string" where
  "stableClassificationBatchID sha b = digestID sha ''fp_classification_batch_''
     ([''false-positive-classification-batch/v1alpha2'', cb_input b, cb_version b, dr_checksum (cb_library b),
       dr_checksum (cb_policy b)] @ map cl_id (cb_items b))"

definition PatternLibraryChecksum :: "(string \<Rightarrow> string) \<Rightarrow> pattern_library \<Rightarrow> string" where
  "PatternLibraryChecksum sha l = digest_json sha (library_json (l\<lparr>pl_checksum := []\<rparr>))"

definition CountervailingPolicyChecksum :: "(string \<Rightarrow> string) \<Rightarrow> countervailing_policy \<Rightarrow> string" where
  "CountervailingPolicyChecksum sha p = digest_json sha (cv_policy_json (p\<lparr>cp_checksum := []\<rparr>))"

definition library_reference :: "pattern_library \<Rightarrow> doc_reference" where
  "library_reference l = \<lparr>dr_id = pl_id l, dr_version = pl_version l, dr_checksum = pl_checksum l\<rparr>"

definition policy_reference :: "countervailing_policy \<Rightarrow> doc_reference" where
  "policy_reference p = \<lparr>dr_id = cp_id p, dr_version = cp_version p, dr_checksum = cp_checksum p\<rparr>"

section \<open>Library and policy\<close>

definition validRouteHint :: "string \<Rightarrow> bool" where
  "validRouteHint r \<longleftrightarrow>
     r \<in> {''clear_or_auto_release_eligible'', ''investigate'', ''manual_review'', ''escalation_candidate''}"

definition validEvidenceClass :: "string \<Rightarrow> bool" where
  "validEvidenceClass c \<longleftrightarrow> c \<in> {''primary_identifier'', ''secondary_attribute'', ''secondary_support''}"

definition in_bp :: "int \<Rightarrow> bool" where
  "in_bp n \<longleftrightarrow> 0 \<le> n \<and> n \<le> 10000"

fun check_patterns :: "nat \<Rightarrow> string list \<Rightarrow> pattern_definition list \<Rightarrow> (library_error, unit) result" where
  "check_patterns i seen [] = Inr ()"
| "check_patterns i seen (p # ps) =
     (if blank (pd_code p) then Inl (PatternCodeBlank i)
      else if pd_code p \<in> set seen then Inl (PatternDuplicate (pd_code p))
      else if \<not> in_bp (pd_strength p) then Inl (PatternStrength (pd_code p))
      else if \<not> validRouteHint (pd_route p) then Inl (PatternRoute (pd_code p))
      else if pd_blockers p \<noteq> canonicalStrings (pd_blockers p) then Inl (PatternBlockers (pd_code p))
      else if pd_reasons p \<noteq> canonicalStrings (pd_reasons p) then Inl (PatternReasons (pd_code p))
      else check_patterns (Suc i) (pd_code p # seen) ps)"

definition ValidatePatternLibrary :: "(string \<Rightarrow> string) \<Rightarrow> pattern_library \<Rightarrow> (library_error, unit) result" where
  "ValidatePatternLibrary sha l =
     (if pl_schema l \<noteq> ''false-positive-pattern-library/v1alpha1'' then Inl LibrarySchema
      else if blank (pl_id l) \<or> blank (pl_version l) \<or> blank (pl_checksum l) then Inl LibraryIdentity
      else if pl_patterns l = [] then Inl LibraryEmpty
      else (case check_patterns 0 [] (pl_patterns l) of
        Inl e \<Rightarrow> Inl e
      | Inr _ \<Rightarrow>
          if \<not> sorted (map pd_code (pl_patterns l)) then Inl LibraryOrder
          else if pl_checksum l \<noteq> PatternLibraryChecksum sha l then Inl LibraryChecksum
          else Inr ()))"

definition lookup_pattern :: "pattern_library \<Rightarrow> string \<Rightarrow> pattern_definition option" where
  "lookup_pattern l code =
     (let ps = pl_patterns l;
          i = Search (length ps) (\<lambda>i. pd_code (ps ! i) \<ge> code)
      in if i < length ps \<and> pd_code (ps ! i) = code then Some (ps ! i) else None)"

definition isTypedExactRoute :: "string \<Rightarrow> bool" where
  "isTypedExactRoute r \<longleftrightarrow> r \<in> {''exact_account'', ''exact_bic'', ''exact_date'', ''exact_lei''}"

definition compactTriggerPolicies :: "string list \<Rightarrow> string list" where
  "compactTriggerPolicies values = remdups_adj values"

definition validateCountervailingRule :: "countervailing_rule \<Rightarrow> (rule_error, unit) result" where
  "validateCountervailingRule r =
     (if \<not> validEvidenceClass (cv_class r) then Inl CvClass
      else if blank (cv_signal r) then Inl CvSignal
      else if \<not> in_bp (cv_strength r) then Inl CvStrength
      else if cv_triggers r = [] then Inl CvTriggersEmpty
      else if \<not> sorted (cv_triggers r) then Inl CvTriggersOrder
      else if cv_triggers r \<noteq> compactTriggerPolicies (cv_triggers r) then Inl CvTriggersUnique
      else if \<exists>t \<in> set (cv_triggers r). t \<noteq> ''candidate_alert'' \<and> t \<noteq> ''supporting_evidence'' then Inl CvTrigger
      else if cv_eligible r \<and> cv_class r \<noteq> ''primary_identifier'' then Inl CvEligible
      else Inr ())"

fun check_rules :: "nat \<Rightarrow> string list \<Rightarrow> countervailing_rule list \<Rightarrow> (countervailing_error, unit) result" where
  "check_rules i seen [] = Inr ()"
| "check_rules i seen (r # rs) =
     (if \<not> isTypedExactRoute (cv_route r) then Inl (CvUntypedRoute i)
      else if cv_route r \<in> set seen then Inl (CvDuplicateRoute (cv_route r))
      else (case validateCountervailingRule r of
              Inl e \<Rightarrow> Inl (CvRule i e) | Inr _ \<Rightarrow> check_rules (Suc i) (cv_route r # seen) rs))"

definition ValidateCountervailingPolicy :: "(string \<Rightarrow> string) \<Rightarrow> countervailing_policy \<Rightarrow> (countervailing_error, unit) result" where
  "ValidateCountervailingPolicy sha p =
     (let s = cp_secondary p; routes = map cv_route (cp_rules p) in
      if cp_schema p \<noteq> ''countervailing-evidence-policy/v1alpha1'' then Inl CvSchema
      else if blank (cp_id p) \<or> blank (cp_version p) \<or> blank (cp_checksum p) then Inl CvIdentity
      else if cp_rules p = [] then Inl CvEmpty
      else (case check_rules 0 [] (cp_rules p) of
        Inl e \<Rightarrow> Inl e
      | Inr _ \<Rightarrow>
          if \<not> sorted routes then Inl CvOrder
          else (case find (\<lambda>r. r \<notin> set routes) [''exact_account'', ''exact_bic'', ''exact_date'', ''exact_lei''] of
            Some r \<Rightarrow> Inl (CvRouteMissing r)
          | None \<Rightarrow>
              if sr_class s \<noteq> ''secondary_support'' then Inl CvSecondaryClass
              else if blank (sr_signal s) then Inl CvSecondarySignal
              else if \<not> in_bp (sr_strength s) then Inl CvSecondaryStrength
              else if sr_eligible s then Inl CvSecondaryEligible
              else if cp_checksum p \<noteq> CountervailingPolicyChecksum sha p then Inl CvChecksum
              else Inr ())))"

definition exactRouteRule :: "countervailing_policy \<Rightarrow> string \<Rightarrow> string \<Rightarrow> countervailing_rule option" where
  "exactRouteRule p route trigger =
     (let rs = cp_rules p;
          i = Search (length rs) (\<lambda>i. cv_route (rs ! i) \<ge> route)
      in if i \<ge> length rs \<or> cv_route (rs ! i) \<noteq> route then None
         else if trigger \<in> set (cv_triggers (rs ! i)) then Some (rs ! i) else None)"

end
