(* ===== verification/FpClassify.thy ===== *)
theory FpClassify imports FalsePositive begin

text \<open>
  Canonical observations, the pattern tests, the classifier and the validation of its results
  (\<^verbatim>\<open>classify.go\<close> and \<^verbatim>\<open>validate.go\<close> of \<^verbatim>\<open>internal/falsepositive\<close>).
\<close>

section \<open>Canonical observation batches\<close>

definition assertion_less :: "source_assertion \<Rightarrow> source_assertion \<Rightarrow> bool" where
  "assertion_less a b =
     (if sa_source a \<noteq> sa_source b then sa_source a < sa_source b
      else if sa_list a \<noteq> sa_list b then sa_list a < sa_list b
      else sa_record a < sa_record b)"

definition observation_less :: "observation \<Rightarrow> observation \<Rightarrow> bool" where
  "observation_less a b = (if fo_case a \<noteq> fo_case b then fo_case a < fo_case b else fo_id a < fo_id b)"

interpretation assertions: comparator assertion_less
  by unfold_locales (auto simp: assertion_less_def split: if_splits)

interpretation observations: comparator observation_less
  by unfold_locales (auto simp: observation_less_def split: if_splits)

definition dedupeCandidateTypes :: "string list \<Rightarrow> string list" where
  "dedupeCandidateTypes values = remdups_adj values"

definition canonical_observation :: "unicode \<Rightarrow> (string \<Rightarrow> string) \<Rightarrow> observation \<Rightarrow> observation" where
  "canonical_observation u sha o0 =
     (let o1 = o0\<lparr>fo_schema := ''transaction-screening-observation/v1alpha1'',
            fo_norm_input := fp_normalizeText u (fo_input o0),
            fo_norm_watch := fp_normalizeText u (fo_watch o0),
            fo_reasons := canonicalStrings (fo_reasons o0),
            fo_diagnostics := canonicalStrings (fo_diagnostics o0),
            fo_secondary := canonicalStrings (fo_secondary o0),
            fo_required := canonicalStrings (fo_required o0),
            fo_present := canonicalStrings (fo_present o0),
            fo_technical := canonicalStrings (fo_technical o0),
            fo_context := canonicalStrings (fo_context o0),
            fo_targets := dedupeCandidateTypes (sort (fo_targets o0)),
            fo_assertions := sort_by assertion_less
              (map (\<lambda>a. a\<lparr>sa_programs := canonicalStrings (sa_programs a)\<rparr>) (fo_assertions o0))\<rparr>
      in o1\<lparr>fo_id := stableObservationID sha o1\<rparr>)"

definition CanonicalizeObservationBatch ::
  "unicode \<Rightarrow> (string \<Rightarrow> string) \<Rightarrow> observation_batch \<Rightarrow> observation_batch" where
  "CanonicalizeObservationBatch u sha b0 =
     (let b1 = b0\<lparr>fb_schema := ''transaction-screening-observation-batch/v1alpha1'',
            fb_source := TrimSpace (fb_source b0),
            fb_observations := sort_by observation_less (map (canonical_observation u sha) (fb_observations b0))\<rparr>
      in b1\<lparr>fb_id := stableObservationBatchID sha b1\<rparr>)"

definition observation_strings :: "observation \<Rightarrow> string list" where
  "observation_strings x = [fo_id x, fo_case x, fo_message x, fo_message_type x, fo_source x, fo_field x, fo_role x,
     fo_value_type x, fo_trigger x, fo_input x, fo_norm_input x, fo_watch x, fo_norm_watch x, fo_watch_type x, fo_route x]"

definition observation_lists :: "observation \<Rightarrow> string list list" where
  "observation_lists x = [fo_reasons x, fo_diagnostics x, fo_secondary x, fo_required x, fo_present x, fo_technical x,
     fo_context x]"

definition check_assertion :: "source_assertion \<Rightarrow> (observation_error, unit) result" where
  "check_assertion a =
     (if blank (sa_source a) \<or> blank (sa_authority a) \<or> blank (sa_list a) \<or> blank (sa_record a) then Inl ObsAssertion
      else if sa_programs a \<noteq> canonicalStrings (sa_programs a) then Inl ObsPrograms
      else Inr ())"

definition ValidateObservation ::
  "unicode \<Rightarrow> (string \<Rightarrow> string) \<Rightarrow> observation \<Rightarrow> (observation_error, unit) result" where
  "ValidateObservation u sha x =
     (if fo_schema x \<noteq> ''transaction-screening-observation/v1alpha1'' then Inl ObsSchema
      else if \<exists>s \<in> set (observation_strings x). blank s then Inl ObsField
      else if \<not> in_bp (fo_score x) then Inl ObsScore
      else if fo_norm_input x \<noteq> fp_normalizeText u (fo_norm_input x) then Inl ObsInputForm
      else if fo_norm_watch x \<noteq> fp_normalizeText u (fo_norm_watch x) then Inl ObsWatchForm
      else if fo_id x \<noteq> stableObservationID sha x then Inl ObsId
      else if \<exists>l \<in> set (observation_lists x). l \<noteq> canonicalStrings l then Inl ObsCollections
      else first_err check_assertion (fo_assertions x))"

fun check_observations ::
  "unicode \<Rightarrow> (string \<Rightarrow> string) \<Rightarrow> nat \<Rightarrow> string list \<Rightarrow> observation list \<Rightarrow> (observation_batch_error, unit) result"
where
  "check_observations u sha i seen [] = Inr ()"
| "check_observations u sha i seen (x # xs) =
     (case ValidateObservation u sha x of
        Inl e \<Rightarrow> Inl (ObsInvalid i e)
      | Inr _ \<Rightarrow>
          if fo_id x \<in> set seen then Inl (ObsDuplicate (fo_id x))
          else check_observations u sha (Suc i) (fo_id x # seen) xs)"

definition ValidateObservationBatch ::
  "unicode \<Rightarrow> (string \<Rightarrow> string) \<Rightarrow> observation_batch \<Rightarrow> (observation_batch_error, unit) result" where
  "ValidateObservationBatch u sha b =
     (if fb_schema b \<noteq> ''transaction-screening-observation-batch/v1alpha1'' then Inl ObsBatchSchema
      else if blank (fb_id b) \<or> blank (fb_source b) then Inl ObsBatchIdentity
      else if fb_observations b = [] then Inl ObsBatchEmpty
      else (case check_observations u sha 0 [] (fb_observations b) of
        Inl e \<Rightarrow> Inl e
      | Inr _ \<Rightarrow>
          if \<not> slice_sorted observation_less (fb_observations b) then Inl ObsOrder
          else if fb_id b \<noteq> stableObservationBatchID sha b then Inl ObsBatchId
          else Inr ()))"

section \<open>The pattern tests\<close>

definition strictSubstring :: "unicode \<Rightarrow> string \<Rightarrow> string \<Rightarrow> bool" where
  "strictSubstring u input watchlist \<longleftrightarrow>
     length (compact u watchlist) \<ge> 3 \<and> compact u input \<noteq> compact u watchlist
     \<and> Contains (compact u input) (compact u watchlist) \<and> \<not> containsWholeTokenSequence u input watchlist"

definition wrongFieldDataType :: "observation \<Rightarrow> bool" where
  "wrongFieldDataType x \<longleftrightarrow>
     fo_route x \<notin> {''exact_bic'', ''exact_lei'', ''exact_account'', ''exact_date''}
     \<and> fo_value_type x \<in> {''account_identifier'', ''iban'', ''payment_reference'', ''uetr'', ''amount'', ''count'', ''datetime''}
     \<and> fo_route x \<in> {''normalized_name'', ''alias'', ''transliteration'', ''contextual_phrase_window''}"

definition entityTypeMismatch :: "observation \<Rightarrow> bool" where
  "entityTypeMismatch x =
     (if ''entity_type_mismatch'' \<in> set (fo_diagnostics x) then True
      else if fo_targets x = [] then False
      else fo_watch_type x \<notin> set (fo_targets x))"

definition qualifier_words :: "string list" where
  "qualifier_words = [''BANK'', ''MINISTRY'', ''SHIPPING'', ''AIRWAYS'', ''FOUNDATION'', ''CORPORATION'', ''HOLDINGS'',
     ''TRUST'', ''AUTHORITY'']"

text \<open>The map of qualifier tokens is read in some order; the result is sorted, so any order will do.\<close>

definition missingQualifiers :: "unicode \<Rightarrow> observation \<Rightarrow> string list" where
  "missingQualifiers u x =
     (let required = (if fo_required x = []
            then filter (\<lambda>t. t \<in> set qualifier_words) (tokens u (fo_watch x)) else fo_required x);
          present = tokens u (fo_input x) @ map (fp_normalizeText u) (fo_present x)
      in canonicalStrings (filter (\<lambda>q. q \<noteq> [] \<and> q \<notin> set present) (map (fp_normalizeText u) required)))"

definition routingBICCollision :: "unicode \<Rightarrow> observation \<Rightarrow> bool" where
  "routingBICCollision u x \<longleftrightarrow>
     fo_value_type x = ''bic'' \<and> fo_route x \<noteq> ''exact_bic''
     \<and> 2 \<le> length (compact u (fo_watch x)) \<and> length (compact u (fo_watch x)) \<le> 5
     \<and> Contains (compact u (fo_input x)) (compact u (fo_watch x))"

definition acronymCollision :: "unicode \<Rightarrow> observation \<Rightarrow> bool" where
  "acronymCollision u x \<longleftrightarrow>
     2 \<le> length (compact u (fo_watch x)) \<and> length (compact u (fo_watch x)) \<le> 5
     \<and> \<not> (fo_exact x \<and> fo_route x = ''exact_bic'')
     \<and> fo_value_type x \<in> {''payment_reference'', ''account_identifier'', ''iban'', ''uetr''}
     \<and> Contains (compact u (fo_input x)) (compact u (fo_watch x))"

definition phoneticTransliterationOnly :: "observation \<Rightarrow> bool" where
  "phoneticTransliterationOnly x \<longleftrightarrow>
     \<not> fo_exact x \<and> fo_secondary x = [] \<and> fo_reasons x \<noteq> []
     \<and> set (fo_reasons x) \<subseteq> {''name_fuzzy_phonetic'', ''transliteration_fold_exact'', ''transliteration_only''}"

definition denial_markers :: "string list" where
  "denial_markers = [''NO BUSINESS RELATIONSHIP'', ''NOT RELATED TO'', ''DO NOT PAY'', ''NO DEALINGS WITH'', ''REJECTED DUE TO'']"

definition narrativeDenialContext :: "unicode \<Rightarrow> observation \<Rightarrow> bool" where
  "narrativeDenialContext u x \<longleftrightarrow>
     ''narrative_denial_context'' \<in> set (fo_diagnostics x)
     \<or> (\<exists>m \<in> set (map (fp_normalizeText u) denial_markers). m \<noteq> [] \<and> Contains (fp_normalizeText u (fo_input x)) m)"

definition technical_markers :: "string list" where
  "technical_markers = [''MIGRATION'', ''TEST RECORD'', ''DUMMY'', ''SYSTEM GENERATED'', ''LEGACY PADDING'']"

definition technicalArtifact :: "unicode \<Rightarrow> observation \<Rightarrow> bool" where
  "technicalArtifact u x \<longleftrightarrow>
     fo_technical x \<noteq> []
     \<or> (\<exists>m \<in> set technical_markers. Contains (fp_normalizeText u (fo_input x)) m)
     \<or> Contains (compact u (fp_normalizeText u (fo_input x))) ''0000000000''
     \<or> Contains (compact u (fp_normalizeText u (fo_input x))) ''XXXXXXXXXX''"

definition control_markers :: "string list" where
  "control_markers = [''BANKRUPTCY TRUSTEE'', ''COURT APPOINTED RECEIVER'', ''LIQUIDATOR'', ''INSOLVENCY ADMINISTRATOR'',
     ''RECEIVER FOR'']"

definition legalControlContext :: "unicode \<Rightarrow> observation \<Rightarrow> bool" where
  "legalControlContext u x \<longleftrightarrow>
     (\<exists>m \<in> set control_markers. Contains (fp_normalizeText u (fo_input x @ '' '' @ Join (fo_context x) '' '')) m)"

section \<open>Classification\<close>

text \<open>What the closure \<^verbatim>\<open>add\<close> appends; an unknown code gives the zero definition.\<close>

definition zero_pattern :: pattern_definition where
  "zero_pattern = \<lparr>pd_code = [], pd_strength = 0, pd_route = [], pd_blockers = [], pd_reasons = []\<rparr>"

definition evidence_of :: "pattern_library \<Rightarrow> string \<Rightarrow> string \<Rightarrow> pattern_evidence" where
  "evidence_of l code detail =
     (let d = (case lookup_pattern l code of None \<Rightarrow> zero_pattern | Some d \<Rightarrow> d)
      in \<lparr>pe_schema = ''false-positive-pattern-evidence/v1alpha1'', pe_code = code, pe_strength = pd_strength d,
          pe_route = pd_route d, pe_blockers = pd_blockers d, pe_reasons = pd_reasons d, pe_detail = detail\<rparr>)"

definition pattern_hits :: "unicode \<Rightarrow> observation \<Rightarrow> (string \<times> string) list" where
  "pattern_hits u x =
     (if strictSubstring u (fo_input x) (fo_watch x)
      then [(''substring_containment'', ''watchlist value '' @ quote u (fo_watch x)
              @ '' occurs only as a strict substring of input '' @ quote u (fo_input x))] else [])
   @ (if wrongFieldDataType x
      then [(''wrong_field_data_type'', fo_value_type x @ '' field '' @ quote u (fo_field x)
              @ '' is incompatible with '' @ fo_watch_type x @ '' candidate retrieval through '' @ fo_route x)] else [])
   @ (if entityTypeMismatch x
      then [(''entity_type_mismatch'', ''candidate entity type '' @ quote u (fo_watch_type x)
              @ '' is outside target entity types'')] else [])
   @ (if missingQualifiers u x \<noteq> []
      then [(''missing_qualifier'', ''input is missing watchlist qualifier tokens: ''
              @ Join (missingQualifiers u x) '', '')] else [])
   @ (if routingBICCollision u x
      then [(''routing_bic_collision'', ''BIC value '' @ quote u (fo_input x)
              @ '' produced a non-exact identifier/name collision with '' @ quote u (fo_watch x))] else [])
   @ (if acronymCollision u x
      then [(''acronym_collision'', ''short watchlist token '' @ quote u (fo_watch x)
              @ '' collides with non-party field '' @ quote u (fo_field x))] else [])
   @ (if phoneticTransliterationOnly x
      then [(''phonetic_transliteration_only'', ''candidate is supported only by phonetic/transliteration evidence and lacks a secondary identifier'')]
      else [])
   @ (if narrativeDenialContext u x
      then [(''narrative_denial_context'', ''matched narrative is inside explicit denial or non-relationship language'')] else [])
   @ (if technicalArtifact u x
      then [(''technical_system_artifact'', ''matched value carries a migration, test, padding, or system-artifact marker'')] else [])
   @ (if legalControlContext u x
      then [(''legal_control_context'', ''matched party appears in trustee, receiver, liquidator, or other legal-control context'')] else [])"

definition evidence_less :: "pattern_evidence \<Rightarrow> pattern_evidence \<Rightarrow> bool" where
  "evidence_less a b \<longleftrightarrow> pe_code a < pe_code b"

definition signal_less :: "signal \<Rightarrow> signal \<Rightarrow> bool" where
  "signal_less a b \<longleftrightarrow> sg_code a < sg_code b"

interpretation evidences: comparator evidence_less
  unfolding evidence_less_def by (rule comparator_key)

interpretation signals: comparator signal_less
  unfolding signal_less_def by (rule comparator_key)

definition classify_patterns :: "unicode \<Rightarrow> pattern_library \<Rightarrow> observation \<Rightarrow> pattern_evidence list" where
  "classify_patterns u l x = sort_by evidence_less (map (\<lambda>(c, d). evidence_of l c d) (pattern_hits u x))"

definition hasEscalationEligibleSignal :: "signal list \<Rightarrow> bool" where
  "hasEscalationEligibleSignal ss \<longleftrightarrow> (\<exists>s \<in> set ss. sg_eligible s \<and> sg_class s = ''primary_identifier'')"

definition rule_signal :: "observation \<Rightarrow> countervailing_rule \<Rightarrow> signal" where
  "rule_signal x r = \<lparr>sg_schema = ''false-positive-countervailing-signal/v1alpha1'', sg_code = cv_signal r,
     sg_class = cv_class r, sg_strength = cv_strength r, sg_eligible = cv_eligible r,
     sg_detail = ''typed exact '' @ fo_route x @ '' evidence is classified as '' @ cv_class r\<rparr>"

definition secondary_signal :: "countervailing_policy \<Rightarrow> observation \<Rightarrow> signal" where
  "secondary_signal p x = \<lparr>sg_schema = ''false-positive-countervailing-signal/v1alpha1'',
     sg_code = sr_signal (cp_secondary p), sg_class = sr_class (cp_secondary p),
     sg_strength = sr_strength (cp_secondary p), sg_eligible = sr_eligible (cp_secondary p),
     sg_detail = ''secondary identifiers matched: '' @ Join (canonicalStrings (fo_secondary x)) '', ''\<rparr>"

definition countervailingSignals :: "countervailing_policy \<Rightarrow> observation \<Rightarrow> signal list" where
  "countervailingSignals p x = sort_by signal_less
     ((if fo_exact x then
         (case exactRouteRule p (fo_route x) (fo_trigger x) of None \<Rightarrow> [] | Some r \<Rightarrow> [rule_signal x r])
       else [])
    @ (if fo_secondary x \<noteq> [] then [secondary_signal p x] else []))"

definition chooseRoute :: "pattern_evidence list \<Rightarrow> signal list \<Rightarrow> string \<Rightarrow> string" where
  "chooseRoute ps ss trigger =
     (let strong = (\<exists>p \<in> set ps. pe_route p = ''clear_or_auto_release_eligible'');
          manual = (\<exists>p \<in> set ps. pe_route p = ''manual_review'');
          investigate = (\<exists>p \<in> set ps. pe_route p = ''investigate'')
      in if ss \<noteq> [] then
           (if strong \<or> manual \<or> investigate then ''investigate''
            else if trigger = ''candidate_alert'' \<and> hasEscalationEligibleSignal ss then ''escalation_candidate''
            else ''investigate'')
         else if manual then ''manual_review''
         else if strong then ''clear_or_auto_release_eligible''
         else ''investigate'')"

text \<open>
  The strengths are summed in \<^verbatim>\<open>int\<close> and capped; with at most ten patterns and two signals
  of at most 10000 basis points the sums stay far inside 64 bits.
\<close>

definition release_support :: "pattern_evidence list \<Rightarrow> int" where
  "release_support ps =
     (let s = (\<Sum>p \<leftarrow> filter (\<lambda>p. pe_route p = ''clear_or_auto_release_eligible'') ps. pe_strength p)
      in if s > 10000 then 10000 else s)"

definition countervailing_support :: "signal list \<Rightarrow> int" where
  "countervailing_support ss = (let s = (\<Sum>x \<leftarrow> ss. sg_strength x) in if s > 10000 then 10000 else s)"

definition strongest_pattern :: "pattern_evidence list \<Rightarrow> int" where
  "strongest_pattern ps = foldl (\<lambda>m p. if pe_strength p > m then pe_strength p else m) 0 ps"

definition signal_blockers :: "signal list \<Rightarrow> string \<Rightarrow> string list" where
  "signal_blockers ss trigger =
     (if ss = [] then []
      else if trigger \<noteq> ''candidate_alert'' then [''supporting_evidence_cannot_escalate'']
      else if \<not> hasEscalationEligibleSignal ss then [''primary_identifier_required'']
      else [])"

definition signal_requires :: "signal list \<Rightarrow> string \<Rightarrow> string list" where
  "signal_requires ss trigger =
     (if ss = [] then []
      else if trigger \<noteq> ''candidate_alert'' then [''qualifying_candidate_alert'']
      else if \<not> hasEscalationEligibleSignal ss then [''primary_identifier'']
      else [])"

definition pattern_requires :: "pattern_evidence \<Rightarrow> string list" where
  "pattern_requires p =
     (if pe_code p = ''phonetic_transliteration_only'' then [''secondary_identifier''] else [])
   @ (if pe_code p = ''legal_control_context'' then [''legal_control_documentation''] else [])"

definition classify ::
  "unicode \<Rightarrow> (string \<Rightarrow> string) \<Rightarrow> pattern_library \<Rightarrow> countervailing_policy \<Rightarrow> observation \<Rightarrow> classification" where
  "classify u sha l p x =
     (let ps = classify_patterns u l x; ss = countervailingSignals p x;
          c = \<lparr>cl_schema = ''false-positive-classification/v1alpha2'', cl_id = [], cl_observation = x,
               cl_version = ''false-positive-classifier/v0.1.1'', cl_library = library_reference l,
               cl_policy = policy_reference p, cl_patterns = ps, cl_signals = ss,
               cl_route = chooseRoute ps ss (fo_trigger x),
               cl_blockers = canonicalStrings (concat (map pe_blockers ps) @ signal_blockers ss (fo_trigger x)),
               cl_required = canonicalStrings (concat (map pattern_requires ps) @ signal_requires ss (fo_trigger x)),
               cl_summary = \<lparr>su_patterns = int (length ps), su_strongest = strongest_pattern ps,
                            su_release = release_support ps, su_countervailing = countervailing_support ss\<rparr>\<rparr>
      in c\<lparr>cl_id := stableClassificationID sha c\<rparr>)"

section \<open>Validation of results\<close>

definition check_evidence :: "pattern_evidence \<Rightarrow> (classification_error, unit) result" where
  "check_evidence p =
     (if pe_schema p \<noteq> ''false-positive-pattern-evidence/v1alpha1'' \<or> blank (pe_code p) \<or> blank (pe_detail p)
         \<or> \<not> validRouteHint (pe_route p) then Inl ClPattern
      else if \<not> in_bp (pe_strength p) then Inl ClPatternStrength
      else if pe_blockers p \<noteq> canonicalStrings (pe_blockers p) \<or> pe_reasons p \<noteq> canonicalStrings (pe_reasons p)
      then Inl ClPatternCollections
      else Inr ())"

definition check_signal :: "signal \<Rightarrow> (classification_error, unit) result" where
  "check_signal s =
     (if sg_schema s \<noteq> ''false-positive-countervailing-signal/v1alpha1'' \<or> blank (sg_code s) \<or> blank (sg_detail s)
         \<or> \<not> validEvidenceClass (sg_class s) then Inl ClSignal
      else if \<not> in_bp (sg_strength s) then Inl ClSignalStrength
      else if sg_eligible s \<and> sg_class s \<noteq> ''primary_identifier'' then Inl ClSignalEligible
      else Inr ())"

definition check_route :: "(string \<Rightarrow> string) \<Rightarrow> classification \<Rightarrow> (classification_error, unit) result" where
  "check_route sha c =
     (if fo_trigger (cl_observation c) \<noteq> ''candidate_alert'' \<and> cl_route c = ''escalation_candidate'' then Inl ClSupporting
      else if cl_route c = ''escalation_candidate'' \<and> \<not> hasEscalationEligibleSignal (cl_signals c) then Inl ClNoPrimary
      else if cl_blockers c \<noteq> canonicalStrings (cl_blockers c) \<or> cl_required c \<noteq> canonicalStrings (cl_required c)
      then Inl ClCollections
      else if su_patterns (cl_summary c) \<noteq> int (length (cl_patterns c)) then Inl ClPatternCount
      else if cl_id c \<noteq> stableClassificationID sha c then Inl ClId
      else Inr ())"

definition ValidateClassification ::
  "unicode \<Rightarrow> (string \<Rightarrow> string) \<Rightarrow> classification \<Rightarrow> (classification_error, unit) result" where
  "ValidateClassification u sha c =
     (if cl_schema c \<noteq> ''false-positive-classification/v1alpha2'' then Inl ClSchema
      else if blank (cl_id c) \<or> cl_version c \<noteq> ''false-positive-classifier/v0.1.1'' \<or> \<not> validRouteHint (cl_route c)
      then Inl ClIdentity
      else (case ValidateObservation u sha (cl_observation c) of
        Inl e \<Rightarrow> Inl (ClObservation e)
      | Inr _ \<Rightarrow>
          if blank (dr_id (cl_policy c)) \<or> blank (dr_version (cl_policy c)) \<or> blank (dr_checksum (cl_policy c))
          then Inl ClPolicy
          else if \<not> slice_sorted evidence_less (cl_patterns c) then Inl ClPatternOrder
          else (case first_err check_evidence (cl_patterns c) of
            Inl e \<Rightarrow> Inl e
          | Inr _ \<Rightarrow>
              if \<not> slice_sorted signal_less (cl_signals c) then Inl ClSignalOrder
              else (case first_err check_signal (cl_signals c) of
                Inl e \<Rightarrow> Inl e
              | Inr _ \<Rightarrow> check_route sha c))))"

text \<open>\<^verbatim>\<open>namedCounts\<close> of the map that counts a list of names.\<close>

definition count_names :: "string list \<Rightarrow> named_count list" where
  "count_names names = map (\<lambda>n. \<lparr>nc_name = n, nc_count = int (length (filter (\<lambda>m. m = n) names))\<rparr>) (sorted_set names)"

definition summarizeClassifications :: "classification list \<Rightarrow> fp_summary" where
  "summarizeClassifications cs = \<lparr>fs_total = int (length cs),
     fs_patterns = count_names (concat (map (\<lambda>c. map pe_code (cl_patterns c)) cs)),
     fs_routes = count_names (map cl_route cs), fs_blockers = count_names (concat (map cl_blockers cs))\<rparr>"

fun check_classifications ::
  "unicode \<Rightarrow> (string \<Rightarrow> string) \<Rightarrow> classification_batch \<Rightarrow> nat \<Rightarrow> string list \<Rightarrow> classification list
    \<Rightarrow> (fp_error, unit) result"
where
  "check_classifications u sha b i seen [] = Inr ()"
| "check_classifications u sha b i seen (c # cs) =
     (case ValidateClassification u sha c of
        Inl e \<Rightarrow> Inl (CbInvalid i e)
      | Inr _ \<Rightarrow>
          if cl_library c \<noteq> cb_library b then Inl (CbLibrary i)
          else if cl_policy c \<noteq> cb_policy b then Inl (CbPolicy i)
          else if cl_id c \<in> set seen then Inl (CbDuplicate (cl_id c))
          else check_classifications u sha b (Suc i) (cl_id c # seen) cs)"

definition batch_strings :: "classification_batch \<Rightarrow> string list" where
  "batch_strings b = [cb_id b, cb_input b, cb_version b, dr_id (cb_library b), dr_version (cb_library b),
     dr_checksum (cb_library b), dr_id (cb_policy b), dr_version (cb_policy b), dr_checksum (cb_policy b)]"

definition ValidateClassificationBatch ::
  "unicode \<Rightarrow> (string \<Rightarrow> string) \<Rightarrow> classification_batch \<Rightarrow> (fp_error, unit) result" where
  "ValidateClassificationBatch u sha b =
     (if cb_schema b \<noteq> ''false-positive-classification-batch/v1alpha2'' then Inl CbSchema
      else if \<exists>s \<in> set (batch_strings b). blank s then Inl CbIdentity
      else if cb_version b \<noteq> ''false-positive-classifier/v0.1.1'' then Inl CbVersion
      else (case check_classifications u sha b 0 [] (cb_items b) of
        Inl e \<Rightarrow> Inl e
      | Inr _ \<Rightarrow>
          if cb_summary b \<noteq> summarizeClassifications (cb_items b) then Inl CbSummary
          else if cb_id b \<noteq> stableClassificationBatchID sha b then Inl CbId
          else Inr ()))"

section \<open>The classifier\<close>

definition required_patterns :: "string list" where
  "required_patterns = [''acronym_collision'', ''entity_type_mismatch'', ''legal_control_context'', ''missing_qualifier'',
     ''narrative_denial_context'', ''phonetic_transliteration_only'', ''routing_bic_collision'', ''substring_containment'',
     ''technical_system_artifact'', ''wrong_field_data_type'']"

definition NewClassifier ::
  "(string \<Rightarrow> string) \<Rightarrow> pattern_library \<Rightarrow> countervailing_policy
    \<Rightarrow> (fp_error, pattern_library \<times> countervailing_policy) result" where
  "NewClassifier sha l p =
     (case ValidatePatternLibrary sha l of
        Inl e \<Rightarrow> Inl (BadLibrary e)
      | Inr _ \<Rightarrow>
          (case find (\<lambda>c. lookup_pattern l c = None) required_patterns of
             Some c \<Rightarrow> Inl (RequiredPattern c)
           | None \<Rightarrow>
               (case ValidateCountervailingPolicy sha p of
                  Inl e \<Rightarrow> Inl (BadCountervailing e) | Inr _ \<Rightarrow> Inr (l, p))))"

definition ClassifyBatch ::
  "unicode \<Rightarrow> (string \<Rightarrow> string) \<Rightarrow> pattern_library \<times> countervailing_policy \<Rightarrow> observation_batch
    \<Rightarrow> (fp_error, classification_batch) result" where
  "ClassifyBatch u sha cfg input0 =
     (let input = CanonicalizeObservationBatch u sha input0 in
      case ValidateObservationBatch u sha input of
        Inl e \<Rightarrow> Inl (BadObservations e)
      | Inr _ \<Rightarrow>
          let items = map (classify u sha (fst cfg) (snd cfg)) (fb_observations input);
              b0 = \<lparr>cb_schema = ''false-positive-classification-batch/v1alpha2'', cb_id = [], cb_input = fb_id input,
                    cb_version = ''false-positive-classifier/v0.1.1'', cb_library = library_reference (fst cfg),
                    cb_policy = policy_reference (snd cfg), cb_summary = summarizeClassifications items,
                    cb_items = items\<rparr>;
              b = b0\<lparr>cb_id := stableClassificationBatchID sha b0\<rparr>
          in (case ValidateClassificationBatch u sha b of Inl e \<Rightarrow> Inl e | Inr _ \<Rightarrow> Inr b))"

end
