(* ===== verification/PolicyData.thy ===== *)
theory PolicyData imports FpClassify begin

text \<open>
  The documents of the policy engine (\<^verbatim>\<open>internal/policyengine\<close>): policies, tenant overlays,
  decisions and decision batches, their JSON forms, checksums and content-derived identifiers.
  Reading YAML files is not modelled; a document enters as the value it decodes to.

  Go maps are association lists, \<open>None\<close> standing for the nil map; the tests that the code makes
  while ranging over a map all fail with one error, so the order of the range is immaterial.
  \<^verbatim>\<open>named_count\<close> and \<^verbatim>\<open>doc_reference\<close> of the classifier have the shape of this package's
  \<^verbatim>\<open>NamedCount\<close> and \<^verbatim>\<open>PolicyReference\<close> and are used for them.
\<close>

section \<open>Data\<close>

type_synonym 'a gomap = "(string \<times> 'a) list option"

definition entries :: "'a gomap \<Rightarrow> (string \<times> 'a) list" where
  "entries m = (case m of None \<Rightarrow> [] | Some kvs \<Rightarrow> kvs)"

definition lookup_in :: "'a gomap \<Rightarrow> string \<Rightarrow> 'a option" where
  "lookup_in m k = map_of (entries m) k"

record score_weights =
  sw_screening :: int
  sw_countervailing :: int
  sw_release :: int

record policy_thresholds =
  pt_clear_max :: int
  pt_escalate_min :: int
  pt_min_release :: int
  pt_min_countervailing :: int

record controls =
  ct_auto_clear :: bool
  ct_escalation :: bool

record pattern_rule =
  pr_adjustment :: int
  pr_maximum :: string
  pr_reason :: string

record blocker_rule =
  br_maximum :: string
  br_reason :: string

record hint_rule =
  hr_route :: string
  hr_maximum :: string
  hr_reason :: string

record screening_policy =
  pp_schema :: string
  pp_id :: string
  pp_version :: string
  pp_checksum :: string
  pp_weights :: score_weights
  pp_thresholds :: policy_thresholds
  pp_controls :: controls
  pp_patterns :: "pattern_rule gomap"
  pp_blockers :: "blocker_rule gomap"
  pp_hints :: "hint_rule gomap"
  pp_reasons :: "string gomap"

record rule_override =
  ro_adjustment :: "int option"
  ro_maximum :: "string option"
  ro_reason :: "string option"

record overlay =
  ov_schema :: string
  ov_id :: string
  ov_version :: string
  ov_checksum :: string
  ov_tenant :: string
  ov_base :: doc_reference
  ov_weights :: "int gomap"
  ov_thresholds :: "int gomap"
  ov_controls :: "bool gomap"
  ov_patterns :: "rule_override gomap"

record overlay_reference =
  or_id :: string
  or_version :: string
  or_checksum :: string
  or_tenant :: string

record score_component =
  co_schema :: string
  co_code :: string
  co_input :: int
  co_weight :: int
  co_delta :: int
  co_detail :: string

record rule_trace =
  tr_schema :: string
  tr_rule :: string
  tr_outcome :: string
  tr_detail :: string

record decision =
  de_schema :: string
  de_id :: string
  de_classification :: classification
  de_engine :: string
  de_policy :: doc_reference
  de_overlay :: "overlay_reference option"
  de_components :: "score_component list"
  de_before_clamp :: int
  de_score :: int
  de_disposition :: string
  de_route :: string
  de_blockers :: "string list"
  de_required :: "string list"
  de_reasons :: "string list"
  de_thresholds :: policy_thresholds
  de_trace :: "rule_trace list"

text \<open>A nil slice of counts is \<open>None\<close>: the summary is compared with \<^verbatim>\<open>reflect.DeepEqual\<close>.\<close>

record decision_summary =
  ds_total :: int
  ds_dispositions :: "named_count list option"
  ds_routes :: "named_count list option"
  ds_reasons :: "named_count list option"
  ds_blockers :: "named_count list option"

record decision_batch =
  db_schema :: string
  db_id :: string
  db_input :: string
  db_engine :: string
  db_policy :: doc_reference
  db_overlay :: "overlay_reference option"
  db_summary :: decision_summary
  db_decisions :: "decision list"

datatype rule_problem = RuleAdjustment | RuleDisposition | RuleRoute | RuleReason

datatype policy_error =
    PoSchema | PoField | PoWeight | PoThresholds | PoMinimum | PoPatternMissing string | PoPattern rule_problem
  | PoBlocker rule_problem | PoHintMissing string | PoHint string rule_problem | PoReason string | PoChecksum

datatype overlay_error =
    OvSchema | OvField | OvBase | OvWeight | OvThreshold | OvControl | OvPattern | OvChecksum | OvEffective

datatype decision_error =
    DeSchema | DeId | DeEngine | DeClassification classification_error | DeScore | DeDisposition | DeRoute
  | DeIncomplete | DeOrder | DeDigest

datatype batch_error =
    DbSchema | DbIds | DbEngine | DbEmpty | DbDecision nat decision_error | DbLineage nat | DbSummary | DbDigest

datatype engine_error =
    EnPolicy policy_error | EnOverlay overlay_error | EnInput fp_error | EnOutput batch_error

section \<open>Serialised forms and digests\<close>

definition gomap_json :: "('a \<Rightarrow> json) \<Rightarrow> 'a gomap \<Rightarrow> json" where
  "gomap_json f m = (case m of None \<Rightarrow> JNull
     | Some kvs \<Rightarrow> JObj (map (\<lambda>k. (k, f (the (map_of kvs k)))) (sorted_set (map fst kvs))))"

definition thresholds_json :: "policy_thresholds \<Rightarrow> json" where
  "thresholds_json t = JObj (fld ''clear_maximum'' (JInt (pt_clear_max t))
     @ fld ''escalate_minimum'' (JInt (pt_escalate_min t))
     @ fld ''minimum_release_support_for_clear'' (JInt (pt_min_release t))
     @ fld ''minimum_countervailing_for_escalate'' (JInt (pt_min_countervailing t)))"

definition policy_ref_json :: "doc_reference \<Rightarrow> json" where
  "policy_ref_json = reference_json ''policy_id'' ''policy_version'' ''policy_checksum''"

definition screening_policy_json :: "screening_policy \<Rightarrow> json" where
  "screening_policy_json p = JObj (fld ''schema_version'' (JStr (pp_schema p)) @ fld ''policy_id'' (JStr (pp_id p))
     @ fld ''policy_version'' (JStr (pp_version p)) @ fld ''policy_checksum'' (JStr (pp_checksum p))
     @ fld ''weights_basis_points'' (let w = pp_weights p in JObj (fld ''screening_score'' (JInt (sw_screening w))
         @ fld ''countervailing_support'' (JInt (sw_countervailing w)) @ fld ''release_support'' (JInt (sw_release w))))
     @ fld ''thresholds_basis_points'' (thresholds_json (pp_thresholds p))
     @ fld ''controls'' (let c = pp_controls p in JObj (fld ''allow_auto_clear'' (JBool (ct_auto_clear c))
         @ fld ''allow_escalation'' (JBool (ct_escalation c))))
     @ fld ''pattern_rules'' (gomap_json (\<lambda>r. JObj (fld ''score_adjustment_basis_points'' (JInt (pr_adjustment r))
         @ fld ''maximum_disposition'' (JStr (pr_maximum r)) @ fld ''reason_code'' (JStr (pr_reason r)))) (pp_patterns p))
     @ fld ''blocker_rules'' (gomap_json (\<lambda>r. JObj (fld ''maximum_disposition'' (JStr (br_maximum r))
         @ fld ''reason_code'' (JStr (br_reason r)))) (pp_blockers p))
     @ fld ''route_hint_rules'' (gomap_json (\<lambda>r. JObj (fld ''review_route'' (JStr (hr_route r))
         @ fld ''maximum_disposition'' (JStr (hr_maximum r)) @ fld ''reason_code'' (JStr (hr_reason r)))) (pp_hints p))
     @ fld ''reason_codes'' (gomap_json JStr (pp_reasons p)))"

definition overlay_json :: "overlay \<Rightarrow> json" where
  "overlay_json v = JObj (fld ''schema_version'' (JStr (ov_schema v)) @ fld ''overlay_id'' (JStr (ov_id v))
     @ fld ''overlay_version'' (JStr (ov_version v)) @ fld ''overlay_checksum'' (JStr (ov_checksum v))
     @ fld ''tenant_id'' (JStr (ov_tenant v)) @ fld ''base_policy'' (policy_ref_json (ov_base v))
     @ opt ''weight_overrides_basis_points'' (entries (ov_weights v) = []) (gomap_json JInt (ov_weights v))
     @ opt ''threshold_overrides_basis_points'' (entries (ov_thresholds v) = []) (gomap_json JInt (ov_thresholds v))
     @ opt ''control_overrides'' (entries (ov_controls v) = []) (gomap_json JBool (ov_controls v))
     @ opt ''pattern_rule_overrides'' (entries (ov_patterns v) = []) (gomap_json (\<lambda>r. JObj
         (opt_member ''score_adjustment_basis_points'' JInt (ro_adjustment r)
        @ opt_member ''maximum_disposition'' JStr (ro_maximum r)
        @ opt_member ''reason_code'' JStr (ro_reason r))) (ov_patterns v)))"

definition PolicyChecksum :: "(string \<Rightarrow> string) \<Rightarrow> screening_policy \<Rightarrow> string" where
  "PolicyChecksum sha p = digest_json sha (screening_policy_json (p\<lparr>pp_checksum := []\<rparr>))"

definition OverlayChecksum :: "(string \<Rightarrow> string) \<Rightarrow> overlay \<Rightarrow> string" where
  "OverlayChecksum sha v = digest_json sha (overlay_json (v\<lparr>ov_checksum := []\<rparr>))"

definition policy_ref :: "screening_policy \<Rightarrow> doc_reference" where
  "policy_ref p = \<lparr>dr_id = pp_id p, dr_version = pp_version p, dr_checksum = pp_checksum p\<rparr>"

definition overlay_ref :: "overlay \<Rightarrow> overlay_reference" where
  "overlay_ref v = \<lparr>or_id = ov_id v, or_version = ov_version v, or_checksum = ov_checksum v, or_tenant = ov_tenant v\<rparr>"

definition overlay_ref_json :: "overlay_reference \<Rightarrow> json" where
  "overlay_ref_json r = JObj (fld ''overlay_id'' (JStr (or_id r)) @ fld ''overlay_version'' (JStr (or_version r))
     @ fld ''overlay_checksum'' (JStr (or_checksum r)) @ fld ''tenant_id'' (JStr (or_tenant r)))"

definition decision_json :: "decision \<Rightarrow> json" where
  "decision_json d = JObj (fld ''schema_version'' (JStr (de_schema d)) @ fld ''decision_id'' (JStr (de_id d))
     @ fld ''classification'' (classification_json (de_classification d)) @ fld ''engine_version'' (JStr (de_engine d))
     @ fld ''policy'' (policy_ref_json (de_policy d)) @ opt_member ''overlay'' overlay_ref_json (de_overlay d)
     @ fld ''score_components'' (JArr (map (\<lambda>c. JObj (fld ''schema_version'' (JStr (co_schema c))
         @ fld ''code'' (JStr (co_code c)) @ fld ''input_basis_points'' (JInt (co_input c))
         @ fld ''weight_or_adjustment_basis_points'' (JInt (co_weight c))
         @ fld ''delta_basis_points'' (JInt (co_delta c)) @ fld ''detail'' (JStr (co_detail c)))) (de_components d)))
     @ fld ''score_before_clamp_basis_points'' (JInt (de_before_clamp d))
     @ fld ''policy_score_basis_points'' (JInt (de_score d)) @ fld ''disposition'' (JStr (de_disposition d))
     @ fld ''review_route'' (JStr (de_route d)) @ opts ''escalation_blockers'' (de_blockers d)
     @ opts ''required_evidence'' (de_required d) @ fld ''reason_codes'' (jstrs (de_reasons d))
     @ fld ''thresholds_applied_basis_points'' (thresholds_json (de_thresholds d))
     @ fld ''rule_trace'' (JArr (map (\<lambda>t. JObj (fld ''schema_version'' (JStr (tr_schema t))
         @ fld ''rule'' (JStr (tr_rule t)) @ fld ''outcome'' (JStr (tr_outcome t))
         @ fld ''detail'' (JStr (tr_detail t)))) (de_trace d))))"

definition stableDecisionID :: "(string \<Rightarrow> string) \<Rightarrow> decision \<Rightarrow> string" where
  "stableDecisionID sha d = digestID sha ''policy_decision_''
     [''transaction-screening-decision/v1alpha1'', marshal (decision_json (d\<lparr>de_id := []\<rparr>))]"

definition stableBatchID :: "(string \<Rightarrow> string) \<Rightarrow> decision_batch \<Rightarrow> string" where
  "stableBatchID sha b = digestID sha ''policy_decision_batch_''
     ([''transaction-screening-decision-batch/v1alpha1'', db_input b, db_engine b, dr_checksum (db_policy b)]
    @ (case db_overlay b of None \<Rightarrow> [] | Some r \<Rightarrow> [or_checksum r]) @ map de_id (db_decisions b))"

end
