(* ===== verification/PolicyEngine.thy ===== *)
theory PolicyEngine imports PolicyData "HOL-Library.AList" begin

text \<open>
  The operations of the policy engine (\<^verbatim>\<open>internal/policyengine\<close>): validation of policies and
  overlays, the effective policy, the evaluation of a classification, batches and their validation.
\<close>

section \<open>Policies\<close>

definition valid_disposition :: "string \<Rightarrow> bool" where
  "valid_disposition d \<longleftrightarrow> d \<in> {''clear'', ''investigate'', ''escalate''}"

definition valid_review_route :: "string \<Rightarrow> bool" where
  "valid_review_route r \<longleftrightarrow> r \<in> {''auto_release'', ''standard_review'', ''manual_review'', ''escalation_review''}"

definition validatePatternRule :: "pattern_rule \<Rightarrow> (rule_problem, unit) result" where
  "validatePatternRule r =
     (if pr_adjustment r < -10000 \<or> pr_adjustment r > 10000 then Inl RuleAdjustment
      else if \<not> valid_disposition (pr_maximum r) then Inl RuleDisposition
      else if blank (pr_reason r) then Inl RuleReason
      else Inr ())"

fun check_required_patterns :: "pattern_rule gomap \<Rightarrow> string list \<Rightarrow> (policy_error, unit) result" where
  "check_required_patterns m [] = Inr ()"
| "check_required_patterns m (c # cs) =
     (case lookup_in m c of
        None \<Rightarrow> Inl (PoPatternMissing c)
      | Some r \<Rightarrow>
          (case validatePatternRule r of Inl e \<Rightarrow> Inl (PoPattern e) | Inr _ \<Rightarrow> check_required_patterns m cs))"

definition check_blocker :: "blocker_rule \<Rightarrow> (rule_problem, unit) result" where
  "check_blocker r =
     (if \<not> valid_disposition (br_maximum r) then Inl RuleDisposition
      else if blank (br_reason r) then Inl RuleReason else Inr ())"

definition check_hint :: "hint_rule \<Rightarrow> (rule_problem, unit) result" where
  "check_hint r =
     (if \<not> valid_disposition (hr_maximum r) then Inl RuleDisposition
      else if \<not> valid_review_route (hr_route r) then Inl RuleRoute
      else if blank (hr_reason r) then Inl RuleReason else Inr ())"

fun check_hints :: "hint_rule gomap \<Rightarrow> string list \<Rightarrow> (policy_error, unit) result" where
  "check_hints m [] = Inr ()"
| "check_hints m (h # hs) =
     (case lookup_in m h of
        None \<Rightarrow> Inl (PoHintMissing h)
      | Some r \<Rightarrow> (case check_hint r of Inl e \<Rightarrow> Inl (PoHint h e) | Inr _ \<Rightarrow> check_hints m hs))"

definition route_hints :: "string list" where
  "route_hints = [''clear_or_auto_release_eligible'', ''investigate'', ''manual_review'', ''escalation_candidate'']"

definition reason_keys :: "string list" where
  "reason_keys = [''clear'', ''investigate'', ''escalate'', ''auto_clear_disabled'', ''escalation_disabled'',
     ''threshold_score'', ''supporting_evidence_non_escalation'']"

text \<open>\<^verbatim>\<open>policy.ReasonCodes[key]\<close>: the empty string when the key is missing.\<close>

definition reason_of :: "screening_policy \<Rightarrow> string \<Rightarrow> string" where
  "reason_of p key = (case lookup_in (pp_reasons p) key of None \<Rightarrow> [] | Some r \<Rightarrow> r)"

definition ValidatePolicy :: "(string \<Rightarrow> string) \<Rightarrow> screening_policy \<Rightarrow> (policy_error, unit) result" where
  "ValidatePolicy sha p =
     (let w = pp_weights p; t = pp_thresholds p in
      if pp_schema p \<noteq> ''transaction-screening-policy/v1alpha1'' then Inl PoSchema
      else if blank (pp_id p) \<or> blank (pp_version p) \<or> blank (pp_checksum p) then Inl PoField
      else if \<not> in_bp (sw_screening w) \<or> \<not> in_bp (sw_countervailing w) \<or> \<not> in_bp (sw_release w) then Inl PoWeight
      else if \<not> in_bp (pt_clear_max t) \<or> \<not> in_bp (pt_escalate_min t) \<or> pt_clear_max t \<ge> pt_escalate_min t
      then Inl PoThresholds
      else if \<not> in_bp (pt_min_release t) \<or> \<not> in_bp (pt_min_countervailing t) then Inl PoMinimum
      else (case check_required_patterns (pp_patterns p) required_patterns of
        Inl e \<Rightarrow> Inl e
      | Inr _ \<Rightarrow> (case first_err (\<lambda>kv. validatePatternRule (snd kv)) (entries (pp_patterns p)) of
        Inl e \<Rightarrow> Inl (PoPattern e)
      | Inr _ \<Rightarrow> (case first_err (\<lambda>kv. check_blocker (snd kv)) (entries (pp_blockers p)) of
        Inl e \<Rightarrow> Inl (PoBlocker e)
      | Inr _ \<Rightarrow> (case check_hints (pp_hints p) route_hints of
        Inl e \<Rightarrow> Inl e
      | Inr _ \<Rightarrow> (case find (\<lambda>k. blank (reason_of p k)) reason_keys of
        Some k \<Rightarrow> Inl (PoReason k)
      | None \<Rightarrow> if pp_checksum p \<noteq> PolicyChecksum sha p then Inl PoChecksum else Inr ()))))))"

section \<open>Overlays\<close>

definition override_weights :: "int gomap \<Rightarrow> score_weights \<Rightarrow> score_weights" where
  "override_weights m w =
     (let w1 = (case lookup_in m ''screening_score'' of None \<Rightarrow> w | Some v \<Rightarrow> w\<lparr>sw_screening := v\<rparr>);
          w2 = (case lookup_in m ''countervailing_support'' of None \<Rightarrow> w1 | Some v \<Rightarrow> w1\<lparr>sw_countervailing := v\<rparr>)
      in case lookup_in m ''release_support'' of None \<Rightarrow> w2 | Some v \<Rightarrow> w2\<lparr>sw_release := v\<rparr>)"

definition override_thresholds :: "int gomap \<Rightarrow> policy_thresholds \<Rightarrow> policy_thresholds" where
  "override_thresholds m t =
     (let t1 = (case lookup_in m ''clear_maximum'' of None \<Rightarrow> t | Some v \<Rightarrow> t\<lparr>pt_clear_max := v\<rparr>);
          t2 = (case lookup_in m ''escalate_minimum'' of None \<Rightarrow> t1 | Some v \<Rightarrow> t1\<lparr>pt_escalate_min := v\<rparr>);
          t3 = (case lookup_in m ''minimum_release_support_for_clear'' of
                  None \<Rightarrow> t2 | Some v \<Rightarrow> t2\<lparr>pt_min_release := v\<rparr>)
      in case lookup_in m ''minimum_countervailing_for_escalate'' of
           None \<Rightarrow> t3 | Some v \<Rightarrow> t3\<lparr>pt_min_countervailing := v\<rparr>)"

definition override_controls :: "bool gomap \<Rightarrow> controls \<Rightarrow> controls" where
  "override_controls m c =
     (let c1 = (case lookup_in m ''allow_auto_clear'' of None \<Rightarrow> c | Some v \<Rightarrow> c\<lparr>ct_auto_clear := v\<rparr>)
      in case lookup_in m ''allow_escalation'' of None \<Rightarrow> c1 | Some v \<Rightarrow> c1\<lparr>ct_escalation := v\<rparr>)"

definition zero_rule :: pattern_rule where
  "zero_rule = \<lparr>pr_adjustment = 0, pr_maximum = [], pr_reason = []\<rparr>"

definition override_rule :: "rule_override \<Rightarrow> pattern_rule \<Rightarrow> pattern_rule" where
  "override_rule v r =
     (let r1 = (case ro_adjustment v of None \<Rightarrow> r | Some a \<Rightarrow> r\<lparr>pr_adjustment := a\<rparr>);
          r2 = (case ro_maximum v of None \<Rightarrow> r1 | Some d \<Rightarrow> r1\<lparr>pr_maximum := d\<rparr>)
      in case ro_reason v of None \<Rightarrow> r2 | Some c \<Rightarrow> r2\<lparr>pr_reason := c\<rparr>)"

definition pattern_rule_of :: "(string \<times> pattern_rule) list \<Rightarrow> string \<Rightarrow> pattern_rule" where
  "pattern_rule_of m code = (case map_of m code of None \<Rightarrow> zero_rule | Some r \<Rightarrow> r)"

fun override_patterns :: "(string \<times> rule_override) list \<Rightarrow> (string \<times> pattern_rule) list \<Rightarrow> (string \<times> pattern_rule) list"
where
  "override_patterns [] m = m"
| "override_patterns ((code, v) # vs) m =
     override_patterns vs (AList.update code (override_rule v (pattern_rule_of m code)) m)"

definition ApplyOverlay :: "screening_policy \<Rightarrow> overlay \<Rightarrow> screening_policy" where
  "ApplyOverlay base v = base\<lparr>
     pp_weights := override_weights (ov_weights v) (pp_weights base),
     pp_thresholds := override_thresholds (ov_thresholds v) (pp_thresholds base),
     pp_controls := override_controls (ov_controls v) (pp_controls base),
     pp_patterns := Some (override_patterns (entries (ov_patterns v)) (entries (pp_patterns base))),
     pp_blockers := Some (entries (pp_blockers base)), pp_hints := Some (entries (pp_hints base)),
     pp_reasons := Some (entries (pp_reasons base))\<rparr>"

definition check_override :: "screening_policy \<Rightarrow> string \<times> rule_override \<Rightarrow> (overlay_error, unit) result" where
  "check_override base kv =
     (let v = snd kv in
      if lookup_in (pp_patterns base) (fst kv) = None then Inl OvPattern
      else if case ro_adjustment v of None \<Rightarrow> False | Some a \<Rightarrow> a < -10000 \<or> a > 10000 then Inl OvPattern
      else if case ro_maximum v of None \<Rightarrow> False | Some d \<Rightarrow> \<not> valid_disposition d then Inl OvPattern
      else if case ro_reason v of None \<Rightarrow> False | Some c \<Rightarrow> blank c then Inl OvPattern
      else Inr ())"

definition ValidateOverlay :: "(string \<Rightarrow> string) \<Rightarrow> overlay \<Rightarrow> screening_policy \<Rightarrow> (overlay_error, unit) result" where
  "ValidateOverlay sha v base =
     (if ov_schema v \<noteq> ''tenant-policy-overlay/v1alpha1'' then Inl OvSchema
      else if blank (ov_id v) \<or> blank (ov_version v) \<or> blank (ov_checksum v) \<or> blank (ov_tenant v) then Inl OvField
      else if ov_base v \<noteq> policy_ref base then Inl OvBase
      else if \<exists>kv \<in> set (entries (ov_weights v)).
          fst kv \<notin> {''screening_score'', ''countervailing_support'', ''release_support''} \<or> \<not> in_bp (snd kv)
      then Inl OvWeight
      else if \<exists>kv \<in> set (entries (ov_thresholds v)).
          fst kv \<notin> {''clear_maximum'', ''escalate_minimum'', ''minimum_release_support_for_clear'',
            ''minimum_countervailing_for_escalate''} \<or> \<not> in_bp (snd kv)
      then Inl OvThreshold
      else if \<exists>kv \<in> set (entries (ov_controls v)). fst kv \<notin> {''allow_auto_clear'', ''allow_escalation''}
      then Inl OvControl
      else (case first_err (check_override base) (entries (ov_patterns v)) of
        Inl e \<Rightarrow> Inl e
      | Inr _ \<Rightarrow>
          if ov_checksum v \<noteq> OverlayChecksum sha v then Inl OvChecksum
          else (let t = pp_thresholds (ApplyOverlay base v) in
            if pt_clear_max t \<ge> pt_escalate_min t then Inl OvEffective else Inr ())))"

section \<open>Evaluation\<close>

record engine =
  eg_base :: screening_policy
  eg_effective :: screening_policy
  eg_overlay :: "overlay option"

definition NewPolicyEngine ::
  "(string \<Rightarrow> string) \<Rightarrow> screening_policy \<Rightarrow> overlay option \<Rightarrow> (engine_error, engine) result" where
  "NewPolicyEngine sha p ov =
     (case ValidatePolicy sha p of
        Inl e \<Rightarrow> Inl (EnPolicy e)
      | Inr _ \<Rightarrow>
          (case ov of
             None \<Rightarrow> Inr \<lparr>eg_base = p, eg_effective = p, eg_overlay = None\<rparr>
           | Some v \<Rightarrow>
               (case ValidateOverlay sha v p of
                  Inl e \<Rightarrow> Inl (EnOverlay e)
                | Inr _ \<Rightarrow> Inr \<lparr>eg_base = p, eg_effective = ApplyOverlay p v, eg_overlay = Some v\<rparr>)))"


text \<open>The variables of \<^verbatim>\<open>evaluate\<close> that its loops and closures update.\<close>

record eval_state =
  es_score :: int
  es_components :: "score_component list"
  es_trace :: "rule_trace list"
  es_reasons :: "string list"
  es_maximum :: string

definition dispositionRank :: "string \<Rightarrow> int" where
  "dispositionRank d = (if d = ''clear'' then 0 else if d = ''investigate'' then 1 else if d = ''escalate'' then 2 else -1)"

definition minDisposition :: "string \<Rightarrow> string \<Rightarrow> string" where
  "minDisposition a b = (if dispositionRank a < dispositionRank b then a else b)"

definition mk_component :: "string \<Rightarrow> int \<Rightarrow> int \<Rightarrow> int \<Rightarrow> string \<Rightarrow> score_component" where
  "mk_component code input weight delta detail = \<lparr>co_schema = ''policy-score-component/v1alpha1'', co_code = code,
     co_input = input, co_weight = weight, co_delta = delta, co_detail = detail\<rparr>"

definition mk_trace :: "string \<Rightarrow> string \<Rightarrow> string \<Rightarrow> rule_trace" where
  "mk_trace rule outcome detail = \<lparr>tr_schema = ''policy-rule-trace/v1alpha1'', tr_rule = rule,
     tr_outcome = outcome, tr_detail = detail\<rparr>"

definition weighted_delta :: "int \<Rightarrow> int \<Rightarrow> int \<Rightarrow> int" where
  "weighted_delta input weight sign = wrap64 (quot64 (wrap64 (input * weight)) 10000 * sign)"

definition addWeighted :: "string \<Rightarrow> int \<Rightarrow> int \<Rightarrow> int \<Rightarrow> string \<Rightarrow> eval_state \<Rightarrow> eval_state" where
  "addWeighted code input weight sign detail st =
     (let delta = weighted_delta input weight sign in
      st\<lparr>es_score := wrap64 (es_score st + delta),
         es_components := es_components st @ [mk_component code input (wrap64 (weight * sign)) delta detail]\<rparr>)"

definition pattern_step :: "screening_policy \<Rightarrow> eval_state \<Rightarrow> pattern_evidence \<Rightarrow> eval_state" where
  "pattern_step p st e =
     (let r = pattern_rule_of (entries (pp_patterns p)) (pe_code e); delta = pr_adjustment r in
      st\<lparr>es_score := wrap64 (es_score st + delta),
         es_components := es_components st @ [mk_component (''pattern:'' @ pe_code e) (pe_strength e) delta delta
           ''configured false-positive pattern adjustment''],
         es_reasons := es_reasons st @ [pr_reason r],
         es_maximum := minDisposition (es_maximum st) (pr_maximum r),
         es_trace := es_trace st @ [mk_trace (''pattern_rule:'' @ pe_code e) ''applied''
           (''adjustment='' @ decimal_int delta @ '' maximum_disposition='' @ pr_maximum r)]\<rparr>)"

definition blocker_step :: "screening_policy \<Rightarrow> eval_state \<Rightarrow> string \<Rightarrow> eval_state" where
  "blocker_step p st b =
     (case lookup_in (pp_blockers p) b of
        None \<Rightarrow> st
      | Some r \<Rightarrow> st\<lparr>es_maximum := minDisposition (es_maximum st) (br_maximum r),
          es_reasons := es_reasons st @ [br_reason r],
          es_trace := es_trace st @ [mk_trace (''blocker_rule:'' @ b) ''applied''
            (''maximum_disposition='' @ br_maximum r)]\<rparr>)"

definition zero_hint :: hint_rule where
  "zero_hint = \<lparr>hr_route = [], hr_maximum = [], hr_reason = []\<rparr>"

definition hint_rule_of :: "screening_policy \<Rightarrow> string \<Rightarrow> hint_rule" where
  "hint_rule_of p h = (case lookup_in (pp_hints p) h of None \<Rightarrow> zero_hint | Some r \<Rightarrow> r)"

definition hint_step :: "screening_policy \<Rightarrow> string \<Rightarrow> eval_state \<Rightarrow> eval_state" where
  "hint_step p h st =
     (let r = hint_rule_of p h in
      st\<lparr>es_maximum := minDisposition (es_maximum st) (hr_maximum r),
         es_reasons := es_reasons st @ [hr_reason r],
         es_trace := es_trace st @ [mk_trace (''route_hint:'' @ h) ''applied'' (''review_route='' @ hr_route r)]\<rparr>)"

text \<open>Everything up to the clamp: weighted evidence, patterns by code, blockers, the route hint.\<close>

definition accumulate :: "screening_policy \<Rightarrow> classification \<Rightarrow> eval_state" where
  "accumulate p c =
     (let w = pp_weights p;
          s0 = \<lparr>es_score = 0, es_components = [], es_trace = [], es_reasons = [], es_maximum = ''escalate''\<rparr>;
          s1 = addWeighted ''screening_score'' (fo_score (cl_observation c)) (sw_screening w) 1
                 ''weighted matcher screening score'' s0;
          s2 = addWeighted ''countervailing_support'' (su_countervailing (cl_summary c)) (sw_countervailing w) 1
                 ''weighted primary or secondary countervailing evidence'' s1;
          s3 = addWeighted ''release_support'' (su_release (cl_summary c)) (sw_release w) (-1)
                 ''weighted false-positive release support'' s2;
          s4 = foldl (pattern_step p) s3 (sort_by evidence_less (cl_patterns c));
          s5 = foldl (blocker_step p) s4 (cl_blockers c)
      in hint_step p (cl_route c) s5)"

definition clamp_bp :: "int \<Rightarrow> int" where
  "clamp_bp score = (let s = (if score < 0 then 0 else score) in if s > 10000 then 10000 else s)"

definition escalation_allowed :: "screening_policy \<Rightarrow> classification \<Rightarrow> string \<Rightarrow> bool" where
  "escalation_allowed p c maximum \<longleftrightarrow>
     ct_escalation (pp_controls p) \<and> fo_trigger (cl_observation c) = ''candidate_alert''
     \<and> su_countervailing (cl_summary c) \<ge> pt_min_countervailing (pp_thresholds p)
     \<and> cl_blockers c = [] \<and> dispositionRank maximum \<ge> dispositionRank ''escalate''"

definition clear_allowed :: "screening_policy \<Rightarrow> classification \<Rightarrow> string \<Rightarrow> int \<Rightarrow> bool" where
  "clear_allowed p c maximum score \<longleftrightarrow>
     ct_auto_clear (pp_controls p) \<and> cl_route c = ''clear_or_auto_release_eligible''
     \<and> su_release (cl_summary c) \<ge> pt_min_release (pp_thresholds p)
     \<and> score \<le> pt_clear_max (pp_thresholds p) \<and> dispositionRank maximum \<ge> dispositionRank ''clear''"

text \<open>What the gates decide: disposition, review route, further reasons, blockers and trace.\<close>

record gate_result =
  gr_disposition :: string
  gr_route :: string
  gr_reasons :: "string list"
  gr_blockers :: "string list"
  gr_trace :: "rule_trace list"

definition clear_gate :: "screening_policy \<Rightarrow> classification \<Rightarrow> string \<Rightarrow> int \<Rightarrow> gate_result" where
  "clear_gate p c maximum score =
     (if clear_allowed p c maximum score then
        \<lparr>gr_disposition = ''clear'', gr_route = ''auto_release'', gr_reasons = [reason_of p ''clear''], gr_blockers = [],
         gr_trace = [mk_trace ''clear_gate'' ''pass'' ''release support and score requirements satisfied'']\<rparr>
      else
        (let disabled = (\<not> ct_auto_clear (pp_controls p) \<and> cl_route c = ''clear_or_auto_release_eligible'') in
         \<lparr>gr_disposition = ''investigate'',
          gr_route = (if cl_route c = ''manual_review'' then ''manual_review'' else ''standard_review''),
          gr_reasons = [reason_of p ''investigate'', reason_of p ''threshold_score'']
            @ (if disabled then [reason_of p ''auto_clear_disabled''] else []),
          gr_blockers = (if disabled then [''policy_auto_clear_disabled''] else []),
          gr_trace = [mk_trace ''clear_gate'' ''fail'' (''score='' @ decimal_int score
            @ '' threshold='' @ decimal_int (pt_clear_max (pp_thresholds p))
            @ '' release_support='' @ decimal_int (su_release (cl_summary c)) @ '' route_hint='' @ cl_route c)]\<rparr>))"

definition gates :: "screening_policy \<Rightarrow> classification \<Rightarrow> string \<Rightarrow> int \<Rightarrow> gate_result" where
  "gates p c maximum score =
     (if score \<ge> pt_escalate_min (pp_thresholds p) \<and> escalation_allowed p c maximum then
        \<lparr>gr_disposition = ''escalate'', gr_route = ''escalation_review'', gr_reasons = [reason_of p ''escalate''],
         gr_blockers = [],
         gr_trace = [mk_trace ''escalation_gate'' ''pass'' ''score and primary-evidence requirements satisfied'']\<rparr>
      else
        (let disabled = \<not> ct_escalation (pp_controls p); g = clear_gate p c maximum score in
         g\<lparr>gr_reasons := (if disabled then [reason_of p ''escalation_disabled''] else []) @ gr_reasons g,
           gr_blockers := (if disabled then [''policy_escalation_disabled''] else []) @ gr_blockers g,
           gr_trace := mk_trace ''escalation_gate'' ''fail'' (''score='' @ decimal_int score
             @ '' threshold='' @ decimal_int (pt_escalate_min (pp_thresholds p))
             @ '' countervailing='' @ decimal_int (su_countervailing (cl_summary c))
             @ '' blockers='' @ decimal_int (int (length (cl_blockers c))) @ '' maximum='' @ maximum) # gr_trace g\<rparr>))"

text \<open>This package's \<^verbatim>\<open>canonicalStrings\<close> sorts and drops empty and repeated strings, without trimming.\<close>

definition policy_canonicalStrings :: "string list \<Rightarrow> string list" where
  "policy_canonicalStrings values = remdups_adj (filter (\<lambda>v. v \<noteq> []) (sort values))"

definition evaluate :: "(string \<Rightarrow> string) \<Rightarrow> engine \<Rightarrow> classification \<Rightarrow> decision" where
  "evaluate sha e c =
     (let p = eg_effective e; st = accumulate p c; score = clamp_bp (es_score st);
          g = gates p c (es_maximum st) score;
          d = \<lparr>de_schema = ''transaction-screening-decision/v1alpha1'', de_id = [], de_classification = c,
               de_engine = ''transaction-policy-engine/v0.1.0'', de_policy = policy_ref (eg_base e),
               de_overlay = map_option overlay_ref (eg_overlay e), de_components = es_components st,
               de_before_clamp = es_score st, de_score = score, de_disposition = gr_disposition g,
               de_route = gr_route g, de_blockers = policy_canonicalStrings (cl_blockers c @ gr_blockers g),
               de_required = policy_canonicalStrings (cl_required c),
               de_reasons = policy_canonicalStrings (es_reasons st @ gr_reasons g
                 @ (if fo_trigger (cl_observation c) = ''supporting_evidence''
                    then [reason_of p ''supporting_evidence_non_escalation''] else [])),
               de_thresholds = pp_thresholds p,
               de_trace = es_trace st
                 @ [mk_trace ''score_clamp'' ''applied''
                     (''before='' @ decimal_int (es_score st) @ '' after='' @ decimal_int score)]
                 @ gr_trace g\<rparr>
      in d\<lparr>de_id := stableDecisionID sha d\<rparr>)"

section \<open>Batches\<close>

definition summarize :: "decision list \<Rightarrow> decision_summary" where
  "summarize ds = \<lparr>ds_total = int (length ds),
     ds_dispositions = Some (count_names (map de_disposition ds)), ds_routes = Some (count_names (map de_route ds)),
     ds_reasons = Some (count_names (concat (map de_reasons ds))),
     ds_blockers = Some (count_names (concat (map de_blockers ds)))\<rparr>"

definition ValidateDecision ::
  "unicode \<Rightarrow> (string \<Rightarrow> string) \<Rightarrow> decision \<Rightarrow> (decision_error, unit) result" where
  "ValidateDecision u sha d =
     (if de_schema d \<noteq> ''transaction-screening-decision/v1alpha1'' then Inl DeSchema
      else if de_id d = [] then Inl DeId
      else if de_engine d \<noteq> ''transaction-policy-engine/v0.1.0'' then Inl DeEngine
      else (case ValidateClassification u sha (de_classification d) of
        Inl e \<Rightarrow> Inl (DeClassification e)
      | Inr _ \<Rightarrow>
          if \<not> in_bp (de_score d) then Inl DeScore
          else if \<not> valid_disposition (de_disposition d) then Inl DeDisposition
          else if \<not> valid_review_route (de_route d) then Inl DeRoute
          else if length (de_components d) < 3 \<or> de_trace d = [] \<or> de_reasons d = [] then Inl DeIncomplete
          else if \<not> sorted (de_reasons d) \<or> \<not> sorted (de_blockers d) \<or> \<not> sorted (de_required d) then Inl DeOrder
          else if de_id d \<noteq> stableDecisionID sha d then Inl DeDigest
          else Inr ()))"

fun check_decisions ::
  "unicode \<Rightarrow> (string \<Rightarrow> string) \<Rightarrow> decision_batch \<Rightarrow> nat \<Rightarrow> decision list \<Rightarrow> (batch_error, unit) result"
where
  "check_decisions u sha b i [] = Inr ()"
| "check_decisions u sha b i (d # ds) =
     (case ValidateDecision u sha d of
        Inl e \<Rightarrow> Inl (DbDecision i e)
      | Inr _ \<Rightarrow>
          if de_policy d \<noteq> db_policy b \<or> de_overlay d \<noteq> db_overlay b then Inl (DbLineage i)
          else check_decisions u sha b (Suc i) ds)"

definition ValidateDecisionBatch ::
  "unicode \<Rightarrow> (string \<Rightarrow> string) \<Rightarrow> decision_batch \<Rightarrow> (batch_error, unit) result" where
  "ValidateDecisionBatch u sha b =
     (if db_schema b \<noteq> ''transaction-screening-decision-batch/v1alpha1'' then Inl DbSchema
      else if db_id b = [] \<or> db_input b = [] then Inl DbIds
      else if db_engine b \<noteq> ''transaction-policy-engine/v0.1.0'' then Inl DbEngine
      else if db_decisions b = [] then Inl DbEmpty
      else (case check_decisions u sha b 0 (db_decisions b) of
        Inl e \<Rightarrow> Inl e
      | Inr _ \<Rightarrow>
          if db_summary b \<noteq> summarize (db_decisions b) then Inl DbSummary
          else if db_id b \<noteq> stableBatchID sha b then Inl DbDigest
          else Inr ()))"

definition EvaluateBatch ::
  "unicode \<Rightarrow> (string \<Rightarrow> string) \<Rightarrow> engine \<Rightarrow> classification_batch \<Rightarrow> (engine_error, decision_batch) result" where
  "EvaluateBatch u sha e input =
     (case ValidateClassificationBatch u sha input of
        Inl x \<Rightarrow> Inl (EnInput x)
      | Inr _ \<Rightarrow>
          (let ds = map (evaluate sha e) (cb_items input);
               b0 = \<lparr>db_schema = ''transaction-screening-decision-batch/v1alpha1'', db_id = [], db_input = cb_id input,
                     db_engine = ''transaction-policy-engine/v0.1.0'', db_policy = policy_ref (eg_base e),
                     db_overlay = map_option overlay_ref (eg_overlay e), db_summary = summarize ds, db_decisions = ds\<rparr>;
               b = b0\<lparr>db_id := stableBatchID sha b0\<rparr>
           in case ValidateDecisionBatch u sha b of Inl x \<Rightarrow> Inl (EnOutput x) | Inr _ \<Rightarrow> Inr b))"

end
