(* ===== verification/FpProofs.thy ===== *)
theory FpProofs imports FpClassify ScoringProps begin

text \<open>
  What validation of the library, the policy and the observations establishes, and that the
  classifier's own results pass the validation that is applied to them.
\<close>

section \<open>The normaliser\<close>

text \<open>The condition on the output length is redundant: both packages normalise alike.\<close>

lemma fp_text_loop_eq:
  "(out = [] \<Longrightarrow> space) \<Longrightarrow> fp_text_loop u out space rs = out @ encode (text_loop u space rs)"
proof (induction rs arbitrary: out space)
  case (Cons r rs)
  have sp: "encode_rune 32 = '' ''"
    by (simp add: encode_rune_def scalar_def byte_def char_of_def bit_0)
  consider "IsLetter u r \<or> IsDigit u r" | "\<not> (IsLetter u r \<or> IsDigit u r)" "\<not> space"
    | "\<not> (IsLetter u r \<or> IsDigit u r)" "space"
    by blast
  then show ?case
  proof cases
    case 1
    then show ?thesis
      using Cons.IH [of "out @ encode_rune r" False] by (simp add: encode_Cons)
  next
    case 2
    then show ?thesis
      using Cons.IH [of "out @ '' ''" True] Cons.prems by (auto simp: encode_Cons sp)
  next
    case 3
    then show ?thesis
      using Cons.IH [of out True] by simp
  qed
qed simp

lemma fp_normalizeText_eq: "fp_normalizeText u v = normalizeText u v"
  by (simp add: fp_normalizeText_def normalizeText_def fp_text_loop_eq)

section \<open>Canonical strings\<close>

lemma canonicalStrings_set: "set (canonicalStrings xs) = {s. s \<noteq> [] \<and> s \<in> TrimSpace ` set xs}"
  by (auto simp: canonicalStrings_def)

lemma canonicalStrings_fix: "(\<forall>s \<in> set xs. s \<noteq> [] \<and> TrimSpace s = s) \<Longrightarrow> canonicalStrings xs = sorted_set xs"
  unfolding canonicalStrings_def by (rule sorted_set_cong) force

lemma canonicalStrings_idem [simp]: "canonicalStrings (canonicalStrings xs) = canonicalStrings xs"
proof -
  have "\<forall>s \<in> set (canonicalStrings xs). s \<noteq> [] \<and> TrimSpace s = s"
    by (auto simp: canonicalStrings_set)
  then have "canonicalStrings (canonicalStrings xs) = sorted_set (canonicalStrings xs)"
    by (rule canonicalStrings_fix)
  then show ?thesis
    by (simp add: canonicalStrings_def)
qed

lemma canonicalStrings_Nil [simp]: "canonicalStrings [] = []"
  by (simp add: canonicalStrings_def)

section \<open>What validation establishes\<close>

lemma letter_not_blank:
  "is_lower_az (byte_of c) \<or> is_upper_az (byte_of c) \<Longrightarrow> \<not> blank (c # cs)"
  by (rule not_blank_ascii) (auto simp: go_defs IsSpace_def)

definition good_definition :: "pattern_definition \<Rightarrow> bool" where
  "good_definition d \<longleftrightarrow> \<not> blank (pd_code d) \<and> in_bp (pd_strength d) \<and> validRouteHint (pd_route d)
     \<and> pd_blockers d = canonicalStrings (pd_blockers d) \<and> pd_reasons d = canonicalStrings (pd_reasons d)"

lemma check_patterns_ok:
  "check_patterns i seen ps = Inr () \<Longrightarrow>
     (\<forall>d \<in> set ps. good_definition d) \<and> distinct (map pd_code ps) \<and> set seen \<inter> pd_code ` set ps = {}"
  by (induction i seen ps rule: check_patterns.induct) (auto simp: good_definition_def split: if_splits)

definition good_library :: "pattern_library \<Rightarrow> bool" where
  "good_library l \<longleftrightarrow> (\<forall>d \<in> set (pl_patterns l). good_definition d) \<and> distinct (map pd_code (pl_patterns l))
     \<and> sorted (map pd_code (pl_patterns l)) \<and> \<not> blank (pl_id l) \<and> \<not> blank (pl_version l) \<and> \<not> blank (pl_checksum l)"

lemma ValidatePatternLibrary_ok: "ValidatePatternLibrary sha l = Inr () \<Longrightarrow> good_library l"
  by (auto simp: ValidatePatternLibrary_def good_library_def dest: check_patterns_ok split: if_splits sum.splits)

text \<open>The binary search finds what a linear search would.\<close>

lemma lookup_pattern_find:
  "good_library l \<Longrightarrow> lookup_pattern l code = find (\<lambda>d. pd_code d = code) (pl_patterns l)"
  using Search_key [of pd_code "pl_patterns l" "Search (length (pl_patterns l)) (\<lambda>i. code \<le> pd_code (pl_patterns l ! i))" code]
  by (simp add: lookup_pattern_def good_library_def Let_def)

definition good_rule :: "countervailing_rule \<Rightarrow> bool" where
  "good_rule r \<longleftrightarrow> validEvidenceClass (cv_class r) \<and> \<not> blank (cv_signal r) \<and> in_bp (cv_strength r)
     \<and> (cv_eligible r \<longrightarrow> cv_class r = ''primary_identifier'') \<and> isTypedExactRoute (cv_route r)"

lemma validateCountervailingRule_ok:
  "validateCountervailingRule r = Inr () \<Longrightarrow> isTypedExactRoute (cv_route r) \<Longrightarrow> good_rule r"
  unfolding validateCountervailingRule_def good_rule_def by (simp split: if_splits)

lemma check_rules_ok:
  "check_rules i seen rs = Inr () \<Longrightarrow>
     (\<forall>r \<in> set rs. good_rule r) \<and> distinct (map cv_route rs) \<and> set seen \<inter> cv_route ` set rs = {}"
proof (induction i seen rs rule: check_rules.induct)
  case (2 i seen r rs)
  have t: "isTypedExactRoute (cv_route r)" "cv_route r \<notin> set seen"
    using "2.prems" by (auto split: if_splits)
  have v: "validateCountervailingRule r = Inr ()"
    using "2.prems" t by (simp split: sum.splits)
  have "check_rules (Suc i) (cv_route r # seen) rs = Inr ()"
    using "2.prems" t v by simp
  then show ?case
    using "2.IH" [of "()"] t v validateCountervailingRule_ok by auto
qed simp

definition good_cv :: "countervailing_policy \<Rightarrow> bool" where
  "good_cv p \<longleftrightarrow> (\<forall>r \<in> set (cp_rules p). good_rule r) \<and> distinct (map cv_route (cp_rules p))
     \<and> sorted (map cv_route (cp_rules p)) \<and> \<not> blank (cp_id p) \<and> \<not> blank (cp_version p) \<and> \<not> blank (cp_checksum p)
     \<and> sr_class (cp_secondary p) = ''secondary_support'' \<and> \<not> blank (sr_signal (cp_secondary p))
     \<and> in_bp (sr_strength (cp_secondary p)) \<and> \<not> sr_eligible (cp_secondary p)"

lemma ValidateCountervailingPolicy_ok: "ValidateCountervailingPolicy sha p = Inr () \<Longrightarrow> good_cv p"
  by (auto simp: ValidateCountervailingPolicy_def good_cv_def Let_def dest: check_rules_ok
      split: if_splits sum.splits option.splits)

lemma exactRouteRule_find:
  assumes "good_cv p"
  shows "exactRouteRule p route trigger =
     (case find (\<lambda>r. cv_route r = route) (cp_rules p) of
        None \<Rightarrow> None | Some r \<Rightarrow> if trigger \<in> set (cv_triggers r) then Some r else None)"
proof -
  define i where "i = Search (length (cp_rules p)) (\<lambda>i. route \<le> cv_route (cp_rules p ! i))"
  have "find (\<lambda>r. cv_route r = route) (cp_rules p)
      = (if i < length (cp_rules p) \<and> cv_route (cp_rules p ! i) = route then Some (cp_rules p ! i) else None)"
    using Search_key [of cv_route "cp_rules p" i route] assms by (simp add: good_cv_def i_def)
  then show ?thesis
    by (auto simp: exactRouteRule_def Let_def i_def [symmetric])
qed

lemma NewClassifier_ok:
  assumes "NewClassifier sha l p = Inr cfg"
  shows "cfg = (l, p)" "good_library l" "good_cv p" "c \<in> set required_patterns \<Longrightarrow> lookup_pattern l c \<noteq> None"
  using assms ValidatePatternLibrary_ok [of sha l] ValidateCountervailingPolicy_ok [of sha p]
  by (auto simp: NewClassifier_def find_None_iff split: sum.splits option.splits)

section \<open>Classifications validate\<close>

lemma hits_facts:
  assumes "(c, d) \<in> set (pattern_hits u x)"
  shows "c \<in> set required_patterns \<and> \<not> blank c \<and> \<not> blank d"
proof -
  have "c \<in> set required_patterns \<and> \<not> blank d"
    using assms unfolding pattern_hits_def
    by (auto simp: required_patterns_def wrongFieldDataType_def letter_not_blank byte_of_def go_defs split: if_splits)
  moreover have "\<forall>c \<in> set required_patterns. \<not> blank c"
    by (simp add: required_patterns_def letter_not_blank byte_of_def go_defs)
  ultimately show ?thesis
    by blast
qed

lemma evidence_ok:
  assumes "good_library l" and "lookup_pattern l c \<noteq> None" and "\<not> blank c" and "\<not> blank d"
  shows "check_evidence (evidence_of l c d) = Inr ()" and "validRouteHint (pe_route (evidence_of l c d))"
proof -
  obtain p where p: "lookup_pattern l c = Some p"
    using assms(2) by blast
  then have "p \<in> set (pl_patterns l)"
    using lookup_pattern_find [OF assms(1)] by (auto simp: find_Some_iff)
  then have "good_definition p"
    using assms(1) by (simp add: good_library_def)
  then show "check_evidence (evidence_of l c d) = Inr ()" "validRouteHint (pe_route (evidence_of l c d))"
    using assms(3,4) p by (simp_all add: check_evidence_def evidence_of_def good_definition_def)
qed

lemma patterns_ok:
  assumes "good_library l" and "\<forall>c \<in> set required_patterns. lookup_pattern l c \<noteq> None"
  shows "slice_sorted evidence_less (classify_patterns u l x)"
    and "first_err check_evidence (classify_patterns u l x) = Inr ()"
proof -
  show "slice_sorted evidence_less (classify_patterns u l x)"
    unfolding classify_patterns_def by (rule slice_sorted_if_no_inversion) (rule evidences.sort_by_no_inversion)
  show "first_err check_evidence (classify_patterns u l x) = Inr ()"
    using hits_facts evidence_ok(1) [OF assms(1)] assms(2)
    by (auto simp: first_err_ok classify_patterns_def)
qed

lemma signals_iff:
  "s \<in> set (countervailingSignals p x) \<longleftrightarrow>
     fo_exact x \<and> (\<exists>r. exactRouteRule p (fo_route x) (fo_trigger x) = Some r \<and> s = rule_signal x r)
     \<or> fo_secondary x \<noteq> [] \<and> s = secondary_signal p x"
  unfolding countervailingSignals_def set_sort_by set_append
  by (cases "exactRouteRule p (fo_route x) (fo_trigger x)"; cases "fo_exact x"; cases "fo_secondary x = []")
    (simp_all only: if_True if_False option.case list.set Un_iff, auto)

lemma rule_good:
  assumes "good_cv p" and "exactRouteRule p route trigger = Some r"
  shows "good_rule r" "cv_route r = route" "trigger \<in> set (cv_triggers r)"
  using assms by (auto simp: exactRouteRule_find [OF assms(1)] good_cv_def find_Some_iff split: option.splits if_splits)

lemma signals_ok:
  assumes "good_cv p"
  shows "slice_sorted signal_less (countervailingSignals p x)"
    and "first_err check_signal (countervailingSignals p x) = Inr ()"
proof -
  show "slice_sorted signal_less (countervailingSignals p x)"
    unfolding countervailingSignals_def by (rule slice_sorted_if_no_inversion) (rule signals.sort_by_no_inversion)
  have "check_signal (rule_signal x r) = Inr ()" if "good_rule r" for r
    using that by (simp add: check_signal_def rule_signal_def good_rule_def letter_not_blank byte_of_def go_defs)
  moreover have "check_signal (secondary_signal p x) = Inr ()"
    using assms by (simp add: check_signal_def secondary_signal_def good_cv_def validEvidenceClass_def letter_not_blank
        byte_of_def go_defs)
  ultimately show "first_err check_signal (countervailingSignals p x) = Inr ()"
    using rule_good(1) [OF assms] by (auto simp: first_err_ok signals_iff)
qed

lemma chooseRoute_cases:
  "validRouteHint (chooseRoute ps ss trigger)"
  "chooseRoute ps ss trigger = ''escalation_candidate'' \<longleftrightarrow>
     trigger = ''candidate_alert'' \<and> hasEscalationEligibleSignal ss
     \<and> (\<forall>p \<in> set ps. pe_route p \<notin> {''clear_or_auto_release_eligible'', ''manual_review'', ''investigate''})"
  by (auto simp: chooseRoute_def Let_def validRouteHint_def hasEscalationEligibleSignal_def)

lemma classify_id: "cl_id (classify u sha l p x) = stableClassificationID sha (classify u sha l p x)"
  by (simp add: classify_def Let_def stableClassificationID_def)

lemma digest_not_blank:
  "\<not> blank (stableClassificationID sha c)" "\<not> blank (stableClassificationBatchID sha b)"
  "\<not> blank (stableObservationID sha x)" "\<not> blank (stableObservationBatchID sha ob)"
  by (simp_all add: stableClassificationID_def stableClassificationBatchID_def stableObservationID_def
      stableObservationBatchID_def digestID_def letter_not_blank byte_of_def go_defs)

lemma classify_valid:
  assumes "good_library l" and "\<forall>c \<in> set required_patterns. lookup_pattern l c \<noteq> None" and "good_cv p"
    and "ValidateObservation u sha x = Inr ()"
  shows "ValidateClassification u sha (classify u sha l p x) = Inr ()"
proof -
  let ?c = "classify u sha l p x"
  have fields: "cl_schema ?c = ''false-positive-classification/v1alpha2''" "cl_observation ?c = x"
    "cl_version ?c = ''false-positive-classifier/v0.1.1''" "cl_policy ?c = policy_reference p"
    "cl_patterns ?c = classify_patterns u l x" "cl_signals ?c = countervailingSignals p x"
    "cl_route ?c = chooseRoute (classify_patterns u l x) (countervailingSignals p x) (fo_trigger x)"
    "su_patterns (cl_summary ?c) = int (length (classify_patterns u l x))"
    "canonicalStrings (cl_blockers ?c) = cl_blockers ?c" "canonicalStrings (cl_required ?c) = cl_required ?c"
    by (simp_all add: classify_def Let_def)
  have "check_route sha ?c = Inr ()"
    using chooseRoute_cases(2) [of "classify_patterns u l x" "countervailingSignals p x" "fo_trigger x"] classify_id
    by (auto simp: check_route_def fields)
  moreover have "\<not> blank (cl_id ?c)"
    using classify_id digest_not_blank by simp
  moreover have "\<not> blank (dr_id (policy_reference p))" "\<not> blank (dr_version (policy_reference p))"
    "\<not> blank (dr_checksum (policy_reference p))"
    using assms(3) by (simp_all add: policy_reference_def good_cv_def)
  ultimately show ?thesis
    using assms patterns_ok [OF assms(1,2), of u x] signals_ok [OF assms(3), of x] chooseRoute_cases(1)
    by (simp add: ValidateClassification_def fields)
qed

lemma check_observations_ok:
  "check_observations u sha i seen xs = Inr () \<Longrightarrow>
     (\<forall>x \<in> set xs. ValidateObservation u sha x = Inr ()) \<and> distinct (map fo_id xs) \<and> set seen \<inter> fo_id ` set xs = {}"
  by (induction u sha i seen xs rule: check_observations.induct) (auto split: if_splits sum.splits)

lemma check_classifications_ok:
  assumes "\<forall>c \<in> set cs. ValidateClassification u sha c = Inr () \<and> cl_library c = cb_library b \<and> cl_policy c = cb_policy b"
  shows "check_classifications u sha b i seen cs = Inr ()
    \<or> (\<exists>c. check_classifications u sha b i seen cs = Inl (CbDuplicate c)) \<and> \<not> (distinct (map cl_id cs) \<and> set seen \<inter> cl_id ` set cs = {})"
  using assms
proof (induction cs arbitrary: i seen)
  case (Cons c cs)
  then show ?case
    using Cons.IH [of "Suc i" "cl_id c # seen"] by auto
qed simp

lemma ClassifyBatch_cases:
  assumes n: "NewClassifier sha l p = Inr cfg" and v: "ValidateObservationBatch u sha (CanonicalizeObservationBatch u sha b) = Inr ()"
  shows "(\<exists>y. ClassifyBatch u sha cfg b = Inr y
      \<and> cb_items y = map (classify u sha l p) (fb_observations (CanonicalizeObservationBatch u sha b)))
    \<or> (\<exists>d. ClassifyBatch u sha cfg b = Inl (CbDuplicate d)) \<and>
        \<not> inj_on (\<lambda>x. stableClassificationID sha (classify u sha l p x))
          (set (fb_observations (CanonicalizeObservationBatch u sha b)))"
proof -
  note ok = NewClassifier_ok [OF n]
  let ?in = "CanonicalizeObservationBatch u sha b"
  let ?items = "map (classify u sha l p) (fb_observations ?in)"
  define b0 where "b0 = \<lparr>cb_schema = ''false-positive-classification-batch/v1alpha2'', cb_id = [], cb_input = fb_id ?in,
      cb_version = ''false-positive-classifier/v0.1.1'', cb_library = library_reference l,
      cb_policy = policy_reference p, cb_summary = summarizeClassifications ?items, cb_items = ?items\<rparr>"
  define y where "y = b0\<lparr>cb_id := stableClassificationBatchID sha b0\<rparr>"
  have run: "ClassifyBatch u sha cfg b
      = (case ValidateClassificationBatch u sha y of Inl e \<Rightarrow> Inl e | Inr _ \<Rightarrow> Inr y)"
    unfolding ClassifyBatch_def Let_def ok(1) fst_conv snd_conv v y_def b0_def by simp
  have y: "cb_schema y = ''false-positive-classification-batch/v1alpha2''" "cb_version y = ''false-positive-classifier/v0.1.1''"
    "cb_items y = ?items" "cb_summary y = summarizeClassifications ?items" "cb_id y = stableClassificationBatchID sha y"
    "cb_library y = library_reference l" "cb_policy y = policy_reference p" "cb_input y = fb_id ?in"
    by (simp_all add: y_def b0_def stableClassificationBatchID_def)
  have obs: "\<forall>x \<in> set (fb_observations ?in). ValidateObservation u sha x = Inr ()" "distinct (map fo_id (fb_observations ?in))"
    "\<not> blank (fb_id ?in)"
    using v check_observations_ok [of u sha 0 "[]" "fb_observations ?in"]
    by (auto simp: ValidateObservationBatch_def split: if_splits sum.splits)
  have "\<forall>s \<in> set (batch_strings y). \<not> blank s"
    using ok obs(3) digest_not_blank(2)
    by (auto simp: batch_strings_def y(2,6-8) y(5) library_reference_def policy_reference_def good_library_def good_cv_def
        letter_not_blank byte_of_def go_defs)
  moreover have "\<forall>c \<in> set ?items. ValidateClassification u sha c = Inr () \<and> cl_library c = cb_library y \<and> cl_policy c = cb_policy y"
    using classify_valid ok obs(1) by (auto simp: y(6,7) classify_def Let_def)
  from check_classifications_ok [OF this, of 0 "[]"]
  have "check_classifications u sha y 0 [] ?items = Inr ()
    \<or> (\<exists>d. check_classifications u sha y 0 [] ?items = Inl (CbDuplicate d)) \<and> \<not> distinct (map cl_id ?items)"
    by auto
  moreover have "inj_on (\<lambda>x. stableClassificationID sha (classify u sha l p x)) (set (fb_observations ?in))
      \<Longrightarrow> distinct (map cl_id ?items)"
    using obs(2) by (auto simp: distinct_map classify_id [symmetric] inj_on_def)
  ultimately show ?thesis
    using y(3-5) by (auto simp: run ValidateClassificationBatch_def y(1,2))
qed

section \<open>Canonical batches\<close>

lemma dedupe_idem: "dedupeCandidateTypes (sort (dedupeCandidateTypes (sort xs))) = dedupeCandidateTypes (sort xs)"
proof -
  have s: "sorted (remdups_adj (sort xs))"
    by (simp add: sorted_remdups_adj)
  have "sorted ys \<Longrightarrow> distinct (remdups_adj ys)" for ys :: "string list"
    by (induction ys rule: remdups_adj.induct) auto
  then have "distinct (remdups_adj (sort xs))"
    by simp
  then show ?thesis
    using s by (simp add: dedupeCandidateTypes_def sorted_sort_id remdups_adj_distinct)
qed

definition tidy_assertion :: "source_assertion \<Rightarrow> source_assertion" where
  "tidy_assertion a = a\<lparr>sa_programs := canonicalStrings (sa_programs a)\<rparr>"

lemma tidy_assertions_idem:
  "sort_by assertion_less (map tidy_assertion (sort_by assertion_less (map tidy_assertion as)))
    = sort_by assertion_less (map tidy_assertion as)"
proof -
  have "map tidy_assertion (sort_by assertion_less (map tidy_assertion as)) = sort_by assertion_less (map tidy_assertion as)"
    by (rule map_idI) (auto simp: tidy_assertion_def)
  then show ?thesis
    by (simp add: assertions.sort_by_idem)
qed

lemma canonical_observation_idem:
  "canonical_observation u sha (canonical_observation u sha x) = canonical_observation u sha x"
  by (simp add: canonical_observation_def Let_def dedupe_idem tidy_assertions_idem [unfolded tidy_assertion_def]
      stableObservationID_def)

lemma CanonicalizeObservationBatch_idem:
  "CanonicalizeObservationBatch u sha (CanonicalizeObservationBatch u sha b) = CanonicalizeObservationBatch u sha b"
proof -
  let ?xs = "sort_by observation_less (map (canonical_observation u sha) (fb_observations b))"
  have "map (canonical_observation u sha) ?xs = ?xs"
    by (rule map_idI) (auto simp: canonical_observation_idem)
  then have "sort_by observation_less (map (canonical_observation u sha) ?xs) = ?xs"
    by (simp add: observations.sort_by_idem)
  then show ?thesis
    by (simp add: CanonicalizeObservationBatch_def Let_def stableObservationBatchID_def)
qed

lemma canonical_observation_valid:
  assumes "unicode_ok u"
  shows "ValidateObservation u sha (canonical_observation u sha x) \<in> {Inr (), Inl ObsField, Inl ObsScore, Inl ObsAssertion}"
proof -
  let ?y = "canonical_observation u sha x"
  have y: "fo_schema ?y = ''transaction-screening-observation/v1alpha1''"
    "fo_norm_input ?y = fp_normalizeText u (fo_norm_input ?y)" "fo_norm_watch ?y = fp_normalizeText u (fo_norm_watch ?y)"
    "\<forall>l \<in> set (observation_lists ?y). l = canonicalStrings l"
    using assms by (simp_all add: canonical_observation_def Let_def observation_lists_def fp_normalizeText_eq normalizeText_idem)
  have i: "fo_id ?y = stableObservationID sha ?y"
    by (simp add: canonical_observation_def Let_def stableObservationID_def)
  have "\<forall>a \<in> set (fo_assertions ?y). check_assertion a \<in> {Inr (), Inl ObsAssertion}"
    by (auto simp: canonical_observation_def Let_def check_assertion_def)
  then have "first_err check_assertion (fo_assertions ?y) \<in> {Inr (), Inl ObsAssertion}"
    using first_err_cases [of check_assertion "fo_assertions ?y"] by force
  then show ?thesis
    using y i by (auto simp: ValidateObservation_def)
qed

lemma canonical_batch_valid:
  assumes u: "unicode_ok u"
  shows "case ValidateObservationBatch u sha (CanonicalizeObservationBatch u sha b) of
      Inr _ \<Rightarrow> True
    | Inl e \<Rightarrow> e \<in> {ObsBatchIdentity, ObsBatchEmpty} \<or> (\<exists>d. e = ObsDuplicate d)
        \<or> (\<exists>i f. e = ObsInvalid i f \<and> f \<in> {ObsField, ObsScore, ObsAssertion})"
proof -
  let ?c = "CanonicalizeObservationBatch u sha b"
  have c: "fb_schema ?c = ''transaction-screening-observation-batch/v1alpha1''" "fb_id ?c = stableObservationBatchID sha ?c"
    "slice_sorted observation_less (fb_observations ?c)"
    by (simp_all add: CanonicalizeObservationBatch_def Let_def stableObservationBatchID_def
        slice_sorted_if_no_inversion observations.sort_by_no_inversion)
  have check: "check_observations u sha i seen xs = Inr () \<or> (\<exists>d. check_observations u sha i seen xs = Inl (ObsDuplicate d))
      \<or> (\<exists>i' f. check_observations u sha i seen xs = Inl (ObsInvalid i' f) \<and> f \<in> {ObsField, ObsScore, ObsAssertion})"
    if "\<forall>x \<in> set xs. \<exists>z. x = canonical_observation u sha z" for i seen xs
    using that
  proof (induction xs arbitrary: i seen)
    case (Cons x xs)
    then obtain z where "x = canonical_observation u sha z"
      by auto
    then have "ValidateObservation u sha x \<in> {Inr (), Inl ObsField, Inl ObsScore, Inl ObsAssertion}"
      using canonical_observation_valid [OF u] by simp
    then show ?case
      using Cons.IH [of "Suc i" "fo_id x # seen"] Cons.prems by auto
  qed simp
  have "\<forall>x \<in> set (fb_observations ?c). \<exists>z. x = canonical_observation u sha z"
    by (auto simp: CanonicalizeObservationBatch_def Let_def)
  from check [OF this, of 0 "[]"] show ?thesis
    using c by (auto simp: ValidateObservationBatch_def split: sum.splits)
qed

end
