(* ===== verification/FpProps.thy ===== *)
theory FpProps imports FpProofs begin

text \<open>
  The properties of the false-positive classifier, with a concrete library, policy and two
  observations on which their hypotheses hold: one exact match that escalates and one name found
  inside a longer one that clears.
\<close>

section \<open>A concrete library, policy and observation\<close>

definition demo_pattern :: "string \<Rightarrow> pattern_definition" where
  "demo_pattern code = \<lparr>pd_code = code, pd_strength = 6000,
     pd_route = (if code = ''legal_control_context'' then ''manual_review'' else ''clear_or_auto_release_eligible''),
     pd_blockers = [], pd_reasons = []\<rparr>"

definition demo_library :: pattern_library where
  "demo_library = \<lparr>pl_schema = ''false-positive-pattern-library/v1alpha1'', pl_id = ''l'', pl_version = ''v'',
     pl_checksum = demo_sha [], pl_patterns = map demo_pattern required_patterns\<rparr>"

definition demo_rule :: "string \<Rightarrow> string \<Rightarrow> bool \<Rightarrow> countervailing_rule" where
  "demo_rule route cls eligible = \<lparr>cv_route = route, cv_class = cls, cv_signal = ''s'' @ route, cv_strength = 9000,
     cv_eligible = eligible, cv_triggers = [''candidate_alert'', ''supporting_evidence'']\<rparr>"

definition demo_cv :: countervailing_policy where
  "demo_cv = \<lparr>cp_schema = ''countervailing-evidence-policy/v1alpha1'', cp_id = ''p'', cp_version = ''v'',
     cp_checksum = demo_sha [],
     cp_rules = [demo_rule ''exact_account'' ''primary_identifier'' True, demo_rule ''exact_bic'' ''primary_identifier'' True,
       demo_rule ''exact_date'' ''secondary_attribute'' False, demo_rule ''exact_lei'' ''primary_identifier'' True],
     cp_secondary = \<lparr>sr_class = ''secondary_support'', sr_signal = ''sec'', sr_strength = 3000, sr_eligible = False\<rparr>\<rparr>"

lemma demo_library_ok: "ValidatePatternLibrary demo_sha demo_library = Inr ()"
proof -
  have "\<not> blank ''l''" "\<not> blank ''v''" "\<not> blank (demo_sha [])"
    by (simp_all add: letter_not_blank byte_of_def go_defs) (simp add: demo_sha_def not_blank_ascii byte_of_def IsSpace_def eval_nat_numeral)
  moreover have "check_patterns 0 [] (map demo_pattern required_patterns) = Inr ()"
    by (simp add: required_patterns_def demo_pattern_def letter_not_blank byte_of_def go_defs in_bp_def validRouteHint_def)
  moreover have "sorted (map pd_code (map demo_pattern required_patterns))"
    by (simp add: required_patterns_def demo_pattern_def)
  ultimately show ?thesis
    by (simp add: ValidatePatternLibrary_def demo_library_def PatternLibraryChecksum_def digest_json_def demo_sha_def
        required_patterns_def)
qed

lemma demo_cv_ok: "ValidateCountervailingPolicy demo_sha demo_cv = Inr ()"
proof -
  have "\<not> blank ''p''" "\<not> blank ''v''" "\<not> blank (demo_sha [])" "\<not> blank ''sec''"
    by (simp_all add: letter_not_blank byte_of_def go_defs) (simp add: demo_sha_def not_blank_ascii byte_of_def IsSpace_def eval_nat_numeral)
  moreover have "check_rules 0 [] (cp_rules demo_cv) = Inr ()"
    by (simp add: demo_cv_def demo_rule_def validateCountervailingRule_def isTypedExactRoute_def validEvidenceClass_def
        letter_not_blank byte_of_def go_defs in_bp_def compactTriggerPolicies_def)
  moreover have "sorted (map cv_route (cp_rules demo_cv))" "\<forall>r \<in> {''exact_account'', ''exact_bic'', ''exact_date'', ''exact_lei''}.
      r \<in> set (map cv_route (cp_rules demo_cv))"
    by (simp_all add: demo_cv_def demo_rule_def)
  ultimately show ?thesis
    by (simp add: ValidateCountervailingPolicy_def Let_def CountervailingPolicyChecksum_def digest_json_def in_bp_def)
      (simp add: demo_cv_def demo_sha_def in_bp_def)
qed

lemma demo_classifier: "NewClassifier demo_sha demo_library demo_cv = Inr (demo_library, demo_cv)"
proof -
  have "lookup_pattern demo_library c \<noteq> None" if "c \<in> set required_patterns" for c
    using that lookup_pattern_find [OF ValidatePatternLibrary_ok [OF demo_library_ok], of c]
    by (auto simp: find_None_iff demo_library_def demo_pattern_def)
  then have "find (\<lambda>c. lookup_pattern demo_library c = None) required_patterns = None"
    by (simp add: find_None_iff)
  then show ?thesis
    by (simp add: NewClassifier_def demo_library_ok demo_cv_ok)
qed

definition demo_observation :: observation where
  "demo_observation = \<lparr>fo_schema = [], fo_id = [], fo_case = ''c'', fo_message = ''m'', fo_message_type = ''t'',
     fo_source = ''s'', fo_field = ''f'', fo_native_path = [], fo_role = ''r'', fo_value_type = ''bic'',
     fo_trigger = ''candidate_alert'', fo_input = ''abcd'', fo_norm_input = [], fo_watch = ''abcd'', fo_norm_watch = [],
     fo_watch_type = ''organization'', fo_route = ''exact_bic'', fo_score = 9000, fo_exact = True, fo_reasons = [],
     fo_diagnostics = [], fo_targets = [], fo_secondary = [], fo_required = [], fo_present = [], fo_technical = [],
     fo_context = [], fo_assertions = []\<rparr>"

definition demo_observations :: observation_batch where
  "demo_observations = \<lparr>fb_schema = [], fb_id = [], fb_source = ''src'', fb_observations = [demo_observation]\<rparr>"

lemma demo_abcd: "fp_normalizeText ascii_tables ''abcd'' = ''ABCD''"
  by (simp add: fp_normalizeText_def str_eval)

definition demo_canonical :: "(string \<Rightarrow> string) \<Rightarrow> observation" where
  "demo_canonical sha = canonical_observation ascii_tables sha demo_observation"

lemma demo_canonical_fields:
  "fo_input (demo_canonical sha) = ''abcd''" "fo_watch (demo_canonical sha) = ''abcd''" "fo_route (demo_canonical sha) = ''exact_bic''"
  "fo_exact (demo_canonical sha)" "fo_trigger (demo_canonical sha) = ''candidate_alert''" "fo_value_type (demo_canonical sha) = ''bic''"
  "fo_reasons (demo_canonical sha) = []" "fo_diagnostics (demo_canonical sha) = []" "fo_targets (demo_canonical sha) = []"
  "fo_secondary (demo_canonical sha) = []" "fo_required (demo_canonical sha) = []" "fo_technical (demo_canonical sha) = []"
  "fo_context (demo_canonical sha) = []" "fo_assertions (demo_canonical sha) = []" "fo_norm_input (demo_canonical sha) = ''ABCD''"
  "fo_norm_watch (demo_canonical sha) = ''ABCD''" "fo_score (demo_canonical sha) = 9000"
  by (simp_all add: demo_canonical_def canonical_observation_def Let_def demo_observation_def demo_abcd
      dedupeCandidateTypes_def)

lemma demo_canonical_ok: "ValidateObservation ascii_tables sha (demo_canonical sha) = Inr ()"
proof -
  have "\<forall>s \<in> set (observation_strings (demo_canonical sha)). \<not> blank s"
    by (simp add: observation_strings_def demo_canonical_fields digest_not_blank letter_not_blank byte_of_def go_defs)
      (simp add: demo_canonical_def canonical_observation_def Let_def demo_observation_def digest_not_blank
        letter_not_blank byte_of_def go_defs)
  then have f: "ValidateObservation ascii_tables sha (demo_canonical sha) \<noteq> Inl ObsField"
    by (auto simp: ValidateObservation_def first_err_cases demo_canonical_fields)
  have "ValidateObservation ascii_tables sha (demo_canonical sha) \<in> {Inl ObsScore, Inl ObsAssertion} \<Longrightarrow> False"
    by (auto simp: ValidateObservation_def demo_canonical_fields in_bp_def split: if_splits)
  then show ?thesis
    using f canonical_observation_valid [OF ascii_tables_ok, of sha demo_observation]
    by (auto simp: demo_canonical_def)
qed

lemma demo_observations_ok:
  "ValidateObservationBatch ascii_tables demo_sha (CanonicalizeObservationBatch ascii_tables demo_sha demo_observations) = Inr ()"
  "fb_observations (CanonicalizeObservationBatch ascii_tables demo_sha demo_observations) = [demo_canonical demo_sha]"
proof -
  show o: "fb_observations (CanonicalizeObservationBatch ascii_tables demo_sha demo_observations) = [demo_canonical demo_sha]"
    by (simp add: CanonicalizeObservationBatch_def Let_def demo_observations_def demo_canonical_def)
  have "\<not> blank (TrimSpace ''src'')"
    by (simp add: str_eval blank_def)
  then show "ValidateObservationBatch ascii_tables demo_sha
      (CanonicalizeObservationBatch ascii_tables demo_sha demo_observations) = Inr ()"
    using o demo_canonical_ok
    by (simp add: ValidateObservationBatch_def slice_sorted_def)
      (simp add: CanonicalizeObservationBatch_def Let_def demo_observations_def stableObservationBatchID_def digestID_def
        letter_not_blank byte_of_def go_defs)
qed


lemma demo_batch:
  "\<exists>y. ClassifyBatch ascii_tables demo_sha (demo_library, demo_cv) demo_observations = Inr y
     \<and> cb_items y = [classify ascii_tables demo_sha demo_library demo_cv (demo_canonical demo_sha)]"
  using ClassifyBatch_cases [OF demo_classifier demo_observations_ok(1)] demo_observations_ok(2) by simp

section \<open>Properties\<close>

lemma find_by_key:
  "distinct (map key xs) \<Longrightarrow> x \<in> set xs \<Longrightarrow> key x = k \<Longrightarrow> find (\<lambda>x. key x = k) xs = Some x"
  by (induction xs) auto

lemma ClassifyBatch_items:
  assumes "ClassifyBatch u sha cfg b = Inr y"
  shows "cb_items y = map (classify u sha (fst cfg) (snd cfg)) (fb_observations (CanonicalizeObservationBatch u sha b))"
    and "ValidateObservationBatch u sha (CanonicalizeObservationBatch u sha b) = Inr ()"
    and "ValidateClassificationBatch u sha y = Inr ()"
  using assms by (auto simp: ClassifyBatch_def Let_def split: sum.splits)

text \<open>
  Classification is total: a constructed classifier accepts every observation batch whose
  canonical form is valid. The result classifies each observation in canonical order and passes
  the package's own validation; the only other outcome is a digest collision, two different
  observations whose classifications get the same identifier.
\<close>

theorem classify_batch_total:
  assumes n: "NewClassifier sha l p = Inr cfg"
    and v: "ValidateObservationBatch u sha (CanonicalizeObservationBatch u sha b) = Inr ()"
  shows "(\<exists>y. ClassifyBatch u sha cfg b = Inr y \<and> ValidateClassificationBatch u sha y = Inr ()
        \<and> cb_items y = map (classify u sha l p) (fb_observations (CanonicalizeObservationBatch u sha b)))
     \<or> (\<exists>d. ClassifyBatch u sha cfg b = Inl (CbDuplicate d))
       \<and> (\<exists>x \<in> set (fb_observations (CanonicalizeObservationBatch u sha b)).
           \<exists>z \<in> set (fb_observations (CanonicalizeObservationBatch u sha b)).
           x \<noteq> z \<and> stableClassificationID sha (classify u sha l p x) = stableClassificationID sha (classify u sha l p z))"
  using ClassifyBatch_cases [OF n v] ClassifyBatch_items(3) [of u sha cfg b] unfolding inj_on_def by blast

theorem classify_batch_total_witness:
  "\<exists>y. ClassifyBatch ascii_tables demo_sha (demo_library, demo_cv) demo_observations = Inr y \<and> length (cb_items y) = 1"
  using classify_batch_total [OF demo_classifier demo_observations_ok(1)] demo_observations_ok(2) by auto

text \<open>
  Only primary evidence escalates: a classification routed to \<^verbatim>\<open>escalation_candidate\<close> has a
  candidate-alert trigger and an exact match on a route for which the policy has an
  escalation-eligible primary-identifier rule that admits the trigger, and no pattern that asks for
  clearing, manual review or investigation.
\<close>

theorem escalation_needs_primary_evidence:
  assumes n: "NewClassifier sha l p = Inr cfg" and y: "ClassifyBatch u sha cfg b = Inr y"
    and c: "c \<in> set (cb_items y)" and r: "cl_route c = ''escalation_candidate''"
  shows "fo_trigger (cl_observation c) = ''candidate_alert'' \<and> fo_exact (cl_observation c)
     \<and> (\<exists>r \<in> set (cp_rules p). cv_route r = fo_route (cl_observation c) \<and> cv_eligible r
          \<and> cv_class r = ''primary_identifier'' \<and> ''candidate_alert'' \<in> set (cv_triggers r))
     \<and> (\<forall>e \<in> set (cl_patterns c).
          pe_route e \<notin> {''clear_or_auto_release_eligible'', ''manual_review'', ''investigate''})"
proof -
  note ok = NewClassifier_ok [OF n]
  obtain x where x: "c = classify u sha l p x"
    using c ClassifyBatch_items(1) [OF y] ok(1) by auto
  have f: "cl_observation c = x" "cl_patterns c = classify_patterns u l x" "cl_signals c = countervailingSignals p x"
    "cl_route c = chooseRoute (classify_patterns u l x) (countervailingSignals p x) (fo_trigger x)"
    by (simp_all add: x classify_def Let_def)
  have e: "fo_trigger x = ''candidate_alert''" "hasEscalationEligibleSignal (countervailingSignals p x)"
    "\<forall>e \<in> set (cl_patterns c). pe_route e \<notin> {''clear_or_auto_release_eligible'', ''manual_review'', ''investigate''}"
    using r unfolding f chooseRoute_cases(2) by simp_all
  then obtain s where s: "s \<in> set (countervailingSignals p x)" "sg_eligible s" "sg_class s = ''primary_identifier''"
    by (auto simp: hasEscalationEligibleSignal_def)
  then have "s \<noteq> secondary_signal p x"
    using ok(3) by (auto simp: good_cv_def secondary_signal_def)
  then obtain q where q: "exactRouteRule p (fo_route x) (fo_trigger x) = Some q" "s = rule_signal x q" "fo_exact x"
    using s(1) signals_iff by blast
  then have "q \<in> set (cp_rules p)"
    using exactRouteRule_find [OF ok(3)] by (auto simp: find_Some_iff split: option.splits if_splits)
  then show ?thesis
    using e q s rule_good [OF ok(3) q(1)] f(1) by (auto simp: rule_signal_def)
qed


lemma demo_no_hits: "pattern_hits ascii_tables (demo_canonical demo_sha) = []"
proof -
  have n: "fp_normalizeText ascii_tables ''abcd '' = ''ABCD''"
    by (simp add: fp_normalizeText_def str_eval)
  have n2: "fp_normalizeText ascii_tables ''ABCD'' = ''ABCD''"
    by (simp add: fp_normalizeText_def str_eval)
  have t: "tokens ascii_tables ''abcd'' = [''ABCD'']" "tokens ascii_tables ''ABCD'' = [''ABCD'']"
    by (simp_all add: tokens_def demo_abcd n2 str_eval)
  have m: "map (fp_normalizeText ascii_tables) denial_markers = denial_markers"
    by (simp add: denial_markers_def fp_normalizeText_def str_eval)
  show ?thesis
    unfolding pattern_hits_def strictSubstring_def wrongFieldDataType_def entityTypeMismatch_def missingQualifiers_def
      routingBICCollision_def acronymCollision_def phoneticTransliterationOnly_def narrativeDenialContext_def
      technicalArtifact_def legalControlContext_def demo_canonical_fields compact_def t demo_abcd m
    by (simp add: n t qualifier_words_def denial_markers_def technical_markers_def control_markers_def)
qed


lemma demo_escalates:
  "cl_route (classify ascii_tables demo_sha demo_library demo_cv (demo_canonical demo_sha)) = ''escalation_candidate''"
proof -
  have "exactRouteRule demo_cv ''exact_bic'' ''candidate_alert'' = Some (demo_rule ''exact_bic'' ''primary_identifier'' True)"
    using exactRouteRule_find [OF ValidateCountervailingPolicy_ok [OF demo_cv_ok]]
    by (simp add: demo_cv_def demo_rule_def)
  then show ?thesis
    by (simp add: classify_def Let_def classify_patterns_def demo_no_hits countervailingSignals_def demo_canonical_fields
        chooseRoute_def rule_signal_def demo_rule_def hasEscalationEligibleSignal_def)
qed

theorem escalation_needs_primary_evidence_witness:
  "\<exists>y c. ClassifyBatch ascii_tables demo_sha (demo_library, demo_cv) demo_observations = Inr y \<and> c \<in> set (cb_items y)
     \<and> cl_route c = ''escalation_candidate'' \<and> fo_exact (cl_observation c)"
proof -
  obtain y where y: "ClassifyBatch ascii_tables demo_sha (demo_library, demo_cv) demo_observations = Inr y"
    and c: "cb_items y = [classify ascii_tables demo_sha demo_library demo_cv (demo_canonical demo_sha)]"
    using demo_batch by blast
  have i: "classify ascii_tables demo_sha demo_library demo_cv (demo_canonical demo_sha) \<in> set (cb_items y)"
    by (simp add: c)
  show ?thesis
    using escalation_needs_primary_evidence [OF demo_classifier y i demo_escalates] y i demo_escalates by blast
qed

text \<open>
  Countervailing evidence prevents clearing: a classification routed to
  \<^verbatim>\<open>clear_or_auto_release_eligible\<close> has a pattern of that route and none for manual review, no
  secondary identifier match, and no exact match on a route whose rule admits the trigger.
\<close>

theorem clear_route_has_no_countervailing_evidence:
  assumes n: "NewClassifier sha l p = Inr cfg" and y: "ClassifyBatch u sha cfg b = Inr y"
    and c: "c \<in> set (cb_items y)" and r: "cl_route c = ''clear_or_auto_release_eligible''"
  shows "fo_secondary (cl_observation c) = [] \<and> cl_signals c = []
     \<and> (fo_exact (cl_observation c) \<longrightarrow> (\<forall>r \<in> set (cp_rules p).
          cv_route r = fo_route (cl_observation c) \<longrightarrow> fo_trigger (cl_observation c) \<notin> set (cv_triggers r)))
     \<and> (\<exists>e \<in> set (cl_patterns c). pe_route e = ''clear_or_auto_release_eligible'')
     \<and> (\<forall>e \<in> set (cl_patterns c). pe_route e \<noteq> ''manual_review'')"
proof -
  note ok = NewClassifier_ok [OF n]
  obtain x where x: "c = classify u sha l p x"
    using c ClassifyBatch_items(1) [OF y] ok(1) by auto
  have f: "cl_observation c = x" "cl_patterns c = classify_patterns u l x" "cl_signals c = countervailingSignals p x"
    "cl_route c = chooseRoute (classify_patterns u l x) (countervailingSignals p x) (fo_trigger x)"
    by (simp_all add: x classify_def Let_def)
  have e: "countervailingSignals p x = []"
    "\<exists>e \<in> set (cl_patterns c). pe_route e = ''clear_or_auto_release_eligible''"
    "\<forall>e \<in> set (cl_patterns c). pe_route e \<noteq> ''manual_review''"
    using r unfolding f chooseRoute_def Let_def by (simp_all split: if_splits)
  then have none: "s \<notin> set (countervailingSignals p x)" for s
    by simp
  have "False" if q: "fo_exact x" "q \<in> set (cp_rules p)" "cv_route q = fo_route x" "fo_trigger x \<in> set (cv_triggers q)" for q
  proof -
    have "find (\<lambda>r. cv_route r = fo_route x) (cp_rules p) = Some q"
      using q ok(3) find_by_key [of cv_route "cp_rules p" q "fo_route x"] by (simp add: good_cv_def)
    then show False
      using none [of "rule_signal x q"] q exactRouteRule_find [OF ok(3)] by (simp add: signals_iff)
  qed
  moreover have "fo_secondary x = []"
    using none [of "secondary_signal p x"] by (auto simp: signals_iff)
  ultimately show ?thesis
    using e f by auto
qed


text \<open>A second observation, a name found inside a longer one.\<close>

definition demo_loose :: observation where
  "demo_loose = demo_observation\<lparr>fo_input := ''xabcd'', fo_exact := False, fo_route := ''normalized_name''\<rparr>"

definition demo_loose_batch :: observation_batch where
  "demo_loose_batch = demo_observations\<lparr>fb_observations := [demo_loose]\<rparr>"

definition demo_loose_canonical :: "(string \<Rightarrow> string) \<Rightarrow> observation" where
  "demo_loose_canonical sha = canonical_observation ascii_tables sha demo_loose"

lemma demo_xabcd: "fp_normalizeText ascii_tables ''xabcd'' = ''XABCD''"
  by (simp add: fp_normalizeText_def str_eval)

lemma demo_loose_fields:
  "fo_input (demo_loose_canonical sha) = ''xabcd''" "fo_watch (demo_loose_canonical sha) = ''abcd''"
  "fo_route (demo_loose_canonical sha) = ''normalized_name''" "\<not> fo_exact (demo_loose_canonical sha)"
  "fo_secondary (demo_loose_canonical sha) = []" "fo_score (demo_loose_canonical sha) = 9000"
  "fo_norm_input (demo_loose_canonical sha) = ''XABCD''" "fo_norm_watch (demo_loose_canonical sha) = ''ABCD''"
  "fo_assertions (demo_loose_canonical sha) = []" "fo_trigger (demo_loose_canonical sha) = ''candidate_alert''"
  "fo_context (demo_loose_canonical sha) = []"
  by (simp_all add: demo_loose_canonical_def demo_loose_def canonical_observation_def Let_def demo_observation_def
      demo_abcd demo_xabcd)

lemma demo_loose_ok: "ValidateObservation ascii_tables sha (demo_loose_canonical sha) = Inr ()"
proof -
  have "\<forall>s \<in> set (observation_strings (demo_loose_canonical sha)). \<not> blank s"
    by (simp add: observation_strings_def demo_loose_fields digest_not_blank letter_not_blank byte_of_def go_defs)
      (simp add: demo_loose_canonical_def demo_loose_def canonical_observation_def Let_def demo_observation_def
        digest_not_blank letter_not_blank byte_of_def go_defs)
  then have f: "ValidateObservation ascii_tables sha (demo_loose_canonical sha) \<noteq> Inl ObsField"
    by (auto simp: ValidateObservation_def first_err_cases demo_loose_fields)
  have "ValidateObservation ascii_tables sha (demo_loose_canonical sha) \<in> {Inl ObsScore, Inl ObsAssertion} \<Longrightarrow> False"
    by (auto simp: ValidateObservation_def demo_loose_fields in_bp_def split: if_splits)
  then show ?thesis
    using f canonical_observation_valid [OF ascii_tables_ok, of sha demo_loose]
    by (auto simp: demo_loose_canonical_def)
qed

lemma demo_loose_batch_ok:
  "ValidateObservationBatch ascii_tables demo_sha (CanonicalizeObservationBatch ascii_tables demo_sha demo_loose_batch) = Inr ()"
  "fb_observations (CanonicalizeObservationBatch ascii_tables demo_sha demo_loose_batch) = [demo_loose_canonical demo_sha]"
proof -
  show o: "fb_observations (CanonicalizeObservationBatch ascii_tables demo_sha demo_loose_batch) = [demo_loose_canonical demo_sha]"
    by (simp add: CanonicalizeObservationBatch_def Let_def demo_loose_batch_def demo_loose_canonical_def)
  have "\<not> blank (TrimSpace ''src'')"
    by (simp add: str_eval blank_def)
  then show "ValidateObservationBatch ascii_tables demo_sha
      (CanonicalizeObservationBatch ascii_tables demo_sha demo_loose_batch) = Inr ()"
    using o demo_loose_ok
    by (simp add: ValidateObservationBatch_def slice_sorted_def)
      (simp add: CanonicalizeObservationBatch_def Let_def demo_observations_def demo_loose_batch_def
        stableObservationBatchID_def digestID_def letter_not_blank byte_of_def go_defs)
qed

lemma demo_loose_hits: "''substring_containment'' \<in> fst ` set (pattern_hits ascii_tables (demo_loose_canonical demo_sha))"
  "''legal_control_context'' \<notin> fst ` set (pattern_hits ascii_tables (demo_loose_canonical demo_sha))"
proof -
  have t: "tokens ascii_tables ''abcd'' = [''ABCD'']" "tokens ascii_tables ''xabcd'' = [''XABCD'']"
    by (simp_all add: tokens_def demo_abcd demo_xabcd str_eval)
  have "strictSubstring ascii_tables ''xabcd'' ''abcd''"
    by (simp add: strictSubstring_def compact_def t containsWholeTokenSequence_def Let_def)
  then show "''substring_containment'' \<in> fst ` set (pattern_hits ascii_tables (demo_loose_canonical demo_sha))"
    by (simp add: pattern_hits_def demo_loose_fields)
  have "fp_normalizeText ascii_tables ''xabcd '' = ''XABCD''"
    by (simp add: fp_normalizeText_def str_eval)
  then have l: "\<not> legalControlContext ascii_tables (demo_loose_canonical demo_sha)"
    by (simp add: legalControlContext_def demo_loose_fields control_markers_def)
  show "''legal_control_context'' \<notin> fst ` set (pattern_hits ascii_tables (demo_loose_canonical demo_sha))"
    unfolding pattern_hits_def using l by auto
qed

lemma demo_loose_clears:
  "cl_route (classify ascii_tables demo_sha demo_library demo_cv (demo_loose_canonical demo_sha)) = ''clear_or_auto_release_eligible''"
proof -
  have "pe_route (evidence_of demo_library c d) = pd_route (demo_pattern c)" if c: "c \<in> set required_patterns" for c d
  proof -
    have "map (pd_code \<circ> demo_pattern) required_patterns = required_patterns" "distinct required_patterns"
      by (simp_all add: demo_pattern_def required_patterns_def)
    then have "find (\<lambda>d. pd_code d = c) (map demo_pattern required_patterns) = Some (demo_pattern c)"
      using c by (intro find_by_key) (auto simp: demo_pattern_def)
    then have "lookup_pattern demo_library c = Some (demo_pattern c)"
      using lookup_pattern_find [OF ValidatePatternLibrary_ok [OF demo_library_ok], of c] by (simp add: demo_library_def)
    then show ?thesis
      by (simp add: evidence_of_def Let_def)
  qed
  then have e: "pe_route (evidence_of demo_library c d) = pd_route (demo_pattern c)"
    if "(c, d) \<in> set (pattern_hits ascii_tables (demo_loose_canonical demo_sha))" for c d
    using hits_facts that by blast
  have ps: "\<forall>e \<in> set (classify_patterns ascii_tables demo_library (demo_loose_canonical demo_sha)). pe_route e = ''clear_or_auto_release_eligible''"
    using e demo_loose_hits(2) by (force simp: classify_patterns_def demo_pattern_def)
  have "classify_patterns ascii_tables demo_library (demo_loose_canonical demo_sha) \<noteq> []"
    using demo_loose_hits(1) by (auto simp: classify_patterns_def)
  then obtain e es where "classify_patterns ascii_tables demo_library (demo_loose_canonical demo_sha) = e # es"
    by (cases "classify_patterns ascii_tables demo_library (demo_loose_canonical demo_sha)") auto
  then show ?thesis
    using ps by (simp add: classify_def Let_def countervailingSignals_def demo_loose_fields chooseRoute_def)
qed

theorem clear_route_has_no_countervailing_evidence_witness:
  "\<exists>y c. ClassifyBatch ascii_tables demo_sha (demo_library, demo_cv) demo_loose_batch = Inr y \<and> c \<in> set (cb_items y)
     \<and> cl_route c = ''clear_or_auto_release_eligible'' \<and> cl_signals c = []"
proof -
  obtain y where y: "ClassifyBatch ascii_tables demo_sha (demo_library, demo_cv) demo_loose_batch = Inr y"
    and c: "cb_items y = [classify ascii_tables demo_sha demo_library demo_cv (demo_loose_canonical demo_sha)]"
    using ClassifyBatch_cases [OF demo_classifier demo_loose_batch_ok(1)] demo_loose_batch_ok(2) by auto
  have i: "classify ascii_tables demo_sha demo_library demo_cv (demo_loose_canonical demo_sha) \<in> set (cb_items y)"
    by (simp add: c)
  show ?thesis
    using clear_route_has_no_countervailing_evidence [OF demo_classifier y i demo_loose_clears] y i demo_loose_clears by blast
qed


text \<open>
  The binary searches find what a linear search finds: in a library and a policy that pass
  their validation, \<^verbatim>\<open>lookup\<close> returns the definition with the code, and \<^verbatim>\<open>exactRouteRule\<close> the rule
  of the route if it admits the trigger.
\<close>

theorem searches_find:
  assumes "ValidatePatternLibrary sha l = Inr ()" and "ValidateCountervailingPolicy sha p = Inr ()"
  shows "lookup_pattern l code = find (\<lambda>d. pd_code d = code) (pl_patterns l)
     \<and> exactRouteRule p route trigger = find (\<lambda>r. cv_route r = route \<and> trigger \<in> set (cv_triggers r)) (cp_rules p)"
proof -
  note cv = ValidateCountervailingPolicy_ok [OF assms(2)]
  have f: "distinct (map cv_route rs) \<Longrightarrow>
      (case find (\<lambda>r. cv_route r = route) rs of
        None \<Rightarrow> None | Some r \<Rightarrow> if trigger \<in> set (cv_triggers r) then Some r else None)
      = find (\<lambda>r. cv_route r = route \<and> trigger \<in> set (cv_triggers r)) rs" for rs :: "countervailing_rule list"
    by (induction rs) (auto simp: find_None_iff find_None_iff2 image_iff dest: sym)
  then show ?thesis
    using lookup_pattern_find [OF ValidatePatternLibrary_ok [OF assms(1)]] exactRouteRule_find [OF cv] cv
      f [of "cp_rules p"]
    by (simp only: good_cv_def simp_thms)
qed

theorem searches_find_witness:
  "exactRouteRule demo_cv ''exact_lei'' ''candidate_alert'' = Some (demo_rule ''exact_lei'' ''primary_identifier'' True)
   \<and> lookup_pattern demo_library ''unknown'' = None"
  using searches_find [OF demo_library_ok demo_cv_ok, of "''unknown''" "''exact_lei''" "''candidate_alert''"]
  by (simp add: demo_cv_def demo_rule_def demo_library_def demo_pattern_def required_patterns_def)

text \<open>
  Canonicalising an observation batch twice is canonicalising it once: identifiers, sort orders
  and digests do not move.
\<close>

theorem canonicalize_idempotent:
  "CanonicalizeObservationBatch u sha (CanonicalizeObservationBatch u sha b) = CanonicalizeObservationBatch u sha b"
  by (rule CanonicalizeObservationBatch_idem)

text \<open>
  Canonicalisation repairs every defect of form: afterwards validation can only complain about
  content (a missing batch source, an empty batch, a blank field, a score out of range, an
  incomplete source assertion) or about two observations with one identifier.
\<close>

theorem canonicalize_repairs_form:
  assumes "unicode_ok u"
  shows "case ValidateObservationBatch u sha (CanonicalizeObservationBatch u sha b) of
      Inr _ \<Rightarrow> True
    | Inl e \<Rightarrow> e \<in> {ObsBatchIdentity, ObsBatchEmpty} \<or> (\<exists>d. e = ObsDuplicate d)
        \<or> (\<exists>i f. e = ObsInvalid i f \<and> f \<in> {ObsField, ObsScore, ObsAssertion})"
  by (rule canonical_batch_valid [OF assms])

theorem canonicalize_repairs_form_witness:
  "case ValidateObservationBatch ascii_tables demo_sha (CanonicalizeObservationBatch ascii_tables demo_sha demo_observations) of
      Inr _ \<Rightarrow> True
    | Inl e \<Rightarrow> e \<in> {ObsBatchIdentity, ObsBatchEmpty} \<or> (\<exists>d. e = ObsDuplicate d)
        \<or> (\<exists>i f. e = ObsInvalid i f \<and> f \<in> {ObsField, ObsScore, ObsAssertion})"
  by (rule canonicalize_repairs_form [OF ascii_tables_ok])

text \<open>
  The classifier's \<^verbatim>\<open>normalizeText\<close>, which upper-cases first and builds its output with a
  pending-space flag, computes the same text as the one of candidate scoring.
\<close>

theorem normalizers_agree: "fp_normalizeText u v = normalizeText u v"
  by (rule fp_normalizeText_eq)

text \<open>
  Arrival order is immaterial: batches that differ only in the order of their observations are
  classified to the same batch, identifiers included.
\<close>

theorem classification_order_independent:
  assumes perm: "mset (fb_observations b') = mset (fb_observations b)" and src: "fb_source b' = fb_source b"
    and v: "ValidateObservationBatch u sha (CanonicalizeObservationBatch u sha b) = Inr ()"
  shows "ClassifyBatch u sha cfg b' = ClassifyBatch u sha cfg b"
proof -
  let ?f = "canonical_observation u sha"
  have "check_observations u sha 0 [] (fb_observations (CanonicalizeObservationBatch u sha b)) = Inr ()"
    using v by (auto simp: ValidateObservationBatch_def split: if_splits sum.splits)
  then have "distinct (map fo_id (map ?f (fb_observations b)))"
    by (auto dest!: check_observations_ok simp: CanonicalizeObservationBatch_def Let_def simp del: map_map)
  then have d: "inj_on fo_id (set (map ?f (fb_observations b)))"
    by (auto simp only: distinct_map)
  have "observation_less x z \<or> observation_less z x"
    if "x \<in> set (map ?f (fb_observations b'))" "z \<in> set (map ?f (fb_observations b'))" "x \<noteq> z" for x z
  proof -
    have "fo_id x \<noteq> fo_id z"
      using that inj_onD [OF d] mset_eq_setD [OF perm] by auto
    then show ?thesis
      by (auto simp: observation_less_def)
  qed
  then have "sort_by observation_less (map ?f (fb_observations b')) = sort_by observation_less (map ?f (fb_observations b))"
    using perm by (intro observations.sort_by_order_independent) simp_all
  then have "CanonicalizeObservationBatch u sha b' = CanonicalizeObservationBatch u sha b"
    by (simp add: CanonicalizeObservationBatch_def Let_def stableObservationBatchID_def src)
  then show ?thesis
    by (simp add: ClassifyBatch_def)
qed


text \<open>Both observations in one batch; reversal stands for the digest, so that they get different identifiers.\<close>

lemma marshal_last: "\<exists>pre. marshal (JObj (kvs @ [kv])) = pre @ marshal (snd kv) @ ''}''"
  by (auto simp: Join_snoc intro: exI [of _ "''{'' @ quote_json (fst kv) @ '':''"]
      exI [of _ "''{'' @ Join (map (\<lambda>p. quote_json (fst p) @ '':'' @ marshal (snd p)) kvs) '','' @ '','' @ quote_json (fst kv) @ '':''"])

lemma demo_id_end:
  assumes "fo_reasons x = []" "fo_diagnostics x = []" "fo_targets x = []" "fo_secondary x = []" "fo_required x = []"
    "fo_present x = []" "fo_technical x = []" "fo_context x = []" "fo_assertions x = []"
  shows "\<exists>rest. stableObservationID rev x
      = ''fp_observation_'' @ take 24 (''}'' @ (if fo_exact x then ''eurt'' else ''eslaf'') @ rest)"
proof -
  obtain kvs where kvs: "observation_json (x\<lparr>fo_id := []\<rparr>) = JObj (kvs @ [(''exact'', JBool (fo_exact x))])"
    using assms by (simp add: observation_json_def opts_def opt_def append.assoc [symmetric] del: append.assoc append_assoc)
  obtain pre where "marshal (observation_json (x\<lparr>fo_id := []\<rparr>)) = pre @ marshal (JBool (fo_exact x)) @ ''}''"
    unfolding kvs using marshal_last [of kvs "(''exact'', JBool (fo_exact x))"] by auto
  then show ?thesis
    by (intro exI [of _ "rev (''transaction-screening-observation/v1alpha1'' @ [byte 31] @ pre)"])
      (simp add: stableObservationID_def digestID_def)
qed

lemma demo_ids_differ: "fo_id (demo_canonical rev) \<noteq> fo_id (demo_loose_canonical rev)"
proof -
  have "\<exists>rest. fo_id (demo_canonical rev) = ''fp_observation_'' @ take 24 (''}eurt'' @ rest)"
    using demo_id_end [of "demo_canonical rev"] 
    by (simp add: demo_canonical_def canonical_observation_def Let_def demo_observation_def dedupeCandidateTypes_def stableObservationID_def)
  moreover have "\<exists>rest. fo_id (demo_loose_canonical rev) = ''fp_observation_'' @ take 24 (''}eslaf'' @ rest)"
    using demo_id_end [of "demo_loose_canonical rev"]
    by (simp add: demo_loose_canonical_def demo_loose_def canonical_observation_def Let_def demo_observation_def
        dedupeCandidateTypes_def stableObservationID_def)
  ultimately show ?thesis
    by (auto simp: numeral_eq_Suc)
qed


lemma check_observations_Inr:
  "(\<forall>x \<in> set xs. ValidateObservation u sha x = Inr ()) \<Longrightarrow> distinct (map fo_id xs) \<Longrightarrow> set seen \<inter> fo_id ` set xs = {} \<Longrightarrow>
     check_observations u sha i seen xs = Inr ()"
  by (induction xs arbitrary: i seen) auto

definition demo_pair :: "observation list \<Rightarrow> observation_batch" where
  "demo_pair xs = demo_observations\<lparr>fb_observations := xs\<rparr>"

lemma demo_pair_ok:
  "ValidateObservationBatch ascii_tables rev
     (CanonicalizeObservationBatch ascii_tables rev (demo_pair [demo_observation, demo_loose])) = Inr ()"
proof -
  let ?b = "CanonicalizeObservationBatch ascii_tables rev (demo_pair [demo_observation, demo_loose])"
  have o: "fb_observations ?b = sort_by observation_less [demo_canonical rev, demo_loose_canonical rev]"
    by (simp add: CanonicalizeObservationBatch_def Let_def demo_pair_def demo_canonical_def demo_loose_canonical_def)
  have "distinct (map fo_id (fb_observations ?b))"
    unfolding o distinct_sort_by using demo_ids_differ by simp
  then have "check_observations ascii_tables rev 0 [] (fb_observations ?b) = Inr ()"
    using o demo_canonical_ok demo_loose_ok by (intro check_observations_Inr) (auto simp del: sort_by_Cons)
  moreover have "slice_sorted observation_less (fb_observations ?b)" "fb_observations ?b \<noteq> []"
    unfolding o by (auto simp: slice_sorted_if_no_inversion observations.sort_by_no_inversion simp del: sort_by_Cons)
  moreover have "\<not> blank (TrimSpace ''src'')"
    by (simp add: str_eval blank_def)
  ultimately show ?thesis
    by (simp add: ValidateObservationBatch_def)
      (simp add: CanonicalizeObservationBatch_def Let_def demo_observations_def demo_pair_def
        stableObservationBatchID_def digestID_def letter_not_blank byte_of_def go_defs)
qed

theorem classification_order_independent_witness:
  "ClassifyBatch ascii_tables rev (demo_library, demo_cv) (demo_pair [demo_loose, demo_observation])
   = ClassifyBatch ascii_tables rev (demo_library, demo_cv) (demo_pair [demo_observation, demo_loose])
   \<and> demo_loose \<noteq> demo_observation"
proof -
  have "demo_loose \<noteq> demo_observation"
    by (simp add: demo_loose_def demo_observation_def)
  then show ?thesis
    using classification_order_independent [OF _ _ demo_pair_ok, of "demo_pair [demo_loose, demo_observation]"]
    by (simp add: demo_pair_def)
qed

end
