(* ===== verification/PolicyProofs.thy ===== *)
theory PolicyProofs imports PolicyEngine FpProps begin

text \<open>What validation of a policy and an overlay establishes, and how \<^verbatim>\<open>evaluate\<close> accumulates.\<close>

section \<open>Valid policies\<close>

definition good_pattern_rule :: "pattern_rule \<Rightarrow> bool" where
  "good_pattern_rule r \<longleftrightarrow> \<bar>pr_adjustment r\<bar> \<le> 10000 \<and> valid_disposition (pr_maximum r) \<and> \<not> blank (pr_reason r)"

definition good_hint :: "hint_rule \<Rightarrow> bool" where
  "good_hint r \<longleftrightarrow> valid_disposition (hr_maximum r) \<and> valid_review_route (hr_route r) \<and> \<not> blank (hr_reason r)"

definition good_thresholds :: "policy_thresholds \<Rightarrow> bool" where
  "good_thresholds t \<longleftrightarrow> in_bp (pt_clear_max t) \<and> in_bp (pt_escalate_min t) \<and> pt_clear_max t < pt_escalate_min t
     \<and> in_bp (pt_min_release t) \<and> in_bp (pt_min_countervailing t)"

definition good_weights :: "score_weights \<Rightarrow> bool" where
  "good_weights w \<longleftrightarrow> in_bp (sw_screening w) \<and> in_bp (sw_countervailing w) \<and> in_bp (sw_release w)"

text \<open>The invariant of an effective policy.\<close>

definition good_policy :: "screening_policy \<Rightarrow> bool" where
  "good_policy p \<longleftrightarrow> good_weights (pp_weights p) \<and> good_thresholds (pp_thresholds p)
     \<and> (\<forall>c \<in> set required_patterns. lookup_in (pp_patterns p) c \<noteq> None)
     \<and> (\<forall>c r. lookup_in (pp_patterns p) c = Some r \<longrightarrow> good_pattern_rule r)
     \<and> (\<forall>b r. lookup_in (pp_blockers p) b = Some r \<longrightarrow> valid_disposition (br_maximum r))
     \<and> (\<forall>h \<in> set route_hints. \<exists>r. lookup_in (pp_hints p) h = Some r \<and> good_hint r)
     \<and> (\<forall>k \<in> set reason_keys. \<not> blank (reason_of p k))"

lemma validatePatternRule_ok: "validatePatternRule r = Inr () \<longleftrightarrow> good_pattern_rule r"
  by (auto simp: validatePatternRule_def good_pattern_rule_def)

lemma check_required_ok: "check_required_patterns m cs = Inr () \<Longrightarrow> c \<in> set cs \<Longrightarrow> lookup_in m c \<noteq> None"
  by (induction m cs rule: check_required_patterns.induct) (auto split: option.splits sum.splits)

lemma check_hints_ok: "check_hints m hs = Inr () \<Longrightarrow> h \<in> set hs \<Longrightarrow> \<exists>r. lookup_in m h = Some r \<and> good_hint r"
  by (induction m hs rule: check_hints.induct)
    (auto simp: check_hint_def good_hint_def split: option.splits sum.splits if_splits)

lemma lookup_entries: "lookup_in m k = Some v \<Longrightarrow> (k, v) \<in> set (entries m)"
  by (simp add: lookup_in_def map_of_SomeD)

lemma ValidatePolicy_ok:
  assumes "ValidatePolicy sha p = Inr ()"
  shows "good_policy p"
proof -
  have req: "check_required_patterns (pp_patterns p) required_patterns = Inr ()"
    and pat: "first_err (\<lambda>kv. validatePatternRule (snd kv)) (entries (pp_patterns p)) = Inr ()"
    and blk: "first_err (\<lambda>kv. check_blocker (snd kv)) (entries (pp_blockers p)) = Inr ()"
    and hnt: "check_hints (pp_hints p) route_hints = Inr ()"
    and rsn: "find (\<lambda>k. blank (reason_of p k)) reason_keys = None"
    and num: "good_weights (pp_weights p)" "good_thresholds (pp_thresholds p)"
    using assms by (auto simp: ValidatePolicy_def Let_def good_weights_def good_thresholds_def
        split: if_splits sum.splits option.splits)
  have "good_pattern_rule r" if "lookup_in (pp_patterns p) c = Some r" for c r
    using pat lookup_entries [OF that] by (auto simp: first_err_ok validatePatternRule_ok)
  moreover have "valid_disposition (br_maximum r)" if "lookup_in (pp_blockers p) b = Some r" for b r
    using blk lookup_entries [OF that] by (force simp: first_err_ok check_blocker_def split: if_splits)
  ultimately show ?thesis
    using num check_required_ok [OF req] check_hints_ok [OF hnt] rsn by (auto simp: good_policy_def find_None_iff)
qed

section \<open>Overlays\<close>

lemma override_weights_fields:
  "sw_screening (override_weights m w) = (case lookup_in m ''screening_score'' of None \<Rightarrow> sw_screening w | Some v \<Rightarrow> v)"
  "sw_countervailing (override_weights m w)
     = (case lookup_in m ''countervailing_support'' of None \<Rightarrow> sw_countervailing w | Some v \<Rightarrow> v)"
  "sw_release (override_weights m w) = (case lookup_in m ''release_support'' of None \<Rightarrow> sw_release w | Some v \<Rightarrow> v)"
  by (simp_all add: override_weights_def Let_def split: option.split)

lemma override_thresholds_fields:
  "pt_clear_max (override_thresholds m t) = (case lookup_in m ''clear_maximum'' of None \<Rightarrow> pt_clear_max t | Some v \<Rightarrow> v)"
  "pt_escalate_min (override_thresholds m t)
     = (case lookup_in m ''escalate_minimum'' of None \<Rightarrow> pt_escalate_min t | Some v \<Rightarrow> v)"
  "pt_min_release (override_thresholds m t)
     = (case lookup_in m ''minimum_release_support_for_clear'' of None \<Rightarrow> pt_min_release t | Some v \<Rightarrow> v)"
  "pt_min_countervailing (override_thresholds m t)
     = (case lookup_in m ''minimum_countervailing_for_escalate'' of None \<Rightarrow> pt_min_countervailing t | Some v \<Rightarrow> v)"
  by (simp_all add: override_thresholds_def Let_def split: option.split)

lemma override_controls_fields:
  "ct_auto_clear (override_controls m c) = (case lookup_in m ''allow_auto_clear'' of None \<Rightarrow> ct_auto_clear c | Some v \<Rightarrow> v)"
  "ct_escalation (override_controls m c) = (case lookup_in m ''allow_escalation'' of None \<Rightarrow> ct_escalation c | Some v \<Rightarrow> v)"
  by (simp_all add: override_controls_def Let_def split: option.split)

lemma override_rule_fields:
  "pr_adjustment (override_rule v r) = (case ro_adjustment v of None \<Rightarrow> pr_adjustment r | Some a \<Rightarrow> a)"
  "pr_maximum (override_rule v r) = (case ro_maximum v of None \<Rightarrow> pr_maximum r | Some d \<Rightarrow> d)"
  "pr_reason (override_rule v r) = (case ro_reason v of None \<Rightarrow> pr_reason r | Some c \<Rightarrow> c)"
  by (simp_all add: override_rule_def Let_def split: option.split)

text \<open>Keys of a Go map are distinct, so that each rule is overridden at most once.\<close>

lemma pattern_rule_of_update:
  "pattern_rule_of (AList.update c r m) code = (if code = c then r else pattern_rule_of m code)"
  by (simp add: pattern_rule_of_def update_conv')

lemma override_patterns_lookup:
  "distinct (map fst vs) \<Longrightarrow> map_of (override_patterns vs m) code
     = (case map_of vs code of None \<Rightarrow> map_of m code | Some v \<Rightarrow> Some (override_rule v (pattern_rule_of m code)))"
proof (induction vs m rule: override_patterns.induct)
  case (2 c v vs m)
  then have "c \<notin> fst ` set vs" "distinct (map fst vs)"
    by simp_all
  then show ?case
    using "2.IH" map_of_eq_None_iff [of vs c] by (auto simp: pattern_rule_of_update update_conv' split: option.split)
qed simp

definition good_override :: "screening_policy \<Rightarrow> string \<times> rule_override \<Rightarrow> bool" where
  "good_override base kv \<longleftrightarrow> lookup_in (pp_patterns base) (fst kv) \<noteq> None
     \<and> (\<forall>a. ro_adjustment (snd kv) = Some a \<longrightarrow> \<bar>a\<bar> \<le> 10000)
     \<and> (\<forall>d. ro_maximum (snd kv) = Some d \<longrightarrow> valid_disposition d)
     \<and> (\<forall>c. ro_reason (snd kv) = Some c \<longrightarrow> \<not> blank c)"

lemma check_override_ok: "check_override base kv = Inr () \<longleftrightarrow> good_override base kv"
  by (auto simp: check_override_def good_override_def Let_def split: option.splits)

lemma override_rule_good: "good_override base (c, v) \<Longrightarrow> good_pattern_rule r \<Longrightarrow> good_pattern_rule (override_rule v r)"
  by (auto simp: good_override_def good_pattern_rule_def override_rule_fields split: option.split)

lemma ValidateOverlay_ok:
  assumes "ValidateOverlay sha v base = Inr ()"
  shows "\<forall>kv \<in> set (entries (ov_weights v)). in_bp (snd kv)" "\<forall>kv \<in> set (entries (ov_thresholds v)). in_bp (snd kv)"
    "\<forall>kv \<in> set (entries (ov_patterns v)). good_override base kv"
    "pt_clear_max (pp_thresholds (ApplyOverlay base v)) < pt_escalate_min (pp_thresholds (ApplyOverlay base v))"
    "ov_base v = policy_ref base"
  using assms by (auto simp: ValidateOverlay_def Let_def first_err_ok check_override_ok split: if_splits sum.splits)

definition overlay_keys_distinct :: "overlay \<Rightarrow> bool" where
  "overlay_keys_distinct v \<longleftrightarrow> distinct (map fst (entries (ov_patterns v)))"

lemma entries_Some [simp]: "entries (Some kvs) = kvs"
  by (simp add: entries_def)

lemma ApplyOverlay_patterns:
  "overlay_keys_distinct v \<Longrightarrow> lookup_in (pp_patterns (ApplyOverlay base v)) c
     = (case lookup_in (ov_patterns v) c of None \<Rightarrow> lookup_in (pp_patterns base) c
        | Some o' \<Rightarrow> Some (override_rule o' (pattern_rule_of (entries (pp_patterns base)) c)))"
  by (simp add: ApplyOverlay_def lookup_in_def override_patterns_lookup overlay_keys_distinct_def split: option.split)

lemma ApplyOverlay_others:
  "lookup_in (pp_blockers (ApplyOverlay base v)) = lookup_in (pp_blockers base)"
  "lookup_in (pp_hints (ApplyOverlay base v)) = lookup_in (pp_hints base)"
  "reason_of (ApplyOverlay base v) = reason_of base"
  by (auto simp: ApplyOverlay_def lookup_in_def reason_of_def fun_eq_iff)

lemma ApplyOverlay_good:
  assumes base: "good_policy base" and v: "ValidateOverlay sha v base = Inr ()" and d: "overlay_keys_distinct v"
  shows "good_policy (ApplyOverlay base v)"
proof -
  note ok = ValidateOverlay_ok [OF v]
  have w: "in_bp x" if "lookup_in (ov_weights v) k = Some x" for k x
    using ok(1) lookup_entries [OF that] by auto
  have t: "in_bp x" if "lookup_in (ov_thresholds v) k = Some x" for k x
    using ok(2) lookup_entries [OF that] by auto
  have "good_weights (pp_weights (ApplyOverlay base v))"
    using base by (auto simp: good_policy_def good_weights_def ApplyOverlay_def override_weights_fields intro: w
        split: option.split)
  moreover have "good_thresholds (pp_thresholds (ApplyOverlay base v))"
    using base ok(4) by (auto simp: good_policy_def good_thresholds_def ApplyOverlay_def override_thresholds_fields intro: t
        split: option.split)
  moreover have "good_pattern_rule r" if r: "lookup_in (pp_patterns (ApplyOverlay base v)) c = Some r" for c r
  proof (cases "lookup_in (ov_patterns v) c")
    case None
    then show ?thesis
      using r base unfolding ApplyOverlay_patterns [OF d] good_policy_def by simp
  next
    case (Some o')
    have g: "good_override base (c, o')"
      using ok(3) lookup_entries [OF Some] by blast
    then have "lookup_in (pp_patterns base) c \<noteq> None"
      by (simp add: good_override_def)
    then obtain r0 where "lookup_in (pp_patterns base) c = Some r0"
      by blast
    moreover have "good_pattern_rule r0"
      using calculation base unfolding good_policy_def by blast
    moreover have "r = override_rule o' (pattern_rule_of (entries (pp_patterns base)) c)"
      using r Some by (simp add: ApplyOverlay_patterns [OF d])
    ultimately show ?thesis
      using override_rule_good [OF g, of r0] by (simp add: pattern_rule_of_def lookup_in_def)
  qed
  moreover have "lookup_in (pp_patterns (ApplyOverlay base v)) c \<noteq> None" if "c \<in> set required_patterns" for c
  proof -
    have "lookup_in (pp_patterns base) c \<noteq> None"
      using base that by (simp add: good_policy_def)
    then show ?thesis
      by (simp add: ApplyOverlay_patterns [OF d] split: option.split)
  qed
  moreover have "(\<forall>b r. lookup_in (pp_blockers base) b = Some r \<longrightarrow> valid_disposition (br_maximum r))
      \<and> (\<forall>h \<in> set route_hints. \<exists>r. lookup_in (pp_hints base) h = Some r \<and> good_hint r)
      \<and> (\<forall>k \<in> set reason_keys. \<not> blank (reason_of base k))"
    using base by (simp add: good_policy_def)
  ultimately show ?thesis
    unfolding good_policy_def ApplyOverlay_others by blast
qed


section \<open>Accumulation\<close>

lemma dispositionRank_iff:
  "dispositionRank d \<ge> 0 \<longleftrightarrow> valid_disposition d" "dispositionRank d \<ge> 2 \<longleftrightarrow> d = ''escalate''"
  by (auto simp: dispositionRank_def valid_disposition_def)

lemma rank_minDisposition: "dispositionRank (minDisposition a b) = min (dispositionRank a) (dispositionRank b)"
  by (simp add: minDisposition_def)

lemma addWeighted_frame:
  "es_maximum (addWeighted code i w s d st) = es_maximum st" "es_reasons (addWeighted code i w s d st) = es_reasons st"
  "es_trace (addWeighted code i w s d st) = es_trace st"
  "es_score (addWeighted code i w s d st) = wrap64 (es_score st + weighted_delta i w s)"
  "length (es_components (addWeighted code i w s d st)) = Suc (length (es_components st))"
  "map co_delta (es_components (addWeighted code i w s d st)) = map co_delta (es_components st) @ [weighted_delta i w s]"
  by (simp_all add: addWeighted_def Let_def mk_component_def)

lemma patterns_fold:
  "k \<le> dispositionRank (es_maximum (foldl (pattern_step p) st ps)) \<longleftrightarrow> k \<le> dispositionRank (es_maximum st)
     \<and> (\<forall>e \<in> set ps. k \<le> dispositionRank (pr_maximum (pattern_rule_of (entries (pp_patterns p)) (pe_code e))))"
  "es_score (foldl (pattern_step p) st ps)
     = foldl (\<lambda>s e. wrap64 (s + pr_adjustment (pattern_rule_of (entries (pp_patterns p)) (pe_code e)))) (es_score st) ps"
  "length (es_components (foldl (pattern_step p) st ps)) = length (es_components st) + length ps"
  "map co_delta (es_components (foldl (pattern_step p) st ps)) = map co_delta (es_components st)
     @ map (\<lambda>e. pr_adjustment (pattern_rule_of (entries (pp_patterns p)) (pe_code e))) ps"
  by (induction ps arbitrary: st) (auto simp: pattern_step_def Let_def rank_minDisposition mk_component_def)

lemma blockers_fold:
  "k \<le> dispositionRank (es_maximum (foldl (blocker_step p) st bs)) \<longleftrightarrow> k \<le> dispositionRank (es_maximum st)
     \<and> (\<forall>b \<in> set bs. \<forall>r. lookup_in (pp_blockers p) b = Some r \<longrightarrow> k \<le> dispositionRank (br_maximum r))"
  "es_score (foldl (blocker_step p) st bs) = es_score st"
  "es_components (foldl (blocker_step p) st bs) = es_components st"
  by (induction bs arbitrary: st) (auto simp: blocker_step_def rank_minDisposition split: option.split)

lemma hint_step_frame:
  "es_maximum (hint_step p h st) = minDisposition (es_maximum st) (hr_maximum (hint_rule_of p h))"
  "es_score (hint_step p h st) = es_score st" "es_components (hint_step p h st) = es_components st"
  "es_reasons (hint_step p h st) = es_reasons st @ [hr_reason (hint_rule_of p h)]"
  by (simp_all add: hint_step_def Let_def)

lemmas accumulate_frame = addWeighted_frame patterns_fold blockers_fold hint_step_frame

lemma accumulate_maximum:
  "k \<le> dispositionRank (es_maximum (accumulate p c)) \<longleftrightarrow> k \<le> 2
     \<and> (\<forall>e \<in> set (cl_patterns c). k \<le> dispositionRank (pr_maximum (pattern_rule_of (entries (pp_patterns p)) (pe_code e))))
     \<and> (\<forall>b \<in> set (cl_blockers c). \<forall>r. lookup_in (pp_blockers p) b = Some r \<longrightarrow> k \<le> dispositionRank (br_maximum r))
     \<and> k \<le> dispositionRank (hr_maximum (hint_rule_of p (cl_route c)))"
  by (simp add: accumulate_def Let_def accumulate_frame rank_minDisposition) (auto simp: dispositionRank_def)

lemma foldl_wrap64:
  assumes "\<forall>x \<in> set xs. \<bar>f x\<bar> \<le> 10000" and "\<bar>s\<bar> + 10000 * int (length xs) < 2 ^ 63"
  shows "foldl (\<lambda>s x. wrap64 (s + f x)) s xs = s + (\<Sum>x \<leftarrow> xs. f x)"
  using assms
proof (induction xs arbitrary: s)
  case (Cons x xs)
  have "wrap64 (s + f x) = s + f x"
    using Cons.prems by (intro wrap64_id) (auto simp: in_int64_def)
  then show ?case
    using Cons.prems Cons.IH [of "s + f x"] by (auto simp: algebra_simps)
qed simp

lemma in_bp_bounds: "in_bp a \<Longrightarrow> in_bp b \<Longrightarrow> 0 \<le> a * b \<and> a * b \<le> 100000000"
  using mult_mono [of a 10000 b 10000] by (simp add: in_bp_def)

lemma weighted_delta_bp:
  assumes "in_bp a" "in_bp b"
  shows "weighted_delta a b 1 = a * b div 10000" "weighted_delta a b (-1) = - (a * b div 10000)"
    "0 \<le> a * b div 10000" "a * b div 10000 \<le> 10000"
proof -
  have r: "0 \<le> a * b" "a * b \<le> 100000000"
    using in_bp_bounds [OF assms] by simp_all
  then show d: "0 \<le> a * b div 10000" "a * b div 10000 \<le> 10000"
    by auto
  have w: "wrap64 (a * b) = a * b" 
    using r by (intro wrap64_id) (simp add: in_int64_def)
  show "weighted_delta a b 1 = a * b div 10000" "weighted_delta a b (-1) = - (a * b div 10000)"
    using d r by (simp_all add: weighted_delta_def w quot64_nonneg wrap64_id in_int64_def)
qed

text \<open>Evidence within its range: what the classifier produces and the score formula needs.\<close>

definition evidence_in_range :: "classification \<Rightarrow> bool" where
  "evidence_in_range c \<longleftrightarrow> in_bp (fo_score (cl_observation c)) \<and> in_bp (su_countervailing (cl_summary c))
     \<and> in_bp (su_release (cl_summary c)) \<and> length (cl_patterns c) \<le> 2 ^ 40"

definition policy_score :: "screening_policy \<Rightarrow> classification \<Rightarrow> int" where
  "policy_score p c = fo_score (cl_observation c) * sw_screening (pp_weights p) div 10000
     + su_countervailing (cl_summary c) * sw_countervailing (pp_weights p) div 10000
     - su_release (cl_summary c) * sw_release (pp_weights p) div 10000
     + (\<Sum>e \<leftarrow> cl_patterns c. pr_adjustment (pattern_rule_of (entries (pp_patterns p)) (pe_code e)))"

lemma pattern_rule_small: "good_policy p \<Longrightarrow> \<bar>pr_adjustment (pattern_rule_of (entries (pp_patterns p)) c)\<bar> \<le> 10000"
  by (auto simp: good_policy_def good_pattern_rule_def pattern_rule_of_def lookup_in_def zero_rule_def split: option.split)

lemma sum_list_sort_by: "(\<Sum>x \<leftarrow> sort_by lt xs. f x) = (\<Sum>x \<leftarrow> xs. f x :: int)"
  by (metis mset_map mset_sort_by sum_mset_sum_list)

lemma accumulate_score:
  assumes p: "good_policy p" and c: "evidence_in_range c"
  shows "es_score (accumulate p c) = policy_score p c"
proof -
  have w: "in_bp (sw_screening (pp_weights p))" "in_bp (sw_countervailing (pp_weights p))" "in_bp (sw_release (pp_weights p))"
    using p by (simp_all add: good_policy_def good_weights_def)
  note e = c [unfolded evidence_in_range_def]
  let ?a = "fo_score (cl_observation c) * sw_screening (pp_weights p) div 10000"
  let ?b = "su_countervailing (cl_summary c) * sw_countervailing (pp_weights p) div 10000"
  let ?r = "su_release (cl_summary c) * sw_release (pp_weights p) div 10000"
  have d: "0 \<le> ?a" "?a \<le> 10000" "0 \<le> ?b" "?b \<le> 10000" "0 \<le> ?r" "?r \<le> 10000"
    using weighted_delta_bp(3,4) w e by blast+
  then have wr: "wrap64 ?a = ?a" "wrap64 (?a + ?b) = ?a + ?b" "wrap64 (?a + ?b - ?r) = ?a + ?b - ?r"
    by (simp_all add: wrap64_id in_int64_def)
  define n where "n = int (length (cl_patterns c))"
  have "n \<le> 1099511627776"
    using e by (simp add: n_def)
  moreover have "\<bar>?a + ?b - ?r\<bar> \<le> 30000"
    using d by linarith
  ultimately have "\<bar>?a + ?b - ?r\<bar> + 10000 * n < 9223372036854775808"
    by linarith
  then have "\<bar>?a + ?b - ?r\<bar> + 10000 * int (length (sort_by evidence_less (cl_patterns c))) < 2 ^ 63"
    by (simp add: n_def)
  then show ?thesis
    using e w pattern_rule_small [OF p]
    by (simp add: accumulate_def Let_def accumulate_frame weighted_delta_bp wr foldl_wrap64 policy_score_def sum_list_sort_by)
qed

end
