(* ===== verification/PolicyDecisions.thy ===== *)
theory PolicyDecisions imports PolicyProofs begin

text \<open>
  Decisions and batches pass their own validation, and the disposition of an evaluation in the
  terms of the design document; classifier output is in the range the score formula needs.
\<close>

section \<open>Decisions validate\<close>

lemma policy_canonicalStrings_sorted: "sorted (policy_canonicalStrings xs)"
  by (simp add: policy_canonicalStrings_def sorted_remdups_adj sorted_filter [of id, simplified])

lemma policy_canonicalStrings_set: "set (policy_canonicalStrings xs) = {s \<in> set xs. s \<noteq> []}"
  by (auto simp: policy_canonicalStrings_def)

lemma gates_valid: "valid_disposition (gr_disposition (gates p c m s))" "valid_review_route (gr_route (gates p c m s))"
  by (simp_all add: gates_def clear_gate_def Let_def valid_disposition_def valid_review_route_def)

lemma accumulate_components: "length (es_components (accumulate p c)) = 3 + length (cl_patterns c)"
  by (simp add: accumulate_def Let_def accumulate_frame)

lemma accumulate_reason: "hr_reason (hint_rule_of p (cl_route c)) \<in> set (es_reasons (accumulate p c))"
  by (simp add: accumulate_def Let_def accumulate_frame)

lemma clamp_bp_range: "in_bp (clamp_bp s)"
  by (simp add: clamp_bp_def Let_def in_bp_def)

lemma not_blank_nonempty: "\<not> blank s \<Longrightarrow> s \<noteq> []"
  by (auto simp: blank_def)

lemma hint_rule_good:
  assumes "good_policy p" and "validRouteHint h"
  shows "good_hint (hint_rule_of p h)"
proof -
  have "h \<in> set route_hints"
    using assms(2) by (auto simp: validRouteHint_def route_hints_def)
  then obtain r where "lookup_in (pp_hints p) h = Some r" "good_hint r"
    using assms(1) unfolding good_policy_def by blast
  then show ?thesis
    by (simp add: hint_rule_of_def)
qed

lemma evaluate_id: "de_id (evaluate sha e c) = stableDecisionID sha (evaluate sha e c)"
  by (simp add: evaluate_def Let_def stableDecisionID_def)

lemma evaluate_fields:
  "de_classification (evaluate sha e c) = c" "de_policy (evaluate sha e c) = policy_ref (eg_base e)"
  "de_overlay (evaluate sha e c) = map_option overlay_ref (eg_overlay e)"
  "de_before_clamp (evaluate sha e c) = es_score (accumulate (eg_effective e) c)"
  "de_score (evaluate sha e c) = clamp_bp (es_score (accumulate (eg_effective e) c))"
  "de_components (evaluate sha e c) = es_components (accumulate (eg_effective e) c)"
  "de_disposition (evaluate sha e c) = gr_disposition (gates (eg_effective e) c (es_maximum (accumulate (eg_effective e) c))
     (clamp_bp (es_score (accumulate (eg_effective e) c))))"
  "de_route (evaluate sha e c) = gr_route (gates (eg_effective e) c (es_maximum (accumulate (eg_effective e) c))
     (clamp_bp (es_score (accumulate (eg_effective e) c))))"
  "de_blockers (evaluate sha e c) = policy_canonicalStrings (cl_blockers c @ gr_blockers (gates (eg_effective e) c
     (es_maximum (accumulate (eg_effective e) c)) (clamp_bp (es_score (accumulate (eg_effective e) c)))))"
  by (simp_all add: evaluate_def Let_def)

lemma evaluate_valid:
  assumes p: "good_policy (eg_effective e)" and c: "ValidateClassification u sha c = Inr ()"
  shows "ValidateDecision u sha (evaluate sha e c) = Inr ()"
proof -
  let ?d = "evaluate sha e c"
  have "validRouteHint (cl_route c)"
    using c by (auto simp: ValidateClassification_def split: if_splits)
  then have "hr_reason (hint_rule_of (eg_effective e) (cl_route c)) \<noteq> []"
    using hint_rule_good [OF p] by (auto simp: good_hint_def dest: not_blank_nonempty)
  then have "hr_reason (hint_rule_of (eg_effective e) (cl_route c)) \<in> set (de_reasons ?d)"
    using accumulate_reason by (simp add: evaluate_def Let_def policy_canonicalStrings_set)
  then have r: "de_reasons ?d \<noteq> []"
    by auto
  have "de_id ?d \<noteq> []"
    by (simp add: evaluate_id stableDecisionID_def digestID_def)
  moreover have "de_trace ?d \<noteq> []" "3 \<le> length (de_components ?d)"
    by (simp_all add: evaluate_def Let_def accumulate_components)
  moreover have "sorted (de_reasons ?d)" "sorted (de_blockers ?d)" "sorted (de_required ?d)"
    by (simp_all add: evaluate_def Let_def policy_canonicalStrings_sorted)
  moreover have "de_schema ?d = ''transaction-screening-decision/v1alpha1''" "de_engine ?d = ''transaction-policy-engine/v0.1.0''"
    by (simp_all add: evaluate_def Let_def)
  ultimately show ?thesis
    using c r evaluate_id [of sha e c] by (simp add: ValidateDecision_def evaluate_fields clamp_bp_range gates_valid)
qed

lemma NewPolicyEngine_ok:
  assumes "NewPolicyEngine sha p ov = Inr e" and "\<forall>v. ov = Some v \<longrightarrow> overlay_keys_distinct v"
  shows "good_policy (eg_effective e)" "eg_base e = p" "eg_overlay e = ov"
    "eg_effective e = (case ov of None \<Rightarrow> p | Some v \<Rightarrow> ApplyOverlay p v)"
proof -
  have v: "ValidatePolicy sha p = Inr ()"
    using assms(1) by (auto simp: NewPolicyEngine_def split: sum.splits)
  show "good_policy (eg_effective e)" "eg_base e = p" "eg_overlay e = ov"
    "eg_effective e = (case ov of None \<Rightarrow> p | Some v \<Rightarrow> ApplyOverlay p v)"
    using assms v ValidatePolicy_ok [OF v] ApplyOverlay_good [OF ValidatePolicy_ok [OF v]]
    by (auto simp: NewPolicyEngine_def split: sum.splits option.splits)
qed

lemma check_classifications_valid:
  "check_classifications u sha b i seen cs = Inr () \<Longrightarrow> \<forall>c \<in> set cs. ValidateClassification u sha c = Inr ()"
  by (induction u sha b i seen cs rule: check_classifications.induct) (auto split: sum.splits if_splits)

lemma ValidateClassificationBatch_items:
  "ValidateClassificationBatch u sha b = Inr () \<Longrightarrow> c \<in> set (cb_items b) \<Longrightarrow> ValidateClassification u sha c = Inr ()"
  using check_classifications_valid [of u sha b 0 "[]" "cb_items b"]
  by (auto simp: ValidateClassificationBatch_def split: if_splits sum.splits)

lemma check_decisions_Inr:
  "\<forall>d \<in> set ds. ValidateDecision u sha d = Inr () \<and> de_policy d = db_policy b \<and> de_overlay d = db_overlay b
     \<Longrightarrow> check_decisions u sha b i ds = Inr ()"
  by (induction ds arbitrary: i) auto

lemma EvaluateBatch_Inr:
  assumes p: "good_policy (eg_effective e)" and v: "ValidateClassificationBatch u sha x = Inr ()" and ne: "cb_items x \<noteq> []"
  shows "\<exists>b. EvaluateBatch u sha e x = Inr b \<and> db_decisions b = map (evaluate sha e) (cb_items x)"
proof -
  let ?ds = "map (evaluate sha e) (cb_items x)"
  define b0 where "b0 = \<lparr>db_schema = ''transaction-screening-decision-batch/v1alpha1'', db_id = [], db_input = cb_id x,
      db_engine = ''transaction-policy-engine/v0.1.0'', db_policy = policy_ref (eg_base e),
      db_overlay = map_option overlay_ref (eg_overlay e), db_summary = summarize ?ds, db_decisions = ?ds\<rparr>"
  define b where "b = b0\<lparr>db_id := stableBatchID sha b0\<rparr>"
  have "\<forall>d \<in> set ?ds. ValidateDecision u sha d = Inr () \<and> de_policy d = db_policy b \<and> de_overlay d = db_overlay b"
    using evaluate_valid [OF p ValidateClassificationBatch_items [OF v]] by (auto simp: b_def b0_def evaluate_fields)
  then have "check_decisions u sha b 0 ?ds = Inr ()"
    by (rule check_decisions_Inr)
  moreover have "cb_id x \<noteq> []"
    using v by (auto simp: ValidateClassificationBatch_def batch_strings_def blank_def split: if_splits)
  moreover have "db_id b = stableBatchID sha b"
    by (simp add: b_def stableBatchID_def)
  moreover have "stableBatchID sha b0 \<noteq> []"
    by (simp add: stableBatchID_def digestID_def)
  ultimately have "ValidateDecisionBatch u sha b = Inr ()"
    using ne by (simp add: ValidateDecisionBatch_def) (simp add: b_def b0_def)
  then show ?thesis
    using v by (simp add: EvaluateBatch_def b_def b0_def Let_def)
qed

lemma EvaluateBatch_decisions:
  assumes "EvaluateBatch u sha e x = Inr b"
  shows "db_decisions b = map (evaluate sha e) (cb_items x)" "ValidateClassificationBatch u sha x = Inr ()"
    "ValidateDecisionBatch u sha b = Inr ()" "db_summary b = summarize (db_decisions b)"
  using assms by (auto simp: EvaluateBatch_def Let_def split: sum.splits)


section \<open>The documented decision\<close>

text \<open>
  The score formula and the two gates as the design document of the policy engine states them,
  over the policy and the classification alone: no accumulated state, no order of evaluation.
\<close>

definition caps :: "screening_policy \<Rightarrow> classification \<Rightarrow> string list" where
  "caps p c = map (\<lambda>e. pr_maximum (pattern_rule_of (entries (pp_patterns p)) (pe_code e))) (cl_patterns c)
     @ List.map_filter (\<lambda>b. map_option br_maximum (lookup_in (pp_blockers p) b)) (cl_blockers c) @ [hr_maximum (hint_rule_of p (cl_route c))]"

definition documented_disposition :: "screening_policy \<Rightarrow> classification \<Rightarrow> string" where
  "documented_disposition p c =
     (let score = clamp_bp (policy_score p c); t = pp_thresholds p in
      if score \<ge> pt_escalate_min t \<and> ct_escalation (pp_controls p)
         \<and> fo_trigger (cl_observation c) = ''candidate_alert''
         \<and> su_countervailing (cl_summary c) \<ge> pt_min_countervailing t
         \<and> cl_blockers c = [] \<and> (\<forall>m \<in> set (caps p c). m = ''escalate'') then ''escalate''
      else if score \<le> pt_clear_max t \<and> ct_auto_clear (pp_controls p)
         \<and> cl_route c = ''clear_or_auto_release_eligible''
         \<and> su_release (cl_summary c) \<ge> pt_min_release t then ''clear''
      else ''investigate'')"

lemma map_filter_ball: "(\<forall>m \<in> set (List.map_filter f xs). Q m) \<longleftrightarrow> (\<forall>x \<in> set xs. \<forall>y. f x = Some y \<longrightarrow> Q y)"
  by (induction xs) (auto simp: List.map_filter_simps split: option.split)

lemma set_caps:
  "(\<forall>m \<in> set (caps p c). Q m) \<longleftrightarrow>
     (\<forall>e \<in> set (cl_patterns c). Q (pr_maximum (pattern_rule_of (entries (pp_patterns p)) (pe_code e))))
     \<and> (\<forall>b \<in> set (cl_blockers c). \<forall>r. lookup_in (pp_blockers p) b = Some r \<longrightarrow> Q (br_maximum r))
     \<and> Q (hr_maximum (hint_rule_of p (cl_route c)))"
  by (auto simp: caps_def ball_Un map_filter_ball)

lemma maximum_caps:
  "k \<le> 2 \<Longrightarrow> k \<le> dispositionRank (es_maximum (accumulate p c)) \<longleftrightarrow> (\<forall>m \<in> set (caps p c). k \<le> dispositionRank m)"
  unfolding accumulate_maximum set_caps by blast

definition patterns_known :: "screening_policy \<Rightarrow> classification \<Rightarrow> bool" where
  "patterns_known p c \<longleftrightarrow> (\<forall>e \<in> set (cl_patterns c). lookup_in (pp_patterns p) (pe_code e) \<noteq> None)"

lemma caps_valid:
  assumes p: "good_policy p" and "patterns_known p c" and "validRouteHint (cl_route c)"
  shows "\<forall>m \<in> set (caps p c). valid_disposition m"
proof -
  have "valid_disposition (pr_maximum (pattern_rule_of (entries (pp_patterns p)) (pe_code e)))" if e: "e \<in> set (cl_patterns c)" for e
  proof -
    obtain r where r: "lookup_in (pp_patterns p) (pe_code e) = Some r"
      using assms(2) e unfolding patterns_known_def by blast
    then have "good_pattern_rule r"
      using p unfolding good_policy_def by blast
    then show ?thesis
      using r by (simp add: pattern_rule_of_def lookup_in_def good_pattern_rule_def)
  qed
  moreover have "valid_disposition (hr_maximum (hint_rule_of p (cl_route c)))"
    using hint_rule_good [OF p assms(3)] by (simp add: good_hint_def)
  moreover have "valid_disposition (br_maximum r)" if "lookup_in (pp_blockers p) b = Some r" for b r
    using p that unfolding good_policy_def by blast
  ultimately show ?thesis
    unfolding set_caps by blast
qed

lemma gates_disposition:
  "gr_disposition (gates p c m s) =
     (if s \<ge> pt_escalate_min (pp_thresholds p) \<and> escalation_allowed p c m then ''escalate''
      else if clear_allowed p c m s then ''clear'' else ''investigate'')"
  by (simp add: gates_def clear_gate_def Let_def)

lemma evaluate_documented:
  assumes p: "good_policy (eg_effective e)" and k: "patterns_known (eg_effective e) c" and h: "validRouteHint (cl_route c)"
    and r: "evidence_in_range c"
  shows "de_disposition (evaluate sha e c) = documented_disposition (eg_effective e) c"
proof -
  let ?p = "eg_effective e"
  have "2 \<le> dispositionRank (es_maximum (accumulate ?p c)) \<longleftrightarrow> (\<forall>m \<in> set (caps ?p c). m = ''escalate'')"
    using maximum_caps [of 2 ?p c] by (simp add: dispositionRank_iff)
  moreover have "0 \<le> dispositionRank (es_maximum (accumulate ?p c))"
    using caps_valid [OF p k h] maximum_caps [of 0 ?p c] by (simp add: dispositionRank_iff)
  moreover have "dispositionRank ''escalate'' = 2" "dispositionRank ''clear'' = 0"
    by (simp_all add: dispositionRank_def)
  ultimately show ?thesis
    by (auto simp: evaluate_fields accumulate_score [OF p r] gates_disposition documented_disposition_def Let_def
        escalation_allowed_def clear_allowed_def)
qed

text \<open>The score components by name: three weighted scores, then the adjustment of every pattern, by code.\<close>

definition documented_components :: "screening_policy \<Rightarrow> classification \<Rightarrow> (string \<times> int) list" where
  "documented_components p c =
     [(''screening_score'', fo_score (cl_observation c) * sw_screening (pp_weights p) div 10000),
      (''countervailing_support'', su_countervailing (cl_summary c) * sw_countervailing (pp_weights p) div 10000),
      (''release_support'', - (su_release (cl_summary c) * sw_release (pp_weights p) div 10000))]
     @ map (\<lambda>e. (''pattern:'' @ pe_code e, pr_adjustment (pattern_rule_of (entries (pp_patterns p)) (pe_code e))))
         (sort_by evidence_less (cl_patterns c))"

lemma documented_sum: "(\<Sum>(n, d) \<leftarrow> documented_components p c. d) = policy_score p c"
  by (simp add: documented_components_def policy_score_def sum_list_sort_by comp_def)

lemma named_components:
  "map (\<lambda>x. (co_code x, co_delta x)) (es_components (addWeighted code i w s d st))
     = map (\<lambda>x. (co_code x, co_delta x)) (es_components st) @ [(code, weighted_delta i w s)]"
  "map (\<lambda>x. (co_code x, co_delta x)) (es_components (foldl (pattern_step p) st ps))
     = map (\<lambda>x. (co_code x, co_delta x)) (es_components st)
       @ map (\<lambda>e. (''pattern:'' @ pe_code e, pr_adjustment (pattern_rule_of (entries (pp_patterns p)) (pe_code e)))) ps"
  by (simp add: addWeighted_def Let_def mk_component_def)
    (induction ps arbitrary: st, simp_all add: pattern_step_def Let_def mk_component_def)

lemma evaluate_components:
  assumes p: "good_policy (eg_effective e)" and r: "evidence_in_range c"
  shows "map (\<lambda>x. (co_code x, co_delta x)) (de_components (evaluate sha e c)) = documented_components (eg_effective e) c"
proof -
  have w: "in_bp (sw_screening (pp_weights (eg_effective e)))" "in_bp (sw_countervailing (pp_weights (eg_effective e)))"
    "in_bp (sw_release (pp_weights (eg_effective e)))"
    using p by (simp_all add: good_policy_def good_weights_def)
  then show ?thesis
    using r unfolding evaluate_fields
    by (simp add: accumulate_def Let_def accumulate_frame named_components weighted_delta_bp evidence_in_range_def documented_components_def
        del: map_map)
qed

section \<open>Classifier output\<close>

lemma classify_in_range:
  assumes l: "good_library l" and k: "\<forall>c \<in> set required_patterns. lookup_pattern l c \<noteq> None" and cv: "good_cv p"
    and v: "ValidateObservation u sha x = Inr ()"
  shows "evidence_in_range (classify u sha l p x)" "\<forall>e \<in> set (cl_patterns (classify u sha l p x)). pe_code e \<in> set required_patterns"
proof -
  let ?c = "classify u sha l p x"
  have "check_evidence e = Inr ()" if "e \<in> set (classify_patterns u l x)" for e
    using patterns_ok(2) [OF l k, of u x] that by (simp add: first_err_ok)
  then have "in_bp (pe_strength e)" if "e \<in> set (classify_patterns u l x)" for e
    using that by (fastforce simp: check_evidence_def split: if_splits)
  then have "0 \<le> release_support (classify_patterns u l x)"
    by (auto simp: release_support_def Let_def in_bp_def intro!: sum_list_nonneg)
  then have 1: "in_bp (release_support (classify_patterns u l x))"
    by (simp add: in_bp_def release_support_def Let_def)
  have "check_signal s = Inr ()" if "s \<in> set (countervailingSignals p x)" for s
    using signals_ok(2) [OF cv, of x] that by (simp add: first_err_ok)
  then have "in_bp (sg_strength s)" if "s \<in> set (countervailingSignals p x)" for s
    using that by (fastforce simp: check_signal_def split: if_splits)
  then have "0 \<le> countervailing_support (countervailingSignals p x)"
    by (auto simp: countervailing_support_def Let_def in_bp_def intro!: sum_list_nonneg)
  then have 2: "in_bp (countervailing_support (countervailingSignals p x))"
    by (simp add: in_bp_def countervailing_support_def Let_def)
  have "length (pattern_hits u x) \<le> 10"
    by (simp add: pattern_hits_def)
  then have 3: "length (classify_patterns u l x) \<le> 10"
    by (simp add: classify_patterns_def)
  have 4: "in_bp (fo_score x)"
    using v by (auto simp: ValidateObservation_def split: if_splits)
  show "evidence_in_range ?c"
    using 1 2 3 4 by (simp add: evidence_in_range_def classify_def Let_def)
  show "\<forall>e \<in> set (cl_patterns ?c). pe_code e \<in> set required_patterns"
    using hits_facts by (auto simp: classify_def Let_def classify_patterns_def evidence_of_def)
qed

end
