(* ===== verification/PolicyProps.thy ===== *)
theory PolicyProps imports PolicyDecisions begin

text \<open>
  The properties of the policy engine, alone and composed with the classifier, with a concrete
  policy, overlay and classifications on which their hypotheses hold.
\<close>

section \<open>A concrete policy and overlay\<close>

definition demo_screening :: screening_policy where
  "demo_screening = \<lparr>pp_schema = ''transaction-screening-policy/v1alpha1'', pp_id = ''p'', pp_version = ''v'',
     pp_checksum = demo_sha [],
     pp_weights = \<lparr>sw_screening = 6000, sw_countervailing = 4000, sw_release = 5000\<rparr>,
     pp_thresholds = \<lparr>pt_clear_max = 2500, pt_escalate_min = 8500, pt_min_release = 6000, pt_min_countervailing = 9000\<rparr>,
     pp_controls = \<lparr>ct_auto_clear = True, ct_escalation = True\<rparr>,
     pp_patterns = Some (map (\<lambda>c. (c, \<lparr>pr_adjustment = -1500, pr_maximum = ''clear'', pr_reason = c\<rparr>)) required_patterns),
     pp_blockers = None,
     pp_hints = Some (map (\<lambda>h. (h, \<lparr>hr_route = ''standard_review'', hr_maximum = ''escalate'', hr_reason = h\<rparr>)) route_hints),
     pp_reasons = Some (map (\<lambda>k. (k, k)) reason_keys)\<rparr>"

lemma demo_patterns_lookup:
  "lookup_in (pp_patterns demo_screening) c =
     (if c \<in> set required_patterns then Some \<lparr>pr_adjustment = -1500, pr_maximum = ''clear'', pr_reason = c\<rparr> else None)"
  by (auto simp: demo_screening_def lookup_in_def map_of_map_restrict map_of_eq_None_iff restrict_map_def
      map_of_map_keys)

lemma map_of_keyed: "map_of (map (\<lambda>k. (k, f k)) ks) k = (if k \<in> set ks then Some (f k) else None)"
  by (induction ks) auto

lemma demo_screening_lookups:
  "lookup_in (pp_hints demo_screening) h =
     (if h \<in> set route_hints then Some \<lparr>hr_route = ''standard_review'', hr_maximum = ''escalate'', hr_reason = h\<rparr> else None)"
  "reason_of demo_screening k = (if k \<in> set reason_keys then k else [])"
  by (simp_all add: demo_screening_def lookup_in_def reason_of_def map_of_keyed)

lemma demo_screening_ok: "ValidatePolicy demo_sha demo_screening = Inr ()"
proof -
  have nb: "\<not> blank ''p''" "\<not> blank ''v''" "\<not> blank (demo_sha [])"
    by (simp_all add: letter_not_blank byte_of_def go_defs) (simp add: demo_sha_def not_blank_ascii byte_of_def IsSpace_def eval_nat_numeral)
  have rb: "\<forall>c \<in> set required_patterns. \<not> blank c" "\<forall>h \<in> set route_hints. \<not> blank h" "\<forall>k \<in> set reason_keys. \<not> blank k"
    by (simp_all add: required_patterns_def route_hints_def reason_keys_def letter_not_blank byte_of_def go_defs)
  have v: "validatePatternRule \<lparr>pr_adjustment = -1500, pr_maximum = ''clear'', pr_reason = c\<rparr> = Inr ()"
    if "c \<in> set required_patterns" for c
    using rb(1) that by (simp add: validatePatternRule_def valid_disposition_def)
  have "check_required_patterns (pp_patterns demo_screening) cs = Inr ()" if "set cs \<subseteq> set required_patterns" for cs
    using that by (induction cs) (simp_all add: demo_patterns_lookup v)
  moreover have "first_err (\<lambda>kv. validatePatternRule (snd kv)) (entries (pp_patterns demo_screening)) = Inr ()"
    by (auto simp: first_err_ok demo_screening_def v)
  moreover have "entries (pp_blockers demo_screening) = []"
    by (simp add: demo_screening_def entries_def)
  moreover have "check_hints (pp_hints demo_screening) hs = Inr ()" if "set hs \<subseteq> set route_hints" for hs
    using that rb(2) by (induction hs)
      (simp_all add: demo_screening_lookups check_hint_def valid_disposition_def valid_review_route_def)
  moreover have "find (\<lambda>k. blank (reason_of demo_screening k)) reason_keys = None"
    using rb(3) by (auto simp: find_None_iff demo_screening_lookups)
  moreover have "pp_schema demo_screening = ''transaction-screening-policy/v1alpha1''" "pp_id demo_screening = ''p''"
    "pp_version demo_screening = ''v''" "pp_checksum demo_screening = demo_sha []"
    "pp_weights demo_screening = \<lparr>sw_screening = 6000, sw_countervailing = 4000, sw_release = 5000\<rparr>"
    "pp_thresholds demo_screening = \<lparr>pt_clear_max = 2500, pt_escalate_min = 8500, pt_min_release = 6000, pt_min_countervailing = 9000\<rparr>"
    by (simp_all add: demo_screening_def)
  ultimately show ?thesis
    using nb by (simp add: ValidatePolicy_def Let_def in_bp_def PolicyChecksum_def digest_json_def) (simp add: demo_sha_def)
qed

definition demo_engine :: engine where
  "demo_engine = \<lparr>eg_base = demo_screening, eg_effective = demo_screening, eg_overlay = None\<rparr>"

lemma demo_engine_new: "NewPolicyEngine demo_sha demo_screening None = Inr demo_engine"
  by (simp add: NewPolicyEngine_def demo_screening_ok demo_engine_def)

definition demo_overlay :: overlay where
  "demo_overlay = \<lparr>ov_schema = ''tenant-policy-overlay/v1alpha1'', ov_id = ''o'', ov_version = ''v'', ov_checksum = demo_sha [],
     ov_tenant = ''t'', ov_base = policy_ref demo_screening, ov_weights = Some [(''release_support'', 10000)],
     ov_thresholds = Some [(''clear_maximum'', 3000)], ov_controls = Some [(''allow_auto_clear'', False)],
     ov_patterns = Some [(''acronym_collision'', \<lparr>ro_adjustment = Some (-3000), ro_maximum = None, ro_reason = Some ''x''\<rparr>)]\<rparr>"

lemma demo_overlay_ok: "ValidateOverlay demo_sha demo_overlay demo_screening = Inr ()" "overlay_keys_distinct demo_overlay"
proof -
  have nb: "\<not> blank ''o''" "\<not> blank ''v''" "\<not> blank ''t''" "\<not> blank ''x''" "\<not> blank (demo_sha [])"
    by (simp_all add: letter_not_blank byte_of_def go_defs) (simp add: demo_sha_def not_blank_ascii byte_of_def IsSpace_def eval_nat_numeral)
  have "first_err (check_override demo_screening) (entries (ov_patterns demo_overlay)) = Inr ()"
    using nb(4) by (simp add: first_err_ok demo_overlay_def check_override_def demo_patterns_lookup required_patterns_def)
  moreover have "pt_clear_max (pp_thresholds (ApplyOverlay demo_screening demo_overlay))
      < pt_escalate_min (pp_thresholds (ApplyOverlay demo_screening demo_overlay))"
    by (simp add: ApplyOverlay_def override_thresholds_fields demo_overlay_def lookup_in_def) (simp add: demo_screening_def)
  ultimately show "ValidateOverlay demo_sha demo_overlay demo_screening = Inr ()"
    using nb(1-3) nb(5)
    by (simp add: ValidateOverlay_def Let_def OverlayChecksum_def digest_json_def)
      (simp add: demo_overlay_def in_bp_def demo_sha_def)
  show "overlay_keys_distinct demo_overlay"
    by (simp add: overlay_keys_distinct_def demo_overlay_def)
qed


lemma demo_engine_fields: "eg_effective demo_engine = demo_screening" "eg_base demo_engine = demo_screening" "eg_overlay demo_engine = None"
  by (simp_all add: demo_engine_def)

lemma demo_no_overlay: "\<forall>v. None = Some v \<longrightarrow> overlay_keys_distinct v"
  by simp

lemma demo_evaluated:
  "\<exists>y b. ClassifyBatch ascii_tables demo_sha (demo_library, demo_cv) demo_observations = Inr y
     \<and> cb_items y = [classify ascii_tables demo_sha demo_library demo_cv (demo_canonical demo_sha)]
     \<and> ValidateClassificationBatch ascii_tables demo_sha y = Inr ()
     \<and> EvaluateBatch ascii_tables demo_sha demo_engine y = Inr b
     \<and> db_decisions b = map (evaluate demo_sha demo_engine) (cb_items y)"
proof -
  obtain y where y: "ClassifyBatch ascii_tables demo_sha (demo_library, demo_cv) demo_observations = Inr y"
    "cb_items y = [classify ascii_tables demo_sha demo_library demo_cv (demo_canonical demo_sha)]"
    using demo_batch by blast
  have v: "ValidateClassificationBatch ascii_tables demo_sha y = Inr ()"
    by (rule ClassifyBatch_items(3) [OF y(1)])
  have ne: "cb_items y \<noteq> []"
    by (simp add: y(2))
  obtain b where "EvaluateBatch ascii_tables demo_sha demo_engine y = Inr b"
    "db_decisions b = map (evaluate demo_sha demo_engine) (cb_items y)"
    using EvaluateBatch_Inr [OF NewPolicyEngine_ok(1) [OF demo_engine_new demo_no_overlay] v] ne by blast
  with y v show ?thesis
    by blast
qed

definition demo_primary :: classification where
  "demo_primary = classify ascii_tables demo_sha demo_library demo_cv (demo_canonical demo_sha)"

lemma demo_primary_fields:
  "cl_patterns demo_primary = []" "cl_blockers demo_primary = []" "cl_route demo_primary = ''escalation_candidate''"
  "fo_trigger (cl_observation demo_primary) = ''candidate_alert''" "fo_score (cl_observation demo_primary) = 9000"
  "su_countervailing (cl_summary demo_primary) = 9000" "su_release (cl_summary demo_primary) = 0"
proof -
  have r: "exactRouteRule demo_cv ''exact_bic'' ''candidate_alert'' = Some (demo_rule ''exact_bic'' ''primary_identifier'' True)"
    using exactRouteRule_find [OF ValidateCountervailingPolicy_ok [OF demo_cv_ok]]
    by (simp add: demo_cv_def demo_rule_def)
  have s: "countervailingSignals demo_cv (demo_canonical demo_sha)
      = [rule_signal (demo_canonical demo_sha) (demo_rule ''exact_bic'' ''primary_identifier'' True)]"
    by (simp add: countervailingSignals_def demo_canonical_fields r)
  show "cl_patterns demo_primary = []" "cl_blockers demo_primary = []"
    "fo_trigger (cl_observation demo_primary) = ''candidate_alert''" "fo_score (cl_observation demo_primary) = 9000"
    "su_countervailing (cl_summary demo_primary) = 9000" "su_release (cl_summary demo_primary) = 0"
    by (simp_all add: demo_primary_def classify_def Let_def classify_patterns_def demo_no_hits s demo_canonical_fields
        signal_blockers_def hasEscalationEligibleSignal_def rule_signal_def demo_rule_def countervailing_support_def
        release_support_def)
  show "cl_route demo_primary = ''escalation_candidate''"
    using demo_escalates by (simp add: demo_primary_def)
qed

lemma demo_primary_range: "evidence_in_range demo_primary" "patterns_known demo_screening demo_primary"
  by (simp_all add: evidence_in_range_def patterns_known_def demo_primary_fields in_bp_def)

lemma demo_primary_score: "policy_score demo_screening demo_primary = 9000"
  by (simp add: policy_score_def demo_primary_fields) (simp add: demo_screening_def)

lemma demo_primary_documented: "documented_disposition demo_screening demo_primary = ''escalate''"
proof -
  have "caps demo_screening demo_primary = [''escalate'']"
    by (simp add: caps_def demo_primary_fields hint_rule_of_def demo_screening_lookups route_hints_def List.map_filter_simps)
  moreover have "pt_escalate_min (pp_thresholds demo_screening) = 8500" "ct_escalation (pp_controls demo_screening)"
    "pt_min_countervailing (pp_thresholds demo_screening) = 9000"
    by (simp_all add: demo_screening_def)
  ultimately show ?thesis
    by (simp add: documented_disposition_def Let_def demo_primary_score clamp_bp_def demo_primary_fields)
qed

section \<open>Properties\<close>

lemma ValidateClassification_route: "ValidateClassification u sha c = Inr () \<Longrightarrow> validRouteHint (cl_route c)"
  by (auto simp: ValidateClassification_def split: if_splits)

text \<open>
  Evaluation is total: a constructed engine decides every non-empty classification batch that
  validates, one decision for each classification in order, and the batch it returns passes
  \<^verbatim>\<open>ValidateDecisionBatch\<close>. An empty batch, which the classifier's validation accepts, is refused.
\<close>

theorem evaluate_batch_total:
  assumes n: "NewPolicyEngine sha p ov = Inr e" and d: "\<forall>v. ov = Some v \<longrightarrow> overlay_keys_distinct v"
    and v: "ValidateClassificationBatch u sha x = Inr ()"
  shows "if cb_items x = [] then EvaluateBatch u sha e x = Inl (EnOutput DbEmpty)
     else \<exists>b. EvaluateBatch u sha e x = Inr b \<and> db_decisions b = map (evaluate sha e) (cb_items x)
          \<and> ValidateDecisionBatch u sha b = Inr ()"
proof (cases "cb_items x = []")
  case True
  have "cb_id x \<noteq> []"
    using v by (auto simp: ValidateClassificationBatch_def batch_strings_def blank_def split: if_splits)
  then show ?thesis
    using True v by (simp add: EvaluateBatch_def Let_def ValidateDecisionBatch_def stableBatchID_def digestID_def)
next
  case False
  then show ?thesis
    using EvaluateBatch_Inr [OF NewPolicyEngine_ok(1) [OF n d] v] EvaluateBatch_decisions(3) [of u sha e x] by auto
qed

theorem evaluate_batch_total_witness:
  "\<exists>y b. ClassifyBatch ascii_tables demo_sha (demo_library, demo_cv) demo_observations = Inr y
     \<and> EvaluateBatch ascii_tables demo_sha demo_engine y = Inr b \<and> length (db_decisions b) = 1"
proof -
  obtain y where y: "ClassifyBatch ascii_tables demo_sha (demo_library, demo_cv) demo_observations = Inr y"
    "cb_items y = [classify ascii_tables demo_sha demo_library demo_cv (demo_canonical demo_sha)]"
    "ValidateClassificationBatch ascii_tables demo_sha y = Inr ()"
    using demo_evaluated by blast
  then have "cb_items y \<noteq> []" "length (map (evaluate demo_sha demo_engine) (cb_items y)) = 1"
    by simp_all
  then show ?thesis
    using evaluate_batch_total [OF demo_engine_new demo_no_overlay y(3)] y(1) by metis
qed

text \<open>What the classifier produces meets the two conditions of the next property.\<close>

lemma classified_evidence:
  assumes cn: "NewClassifier sha l cv = Inr cfg" and y: "ClassifyBatch u sha cfg ob = Inr y" and c: "c \<in> set (cb_items y)"
    and n: "NewPolicyEngine sha' p ov = Inr e" and d: "\<forall>v. ov = Some v \<longrightarrow> overlay_keys_distinct v"
  shows "evidence_in_range c" and "patterns_known (eg_effective e) c"
proof -
  note ok = NewClassifier_ok [OF cn]
  obtain x where x: "x \<in> set (fb_observations (CanonicalizeObservationBatch u sha ob))" "c = classify u sha l cv x"
    using c ClassifyBatch_items(1) [OF y] ok(1) by auto
  have v: "ValidateObservation u sha x = Inr ()"
    using ClassifyBatch_items(2) [OF y] x(1) check_observations_ok
    by (fastforce simp: ValidateObservationBatch_def split: if_splits sum.splits)
  have in_range: "evidence_in_range c" "\<forall>e \<in> set (cl_patterns c). pe_code e \<in> set required_patterns"
    unfolding x(2) by (rule classify_in_range [OF ok(2) _ ok(3) v]; use ok(4) in blast)+
  then show "evidence_in_range c"
    by simp
  show "patterns_known (eg_effective e) c"
    using in_range(2) NewPolicyEngine_ok(1) [OF n d] by (simp add: patterns_known_def good_policy_def)
qed

text \<open>
  C25. Evaluation refines the documented decision procedure. For every decision on a classification whose evidence
  is in range (scores between 0 and 10000) and whose patterns the policy knows, both of which hold of whatever the
  classifier produces: the score before clamping is the documented sum, computed without wrap-around; the reported
  components are the three weighted scores and one adjustment per pattern, each under its own name, and add up to it;
  the score is its clamp; and the disposition is the documented function of policy and classification, independent
  of the order in which rules are applied.
\<close>

theorem evaluation_refines_document:
  assumes n: "NewPolicyEngine sha p ov = Inr e" and d: "\<forall>v. ov = Some v \<longrightarrow> overlay_keys_distinct v"
    and b: "EvaluateBatch u sha e x = Inr b" and m: "q \<in> set (db_decisions b)"
    and r: "evidence_in_range (de_classification q)" and k: "patterns_known (eg_effective e) (de_classification q)"
  shows "de_before_clamp q = policy_score (eg_effective e) (de_classification q)
     \<and> map (\<lambda>c. (co_code c, co_delta c)) (de_components q) = documented_components (eg_effective e) (de_classification q)
     \<and> (\<Sum>(name, delta) \<leftarrow> documented_components (eg_effective e) (de_classification q). delta) = de_before_clamp q
     \<and> de_score q = clamp_bp (de_before_clamp q)
     \<and> de_disposition q = documented_disposition (eg_effective e) (de_classification q)"
proof -
  note p = NewPolicyEngine_ok(1) [OF n d]
  obtain c where c: "c \<in> set (cb_items x)" "q = evaluate sha e c"
    using m EvaluateBatch_decisions(1) [OF b] by auto
  have h: "validRouteHint (cl_route c)"
    using ValidateClassification_route [OF ValidateClassificationBatch_items [OF EvaluateBatch_decisions(2) [OF b] c(1)]] .
  have q: "de_classification q = c"
    by (simp add: c evaluate_fields)
  have "de_before_clamp q = policy_score (eg_effective e) c"
    using accumulate_score [OF p r [unfolded q]] by (simp only: c(2) evaluate_fields)
  moreover have "map (\<lambda>c. (co_code c, co_delta c)) (de_components q) = documented_components (eg_effective e) c"
    unfolding c(2) by (rule evaluate_components [OF p r [unfolded q]])
  moreover have "de_score q = clamp_bp (de_before_clamp q)"
    by (simp only: c(2) evaluate_fields)
  moreover have "de_disposition q = documented_disposition (eg_effective e) c"
    unfolding c(2) by (rule evaluate_documented [OF p k [unfolded q] h r [unfolded q]])
  ultimately show ?thesis
    unfolding q documented_sum by simp
qed

theorem evaluation_refines_document_witness:
  "\<exists>y b q. ClassifyBatch ascii_tables demo_sha (demo_library, demo_cv) demo_observations = Inr y
     \<and> EvaluateBatch ascii_tables demo_sha demo_engine y = Inr b \<and> q \<in> set (db_decisions b)
     \<and> de_score q = 9000 \<and> de_disposition q = ''escalate''"
proof -
  obtain y b where y: "ClassifyBatch ascii_tables demo_sha (demo_library, demo_cv) demo_observations = Inr y"
    "cb_items y = [demo_primary]" "EvaluateBatch ascii_tables demo_sha demo_engine y = Inr b"
    "db_decisions b = map (evaluate demo_sha demo_engine) (cb_items y)"
    using demo_evaluated unfolding demo_primary_def by blast
  define q where "q = evaluate demo_sha demo_engine demo_primary"
  have q: "q \<in> set (db_decisions b)" "de_classification q = demo_primary"
    by (simp_all add: y q_def evaluate_fields)
  have r: "evidence_in_range (de_classification q)" "patterns_known (eg_effective demo_engine) (de_classification q)"
    using demo_primary_range q(2) by (simp_all add: demo_engine_fields)
  have "de_score q = 9000 \<and> de_disposition q = ''escalate''"
    using evaluation_refines_document [OF demo_engine_new demo_no_overlay y(3) q(1) r]
    by (simp add: q(2) demo_engine_fields demo_primary_score demo_primary_documented clamp_bp_def)
  then show ?thesis
    using y q by blast
qed

text \<open>
  C2. An escalated decision rests on primary evidence through the whole pipeline: when a classifier's batch is
  evaluated under any accepted policy, every escalated decision has a candidate-alert trigger and no blockers,
  and it has an exact match and a rule of the countervailing policy that makes its route an
  escalation-eligible primary identifier. The one exception is a policy whose minimum countervailing support is
  zero: under it a classification without any countervailing signal may escalate as well.
\<close>

theorem pipeline_escalates_on_primary_evidence:
  assumes cn: "NewClassifier sha l cv = Inr cfg" and y: "ClassifyBatch u sha cfg ob = Inr y"
    and n: "NewPolicyEngine sha p ov = Inr e"
    and b: "EvaluateBatch u sha e y = Inr b" and q: "q \<in> set (db_decisions b)" and esc: "de_disposition q = ''escalate''"
  shows "de_blockers q = [] \<and> (let x = cl_observation (de_classification q) in
     fo_trigger x = ''candidate_alert''
     \<and> (fo_exact x \<and> (\<exists>r \<in> set (cp_rules cv). cv_route r = fo_route x \<and> cv_eligible r \<and> cv_class r = ''primary_identifier''
          \<and> ''candidate_alert'' \<in> set (cv_triggers r))
        \<or> cl_signals (de_classification q) = [] \<and> pt_min_countervailing (pp_thresholds (eg_effective e)) \<le> 0))"
proof -
  note ok = NewClassifier_ok [OF cn]
  obtain c where c: "c \<in> set (cb_items y)" "q = evaluate sha e c"
    using q EvaluateBatch_decisions(1) [OF b] by auto
  then obtain x where x: "c = classify u sha l cv x"
    using ClassifyBatch_items(1) [OF y] ok(1) by auto
  have f: "cl_observation c = x" "cl_signals c = countervailingSignals cv x"
    "su_countervailing (cl_summary c) = countervailing_support (countervailingSignals cv x)"
    "set (signal_blockers (countervailingSignals cv x) (fo_trigger x)) \<subseteq> insert [] (set (cl_blockers c))"
    by (auto simp: x classify_def Let_def canonicalStrings_set signal_blockers_def image_iff str_eval)
  have g: "escalation_allowed (eg_effective e) c (es_maximum (accumulate (eg_effective e) c))"
    using esc unfolding c(2) evaluate_fields gates_disposition by (simp split: if_splits)
  then have bl: "cl_blockers c = []" "fo_trigger x = ''candidate_alert''"
    "pt_min_countervailing (pp_thresholds (eg_effective e)) \<le> countervailing_support (countervailingSignals cv x)"
    using f by (auto simp: escalation_allowed_def)
  have none: "de_blockers q = []"
    using g esc bl unfolding c(2) evaluate_fields
    by (auto simp: gates_def Let_def policy_canonicalStrings_def gates_disposition split: if_splits)
      (auto simp: clear_gate_def Let_def split: if_splits)
  show ?thesis
  proof (cases "countervailingSignals cv x = []")
    case True
    then have "pt_min_countervailing (pp_thresholds (eg_effective e)) \<le> 0"
      using bl(3) by (simp add: countervailing_support_def)
    then show ?thesis
      using True none bl f c(2) by (simp add: evaluate_fields)
  next
    case False
    then have "hasEscalationEligibleSignal (countervailingSignals cv x)"
      using f(4) bl by (auto simp: signal_blockers_def split: if_splits)
    then obtain s where s: "s \<in> set (countervailingSignals cv x)" "sg_eligible s" "sg_class s = ''primary_identifier''"
      by (auto simp: hasEscalationEligibleSignal_def)
    then have "s \<noteq> secondary_signal cv x"
      using ok(3) by (auto simp: good_cv_def secondary_signal_def)
    then obtain r where r: "exactRouteRule cv (fo_route x) (fo_trigger x) = Some r" "s = rule_signal x r" "fo_exact x"
      using s(1) signals_iff by blast
    then have "r \<in> set (cp_rules cv)"
      using exactRouteRule_find [OF ok(3)] by (auto simp: find_Some_iff split: option.splits if_splits)
    then show ?thesis
      using none bl r s rule_good [OF ok(3) r(1)] f(1) c(2) by (auto simp: rule_signal_def evaluate_fields)
  qed
qed

theorem pipeline_escalates_on_primary_evidence_witness:
  "\<exists>y b q. ClassifyBatch ascii_tables demo_sha (demo_library, demo_cv) demo_observations = Inr y
     \<and> EvaluateBatch ascii_tables demo_sha demo_engine y = Inr b \<and> q \<in> set (db_decisions b)
     \<and> de_disposition q = ''escalate'' \<and> fo_exact (cl_observation (de_classification q))"
proof -
  obtain y b where y: "ClassifyBatch ascii_tables demo_sha (demo_library, demo_cv) demo_observations = Inr y"
    "cb_items y = [demo_primary]" "EvaluateBatch ascii_tables demo_sha demo_engine y = Inr b"
    "db_decisions b = map (evaluate demo_sha demo_engine) (cb_items y)"
    using demo_evaluated unfolding demo_primary_def by blast
  define q where "q = evaluate demo_sha demo_engine demo_primary"
  have q: "q \<in> set (db_decisions b)"
    by (simp add: y q_def)
  have esc: "de_disposition q = ''escalate''"
    using evaluate_documented [of demo_engine demo_primary demo_sha] NewPolicyEngine_ok(1) [OF demo_engine_new demo_no_overlay]
      demo_primary_range demo_primary_documented
    by (simp add: q_def demo_engine_fields demo_primary_fields validRouteHint_def)
  have m: "0 < pt_min_countervailing (pp_thresholds (eg_effective demo_engine))"
    by (simp add: demo_engine_fields) (simp add: demo_screening_def)
  show ?thesis
    using pipeline_escalates_on_primary_evidence [OF demo_classifier y(1) demo_engine_new y(3) q esc] m y(1,3) q esc
    unfolding Let_def by force
qed


text \<open>
  C14. An automatic release means no countervailing evidence: in the same pipeline a cleared decision
  comes from a classification without signals, without secondary identifier matches, routed to
  clearing, with the release support the effective policy asks for and a score at most its
  clear maximum.
\<close>

theorem pipeline_clears_without_contrary_evidence:
  assumes cn: "NewClassifier sha l cv = Inr cfg" and y: "ClassifyBatch u sha cfg ob = Inr y"
    and b: "EvaluateBatch u sha e y = Inr b" and q: "q \<in> set (db_decisions b)" and clr: "de_disposition q = ''clear''"
  shows "cl_signals (de_classification q) = [] \<and> fo_secondary (cl_observation (de_classification q)) = []
     \<and> cl_route (de_classification q) = ''clear_or_auto_release_eligible'' \<and> de_route q = ''auto_release''
     \<and> ct_auto_clear (pp_controls (eg_effective e))
     \<and> pt_min_release (pp_thresholds (eg_effective e)) \<le> su_release (cl_summary (de_classification q))
     \<and> de_score q \<le> pt_clear_max (pp_thresholds (eg_effective e))"
proof -
  obtain c where c: "c \<in> set (cb_items y)" "q = evaluate sha e c"
    using q EvaluateBatch_decisions(1) [OF b] by auto
  then obtain x where x: "c = classify u sha l cv x"
    using ClassifyBatch_items(1) [OF y] NewClassifier_ok(1) [OF cn] by auto
  have f: "cl_observation c = x" "cl_signals c = countervailingSignals cv x"
    "cl_route c = chooseRoute (classify_patterns u l x) (countervailingSignals cv x) (fo_trigger x)"
    by (simp_all add: x classify_def Let_def)
  have g: "clear_allowed (eg_effective e) c (es_maximum (accumulate (eg_effective e) c)) (de_score q)" "de_route q = ''auto_release''"
    using clr unfolding c(2) evaluate_fields gates_def clear_gate_def Let_def by (simp_all split: if_splits)
  have "countervailingSignals cv x = []"
    using g(1) f(3) by (auto simp: clear_allowed_def chooseRoute_def Let_def split: if_splits)
  moreover from this have "secondary_signal cv x \<notin> set (countervailingSignals cv x)"
    by simp
  then have "fo_secondary x = []"
    by (simp add: signals_iff)
  ultimately show ?thesis
    using g f by (simp add: clear_allowed_def c(2) evaluate_fields)
qed

lemma demo_loose_two_hits:
  "\<exists>d d'. pattern_hits ascii_tables (demo_loose_canonical demo_sha)
     = [(''substring_containment'', d), (''routing_bic_collision'', d')]"
proof -
  let ?x = "demo_loose_canonical demo_sha"
  have n: "fp_normalizeText ascii_tables ''xabcd '' = ''XABCD''" "fp_normalizeText ascii_tables ''XABCD'' = ''XABCD''"
    by (simp_all add: fp_normalizeText_def str_eval)
  have t: "tokens ascii_tables ''abcd'' = [''ABCD'']" "tokens ascii_tables ''xabcd'' = [''XABCD'']"
    "tokens ascii_tables ''XABCD'' = [''XABCD'']"
    by (simp_all add: tokens_def demo_abcd demo_xabcd n str_eval)
  have m: "map (fp_normalizeText ascii_tables) denial_markers = denial_markers"
    by (simp add: denial_markers_def fp_normalizeText_def str_eval)
  have f: "fo_value_type ?x = ''bic''" "fo_diagnostics ?x = []" "fo_targets ?x = []" "fo_required ?x = []"
    "fo_reasons ?x = []" "fo_technical ?x = []"
    by (simp_all add: demo_loose_canonical_def demo_loose_def canonical_observation_def Let_def demo_observation_def
        dedupeCandidateTypes_def)
  have "\<not> wrongFieldDataType ?x" "\<not> entityTypeMismatch ?x" "\<not> phoneticTransliterationOnly ?x" "\<not> acronymCollision ascii_tables ?x"
    by (simp_all add: wrongFieldDataType_def entityTypeMismatch_def phoneticTransliterationOnly_def acronymCollision_def f)
  moreover have "missingQualifiers ascii_tables ?x = []"
    by (simp add: missingQualifiers_def f demo_loose_fields t qualifier_words_def)
  moreover have "\<not> narrativeDenialContext ascii_tables ?x"
    unfolding narrativeDenialContext_def m by (simp add: f demo_loose_fields demo_xabcd denial_markers_def)
  moreover have "\<not> technicalArtifact ascii_tables ?x" "\<not> legalControlContext ascii_tables ?x"
    by (simp_all add: technicalArtifact_def legalControlContext_def f demo_loose_fields demo_xabcd n t compact_def
        technical_markers_def control_markers_def)
  moreover have "strictSubstring ascii_tables (fo_input ?x) (fo_watch ?x)"
    by (simp add: strictSubstring_def demo_loose_fields compact_def t containsWholeTokenSequence_def Let_def)
  moreover have "routingBICCollision ascii_tables ?x"
    by (simp add: routingBICCollision_def f demo_loose_fields compact_def t)
  ultimately show ?thesis
    by (auto simp: pattern_hits_def)
qed

definition demo_weak :: classification where
  "demo_weak = classify ascii_tables demo_sha demo_library demo_cv (demo_loose_canonical demo_sha)"

lemma demo_evidence:
  assumes "c \<in> set required_patterns"
  shows "pe_route (evidence_of demo_library c d) = pd_route (demo_pattern c)" "pe_strength (evidence_of demo_library c d) = 6000"
    "pe_code (evidence_of demo_library c d) = c" "pe_blockers (evidence_of demo_library c d) = []"
proof -
  have "map (pd_code \<circ> demo_pattern) required_patterns = required_patterns" "distinct required_patterns"
    by (simp_all add: demo_pattern_def required_patterns_def)
  then have "find (\<lambda>d. pd_code d = c) (map demo_pattern required_patterns) = Some (demo_pattern c)"
    using assms by (intro find_by_key) (auto simp: demo_pattern_def)
  then have "lookup_pattern demo_library c = Some (demo_pattern c)"
    using lookup_pattern_find [OF ValidatePatternLibrary_ok [OF demo_library_ok], of c] by (simp add: demo_library_def)
  then show "pe_route (evidence_of demo_library c d) = pd_route (demo_pattern c)" "pe_strength (evidence_of demo_library c d) = 6000"
    "pe_code (evidence_of demo_library c d) = c" "pe_blockers (evidence_of demo_library c d) = []"
    by (simp_all add: evidence_of_def Let_def demo_pattern_def)
qed

lemma demo_weak_fields:
  "\<exists>d d'. cl_patterns demo_weak = [evidence_of demo_library ''routing_bic_collision'' d', evidence_of demo_library ''substring_containment'' d]"
  "fo_score (cl_observation demo_weak) = 9000" "su_countervailing (cl_summary demo_weak) = 0"
  "su_release (cl_summary demo_weak) = 10000" "cl_blockers demo_weak = []" "cl_route demo_weak = ''clear_or_auto_release_eligible''"
proof -
  have r: "''routing_bic_collision'' \<in> set required_patterns" "''substring_containment'' \<in> set required_patterns"
    by (simp_all add: required_patterns_def)
  obtain d d' where h: "pattern_hits ascii_tables (demo_loose_canonical demo_sha)
      = [(''substring_containment'', d), (''routing_bic_collision'', d')]"
    using demo_loose_two_hits by blast
  have p: "classify_patterns ascii_tables demo_library (demo_loose_canonical demo_sha)
      = [evidence_of demo_library ''routing_bic_collision'' d', evidence_of demo_library ''substring_containment'' d]"
    by (simp add: classify_patterns_def h evidence_less_def demo_evidence(3) [OF r(1)] demo_evidence(3) [OF r(2)])
  then show "\<exists>d d'. cl_patterns demo_weak = [evidence_of demo_library ''routing_bic_collision'' d', evidence_of demo_library ''substring_containment'' d]"
    by (auto simp: demo_weak_def classify_def Let_def)
  show "fo_score (cl_observation demo_weak) = 9000" "su_countervailing (cl_summary demo_weak) = 0"
    "su_release (cl_summary demo_weak) = 10000" "cl_blockers demo_weak = []"
    by (simp_all add: demo_weak_def classify_def Let_def p demo_loose_fields countervailingSignals_def countervailing_support_def
        release_support_def demo_evidence [OF r(1)] demo_evidence [OF r(2)] signal_blockers_def demo_pattern_def)
  show "cl_route demo_weak = ''clear_or_auto_release_eligible''"
    using demo_loose_clears by (simp add: demo_weak_def)
qed

lemma demo_weak_clears: "de_disposition (evaluate demo_sha demo_engine demo_weak) = ''clear''"
proof -
  obtain d d' where p: "cl_patterns demo_weak
      = [evidence_of demo_library ''routing_bic_collision'' d', evidence_of demo_library ''substring_containment'' d]"
    using demo_weak_fields(1) by blast
  have r: "''routing_bic_collision'' \<in> set required_patterns" "''substring_containment'' \<in> set required_patterns"
    by (simp_all add: required_patterns_def)
  have range: "evidence_in_range demo_weak" and known: "patterns_known demo_screening demo_weak"
    using r by (simp_all add: evidence_in_range_def patterns_known_def demo_weak_fields(2-) p in_bp_def demo_evidence [OF r(1)]
        demo_evidence [OF r(2)] demo_patterns_lookup)
  have a: "pr_adjustment (pattern_rule_of (entries (pp_patterns demo_screening)) c) = -1500" if "c \<in> set required_patterns" for c
    using demo_patterns_lookup [of c] that by (simp add: pattern_rule_of_def lookup_in_def)
  have w: "sw_screening (pp_weights demo_screening) = 6000" "sw_countervailing (pp_weights demo_screening) = 4000"
    "sw_release (pp_weights demo_screening) = 5000" "pt_clear_max (pp_thresholds demo_screening) = 2500"
    "pt_escalate_min (pp_thresholds demo_screening) = 8500" "pt_min_release (pp_thresholds demo_screening) = 6000"
    "ct_auto_clear (pp_controls demo_screening)"
    by (simp_all add: demo_screening_def)
  have "policy_score demo_screening demo_weak = -2600"
    by (simp add: policy_score_def demo_weak_fields(2-) p demo_evidence [OF r(1)] demo_evidence [OF r(2)] a r w)
  then have "documented_disposition demo_screening demo_weak = ''clear''"
    by (simp add: documented_disposition_def Let_def clamp_bp_def w demo_weak_fields(2-))
  then show ?thesis
    using evaluate_documented [of demo_engine demo_weak demo_sha] NewPolicyEngine_ok(1) [OF demo_engine_new demo_no_overlay]
      range known by (simp add: demo_engine_fields demo_weak_fields validRouteHint_def)
qed

theorem pipeline_clears_without_contrary_evidence_witness:
  "\<exists>y b q. ClassifyBatch ascii_tables demo_sha (demo_library, demo_cv) demo_loose_batch = Inr y
     \<and> EvaluateBatch ascii_tables demo_sha demo_engine y = Inr b \<and> q \<in> set (db_decisions b)
     \<and> de_disposition q = ''clear'' \<and> cl_signals (de_classification q) = []"
proof -
  obtain y where y: "ClassifyBatch ascii_tables demo_sha (demo_library, demo_cv) demo_loose_batch = Inr y"
    and i: "cb_items y = [demo_weak]"
    using ClassifyBatch_cases [OF demo_classifier demo_loose_batch_ok(1)] demo_loose_batch_ok(2) by (auto simp: demo_weak_def)
  have ne: "cb_items y \<noteq> []"
    by (simp add: i)
  obtain b where b: "EvaluateBatch ascii_tables demo_sha demo_engine y = Inr b"
    and d: "db_decisions b = map (evaluate demo_sha demo_engine) (cb_items y)"
    using EvaluateBatch_Inr [OF NewPolicyEngine_ok(1) [OF demo_engine_new demo_no_overlay] ClassifyBatch_items(3) [OF y]] ne
    by blast
  have q: "evaluate demo_sha demo_engine demo_weak \<in> set (db_decisions b)"
    by (simp add: d i)
  show ?thesis
    using pipeline_clears_without_contrary_evidence [OF demo_classifier y b q demo_weak_clears] y b q demo_weak_clears by blast
qed

text \<open>
  What an accepted tenant overlay does: the effective policy keeps the invariant of a valid one
  (weights and thresholds in range, the clear maximum below the escalation minimum, every required
  pattern and route hint with a valid rule), overridden values are the overlay's, all others are the
  base policy's, and blocker rules, hints and reason codes are untouched.
\<close>

theorem overlay_effect:
  assumes b: "ValidatePolicy sha p = Inr ()" and v: "ValidateOverlay sha v p = Inr ()" and d: "overlay_keys_distinct v"
  shows "good_policy (ApplyOverlay p v)
     \<and> (\<forall>c. lookup_in (pp_patterns (ApplyOverlay p v)) c = (case lookup_in (ov_patterns v) c of
            None \<Rightarrow> lookup_in (pp_patterns p) c
          | Some o' \<Rightarrow> map_option (override_rule o') (lookup_in (pp_patterns p) c)))
     \<and> pt_clear_max (pp_thresholds (ApplyOverlay p v))
          = (case lookup_in (ov_thresholds v) ''clear_maximum'' of None \<Rightarrow> pt_clear_max (pp_thresholds p) | Some t \<Rightarrow> t)
     \<and> ct_auto_clear (pp_controls (ApplyOverlay p v))
          = (case lookup_in (ov_controls v) ''allow_auto_clear'' of None \<Rightarrow> ct_auto_clear (pp_controls p) | Some t \<Rightarrow> t)
     \<and> lookup_in (pp_blockers (ApplyOverlay p v)) = lookup_in (pp_blockers p)
     \<and> lookup_in (pp_hints (ApplyOverlay p v)) = lookup_in (pp_hints p)
     \<and> reason_of (ApplyOverlay p v) = reason_of p"
proof -
  have "lookup_in (pp_patterns (ApplyOverlay p v)) c = (case lookup_in (ov_patterns v) c of
            None \<Rightarrow> lookup_in (pp_patterns p) c
          | Some o' \<Rightarrow> map_option (override_rule o') (lookup_in (pp_patterns p) c))" for c
  proof (cases "lookup_in (ov_patterns v) c")
    case (Some o')
    then have "lookup_in (pp_patterns p) c \<noteq> None"
      using ValidateOverlay_ok(3) [OF v] lookup_entries [OF Some] by (auto simp: good_override_def)
    then obtain r where r: "lookup_in (pp_patterns p) c = Some r"
      by blast
    then have "pattern_rule_of (entries (pp_patterns p)) c = r"
      by (simp add: pattern_rule_of_def lookup_in_def)
    then show ?thesis
      using Some r by (simp add: ApplyOverlay_patterns [OF d])
  qed (simp add: ApplyOverlay_patterns [OF d])
  moreover have "pt_clear_max (pp_thresholds (ApplyOverlay p v))
      = (case lookup_in (ov_thresholds v) ''clear_maximum'' of None \<Rightarrow> pt_clear_max (pp_thresholds p) | Some t \<Rightarrow> t)"
    "ct_auto_clear (pp_controls (ApplyOverlay p v))
      = (case lookup_in (ov_controls v) ''allow_auto_clear'' of None \<Rightarrow> ct_auto_clear (pp_controls p) | Some t \<Rightarrow> t)"
    by (simp_all add: ApplyOverlay_def override_thresholds_fields override_controls_fields)
  ultimately show ?thesis
    using ApplyOverlay_good [OF ValidatePolicy_ok [OF b] v d] ApplyOverlay_others by blast
qed

theorem overlay_effect_witness:
  "good_policy (ApplyOverlay demo_screening demo_overlay)
     \<and> pt_clear_max (pp_thresholds (ApplyOverlay demo_screening demo_overlay)) = 3000"
  using overlay_effect [OF demo_screening_ok demo_overlay_ok] by (simp add: demo_overlay_def lookup_in_def)

section \<open>Reading a batch back\<close>

text \<open>
  A batch that is written as JSON and read again, as \<^verbatim>\<open>cmd/policy-evaluate\<close> and
  \<^verbatim>\<open>cmd/analyst-note\<close> do: the members \<^verbatim>\<open>reason_code_counts\<close> and \<^verbatim>\<open>blocker_counts\<close> are written under
  \<^verbatim>\<open>omitempty\<close>, so that an empty slice comes back as nil; every other member of the summary and
  the decisions come back as they were.
\<close>

definition reread_counts :: "named_count list option \<Rightarrow> named_count list option" where
  "reread_counts counts = (if counts = Some [] then None else counts)"

definition reread_batch :: "decision_batch \<Rightarrow> decision_batch" where
  "reread_batch b = b\<lparr>db_summary := (db_summary b)\<lparr>ds_reasons := reread_counts (ds_reasons (db_summary b)),
     ds_blockers := reread_counts (ds_blockers (db_summary b))\<rparr>\<rparr>"

lemma count_names_empty: "count_names xs = [] \<longleftrightarrow> xs = []"
  by (simp add: count_names_def)

lemma check_decisions_cong:
  "db_policy b' = db_policy b \<Longrightarrow> db_overlay b' = db_overlay b \<Longrightarrow> check_decisions u sha b' i ds = check_decisions u sha b i ds"
  by (induction ds arbitrary: i) (auto split: sum.split)

lemma check_decisions_valid:
  "check_decisions u sha b i ds = Inr () \<Longrightarrow> \<forall>d \<in> set ds. ValidateDecision u sha d = Inr ()"
  by (induction u sha b i ds rule: check_decisions.induct) (auto split: sum.splits if_splits)

text \<open>
  C38. A batch does not survive being written and read: if no decision in it has an escalation
  blocker, the batch the engine returned and validated is rejected with a summary mismatch after
  one JSON round trip; if some decision has one, it is accepted.
\<close>

theorem reread_batch_rejected:
  assumes b: "EvaluateBatch u sha e x = Inr b"
  shows "ValidateDecisionBatch u sha (reread_batch b)
     = (if \<forall>q \<in> set (db_decisions b). de_blockers q = [] then Inl DbSummary else Inr ())"
proof -
  let ?b = "reread_batch b"
  have v: "ValidateDecisionBatch u sha b = Inr ()" and s: "db_summary b = summarize (db_decisions b)"
    by (rule EvaluateBatch_decisions [OF b])+
  have f: "db_schema ?b = db_schema b" "db_id ?b = db_id b" "db_input ?b = db_input b" "db_engine ?b = db_engine b"
    "db_decisions ?b = db_decisions b" "db_policy ?b = db_policy b" "db_overlay ?b = db_overlay b"
    by (simp_all add: reread_batch_def)
  have id: "stableBatchID sha ?b = stableBatchID sha b"
    by (simp add: stableBatchID_def f)
  have ne: "db_decisions b \<noteq> []" and ck: "check_decisions u sha b 0 (db_decisions b) = Inr ()"
    using v by (auto simp: ValidateDecisionBatch_def split: if_splits sum.splits)
  have "\<forall>q \<in> set (db_decisions b). de_reasons q \<noteq> []"
    using check_decisions_valid [OF ck] by (fastforce simp: ValidateDecision_def split: if_splits sum.splits)
  then have rs: "concat (map de_reasons (db_decisions b)) \<noteq> []"
    using ne by (cases "db_decisions b") auto
  have "db_summary ?b = summarize (db_decisions b) \<longleftrightarrow> concat (map de_blockers (db_decisions b)) \<noteq> []"
    unfolding reread_batch_def s using rs
    by (simp add: summarize_def reread_counts_def count_names_empty del: concat_eq_Nil_conv)
  moreover have "concat (map de_blockers (db_decisions b)) = [] \<longleftrightarrow> (\<forall>q \<in> set (db_decisions b). de_blockers q = [])"
    by auto
  ultimately show ?thesis
    using v ne ck unfolding ValidateDecisionBatch_def f id check_decisions_cong [OF f(6,7)]
    by (simp split: if_splits)
qed

theorem reread_batch_rejected_witness:
  "\<exists>y b. ClassifyBatch ascii_tables demo_sha (demo_library, demo_cv) demo_observations = Inr y
     \<and> EvaluateBatch ascii_tables demo_sha demo_engine y = Inr b
     \<and> ValidateDecisionBatch ascii_tables demo_sha b = Inr ()
     \<and> ValidateDecisionBatch ascii_tables demo_sha (reread_batch b) = Inl DbSummary"
proof -
  obtain y b where y: "ClassifyBatch ascii_tables demo_sha (demo_library, demo_cv) demo_observations = Inr y"
    "cb_items y = [demo_primary]" "EvaluateBatch ascii_tables demo_sha demo_engine y = Inr b"
    "db_decisions b = map (evaluate demo_sha demo_engine) (cb_items y)"
    using demo_evaluated unfolding demo_primary_def by blast
  have "de_disposition (evaluate demo_sha demo_engine demo_primary) = ''escalate''"
    using evaluate_documented [of demo_engine demo_primary demo_sha] NewPolicyEngine_ok(1) [OF demo_engine_new demo_no_overlay]
      demo_primary_range demo_primary_documented
    by (simp add: demo_engine_fields demo_primary_fields validRouteHint_def)
  then have "de_blockers (evaluate demo_sha demo_engine demo_primary) = []"
    unfolding evaluate_fields gates_disposition
    by (simp add: gates_def demo_primary_fields policy_canonicalStrings_def split: if_splits)
  then have "\<forall>q \<in> set (db_decisions b). de_blockers q = []"
    by (simp add: y)
  then show ?thesis
    using reread_batch_rejected [OF y(3)] EvaluateBatch_decisions(3) [OF y(3)] y by auto
qed

end
