(* ===== verification/AlertData.thy ===== *)
theory AlertData imports HashChain Segments begin

text \<open>
  Alerts and cases (\<^verbatim>\<open>internal/alertcase\<close>): the records, their JSON forms and digests, and the
  decoding of the JSON documents an alert request carries. A raw JSON message is the value it
  denotes (\<open>None\<close> for the empty message), printed in compact form.
\<close>

section \<open>Data\<close>

record candidate_summary =
  cu_id :: string
  cu_score :: int
  cu_band :: string
  cu_reasons :: "string list"

record screening_lineage =
  li_ledger :: string
  li_event :: string
  li_event_sha :: string
  li_request_sha :: string
  li_response_sha :: string
  li_request_snapshot :: string
  li_response_snapshot :: string
  li_activation :: "json option"
  li_promotion :: "json option"

record external_alert =
  ea_schema :: string
  ea_system :: string
  ea_alert :: string
  ea_list :: string
  ea_occurred :: string
  ea_score :: int
  ea_reasons :: "string list"
  ea_fields :: "string list"
  ea_candidates :: "string list"
  ea_messages :: "string list"
  ea_attachments :: "string list"
  ea_resolution :: "json option"
  ea_evidence :: "(string \<times> string) list"

record alert_classification =
  ac_schema :: string
  ac_id :: string
  ac_patterns :: "string list"
  ac_countervailing :: "string list"
  ac_missing :: "string list"
  ac_route :: string
  ac_score :: int

record alert_decision =
  ad_schema :: string
  ad_id :: string
  ad_policy :: string
  ad_version :: string
  ad_policy_sha :: string
  ad_route :: string
  ad_score :: int
  ad_threshold :: int
  ad_blockers :: "string list"
  ad_reasons :: "string list"
  ad_trace :: "string list"

record alert_request =
  aq_tenant :: string
  aq_source :: string
  aq_event :: "json option"
  aq_external :: "external_alert option"
  aq_subject :: "json option"
  aq_correlation :: string
  aq_key :: string
  aq_occurred :: string

record alert_record =
  al_schema :: string
  al_id :: string
  al_tenant :: string
  al_source :: string
  al_identity :: string
  al_lineage :: "screening_lineage option"
  al_external :: "external_alert option"
  al_subject :: "json option"
  al_candidates :: "candidate_summary list"
  al_classification :: alert_classification
  al_decision :: alert_decision
  al_correlation :: string
  al_created :: string
  al_sha :: string

record alert_policy =
  ap_schema :: string
  ap_id :: string
  ap_version :: string
  ap_high :: int
  ap_review :: int
  ap_external :: int
  ap_sha :: string

record ledger_event =
  le_schema :: string
  le_id :: string
  le_ledger :: string
  le_sequence :: "64 word"
  le_previous :: string
  le_sha :: string
  le_occurred :: string
  le_route :: string
  le_status :: int
  le_correlation :: string
  le_idempotency :: string
  le_request_sha :: string
  le_response_sha :: string
  le_request_snapshot :: string
  le_response_snapshot :: string
  le_activation :: "json option"
  le_promotion :: "json option"
  le_candidates :: "json option"
  le_retention :: string
  le_expires :: string

record case_request =
  cq_tenant :: string
  cq_alerts :: "string list"
  cq_grouping :: string
  cq_created_by :: string
  cq_reason :: string
  cq_occurred :: string
  cq_key :: string

record event_request =
  eq_case :: string
  eq_revision :: "64 word"
  eq_action :: string
  eq_actor :: string
  eq_reason :: string
  eq_occurred :: string
  eq_key :: string
  eq_payload :: "json option"

record case_event =
  ev_schema :: string
  ev_case :: string
  ev_sequence :: "64 word"
  ev_revision :: "64 word"
  ev_previous :: string
  ev_sha :: string
  ev_action :: string
  ev_actor :: string
  ev_reason :: string
  ev_occurred :: string
  ev_payload :: "json option"

record case_head =
  ch_schema :: string
  ch_case :: string
  ch_sequence :: "64 word"
  ch_revision :: "64 word"
  ch_sha :: string

record case_projection =
  pj_schema :: string
  pj_case :: string
  pj_tenant :: string
  pj_alerts :: "string list"
  pj_grouping :: string
  pj_state :: string
  pj_revision :: "64 word"
  pj_assigned :: string
  pj_proposer :: string
  pj_proposed :: "json option"
  pj_approved :: "json option"
  pj_evidence_requests :: "string list"
  pj_evidence_submissions :: "string list"
  pj_rescreens :: "string list"
  pj_created :: string
  pj_updated :: string
  pj_head :: string

record audit_event =
  au_schema :: string
  au_stream :: string
  au_sequence :: "64 word"
  au_previous :: string
  au_sha :: string
  au_occurred :: string
  au_action :: string
  au_actor :: string
  au_object_type :: string
  au_object :: string
  au_details :: "json option"

record case_receipt =
  cr_scope :: string
  cr_key_sha :: string
  cr_request_sha :: string
  cr_object_type :: string
  cr_object :: string
  cr_response_sha :: string
  cr_created :: string

text \<open>What the package uses from outside: the digest and \<^verbatim>\<open>normalizeTime\<close>, that is RFC 3339 parsing and printing in UTC.\<close>

record case_env =
  ce_sha :: "string \<Rightarrow> string"
  ce_time :: "string \<Rightarrow> string option"

section \<open>Strings\<close>

text \<open>The loop of \<^verbatim>\<open>sortedUnique\<close> with the values seen so far.\<close>

fun trim_unique :: "string list \<Rightarrow> string list \<Rightarrow> string list" where
  "trim_unique seen [] = []"
| "trim_unique seen (v # vs) =
     (let v = TrimSpace v in
      if v = [] \<or> v \<in> set seen then trim_unique seen vs else v # trim_unique (v # seen) vs)"

definition sortedUnique :: "string list \<Rightarrow> string list" where
  "sortedUnique values = sort (trim_unique [] values)"

lemma set_trim_unique: "set (trim_unique seen vs) = {v \<in> TrimSpace ` set vs. v \<noteq> [] \<and> v \<notin> set seen}"
  by (induction seen vs rule: trim_unique.induct) (auto simp: Let_def)

lemma distinct_trim_unique: "distinct (trim_unique seen vs)"
  by (induction seen vs rule: trim_unique.induct) (auto simp: Let_def set_trim_unique)

lemma sortedUnique_eq: "sortedUnique vs = sorted_set (filter (\<lambda>v. v \<noteq> []) (map TrimSpace vs))"
  by (rule sorted_distinct_set_unique) (auto simp: sortedUnique_def distinct_trim_unique set_trim_unique)

lemma sortedUnique_facts: "sorted (sortedUnique vs)" "distinct (sortedUnique vs)"
  "set (sortedUnique vs) = {v. v \<noteq> [] \<and> v \<in> TrimSpace ` set vs}"
  by (auto simp: sortedUnique_eq)

section \<open>JSON forms\<close>

definition jraw :: "json option \<Rightarrow> json" where
  "jraw v = (case v of None \<Rightarrow> JNull | Some v \<Rightarrow> v)"

definition raw_member :: "string \<Rightarrow> json option \<Rightarrow> (string \<times> json) list" where
  "raw_member k v = opt_member k id v"

definition ju64 :: "64 word \<Rightarrow> json" where
  "ju64 w = JInt (uint w)"

definition candidate_summary_json :: "candidate_summary \<Rightarrow> json" where
  "candidate_summary_json c = JObj (fld ''candidate_id'' (JStr (cu_id c)) @ fld ''score'' (JInt (cu_score c))
     @ opt ''band'' (cu_band c = []) (JStr (cu_band c)) @ opts ''reason_codes'' (cu_reasons c))"

definition lineage_json :: "screening_lineage \<Rightarrow> json" where
  "lineage_json l = JObj (fld ''ledger_id'' (JStr (li_ledger l)) @ fld ''event_id'' (JStr (li_event l))
     @ fld ''event_sha256'' (JStr (li_event_sha l)) @ fld ''request_sha256'' (JStr (li_request_sha l))
     @ fld ''response_sha256'' (JStr (li_response_sha l))
     @ fld ''request_snapshot_sha256'' (JStr (li_request_snapshot l))
     @ fld ''response_snapshot_sha256'' (JStr (li_response_snapshot l))
     @ raw_member ''activation_lineage'' (li_activation l) @ raw_member ''promotion_lineage'' (li_promotion l))"

definition external_alert_json :: "external_alert \<Rightarrow> json" where
  "external_alert_json a = JObj (fld ''schema_version'' (JStr (ea_schema a)) @ fld ''source_system_id'' (JStr (ea_system a))
     @ fld ''source_alert_id'' (JStr (ea_alert a)) @ fld ''raw_list_name'' (JStr (ea_list a))
     @ fld ''occurred_at'' (JStr (ea_occurred a)) @ opt ''external_score'' (ea_score a = 0) (JInt (ea_score a))
     @ opts ''external_reason_codes'' (ea_reasons a) @ opts ''matched_fields'' (ea_fields a)
     @ opts ''candidate_references'' (ea_candidates a) @ opts ''message_references'' (ea_messages a)
     @ opts ''attachment_references'' (ea_attachments a) @ fld ''alert_list_resolution'' (jraw (ea_resolution a))
     @ opt ''additional_evidence'' (ea_evidence a = [])
         (JObj (sort_members (map (\<lambda>p. (fst p, JStr (snd p))) (ea_evidence a)))))"

definition alert_classification_json :: "alert_classification \<Rightarrow> json" where
  "alert_classification_json c = JObj (fld ''schema_version'' (JStr (ac_schema c))
     @ fld ''classification_id'' (JStr (ac_id c)) @ fld ''pattern_codes'' (jstrs (ac_patterns c))
     @ opts ''countervailing_codes'' (ac_countervailing c) @ opts ''missing_evidence'' (ac_missing c)
     @ fld ''route_hint'' (JStr (ac_route c)) @ fld ''score_basis'' (JInt (ac_score c)))"

definition alert_decision_json :: "alert_decision \<Rightarrow> json" where
  "alert_decision_json d = JObj (fld ''schema_version'' (JStr (ad_schema d)) @ fld ''decision_id'' (JStr (ad_id d))
     @ fld ''policy_id'' (JStr (ad_policy d)) @ fld ''policy_version'' (JStr (ad_version d))
     @ fld ''policy_sha256'' (JStr (ad_policy_sha d)) @ fld ''route'' (JStr (ad_route d))
     @ fld ''score'' (JInt (ad_score d)) @ fld ''threshold'' (JInt (ad_threshold d))
     @ opts ''blockers'' (ad_blockers d) @ fld ''reason_codes'' (jstrs (ad_reasons d))
     @ fld ''ordered_rule_trace'' (jstrs (ad_trace d)))"

definition alert_request_json :: "alert_request \<Rightarrow> json" where
  "alert_request_json r = JObj (fld ''tenant_id'' (JStr (aq_tenant r)) @ fld ''source_type'' (JStr (aq_source r))
     @ raw_member ''screening_event'' (aq_event r) @ opt_member ''external_alert'' external_alert_json (aq_external r)
     @ raw_member ''subject'' (aq_subject r) @ fld ''correlation_id'' (JStr (aq_correlation r))
     @ fld ''idempotency_key'' (JStr (aq_key r)) @ fld ''occurred_at'' (JStr (aq_occurred r)))"

definition alert_record_json :: "alert_record \<Rightarrow> json" where
  "alert_record_json a = JObj (fld ''schema_version'' (JStr (al_schema a)) @ fld ''alert_id'' (JStr (al_id a))
     @ fld ''tenant_id'' (JStr (al_tenant a)) @ fld ''source_type'' (JStr (al_source a))
     @ fld ''source_identity'' (JStr (al_identity a)) @ opt_member ''screening_lineage'' lineage_json (al_lineage a)
     @ opt_member ''external_alert'' external_alert_json (al_external a) @ raw_member ''subject'' (al_subject a)
     @ opt ''candidate_summary'' (al_candidates a = []) (JArr (map candidate_summary_json (al_candidates a)))
     @ fld ''classification'' (alert_classification_json (al_classification a))
     @ fld ''policy_decision'' (alert_decision_json (al_decision a))
     @ fld ''correlation_id_hash'' (JStr (al_correlation a)) @ fld ''created_at'' (JStr (al_created a))
     @ fld ''record_sha256'' (JStr (al_sha a)))"

definition alert_policy_json :: "alert_policy \<Rightarrow> json" where
  "alert_policy_json p = JObj (fld ''schema_version'' (JStr (ap_schema p)) @ fld ''policy_id'' (JStr (ap_id p))
     @ fld ''version'' (JStr (ap_version p)) @ fld ''high_score_threshold'' (JInt (ap_high p))
     @ fld ''review_score_threshold'' (JInt (ap_review p)) @ fld ''external_escalate_threshold'' (JInt (ap_external p))
     @ opt ''policy_sha256'' (ap_sha p = []) (JStr (ap_sha p)))"

definition ledger_event_json :: "ledger_event \<Rightarrow> json" where
  "ledger_event_json e = JObj (fld ''schema_version'' (JStr (le_schema e)) @ fld ''event_id'' (JStr (le_id e))
     @ fld ''ledger_id'' (JStr (le_ledger e)) @ fld ''sequence'' (ju64 (le_sequence e))
     @ fld ''previous_event_sha256'' (JStr (le_previous e)) @ fld ''event_sha256'' (JStr (le_sha e))
     @ fld ''occurred_at'' (JStr (le_occurred e)) @ fld ''route'' (JStr (le_route e))
     @ fld ''http_status'' (JInt (le_status e)) @ fld ''correlation_id_hash'' (JStr (le_correlation e))
     @ opt ''idempotency_key_hash'' (le_idempotency e = []) (JStr (le_idempotency e))
     @ fld ''request_sha256'' (JStr (le_request_sha e)) @ fld ''response_sha256'' (JStr (le_response_sha e))
     @ fld ''request_snapshot_sha256'' (JStr (le_request_snapshot e))
     @ fld ''response_snapshot_sha256'' (JStr (le_response_snapshot e))
     @ raw_member ''activation_lineage'' (le_activation e) @ raw_member ''promotion_lineage'' (le_promotion e)
     @ raw_member ''candidate_summary'' (le_candidates e) @ fld ''retention_class'' (JStr (le_retention e))
     @ fld ''expires_at'' (JStr (le_expires e)))"

definition case_request_json :: "case_request \<Rightarrow> json" where
  "case_request_json r = JObj (fld ''tenant_id'' (JStr (cq_tenant r)) @ fld ''alert_ids'' (jslice (cq_alerts r))
     @ opt ''grouping_key'' (cq_grouping r = []) (JStr (cq_grouping r)) @ fld ''created_by'' (JStr (cq_created_by r))
     @ fld ''reason'' (JStr (cq_reason r)) @ fld ''occurred_at'' (JStr (cq_occurred r))
     @ fld ''idempotency_key'' (JStr (cq_key r)))"

definition event_request_json :: "event_request \<Rightarrow> json" where
  "event_request_json r = JObj (fld ''case_id'' (JStr (eq_case r)) @ fld ''expected_revision'' (ju64 (eq_revision r))
     @ fld ''action'' (JStr (eq_action r)) @ fld ''actor'' (JStr (eq_actor r))
     @ opt ''reason'' (eq_reason r = []) (JStr (eq_reason r)) @ fld ''occurred_at'' (JStr (eq_occurred r))
     @ fld ''idempotency_key'' (JStr (eq_key r)) @ raw_member ''payload'' (eq_payload r))"

definition case_event_json :: "case_event \<Rightarrow> json" where
  "case_event_json e = JObj (fld ''schema_version'' (JStr (ev_schema e)) @ fld ''case_id'' (JStr (ev_case e))
     @ fld ''sequence'' (ju64 (ev_sequence e)) @ fld ''revision'' (ju64 (ev_revision e))
     @ fld ''previous_event_sha256'' (JStr (ev_previous e)) @ fld ''event_sha256'' (JStr (ev_sha e))
     @ fld ''action'' (JStr (ev_action e)) @ fld ''actor'' (JStr (ev_actor e))
     @ opt ''reason'' (ev_reason e = []) (JStr (ev_reason e)) @ fld ''occurred_at'' (JStr (ev_occurred e))
     @ raw_member ''payload'' (ev_payload e))"

definition case_projection_json :: "case_projection \<Rightarrow> json" where
  "case_projection_json p = JObj (fld ''schema_version'' (JStr (pj_schema p)) @ fld ''case_id'' (JStr (pj_case p))
     @ fld ''tenant_id'' (JStr (pj_tenant p)) @ fld ''alert_ids'' (jstrs (pj_alerts p))
     @ opt ''grouping_key'' (pj_grouping p = []) (JStr (pj_grouping p)) @ fld ''state'' (JStr (pj_state p))
     @ fld ''revision'' (ju64 (pj_revision p)) @ opt ''assigned_to'' (pj_assigned p = []) (JStr (pj_assigned p))
     @ opt ''decision_proposer'' (pj_proposer p = []) (JStr (pj_proposer p))
     @ raw_member ''proposed_decision'' (pj_proposed p) @ raw_member ''approved_decision'' (pj_approved p)
     @ opts ''evidence_request_ids'' (pj_evidence_requests p)
     @ opts ''evidence_submission_ids'' (pj_evidence_submissions p) @ opts ''rescreen_event_ids'' (pj_rescreens p)
     @ fld ''created_at'' (JStr (pj_created p)) @ fld ''updated_at'' (JStr (pj_updated p))
     @ fld ''head_event_sha256'' (JStr (pj_head p)))"

definition audit_event_json :: "audit_event \<Rightarrow> json" where
  "audit_event_json e = JObj (fld ''schema_version'' (JStr (au_schema e)) @ fld ''stream_id'' (JStr (au_stream e))
     @ fld ''sequence'' (ju64 (au_sequence e)) @ fld ''previous_audit_sha256'' (JStr (au_previous e))
     @ fld ''audit_sha256'' (JStr (au_sha e)) @ fld ''occurred_at'' (JStr (au_occurred e))
     @ fld ''action'' (JStr (au_action e)) @ opt ''actor'' (au_actor e = []) (JStr (au_actor e))
     @ fld ''object_type'' (JStr (au_object_type e)) @ fld ''object_id'' (JStr (au_object e))
     @ raw_member ''details'' (au_details e))"

definition HashObject :: "case_env \<Rightarrow> json \<Rightarrow> string" where
  "HashObject env v = digest_canonical (ce_sha env) v"

definition HashString :: "case_env \<Rightarrow> string \<Rightarrow> string" where
  "HashString env s = ce_sha env s"

definition normalizeTime :: "case_env \<Rightarrow> string \<Rightarrow> string option" where
  "normalizeTime env v = (if blank v then None else ce_time env v)"

end
