(* ===== verification/AlertPolicy.thy ===== *)
theory AlertPolicy imports AlertData begin

text \<open>
  From an alert request to an alert record (\<^verbatim>\<open>internal/alertcase/policy.go\<close>): decoding of the
  screening event, the alert policy's evaluation, the content-derived identifiers, and the checks
  of \<^verbatim>\<open>LoadPolicy\<close> on a decoded policy document.
\<close>

section \<open>Decoding structs\<close>

text \<open>
  \<^verbatim>\<open>encoding/json\<close> sets a struct field from every member whose name folds to the field's, in the
  order of the text; \<^verbatim>\<open>null\<close> leaves a string or number as it is, a value of another type is an
  error. Unknown members are ignored.
\<close>

definition fold_rune :: "nat \<Rightarrow> nat" where
  "fold_rune r = (if 65 \<le> r \<and> r \<le> 90 then r + 32 else if r = 383 then 115 else if r = 8490 then 107 else r)"

definition fold_name :: "string \<Rightarrow> string" where
  "fold_name s = encode (map fold_rune (runes s))"

text \<open>A name of lower-case ASCII characters folds to itself.\<close>

lemma fold_name_plain:
  assumes "list_all (\<lambda>c. byte_of c < 128 \<and> \<not> (65 \<le> byte_of c \<and> byte_of c \<le> 90)) s"
  shows "fold_name s = s"
proof -
  have m: "map fold_rune (map byte_of s) = map byte_of s" and b: "\<forall>r \<in> set (map byte_of s). r < 128"
    and a: "ascii s"
    using assms by (auto simp: fold_rune_def list_all_iff ascii_def)
  show ?thesis
    unfolding fold_name_def runes_ascii [OF a] m encode_ascii [OF b] by (simp add: comp_def)
qed

definition members_of :: "string \<Rightarrow> (string \<times> json) list \<Rightarrow> json list" where
  "members_of k kvs = map snd (filter (\<lambda>p. fold_name (fst p) = k) kvs)"

fun decode_all :: "('a \<Rightarrow> json \<Rightarrow> 'a option) \<Rightarrow> 'a \<Rightarrow> json list \<Rightarrow> 'a option" where
  "decode_all f x [] = Some x"
| "decode_all f x (v # vs) = (case f x v of None \<Rightarrow> None | Some y \<Rightarrow> decode_all f y vs)"

definition str_step :: "string \<Rightarrow> json \<Rightarrow> string option" where
  "str_step x v = (case v of JStr s \<Rightarrow> Some s | JNull \<Rightarrow> Some x | _ \<Rightarrow> None)"

definition int_step :: "int \<Rightarrow> json \<Rightarrow> int option" where
  "int_step x v = (case v of JInt i \<Rightarrow> (if in_int64 i then Some i else None) | JNull \<Rightarrow> Some x | _ \<Rightarrow> None)"

definition u64_step :: "64 word \<Rightarrow> json \<Rightarrow> 64 word option" where
  "u64_step x v = (case v of JInt i \<Rightarrow> (if 0 \<le> i \<and> i < 2 ^ 64 then Some (word_of_int i) else None) | JNull \<Rightarrow> Some x | _ \<Rightarrow> None)"

definition raw_step :: "json option \<Rightarrow> json \<Rightarrow> json option option" where
  "raw_step x v = Some (Some v)"

definition strs_step :: "string list \<Rightarrow> json \<Rightarrow> string list option" where
  "strs_step x v = (case v of JArr vs \<Rightarrow> those (map (str_step []) vs) | JNull \<Rightarrow> Some [] | _ \<Rightarrow> None)"

definition str_member :: "(string \<times> json) list \<Rightarrow> string \<Rightarrow> string option" where
  "str_member kvs k = decode_all str_step [] (members_of k kvs)"

definition int_member :: "(string \<times> json) list \<Rightarrow> string \<Rightarrow> int option" where
  "int_member kvs k = decode_all int_step 0 (members_of k kvs)"

definition u64_member :: "(string \<times> json) list \<Rightarrow> string \<Rightarrow> 64 word option" where
  "u64_member kvs k = decode_all u64_step 0 (members_of k kvs)"

definition rawm_member :: "(string \<times> json) list \<Rightarrow> string \<Rightarrow> json option" where
  "rawm_member kvs k = (case decode_all raw_step None (members_of k kvs) of Some v \<Rightarrow> v | None \<Rightarrow> None)"

definition strs_member :: "(string \<times> json) list \<Rightarrow> string \<Rightarrow> string list option" where
  "strs_member kvs k = decode_all strs_step [] (members_of k kvs)"

text \<open>The members of an object; \<^verbatim>\<open>null\<close> leaves the zero struct.\<close>

definition object_members :: "json \<Rightarrow> (string \<times> json) list option" where
  "object_members v = (case v of JObj kvs \<Rightarrow> Some kvs | JNull \<Rightarrow> Some [] | _ \<Rightarrow> None)"

definition ledger_strings :: "string list" where
  "ledger_strings = [''schema_version'', ''event_id'', ''ledger_id'', ''previous_event_sha256'', ''event_sha256'',
     ''occurred_at'', ''route'', ''correlation_id_hash'', ''idempotency_key_hash'', ''request_sha256'',
     ''response_sha256'', ''request_snapshot_sha256'', ''response_snapshot_sha256'', ''retention_class'', ''expires_at'']"

definition decode_ledger_event :: "json \<Rightarrow> ledger_event option" where
  "decode_ledger_event v =
     (case object_members v of
        None \<Rightarrow> None
      | Some kvs \<Rightarrow>
          (let str = (\<lambda>k. the (str_member kvs k)); raw = rawm_member kvs in
           if \<exists>k \<in> set ledger_strings. str_member kvs k = None then None
           else case (u64_member kvs ''sequence'', int_member kvs ''http_status'') of
             (Some sq, Some st) \<Rightarrow> Some
               \<lparr>le_schema = str ''schema_version'', le_id = str ''event_id'', le_ledger = str ''ledger_id'',
                le_sequence = sq, le_previous = str ''previous_event_sha256'', le_sha = str ''event_sha256'',
                le_occurred = str ''occurred_at'', le_route = str ''route'', le_status = st,
                le_correlation = str ''correlation_id_hash'', le_idempotency = str ''idempotency_key_hash'',
                le_request_sha = str ''request_sha256'', le_response_sha = str ''response_sha256'',
                le_request_snapshot = str ''request_snapshot_sha256'', le_response_snapshot = str ''response_snapshot_sha256'',
                le_activation = raw ''activation_lineage'', le_promotion = raw ''promotion_lineage'',
                le_candidates = raw ''candidate_summary'', le_retention = str ''retention_class'',
                le_expires = str ''expires_at''\<rparr>
           | _ \<Rightarrow> None))"

definition decode_candidate :: "json \<Rightarrow> candidate_summary option" where
  "decode_candidate v =
     (case object_members v of
        None \<Rightarrow> None
      | Some kvs \<Rightarrow>
          (case (str_member kvs ''candidate_id'', int_member kvs ''score'', str_member kvs ''band'', strs_member kvs ''reason_codes'') of
             (Some i, Some s, Some b, Some rs) \<Rightarrow> Some \<lparr>cu_id = i, cu_score = s, cu_band = b, cu_reasons = rs\<rparr>
           | _ \<Rightarrow> None))"

definition candidates_step :: "candidate_summary list \<Rightarrow> json \<Rightarrow> candidate_summary list option" where
  "candidates_step x v = (case v of JArr vs \<Rightarrow> those (map decode_candidate vs) | JNull \<Rightarrow> Some [] | _ \<Rightarrow> None)"

text \<open>\<^verbatim>\<open>boundedCandidateSummary\<close>: blockers and candidates.\<close>

definition decode_bounded :: "json \<Rightarrow> (string list \<times> candidate_summary list) option" where
  "decode_bounded v =
     (case object_members v of
        None \<Rightarrow> None
      | Some kvs \<Rightarrow>
          (case (strs_member kvs ''blockers'', decode_all candidates_step [] (members_of ''candidates'' kvs)) of
             (Some bs, Some cs) \<Rightarrow> Some (bs, cs) | _ \<Rightarrow> None))"

section \<open>Evaluation\<close>

datatype alert_error =
    AlTenant | AlKeys | AlEventMissing | AlEventDecode | AlEventInvalid | AlEventChecksum | AlSummaryDecode
  | AlExternalMissing | AlExternalInvalid | AlSource | AlTime

text \<open>What the two branches on the source type establish.\<close>

record alert_evidence =
  ae_lineage :: "screening_lineage option"
  ae_candidates :: "candidate_summary list"
  ae_blockers :: "string list"
  ae_identity :: string
  ae_score :: int

definition max_score :: "candidate_summary list \<Rightarrow> int" where
  "max_score cs = foldl (\<lambda>m c. if cu_score c > m then cu_score c else m) 0 cs"

definition ledger_evidence :: "case_env \<Rightarrow> json \<Rightarrow> (alert_error, alert_evidence) result" where
  "ledger_evidence env raw =
     (case decode_ledger_event raw of
        None \<Rightarrow> Inl AlEventDecode
      | Some e \<Rightarrow>
          if le_schema e \<noteq> ''openwatchlist.screening-ledger-event.v1'' \<or> le_id e = [] \<or> le_sha e = [] then Inl AlEventInvalid
          else if digest_json (ce_sha env) (ledger_event_json (e\<lparr>le_sha := []\<rparr>)) \<noteq> le_sha e then Inl AlEventChecksum
          else (case (case le_candidates e of None \<Rightarrow> Some ([], []) | Some v \<Rightarrow> decode_bounded v) of
             None \<Rightarrow> Inl AlSummaryDecode
           | Some (bs, cs) \<Rightarrow> Inr
               \<lparr>ae_lineage = Some \<lparr>li_ledger = le_ledger e, li_event = le_id e, li_event_sha = le_sha e,
                  li_request_sha = le_request_sha e, li_response_sha = le_response_sha e,
                  li_request_snapshot = le_request_snapshot e, li_response_snapshot = le_response_snapshot e,
                  li_activation = le_activation e, li_promotion = le_promotion e\<rparr>,
                ae_candidates = map (\<lambda>c. c\<lparr>cu_reasons := sortedUnique (cu_reasons c)\<rparr>) cs,
                ae_blockers = sortedUnique bs, ae_identity = le_id e @ '':'' @ le_sha e, ae_score = max_score cs\<rparr>))"

definition external_evidence :: "external_alert \<Rightarrow> (alert_error, alert_evidence) result" where
  "external_evidence x =
     (if ea_schema x \<noteq> ''openwatchlist.external-alert.v1'' \<or> ea_system x = [] \<or> ea_alert x = [] \<or> ea_list x = []
         \<or> ea_resolution x = None then Inl AlExternalInvalid
      else Inr \<lparr>ae_lineage = None,
        ae_candidates = map (\<lambda>i. \<lparr>cu_id = i, cu_score = ea_score x, cu_band = [], cu_reasons = sortedUnique (ea_reasons x)\<rparr>)
          (sortedUnique (ea_candidates x)),
        ae_blockers = [], ae_identity = ea_system x @ '':'' @ ea_alert x @ '':'' @ ea_list x, ae_score = ea_score x\<rparr>)"

definition candidate_less :: "candidate_summary \<Rightarrow> candidate_summary \<Rightarrow> bool" where
  "candidate_less a b = (if cu_score a \<noteq> cu_score b then cu_score a > cu_score b else cu_id a < cu_id b)"

interpretation alert_candidates: comparator candidate_less
  by unfold_locales (auto simp: candidate_less_def split: if_splits)

definition pattern_codes :: "string list" where
  "pattern_codes = [''entity_type_mismatch'', ''country_contradiction'', ''dob_contradiction'', ''wrong_field'',
     ''technical_artifact'', ''denial_context'']"

definition countervailing_codes :: "string list" where
  "countervailing_codes = [''identifier_exact'', ''name_exact'', ''country_exact'', ''dob_exact'']"

definition alert_route :: "alert_policy \<Rightarrow> string \<Rightarrow> int \<Rightarrow> string list \<Rightarrow> string" where
  "alert_route p source score blockers =
     (if score \<ge> ap_high p \<or> source = ''external_alert'' \<and> score \<ge> ap_external p then ''escalate''
      else if blockers \<noteq> [] \<or> score \<ge> ap_review p then ''investigate'' else ''clear'')"

definition classification_identity :: "case_env \<Rightarrow> string \<Rightarrow> int \<Rightarrow> string list \<Rightarrow> string list \<Rightarrow> string list \<Rightarrow> string" where
  "classification_identity env source score ps cs ms = HashObject env (JObj (fld ''source'' (JStr source)
     @ fld ''score'' (JInt score) @ fld ''patterns'' (jstrs ps) @ fld ''countervailing'' (jstrs cs)
     @ fld ''missing'' (jstrs ms)))"

definition decision_identity :: "case_env \<Rightarrow> string \<Rightarrow> string \<Rightarrow> string \<Rightarrow> int \<Rightarrow> string list \<Rightarrow> string list \<Rightarrow> string" where
  "decision_identity env cid policy_sha route score bs rs = HashObject env (JObj (fld ''classification_id'' (JStr cid)
     @ fld ''policy_sha256'' (JStr policy_sha) @ fld ''route'' (JStr route) @ fld ''score'' (JInt score)
     @ fld ''blockers'' (jstrs bs) @ fld ''reasons'' (jstrs rs)))"

text \<open>The part of \<^verbatim>\<open>Evaluate\<close> after the source has been read.\<close>

definition decide :: "case_env \<Rightarrow> alert_policy \<Rightarrow> string \<Rightarrow> alert_evidence
    \<Rightarrow> alert_classification \<times> alert_decision \<times> candidate_summary list" where
  "decide env p source v =
     (let cands = sort_by candidate_less (ae_candidates v);
          codes = concat (map cu_reasons cands);
          missing = sortedUnique (if cands = [] then [''candidate_evidence_unavailable''] else []);
          patterns = sortedUnique (filter (\<lambda>c. c \<in> set pattern_codes) codes @ ae_blockers v);
          countervailing = sortedUnique (filter (\<lambda>c. c \<in> set countervailing_codes) codes);
          blockers = sortedUnique (ae_blockers v @ missing);
          route = alert_route p source (ae_score v) blockers;
          cid = classification_identity env (ae_identity v) (ae_score v) patterns countervailing missing;
          reasons = sortedUnique (if countervailing @ patterns = [] then [''no_positive_candidate_signal'']
                                  else countervailing @ patterns);
          did = decision_identity env cid (ap_sha p) route (ae_score v) blockers reasons
      in (\<lparr>ac_schema = ''openwatchlist.false-positive-classification.phase9ab.v1'', ac_id = cid, ac_patterns = patterns,
           ac_countervailing = countervailing, ac_missing = missing, ac_route = route, ac_score = ae_score v\<rparr>,
          \<lparr>ad_schema = ''openwatchlist.policy-decision.phase9ab.v1'', ad_id = did, ad_policy = ap_id p, ad_version = ap_version p,
           ad_policy_sha = ap_sha p, ad_route = route, ad_score = ae_score v,
           ad_threshold = (if route = ''escalate'' then ap_high p else ap_review p), ad_blockers = blockers,
           ad_reasons = reasons,
           ad_trace = [''load_checksum_addressed_policy'', ''evaluate_phase4_pattern_evidence'',
             ''apply_missing_evidence_blockers'', ''apply_score_thresholds'', ''emit_non_analyst_policy_route'']\<rparr>,
          cands))"

definition source_evidence :: "case_env \<Rightarrow> alert_request \<Rightarrow> (alert_error, alert_evidence) result" where
  "source_evidence env r =
     (if blank (aq_tenant r) then Inl AlTenant
      else if blank (aq_correlation r) \<or> blank (aq_key r) then Inl AlKeys
      else if aq_source r = ''screening_ledger'' then
        (case aq_event r of None \<Rightarrow> Inl AlEventMissing | Some raw \<Rightarrow> ledger_evidence env raw)
      else if aq_source r = ''external_alert'' then
        (case aq_external r of None \<Rightarrow> Inl AlExternalMissing | Some x \<Rightarrow> external_evidence x)
      else Inl AlSource)"

definition alert_identity :: "case_env \<Rightarrow> string \<Rightarrow> string \<Rightarrow> string \<Rightarrow> string \<Rightarrow> string" where
  "alert_identity env tenant source si did = ''alert_'' @ take 32 (HashObject env (JObj (fld ''tenant_id'' (JStr tenant)
     @ fld ''source_type'' (JStr source) @ fld ''source_identity'' (JStr si) @ fld ''decision_id'' (JStr did))))"

definition record_hash :: "case_env \<Rightarrow> alert_record \<Rightarrow> string" where
  "record_hash env a = HashObject env (alert_record_json (a\<lparr>al_sha := []\<rparr>))"

definition BuildAlert :: "case_env \<Rightarrow> alert_policy \<Rightarrow> alert_request \<Rightarrow> (alert_error, alert_record) result" where
  "BuildAlert env p r =
     (case normalizeTime env (aq_occurred r) of
        None \<Rightarrow> Inl AlTime
      | Some at \<Rightarrow>
          (case source_evidence env r of
             Inl e \<Rightarrow> Inl e
           | Inr v \<Rightarrow>
               (let (c, d, cands) = decide env p (aq_source r) v;
                    a = \<lparr>al_schema = ''openwatchlist.alert-record.v1'',
                         al_id = alert_identity env (aq_tenant r) (aq_source r) (ae_identity v) (ad_id d),
                         al_tenant = aq_tenant r, al_source = aq_source r, al_identity = ae_identity v,
                         al_lineage = ae_lineage v, al_external = aq_external r, al_subject = aq_subject r,
                         al_candidates = cands, al_classification = c, al_decision = d,
                         al_correlation = HashString env (aq_correlation r), al_created = at, al_sha = []\<rparr>
                in Inr (a\<lparr>al_sha := record_hash env a\<rparr>))))"

datatype load_error = LoSchema | LoIdentity | LoThresholds | LoExternal | LoChecksum

text \<open>\<^verbatim>\<open>LoadPolicy\<close> after the document has been read and decoded.\<close>

definition LoadPolicy :: "case_env \<Rightarrow> alert_policy \<Rightarrow> (load_error, alert_policy) result" where
  "LoadPolicy env p =
     (if ap_schema p \<noteq> ''openwatchlist.alert-policy.v1'' then Inl LoSchema
      else if ap_id p = [] \<or> ap_version p = [] then Inl LoIdentity
      else if ap_high p \<le> ap_review p \<or> ap_review p < 0 \<or> ap_high p > 1000 then Inl LoThresholds
      else if ap_external p < 0 \<or> ap_external p > 1000 then Inl LoExternal
      else (let computed = HashObject env (alert_policy_json (p\<lparr>ap_sha := []\<rparr>)) in
        if ap_sha p \<noteq> [] \<and> ap_sha p \<noteq> computed then Inl LoChecksum else Inr (p\<lparr>ap_sha := computed\<rparr>)))"

end
