(* ===== verification/CaseStore.thy ===== *)
theory CaseStore imports AlertPolicy "HOL-Library.AList" begin

text \<open>
  The alert and case store (\<^verbatim>\<open>internal/alertcase/store.go\<close>). The state directory is the record
  \<open>case_store\<close>: the alert files by identifier, one directory per case with its event files in the
  order of their zero-padded sequence numbers, the idempotency receipts by the digests of scope and
  key, the stored batch results, and the audit log with its head. Writing a file stores the value
  that reading it gives back: raw JSON in canonical form. Input and output errors, symbolic links
  and the lock are not modelled; operations are atomic, as they are under the lock.
\<close>

section \<open>State\<close>

record case_dir =
  kd_events :: "case_event list"
  kd_projection :: case_projection
  kd_head :: case_head

record case_store =
  st_policy :: alert_policy
  st_stream :: string
  st_alerts :: "(string \<times> alert_record) list"
  st_cases :: "(string \<times> case_dir) list"
  st_receipts :: "((string \<times> string) \<times> case_receipt) list"
  st_batches :: "(string \<times> alert_record list) list"
  st_audit :: "audit_event list"
  st_audit_head :: "64 word \<times> string"

definition NewStore :: "alert_policy \<Rightarrow> string \<Rightarrow> case_store" where
  "NewStore p stream = \<lparr>st_policy = p, st_stream = (if stream = [] then ''alert-case'' else stream), st_alerts = [],
     st_cases = [], st_receipts = [], st_batches = [], st_audit = [], st_audit_head = (0, [])\<rparr>"

datatype transition_error =
    TrPayload | TrState string string | TrAssignee | TrDecision | TrFourEyes | TrRescreenResolved | TrRescreenId | TrAction

datatype store_error =
    SeKey | SeConflict | SeAlertId | SeCaseId | SeAlertMissing | SeCaseMissing | SeEventMissing | SeBuild alert_error
  | SeCollision | SeFields | SeTime | SeAlert string store_error | SeTenant string | SeRevision | SeTransition transition_error
  | SeNoEvents | SeChain | SeEventChecksum | SeReplay transition_error | SePayload | SeProjection | SeAuditChain
  | SeAuditChecksum | SeRecordChecksum | SeReplayMismatch | SeBatchEmpty | SeBatchKeys | SeBatchId | SeBatchMissing

definition canon_raw :: "json option \<Rightarrow> json option" where
  "canon_raw v = map_option canonical_json v"

definition stored_event :: "case_event \<Rightarrow> case_event" where
  "stored_event e = e\<lparr>ev_payload := canon_raw (ev_payload e)\<rparr>"

definition stored_projection :: "case_projection \<Rightarrow> case_projection" where
  "stored_projection p = p\<lparr>pj_proposed := canon_raw (pj_proposed p), pj_approved := canon_raw (pj_approved p)\<rparr>"

definition stored_alert :: "alert_record \<Rightarrow> alert_record" where
  "stored_alert a = a\<lparr>
     al_lineage := map_option (\<lambda>l. l\<lparr>li_activation := canon_raw (li_activation l), li_promotion := canon_raw (li_promotion l)\<rparr>)
       (al_lineage a),
     al_external := map_option (\<lambda>x. x\<lparr>ea_resolution := canon_raw (ea_resolution x)\<rparr>) (al_external a),
     al_subject := canon_raw (al_subject a)\<rparr>"

section \<open>Identifiers and receipts\<close>

definition hex_lower :: "char \<Rightarrow> bool" where
  "hex_lower c \<longleftrightarrow> 48 \<le> byte_of c \<and> byte_of c \<le> 57 \<or> 97 \<le> byte_of c \<and> byte_of c \<le> 102"

definition valid_hex_id :: "string \<Rightarrow> nat \<Rightarrow> string \<Rightarrow> bool" where
  "valid_hex_id prefix n s \<longleftrightarrow>
     take (length prefix) s = prefix \<and> length s = length prefix + n \<and> list_all hex_lower (drop (length prefix) s)"

definition valid_alert_id :: "string \<Rightarrow> bool" where
  "valid_alert_id s = valid_hex_id ''alert_'' 32 s"

definition valid_case_id :: "string \<Rightarrow> bool" where
  "valid_case_id s = valid_hex_id ''case_'' 32 s"

definition receipt_path :: "case_env \<Rightarrow> string \<Rightarrow> string \<Rightarrow> string \<times> string" where
  "receipt_path env scope key = (HashString env scope, HashString env key)"

definition checkReceipt ::
  "case_env \<Rightarrow> string \<Rightarrow> string \<Rightarrow> json \<Rightarrow> case_store \<Rightarrow> (store_error, case_receipt option) result" where
  "checkReceipt env scope key request st =
     (if blank key then Inl SeKey
      else (case map_of (st_receipts st) (receipt_path env scope key) of
        None \<Rightarrow> Inr None
      | Some r \<Rightarrow> if cr_request_sha r \<noteq> HashObject env request then Inl SeConflict else Inr (Some r)))"

definition saveReceipt ::
  "case_env \<Rightarrow> string \<Rightarrow> string \<Rightarrow> json \<Rightarrow> json \<Rightarrow> string \<Rightarrow> string \<Rightarrow> string \<Rightarrow> case_store \<Rightarrow> case_store" where
  "saveReceipt env scope key request response object_type object created st =
     st\<lparr>st_receipts := AList.update (receipt_path env scope key)
       \<lparr>cr_scope = scope, cr_key_sha = HashString env key, cr_request_sha = HashObject env request,
        cr_object_type = object_type, cr_object = object, cr_response_sha = HashObject env response,
        cr_created = created\<rparr> (st_receipts st)\<rparr>"

section \<open>The audit log\<close>

definition audit_hash :: "case_env \<Rightarrow> audit_event \<Rightarrow> string" where
  "audit_hash env e = HashObject env (audit_event_json e)"

definition blank_audit :: "audit_event \<Rightarrow> audit_event" where
  "blank_audit e = e\<lparr>au_sha := []\<rparr>"

definition appendAudit ::
  "case_env \<Rightarrow> string \<Rightarrow> string \<Rightarrow> string \<Rightarrow> string \<Rightarrow> string \<Rightarrow> json \<Rightarrow> case_store \<Rightarrow> case_store" where
  "appendAudit env at action actor object_type object details st =
     (let e = \<lparr>au_schema = ''openwatchlist.alert-case-audit.v1'', au_stream = st_stream st,
               au_sequence = fst (st_audit_head st) + 1, au_previous = snd (st_audit_head st), au_sha = [],
               au_occurred = at, au_action = action, au_actor = actor, au_object_type = object_type,
               au_object = object, au_details = Some (canonical_json details)\<rparr>;
          e = e\<lparr>au_sha := audit_hash env (blank_audit e)\<rparr>
      in st\<lparr>st_audit := st_audit st @ [e], st_audit_head := (au_sequence e, au_sha e)\<rparr>)"

fun verify_audit :: "case_env \<Rightarrow> nat \<Rightarrow> string \<Rightarrow> audit_event list \<Rightarrow> (store_error, unit) result" where
  "verify_audit env i previous [] = Inr ()"
| "verify_audit env i previous (e # es) =
     (if au_sequence e \<noteq> of_nat (Suc i) \<or> au_previous e \<noteq> previous then Inl SeAuditChain
      else if audit_hash env (blank_audit e) \<noteq> au_sha e then Inl SeAuditChecksum
      else verify_audit env (Suc i) (au_sha e) es)"

definition VerifyAudit :: "case_env \<Rightarrow> case_store \<Rightarrow> (store_error, nat) result" where
  "VerifyAudit env st =
     (case verify_audit env 0 [] (st_audit st) of Inl e \<Rightarrow> Inl e | Inr _ \<Rightarrow> Inr (length (st_audit st)))"

section \<open>Alerts\<close>

definition Alert :: "case_store \<Rightarrow> string \<Rightarrow> (store_error, alert_record) result" where
  "Alert st i =
     (if \<not> valid_alert_id i then Inl SeAlertId
      else (case map_of (st_alerts st) i of None \<Rightarrow> Inl SeAlertMissing | Some a \<Rightarrow> Inr a))"

text \<open>The result is the record, whether it was replayed, and the new state.\<close>

definition CreateAlert ::
  "case_env \<Rightarrow> alert_request \<Rightarrow> case_store \<Rightarrow> (store_error, alert_record \<times> bool \<times> case_store) result" where
  "CreateAlert env r st =
     (case checkReceipt env ''create-alert'' (aq_key r) (alert_request_json r) st of
        Inl e \<Rightarrow> Inl e
      | Inr (Some receipt) \<Rightarrow>
          (case Alert st (cr_object receipt) of Inl e \<Rightarrow> Inl e | Inr a \<Rightarrow> Inr (a, True, st))
      | Inr None \<Rightarrow>
          (case BuildAlert env (st_policy st) r of
             Inl e \<Rightarrow> Inl (SeBuild e)
           | Inr a \<Rightarrow>
               (if \<not> valid_alert_id (al_id a) then Inl SeAlertId
                else (case map_of (st_alerts st) (al_id a) of
                  Some old \<Rightarrow>
                    if al_sha old \<noteq> al_sha a then Inl SeCollision
                    else Inr (old, True, saveReceipt env ''create-alert'' (aq_key r) (alert_request_json r)
                           (alert_record_json old) ''alert'' (al_id old) (al_created old) st)
                | None \<Rightarrow>
                    Inr (a, False, saveReceipt env ''create-alert'' (aq_key r) (alert_request_json r)
                      (alert_record_json a) ''alert'' (al_id a) (al_created a)
                      (appendAudit env (al_created a) ''alert_created'' ''system'' ''alert'' (al_id a) (alert_record_json a)
                        (st\<lparr>st_alerts := AList.update (al_id a) (stored_alert a) (st_alerts st)\<rparr>)))))))"

definition VerifyAlert :: "case_env \<Rightarrow> case_store \<Rightarrow> string \<Rightarrow> (store_error, alert_record) result" where
  "VerifyAlert env st i =
     (case Alert st i of
        Inl e \<Rightarrow> Inl e
      | Inr a \<Rightarrow> if record_hash env a \<noteq> al_sha a then Inl SeRecordChecksum else Inr a)"

definition ReplayAlert ::
  "case_env \<Rightarrow> alert_request \<Rightarrow> string \<Rightarrow> case_store \<Rightarrow> (store_error, alert_record) result" where
  "ReplayAlert env r expected st =
     (case BuildAlert env (st_policy st) r of
        Inl e \<Rightarrow> Inl (SeBuild e)
      | Inr a \<Rightarrow>
          (case VerifyAlert env st expected of
             Inl e \<Rightarrow> Inl e
           | Inr stored \<Rightarrow>
               if al_id a \<noteq> al_id stored \<or> al_sha a \<noteq> al_sha stored then Inl SeReplayMismatch else Inr stored))"

section \<open>Case events\<close>

definition case_event_hash :: "case_env \<Rightarrow> case_event \<Rightarrow> string" where
  "case_event_hash env e = HashObject env (case_event_json e)"

definition blank_case_event :: "case_event \<Rightarrow> case_event" where
  "blank_case_event e = e\<lparr>ev_sha := []\<rparr>"

definition buildCaseEvent ::
  "case_env \<Rightarrow> string \<Rightarrow> 64 word \<Rightarrow> 64 word \<Rightarrow> string \<Rightarrow> string \<Rightarrow> string \<Rightarrow> string \<Rightarrow> string \<Rightarrow> json option \<Rightarrow> case_event" where
  "buildCaseEvent env caseID sq rv previous action actor reason at payload =
     (let e = \<lparr>ev_schema = ''openwatchlist.case-event.v1'', ev_case = caseID, ev_sequence = sq, ev_revision = rv,
               ev_previous = previous, ev_sha = [], ev_action = action, ev_actor = actor, ev_reason = reason,
               ev_occurred = at, ev_payload = payload\<rparr>
      in e\<lparr>ev_sha := case_event_hash env (blank_case_event e)\<rparr>)"

definition payload_members :: "json option \<Rightarrow> (string \<times> json) list option" where
  "payload_members payload = (case payload of None \<Rightarrow> Some [] | Some v \<Rightarrow> object_members v)"

definition get_string :: "(string \<times> json) list \<Rightarrow> string \<Rightarrow> string" where
  "get_string kvs k = (case map_of (rev kvs) k of Some (JStr s) \<Rightarrow> TrimSpace s | _ \<Rightarrow> [])"

definition generated_id :: "case_env \<Rightarrow> string \<Rightarrow> event_request \<Rightarrow> string" where
  "generated_id env prefix r = prefix @ take 24 (HashString env (eq_case r @ '':'' @ decimal (unat (eq_revision r + 1))))"

definition applyTransition ::
  "case_env \<Rightarrow> case_projection \<Rightarrow> event_request \<Rightarrow> (transition_error, case_projection) result" where
  "applyTransition env p r =
     (case payload_members (eq_payload r) of
        None \<Rightarrow> Inl TrPayload
      | Some kvs \<Rightarrow>
          (let s = pj_state p; act = eq_action r; refuse = Inl (TrState act s) in
           if act = ''assign'' then
             (if s \<notin> {''open'', ''assigned'', ''investigating'', ''reopened''} then refuse
              else (let a = get_string kvs ''assignee'' in
                if a = [] then Inl TrAssignee else Inr (p\<lparr>pj_assigned := a, pj_state := ''assigned''\<rparr>)))
           else if act = ''start_investigation'' then
             (if s \<notin> {''assigned'', ''reopened''} then refuse else Inr (p\<lparr>pj_state := ''investigating''\<rparr>))
           else if act = ''request_evidence'' then
             (if s \<notin> {''assigned'', ''investigating'', ''pending_evidence''} then refuse
              else (let i = get_string kvs ''evidence_request_id'';
                        i = (if i = [] then generated_id env ''evidence_request_'' r else i) in
                Inr (p\<lparr>pj_evidence_requests := sortedUnique (pj_evidence_requests p @ [i]), pj_state := ''pending_evidence''\<rparr>)))
           else if act = ''submit_evidence'' then
             (if s \<notin> {''pending_evidence'', ''investigating''} then refuse
              else (let i = get_string kvs ''evidence_submission_id'';
                        i = (if i = [] then generated_id env ''evidence_submission_'' r else i) in
                Inr (p\<lparr>pj_evidence_submissions := sortedUnique (pj_evidence_submissions p @ [i]), pj_state := ''investigating''\<rparr>)))
           else if act = ''propose_decision'' then
             (if s \<notin> {''assigned'', ''investigating'', ''pending_evidence'', ''reopened''} then refuse
              else (case map_of (rev kvs) ''decision'' of
                  None \<Rightarrow> Inl TrDecision
                | Some d \<Rightarrow> if d = JNull then Inl TrDecision
                    else Inr (p\<lparr>pj_proposer := eq_actor r, pj_proposed := Some d, pj_state := ''pending_approval''\<rparr>)))
           else if act = ''approve_decision'' then
             (if s \<noteq> ''pending_approval'' then refuse
              else if pj_proposer p = [] \<or> pj_proposer p = eq_actor r then Inl TrFourEyes
              else Inr (p\<lparr>pj_approved := pj_proposed p, pj_state := ''resolved''\<rparr>))
           else if act = ''reject_decision'' then
             (if s \<noteq> ''pending_approval'' then refuse
              else if pj_proposer p = [] \<or> pj_proposer p = eq_actor r then Inl TrFourEyes
              else Inr (p\<lparr>pj_proposer := [], pj_proposed := None, pj_state := ''investigating''\<rparr>))
           else if act = ''reopen'' then
             (if s \<noteq> ''resolved'' then refuse
              else Inr (p\<lparr>pj_state := ''reopened'', pj_proposer := [], pj_proposed := None\<rparr>))
           else if act = ''link_rescreen'' then
             (if s = ''resolved'' then Inl TrRescreenResolved
              else (let i = get_string kvs ''screening_event_id'' in
                if i = [] then Inl TrRescreenId
                else Inr (p\<lparr>pj_rescreens := sortedUnique (pj_rescreens p @ [i])\<rparr>)))
           else Inl TrAction))"


section \<open>Cases\<close>

definition caseProjection :: "case_store \<Rightarrow> string \<Rightarrow> (store_error, case_projection) result" where
  "caseProjection st i =
     (if \<not> valid_case_id i then Inl SeCaseId
      else (case map_of (st_cases st) i of None \<Rightarrow> Inl SeCaseMissing | Some d \<Rightarrow> Inr (kd_projection d)))"

definition caseHead :: "case_store \<Rightarrow> string \<Rightarrow> (store_error, case_head) result" where
  "caseHead st i =
     (if \<not> valid_case_id i then Inl SeCaseId
      else (case map_of (st_cases st) i of None \<Rightarrow> Inl SeCaseMissing | Some d \<Rightarrow> Inr (kd_head d)))"

definition caseEventBySequence :: "case_store \<Rightarrow> string \<Rightarrow> 64 word \<Rightarrow> (store_error, case_event) result" where
  "caseEventBySequence st i sq =
     (if \<not> valid_case_id i then Inl SeCaseId
      else (case map_of (st_cases st) i of
        None \<Rightarrow> Inl SeEventMissing
      | Some d \<Rightarrow> (case filter (\<lambda>e. ev_sequence e = sq) (kd_events d) of [e] \<Rightarrow> Inr e | _ \<Rightarrow> Inl SeEventMissing)))"

definition case_identity :: "case_env \<Rightarrow> string \<Rightarrow> string list \<Rightarrow> string \<Rightarrow> string" where
  "case_identity env tenant ids grouping = ''case_'' @ take 32 (HashObject env (JObj (fld ''tenant_id'' (JStr tenant)
     @ fld ''alert_ids'' (jstrs ids) @ fld ''grouping_key'' (JStr grouping))))"

definition check_case_alert :: "case_store \<Rightarrow> string \<Rightarrow> string \<Rightarrow> (store_error, unit) result" where
  "check_case_alert st tenant i =
     (case Alert st i of
        Inl e \<Rightarrow> Inl (SeAlert i e)
      | Inr a \<Rightarrow> if al_tenant a \<noteq> tenant then Inl (SeTenant i) else Inr ())"

definition created_payload :: "string \<Rightarrow> string list \<Rightarrow> string \<Rightarrow> json" where
  "created_payload tenant ids grouping = canonical_json (JObj (fld ''tenant_id'' (JStr tenant)
     @ fld ''alert_ids'' (jstrs ids) @ fld ''grouping_key'' (JStr grouping)))"

definition new_projection :: "string \<Rightarrow> string \<Rightarrow> string list \<Rightarrow> string \<Rightarrow> string \<Rightarrow> string \<Rightarrow> case_projection" where
  "new_projection i tenant ids grouping at head = \<lparr>pj_schema = ''openwatchlist.case-projection.v1'', pj_case = i,
     pj_tenant = tenant, pj_alerts = ids, pj_grouping = grouping, pj_state = ''open'', pj_revision = 1,
     pj_assigned = [], pj_proposer = [], pj_proposed = None, pj_approved = None, pj_evidence_requests = [],
     pj_evidence_submissions = [], pj_rescreens = [], pj_created = at, pj_updated = at, pj_head = head\<rparr>"

definition head_of :: "case_event \<Rightarrow> case_head" where
  "head_of e = \<lparr>ch_schema = ''openwatchlist.case-head.v1'', ch_case = ev_case e, ch_sequence = ev_sequence e,
     ch_revision = ev_revision e, ch_sha = ev_sha e\<rparr>"

definition CreateCase ::
  "case_env \<Rightarrow> case_request \<Rightarrow> case_store \<Rightarrow> (store_error, case_projection \<times> bool \<times> case_store) result" where
  "CreateCase env r st =
     (case checkReceipt env ''create-case'' (cq_key r) (case_request_json r) st of
        Inl e \<Rightarrow> Inl e
      | Inr (Some receipt) \<Rightarrow>
          (case caseProjection st (cr_object receipt) of Inl e \<Rightarrow> Inl e | Inr p \<Rightarrow> Inr (p, True, st))
      | Inr None \<Rightarrow>
          if cq_tenant r = [] \<or> cq_created_by r = [] \<or> cq_reason r = [] \<or> cq_alerts r = [] then Inl SeFields
          else (case normalizeTime env (cq_occurred r) of
             None \<Rightarrow> Inl SeTime
           | Some at \<Rightarrow>
               (let ids = sortedUnique (cq_alerts r) in
                case first_err (check_case_alert st (cq_tenant r)) ids of
                  Inl e \<Rightarrow> Inl e
                | Inr _ \<Rightarrow>
                    (let i = case_identity env (cq_tenant r) ids (cq_grouping r) in
                     if \<not> valid_case_id i then Inl SeCaseId
                     else (case map_of (st_cases st) i of
                       Some d \<Rightarrow>
                         Inr (kd_projection d, True, saveReceipt env ''create-case'' (cq_key r) (case_request_json r)
                           (case_projection_json (kd_projection d)) ''case'' i at st)
                     | None \<Rightarrow>
                         (let e = buildCaseEvent env i 1 1 [] ''case_created'' (cq_created_by r) (cq_reason r) at
                                (Some (created_payload (cq_tenant r) ids (cq_grouping r)));
                              p = new_projection i (cq_tenant r) ids (cq_grouping r) at (ev_sha e);
                              d = \<lparr>kd_events = [stored_event e], kd_projection = stored_projection p, kd_head = head_of e\<rparr>
                          in Inr (p, False, saveReceipt env ''create-case'' (cq_key r) (case_request_json r)
                               (case_projection_json p) ''case'' i at
                               (appendAudit env at ''case_created'' (cq_created_by r) ''case'' i (case_event_json e)
                                 (st\<lparr>st_cases := AList.update i d (st_cases st)\<rparr>)))))))))"

definition event_scope :: "event_request \<Rightarrow> string" where
  "event_scope r = ''case-event:'' @ eq_case r @ '':'' @ eq_action r"

definition ApplyCaseEvent ::
  "case_env \<Rightarrow> event_request \<Rightarrow> case_store
    \<Rightarrow> (store_error, case_projection \<times> case_event \<times> bool \<times> case_store) result" where
  "ApplyCaseEvent env r st =
     (if \<not> valid_case_id (eq_case r) then Inl SeCaseId
      else (case checkReceipt env (event_scope r) (eq_key r) (event_request_json r) st of
        Inl e \<Rightarrow> Inl e
      | Inr (Some receipt) \<Rightarrow>
          (case caseProjection st (eq_case r) of
             Inl e \<Rightarrow> Inl e
           | Inr p \<Rightarrow> (case caseHead st (eq_case r) of
               Inl e \<Rightarrow> Inl e
             | Inr h \<Rightarrow> (case caseEventBySequence st (eq_case r) (ch_sequence h) of
                 Inl e \<Rightarrow> Inl e | Inr ev \<Rightarrow> Inr (p, ev, True, st))))
      | Inr None \<Rightarrow>
          (case caseProjection st (eq_case r) of
             Inl e \<Rightarrow> Inl e
           | Inr p \<Rightarrow>
               if eq_revision r \<noteq> pj_revision p then Inl SeRevision
               else if eq_actor r = [] \<or> eq_action r = [] \<or> eq_key r = [] then Inl SeFields
               else (case normalizeTime env (eq_occurred r) of
                 None \<Rightarrow> Inl SeTime
               | Some at \<Rightarrow> (case caseHead st (eq_case r) of
                   Inl e \<Rightarrow> Inl e
                 | Inr h \<Rightarrow> (case applyTransition env p r of
                     Inl e \<Rightarrow> Inl (SeTransition e)
                   | Inr next0 \<Rightarrow>
                       (let e = buildCaseEvent env (eq_case r) (ch_sequence h + 1) (ch_revision h + 1) (ch_sha h)
                              (eq_action r) (eq_actor r) (eq_reason r) at (eq_payload r);
                            next1 = next0\<lparr>pj_revision := ev_revision e, pj_updated := at, pj_head := ev_sha e\<rparr>;
                            events = (case map_of (st_cases st) (eq_case r) of None \<Rightarrow> [] | Some d \<Rightarrow> kd_events d);
                            d = \<lparr>kd_events = events @ [stored_event e], kd_projection = stored_projection next1,
                                 kd_head = head_of e\<rparr>
                        in Inr (next1, e, False,
                             saveReceipt env (event_scope r) (eq_key r) (event_request_json r)
                               (JObj (fld ''case'' (case_projection_json next1) @ fld ''event'' (case_event_json e)))
                               ''case'' (eq_case r) at
                               (appendAudit env at (eq_action r) (eq_actor r) ''case'' (eq_case r) (case_event_json e)
                                 (st\<lparr>st_cases := AList.update (eq_case r) d (st_cases st)\<rparr>))))))))))"

section \<open>Verification by replay\<close>

definition zero_projection :: case_projection where
  "zero_projection = \<lparr>pj_schema = [], pj_case = [], pj_tenant = [], pj_alerts = [], pj_grouping = [], pj_state = [],
     pj_revision = 0, pj_assigned = [], pj_proposer = [], pj_proposed = None, pj_approved = None, pj_evidence_requests = [],
     pj_evidence_submissions = [], pj_rescreens = [], pj_created = [], pj_updated = [], pj_head = []\<rparr>"

definition decode_created :: "json option \<Rightarrow> (string \<times> string list \<times> string) option" where
  "decode_created payload =
     (case payload of
        None \<Rightarrow> None
      | Some v \<Rightarrow> (case object_members v of
          None \<Rightarrow> None
        | Some kvs \<Rightarrow>
            (case (str_member kvs ''tenant_id'', strs_member kvs ''alert_ids'', str_member kvs ''grouping_key'') of
               (Some t, Some ids, Some g) \<Rightarrow> Some (t, ids, g) | _ \<Rightarrow> None)))"

definition replay_request :: "string \<Rightarrow> case_projection \<Rightarrow> case_event \<Rightarrow> event_request" where
  "replay_request i p e = \<lparr>eq_case = i, eq_revision = pj_revision p, eq_action = ev_action e, eq_actor = ev_actor e,
     eq_reason = ev_reason e, eq_occurred = ev_occurred e, eq_key = ''replay'', eq_payload = ev_payload e\<rparr>"

definition replay_event ::
  "case_env \<Rightarrow> string \<Rightarrow> case_projection \<Rightarrow> case_event \<Rightarrow> (store_error, case_projection) result" where
  "replay_event env i p e =
     (if ev_action e = ''case_created'' then
        (case decode_created (ev_payload e) of
           None \<Rightarrow> Inl SePayload
         | Some (t, ids, g) \<Rightarrow> Inr (new_projection i t ids g (ev_occurred e) (ev_sha e)))
      else (case applyTransition env p (replay_request i p e) of
           Inl x \<Rightarrow> Inl (SeReplay x)
         | Inr q \<Rightarrow> Inr (q\<lparr>pj_revision := ev_revision e, pj_updated := ev_occurred e, pj_head := ev_sha e\<rparr>)))"

fun replay_events ::
  "case_env \<Rightarrow> string \<Rightarrow> nat \<Rightarrow> string \<Rightarrow> case_projection \<Rightarrow> case_event list \<Rightarrow> (store_error, case_projection) result"
where
  "replay_events env i n previous p [] = Inr p"
| "replay_events env i n previous p (e # es) =
     (if ev_sequence e \<noteq> of_nat (Suc n) \<or> ev_revision e \<noteq> of_nat (Suc n) \<or> ev_previous e \<noteq> previous then Inl SeChain
      else if case_event_hash env (blank_case_event e) \<noteq> ev_sha e then Inl SeEventChecksum
      else (case replay_event env i p e of
              Inl x \<Rightarrow> Inl x | Inr q \<Rightarrow> replay_events env i (Suc n) (ev_sha e) q es))"

definition canonical_text :: "json \<Rightarrow> string" where
  "canonical_text v = marshal (canonical_json v)"

definition VerifyCase :: "case_env \<Rightarrow> case_store \<Rightarrow> string \<Rightarrow> (store_error, case_projection) result" where
  "VerifyCase env st i =
     (if \<not> valid_case_id i then Inl SeCaseId
      else (case map_of (st_cases st) i of
        None \<Rightarrow> Inl SeNoEvents
      | Some d \<Rightarrow>
          if kd_events d = [] then Inl SeNoEvents
          else (case replay_events env i 0 [] zero_projection (kd_events d) of
            Inl e \<Rightarrow> Inl e
          | Inr p \<Rightarrow>
              if canonical_text (case_projection_json p) \<noteq> canonical_text (case_projection_json (kd_projection d))
              then Inl SeProjection else Inr p)))"

section \<open>Status, lookups and batches\<close>

record store_status =
  ss_alerts :: nat
  ss_cases :: nat
  ss_audit :: nat

definition StoreStatus :: "case_env \<Rightarrow> case_store \<Rightarrow> (store_error, store_status) result" where
  "StoreStatus env st =
     (case VerifyAudit env st of
        Inl e \<Rightarrow> Inl e
      | Inr n \<Rightarrow> Inr \<lparr>ss_alerts = length (st_alerts st), ss_cases = length (st_cases st), ss_audit = n\<rparr>)"

definition LastCaseEvent :: "case_store \<Rightarrow> string \<Rightarrow> (store_error, case_event) result" where
  "LastCaseEvent st i =
     (case caseHead st i of Inl e \<Rightarrow> Inl e | Inr h \<Rightarrow> caseEventBySequence st i (ch_sequence h))"

record batch_request =
  bq_requests :: "alert_request list"
  bq_correlation :: string
  bq_key :: string
  bq_occurred :: string

definition batch_request_json :: "batch_request \<Rightarrow> json" where
  "batch_request_json b = JObj (fld ''requests'' (JArr (map alert_request_json (bq_requests b)))
     @ fld ''correlation_id'' (JStr (bq_correlation b)) @ fld ''idempotency_key'' (JStr (bq_key b))
     @ fld ''occurred_at'' (JStr (bq_occurred b)))"

definition batch_result_json :: "alert_record list \<Rightarrow> bool \<Rightarrow> json" where
  "batch_result_json as replayed = JObj (fld ''alerts'' (JArr (map alert_record_json as)) @ fld ''replayed'' (JBool replayed))"

text \<open>The children are created one after the other; an error leaves the state they have reached.\<close>

fun create_alerts ::
  "case_env \<Rightarrow> alert_request list \<Rightarrow> alert_record list \<Rightarrow> case_store
    \<Rightarrow> (store_error, alert_record list) result \<times> case_store"
where
  "create_alerts env [] out st = (Inr out, st)"
| "create_alerts env (r # rs) out st =
     (case CreateAlert env r st of
        Inl e \<Rightarrow> (Inl e, st)
      | Inr (a, _, st') \<Rightarrow> create_alerts env rs (out @ [a]) st')"

definition CreateAlertBatch ::
  "case_env \<Rightarrow> batch_request \<Rightarrow> case_store \<Rightarrow> (store_error, alert_record list \<times> bool) result \<times> case_store" where
  "CreateAlertBatch env b st =
     (if bq_requests b = [] then (Inl SeBatchEmpty, st)
      else if bq_key b = [] \<or> bq_correlation b = [] then (Inl SeBatchKeys, st)
      else if normalizeTime env (bq_occurred b) = None then (Inl SeTime, st)
      else (case first_err (\<lambda>r. map_sum id (\<lambda>_. ()) (BuildAlert env (st_policy st) r)) (bq_requests b) of
        Inl e \<Rightarrow> (Inl (SeBuild e), st)
      | Inr _ \<Rightarrow>
          (case checkReceipt env ''create-alert-batch'' (bq_key b) (batch_request_json b) st of
             Inl e \<Rightarrow> (Inl e, st)
           | Inr (Some receipt) \<Rightarrow>
               (if \<not> valid_hex_id [] 64 (cr_object receipt) then (Inl SeBatchId, st)
                else (case map_of (st_batches st) (cr_object receipt) of
                  None \<Rightarrow> (Inl SeBatchMissing, st) | Some as \<Rightarrow> (Inr (as, True), st)))
           | Inr None \<Rightarrow>
               (case create_alerts env (bq_requests b) [] st of
                  (Inl e, st1) \<Rightarrow> (Inl e, st1)
                | (Inr as, st1) \<Rightarrow>
                    (let h = HashObject env (JArr (map alert_record_json as)) in
                     (Inr (as, False), saveReceipt env ''create-alert-batch'' (bq_key b) (batch_request_json b)
                        (batch_result_json as False) ''alert_batch'' h (bq_occurred b)
                        (st1\<lparr>st_batches := AList.update h (map stored_alert as) (st_batches st1)\<rparr>)))))))"

end
