(* ===== verification/CaseReplay.thy ===== *)
theory CaseReplay imports CaseStore begin

text \<open>
  Replaying the events of a case: a stored event has the digest of the event it stores, and replaying
  it does what the request did, up to the canonical form in which JSON payloads are kept.
\<close>

section \<open>Canonical JSON\<close>

lemma map_of_sort_members: "map_of (rev (sort_members kvs)) k = map_of (rev kvs) k"
proof (cases "k \<in> fst ` set kvs")
  case True
  then obtain v where v: "map_of (rev kvs) k = Some v"
    by (metis map_of_eq_None_iff not_None_eq set_rev)
  have d: "distinct (map fst (rev (sort_members kvs)))"
    by (simp add: keys_sort_members rev_map [symmetric])
  have "(k, v) \<in> set (rev (sort_members kvs))"
    using True v by (auto simp: sort_members_def intro!: image_eqI [of _ _ k])
  then show ?thesis
    using v d by (simp add: map_of_eq_Some_iff)
next
  case False
  then have "map_of (rev kvs) k = None" "map_of (rev (sort_members kvs)) k = None"
    using keys_sort_members [of kvs] by (auto simp: map_of_eq_None_iff dest: sort_members_values)
  then show ?thesis
    by simp
qed

lemma map_of_map_snd: "map_of (map (\<lambda>p. (fst p, f (snd p))) kvs) k = map_option f (map_of kvs k)"
  by (induction kvs) auto

lemma canonical_members:
  "canonical_json (JObj kvs) = JObj ms \<Longrightarrow> map_of (rev ms) k = map_option canonical_json (map_of (rev kvs) k)"
  using map_of_map_snd [of canonical_json "rev kvs" k] by (auto simp: map_of_sort_members rev_map)

lemma canonical_eq_iff:
  "canonical_json v = JNull \<longleftrightarrow> v = JNull" "canonical_json v = JStr s \<longleftrightarrow> v = JStr s"
  by (cases v; simp)+

lemma get_string_canonical:
  assumes "canonical_json (JObj kvs) = JObj ms"
  shows "get_string ms k = get_string kvs k"
proof (cases "map_of (rev kvs) k")
  case None
  then show ?thesis
    by (simp add: get_string_def canonical_members [OF assms])
next
  case (Some v)
  then show ?thesis
    by (cases v) (simp_all add: get_string_def canonical_members [OF assms])
qed

lemma payload_members_canonical:
  "payload_members (canon_raw v) = map_option (\<lambda>kvs. sort_members (map (\<lambda>p. (fst p, canonical_json (snd p))) kvs)) (payload_members v)"
proof (cases v)
  case (Some w)
  then show ?thesis
    by (cases w) (simp_all add: payload_members_def canon_raw_def object_members_def sort_members_def)
qed (simp add: payload_members_def canon_raw_def sort_members_def)

lemma canon_raw_idem [simp]: "canon_raw (canon_raw v) = canon_raw v"
  by (cases v) (simp_all add: canon_raw_def canonical_json_idem)

lemma stored_projection_idem [simp]: "stored_projection (stored_projection p) = stored_projection p"
  by (simp add: stored_projection_def)

lemma stored_event_idem [simp]: "stored_event (stored_event e) = stored_event e"
  by (simp add: stored_event_def)

section \<open>Transitions\<close>

lemma accepted_actions:
  assumes "applyTransition env p r = Inr q"
  obtains "eq_action r = ''assign''" | "eq_action r = ''start_investigation''" | "eq_action r = ''request_evidence''"
    | "eq_action r = ''submit_evidence''" | "eq_action r = ''propose_decision''" | "eq_action r = ''approve_decision''"
    | "eq_action r = ''reject_decision''" | "eq_action r = ''reopen''" | "eq_action r = ''link_rescreen''"
  using assms unfolding applyTransition_def Let_def by (auto split: option.splits if_splits)

text \<open>Replaying a stored event does what the request did, up to the canonical form of decisions.\<close>

lemma applyTransition_stored:
  assumes "applyTransition env p r = Inr q" and "stored_projection p = p"
    and "eq_payload r' = canon_raw (eq_payload r)" "eq_case r' = eq_case r" "eq_action r' = eq_action r"
      "eq_actor r' = eq_actor r" "eq_revision r' = eq_revision r"
  shows "applyTransition env p r' = Inr (stored_projection q)"
proof -
  obtain kvs where kvs: "payload_members (eq_payload r) = Some kvs"
    using assms(1) by (auto simp: applyTransition_def split: option.splits)
  define ms where "ms = sort_members (map (\<lambda>p. (fst p, canonical_json (snd p))) kvs)"
  have c: "canonical_json (JObj kvs) = JObj ms"
    by (simp add: ms_def)
  have ms: "payload_members (eq_payload r') = Some ms"
    unfolding assms(3) payload_members_canonical kvs by (simp add: ms_def)
  have g: "generated_id env x r' = generated_id env x r" for x
    by (simp add: generated_id_def assms)
  have p: "canon_raw (pj_proposed p) = pj_proposed p" "canon_raw (pj_approved p) = pj_approved p"
    using arg_cong [OF assms(2), of pj_proposed] arg_cong [OF assms(2), of pj_approved] by (simp_all add: stored_projection_def)
  note u = applyTransition_def kvs ms option.case Let_def assms(5,6) get_string_canonical [OF c] g canonical_members [OF c]
  note st = stored_projection_def p canon_raw_def [of None]
  show ?thesis
    using assms(1)
  proof (cases rule: accepted_actions)
    case 1
    show ?thesis
      using assms(1) 1 unfolding u by (auto simp: st split: if_splits)
  next
    case 2
    show ?thesis
      using assms(1) 2 unfolding u by (auto simp: st split: if_splits)
  next
    case 3
    show ?thesis
      using assms(1) 3 unfolding u by (auto simp: st split: if_splits)
  next
    case 4
    show ?thesis
      using assms(1) 4 unfolding u by (auto simp: st split: if_splits)
  next
    case 5
    obtain d where d: "map_of (rev kvs) ''decision'' = Some d" "d \<noteq> JNull"
      using assms(1) 5 unfolding applyTransition_def kvs by (simp add: Let_def split: if_splits option.splits)
    show ?thesis
      using assms(1) 5 d unfolding u by (auto simp: st canonical_eq_iff canon_raw_def [of "Some d"] split: if_splits)
  next
    case 6
    show ?thesis
      using assms(1) 6 unfolding u by (auto simp: st split: if_splits)
  next
    case 7
    show ?thesis
      using assms(1) 7 unfolding u by (auto simp: st split: if_splits)
  next
    case 8
    show ?thesis
      using assms(1) 8 unfolding u by (auto simp: st split: if_splits)
  next
    case 9
    show ?thesis
      using assms(1) 9 unfolding u by (auto simp: st split: if_splits)
  qed
qed

lemma canon_raw_member:
  "map (\<lambda>p. (fst p, canonical_json (snd p))) (raw_member k (canon_raw v))
    = map (\<lambda>p. (fst p, canonical_json (snd p))) (raw_member k v)"
  by (cases v) (simp_all add: raw_member_def opt_member_def canon_raw_def canonical_json_idem)

lemma canonical_event: "canonical_json (case_event_json (stored_event e)) = canonical_json (case_event_json e)"
  by (simp add: case_event_json_def stored_event_def canon_raw_member)

lemma blank_stored_event: "blank_case_event (stored_event e) = stored_event (blank_case_event e)"
  by (simp add: blank_case_event_def stored_event_def)

lemma case_event_hash_stored [simp]: "case_event_hash env (stored_event e) = case_event_hash env e"
  by (simp add: case_event_hash_def HashObject_def digest_canonical_def canonical_event)

lemma canonical_projection:
  "canonical_json (case_projection_json (stored_projection p)) = canonical_json (case_projection_json p)"
  by (simp add: case_projection_json_def stored_projection_def canon_raw_member)

lemma canonical_jstrs [simp]: "canonical_json (jstrs xs) = jstrs xs"
  by (simp add: jstrs_def comp_def)

lemma fold_created: "fold_name ''alert_ids'' = ''alert_ids''" "fold_name ''grouping_key'' = ''grouping_key''"
  "fold_name ''tenant_id'' = ''tenant_id''"
  by (rule fold_name_plain; simp add: byte_of_def)+

lemma decode_created_payload: "decode_created (canon_raw (Some (created_payload t ids g))) = Some (t, ids, g)"
proof -
  have strs: "those (map (str_step []) (map JStr ids)) = Some ids"
    by (induction ids) (simp_all add: str_step_def)
  have "canonical_json (created_payload t ids g)
      = JObj [(''alert_ids'', jstrs ids), (''grouping_key'', JStr g), (''tenant_id'', JStr t)]"
    by (simp add: created_payload_def fld_def canonical_json_idem sort_members_def sorted_set_def)
  then show ?thesis
    by (simp add: decode_created_def canon_raw_def object_members_def str_member_def strs_member_def members_of_def
      fold_created str_step_def strs_step_def jstrs_def strs del: map_map)
qed

end
