(* ===== verification/CaseReach.thy ===== *)
theory CaseReach imports CaseReplay begin

text \<open>
  Reachable stores and what holds in all of them: every case replays to its stored projection, its
  head and revision agree with its events, the audit log verifies, and stored alerts keep their
  digests.
\<close>

section \<open>The audit log\<close>

definition seal_audit :: "string \<Rightarrow> audit_event \<Rightarrow> audit_event" where
  "seal_audit h e = e\<lparr>au_sha := h\<rparr>"

interpretation ha: hash_chain au_sequence au_previous au_sha blank_audit seal_audit "audit_hash env" for env
  by unfold_locales (simp_all add: seal_audit_def blank_audit_def, metis audit_event.surjective audit_event.update_convs(5) old.unit.exhaust)

abbreviation audit_chain :: "case_env \<Rightarrow> nat \<Rightarrow> string \<Rightarrow> audit_event list \<Rightarrow> bool" where
  "audit_chain env \<equiv> chain_ok au_sequence au_previous au_sha (\<lambda>e. audit_hash env (blank_audit e))"

lemma verify_audit_iff: "verify_audit env i p es = Inr () \<longleftrightarrow> audit_chain env i p es"
  by (induction env i p es rule: verify_audit.induct) auto

definition audit_ok :: "case_env \<Rightarrow> case_store \<Rightarrow> bool" where
  "audit_ok env st \<longleftrightarrow> audit_chain env 0 [] (st_audit st)
     \<and> st_audit_head st = (of_nat (length (st_audit st)), chain_head au_sha [] (st_audit st))"

lemma appendAudit_ok:
  assumes "audit_ok env st"
  shows "audit_ok env (appendAudit env at action actor t ob details st)"
proof -
  define e where "e = \<lparr>au_schema = ''openwatchlist.alert-case-audit.v1'', au_stream = st_stream st,
    au_sequence = fst (st_audit_head st) + 1, au_previous = snd (st_audit_head st), au_sha = [], au_occurred = at,
    au_action = action, au_actor = actor, au_object_type = t, au_object = ob, au_details = Some (canonical_json details)\<rparr>"
  have "audit_chain env 0 [] (st_audit st @ [seal_audit (audit_hash env (blank_audit e)) e])"
    by (rule ha.append_sealed_ok) (use assms in \<open>simp_all add: audit_ok_def e_def\<close>)
  then show ?thesis
    using assms by (simp add: audit_ok_def appendAudit_def Let_def e_def [symmetric] seal_audit_def [symmetric])
      (simp add: seal_audit_def e_def)
qed

lemma appendAudit_simps [simp]:
  "st_cases (appendAudit env at action actor t ob details st) = st_cases st"
  "st_alerts (appendAudit env at action actor t ob details st) = st_alerts st"
  "st_receipts (appendAudit env at action actor t ob details st) = st_receipts st"
  "st_batches (appendAudit env at action actor t ob details st) = st_batches st"
  "st_policy (appendAudit env at action actor t ob details st) = st_policy st"
  "length (st_audit (appendAudit env at action actor t ob details st)) = Suc (length (st_audit st))"
  by (simp_all add: appendAudit_def Let_def)

lemma saveReceipt_simps [simp]:
  "st_cases (saveReceipt env sc k rq rs t ob c st) = st_cases st"
  "st_alerts (saveReceipt env sc k rq rs t ob c st) = st_alerts st"
  "st_batches (saveReceipt env sc k rq rs t ob c st) = st_batches st"
  "st_policy (saveReceipt env sc k rq rs t ob c st) = st_policy st"
  "st_audit (saveReceipt env sc k rq rs t ob c st) = st_audit st"
  "audit_ok env (saveReceipt env sc k rq rs t ob c st) = audit_ok env st"
  by (simp_all add: saveReceipt_def audit_ok_def)

lemma audit_ok_update [simp]:
  "audit_ok env (st\<lparr>st_cases := cs\<rparr>) = audit_ok env st" "audit_ok env (st\<lparr>st_alerts := as\<rparr>) = audit_ok env st"
  "audit_ok env (st\<lparr>st_batches := bs\<rparr>) = audit_ok env st"
  by (simp_all add: audit_ok_def)

section \<open>Case events\<close>

definition seal_case_event :: "string \<Rightarrow> case_event \<Rightarrow> case_event" where
  "seal_case_event h e = e\<lparr>ev_sha := h\<rparr>"

interpretation hc: hash_chain ev_sequence ev_previous ev_sha blank_case_event seal_case_event "case_event_hash env" for env
  by unfold_locales (simp_all add: seal_case_event_def blank_case_event_def, metis case_event.surjective case_event.update_convs(6) old.unit.exhaust)

abbreviation case_chain :: "case_env \<Rightarrow> nat \<Rightarrow> string \<Rightarrow> case_event list \<Rightarrow> bool" where
  "case_chain env \<equiv> chain_ok ev_sequence ev_previous ev_sha (\<lambda>e. case_event_hash env (blank_case_event e))"

lemma replay_events_chain: "replay_events env i n prev p es = Inr q \<Longrightarrow> case_chain env n prev es"
  by (induction es arbitrary: n prev p) (auto split: if_splits sum.splits)

lemma replay_events_snoc:
  "replay_events env i n prev p (es @ [e]) =
     (case replay_events env i n prev p es of
        Inl x \<Rightarrow> Inl x
      | Inr q \<Rightarrow> replay_events env i (n + length es) (chain_head ev_sha prev es) q [e])"
  by (induction es arbitrary: n prev p) (auto simp: chain_head_Cons split: sum.splits)

definition case_ok :: "case_env \<Rightarrow> string \<Rightarrow> case_dir \<Rightarrow> bool" where
  "case_ok env i d \<longleftrightarrow> kd_events d \<noteq> [] \<and> ev_action (hd (kd_events d)) = ''case_created''
     \<and> replay_events env i 0 [] zero_projection (kd_events d) = Inr (kd_projection d)
     \<and> stored_projection (kd_projection d) = kd_projection d
     \<and> pj_revision (kd_projection d) = of_nat (length (kd_events d))
     \<and> kd_head d = head_of (last (kd_events d))
     \<and> list_all (\<lambda>e. ev_case e = i \<and> stored_event e = e) (kd_events d)"

lemma last_case_event:
  assumes "case_ok env i d"
  shows "ev_sequence (last (kd_events d)) = of_nat (length (kd_events d))"
    "ev_revision (last (kd_events d)) = of_nat (length (kd_events d))"
    "ev_sha (last (kd_events d)) = chain_head ev_sha [] (kd_events d)"
proof -
  obtain es e where es: "kd_events d = es @ [e]"
    using assms by (metis case_ok_def rev_exhaust)
  show "ev_sequence (last (kd_events d)) = of_nat (length (kd_events d))"
    "ev_revision (last (kd_events d)) = of_nat (length (kd_events d))"
    "ev_sha (last (kd_events d)) = chain_head ev_sha [] (kd_events d)"
    using assms by (auto simp: case_ok_def es replay_events_snoc split: sum.splits if_splits)
qed

text \<open>Appending an event that the transitions accept keeps a case replayable.\<close>

lemma build_fields [simp]:
  "ev_case (buildCaseEvent env i sq rv prev act actor reason at pl) = i"
  "ev_sequence (buildCaseEvent env i sq rv prev act actor reason at pl) = sq"
  "ev_revision (buildCaseEvent env i sq rv prev act actor reason at pl) = rv"
  "ev_previous (buildCaseEvent env i sq rv prev act actor reason at pl) = prev"
  "ev_action (buildCaseEvent env i sq rv prev act actor reason at pl) = act"
  "ev_actor (buildCaseEvent env i sq rv prev act actor reason at pl) = actor"
  "ev_reason (buildCaseEvent env i sq rv prev act actor reason at pl) = reason"
  "ev_occurred (buildCaseEvent env i sq rv prev act actor reason at pl) = at"
  "ev_payload (buildCaseEvent env i sq rv prev act actor reason at pl) = pl"
  "case_event_hash env (blank_case_event (buildCaseEvent env i sq rv prev act actor reason at pl))
     = ev_sha (buildCaseEvent env i sq rv prev act actor reason at pl)"
  by (simp_all add: buildCaseEvent_def blank_case_event_def Let_def)

lemma stored_event_fields [simp]:
  "ev_case (stored_event e) = ev_case e" "ev_sequence (stored_event e) = ev_sequence e"
  "ev_revision (stored_event e) = ev_revision e" "ev_previous (stored_event e) = ev_previous e"
  "ev_sha (stored_event e) = ev_sha e" "ev_action (stored_event e) = ev_action e"
  "ev_actor (stored_event e) = ev_actor e" "ev_reason (stored_event e) = ev_reason e"
  "ev_occurred (stored_event e) = ev_occurred e" "ev_payload (stored_event e) = canon_raw (ev_payload e)"
  "head_of (stored_event e) = head_of e"
  by (simp_all add: stored_event_def head_of_def)

lemma no_created_action: "eq_action r = ''case_created'' \<Longrightarrow> applyTransition env p r \<noteq> Inr q"
  by (auto simp: applyTransition_def Let_def split: option.splits)

lemma case_ok_new:
  fixes env i t ids g actor reason at
  defines "e \<equiv> buildCaseEvent env i 1 1 [] ''case_created'' actor reason at (Some (created_payload t ids g))"
  shows "case_ok env i \<lparr>kd_events = [stored_event e], kd_projection = stored_projection (new_projection i t ids g at (ev_sha e)),
    kd_head = head_of e\<rparr>"
proof -
  have "decode_created (ev_payload (stored_event e)) = Some (t, ids, g)"
    by (simp add: e_def decode_created_payload)
  moreover have "case_event_hash env (blank_case_event (stored_event e)) = ev_sha e"
    by (simp add: blank_stored_event) (simp add: e_def)
  moreover have "stored_projection (new_projection i t ids g at (ev_sha e)) = new_projection i t ids g at (ev_sha e)"
    by (simp add: stored_projection_def new_projection_def canon_raw_def)
  moreover have "pj_revision (new_projection i t ids g at (ev_sha e)) = 1"
    by (simp add: new_projection_def)
  moreover have "ev_sequence e = 1" "ev_revision e = 1" "ev_previous e = []" "ev_action e = ''case_created''" "ev_case e = i"
    "ev_occurred e = at"
    by (simp_all add: e_def)
  ultimately show ?thesis
    by (simp add: case_ok_def replay_event_def)
qed

lemma case_ok_append:
  fixes env i d r at
  defines "h \<equiv> kd_head d" and "p \<equiv> kd_projection d"
  defines "e \<equiv> buildCaseEvent env i (ch_sequence h + 1) (ch_revision h + 1) (ch_sha h) (eq_action r) (eq_actor r) (eq_reason r) at
    (eq_payload r)"
  assumes d: "case_ok env i d" and q: "applyTransition env p r = Inr q"
    and r: "eq_case r = i" "eq_revision r = pj_revision p"
  shows "case_ok env i \<lparr>kd_events = kd_events d @ [stored_event e],
    kd_projection = stored_projection (q\<lparr>pj_revision := ev_revision e, pj_updated := at, pj_head := ev_sha e\<rparr>),
    kd_head = head_of e\<rparr>"
proof -
  let ?n = "length (kd_events d)"
  have h: "ch_sequence h = of_nat ?n" "ch_revision h = of_nat ?n" "ch_sha h = chain_head ev_sha [] (kd_events d)"
    using d last_case_event [OF d] by (simp_all add: case_ok_def h_def head_of_def)
  have e: "ev_sequence e = of_nat (Suc ?n)" "ev_revision e = of_nat (Suc ?n)" "ev_previous e = chain_head ev_sha [] (kd_events d)"
    "ev_case e = i" "ev_occurred e = at" "ev_action e \<noteq> ''case_created''"
    using no_created_action [of r env p q] q by (auto simp: e_def h)
  have t: "applyTransition env p (replay_request i p (stored_event e)) = Inr (stored_projection q)"
    by (rule applyTransition_stored [OF q]) (use d r in \<open>simp_all add: case_ok_def p_def replay_request_def e_def\<close>)
  have hash: "case_event_hash env (blank_case_event (stored_event e)) = ev_sha e"
    by (simp add: blank_stored_event) (simp add: e_def)
  have s: "replay_event env i p (stored_event e)
      = Inr (stored_projection (q\<lparr>pj_revision := ev_revision e, pj_updated := at, pj_head := ev_sha e\<rparr>))"
    using e t by (simp add: replay_event_def) (simp add: stored_projection_def)
  have "replay_events env i 0 [] zero_projection (kd_events d) = Inr p"
    using d by (simp add: case_ok_def p_def)
  then have "replay_events env i 0 [] zero_projection (kd_events d @ [stored_event e])
      = Inr (stored_projection (q\<lparr>pj_revision := ev_revision e, pj_updated := at, pj_head := ev_sha e\<rparr>))"
    using e by (simp add: replay_events_snoc hash s)
  then show ?thesis
    using d e by (simp add: case_ok_def) (simp add: stored_projection_def)
qed

section \<open>Alerts\<close>

lemma canonical_record: "canonical_json (alert_record_json (stored_alert a)) = canonical_json (alert_record_json a)"
proof -
  have l: "canonical_json (lineage_json (l\<lparr>li_activation := canon_raw (li_activation l), li_promotion := canon_raw (li_promotion l)\<rparr>))
      = canonical_json (lineage_json l)" for l
    by (simp add: lineage_json_def canon_raw_member)
  have x: "canonical_json (external_alert_json (x\<lparr>ea_resolution := canon_raw (ea_resolution x)\<rparr>))
      = canonical_json (external_alert_json x)" for x
    by (cases "ea_resolution x") (simp_all add: external_alert_json_def canon_raw_def jraw_def fld_def canonical_json_idem)
  show ?thesis
    by (simp add: alert_record_json_def stored_alert_def canon_raw_member)
      (cases "al_lineage a"; cases "al_external a"; simp add: opt_member_def l x)
qed

lemma stored_alert_sha: "(stored_alert a)\<lparr>al_sha := s\<rparr> = stored_alert (a\<lparr>al_sha := s\<rparr>)"
  by (simp add: stored_alert_def)

lemma record_hash_stored [simp]: "record_hash env (stored_alert a) = record_hash env a"
  by (simp add: record_hash_def stored_alert_sha HashObject_def digest_canonical_def canonical_record)

lemma stored_alert_fields [simp]: "al_id (stored_alert a) = al_id a" "al_sha (stored_alert a) = al_sha a"
  "al_tenant (stored_alert a) = al_tenant a" "al_created (stored_alert a) = al_created a"
  "al_decision (stored_alert a) = al_decision a"
  by (simp_all add: stored_alert_def)

lemma BuildAlert_hash: "BuildAlert env p r = Inr a \<Longrightarrow> record_hash env a = al_sha a"
  by (auto simp: BuildAlert_def record_hash_def Let_def split: option.splits sum.splits prod.splits)

definition alerts_ok :: "case_env \<Rightarrow> case_store \<Rightarrow> bool" where
  "alerts_ok env st \<longleftrightarrow> distinct (map fst (st_alerts st))
     \<and> (\<forall>i a. map_of (st_alerts st) i = Some a \<longrightarrow> valid_alert_id i \<and> al_id a = i \<and> record_hash env a = al_sha a)"

definition cases_ok :: "case_env \<Rightarrow> case_store \<Rightarrow> bool" where
  "cases_ok env st \<longleftrightarrow> distinct (map fst (st_cases st))
     \<and> (\<forall>i d. map_of (st_cases st) i = Some d \<longrightarrow> valid_case_id i \<and> case_ok env i d)"

definition store_ok :: "case_env \<Rightarrow> case_store \<Rightarrow> bool" where
  "store_ok env st \<longleftrightarrow> alerts_ok env st \<and> cases_ok env st \<and> audit_ok env st"

lemma parts_frame [simp]:
  "alerts_ok env (saveReceipt env sc k rq rs t ob c st) = alerts_ok env st"
  "cases_ok env (saveReceipt env sc k rq rs t ob c st) = cases_ok env st"
  "alerts_ok env (appendAudit env at action actor t ob details st) = alerts_ok env st"
  "cases_ok env (appendAudit env at action actor t ob details st) = cases_ok env st"
  "alerts_ok env (st\<lparr>st_cases := cs\<rparr>) = alerts_ok env st" "alerts_ok env (st\<lparr>st_batches := bs\<rparr>) = alerts_ok env st"
  "cases_ok env (st\<lparr>st_alerts := as\<rparr>) = cases_ok env st" "cases_ok env (st\<lparr>st_batches := bs\<rparr>) = cases_ok env st"
  by (simp_all add: alerts_ok_def cases_ok_def)

lemma alerts_ok_update:
  "alerts_ok env st \<Longrightarrow> valid_alert_id i \<Longrightarrow> al_id a = i \<Longrightarrow> record_hash env a = al_sha a
    \<Longrightarrow> alerts_ok env (st\<lparr>st_alerts := AList.update i a (st_alerts st)\<rparr>)"
  by (auto simp: alerts_ok_def AList.update_conv' distinct_update)

lemma cases_ok_update:
  "cases_ok env st \<Longrightarrow> valid_case_id i \<Longrightarrow> case_ok env i d
    \<Longrightarrow> cases_ok env (st\<lparr>st_cases := AList.update i d (st_cases st)\<rparr>)"
  by (auto simp: cases_ok_def AList.update_conv' distinct_update)

section \<open>The operations keep the invariant\<close>

lemma CreateAlert_cases:
  assumes "CreateAlert env r st = Inr (a, b, st')"
  obtains (replay) "st' = st" "b"
  | (known) i where "b" "map_of (st_alerts st) i = Some a"
      "st' = saveReceipt env ''create-alert'' (aq_key r) (alert_request_json r) (alert_record_json a) ''alert'' (al_id a) (al_created a) st"
  | (fresh) "\<not> b" "BuildAlert env (st_policy st) r = Inr a" "valid_alert_id (al_id a)" "map_of (st_alerts st) (al_id a) = None"
      "st' = saveReceipt env ''create-alert'' (aq_key r) (alert_request_json r) (alert_record_json a) ''alert'' (al_id a) (al_created a)
         (appendAudit env (al_created a) ''alert_created'' ''system'' ''alert'' (al_id a) (alert_record_json a)
           (st\<lparr>st_alerts := AList.update (al_id a) (stored_alert a) (st_alerts st)\<rparr>))"
proof (cases "checkReceipt env ''create-alert'' (aq_key r) (alert_request_json r) st")
  case (Inl e)
  then show ?thesis
    using assms by (simp add: CreateAlert_def)
next
  case (Inr rc)
  show ?thesis
  proof (cases rc)
    case (Some receipt)
    then show ?thesis
      using assms Inr by (intro replay) (simp_all add: CreateAlert_def split: sum.splits)
  next
    case None
    then obtain c where c: "BuildAlert env (st_policy st) r = Inr c" "valid_alert_id (al_id c)"
      using assms Inr by (simp add: CreateAlert_def split: sum.splits if_splits)
    show ?thesis
    proof (cases "map_of (st_alerts st) (al_id c)")
      case None': None
      then have "c = a" "\<not> b" "st' = saveReceipt env ''create-alert'' (aq_key r) (alert_request_json r) (alert_record_json c) ''alert'' (al_id c) (al_created c)
         (appendAudit env (al_created c) ''alert_created'' ''system'' ''alert'' (al_id c) (alert_record_json c)
           (st\<lparr>st_alerts := AList.update (al_id c) (stored_alert c) (st_alerts st)\<rparr>))"
        using assms Inr None c by (auto simp: CreateAlert_def)
      then show ?thesis
        using None' c by (intro fresh) auto
    next
      case (Some old)
      then have "b" "old = a" "st' = saveReceipt env ''create-alert'' (aq_key r) (alert_request_json r) (alert_record_json old) ''alert'' (al_id old) (al_created old) st"
        using assms Inr None c by (auto simp: CreateAlert_def split: if_splits)
      then show ?thesis
        using Some by (intro known) auto
    qed
  qed
qed

lemma CreateAlert_ok:
  assumes "CreateAlert env r st = Inr (a, b, st')" and "store_ok env st"
  shows "store_ok env st'"
  using assms(1)
proof (cases rule: CreateAlert_cases)
  case fresh
  then show ?thesis
    using assms(2) alerts_ok_update [of env st "al_id a" "stored_alert a"] BuildAlert_hash [OF fresh(2)]
    by (simp add: store_ok_def appendAudit_ok)
qed (use assms(2) in \<open>simp_all add: store_ok_def\<close>)

lemma create_alerts_ok: "create_alerts env rs out st = (res, st') \<Longrightarrow> store_ok env st \<Longrightarrow> store_ok env st'"
proof (induction rs arbitrary: out st)
  case (Cons r rs)
  show ?case
  proof (cases "CreateAlert env r st")
    case (Inl e)
    then show ?thesis
      using Cons.prems by simp
  next
    case (Inr x)
    then obtain a b s where x: "CreateAlert env r st = Inr (a, b, s)"
      by (cases x) auto
    then show ?thesis
      using Cons.prems Cons.IH [of "out @ [a]" s] CreateAlert_ok [OF x] by simp
  qed
qed simp

lemma CreateAlertBatch_ok:
  assumes "CreateAlertBatch env b st = (res, st')" and "store_ok env st"
  shows "store_ok env st'"
proof -
  obtain out st1 where c: "create_alerts env (bq_requests b) [] st = (out, st1)"
    by fastforce
  have "st' = st \<or> st' = st1 \<or> (\<exists>rq rs h bs. st' = saveReceipt env ''create-alert-batch'' (bq_key b) rq rs ''alert_batch'' h (bq_occurred b)
      (st1\<lparr>st_batches := bs\<rparr>))"
    using assms(1) unfolding CreateAlertBatch_def c Let_def by (simp split: if_splits sum.splits option.splits) blast+
  then show ?thesis
    using assms(2) create_alerts_ok [OF c assms(2)] by (auto simp: store_ok_def)
qed

lemma CreateCase_cases:
  assumes "CreateCase env r st = Inr (p, b, st')"
  obtains (replay) "st' = st" "b"
  | (known) i d at where "b" "map_of (st_cases st) i = Some d" "p = kd_projection d"
      "st' = saveReceipt env ''create-case'' (cq_key r) (case_request_json r) (case_projection_json p) ''case'' i at st"
  | (fresh) i ids at e where "\<not> b" "ids = sortedUnique (cq_alerts r)" "valid_case_id i" "map_of (st_cases st) i = None"
      "normalizeTime env (cq_occurred r) = Some at" "first_err (check_case_alert st (cq_tenant r)) ids = Inr ()"
      "i = case_identity env (cq_tenant r) ids (cq_grouping r)"
      "e = buildCaseEvent env i 1 1 [] ''case_created'' (cq_created_by r) (cq_reason r) at (Some (created_payload (cq_tenant r) ids (cq_grouping r)))"
      "p = new_projection i (cq_tenant r) ids (cq_grouping r) at (ev_sha e)"
      "st' = saveReceipt env ''create-case'' (cq_key r) (case_request_json r) (case_projection_json p) ''case'' i at
         (appendAudit env at ''case_created'' (cq_created_by r) ''case'' i (case_event_json e)
           (st\<lparr>st_cases := AList.update i \<lparr>kd_events = [stored_event e], kd_projection = stored_projection p, kd_head = head_of e\<rparr>
             (st_cases st)\<rparr>))"
proof (cases "checkReceipt env ''create-case'' (cq_key r) (case_request_json r) st")
  case (Inl e)
  then show ?thesis
    using assms by (simp add: CreateCase_def)
next
  case (Inr rc)
  let ?ids = "sortedUnique (cq_alerts r)"
  let ?i = "case_identity env (cq_tenant r) ?ids (cq_grouping r)"
  show ?thesis
  proof (cases rc)
    case (Some receipt)
    then show ?thesis
      using assms Inr by (intro replay) (simp_all add: CreateCase_def split: sum.splits)
  next
    case None
    have f: "\<not> (cq_tenant r = [] \<or> cq_created_by r = [] \<or> cq_reason r = [] \<or> cq_alerts r = [])"
      using assms Inr None by (auto simp: CreateCase_def split: if_splits)
    obtain at where at: "normalizeTime env (cq_occurred r) = Some at"
      using assms Inr None f by (auto simp: CreateCase_def split: option.splits)
    have c: "first_err (check_case_alert st (cq_tenant r)) ?ids = Inr ()"
      using assms Inr None f at first_err_cases [of "check_case_alert st (cq_tenant r)" ?ids] by (auto simp: CreateCase_def Let_def)
    have v: "valid_case_id ?i"
      using assms Inr None f at c by (auto simp: CreateCase_def Let_def split: if_splits)
    note u = CreateCase_def Inr None f at c v
    show ?thesis
    proof (cases "map_of (st_cases st) ?i")
      case None'': None
      show ?thesis
        by (rule fresh [OF _ refl v None'' at c refl refl]) (use assms None'' in \<open>auto simp: u Let_def\<close>)
    next
      case (Some d)
      then show ?thesis
        using assms by (intro known) (auto simp: u Let_def)
    qed
  qed
qed

lemma CreateCase_ok:
  assumes "CreateCase env r st = Inr (p, b, st')" and "store_ok env st"
  shows "store_ok env st'"
  using assms(1)
proof (cases rule: CreateCase_cases)
  case (fresh i ids at e)
  have "case_ok env i \<lparr>kd_events = [stored_event e], kd_projection = stored_projection p, kd_head = head_of e\<rparr>"
    unfolding fresh(8,9) by (rule case_ok_new)
  then show ?thesis
    using assms(2) fresh(3) cases_ok_update [of env st i] unfolding fresh(10) by (simp add: store_ok_def appendAudit_ok)
qed (use assms(2) in \<open>simp_all add: store_ok_def\<close>)

lemma ApplyCaseEvent_cases:
  assumes "ApplyCaseEvent env r st = Inr (p, e, b, st')"
  obtains (replay) "st' = st" "b"
  | (fresh) d q at where "\<not> b" "valid_case_id (eq_case r)" "map_of (st_cases st) (eq_case r) = Some d"
      "eq_revision r = pj_revision (kd_projection d)" "eq_actor r \<noteq> []" "normalizeTime env (eq_occurred r) = Some at"
      "applyTransition env (kd_projection d) r = Inr q"
      "e = buildCaseEvent env (eq_case r) (ch_sequence (kd_head d) + 1) (ch_revision (kd_head d) + 1) (ch_sha (kd_head d))
         (eq_action r) (eq_actor r) (eq_reason r) at (eq_payload r)"
      "p = q\<lparr>pj_revision := ev_revision e, pj_updated := at, pj_head := ev_sha e\<rparr>"
      "st' = saveReceipt env (event_scope r) (eq_key r) (event_request_json r)
         (JObj (fld ''case'' (case_projection_json p) @ fld ''event'' (case_event_json e))) ''case'' (eq_case r) at
         (appendAudit env at (eq_action r) (eq_actor r) ''case'' (eq_case r) (case_event_json e)
           (st\<lparr>st_cases := AList.update (eq_case r) \<lparr>kd_events = kd_events d @ [stored_event e],
              kd_projection = stored_projection p, kd_head = head_of e\<rparr> (st_cases st)\<rparr>))"
proof (cases "checkReceipt env (event_scope r) (eq_key r) (event_request_json r) st")
  case (Inl x)
  then show ?thesis
    using assms by (simp add: ApplyCaseEvent_def split: if_splits)
next
  case (Inr rc)
  have v: "valid_case_id (eq_case r)"
    using assms by (auto simp: ApplyCaseEvent_def split: if_splits)
  show ?thesis
  proof (cases rc)
    case (Some receipt)
    then show ?thesis
      using assms Inr v by (intro replay) (simp_all add: ApplyCaseEvent_def split: sum.splits)
  next
    case None
    obtain d where d: "map_of (st_cases st) (eq_case r) = Some d"
      using assms Inr None v by (auto simp: ApplyCaseEvent_def caseProjection_def split: option.splits)
    have rd: "caseProjection st (eq_case r) = Inr (kd_projection d)" "caseHead st (eq_case r) = Inr (kd_head d)"
      by (simp_all add: caseProjection_def caseHead_def v d)
    have f: "eq_revision r = pj_revision (kd_projection d)" "\<not> (eq_actor r = [] \<or> eq_action r = [] \<or> eq_key r = [])"
      using assms by (auto simp: ApplyCaseEvent_def Inr None v rd split: if_splits)
    obtain at where at: "normalizeTime env (eq_occurred r) = Some at"
      using assms by (auto simp: ApplyCaseEvent_def Inr None v rd f split: option.splits)
    obtain q where q: "applyTransition env (kd_projection d) r = Inr q"
      using assms by (auto simp: ApplyCaseEvent_def Inr None v rd f at split: sum.splits)
    show ?thesis
      by (rule fresh [OF _ v d f(1) _ at q]) (use assms f in \<open>auto simp: ApplyCaseEvent_def Inr None v rd at q d Let_def\<close>)
  qed
qed

lemma ApplyCaseEvent_ok:
  assumes "ApplyCaseEvent env r st = Inr (p, e, b, st')" and "store_ok env st"
  shows "store_ok env st'"
  using assms(1)
proof (cases rule: ApplyCaseEvent_cases)
  case (fresh d q at)
  have "case_ok env (eq_case r) d"
    using assms(2) fresh(3) by (simp add: store_ok_def cases_ok_def)
  then have "case_ok env (eq_case r) \<lparr>kd_events = kd_events d @ [stored_event e], kd_projection = stored_projection p, kd_head = head_of e\<rparr>"
    unfolding fresh(8,9) by (rule case_ok_append [OF _ fresh(7) refl fresh(4)])
  then show ?thesis
    using assms(2) fresh(2) cases_ok_update [of env st "eq_case r"] unfolding fresh(10) by (simp add: store_ok_def appendAudit_ok)
qed (use assms(2) in \<open>simp_all add: store_ok_def\<close>)

section \<open>Reachable stores\<close>

inductive store_reach :: "case_env \<Rightarrow> case_store \<Rightarrow> bool" for env where
  new: "store_reach env (NewStore p stream)"
| alert: "store_reach env st \<Longrightarrow> CreateAlert env r st = Inr (a, b, st') \<Longrightarrow> store_reach env st'"
| opened: "store_reach env st \<Longrightarrow> CreateCase env cr st = Inr (p, b, st') \<Longrightarrow> store_reach env st'"
| event: "store_reach env st \<Longrightarrow> ApplyCaseEvent env er st = Inr (p, e, b, st') \<Longrightarrow> store_reach env st'"
| batch: "store_reach env st \<Longrightarrow> CreateAlertBatch env br st = (res, st') \<Longrightarrow> store_reach env st'"

lemma store_reach_ok: "store_reach env st \<Longrightarrow> store_ok env st"
proof (induction rule: store_reach.induct)
  case (new p stream)
  then show ?case
    by (simp add: NewStore_def store_ok_def alerts_ok_def cases_ok_def audit_ok_def)
qed (auto intro: CreateAlert_ok CreateCase_ok ApplyCaseEvent_ok CreateAlertBatch_ok)

lemma reach_case:
  "store_reach env st \<Longrightarrow> map_of (st_cases st) i = Some d \<Longrightarrow> valid_case_id i \<and> case_ok env i d"
  using store_reach_ok [of env st] by (simp add: store_ok_def cases_ok_def)

lemma reach_alert:
  "store_reach env st \<Longrightarrow> map_of (st_alerts st) i = Some a \<Longrightarrow> valid_alert_id i \<and> al_id a = i \<and> record_hash env a = al_sha a"
  using store_reach_ok [of env st] by (simp add: store_ok_def alerts_ok_def)

lemma reach_audit: "store_reach env st \<Longrightarrow> verify_audit env 0 [] (st_audit st) = Inr ()"
  using store_reach_ok [of env st] by (simp add: store_ok_def audit_ok_def verify_audit_iff)

end
