(* ===== verification/CaseLife.thy ===== *)
theory CaseLife imports CaseReach begin

text \<open>
  What the events of a case tell: the abstract life cycle the transitions follow, the trail behind
  an approved decision, and the lookups a repeated request makes.
\<close>

section \<open>The life of a case\<close>

text \<open>
  The abstract life cycle: a decision awaiting approval carries its proposer, a resolved case the
  decision. The step relation is labelled with the actor.
\<close>

datatype life =
    Fresh | Opened | Assigned | Investigating | PendingEvidence | Reopened
  | PendingApproval string "json option" | Resolved "json option"

inductive life_step :: "string \<Rightarrow> life \<Rightarrow> life \<Rightarrow> bool" where
  assign: "l \<in> {Opened, Assigned, Investigating, Reopened} \<Longrightarrow> life_step a l Assigned"
| investigate: "l \<in> {Assigned, Reopened} \<Longrightarrow> life_step a l Investigating"
| ask: "l \<in> {Assigned, Investigating, PendingEvidence} \<Longrightarrow> life_step a l PendingEvidence"
| submit: "l \<in> {PendingEvidence, Investigating} \<Longrightarrow> life_step a l Investigating"
| propose: "l \<in> {Assigned, Investigating, PendingEvidence, Reopened} \<Longrightarrow> d \<noteq> JNull
    \<Longrightarrow> life_step a l (PendingApproval a (Some d))"
| approve: "b \<noteq> a \<Longrightarrow> life_step a (PendingApproval b d) (Resolved d)"
| reject: "b \<noteq> a \<Longrightarrow> life_step a (PendingApproval b d) Investigating"
| reopen: "life_step a (Resolved d) Reopened"
| link: "l \<noteq> Fresh \<Longrightarrow> (\<And>d. l \<noteq> Resolved d) \<Longrightarrow> life_step a l l"

definition life_of :: "case_projection \<Rightarrow> life" where
  "life_of p = (if pj_state p = ''open'' then Opened else if pj_state p = ''assigned'' then Assigned
     else if pj_state p = ''investigating'' then Investigating else if pj_state p = ''pending_evidence'' then PendingEvidence
     else if pj_state p = ''reopened'' then Reopened
     else if pj_state p = ''pending_approval'' then PendingApproval (pj_proposer p) (pj_proposed p)
     else if pj_state p = ''resolved'' then Resolved (pj_approved p) else Fresh)"

lemma applyTransition_actions:
  assumes "applyTransition env p r = Inr q"
  obtains (assign) a where "eq_action r = ''assign''" "q = p\<lparr>pj_assigned := a, pj_state := ''assigned''\<rparr>"
      "pj_state p \<in> {''open'', ''assigned'', ''investigating'', ''reopened''}"
  | (investigate) "eq_action r = ''start_investigation''" "q = p\<lparr>pj_state := ''investigating''\<rparr>"
      "pj_state p \<in> {''assigned'', ''reopened''}"
  | (ask) ids where "eq_action r = ''request_evidence''" "q = p\<lparr>pj_evidence_requests := ids, pj_state := ''pending_evidence''\<rparr>"
      "pj_state p \<in> {''assigned'', ''investigating'', ''pending_evidence''}"
  | (submit) ids where "eq_action r = ''submit_evidence''" "q = p\<lparr>pj_evidence_submissions := ids, pj_state := ''investigating''\<rparr>"
      "pj_state p \<in> {''pending_evidence'', ''investigating''}"
  | (propose) kvs d where "eq_action r = ''propose_decision''" "payload_members (eq_payload r) = Some kvs"
      "map_of (rev kvs) ''decision'' = Some d" "d \<noteq> JNull"
      "q = p\<lparr>pj_proposer := eq_actor r, pj_proposed := Some d, pj_state := ''pending_approval''\<rparr>"
      "pj_state p \<in> {''assigned'', ''investigating'', ''pending_evidence'', ''reopened''}"
  | (approve) "eq_action r = ''approve_decision''" "pj_state p = ''pending_approval''" "pj_proposer p \<noteq> eq_actor r"
      "pj_proposer p \<noteq> []" "q = p\<lparr>pj_approved := pj_proposed p, pj_state := ''resolved''\<rparr>"
  | (reject) "eq_action r = ''reject_decision''" "pj_state p = ''pending_approval''" "pj_proposer p \<noteq> eq_actor r"
      "q = p\<lparr>pj_proposer := [], pj_proposed := None, pj_state := ''investigating''\<rparr>"
  | (reopen) "eq_action r = ''reopen''" "pj_state p = ''resolved''"
      "q = p\<lparr>pj_state := ''reopened'', pj_proposer := [], pj_proposed := None\<rparr>"
  | (link) ids where "eq_action r = ''link_rescreen''" "pj_state p \<noteq> ''resolved''" "q = p\<lparr>pj_rescreens := ids\<rparr>"
proof -
  obtain kvs where kvs: "payload_members (eq_payload r) = Some kvs"
    using assms by (auto simp: applyTransition_def split: option.splits)
  note u = assms [unfolded applyTransition_def kvs option.case Let_def]
  show ?thesis
    using assms
  proof (cases rule: accepted_actions)
    case 1
    with u show ?thesis by (intro assign) (auto split: if_splits)
  next
    case 2
    with u show ?thesis by (intro investigate) (auto split: if_splits)
  next
    case 3
    with u show ?thesis by (intro ask [of "pj_evidence_requests q"]) (auto split: if_splits)
  next
    case 4
    with u show ?thesis by (intro submit [of "pj_evidence_submissions q"]) (auto split: if_splits)
  next
    case 5
    with u obtain d where "map_of (rev kvs) ''decision'' = Some d" "d \<noteq> JNull"
      by (simp split: if_splits option.splits)
    with 5 u show ?thesis by (intro propose [OF _ kvs]) (auto split: if_splits)
  next
    case 6
    with u show ?thesis by (intro approve) (auto split: if_splits)
  next
    case 7
    with u show ?thesis by (intro reject) (auto split: if_splits)
  next
    case 8
    with u show ?thesis by (intro reopen) (auto split: if_splits)
  next
    case 9
    with u show ?thesis by (intro link [of "pj_rescreens q"]) (auto split: if_splits)
  qed
qed

lemma transition_life_step:
  assumes "applyTransition env p r = Inr q" and "life_of p \<noteq> Fresh"
  shows "life_step (eq_actor r) (life_of p) (life_of q) \<and> life_of q \<noteq> Fresh"
  using assms(1)
proof (cases rule: applyTransition_actions)
  case (assign a)
  then show ?thesis
    by (auto simp: life_of_def intro: life_step.assign)
next
  case investigate
  then show ?thesis
    by (auto simp: life_of_def intro: life_step.investigate)
next
  case (ask ids)
  then show ?thesis
    by (auto simp: life_of_def intro: life_step.ask)
next
  case (submit ids)
  then show ?thesis
    by (auto simp: life_of_def intro: life_step.submit)
next
  case (propose kvs d)
  then show ?thesis
    by (auto simp: life_of_def intro: life_step.propose)
next
  case approve
  then show ?thesis
    by (auto simp: life_of_def intro: life_step.approve)
next
  case reject
  then show ?thesis
    by (auto simp: life_of_def intro: life_step.reject)
next
  case reopen
  then show ?thesis
    by (auto simp: life_of_def intro: life_step.reopen)
next
  case (link ids)
  then have "life_of q = life_of p" "\<And>d. life_of p \<noteq> Resolved d"
    by (auto simp: life_of_def)
  then show ?thesis
    using assms(2) life_step.link by metis
qed

definition life_path :: "life \<Rightarrow> life \<Rightarrow> bool" where
  "life_path = (\<lambda>l m. \<exists>a. life_step a l m)\<^sup>*\<^sup>*"

lemma life_path_intros: "life_path l l" "life_path l m \<Longrightarrow> life_step a m n \<Longrightarrow> life_path l n"
  by (auto simp: life_path_def intro: rtranclp.rtrancl_into_rtrancl)

lemma replay_event_life:
  assumes "replay_event env i p e = Inr q"
  shows "(ev_action e = ''case_created'' \<and> life_of q = Opened)
    \<or> (life_of p \<noteq> Fresh \<longrightarrow> life_step (ev_actor e) (life_of p) (life_of q) \<and> life_of q \<noteq> Fresh)"
proof (cases "ev_action e = ''case_created''")
  case True
  then show ?thesis
    using assms by (auto simp: replay_event_def new_projection_def life_of_def split: option.splits)
next
  case False
  then obtain q' where q': "applyTransition env p (replay_request i p e) = Inr q'"
    and "q = q'\<lparr>pj_revision := ev_revision e, pj_updated := ev_occurred e, pj_head := ev_sha e\<rparr>"
    using assms by (auto simp: replay_event_def split: sum.splits)
  then have "life_of q = life_of q'"
    by (simp add: life_of_def)
  then show ?thesis
    using transition_life_step [OF q'] by (auto simp: replay_request_def)
qed

lemma replay_life:
  "replay_events env i 0 [] zero_projection es = Inr p \<Longrightarrow> es \<noteq> [] \<Longrightarrow> ev_action (hd es) = ''case_created''
    \<Longrightarrow> life_path Opened (life_of p) \<and> life_of p \<noteq> Fresh"
proof (induction es arbitrary: p rule: rev_induct)
  case (snoc e es)
  obtain p0 where p0: "replay_events env i 0 [] zero_projection es = Inr p0" "replay_event env i p0 e = Inr p"
    using snoc.prems(1) by (auto simp: replay_events_snoc split: sum.splits if_splits)
  show ?case
  proof (cases "es = []")
    case True
    then show ?thesis
      using snoc.prems(3) p0(2) by (auto simp: replay_event_def new_projection_def life_of_def life_path_intros split: option.splits)
  next
    case False
    then show ?thesis
      using snoc.IH [OF p0(1)] snoc.prems(3) replay_event_life [OF p0(2)] by (auto intro: life_path_intros)
  qed
qed simp

lemma case_life: "case_ok env i d \<Longrightarrow> life_path Opened (life_of (kd_projection d)) \<and> life_of (kd_projection d) \<noteq> Fresh"
  by (rule replay_life) (auto simp: case_ok_def)

lemma case_step:
  assumes "case_ok env i d" and "applyTransition env (kd_projection d) r = Inr q"
  shows "life_step (eq_actor r) (life_of (kd_projection d)) (life_of (stored_projection q))"
proof -
  have "applyTransition env (kd_projection d) (r\<lparr>eq_payload := canon_raw (eq_payload r)\<rparr>) = Inr (stored_projection q)"
    by (rule applyTransition_stored [OF assms(2)]) (use assms(1) in \<open>simp_all add: case_ok_def\<close>)
  from transition_life_step [OF this] show ?thesis
    using case_life [OF assms(1)] by simp
qed

section \<open>Four eyes\<close>

text \<open>
  How a decision entered the events: a proposal followed by links to rescreening events only.
\<close>

definition links :: "case_event list \<Rightarrow> bool" where
  "links es \<longleftrightarrow> list_all (\<lambda>e. ev_action e = ''link_rescreen'') es"

definition proposes :: "case_event \<Rightarrow> json option \<Rightarrow> bool" where
  "proposes e d \<longleftrightarrow> ev_action e = ''propose_decision''
     \<and> (\<exists>kvs. payload_members (ev_payload e) = Some kvs \<and> map_of (rev kvs) ''decision'' = d)"

definition proposed_by :: "case_event list \<Rightarrow> string \<Rightarrow> json option \<Rightarrow> bool" where
  "proposed_by es a d \<longleftrightarrow> (\<exists>xs e ys. es = xs @ e # ys \<and> proposes e d \<and> ev_actor e = a \<and> links ys)"

definition approved_by :: "case_event list \<Rightarrow> json option \<Rightarrow> bool" where
  "approved_by es d \<longleftrightarrow> (\<exists>xs f a. es = xs @ [f] \<and> proposed_by xs a d \<and> ev_action f = ''approve_decision'' \<and> ev_actor f \<noteq> a)"

definition decision_trail :: "case_event list \<Rightarrow> case_projection \<Rightarrow> bool" where
  "decision_trail es p \<longleftrightarrow> (pj_state p = ''pending_approval'' \<longrightarrow> proposed_by es (pj_proposer p) (pj_proposed p))
     \<and> (pj_state p = ''resolved'' \<longrightarrow> approved_by es (pj_approved p))"

lemma proposed_by_new: "proposes e d \<Longrightarrow> proposed_by (es @ [e]) (ev_actor e) d"
  unfolding proposed_by_def links_def by (intro exI [of _ es] exI [of _ e] exI [of _ "[]"]) simp

lemma proposed_by_snoc:
  assumes "proposed_by es a d" and "ev_action e = ''link_rescreen''"
  shows "proposed_by (es @ [e]) a d"
proof -
  obtain xs f ys where "es = xs @ f # ys" "proposes f d" "ev_actor f = a" "links ys"
    using assms(1) by (auto simp: proposed_by_def)
  then show ?thesis
    unfolding proposed_by_def by (intro exI [of _ xs] exI [of _ f] exI [of _ "ys @ [e]"]) (simp add: links_def assms(2))
qed

lemma decision_trail_step:
  assumes "decision_trail es p" and "replay_event env i p e = Inr q"
  shows "decision_trail (es @ [e]) q"
proof (cases "ev_action e = ''case_created''")
  case True
  then show ?thesis
    using assms(2) by (auto simp: replay_event_def decision_trail_def new_projection_def split: option.splits)
next
  case False
  then obtain q' where q': "applyTransition env p (replay_request i p e) = Inr q'"
    and q: "q = q'\<lparr>pj_revision := ev_revision e, pj_updated := ev_occurred e, pj_head := ev_sha e\<rparr>"
    using assms(2) by (auto simp: replay_event_def split: sum.splits)
  show ?thesis
    using q'
  proof (cases rule: applyTransition_actions)
    case (propose kvs d)
    then have "proposes e (Some d)"
      by (auto simp: proposes_def replay_request_def)
    then show ?thesis
      using propose proposed_by_new [of e "Some d" es] by (simp add: decision_trail_def q replay_request_def)
  next
    case approve
    then have "approved_by (es @ [e]) (pj_proposed p)"
      using assms(1) by (auto simp: approved_by_def decision_trail_def replay_request_def)
    then show ?thesis
      using approve by (simp add: decision_trail_def q)
  next
    case (link ids)
    then show ?thesis
      using assms(1) by (auto simp: decision_trail_def q replay_request_def intro: proposed_by_snoc)
  qed (simp_all add: decision_trail_def q)
qed

lemma decision_trail_replay:
  "replay_events env i 0 [] zero_projection es = Inr p \<Longrightarrow> decision_trail es p"
proof (induction es arbitrary: p rule: rev_induct)
  case Nil
  then show ?case
    by (auto simp: zero_projection_def decision_trail_def)
next
  case (snoc e es)
  then show ?case
    by (auto simp: replay_events_snoc split: sum.splits if_splits intro: decision_trail_step)
qed

section \<open>Repetition\<close>

lemma receipt_found:
  "\<not> blank k \<Longrightarrow> checkReceipt env sc k rq (saveReceipt env sc k rq rs t ob c st)
    = Inr (Some \<lparr>cr_scope = sc, cr_key_sha = HashString env k, cr_request_sha = HashObject env rq, cr_object_type = t,
        cr_object = ob, cr_response_sha = HashObject env rs, cr_created = c\<rparr>)"
  by (simp add: checkReceipt_def saveReceipt_def AList.update_conv')

lemma filter_last_sequence:
  assumes "case_ok env i d" and "length (kd_events d) < 2 ^ 64"
  shows "filter (\<lambda>e. ev_sequence e = of_nat (length (kd_events d))) (kd_events d) = [last (kd_events d)]"
proof -
  obtain es e where es: "kd_events d = es @ [e]"
    using assms by (metis case_ok_def rev_exhaust)
  have c: "case_chain env 0 [] (es @ [e])"
    using assms(1) replay_events_chain by (fastforce simp: case_ok_def es)
  have "ev_sequence (es ! k) \<noteq> of_nat (Suc (length es))" if "k < length es" for k
  proof -
    have "ev_sequence (es ! k) = of_nat (Suc k)"
      using hc.sequence_of_nth [OF c, of k] that by (simp add: nth_append)
    moreover have "(of_nat (Suc k) :: 64 word) \<noteq> of_nat (Suc (length es))"
      using that assms(2) es by (simp only: word_unat_eq_iff unat_of_nat) (simp add: take_bit_nat_eq_self)
    ultimately show ?thesis
      by simp
  qed
  then have "filter (\<lambda>e. ev_sequence e = of_nat (Suc (length es))) es = []"
    by (auto simp: filter_empty_conv in_set_conv_nth)
  moreover have "ev_sequence e = of_nat (Suc (length es))"
    using last_case_event(1) [OF assms(1)] by (simp add: es)
  ultimately show ?thesis
    by (simp add: es)
qed

lemma last_event_lookup:
  assumes "case_ok env i d" and "length (kd_events d) < 2 ^ 64" and "valid_case_id i" and "map_of (st_cases st) i = Some d"
  shows "caseEventBySequence st i (ch_sequence (kd_head d)) = Inr (last (kd_events d))"
proof -
  have "ch_sequence (kd_head d) = of_nat (length (kd_events d))"
    using assms(1) last_case_event(1) [OF assms(1)] by (simp add: case_ok_def head_of_def)
  then show ?thesis
    using filter_last_sequence [OF assms(1,2)] assms(3,4) by (simp add: caseEventBySequence_def)
qed

end
