(* ===== verification/CaseDemo.thy ===== *)
theory CaseDemo imports CaseLife begin

text \<open>
  A concrete store for the witnesses of the case properties: a case is opened, assigned, a decision
  proposed by one actor and approved by another.
\<close>

lemmas trim_eval = TrimSpace_def drop_end_def seg_space_def IsSpace_def decode_rune.simps byte_of_def

section \<open>A concrete store\<close>

text \<open>
  A digest that looks at the last character only: keys end in a digit, scopes and JSON objects do
  not, so that every key has its own receipt.
\<close>

definition demo_sha :: "string \<Rightarrow> string" where
  "demo_sha s = replicate 64 (if s \<noteq> [] \<and> last s \<in> set ''123456789'' then last s else CHR ''f'')"

definition demo_env :: case_env where
  "demo_env = \<lparr>ce_sha = demo_sha, ce_time = Some\<rparr>"

definition demo_policy :: alert_policy where
  "demo_policy = \<lparr>ap_schema = ''openwatchlist.alert-policy.v1'', ap_id = ''p'', ap_version = ''1'', ap_high = 900,
     ap_review = 500, ap_external = 700, ap_sha = []\<rparr>"

definition demo_case :: string where
  "demo_case = ''case_'' @ replicate 32 (CHR ''f'')"

definition demo_open :: case_request where
  "demo_open = \<lparr>cq_tenant = ''t'', cq_alerts = ['' ''], cq_grouping = [], cq_created_by = ''ana'', cq_reason = ''review'',
     cq_occurred = ''2026-01-01T00:00:00Z'', cq_key = ''k1''\<rparr>"

definition demo_event :: "64 word \<Rightarrow> string \<Rightarrow> string \<Rightarrow> string \<Rightarrow> json option \<Rightarrow> event_request" where
  "demo_event rv act actor k payload = \<lparr>eq_case = demo_case, eq_revision = rv, eq_action = act, eq_actor = actor,
     eq_reason = [], eq_occurred = ''2026-01-02T00:00:00Z'', eq_key = k, eq_payload = payload\<rparr>"

definition demo_assign :: event_request where
  "demo_assign = demo_event 1 ''assign'' ''ana'' ''k2'' (Some (JObj [(''assignee'', JStr ''ana'')]))"

definition demo_propose :: event_request where
  "demo_propose = demo_event 2 ''propose_decision'' ''ana'' ''k3'' (Some (JObj [(''decision'', JStr ''clear'')]))"

definition demo_approve :: event_request where
  "demo_approve = demo_event 3 ''approve_decision'' ''bob'' ''k4'' None"

text \<open>The states after each request.\<close>

definition after_event :: "event_request \<Rightarrow> case_store \<Rightarrow> case_store" where
  "after_event r st = (case ApplyCaseEvent demo_env r st of Inl _ \<Rightarrow> st | Inr (_, _, _, st') \<Rightarrow> st')"

definition demo0 :: case_store where "demo0 = NewStore demo_policy []"
definition demo1 :: case_store where
  "demo1 = (case CreateCase demo_env demo_open demo0 of Inl _ \<Rightarrow> demo0 | Inr (_, _, st) \<Rightarrow> st)"
definition demo2 :: case_store where "demo2 = after_event demo_assign demo1"
definition demo3 :: case_store where "demo3 = after_event demo_propose demo2"
definition demo4 :: case_store where "demo4 = after_event demo_approve demo3"

lemma after_event_reach: "store_reach demo_env st \<Longrightarrow> store_reach demo_env (after_event r st)"
  by (auto simp: after_event_def split: sum.splits intro: store_reach.event)

lemma demo_reach: "store_reach demo_env demo1" "store_reach demo_env demo2" "store_reach demo_env demo3" "store_reach demo_env demo4"
proof -
  show "store_reach demo_env demo1"
    unfolding demo1_def demo0_def by (auto split: sum.splits intro: store_reach.new store_reach.opened)
  then show "store_reach demo_env demo2"
    unfolding demo2_def by (rule after_event_reach)
  then show "store_reach demo_env demo3"
    unfolding demo3_def by (rule after_event_reach)
  then show "store_reach demo_env demo4"
    unfolding demo4_def by (rule after_event_reach)
qed

lemma last_marshal_obj: "last (marshal (JObj kvs)) = CHR ''}''"
  by simp

lemma hash_obj: "HashObject demo_env (JObj kvs) = replicate 64 (CHR ''f'')"
  using last_marshal_obj by (simp add: HashObject_def digest_canonical_def demo_env_def demo_sha_def)

lemma hash_case_request: "HashObject demo_env (case_request_json r) = replicate 64 (CHR ''f'')"
  by (simp add: case_request_json_def hash_obj)

lemma hash_event_request: "HashObject demo_env (event_request_json r) = replicate 64 (CHR ''f'')"
  by (simp add: event_request_json_def hash_obj)

lemma hash_case_event: "case_event_hash demo_env e = replicate 64 (CHR ''f'')"
  by (simp add: case_event_hash_def case_event_json_def hash_obj)

lemma demo_case_valid: "valid_case_id demo_case"
  by code_simp

lemma demo_identity: "case_identity demo_env t ids g = demo_case"
  by (simp add: case_identity_def hash_obj demo_case_def)

lemma demo_not_blank: "\<not> blank ''k1''" "\<not> blank ''k2''" "\<not> blank ''k3''" "\<not> blank ''k4''"
  "\<not> blank ''2026-01-01T00:00:00Z''" "\<not> blank ''2026-01-02T00:00:00Z''"
  by (rule not_blank_ascii; simp add: byte_of_def IsSpace_def)+

lemma demo_times: "normalizeTime demo_env ''2026-01-01T00:00:00Z'' = Some ''2026-01-01T00:00:00Z''"
  "normalizeTime demo_env ''2026-01-02T00:00:00Z'' = Some ''2026-01-02T00:00:00Z''"
  by (simp_all add: normalizeTime_def demo_not_blank demo_env_def)

lemma demo_no_ids: "sortedUnique ['' ''] = []"
  by (simp add: sortedUnique_def trim_eval)

lemma demo_paths: "receipt_path demo_env sc ''k1'' = (demo_sha sc, replicate 64 (CHR ''1''))"
  "receipt_path demo_env sc ''k2'' = (demo_sha sc, replicate 64 (CHR ''2''))"
  "receipt_path demo_env sc ''k3'' = (demo_sha sc, replicate 64 (CHR ''3''))"
  "receipt_path demo_env sc ''k4'' = (demo_sha sc, replicate 64 (CHR ''4''))"
  by (simp_all add: receipt_path_def HashString_def demo_env_def demo_sha_def)

definition demo_created :: case_event where
  "demo_created = buildCaseEvent demo_env demo_case 1 1 [] ''case_created'' ''ana'' ''review'' ''2026-01-01T00:00:00Z''
     (Some (created_payload ''t'' [] []))"

definition demo_projection :: case_projection where
  "demo_projection = new_projection demo_case ''t'' [] [] ''2026-01-01T00:00:00Z'' (ev_sha demo_created)"

lemma CreateCase_demo: "CreateCase demo_env demo_open demo0 = Inr (demo_projection, False, demo1)"
  unfolding demo1_def CreateCase_def
  by (simp add: demo_open_def demo0_def NewStore_def checkReceipt_def Let_def demo_times demo_not_blank demo_no_ids demo_identity
    demo_case_valid demo_projection_def demo_created_def)

definition demo_dir1 :: case_dir where
  "demo_dir1 = \<lparr>kd_events = [stored_event demo_created], kd_projection = stored_projection demo_projection,
     kd_head = head_of demo_created\<rparr>"

lemma demo1_cases: "st_cases demo1 = [(demo_case, demo_dir1)]"
  unfolding demo1_def CreateCase_def
  by (simp add: demo_open_def demo0_def NewStore_def checkReceipt_def Let_def demo_times demo_not_blank demo_no_ids demo_identity
    demo_case_valid demo_projection_def demo_created_def demo_dir1_def)

lemma demo1_receipts: "map fst (st_receipts demo1) = [(demo_sha ''create-case'', replicate 64 (CHR ''1''))]"
  unfolding demo1_def CreateCase_def
  by (simp add: demo_open_def demo0_def NewStore_def checkReceipt_def Let_def demo_times demo_not_blank demo_no_ids demo_identity
    demo_case_valid saveReceipt_def demo_paths)

definition receipt_keys :: "case_store \<Rightarrow> string set" where
  "receipt_keys st = snd ` fst ` set (st_receipts st)"

definition demo_built :: "case_dir \<Rightarrow> event_request \<Rightarrow> case_event" where
  "demo_built d r = buildCaseEvent demo_env demo_case (ch_sequence (kd_head d) + 1) (ch_revision (kd_head d) + 1) (ch_sha (kd_head d))
     (eq_action r) (eq_actor r) (eq_reason r) ''2026-01-02T00:00:00Z'' (eq_payload r)"

definition demo_next :: "case_dir \<Rightarrow> event_request \<Rightarrow> case_projection \<Rightarrow> case_projection" where
  "demo_next d r q = q\<lparr>pj_revision := ev_revision (demo_built d r), pj_updated := ''2026-01-02T00:00:00Z'',
     pj_head := ev_sha (demo_built d r)\<rparr>"

definition next_dir :: "case_dir \<Rightarrow> event_request \<Rightarrow> case_projection \<Rightarrow> case_dir" where
  "next_dir d r q = \<lparr>kd_events = kd_events d @ [stored_event (demo_built d r)],
     kd_projection = stored_projection (demo_next d r q), kd_head = head_of (demo_built d r)\<rparr>"

lemma demo_apply:
  assumes "st_cases st = [(demo_case, d)]" and "snd (receipt_path demo_env (event_scope r) (eq_key r)) \<notin> receipt_keys st"
    and "applyTransition demo_env (kd_projection d) r = Inr q" and "r = demo_event (pj_revision (kd_projection d)) act actor k payload"
    and "actor \<noteq> []" "act \<noteq> []" "\<not> blank k"
  shows "ApplyCaseEvent demo_env r st = Inr (demo_next d r q, demo_built d r, False, after_event r st)"
    and "st_cases (after_event r st) = [(demo_case, next_dir d r q)]"
    and "receipt_keys (after_event r st)
       = insert (snd (receipt_path demo_env (event_scope r) (eq_key r))) (receipt_keys st)"
proof -
  have k: "k \<noteq> []"
    using assms(7) by (auto simp: blank_def)
  have f: "checkReceipt demo_env (event_scope r) (eq_key r) (event_request_json r) st = Inr None"
  proof -
    have "map_of (st_receipts st) (receipt_path demo_env (event_scope r) (eq_key r)) = None"
      using assms(2) by (force simp: map_of_eq_None_iff receipt_keys_def)
    then show ?thesis
      using assms(4,7) by (simp add: checkReceipt_def demo_event_def)
  qed
  have r: "eq_case r = demo_case" "eq_revision r = pj_revision (kd_projection d)" "eq_actor r = actor" "eq_action r = act"
    "eq_key r = k" "eq_occurred r = ''2026-01-02T00:00:00Z''"
    using assms(4) by (simp_all add: demo_event_def)
  note u = ApplyCaseEvent_def f [unfolded r] r demo_case_valid caseProjection_def caseHead_def assms(1,3,5,6) k demo_times Let_def
  have e: "ApplyCaseEvent demo_env r st = Inr (demo_next d r q, demo_built d r, False,
     saveReceipt demo_env (event_scope r) (eq_key r) (event_request_json r)
         (JObj (fld ''case'' (case_projection_json (demo_next d r q)) @ fld ''event'' (case_event_json (demo_built d r)))) ''case'' demo_case ''2026-01-02T00:00:00Z''
         (appendAudit demo_env ''2026-01-02T00:00:00Z'' (eq_action r) (eq_actor r) ''case'' demo_case (case_event_json (demo_built d r))
           (st\<lparr>st_cases := [(demo_case, next_dir d r q)]\<rparr>)))"
    by (simp add: u next_dir_def demo_next_def demo_built_def)
  then have a: "after_event r st = (case ApplyCaseEvent demo_env r st of Inl _ \<Rightarrow> st | Inr (_, _, _, st') \<Rightarrow> st')"
    by (simp add: after_event_def)
  show "ApplyCaseEvent demo_env r st = Inr (demo_next d r q, demo_built d r, False, after_event r st)"
    unfolding a e by simp
  show "st_cases (after_event r st) = [(demo_case, next_dir d r q)]"
    unfolding a e by simp
  have "fst ` set (AList.update k' v al) = insert k' (fst ` set al)" for k' v and al :: "((string \<times> string) \<times> case_receipt) list"
    by (simp add: dom_update)
  then have "snd ` fst ` set (AList.update k' v al) = insert (snd k') (snd ` fst ` set al)" for k' v
    and al :: "((string \<times> string) \<times> case_receipt) list"
    by simp
  then show "receipt_keys (after_event r st)
       = insert (snd (receipt_path demo_env (event_scope r) (eq_key r))) (receipt_keys st)"
    unfolding a e by (simp add: saveReceipt_def receipt_keys_def)
qed

lemma next_dir_projection: "kd_projection (next_dir d r q) = (stored_projection q)\<lparr>pj_revision := ch_revision (kd_head d) + 1,
    pj_updated := ''2026-01-02T00:00:00Z'', pj_head := ev_sha (demo_built d r)\<rparr>"
  "ch_revision (kd_head (next_dir d r q)) = ch_revision (kd_head d) + 1"
  "kd_events (next_dir d r q) = kd_events d @ [stored_event (demo_built d r)]"
  by (simp_all add: next_dir_def demo_next_def stored_projection_def demo_built_def head_of_def)

definition assigned_projection :: case_projection where
  "assigned_projection = (kd_projection demo_dir1)\<lparr>pj_assigned := ''ana'', pj_state := ''assigned''\<rparr>"

definition demo_dir2 :: case_dir where "demo_dir2 = next_dir demo_dir1 demo_assign assigned_projection"

definition proposed_projection :: case_projection where
  "proposed_projection = (kd_projection demo_dir2)\<lparr>pj_proposer := ''ana'', pj_proposed := Some (JStr ''clear''),
     pj_state := ''pending_approval''\<rparr>"

definition demo_dir3 :: case_dir where "demo_dir3 = next_dir demo_dir2 demo_propose proposed_projection"

definition approved_projection :: case_projection where
  "approved_projection = (kd_projection demo_dir3)\<lparr>pj_approved := Some (JStr ''clear''), pj_state := ''resolved''\<rparr>"

definition demo_dir4 :: case_dir where "demo_dir4 = next_dir demo_dir3 demo_approve approved_projection"

lemma demo_projection1: "pj_state (kd_projection demo_dir1) = ''open''" "pj_revision (kd_projection demo_dir1) = 1"
  "ch_revision (kd_head demo_dir1) = 1" "length (kd_events demo_dir1) = 1"
  by (simp_all add: demo_dir1_def demo_projection_def new_projection_def stored_projection_def head_of_def demo_created_def)

lemma demo_projection2: "pj_state (kd_projection demo_dir2) = ''assigned''" "pj_revision (kd_projection demo_dir2) = 2"
  "ch_revision (kd_head demo_dir2) = 2" "length (kd_events demo_dir2) = 2"
  by (simp_all add: demo_dir2_def next_dir_projection demo_projection1 assigned_projection_def stored_projection_def)

lemma demo_projection3: "pj_state (kd_projection demo_dir3) = ''pending_approval''" "pj_revision (kd_projection demo_dir3) = 3"
  "ch_revision (kd_head demo_dir3) = 3" "length (kd_events demo_dir3) = 3" "pj_proposer (kd_projection demo_dir3) = ''ana''"
  "pj_proposed (kd_projection demo_dir3) = Some (JStr ''clear'')"
  by (simp_all add: demo_dir3_def next_dir_projection demo_projection2 proposed_projection_def stored_projection_def canon_raw_def)

lemma demo_projection4: "pj_state (kd_projection demo_dir4) = ''resolved''" "pj_revision (kd_projection demo_dir4) = 4"
  "pj_approved (kd_projection demo_dir4) = Some (JStr ''clear'')" "length (kd_events demo_dir4) = 4"
  by (simp_all add: demo_dir4_def next_dir_projection demo_projection3 approved_projection_def stored_projection_def canon_raw_def)

lemma demo_transitions:
  "applyTransition demo_env (kd_projection demo_dir1) demo_assign = Inr assigned_projection"
  "applyTransition demo_env (kd_projection demo_dir2) demo_propose = Inr proposed_projection"
  "applyTransition demo_env (kd_projection demo_dir3) demo_approve = Inr approved_projection"
proof -
  have t: "TrimSpace ''ana'' = ''ana''"
    by (simp add: trim_eval)
  show "applyTransition demo_env (kd_projection demo_dir1) demo_assign = Inr assigned_projection"
    by (simp add: applyTransition_def demo_assign_def demo_event_def payload_members_def object_members_def get_string_def t
      demo_projection1 assigned_projection_def)
  show "applyTransition demo_env (kd_projection demo_dir2) demo_propose = Inr proposed_projection"
    by (simp add: applyTransition_def demo_propose_def demo_event_def payload_members_def object_members_def
      demo_projection2 proposed_projection_def)
  show "applyTransition demo_env (kd_projection demo_dir3) demo_approve = Inr approved_projection"
    by (simp add: applyTransition_def demo_approve_def demo_event_def payload_members_def
      demo_projection3 approved_projection_def)
qed

lemma demo_keys:
  "snd (receipt_path demo_env (event_scope demo_assign) (eq_key demo_assign)) = replicate 64 (CHR ''2'')"
  "snd (receipt_path demo_env (event_scope demo_propose) (eq_key demo_propose)) = replicate 64 (CHR ''3'')"
  "snd (receipt_path demo_env (event_scope demo_approve) (eq_key demo_approve)) = replicate 64 (CHR ''4'')"
  "receipt_keys demo1 = {replicate 64 (CHR ''1'')}"
  using arg_cong [OF demo1_receipts, of "\<lambda>xs. snd ` set xs"]
  by (simp_all add: demo_assign_def demo_propose_def demo_approve_def demo_event_def demo_paths receipt_keys_def image_image)

lemma demo_requests:
  "demo_assign = demo_event (pj_revision (kd_projection demo_dir1)) ''assign'' ''ana'' ''k2'' (eq_payload demo_assign)"
  "demo_propose = demo_event (pj_revision (kd_projection demo_dir2)) ''propose_decision'' ''ana'' ''k3'' (eq_payload demo_propose)"
  "demo_approve = demo_event (pj_revision (kd_projection demo_dir3)) ''approve_decision'' ''bob'' ''k4'' (eq_payload demo_approve)"
  by (simp_all add: demo_projection1 demo_projection2 demo_projection3 demo_assign_def demo_propose_def demo_approve_def demo_event_def)

lemma demo_facts2:
  "ApplyCaseEvent demo_env demo_assign demo1 = Inr (demo_next demo_dir1 demo_assign assigned_projection, demo_built demo_dir1 demo_assign, False, demo2)"
  "st_cases demo2 = [(demo_case, demo_dir2)]"
  "receipt_keys demo2 = {replicate 64 (CHR ''2''), replicate 64 (CHR ''1'')}"
  using demo_apply [OF demo1_cases _ demo_transitions(1) demo_requests(1)]
  by (simp_all add: demo_keys demo_not_blank demo2_def demo_dir2_def)

lemma demo_facts3:
  "ApplyCaseEvent demo_env demo_propose demo2 = Inr (demo_next demo_dir2 demo_propose proposed_projection, demo_built demo_dir2 demo_propose, False, demo3)"
  "st_cases demo3 = [(demo_case, demo_dir3)]"
  "receipt_keys demo3 = {replicate 64 (CHR ''3''), replicate 64 (CHR ''2''), replicate 64 (CHR ''1'')}"
  using demo_apply [OF demo_facts2(2) _ demo_transitions(2) demo_requests(2)]
  by (simp_all add: demo_keys demo_facts2(3) demo_not_blank demo3_def demo_dir3_def)

lemma demo_facts4:
  "ApplyCaseEvent demo_env demo_approve demo3 = Inr (demo_next demo_dir3 demo_approve approved_projection, demo_built demo_dir3 demo_approve, False, demo4)"
  "st_cases demo4 = [(demo_case, demo_dir4)]"
  "receipt_keys demo4 = {replicate 64 (CHR ''4''), replicate 64 (CHR ''3''), replicate 64 (CHR ''2''), replicate 64 (CHR ''1'')}"
  using demo_apply [OF demo_facts3(2) _ demo_transitions(3) demo_requests(3)]
  by (simp_all add: demo_keys demo_facts3(3) demo_not_blank demo4_def demo_dir4_def)

end
