(* ===== verification/CaseProps.thy ===== *)
theory CaseProps imports CaseDemo begin

text \<open>The properties of the case store: what a reachable store guarantees and how requests repeat.\<close>

text \<open>C9. Every reachable store verifies: its audit log, every stored alert against its digest, and
every case, whose events replay to exactly the stored projection.\<close>

theorem reachable_stores_verify:
  assumes "store_reach env st"
  shows "VerifyAudit env st = Inr (length (st_audit st))
    \<and> (\<forall>i a. map_of (st_alerts st) i = Some a \<longrightarrow> VerifyAlert env st i = Inr a)
    \<and> (\<forall>i d. map_of (st_cases st) i = Some d \<longrightarrow> VerifyCase env st i = Inr (kd_projection d))"
proof (intro conjI allI impI)
  show "VerifyAudit env st = Inr (length (st_audit st))"
    using reach_audit [OF assms] by (simp add: VerifyAudit_def)
next
  fix i a
  assume "map_of (st_alerts st) i = Some a"
  then show "VerifyAlert env st i = Inr a"
    using reach_alert [OF assms] by (simp add: VerifyAlert_def Alert_def)
next
  fix i d
  assume d: "map_of (st_cases st) i = Some d"
  then have "valid_case_id i" "case_ok env i d"
    using reach_case [OF assms] by auto
  then show "VerifyCase env st i = Inr (kd_projection d)"
    using d by (simp add: VerifyCase_def case_ok_def)
qed

theorem reachable_stores_verify_witness:
  "VerifyCase demo_env demo4 demo_case = Inr (kd_projection demo_dir4)
    \<and> pj_state (kd_projection demo_dir4) = ''resolved''"
  using reachable_stores_verify [OF demo_reach(4)] by (simp add: demo_facts4(2) demo_projection4)

text \<open>C1. Four eyes: a resolved case of a reachable store ends in an approval of the decision that
another actor proposed, with nothing but links to rescreening events in between, and the approved
decision is the one the proposal carried.\<close>

theorem resolved_cases_had_four_eyes:
  assumes "store_reach env st" and "map_of (st_cases st) i = Some d" and "pj_state (kd_projection d) = ''resolved''"
  shows "\<exists>xs e ys f. kd_events d = xs @ e # ys @ [f]
    \<and> ev_action e = ''propose_decision'' \<and> ev_action f = ''approve_decision'' \<and> ev_actor f \<noteq> ev_actor e
    \<and> (\<forall>y \<in> set ys. ev_action y = ''link_rescreen'')
    \<and> (\<exists>kvs. payload_members (ev_payload e) = Some kvs \<and> map_of (rev kvs) ''decision'' = pj_approved (kd_projection d))"
proof -
  have "decision_trail (kd_events d) (kd_projection d)"
    using reach_case [OF assms(1,2)] decision_trail_replay by (auto simp: case_ok_def)
  then have "approved_by (kd_events d) (pj_approved (kd_projection d))"
    using assms(3) by (simp add: decision_trail_def)
  then obtain xs f e ys where x: "kd_events d = (xs @ e # ys) @ [f]" "proposes e (pj_approved (kd_projection d))" "links ys"
    "ev_action f = ''approve_decision''" "ev_actor f \<noteq> ev_actor e"
    unfolding approved_by_def proposed_by_def by blast
  then show ?thesis
    by (intro exI [of _ xs] exI [of _ e] exI [of _ ys] exI [of _ f]) (auto simp: proposes_def links_def list_all_iff)
qed

theorem resolved_cases_had_four_eyes_witness:
  "pj_approved (kd_projection demo_dir4) = Some (JStr ''clear'')
    \<and> (\<exists>xs e ys f. kd_events demo_dir4 = xs @ e # ys @ [f] \<and> ev_actor f \<noteq> ev_actor e)"
  using resolved_cases_had_four_eyes [OF demo_reach(4) _ demo_projection4(1), of demo_case]
  by (auto simp: demo_facts4(2) demo_projection4(3))

text \<open>C16. The store implements the abstract life cycle: every case has gone from opened through
life-cycle steps to where it is, and an accepted event that is not a repetition moves exactly the
case it names by one step of its actor, leaves the other cases and all alerts alone, and adds one
event and one audit entry.\<close>

theorem cases_follow_the_life_cycle:
  assumes "store_reach env st" and "ApplyCaseEvent env r st = Inr (p, e, False, st')"
  shows "\<exists>d d'. map_of (st_cases st) (eq_case r) = Some d \<and> map_of (st_cases st') = (map_of (st_cases st))(eq_case r \<mapsto> d')
    \<and> life_path Opened (life_of (kd_projection d))
    \<and> life_step (eq_actor r) (life_of (kd_projection d)) (life_of (kd_projection d'))
    \<and> kd_events d' = kd_events d @ [stored_event e]
    \<and> st_alerts st' = st_alerts st \<and> length (st_audit st') = Suc (length (st_audit st))"
  using assms(2)
proof (cases rule: ApplyCaseEvent_cases)
  case (fresh d q at)
  have ok: "case_ok env (eq_case r) d"
    using reach_case [OF assms(1) fresh(3)] by simp
  have l: "life_of (stored_projection p) = life_of (stored_projection q)"
    by (simp add: fresh(9) life_of_def stored_projection_def)
  show ?thesis
    by (rule exI [of _ d], rule exI [of _ "\<lparr>kd_events = kd_events d @ [stored_event e], kd_projection = stored_projection p, kd_head = head_of e\<rparr>"])
      (use fresh(3) case_life [OF ok] case_step [OF ok fresh(7)] l in \<open>simp add: fresh(10) AList.update_conv'\<close>)
qed simp

theorem cases_follow_the_life_cycle_witness:
  "life_step ''bob'' (life_of (kd_projection demo_dir3)) (life_of (kd_projection demo_dir4))
    \<and> life_of (kd_projection demo_dir4) = Resolved (Some (JStr ''clear''))"
proof -
  have "eq_case demo_approve = demo_case" "eq_actor demo_approve = ''bob''"
    by (simp_all add: demo_approve_def demo_event_def)
  moreover have "map_of (st_cases demo4) = [demo_case \<mapsto> demo_dir4]" "map_of (st_cases demo3) demo_case = Some demo_dir3"
    by (simp_all add: demo_facts3 demo_facts4)
  ultimately show ?thesis
    using cases_follow_the_life_cycle [OF demo_reach(3) demo_facts4(1)] demo_projection4
    by (auto simp: life_of_def fun_upd_idem_iff dest: map_upd_eqD1 fun_cong [of _ _ demo_case])
qed

section \<open>Later stores\<close>

inductive store_step :: "case_env \<Rightarrow> case_store \<Rightarrow> case_store \<Rightarrow> bool" for env where
  step_alert: "CreateAlert env r st = Inr (a, b, st') \<Longrightarrow> store_step env st st'"
| step_opened: "CreateCase env cr st = Inr (p, b, st') \<Longrightarrow> store_step env st st'"
| step_event: "ApplyCaseEvent env er st = Inr (p, e, b, st') \<Longrightarrow> store_step env st st'"
| step_batch: "CreateAlertBatch env br st = (res, st') \<Longrightarrow> store_step env st st'"

lemma store_step_reach: "store_step env st st' \<Longrightarrow> store_reach env st \<Longrightarrow> store_reach env st'"
  by (induction rule: store_step.induct) (blast intro: store_reach.intros)+

lemma CreateAlert_keeps_cases: "CreateAlert env r st = Inr (a, b, st') \<Longrightarrow> st_cases st' = st_cases st"
  by (erule CreateAlert_cases) simp_all

lemma create_alerts_keeps_cases: "create_alerts env rs out st = (res, st') \<Longrightarrow> st_cases st' = st_cases st"
proof (induction rs arbitrary: out st)
  case (Cons r rs)
  then show ?case
    by (auto split: sum.splits prod.splits dest: CreateAlert_keeps_cases)
qed simp

lemma CreateAlertBatch_keeps_cases: "CreateAlertBatch env b st = (res, st') \<Longrightarrow> st_cases st' = st_cases st"
proof -
  obtain out st1 where c: "create_alerts env (bq_requests b) [] st = (out, st1)"
    by fastforce
  assume "CreateAlertBatch env b st = (res, st')"
  then have "st' = st \<or> st' = st1 \<or> (\<exists>rq rs h bs. st' = saveReceipt env ''create-alert-batch'' (bq_key b) rq rs ''alert_batch'' h (bq_occurred b)
      (st1\<lparr>st_batches := bs\<rparr>))"
    unfolding CreateAlertBatch_def c Let_def by (simp split: if_splits sum.splits option.splits) blast+
  then show ?thesis
    using create_alerts_keeps_cases [OF c] by auto
qed

text \<open>The events of a case are only ever added to.\<close>

lemma store_step_grows:
  assumes "store_step env st st'" and "map_of (st_cases st) i = Some d"
  shows "\<exists>d' es. map_of (st_cases st') i = Some d' \<and> kd_events d' = kd_events d @ es"
  using assms(1)
proof cases
  case (step_opened cr p b)
  show ?thesis
    using step_opened by (cases rule: CreateCase_cases) (use assms(2) in \<open>auto simp: AList.update_conv'\<close>)
next
  case (step_event er p e b)
  show ?thesis
    using step_event by (cases rule: ApplyCaseEvent_cases) (use assms(2) in \<open>auto simp: AList.update_conv'\<close>)
qed (use assms(2) in \<open>auto dest: CreateAlert_keeps_cases CreateAlertBatch_keeps_cases\<close>)

lemma store_steps_grow:
  assumes "(store_step env)\<^sup>*\<^sup>* st st'" and "store_reach env st" and "map_of (st_cases st) i = Some d"
  shows "store_reach env st' \<and> (\<exists>d' es. map_of (st_cases st') i = Some d' \<and> kd_events d' = kd_events d @ es)"
  using assms(1)
proof (induction rule: rtranclp_induct)
  case (step st' st'')
  then obtain d' es where d': "map_of (st_cases st') i = Some d'" "kd_events d' = kd_events d @ es"
    by blast
  then show ?case
    using store_step_grows [OF step(2) d'(1)] store_step_reach [OF step(2)] step(3) by auto
qed (use assms in auto)

lemma repetition:
  assumes "checkReceipt env (event_scope r) (eq_key r) (event_request_json r) st = Inr (Some rc)"
    and "valid_case_id (eq_case r)" and "map_of (st_cases st) (eq_case r) = Some d" and "case_ok env (eq_case r) d"
    and "length (kd_events d) < 2 ^ 64"
  shows "ApplyCaseEvent env r st = Inr (kd_projection d, last (kd_events d), True, st)"
  using last_event_lookup [OF assms(4,5,2,3)]
  by (simp add: ApplyCaseEvent_def assms(1-3) caseProjection_def caseHead_def)

text \<open>C26. Optimistic concurrency. Once an event has been accepted at a revision, take any later store, after any
number of further operations. A request that expects that revision of the case then never changes anything. If its key is new,
it is refused with a revision conflict, whatever its action. If its key is blank or belongs to another request it is refused for that
reason, and if it repeats an earlier request it is answered with the stored case. (Revisions do not wrap around: the case has
fewer than 2^64 events.)\<close>

theorem second_writer_is_refused:
  assumes reach: "store_reach env st" and first: "ApplyCaseEvent env r st = Inr (p, e, False, st1)"
    and later: "(store_step env)\<^sup>*\<^sup>* st1 st2" and same: "eq_case r' = eq_case r" "eq_revision r' = eq_revision r"
    and d: "map_of (st_cases st2) (eq_case r) = Some d" "length (kd_events d) < 2 ^ 64"
  shows "ApplyCaseEvent env r' st2 =
    (case checkReceipt env (event_scope r') (eq_key r') (event_request_json r') st2 of
       Inl x \<Rightarrow> Inl x
     | Inr None \<Rightarrow> Inl SeRevision
     | Inr (Some receipt) \<Rightarrow> Inr (kd_projection d, last (kd_events d), True, st2))"
  using first
proof (cases rule: ApplyCaseEvent_cases)
  case (fresh d0 q at)
  define d1 where "d1 = \<lparr>kd_events = kd_events d0 @ [stored_event e], kd_projection = stored_projection p, kd_head = head_of e\<rparr>"
  have d1: "map_of (st_cases st1) (eq_case r) = Some d1"
    by (simp add: fresh(10) AList.update_conv' d1_def)
  obtain es where reach2: "store_reach env st2" and es: "kd_events d = kd_events d1 @ es"
    using store_steps_grow [OF later store_reach.event [OF reach first] d1] d(1) by auto
  have ok: "case_ok env (eq_case r) d" "case_ok env (eq_case r) d0" and v: "valid_case_id (eq_case r)"
    using reach_case [OF reach2 d(1)] reach_case [OF reach fresh(3)] by auto
  have less: "length (kd_events d0) < length (kd_events d)"
    using es by (simp add: d1_def)
  have "(of_nat (length (kd_events d0)) :: 64 word) \<noteq> of_nat (length (kd_events d))"
    using less d(2) by (simp only: word_unat_eq_iff unat_of_nat) (simp add: take_bit_nat_eq_self)
  then have "eq_revision r' \<noteq> pj_revision (kd_projection d)"
    using ok same(2) fresh(4) by (simp add: case_ok_def)
  then have "ApplyCaseEvent env r' st2 = Inl SeRevision"
    if "checkReceipt env (event_scope r') (eq_key r') (event_request_json r') st2 = Inr None"
    using that v d(1) same(1) by (simp add: ApplyCaseEvent_def caseProjection_def)
  moreover have "ApplyCaseEvent env r' st2 = Inr (kd_projection d, last (kd_events d), True, st2)"
    if "checkReceipt env (event_scope r') (eq_key r') (event_request_json r') st2 = Inr (Some rc)" for rc
    by (rule repetition [OF that]) (use v d ok(1) same(1) in auto)
  moreover have "ApplyCaseEvent env r' st2 = Inl x"
    if "checkReceipt env (event_scope r') (eq_key r') (event_request_json r') st2 = Inl x" for x
    using that v same(1) by (simp add: ApplyCaseEvent_def)
  ultimately show ?thesis
    by (auto split: sum.split option.split)
qed simp

definition demo_rival :: event_request where
  "demo_rival = demo_event 3 ''reject_decision'' ''eve'' ''k5'' None"

theorem second_writer_is_refused_witness: "ApplyCaseEvent demo_env demo_rival demo4 = Inl SeRevision"
proof -
  have "\<not> blank ''k5''"
    by (rule not_blank_ascii) (simp_all add: byte_of_def IsSpace_def)
  moreover have "snd (receipt_path demo_env (event_scope demo_rival) ''k5'') \<notin> receipt_keys demo4"
    by (simp add: demo_facts4 receipt_path_def HashString_def demo_env_def demo_sha_def)
  then have "map_of (st_receipts demo4) (receipt_path demo_env (event_scope demo_rival) ''k5'') = None"
    by (force simp: map_of_eq_None_iff receipt_keys_def)
  ultimately have key: "checkReceipt demo_env (event_scope demo_rival) (eq_key demo_rival) (event_request_json demo_rival) demo4 = Inr None"
    by (simp add: checkReceipt_def demo_rival_def demo_event_def)
  have "map_of (st_cases demo4) demo_case = Some demo_dir4" "length (kd_events demo_dir4) < 2 ^ 64"
    by (simp_all add: demo_facts4 demo_projection4)
  then show ?thesis
    using second_writer_is_refused [OF demo_reach(3) demo_facts4(1) rtranclp.rtrancl_refl, of demo_rival demo_dir4] key
    by (simp add: demo_rival_def demo_approve_def demo_event_def)
qed

section \<open>Repetitions\<close>

text \<open>Repeating an accepted event at once changes nothing and returns the case and the event that
were stored, marked as a repetition.\<close>

theorem repeated_event_is_answered:
  assumes "store_reach env st" and "ApplyCaseEvent env r st = Inr (p, e, False, st')"
    and "map_of (st_cases st) (eq_case r) = Some d" and "length (kd_events d) < 2 ^ 64 - 1"
  shows "ApplyCaseEvent env r st' = Inr (stored_projection p, stored_event e, True, st')"
proof -
  have nb: "\<not> blank (eq_key r)"
    using assms(2) by (auto simp: ApplyCaseEvent_def checkReceipt_def split: if_splits)
  have ok: "case_ok env (eq_case r) d'" "valid_case_id (eq_case r)" if "map_of (st_cases st') (eq_case r) = Some d'" for d'
    using reach_case [OF store_reach.event [OF assms(1,2)] that] by auto
  show ?thesis
    using assms(2)
  proof (cases rule: ApplyCaseEvent_cases)
    case (fresh d0 q at)
    define d' where "d' = \<lparr>kd_events = kd_events d @ [stored_event e], kd_projection = stored_projection p, kd_head = head_of e\<rparr>"
    have d': "map_of (st_cases st') (eq_case r) = Some d'"
      using fresh(3) assms(3) by (simp add: fresh(10) AList.update_conv' d'_def)
    obtain rc where "checkReceipt env (event_scope r) (eq_key r) (event_request_json r) st' = Inr (Some rc)"
      unfolding fresh(10) receipt_found [OF nb] by simp
    from repetition [OF this ok(2) [OF d'] d' ok(1) [OF d']] show ?thesis
      using d' assms(4) by (simp add: d'_def)
  qed simp
qed

theorem repeated_event_is_answered_witness:
  "\<exists>p e. ApplyCaseEvent demo_env demo_assign demo2 = Inr (p, e, True, demo2) \<and> ev_action e = ''assign''"
proof -
  have "eq_case demo_assign = demo_case" "eq_action demo_assign = ''assign''"
    by (simp_all add: demo_assign_def demo_event_def)
  then show ?thesis
    using repeated_event_is_answered [OF demo_reach(1) demo_facts2(1), of demo_dir1]
    by (simp add: demo1_cases demo_projection1 demo_built_def)
qed

text \<open>
  A repetition that comes after a later event of the case returns that later event, not the one the
  repeated request caused.
\<close>

theorem late_repetition_returns_the_later_event:
  assumes "store_reach env st" and "ApplyCaseEvent env r st = Inr (p, e, False, st1)"
    and "ApplyCaseEvent env r2 st1 = Inr (p2, e2, False, st2)" and "eq_case r2 = eq_case r"
    and "receipt_path env (event_scope r2) (eq_key r2) \<noteq> receipt_path env (event_scope r) (eq_key r)"
    and "map_of (st_cases st) (eq_case r) = Some d" and "length (kd_events d) < 2 ^ 64 - 2"
  shows "ApplyCaseEvent env r st2 = Inr (stored_projection p2, stored_event e2, True, st2)"
proof -
  have nb: "\<not> blank (eq_key r)"
    using assms(2) by (auto simp: ApplyCaseEvent_def checkReceipt_def split: if_splits)
  have reach: "store_reach env st2"
    using store_reach.event [OF store_reach.event [OF assms(1,2)] assms(3)] .
  obtain d1 where d1: "map_of (st_cases st1) (eq_case r) = Some d1" "length (kd_events d1) = Suc (length (kd_events d))"
    and rc: "map_of (st_receipts st1) (receipt_path env (event_scope r) (eq_key r)) \<noteq> None"
      "checkReceipt env (event_scope r) (eq_key r) (event_request_json r) st1 \<noteq> Inl SeConflict"
    using assms(2)
  proof (cases rule: ApplyCaseEvent_cases)
    case (fresh d0 q at)
    then have "d0 = d"
      using assms(6) by simp
    then show ?thesis
      by (intro that [of "\<lparr>kd_events = kd_events d @ [stored_event e], kd_projection = stored_projection p, kd_head = head_of e\<rparr>"])
        (simp_all add: fresh(10) AList.update_conv' saveReceipt_def checkReceipt_def nb)
  qed simp
  show ?thesis
    using assms(3)
  proof (cases rule: ApplyCaseEvent_cases)
    case (fresh d0 q at)
    define d2 where "d2 = \<lparr>kd_events = kd_events d1 @ [stored_event e2], kd_projection = stored_projection p2, kd_head = head_of e2\<rparr>"
    have d2: "map_of (st_cases st2) (eq_case r) = Some d2"
      using fresh(3) d1(1) by (simp add: fresh(10) AList.update_conv' d2_def assms(4))
    have "map_of (st_receipts st2) (receipt_path env (event_scope r) (eq_key r))
        = map_of (st_receipts st1) (receipt_path env (event_scope r) (eq_key r))"
      using assms(5) by (simp add: fresh(10) saveReceipt_def AList.update_conv')
    then obtain rc where "checkReceipt env (event_scope r) (eq_key r) (event_request_json r) st2 = Inr (Some rc)"
      using rc nb by (auto simp: checkReceipt_def split: if_splits)
    from repetition [OF this _ d2] show ?thesis
      using reach_case [OF reach d2] d1(2) assms(7) by (simp add: d2_def)
  qed simp
qed

theorem late_repetition_returns_the_later_event_witness:
  "\<exists>p e. ApplyCaseEvent demo_env demo_assign demo3 = Inr (p, e, True, demo3) \<and> ev_action e = ''propose_decision''"
proof -
  have "eq_case demo_propose = eq_case demo_assign" "eq_case demo_assign = demo_case" "eq_action demo_propose = ''propose_decision''"
    by (simp_all add: demo_assign_def demo_propose_def demo_event_def)
  moreover have "receipt_path demo_env (event_scope demo_propose) (eq_key demo_propose)
      \<noteq> receipt_path demo_env (event_scope demo_assign) (eq_key demo_assign)"
    using demo_keys(1,2) by auto
  ultimately show ?thesis
    using late_repetition_returns_the_later_event [OF demo_reach(1) demo_facts2(1) demo_facts3(1), of demo_dir1]
    by (simp add: demo1_cases demo_projection1 demo_built_def)
qed

end
