(* ===== verification/AlertProps.thy ===== *)
theory AlertProps imports CaseDemo begin

text \<open>The properties of alerts: repetition, routing, and the loading of policies.\<close>

section \<open>A concrete alert\<close>

definition demo_external :: external_alert where
  "demo_external = \<lparr>ea_schema = ''openwatchlist.external-alert.v1'', ea_system = ''sys'', ea_alert = ''a1'', ea_list = ''list'',
     ea_occurred = ''2026-01-01T00:00:00Z'', ea_score = 100, ea_reasons = [], ea_fields = [], ea_candidates = [''c''],
     ea_messages = [], ea_attachments = [], ea_resolution = Some JNull, ea_evidence = []\<rparr>"

definition demo_request :: "int \<Rightarrow> alert_request" where
  "demo_request score = \<lparr>aq_tenant = ''t'', aq_source = ''external_alert'', aq_event = None,
     aq_external = Some (demo_external\<lparr>ea_score := score\<rparr>), aq_subject = None, aq_correlation = ''corr'', aq_key = ''k1'',
     aq_occurred = ''2026-01-01T00:00:00Z''\<rparr>"

definition demo_evidence :: "int \<Rightarrow> alert_evidence" where
  "demo_evidence score = \<lparr>ae_lineage = None, ae_candidates = [\<lparr>cu_id = ''c'', cu_score = score, cu_band = [], cu_reasons = []\<rparr>],
     ae_blockers = [], ae_identity = ''sys:a1:list'', ae_score = score\<rparr>"

lemma sortedUnique_Nil [simp]: "sortedUnique [] = []"
  by (simp add: sortedUnique_def)

lemma demo_source: "source_evidence demo_env (demo_request score) = Inr (demo_evidence score)"
proof -
  have "\<not> blank ''t''" "\<not> blank ''corr''"
    by (rule not_blank_ascii; simp add: byte_of_def IsSpace_def)+
  moreover have "sortedUnique [''c''] = [''c'']"
    by (simp add: sortedUnique_def trim_eval)
  ultimately show ?thesis
    by (simp add: source_evidence_def demo_request_def demo_not_blank external_evidence_def demo_external_def demo_evidence_def)
qed

lemma demo_build: "\<exists>a. BuildAlert demo_env demo_policy (demo_request score) = Inr a
    \<and> ad_route (al_decision a) = alert_route demo_policy ''external_alert'' score []
    \<and> ad_score (al_decision a) = score
    \<and> al_id a = ''alert_'' @ replicate 32 (CHR ''f'')"
proof -
  have f: "aq_source (demo_request score) = ''external_alert''" "aq_occurred (demo_request score) = ''2026-01-01T00:00:00Z''"
    by (simp_all add: demo_request_def)
  show ?thesis
    by (simp add: BuildAlert_def demo_source f demo_times decide_def demo_evidence_def alert_identity_def hash_obj Let_def)
qed

section \<open>Routes\<close>

lemma BuildAlert_parts:
  assumes "BuildAlert env p r = Inr a"
  obtains v c d cands where "source_evidence env r = Inr v" "decide env p (aq_source r) v = (c, d, cands)"
    "al_classification a = c" "al_decision a = d" "al_candidates a = cands" "al_source a = aq_source r"
    "al_identity a = ae_identity v" "al_tenant a = aq_tenant r"
  using assms by (auto simp: BuildAlert_def Let_def split: option.splits sum.splits prod.splits)

lemma max_score_upper: "foldl (\<lambda>m c. if cu_score c > m then cu_score c else m) n cs \<ge> n"
  "c \<in> set cs \<Longrightarrow> cu_score c \<le> foldl (\<lambda>m c. if cu_score c > m then cu_score c else m) n cs"
proof (induction cs arbitrary: n)
  case (Cons x cs)
  case 1
  then show ?case
    using Cons(1) [of "if cu_score x > n then cu_score x else n"] by (auto split: if_splits)
next
  case (Cons x cs)
  case 2
  then show ?case
    using Cons(1,2) [of "if cu_score x > n then cu_score x else n"] by (auto split: if_splits)
qed simp_all

text \<open>The score a route is decided on bounds the score of every candidate.\<close>

lemma source_score:
  assumes "source_evidence env r = Inr v" and "c \<in> set (ae_candidates v)"
  shows "cu_score c \<le> ae_score v"
proof (cases "aq_source r = ''screening_ledger''")
  case True
  then obtain raw where "ledger_evidence env raw = Inr v"
    using assms(1) by (auto simp: source_evidence_def split: if_splits option.splits)
  then obtain cs where "ae_candidates v = map (\<lambda>c. c\<lparr>cu_reasons := sortedUnique (cu_reasons c)\<rparr>) cs" "ae_score v = max_score cs"
    by (auto simp: ledger_evidence_def split: if_splits option.splits prod.splits)
  then show ?thesis
    using assms(2) max_score_upper(2) by (auto simp: max_score_def)
next
  case False
  then obtain x where "external_evidence x = Inr v"
    using assms(1) by (auto simp: source_evidence_def split: if_splits option.splits)
  then show ?thesis
    using assms(2) by (auto simp: external_evidence_def split: if_splits)
qed

definition decision_blockers :: "alert_evidence \<Rightarrow> string list" where
  "decision_blockers v = sortedUnique (ae_blockers v
     @ sortedUnique (if ae_candidates v = [] then [''candidate_evidence_unavailable''] else []))"

lemma decide_parts:
  "snd (snd (decide env p source v)) = sort_by candidate_less (ae_candidates v)"
  "ad_blockers (fst (snd (decide env p source v))) = decision_blockers v"
  "ad_route (fst (snd (decide env p source v))) = alert_route p source (ae_score v) (decision_blockers v)"
  "ac_route (fst (decide env p source v)) = alert_route p source (ae_score v) (decision_blockers v)"
  by (simp_all add: decide_def Let_def decision_blockers_def)

lemma sortedUnique_member: "TrimSpace c = c \<Longrightarrow> c \<noteq> [] \<Longrightarrow> c \<in> set xs \<Longrightarrow> c \<in> set (sortedUnique xs)"
  by (auto simp: sortedUnique_facts(3) intro: image_eqI [of _ _ c])

lemma no_blockers_candidates: "decision_blockers v = [] \<Longrightarrow> ae_candidates v \<noteq> []"
proof
  assume b: "decision_blockers v = []" and e: "ae_candidates v = []"
  have t: "TrimSpace ''candidate_evidence_unavailable'' = ''candidate_evidence_unavailable''"
    by (simp add: trim_eval)
  have "''candidate_evidence_unavailable'' \<in> set (decision_blockers v)"
    unfolding decision_blockers_def e
    by (rule sortedUnique_member [OF t], simp, simp add: sortedUnique_member [OF t])
  then show False
    using b by simp
qed

text \<open>C37. An alert is routed to be cleared only if it has candidate evidence, every candidate scores
below the review threshold, and nothing blocks; classification and decision agree on the route.\<close>

theorem cleared_alerts_are_below_review:
  assumes "BuildAlert env p r = Inr a" and "ad_route (al_decision a) = ''clear''"
  shows "al_candidates a \<noteq> [] \<and> (\<forall>c \<in> set (al_candidates a). cu_score c < ap_review p)
    \<and> ad_blockers (al_decision a) = [] \<and> ac_route (al_classification a) = ''clear''"
  using assms(1)
proof (cases rule: BuildAlert_parts)
  case (1 v c d cands)
  have x: "al_candidates a = sort_by candidate_less (ae_candidates v)" "ad_blockers (al_decision a) = decision_blockers v"
    "ad_route (al_decision a) = alert_route p (aq_source r) (ae_score v) (decision_blockers v)"
    "ac_route (al_classification a) = ad_route (al_decision a)"
    using 1(3-5) decide_parts [of env p "aq_source r" v] unfolding 1(2) by simp_all
  have b: "decision_blockers v = []" and s: "ae_score v < ap_review p"
    using assms(2) x(3) by (auto simp: alert_route_def split: if_splits)
  have "\<forall>c \<in> set (al_candidates a). cu_score c < ap_review p"
    using source_score [OF 1(1)] s by (auto simp: x(1) intro: le_less_trans)
  then show ?thesis
    using x b assms(2) no_blockers_candidates [OF b] by simp
qed

theorem cleared_alerts_are_below_review_witness:
  "\<exists>a. BuildAlert demo_env demo_policy (demo_request 100) = Inr a \<and> ad_route (al_decision a) = ''clear''
    \<and> al_candidates a \<noteq> []"
proof -
  obtain a where a: "BuildAlert demo_env demo_policy (demo_request 100) = Inr a" "ad_route (al_decision a) = ''clear''"
    using demo_build [of 100] by (auto simp: alert_route_def demo_policy_def)
  then show ?thesis
    using cleared_alerts_are_below_review [OF a] by blast
qed

text \<open>An external alert that only the external threshold escalates reports the higher threshold.\<close>

theorem escalation_reports_unreached_threshold:
  "\<exists>a. BuildAlert demo_env demo_policy (demo_request 750) = Inr a \<and> ad_route (al_decision a) = ''escalate''
    \<and> ad_score (al_decision a) < ad_threshold (al_decision a)"
proof -
  have f: "aq_source (demo_request 750) = ''external_alert''" "aq_occurred (demo_request 750) = ''2026-01-01T00:00:00Z''"
    by (simp_all add: demo_request_def)
  show ?thesis
    by (simp add: BuildAlert_def demo_source f demo_times decide_def demo_evidence_def alert_identity_def hash_obj Let_def
      alert_route_def demo_policy_def)
qed

section \<open>Repetition and batches\<close>

text \<open>Repeating an accepted alert request returns the stored alert, marked as a repetition, and
changes nothing; the stored alert verifies, and no alert stored before is touched.\<close>

theorem repeated_alert_is_answered:
  assumes "CreateAlert env r st = Inr (a, False, st')"
  shows "CreateAlert env r st' = Inr (stored_alert a, True, st') \<and> VerifyAlert env st' (al_id a) = Inr (stored_alert a)
    \<and> (\<forall>i b. map_of (st_alerts st) i = Some b \<longrightarrow> map_of (st_alerts st') i = Some b)"
  using assms
proof (cases rule: CreateAlert_cases)
  case fresh
  have nb: "\<not> blank (aq_key r)"
    using assms by (auto simp: CreateAlert_def checkReceipt_def split: if_splits)
  have l: "Alert st' (al_id a) = Inr (stored_alert a)"
    using fresh(3) by (simp add: Alert_def fresh(5) AList.update_conv')
  have "CreateAlert env r st' = Inr (stored_alert a, True, st')"
    using l unfolding CreateAlert_def fresh(5) receipt_found [OF nb] by simp
  moreover have "VerifyAlert env st' (al_id a) = Inr (stored_alert a)"
    using l BuildAlert_hash [OF fresh(2)] by (simp add: VerifyAlert_def)
  moreover have "map_of (st_alerts st) i = Some b \<longrightarrow> map_of (st_alerts st') i = Some b" for i b
    using fresh(4) by (auto simp: fresh(5) AList.update_conv')
  ultimately show ?thesis
    by blast
qed simp_all

theorem repeated_alert_is_answered_witness:
  "\<exists>a st'. CreateAlert demo_env (demo_request 100) demo0 = Inr (a, False, st')
    \<and> CreateAlert demo_env (demo_request 100) st' = Inr (stored_alert a, True, st')"
proof -
  obtain a where a: "BuildAlert demo_env demo_policy (demo_request 100) = Inr a" "al_id a = ''alert_'' @ replicate 32 (CHR ''f'')"
    using demo_build by blast
  have "valid_alert_id (''alert_'' @ replicate 32 (CHR ''f''))"
    by code_simp
  then have "\<exists>st'. CreateAlert demo_env (demo_request 100) demo0 = Inr (a, False, st')"
    using a demo_not_blank by (simp add: CreateAlert_def checkReceipt_def demo0_def NewStore_def) (simp add: demo_request_def)
  then show ?thesis
    using repeated_alert_is_answered by blast
qed

text \<open>
  A batch is not all or nothing: when its second request repeats the idempotency key of the first with
  other content, the batch is refused and the first alert stays stored.
\<close>

theorem refused_batch_keeps_its_first_alert:
  assumes "bq_requests b = [r1, r2]" and "CreateAlert env r1 st = Inr (a, False, st1)" and "aq_key r2 = aq_key r1"
    and "HashObject env (alert_request_json r2) \<noteq> HashObject env (alert_request_json r1)"
    and "BuildAlert env (st_policy st) r2 = Inr a2"
    and "bq_key b \<noteq> []" "bq_correlation b \<noteq> []" "normalizeTime env (bq_occurred b) \<noteq> None"
    and "checkReceipt env ''create-alert-batch'' (bq_key b) (batch_request_json b) st = Inr None"
  shows "CreateAlertBatch env b st = (Inl SeConflict, st1) \<and> map_of (st_alerts st1) (al_id a) = Some (stored_alert a)"
  using assms(2)
proof (cases rule: CreateAlert_cases)
  case fresh
  have nb: "\<not> blank (aq_key r1)"
    using assms(2) by (auto simp: CreateAlert_def checkReceipt_def split: if_splits)
  have "CreateAlert env r2 st1 = Inl SeConflict"
    using nb assms(3,4) by (simp add: CreateAlert_def checkReceipt_def fresh(5) saveReceipt_def AList.update_conv')
  then show ?thesis
    using assms fresh(2) by (simp add: CreateAlertBatch_def) (simp add: fresh(5) AList.update_conv')
qed simp_all

end
