(* ===== verification/GoPath.thy ===== *)
theory GoPath imports GoStrings "HOL-Library.Finite_Map" begin

text \<open>
  Paths as \<^verbatim>\<open>path/filepath\<close> treats them on Unix, and a disk of files. \<open>Clean\<close>, \<open>Join2\<close>, \<open>Base\<close>, \<open>Dir\<close>, \<open>Abs\<close> and
  \<open>Rel\<close> are the functions of the package; a path is resolved lexically (no symbolic links), so files
  are found by the resolved components of their path.
\<close>

section \<open>Components\<close>

definition slash :: char where
  "slash = CHR ''/''"

fun split_ch :: "char \<Rightarrow> string \<Rightarrow> string list" where
  "split_ch c [] = [[]]"
| "split_ch c (x # xs) =
     (if x = c then [] # split_ch c xs
      else (case split_ch c xs of [] \<Rightarrow> [[x]] | w # ws \<Rightarrow> (x # w) # ws))"

definition components :: "string \<Rightarrow> string list" where
  "components s = filter (\<lambda>p. p \<noteq> [] \<and> p \<noteq> ''.'') (split_ch slash s)"

fun resolve :: "bool \<Rightarrow> string list \<Rightarrow> string list \<Rightarrow> string list" where
  "resolve rooted out [] = rev out"
| "resolve rooted out (p # ps) =
     (if p = ''..'' then
        (case out of
           [] \<Rightarrow> if rooted then resolve rooted [] ps else resolve rooted [p] ps
         | q # qs \<Rightarrow> if q = ''..'' then resolve rooted (p # out) ps else resolve rooted qs ps)
      else resolve rooted (p # out) ps)"

definition IsAbs :: "string \<Rightarrow> bool" where
  "IsAbs s \<longleftrightarrow> HasPrefix s [slash]"

definition path_parts :: "string \<Rightarrow> string list" where
  "path_parts s = resolve (IsAbs s) [] (components s)"

definition print_path :: "bool \<Rightarrow> string list \<Rightarrow> string" where
  "print_path rooted ps =
     (if rooted then slash # Join ps [slash] else if ps = [] then ''.'' else Join ps [slash])"

definition Clean :: "string \<Rightarrow> string" where
  "Clean s = print_path (IsAbs s) (path_parts s)"

definition Join2 :: "string \<Rightarrow> string \<Rightarrow> string" where
  "Join2 a b = (if a = [] then (if b = [] then [] else Clean b) else Clean (a @ [slash] @ b))"

definition Base :: "string \<Rightarrow> string" where
  "Base s =
     (if s = [] then ''.''
      else (let t = drop_end (\<lambda>c. c = slash) s; b = rev (takeWhile (\<lambda>c. c \<noteq> slash) (rev t))
            in if b = [] then [slash] else b))"

definition Dir :: "string \<Rightarrow> string" where
  "Dir s = Clean (rev (dropWhile (\<lambda>c. c \<noteq> slash) (rev s)))"

text \<open>\<^verbatim>\<open>filepath.Abs\<close> with the working directory, \<^verbatim>\<open>filepath.Rel\<close>: \<open>None\<close> when one path cannot be reached from the other.\<close>

definition Abs :: "string \<Rightarrow> string \<Rightarrow> string" where
  "Abs cwd s = (if IsAbs s then Clean s else Join2 cwd s)"

fun drop_common :: "string list \<Rightarrow> string list \<Rightarrow> string list \<times> string list" where
  "drop_common (a # as) (b # bs) = (if a = b then drop_common as bs else (a # as, b # bs))"
| "drop_common as bs = (as, bs)"

definition Rel :: "string \<Rightarrow> string \<Rightarrow> string option" where
  "Rel base target =
     (if IsAbs base \<noteq> IsAbs target then None
      else (case drop_common (path_parts base) (path_parts target) of
              (up, down) \<Rightarrow>
                if up \<noteq> [] \<and> hd up = ''..'' then None
                else Some (print_path False (replicate (length up) ''..'' @ down))))"

section \<open>Laws\<close>

lemma split_ch_nonempty [simp]: "split_ch c s \<noteq> []"
  by (induction s) (auto split: list.splits)

lemma split_ch_append: "split_ch c (a @ c # b) = split_ch c a @ split_ch c b"
  by (induction a) (auto split: list.splits)

lemma split_ch_free: "c \<notin> set s \<Longrightarrow> split_ch c s = [s]"
  by (induction s) auto

lemma split_ch_parts: "p \<in> set (split_ch c s) \<Longrightarrow> c \<notin> set p"
proof (induction s arbitrary: p)
  case (Cons x xs)
  show ?case
  proof (cases "split_ch c xs")
    case (Cons w ws)
    then have "c \<notin> set w" "\<And>q. q \<in> set ws \<Longrightarrow> c \<notin> set q"
      using Cons.IH by auto
    then show ?thesis
      using Cons.prems Cons by (auto split: if_splits)
  qed simp
qed simp

text \<open>A plain name: what a path component that names a file looks like.\<close>

definition plain_name :: "string \<Rightarrow> bool" where
  "plain_name p \<longleftrightarrow> p \<noteq> [] \<and> p \<noteq> ''.'' \<and> p \<noteq> ''..'' \<and> slash \<notin> set p"

definition part_ok :: "string \<Rightarrow> bool" where
  "part_ok p \<longleftrightarrow> p \<noteq> [] \<and> p \<noteq> ''.'' \<and> slash \<notin> set p"

lemma plain_part: "plain_name p \<Longrightarrow> part_ok p"
  by (simp add: plain_name_def part_ok_def)

lemma components_part: "p \<in> set (components s) \<Longrightarrow> part_ok p"
  by (auto simp: components_def part_ok_def dest: split_ch_parts)

lemma components_append: "components (a @ slash # b) = components a @ components b"
  by (simp add: components_def split_ch_append)

lemma components_single: "part_ok p \<Longrightarrow> components p = [p]"
  by (simp add: components_def part_ok_def split_ch_free)

lemma components_Nil [simp]: "components [] = []"
  by (simp add: components_def)

lemma components_Join: "(\<forall>p \<in> set ps. part_ok p) \<Longrightarrow> components (Join ps [slash]) = ps"
  by (induction ps "[slash]" rule: Join.induct) (simp_all add: components_append components_single)

lemma components_slash: "components (slash # s) = components s"
  using components_append [of "[]" s] by simp

text \<open>What resolving leaves: parent references only at the front of a relative path.\<close>

fun resolved :: "bool \<Rightarrow> string list \<Rightarrow> bool" where
  "resolved rooted [] = True"
| "resolved rooted (p # ps) = (if p = ''..'' then \<not> rooted \<and> resolved rooted ps else ''..'' \<notin> set ps)"

lemma resolve_append: "resolve r out (xs @ ys) = resolve r (rev (resolve r out xs)) ys"
  by (induction r out xs rule: resolve.induct) (auto split: list.splits)

lemma resolve_plain: "''..'' \<notin> set ps \<Longrightarrow> resolve r out ps = rev out @ ps"
  by (induction ps arbitrary: out) auto

lemma resolve_resolved_aux:
  "resolved r ps \<Longrightarrow> set out \<subseteq> {''..''} \<Longrightarrow> resolve r out ps = rev out @ ps"
proof (induction ps arbitrary: out)
  case (Cons p ps)
  show ?case
  proof (cases "p = ''..''")
    case True
    then have "\<not> r" "resolved r ps"
      using Cons.prems by auto
    then show ?thesis
      using True Cons.IH [of "p # out"] Cons.prems(2) by (cases out) auto
  next
    case False
    then show ?thesis
      using Cons.prems by (simp add: resolve_plain)
  qed
qed simp

lemma resolve_resolved: "resolved r ps \<Longrightarrow> resolve r [] ps = ps"
  by (simp add: resolve_resolved_aux)

lemma resolved_snoc: "resolved r ps \<Longrightarrow> p \<noteq> ''..'' \<Longrightarrow> resolved r (ps @ [p])"
  by (induction ps) auto

lemma resolved_snoc_up: "resolved r ps \<Longrightarrow> ps = [] \<or> last ps = ''..'' \<Longrightarrow> \<not> r \<Longrightarrow> resolved r (ps @ [''..''])"
  by (induction ps) (auto split: if_splits dest: last_in_set)

lemma resolved_butlast: "resolved r (ps @ [q]) \<Longrightarrow> resolved r ps"
  by (induction ps) (auto split: if_splits)

lemma resolved_up: "resolved True (ps @ [''..'']) \<Longrightarrow> False"
  by (induction ps) (auto split: if_splits)

lemma resolved_resolve: "resolved r (rev out) \<Longrightarrow> resolved r (resolve r out ps)"
proof (induction r out ps rule: resolve.induct)
  case (2 r out p ps)
  show ?case
  proof (cases "p = ''..''")
    case False
    then show ?thesis
      using 2 by (simp add: resolved_snoc)
  next
    case True
    show ?thesis
    proof (cases out)
      case Nil
      then show ?thesis
        using True 2 by simp
    next
      case (Cons q qs)
      show ?thesis
      proof (cases "q = ''..''")
        case False
        then show ?thesis
          using True Cons 2 by (simp add: resolved_butlast)
      next
        case q: True
        then have "\<not> r"
          using "2.prems" Cons resolved_up [of "rev qs"] by (cases r) auto
        then show ?thesis
          using True Cons q 2 resolved_snoc_up [of r "rev out"] by simp
      qed
    qed
  qed
qed simp

lemma resolve_subset: "set (resolve r out ps) \<subseteq> set out \<union> set ps"
  by (induction r out ps rule: resolve.induct) (auto split: list.splits if_splits)

lemma path_parts_resolved: "resolved (IsAbs s) (path_parts s)"
  by (simp add: path_parts_def resolved_resolve)

lemma path_parts_ok: "p \<in> set (path_parts s) \<Longrightarrow> part_ok p"
  using resolve_subset [of "IsAbs s" "[]" "components s"] components_part by (auto simp: path_parts_def)

lemma IsAbs_simps [simp]: "IsAbs (slash # s)" "\<not> IsAbs []" "IsAbs (c # s) \<longleftrightarrow> c = slash"
  by (simp_all add: IsAbs_def eq_commute)

lemma IsAbs_append [simp]: "a \<noteq> [] \<Longrightarrow> IsAbs (a @ b) = IsAbs a"
  by (cases a) auto

lemma Join_not_abs: "(\<forall>p \<in> set ps. part_ok p) \<Longrightarrow> \<not> IsAbs (Join ps [slash])"
proof (cases ps)
  case (Cons p qs)
  assume "\<forall>p \<in> set ps. part_ok p"
  then have "p \<noteq> []" "\<not> IsAbs p"
    using Cons by (auto simp: part_ok_def IsAbs_def HasPrefix_iff)
  then show ?thesis
    using Cons by (cases qs) auto
qed (simp add: IsAbs_def)

text \<open>Printing resolved components and reading them back.\<close>

lemma print_path_parts:
  assumes "\<forall>p \<in> set ps. part_ok p" and "resolved r ps"
  shows "IsAbs (print_path r ps) = r" "path_parts (print_path r ps) = ps"
proof -
  have dot: "components ''.'' = []" "\<not> IsAbs ''.''"
    by (simp_all add: components_def slash_def IsAbs_def)
  show abs: "IsAbs (print_path r ps) = r"
    using Join_not_abs [OF assms(1)] dot by (simp add: print_path_def)
  have "components (print_path r ps) = ps"
    using components_Join [OF assms(1)] dot by (simp add: print_path_def components_slash)
  then show "path_parts (print_path r ps) = ps"
    using abs assms(2) by (simp add: path_parts_def resolve_resolved)
qed

lemma Clean_parts [simp]: "IsAbs (Clean s) = IsAbs s" "path_parts (Clean s) = path_parts s"
proof -
  have "\<forall>p \<in> set (path_parts s). part_ok p"
    using path_parts_ok by blast
  then show "IsAbs (Clean s) = IsAbs s" "path_parts (Clean s) = path_parts s"
    unfolding Clean_def using path_parts_resolved by (rule print_path_parts)+
qed

lemma Clean_idem [simp]: "Clean (Clean s) = Clean s"
  by (simp add: Clean_def [of "Clean s"]) (simp add: Clean_def)

lemma Join2_parts:
  assumes "a \<noteq> []"
  shows "IsAbs (Join2 a b) = IsAbs a" "path_parts (Join2 a b) = resolve (IsAbs a) (rev (path_parts a)) (components b)"
proof -
  have "components (a @ [slash] @ b) = components a @ components b"
    using components_append [of a b] by simp
  then show "IsAbs (Join2 a b) = IsAbs a" "path_parts (Join2 a b) = resolve (IsAbs a) (rev (path_parts a)) (components b)"
    using assms by (simp_all add: Join2_def) (simp add: path_parts_def resolve_append)
qed

lemma Join2_name: "a \<noteq> [] \<Longrightarrow> plain_name n \<Longrightarrow> path_parts (Join2 a n) = path_parts a @ [n]"
  by (simp add: Join2_parts components_single plain_part) (simp add: plain_name_def)

lemma print_path_nonempty [simp]: "(\<forall>p \<in> set ps. part_ok p) \<Longrightarrow> print_path r ps \<noteq> []"
  by (induction ps "[slash]" rule: Join.induct) (auto simp: print_path_def part_ok_def)

lemma Clean_nonempty [simp]: "Clean s \<noteq> []"
  unfolding Clean_def using path_parts_ok by (intro print_path_nonempty) auto

lemma Join2_nonempty [simp]: "a \<noteq> [] \<Longrightarrow> Join2 a b \<noteq> []"
  by (simp add: Join2_def)

lemma Base_after_slash:
  assumes "plain_name n"
  shows "Base (s @ slash # n) = n" "Base n = n"
proof -
  have n: "n \<noteq> []" "slash \<notin> set n" and l: "last n \<noteq> slash"
    using assms last_in_set [of n] unfolding plain_name_def by metis+
  have "drop_end (\<lambda>c. c = slash) (s @ slash # n) = s @ slash # n" "drop_end (\<lambda>c. c = slash) n = n"
    using n l by (simp_all add: drop_end_id)
  moreover have t: "takeWhile (\<lambda>c. c \<noteq> slash) (rev n) = rev n"
    unfolding takeWhile_eq_all_conv using n(2) by auto
  moreover have "takeWhile (\<lambda>c. c \<noteq> slash) (rev (s @ slash # n)) = rev n"
    using \<open>takeWhile (\<lambda>c. c \<noteq> slash) (rev n) = rev n\<close> n(2) by (simp add: takeWhile_append)
  ultimately show "Base (s @ slash # n) = n" "Base n = n"
    using n(1) t unfolding Base_def Let_def by (simp_all only: t) simp_all
qed

lemma Base_Clean_Join2:
  assumes "a \<noteq> []" and "plain_name n"
  shows "Base (Clean (Join2 a n)) = n"
proof -
  have "Clean (Join2 a n) = print_path (IsAbs a) (path_parts a @ [n])"
    by (simp add: Clean_def Join2_parts(1) Join2_name assms)
  then show ?thesis
    using Base_after_slash [OF assms(2)] Base_after_slash(1) [OF assms(2), of "[]"]
      Base_after_slash(1) [OF assms(2), of "slash # Join (path_parts a) [slash]"]
    by (simp add: print_path_def Join_snoc)
qed

section \<open>A disk\<close>

text \<open>Directories by whether their path is rooted and its components; each maps file names to their bytes.\<close>

type_synonym dir_key = "bool \<times> string list"

type_synonym disk = "(dir_key, (string, string) fmap) fmap"

definition dir_key :: "string \<Rightarrow> dir_key" where
  "dir_key p = (IsAbs p, path_parts p)"

definition read_file :: "disk \<Rightarrow> string \<Rightarrow> string option" where
  "read_file d p =
     (if p = [] \<or> path_parts p = [] then None
      else (case fmlookup d (IsAbs p, butlast (path_parts p)) of
              None \<Rightarrow> None
            | Some fs \<Rightarrow> fmlookup fs (last (path_parts p))))"

definition dir_exists :: "disk \<Rightarrow> string \<Rightarrow> bool" where
  "dir_exists d p \<longleftrightarrow> fmlookup d (dir_key p) \<noteq> None"

lemma read_file_in:
  assumes "a \<noteq> []" and "plain_name n" and "fmlookup d (dir_key a) = Some fs"
  shows "read_file d (Join2 a n) = fmlookup fs n"
  using assms by (simp add: read_file_def Join2_name Join2_parts(1) dir_key_def)

lemma read_file_none:
  assumes "a \<noteq> []" and "plain_name n" and "fmlookup d (dir_key a) = None"
  shows "read_file d (Join2 a n) = None"
  using assms by (simp add: read_file_def Join2_name Join2_parts(1) dir_key_def)

end
