(* ===== verification/ProjectionPackage.thy ===== *)
theory ProjectionPackage imports ScoringEngine GoPath begin

text \<open>
  Scoring projection packages (\<^verbatim>\<open>internal/projectionpackage\<close>): a canonical feed of catalogue records is
  compiled into an immutable, checksum-addressed directory of four files, bound to one catalogue
  package, and read back with every checksum verified. JSON decoding is a parameter; the encoded
  forms are those of \<open>GoJson\<close>.
\<close>

section \<open>Data\<close>

record catalog_descriptor =
  de_schema :: string
  de_provider :: string
  de_catalog :: string
  de_component :: string
  de_version :: string
  de_sha :: string
  de_path :: string
  de_profile :: string
  de_records :: int
  de_retrievable :: int
  de_ids_sha :: string

record source_record =
  sr_id :: string
  sr_retrievable :: bool
  sr_names :: "string list"
  sr_identifiers :: "typed_id list"
  sr_countries :: "string list"
  sr_dobs :: "string list"
  sr_entity :: string

record canonical_input =
  ci_schema :: string
  ci_provider :: string
  ci_catalog :: string
  ci_component :: string
  ci_version :: string
  ci_sha :: string
  ci_profile :: string
  ci_records :: "source_record list"

record manifest =
  ma_schema :: string
  ma_provider :: string
  ma_catalog :: string
  ma_component :: string
  ma_version :: string
  ma_catalog_sha :: string
  ma_profile :: string
  ma_source_records :: int
  ma_projections :: int
  ma_ids_sha :: string
  ma_projections_sha :: string
  ma_compiler :: string

record projection_document =
  pd_schema :: string
  pd_candidates :: "candidate list"

record package =
  pk_directory :: string
  pk_sha :: string
  pk_manifest :: manifest
  pk_projections :: projection_document
  pk_manifest_path :: string
  pk_projections_path :: string

datatype package_error =
    DescriptorDecode | DescriptorSchema | DescriptorLineage | DescriptorDigests | DescriptorCounts
  | CatalogRead | CatalogChecksum
  | InputDecode | InputSchema | InputBinding string
  | RecordCount | EmptyCandidateId | DuplicateCandidateId string | RetrievableCount | CoverageChecksum
  | OutputRoot | ExistingInvalid package_error
  | ReadManifest | ReadPayload | ReadFiles | ReadPackage
  | ManifestDecode | ManifestSchema | PayloadDecode | PayloadSchema | PayloadCount | PayloadIds | PayloadCoverage
  | PayloadChecksum | FilesMismatch | PackageMismatch | NotChecksumAddressed

text \<open>The environment: the hash, the Unicode tables and the strict JSON decoders.\<close>

record package_env =
  pe_sha :: "string \<Rightarrow> string"
  pe_uni :: unicode
  pe_descriptor :: "string \<Rightarrow> catalog_descriptor option"
  pe_input :: "string \<Rightarrow> canonical_input option"
  pe_manifest :: "string \<Rightarrow> manifest option"
  pe_document :: "string \<Rightarrow> projection_document option"

section \<open>Normalisation\<close>

text \<open>The package keeps its own copies of the normalisers of the scoring engine.\<close>

definition pp_normalizeText :: "unicode \<Rightarrow> string \<Rightarrow> string" where
  "pp_normalizeText u v = TrimSpace (encode (text_loop u True (runes (ToUpper u (TrimSpace v)))))"

definition pp_normalizeIdentifierType :: "unicode \<Rightarrow> string \<Rightarrow> string" where
  "pp_normalizeIdentifierType u v = replace_byte (pp_normalizeText u v) space_ch ''_''"

definition pp_normalizeIdentifierValue :: "unicode \<Rightarrow> string \<Rightarrow> string" where
  "pp_normalizeIdentifierValue u v = replace_byte (pp_normalizeText u v) space_ch []"

definition pp_normalizeCountry :: "unicode \<Rightarrow> string \<Rightarrow> string" where
  "pp_normalizeCountry u v = replace_byte (pp_normalizeText u v) space_ch []"

definition pp_normalizeEntityType :: "unicode \<Rightarrow> string \<Rightarrow> string" where
  "pp_normalizeEntityType u v =
     (let n = pp_normalizeText u v in
      if n \<in> {''PERSON'', ''INDIVIDUAL'', ''NATURAL PERSON''} then ''PERSON''
      else if n \<in> {''ORGANIZATION'', ''ORGANISATION'', ''ENTITY'', ''COMPANY'', ''BUSINESS''} then ''ORGANIZATION''
      else if n \<in> {''VESSEL'', ''SHIP''} then ''VESSEL''
      else if n \<in> {''AIRCRAFT'', ''PLANE''} then ''AIRCRAFT''
      else n)"

definition pp_uniqueSorted :: "(string \<Rightarrow> string) \<Rightarrow> string list \<Rightarrow> string list" where
  "pp_uniqueSorted normalizer values = sorted_set (filter (\<lambda>n. n \<noteq> []) (map normalizer values))"

text \<open>Identifiers are kept in a map under their type, a zero byte and their value, and read in key order.\<close>

definition identifier_map_key :: "typed_id \<Rightarrow> string" where
  "identifier_map_key i = id_type i @ [CHR 0x00] @ id_value i"

definition normalizeIdentifier :: "unicode \<Rightarrow> typed_id \<Rightarrow> typed_id" where
  "normalizeIdentifier u i =
     \<lparr>id_type = pp_normalizeIdentifierType u (id_type i), id_value = pp_normalizeIdentifierValue u (id_value i)\<rparr>"

definition normalizeIdentifiers :: "unicode \<Rightarrow> typed_id list \<Rightarrow> typed_id list" where
  "normalizeIdentifiers u values =
     (let kept = filter (\<lambda>i. id_type i \<noteq> [] \<and> id_value i \<noteq> []) (map (normalizeIdentifier u) values);
          seen = map_of (rev (map (\<lambda>i. (identifier_map_key i, i)) kept))
      in map (\<lambda>key. the (seen key)) (sorted_set (map identifier_map_key kept)))"

definition normalizeRecord :: "unicode \<Rightarrow> source_record \<Rightarrow> candidate" where
  "normalizeRecord u r =
     \<lparr>cd_id = TrimSpace (sr_id r), cd_names = pp_uniqueSorted (pp_normalizeText u) (sr_names r),
      cd_identifiers = normalizeIdentifiers u (sr_identifiers r),
      cd_countries = pp_uniqueSorted (pp_normalizeCountry u) (sr_countries r),
      cd_dobs = pp_uniqueSorted TrimSpace (sr_dobs r),
      cd_entity = pp_normalizeEntityType u (sr_entity r)\<rparr>"

section \<open>Encoded forms and digests\<close>

definition newline :: string where
  "newline = [CHR 0x0A]"

definition manifest_json :: "manifest \<Rightarrow> json" where
  "manifest_json m = JObj (fld ''schema_version'' (JStr (ma_schema m)) @ fld ''provider'' (JStr (ma_provider m))
     @ fld ''catalog_id'' (JStr (ma_catalog m)) @ fld ''component_id'' (JStr (ma_component m))
     @ fld ''component_version'' (JStr (ma_version m)) @ fld ''catalog_package_sha256'' (JStr (ma_catalog_sha m))
     @ fld ''normalization_profile'' (JStr (ma_profile m)) @ fld ''source_record_count'' (JInt (ma_source_records m))
     @ fld ''projection_count'' (JInt (ma_projections m)) @ fld ''candidate_ids_sha256'' (JStr (ma_ids_sha m))
     @ fld ''projections_sha256'' (JStr (ma_projections_sha m)) @ fld ''compiler'' (JStr (ma_compiler m)))"

definition document_json :: "projection_document \<Rightarrow> json" where
  "document_json d = JObj (fld ''schema_version'' (JStr (pd_schema d))
     @ fld ''candidates'' (JArr (map candidate_json (pd_candidates d))))"

definition marshalCanonical :: "json \<Rightarrow> string" where
  "marshalCanonical v = marshal v @ newline"

definition digestCandidateIDs :: "(string \<Rightarrow> string) \<Rightarrow> string list \<Rightarrow> string" where
  "digestCandidateIDs sha ids = sha (Join ids newline @ newline)"

definition is_hex :: "char \<Rightarrow> bool" where
  "is_hex c \<longleftrightarrow> 48 \<le> byte_of c \<and> byte_of c \<le> 57 \<or> 97 \<le> byte_of c \<and> byte_of c \<le> 102
     \<or> 65 \<le> byte_of c \<and> byte_of c \<le> 70"

definition isSHA256 :: "unicode \<Rightarrow> string \<Rightarrow> bool" where
  "isSHA256 u v \<longleftrightarrow> length v = 64 \<and> ToLower u v = v \<and> list_all is_hex v"

definition files_sha256 :: "string \<Rightarrow> string \<Rightarrow> string" where
  "files_sha256 manifest_digest projection_digest =
     manifest_digest @ ''  manifest.json'' @ newline @ projection_digest @ ''  projections.json'' @ newline"

section \<open>Validation\<close>

definition validateCatalogDescriptor :: "unicode \<Rightarrow> catalog_descriptor \<Rightarrow> (package_error, unit) result" where
  "validateCatalogDescriptor u d =
     (if de_schema d \<noteq> ''openwatchlist.catalog-package-descriptor.v1'' then Inl DescriptorSchema
      else if \<exists>v \<in> set [de_provider d, de_catalog d, de_component d, de_version d, de_path d, de_profile d].
                TrimSpace v = [] then Inl DescriptorLineage
      else if \<not> isSHA256 u (de_sha d) \<or> \<not> isSHA256 u (de_ids_sha d) then Inl DescriptorDigests
      else if de_records d < 0 \<or> de_retrievable d < 0 \<or> de_retrievable d > de_records d then Inl DescriptorCounts
      else Inr ())"

definition ValidateCatalogPackageFile :: "(string \<Rightarrow> string) \<Rightarrow> disk \<Rightarrow> catalog_descriptor \<Rightarrow> (package_error, unit) result" where
  "ValidateCatalogPackageFile sha disk d =
     (case read_file disk (de_path d) of
        None \<Rightarrow> Inl CatalogRead
      | Some raw \<Rightarrow> if sha raw \<noteq> de_sha d then Inl CatalogChecksum else Inr ())"

definition binding_pairs :: "catalog_descriptor \<Rightarrow> canonical_input \<Rightarrow> (string \<times> string \<times> string) list" where
  "binding_pairs d i =
     [(''provider'', de_provider d, ci_provider i), (''catalog_id'', de_catalog d, ci_catalog i),
      (''component_id'', de_component d, ci_component i), (''component_version'', de_version d, ci_version i),
      (''catalog_package_sha256'', de_sha d, ci_sha i), (''normalization_profile'', de_profile d, ci_profile i)]"

definition validateInputBinding :: "catalog_descriptor \<Rightarrow> canonical_input \<Rightarrow> (package_error, unit) result" where
  "validateInputBinding d i =
     (if ci_schema i \<noteq> ''openwatchlist.canonical-projection-input.v1'' then Inl InputSchema
      else first_err (\<lambda>(name, want, have). guard_err (want \<noteq> have) (InputBinding name)) (binding_pairs d i))"

definition LoadCatalogDescriptor :: "package_env \<Rightarrow> disk \<Rightarrow> string \<Rightarrow> (package_error, catalog_descriptor) result" where
  "LoadCatalogDescriptor env disk path =
     (case Option.bind (read_file disk path) (pe_descriptor env) of
        None \<Rightarrow> Inl DescriptorDecode
      | Some d0 \<Rightarrow>
          (let d = (if de_path d0 \<noteq> [] \<and> \<not> IsAbs (de_path d0)
                    then d0\<lparr>de_path := Clean (Join2 (Dir path) (de_path d0))\<rparr> else d0)
           in res_bind (validateCatalogDescriptor (pe_uni env) d)
                (\<lambda>_. res_bind (ValidateCatalogPackageFile (pe_sha env) disk d) (\<lambda>_. Inr d))))"

definition LoadCanonicalInput :: "package_env \<Rightarrow> disk \<Rightarrow> string \<Rightarrow> (package_error, canonical_input) result" where
  "LoadCanonicalInput env disk path =
     (case Option.bind (read_file disk path) (pe_input env) of
        None \<Rightarrow> Inl InputDecode
      | Some i \<Rightarrow> if ci_schema i \<noteq> ''openwatchlist.canonical-projection-input.v1'' then Inl InputSchema else Inr i)"

section \<open>Reading a package\<close>

text \<open>The identifiers of the payload, which must be non-empty and strictly increasing.\<close>

fun payload_ids :: "string \<Rightarrow> candidate list \<Rightarrow> string list option" where
  "payload_ids prev [] = Some []"
| "payload_ids prev (c # cs) =
     (let i = TrimSpace (cd_id c) in
      if i = [] \<or> (prev \<noteq> [] \<and> i \<le> prev) then None
      else map_option (\<lambda>is. i # is) (payload_ids i cs))"

definition check_package ::
  "package_env \<Rightarrow> string \<Rightarrow> string \<Rightarrow> string \<Rightarrow> string \<Rightarrow> string \<Rightarrow> (package_error, package) result" where
  "check_package env directory manifestRaw projectionRaw filesRaw packageRaw =
     (let sha = pe_sha env in
      case pe_manifest env manifestRaw of
        None \<Rightarrow> Inl ManifestDecode
      | Some m \<Rightarrow>
          if ma_schema m \<noteq> ''openwatchlist.scoring-projection-package-manifest.v1'' then Inl ManifestSchema
          else (case pe_document env projectionRaw of
                  None \<Rightarrow> Inl PayloadDecode
                | Some p \<Rightarrow>
                    if pd_schema p \<noteq> ''openwatchlist.candidate-projection-registry.v1'' then Inl PayloadSchema
                    else if int (length (pd_candidates p)) \<noteq> ma_projections m then Inl PayloadCount
                    else (case payload_ids [] (pd_candidates p) of
                            None \<Rightarrow> Inl PayloadIds
                          | Some ids \<Rightarrow>
                              if digestCandidateIDs sha ids \<noteq> ma_ids_sha m then Inl PayloadCoverage
                              else if sha projectionRaw \<noteq> ma_projections_sha m then Inl PayloadChecksum
                              else if filesRaw \<noteq> files_sha256 (sha manifestRaw) (sha projectionRaw) then Inl FilesMismatch
                              else if TrimSpace packageRaw \<noteq> sha filesRaw then Inl PackageMismatch
                              else if Base (Clean directory) \<noteq> sha filesRaw then Inl NotChecksumAddressed
                              else Inr \<lparr>pk_directory = directory, pk_sha = sha filesRaw, pk_manifest = m,
                                        pk_projections = p, pk_manifest_path = Join2 directory ''manifest.json'',
                                        pk_projections_path = Join2 directory ''projections.json''\<rparr>)))"

definition LoadPackage :: "package_env \<Rightarrow> disk \<Rightarrow> string \<Rightarrow> (package_error, package) result" where
  "LoadPackage env disk directory =
     (case read_file disk (Join2 directory ''manifest.json'') of
        None \<Rightarrow> Inl ReadManifest
      | Some manifestRaw \<Rightarrow>
          (case read_file disk (Join2 directory ''projections.json'') of
             None \<Rightarrow> Inl ReadPayload
           | Some projectionRaw \<Rightarrow>
               (case read_file disk (Join2 directory ''FILES.sha256'') of
                  None \<Rightarrow> Inl ReadFiles
                | Some filesRaw \<Rightarrow>
                    (case read_file disk (Join2 directory ''PACKAGE.sha256'') of
                       None \<Rightarrow> Inl ReadPackage
                     | Some packageRaw \<Rightarrow>
                         check_package env directory manifestRaw projectionRaw filesRaw packageRaw))))"

section \<open>Compiling a package\<close>

text \<open>The loop over the records, with the identifiers seen so far.\<close>

fun compile_loop :: "unicode \<Rightarrow> string list \<Rightarrow> source_record list \<Rightarrow> (package_error, (string \<times> candidate) list) result" where
  "compile_loop u seen [] = Inr []"
| "compile_loop u seen (r # rs) =
     (let i = TrimSpace (sr_id r) in
      if i = [] then Inl EmptyCandidateId
      else if i \<in> set seen then Inl (DuplicateCandidateId i)
      else if \<not> sr_retrievable r then compile_loop u (i # seen) rs
      else res_bind (compile_loop u (i # seen) rs) (\<lambda>ps. Inr ((i, normalizeRecord u r) # ps)))"

definition compiled_document :: "(string \<times> candidate) list \<Rightarrow> projection_document" where
  "compiled_document projections =
     \<lparr>pd_schema = ''openwatchlist.candidate-projection-registry.v1'',
      pd_candidates = map snd (sort_by (\<lambda>a b. fst a < fst b) projections)\<rparr>"

definition compiled_manifest :: "catalog_descriptor \<Rightarrow> projection_document \<Rightarrow> string \<Rightarrow> string \<Rightarrow> manifest" where
  "compiled_manifest d document ids_digest projection_digest =
     \<lparr>ma_schema = ''openwatchlist.scoring-projection-package-manifest.v1'', ma_provider = de_provider d,
      ma_catalog = de_catalog d, ma_component = de_component d, ma_version = de_version d,
      ma_catalog_sha = de_sha d, ma_profile = de_profile d, ma_source_records = de_records d,
      ma_projections = int (length (pd_candidates document)), ma_ids_sha = ids_digest,
      ma_projections_sha = projection_digest, ma_compiler = ''openwatchlist-projection-package-go-v1''\<rparr>"

definition package_files :: "(string \<Rightarrow> string) \<Rightarrow> string \<Rightarrow> string \<Rightarrow> (string, string) fmap" where
  "package_files sha manifestBytes projectionBytes =
     (let files = files_sha256 (sha manifestBytes) (sha projectionBytes) in
      fmap_of_list [(''manifest.json'', manifestBytes), (''projections.json'', projectionBytes),
        (''FILES.sha256'', files), (''PACKAGE.sha256'', sha files @ newline)])"

text \<open>What is checked and computed before anything is written: the bytes of the two documents.\<close>

definition compile_bytes ::
  "package_env \<Rightarrow> catalog_descriptor \<Rightarrow> canonical_input \<Rightarrow> (package_error, string \<times> string) result" where
  "compile_bytes env d i =
     res_bind (validateCatalogDescriptor (pe_uni env) d) (\<lambda>_.
     res_bind (validateInputBinding d i) (\<lambda>_.
     res_bind (guard_err (int (length (ci_records i)) \<noteq> de_records d) RecordCount) (\<lambda>_.
     res_bind (compile_loop (pe_uni env) [] (ci_records i)) (\<lambda>projections.
     res_bind (guard_err (int (length projections) \<noteq> de_retrievable d) RetrievableCount) (\<lambda>_.
     let ids_digest = digestCandidateIDs (pe_sha env) (sort (map fst projections)) in
     res_bind (guard_err (ids_digest \<noteq> de_ids_sha d) CoverageChecksum) (\<lambda>_.
     let document = compiled_document projections;
         projectionBytes = marshalCanonical (document_json document);
         manifest = compiled_manifest d document ids_digest (pe_sha env projectionBytes)
     in Inr (marshalCanonical (manifest_json manifest), projectionBytes)))))))"

text \<open>\<^verbatim>\<open>os.MkdirAll\<close> as far as the disk records directories, and \<^verbatim>\<open>os.Rename\<close> of a directory.\<close>

definition ensure_dir :: "string \<Rightarrow> disk \<Rightarrow> disk" where
  "ensure_dir p disk = (if dir_exists disk p then disk else fmupd (dir_key p) fmempty disk)"

definition rename_dir :: "string \<Rightarrow> string \<Rightarrow> disk \<Rightarrow> disk" where
  "rename_dir a b disk =
     (case fmlookup disk (dir_key a) of None \<Rightarrow> disk | Some fs \<Rightarrow> fmupd (dir_key b) fs (fmdrop (dir_key a) disk))"

text \<open>
  \<open>suffix\<close> is the random end of the name of the temporary directory. An existing package is read and
  kept; otherwise the temporary directory becomes the package.
\<close>

definition Compile ::
  "package_env \<Rightarrow> catalog_descriptor \<Rightarrow> canonical_input \<Rightarrow> string \<Rightarrow> string \<Rightarrow> disk \<Rightarrow> (package_error, package) result \<times> disk" where
  "Compile env d i outputRoot suffix disk =
     (case compile_bytes env d i of
        Inl e \<Rightarrow> (Inl e, disk)
      | Inr (manifestBytes, projectionBytes) \<Rightarrow>
          (let sha = pe_sha env;
               packageDigest = sha (files_sha256 (sha manifestBytes) (sha projectionBytes))
           in if outputRoot = [] then (Inl OutputRoot, disk)
              else (let rooted = ensure_dir outputRoot disk;
                        final = Join2 outputRoot packageDigest;
                        temporary = Join2 outputRoot (''.projection-package-'' @ suffix);
                        written = fmupd (dir_key temporary) (package_files sha manifestBytes projectionBytes) rooted
                    in if dir_exists written final
                       then (map_error ExistingInvalid (LoadPackage env written final), fmdrop (dir_key temporary) written)
                       else (let renamed = rename_dir temporary final written
                             in (LoadPackage env renamed final, renamed)))))"

section \<open>Laws\<close>

text \<open>The copies of the normalisers agree with the originals.\<close>

lemma pp_normalizers [simp]:
  "pp_normalizeText = normalizeText" "pp_normalizeIdentifierType = normalizeIdentifierType"
  "pp_normalizeIdentifierValue = normalizeIdentifierValue" "pp_normalizeCountry = normalizeCountry"
  "pp_normalizeEntityType = normalizeEntityType" "pp_uniqueSorted = uniqueSorted"
  by (auto simp: fun_eq_iff pp_normalizeText_def normalizeText_def pp_normalizeIdentifierType_def
      normalizeIdentifierType_def pp_normalizeIdentifierValue_def normalizeIdentifierValue_def
      pp_normalizeCountry_def normalizeCountry_def pp_normalizeEntityType_def normalizeEntityType_def
      pp_uniqueSorted_def uniqueSorted_def)

text \<open>The successful outcomes of the loop over the records.\<close>

lemma compile_loop_Inr:
  "compile_loop u seen rs = Inr ps \<longleftrightarrow>
     [] \<notin> (\<lambda>r. TrimSpace (sr_id r)) ` set rs \<and> distinct (map (\<lambda>r. TrimSpace (sr_id r)) rs)
     \<and> set seen \<inter> (\<lambda>r. TrimSpace (sr_id r)) ` set rs = {}
     \<and> ps = map (\<lambda>r. (TrimSpace (sr_id r), normalizeRecord u r)) (filter sr_retrievable rs)"
  by (induction u seen rs arbitrary: ps rule: compile_loop.induct) (auto simp: Let_def)

lemma payload_ids_sorted:
  assumes "sorted_wrt (<) (map (\<lambda>c. TrimSpace (cd_id c)) cs)"
    and "[] \<notin> (\<lambda>c. TrimSpace (cd_id c)) ` set cs"
    and "\<forall>c \<in> set cs. prev < TrimSpace (cd_id c)"
  shows "payload_ids prev cs = Some (map (\<lambda>c. TrimSpace (cd_id c)) cs)"
  using assms by (induction prev cs rule: payload_ids.induct) (auto simp: Let_def)

lemma payload_ids_Some:
  "payload_ids prev cs = Some ids \<Longrightarrow>
     ids = map (\<lambda>c. TrimSpace (cd_id c)) cs \<and> [] \<notin> set ids \<and> sorted_wrt (<) ids \<and> (prev \<noteq> [] \<longrightarrow> (\<forall>i \<in> set ids. prev < i))"
  by (induction prev cs arbitrary: ids rule: payload_ids.induct) (fastforce simp: Let_def split: if_splits)+

text \<open>What a package that loads is made of.\<close>

lemma check_package_Inr:
  assumes "check_package env dir mr pr fr kr = Inr p"
  shows "pe_manifest env mr = Some (pk_manifest p)" "pe_document env pr = Some (pk_projections p)"
    "fr = files_sha256 (pe_sha env mr) (pe_sha env pr)" "pk_sha p = pe_sha env fr" "Base (Clean dir) = pk_sha p"
    "ma_projections_sha (pk_manifest p) = pe_sha env pr"
    "payload_ids [] (pd_candidates (pk_projections p)) \<noteq> None"
  using assms by (auto simp: check_package_def Let_def split: option.splits if_splits)

lemma LoadPackage_Inr:
  "LoadPackage env disk dir = Inr p \<longleftrightarrow>
     (\<exists>mr pr fr kr. read_file disk (Join2 dir ''manifest.json'') = Some mr
        \<and> read_file disk (Join2 dir ''projections.json'') = Some pr
        \<and> read_file disk (Join2 dir ''FILES.sha256'') = Some fr \<and> read_file disk (Join2 dir ''PACKAGE.sha256'') = Some kr
        \<and> check_package env dir mr pr fr kr = Inr p)"
  by (auto simp: LoadPackage_def split: option.splits)

lemma package_names: "plain_name ''manifest.json''" "plain_name ''projections.json''" "plain_name ''FILES.sha256''" "plain_name ''PACKAGE.sha256''"
  by (simp_all add: plain_name_def slash_def)

lemma LoadPackage_directory:
  assumes "dir \<noteq> []" and "fmlookup disk (dir_key dir) = Some (package_files sha mb pb)"
  shows "LoadPackage env disk dir =
    check_package env dir mb pb (files_sha256 (sha mb) (sha pb)) (sha (files_sha256 (sha mb) (sha pb)) @ newline)"
  unfolding LoadPackage_def
  by (simp add: read_file_in [OF assms(1) _ assms(2)] package_names package_files_def Let_def fmap_of_list.rep_eq)

text \<open>Only the package's own directory matters.\<close>

lemma LoadPackage_frame:
  assumes "dir \<noteq> []" and "fmlookup disk (dir_key dir) = fmlookup disk' (dir_key dir)"
  shows "LoadPackage env disk dir = LoadPackage env disk' dir"
proof -
  have "read_file disk (Join2 dir n) = read_file disk' (Join2 dir n)" if "plain_name n" for n
    using assms that by (simp add: read_file_def Join2_name Join2_parts(1) dir_key_def)
  then show ?thesis
    by (simp only: LoadPackage_def package_names)
qed

end
