(* ===== verification/Files.thy ===== *)
theory Files imports Prelude "HOL-Library.Finite_Map" begin

text \<open>
  Programs over a directory of files. A program reads the files and performs a sequence of atomic
  file writes (write to a temporary file and rename, or remove); its value is the list of writes it
  performed and its result. Cutting the list short models a crash between two writes.
\<close>

section \<open>Writes\<close>

datatype ('p, 'c) file_write = Put 'p 'c | Remove 'p

fun path_of :: "('p, 'c) file_write \<Rightarrow> 'p" where
  "path_of (Put p c) = p"
| "path_of (Remove p) = p"

fun content_of :: "('p, 'c) file_write \<Rightarrow> 'c option" where
  "content_of (Put p c) = Some c"
| "content_of (Remove p) = None"

type_synonym ('p, 'c) files = "('p, 'c) fmap"

fun apply_write :: "('p, 'c) file_write \<Rightarrow> ('p, 'c) files \<Rightarrow> ('p, 'c) files" where
  "apply_write (Put p c) d = fmupd p c d"
| "apply_write (Remove p) d = fmdrop p d"

definition apply_writes :: "('p, 'c) file_write list \<Rightarrow> ('p, 'c) files \<Rightarrow> ('p, 'c) files" where
  "apply_writes ws d = fold apply_write ws d"

lemma apply_writes_simps [simp]:
  "apply_writes [] d = d" "apply_writes (w # ws) d = apply_writes ws (apply_write w d)"
  "apply_writes (us @ ws) d = apply_writes ws (apply_writes us d)"
  by (simp_all add: apply_writes_def)

text \<open>A file holds what was last written to it.\<close>

lemma lookup_apply_write: "fmlookup (apply_write w d) p = (if path_of w = p then content_of w else fmlookup d p)"
  by (cases w) auto

fun last_write :: "'p \<Rightarrow> ('p, 'c) file_write list \<Rightarrow> 'c option \<Rightarrow> 'c option" where
  "last_write p [] c = c"
| "last_write p (w # ws) c = last_write p ws (if path_of w = p then content_of w else c)"

lemma lookup_apply_writes: "fmlookup (apply_writes ws d) p = last_write p ws (fmlookup d p)"
  by (induction ws arbitrary: d) (simp_all add: lookup_apply_write)

lemma last_write_untouched: "p \<notin> path_of ` set ws \<Longrightarrow> last_write p ws c = c"
  by (induction ws arbitrary: c) auto

lemma last_write_touched: "p \<in> path_of ` set ws \<Longrightarrow> last_write p ws c = last_write p ws c'"
  by (induction ws arbitrary: c c') (auto simp: last_write_untouched split: if_splits)

lemma lookup_untouched: "p \<notin> path_of ` set ws \<Longrightarrow> fmlookup (apply_writes ws d) p = fmlookup d p"
  by (simp add: lookup_apply_writes last_write_untouched)

text \<open>
  Redoing a log of writes after any of it has been performed gives what performing it once gives.
\<close>

theorem redo_writes:
  assumes "path_of ` set us \<subseteq> path_of ` set ws"
  shows "apply_writes ws (apply_writes us d) = apply_writes ws d"
proof (rule fmap_ext)
  fix p
  show "fmlookup (apply_writes ws (apply_writes us d)) p = fmlookup (apply_writes ws d) p"
  proof (cases "p \<in> path_of ` set ws")
    case True
    then show ?thesis
      by (simp add: lookup_apply_writes) (rule last_write_touched)
  next
    case False
    then have "p \<notin> path_of ` set us"
      using assms by blast
    then show ?thesis
      by (simp add: lookup_apply_writes last_write_untouched)
  qed
qed

section \<open>Programs\<close>

type_synonym ('p, 'c, 'e, 'a) prog = "('p, 'c) files \<Rightarrow> ('p, 'c) file_write list \<times> ('e, 'a) result"

definition ret :: "'a \<Rightarrow> ('p, 'c, 'e, 'a) prog" where
  "ret x d = ([], Inr x)"

definition failp :: "'e \<Rightarrow> ('p, 'c, 'e, 'a) prog" where
  "failp e d = ([], Inl e)"

definition readp :: "(('p, 'c) files \<Rightarrow> ('e, 'a) result) \<Rightarrow> ('p, 'c, 'e, 'a) prog" where
  "readp f d = ([], f d)"

definition writep :: "('p, 'c) file_write \<Rightarrow> ('p, 'c, 'e, unit) prog" where
  "writep w d = ([w], Inr ())"

definition andThen :: "('p, 'c, 'e, 'a) prog \<Rightarrow> ('a \<Rightarrow> ('p, 'c, 'e, 'b) prog) \<Rightarrow> ('p, 'c, 'e, 'b) prog" where
  "andThen p f d =
     (case p d of
        (ws, Inl e) \<Rightarrow> (ws, Inl e)
      | (ws, Inr x) \<Rightarrow> (case f x (apply_writes ws d) of (us, r) \<Rightarrow> (ws @ us, r)))"

definition lift_errors :: "('e \<Rightarrow> 'f) \<Rightarrow> ('p, 'c, 'e, 'a) prog \<Rightarrow> ('p, 'c, 'f, 'a) prog" where
  "lift_errors f p d = (case p d of (ws, r) \<Rightarrow> (ws, map_error f r))"

definition run :: "('p, 'c, 'e, 'a) prog \<Rightarrow> ('p, 'c) files \<Rightarrow> ('p, 'c) files" where
  "run p d = apply_writes (fst (p d)) d"

definition crash :: "nat \<Rightarrow> ('p, 'c, 'e, 'a) prog \<Rightarrow> ('p, 'c) files \<Rightarrow> ('p, 'c) files" where
  "crash k p d = apply_writes (take k (fst (p d))) d"

lemma prog_simps [simp]:
  "ret x d = ([], Inr x)" "failp e d = ([], Inl e)" "readp f d = ([], f d)" "writep w d = ([w], Inr ())"
  by (simp_all add: ret_def failp_def readp_def writep_def)

lemma andThen_ok:
  "andThen p f d = (ws, Inr y) \<longleftrightarrow>
     (\<exists>us vs x. p d = (us, Inr x) \<and> f x (apply_writes us d) = (vs, Inr y) \<and> ws = us @ vs)"
  by (auto simp: andThen_def split: prod.splits sum.splits)

lemma andThen_step: "p d = (us, Inr x) \<Longrightarrow> andThen p f d = (us @ fst (f x (apply_writes us d)), snd (f x (apply_writes us d)))"
  by (simp add: andThen_def split: prod.splits)

lemma andThen_fail: "p d = (us, Inl e) \<Longrightarrow> andThen p f d = (us, Inl e)"
  by (simp add: andThen_def)

lemma andThen_readp: "andThen (readp g) f d = (case g d of Inl e \<Rightarrow> ([], Inl e) | Inr x \<Rightarrow> f x d)"
  by (simp add: andThen_def split: sum.splits prod.splits)

lemma andThen_writep: "andThen (writep w) f d = (w # fst (f () (apply_write w d)), snd (f () (apply_write w d)))"
  by (simp add: andThen_def split: prod.splits)

text \<open>An immutable file: written once, and again only with the same content.\<close>

definition immutable :: "'e \<Rightarrow> 'p \<Rightarrow> 'c \<Rightarrow> ('p, 'c, 'e, unit) prog" where
  "immutable err p c d =
     (case fmlookup d p of
        None \<Rightarrow> ([Put p c], Inr ())
      | Some old \<Rightarrow> if old = c then ([], Inr ()) else ([], Inl err))"

lemma immutable_ok: "immutable err p c d = (ws, Inr u) \<longleftrightarrow>
    (fmlookup d p = None \<and> ws = [Put p c] \<or> fmlookup d p = Some c \<and> ws = [])"
  by (auto simp: immutable_def split: option.splits if_splits)

section \<open>Programs that keep an invariant\<close>

text \<open>
  Started on \<open>d\<close>, the program keeps \<open>I\<close> after every write, so also when it is cut off, and a successful
  run ends in \<open>Q\<close>.
\<close>

definition safe ::
  "(('p, 'c) files \<Rightarrow> bool) \<Rightarrow> ('p, 'c, 'e, 'a) prog \<Rightarrow> ('a \<Rightarrow> ('p, 'c) files \<Rightarrow> bool) \<Rightarrow> ('p, 'c) files \<Rightarrow> bool" where
  "safe I p Q d \<longleftrightarrow> (\<forall>k. I (crash k p d)) \<and> (\<forall>ws x. p d = (ws, Inr x) \<longrightarrow> Q x (apply_writes ws d))"

lemma safe_start: "safe I p Q d \<Longrightarrow> I d"
  unfolding safe_def crash_def by (metis apply_writes_simps(1) take_0)

lemma safe_end: "safe I p Q d \<Longrightarrow> p d = (ws, r) \<Longrightarrow> I (apply_writes ws d)"
  unfolding safe_def crash_def by (metis fst_conv take_all_iff order_refl)

lemma safe_crash: "safe I p Q d \<Longrightarrow> p d = (ws, r) \<Longrightarrow> I (apply_writes (take k ws) d)"
  unfolding safe_def crash_def by (metis fst_conv)

lemma safe_no_writes: "I d \<Longrightarrow> p d = ([], r) \<Longrightarrow> (\<And>x. r = Inr x \<Longrightarrow> Q x d) \<Longrightarrow> safe I p Q d"
  by (auto simp: safe_def crash_def)

lemma safe_ret [intro]: "I d \<Longrightarrow> Q x d \<Longrightarrow> safe I (ret x) Q d"
  by (rule safe_no_writes) auto

lemma safe_failp [intro]: "I d \<Longrightarrow> safe I (failp e) Q d"
  by (rule safe_no_writes) auto

lemma safe_readp: "I d \<Longrightarrow> (\<And>x. f d = Inr x \<Longrightarrow> Q x d) \<Longrightarrow> safe I (readp f) Q d"
  by (rule safe_no_writes) auto

lemma safe_writep: "I d \<Longrightarrow> I (apply_write w d) \<Longrightarrow> Q () (apply_write w d) \<Longrightarrow> safe I (writep w) Q d"
  by (auto simp: safe_def crash_def take_Cons')

lemma safe_immutable:
  assumes "I d" and "fmlookup d p = None \<Longrightarrow> I (fmupd p c d) \<and> Q () (fmupd p c d)" and "fmlookup d p = Some c \<Longrightarrow> Q () d"
  shows "safe I (immutable err p c) Q d"
proof -
  consider "fmlookup d p = None" | "fmlookup d p = Some c" | old where "fmlookup d p = Some old" "old \<noteq> c"
    by (cases "fmlookup d p") auto
  then show ?thesis
    by cases (use assms in \<open>auto simp: safe_def crash_def immutable_def take_Cons'\<close>)
qed

lemma safe_andThen:
  assumes p: "safe I p Q d" and f: "\<And>x d'. I d' \<Longrightarrow> Q x d' \<Longrightarrow> safe I (f x) R d'"
  shows "safe I (andThen p f) R d"
proof (cases "p d")
  case (Pair ws r)
  show ?thesis
  proof (cases r)
    case (Inl e)
    then show ?thesis
      using p Pair by (auto simp: safe_def crash_def andThen_def)
  next
    case (Inr x)
    have "Q x (apply_writes ws d)"
      using p Pair Inr by (simp add: safe_def)
    then have next_safe: "safe I (f x) R (apply_writes ws d)"
      by (rule f [OF safe_end [OF p Pair]])
    obtain us r' where u: "f x (apply_writes ws d) = (us, r')"
      by fastforce
    have res: "andThen p f d = (ws @ us, r')"
      by (simp add: andThen_def Pair Inr u)
    have "I (apply_writes (take k (ws @ us)) d)" for k
    proof (cases "k \<le> length ws")
      case True
      then show ?thesis
        using safe_crash [OF p Pair, of k] by simp
    next
      case False
      then show ?thesis
        using safe_crash [OF next_safe u, of "k - length ws"] by simp
    qed
    moreover have "r' = Inr y \<Longrightarrow> R y (apply_writes us (apply_writes ws d))" for y
      using next_safe u by (simp add: safe_def)
    ultimately show ?thesis
      by (simp add: safe_def crash_def res)
  qed
qed

text \<open>The rules in the form in which programs are stepped through.\<close>

lemma safe_step_readp: "I d \<Longrightarrow> (\<And>x. f d = Inr x \<Longrightarrow> safe I (g x) R d) \<Longrightarrow> safe I (andThen (readp f) g) R d"
  by (rule safe_andThen [where Q = "\<lambda>x d'. d' = d \<and> f d = Inr x"]) (auto intro: safe_readp simp del: prog_simps)

lemma safe_step_writep: "I d \<Longrightarrow> safe I (g ()) R (apply_write w d) \<Longrightarrow> safe I (andThen (writep w) g) R d"
  by (rule safe_andThen [where Q = "\<lambda>x d'. d' = apply_write w d"]) (auto intro: safe_writep safe_start simp del: prog_simps)

lemma safe_step: "safe I p (\<lambda>_. I) d \<Longrightarrow> (\<And>x d'. I d' \<Longrightarrow> safe I (f x) R d') \<Longrightarrow> safe I (andThen p f) R d"
  by (rule safe_andThen)

lemma safe_lift: "safe I p Q d \<Longrightarrow> safe I (lift_errors g p) Q d"
  by (cases "p d") (auto simp: safe_def crash_def lift_errors_def map_error_def split: sum.splits)

lemma safe_mono: "safe I p Q d \<Longrightarrow> (\<And>x d'. I d' \<Longrightarrow> Q x d' \<Longrightarrow> R x d') \<Longrightarrow> safe I p R d"
  using safe_end unfolding safe_def by metis

section \<open>Publishing\<close>

text \<open>
  The interface between a register that names one active document and its clients: publishing
  moves the register from an expected document to another, touches only its own files, and the
  active document depends on those files alone.
\<close>

locale publisher =
  fixes publish :: "string \<Rightarrow> string \<Rightarrow> ('p, 'c, 'e, 'a) prog"
    and active :: "('p, 'c) files \<Rightarrow> string option"
    and own :: "'p \<Rightarrow> bool"
    and good :: "('p, 'c) files \<Rightarrow> bool"
  assumes publish_from: "publish t c d = (ws, Inr x) \<Longrightarrow> active d = Some c"
    and publish_to: "good d \<Longrightarrow> publish t c d = (ws, Inr x) \<Longrightarrow> active (apply_writes ws d) = Some t"
    and publish_own: "publish t c d = (ws, r) \<Longrightarrow> path_of ` set ws \<subseteq> Collect own"
    and active_own: "(\<And>p. own p \<Longrightarrow> fmlookup d p = fmlookup d' p) \<Longrightarrow> active d = active d'"
begin

lemma active_frame: "path_of ` set ws \<inter> Collect own = {} \<Longrightarrow> active (apply_writes ws d) = active d"
  by (rule active_own) (auto intro: lookup_untouched)

text \<open>A publication followed by writes to other files leaves the published document active.\<close>

lemma publish_then:
  assumes "good d" and "publish t c d = (ws, Inr x)" and "path_of ` set us \<inter> Collect own = {}"
  shows "active (apply_writes us (apply_writes ws d)) = Some t"
  using publish_to [OF assms(1,2)] active_frame [OF assms(3)] by simp

lemma publish_other_files: "publish t c d = (ws, r) \<Longrightarrow> \<not> own p \<Longrightarrow> fmlookup (apply_writes ws d) p = fmlookup d p"
  using publish_own by (intro lookup_untouched) blast

text \<open>Publishing twice from the same document fails unless it was published onto itself.\<close>

lemma publish_twice: "good d \<Longrightarrow> publish t c d = (ws, Inr x) \<Longrightarrow> t \<noteq> c \<Longrightarrow> publish t' c (apply_writes ws d) \<noteq> (us, Inr y)"
proof
  assume "good d" "publish t c d = (ws, Inr x)" "t \<noteq> c" "publish t' c (apply_writes ws d) = (us, Inr y)"
  then show False
    using publish_to [of d t c ws x] publish_from [of t' c "apply_writes ws d" us y] by simp
qed

end

end
