(* ===== verification/ActivationData.thy ===== *)
theory ActivationData imports ProjectionPackage Files begin

text \<open>
  Data of scoring activations (\<^verbatim>\<open>internal/scoringactivation/types.go\<close>) and of controlled promotions
  (\<^verbatim>\<open>internal/activationpromotion/types.go\<close>), the files of their two state directories, and the encoded
  forms that are hashed.
\<close>

section \<open>Scoring activations\<close>

record projection_binding =
  pb_path :: string
  pb_sha :: string
  pb_projections_sha :: string
  pb_count :: int
  pb_ids_sha :: string

record policy_binding =
  pl_path :: string
  pl_id :: string
  pl_version :: string
  pl_sha :: string
  pl_profile :: string

record activation =
  av_schema :: string
  av_id :: string
  av_previous :: string
  av_catalog :: catalog_descriptor
  av_projection :: projection_binding
  av_policy :: policy_binding

record activate_request =
  aq_id :: string
  aq_descriptor_path :: string
  aq_package_path :: string
  aq_policy_path :: string

record snapshot =
  sn_activation :: activation
  sn_package :: package
  sn_policy :: loaded_policy

record activation_pending =
  pn_schema :: string
  pn_target :: string
  pn_previous :: string

section \<open>Promotions\<close>

record promotion_thresholds =
  th_score_delta :: int
  th_top_bps :: int
  th_set_bps :: int
  th_coverage_loss :: int
  th_blockers :: int

record intent =
  it_schema :: string
  it_id :: string
  it_created :: string
  it_operator :: string
  it_reason :: string
  it_current :: string
  it_current_sha :: string
  it_candidate :: string
  it_candidate_sha :: string
  it_bps :: int
  it_allowlist :: "string list"
  it_acks :: int
  it_thresholds :: promotion_thresholds

record promotion_state =
  ps_schema :: string
  ps_intent :: string
  ps_revision :: "64 word"
  ps_phase :: string
  ps_current :: string
  ps_candidate :: string
  ps_updated :: string
  ps_report :: string
  ps_blockers :: "string list"

record promotion_event =
  pv_schema :: string
  pv_sequence :: "64 word"
  pv_timestamp :: string
  pv_type :: string
  pv_intent :: string
  pv_revision :: "64 word"
  pv_actor :: string
  pv_reason :: string
  pv_payload :: "(string \<times> json) list"
  pv_previous :: string
  pv_sha :: string

record promotion_head =
  ph_schema :: string
  ph_sequence :: "64 word"
  ph_sha :: string

record ack =
  ak_schema :: string
  ak_intent :: string
  ak_instance :: string
  ak_activation :: string
  ak_status :: string
  ak_observed :: string
  ak_tuple :: string

record shadow_observation =
  so_schema :: string
  so_intent :: string
  so_correlation :: string
  so_observed :: string
  so_current_sha :: string
  so_candidate_sha :: string
  so_items :: int
  so_set_changes :: int
  so_top_changes :: int
  so_max_delta :: int
  so_coverage_loss :: int
  so_blockers :: int
  so_sha :: string

record shadow_summary =
  ss_schema :: string
  ss_intent :: string
  ss_generated :: string
  ss_observations :: int
  ss_items :: int
  ss_set_changes :: int
  ss_top_changes :: int
  ss_max_delta :: int
  ss_coverage_loss :: int
  ss_blockers :: int
  ss_set_bps :: int
  ss_top_bps :: int
  ss_sha :: string

record promotion_pending =
  pp_schema :: string
  pp_state :: promotion_state
  pp_event :: promotion_event

record promotion_status =
  st_intent :: intent
  st_state :: promotion_state
  st_ready :: int
  st_head :: promotion_head

record prepare_request =
  pq_intent :: string
  pq_candidate :: string
  pq_operator :: string
  pq_reason :: string
  pq_bps :: int
  pq_allowlist :: "string list"
  pq_acks :: int
  pq_thresholds :: promotion_thresholds

section \<open>Files\<close>

text \<open>
  One constructor per path function of the two managers, one per document type. A file holds the
  decoded document; equality of documents is equality of their canonical bytes.
\<close>

datatype state_path =
    ActivePath | ActivationPendingPath | ActivationPath string
  | PromotionPath | PromotionPendingPath | AuditHeadPath | IntentPath string
  | SnapshotPath string "64 word" | ReportPath string string | ObservationPath string string
  | AckPath string string | AuditPath "64 word" string

datatype state_file =
    ActivationFile activation | ActivationPendingFile activation_pending
  | PromotionFile promotion_state | PromotionPendingFile promotion_pending | AuditHeadFile promotion_head
  | IntentFile intent | ReportFile shadow_summary | ObservationFile shadow_observation | AckFile ack
  | AuditFile promotion_event

type_synonym state_files = "(state_path, state_file) files"

type_synonym state_write = "(state_path, state_file) file_write"

fun as_activation :: "state_file \<Rightarrow> activation option" where
  "as_activation (ActivationFile a) = Some a"
| "as_activation _ = None"

fun as_activation_pending :: "state_file \<Rightarrow> activation_pending option" where
  "as_activation_pending (ActivationPendingFile a) = Some a"
| "as_activation_pending _ = None"

fun as_state :: "state_file \<Rightarrow> promotion_state option" where
  "as_state (PromotionFile a) = Some a"
| "as_state _ = None"

fun as_pending :: "state_file \<Rightarrow> promotion_pending option" where
  "as_pending (PromotionPendingFile a) = Some a"
| "as_pending _ = None"

fun as_head :: "state_file \<Rightarrow> promotion_head option" where
  "as_head (AuditHeadFile a) = Some a"
| "as_head _ = None"

fun as_intent :: "state_file \<Rightarrow> intent option" where
  "as_intent (IntentFile a) = Some a"
| "as_intent _ = None"

fun as_observation :: "state_file \<Rightarrow> shadow_observation option" where
  "as_observation (ObservationFile a) = Some a"
| "as_observation _ = None"

fun as_ack :: "state_file \<Rightarrow> ack option" where
  "as_ack (AckFile a) = Some a"
| "as_ack _ = None"

fun as_event :: "state_file \<Rightarrow> promotion_event option" where
  "as_event (AuditFile a) = Some a"
| "as_event _ = None"

lemma as_Some [simp]:
  "as_activation c = Some a \<longleftrightarrow> c = ActivationFile a" "as_activation_pending c = Some pn \<longleftrightarrow> c = ActivationPendingFile pn"
  "as_state c = Some s \<longleftrightarrow> c = PromotionFile s" "as_pending c = Some pp \<longleftrightarrow> c = PromotionPendingFile pp"
  "as_head c = Some h \<longleftrightarrow> c = AuditHeadFile h" "as_intent c = Some i \<longleftrightarrow> c = IntentFile i"
  "as_observation c = Some ob \<longleftrightarrow> c = ObservationFile ob" "as_ack c = Some k \<longleftrightarrow> c = AckFile k"
  "as_event c = Some ev \<longleftrightarrow> c = AuditFile ev"
  by (cases c; auto)+

text \<open>Strict decoding of a file: it may be missing, or hold something else.\<close>

definition decodeStrictFile ::
  "'e \<Rightarrow> 'e \<Rightarrow> (state_file \<Rightarrow> 'a option) \<Rightarrow> state_path \<Rightarrow> state_files \<Rightarrow> ('e, 'a) result" where
  "decodeStrictFile missing bad sel p d =
     (case fmlookup d p of
        None \<Rightarrow> Inl missing
      | Some c \<Rightarrow> (case sel c of None \<Rightarrow> Inl bad | Some x \<Rightarrow> Inr x))"

lemma decodeStrictFile_Inr:
  "decodeStrictFile missing bad sel p d = Inr x \<longleftrightarrow> (\<exists>c. fmlookup d p = Some c \<and> sel c = Some x)"
  by (auto simp: decodeStrictFile_def split: option.splits)

lemma decodeStrictFile_cong: "fmlookup d p = fmlookup d' p \<Longrightarrow> decodeStrictFile m b sel p d = decodeStrictFile m b sel p d'"
  by (simp add: decodeStrictFile_def)

text \<open>Safe identifiers: a letter or digit, then at most 127 letters, digits, dots, underscores or hyphens.\<close>

definition alnum :: "char \<Rightarrow> bool" where
  "alnum c \<longleftrightarrow> is_upper_az (byte_of c) \<or> is_lower_az (byte_of c) \<or> is_09 (byte_of c)"

definition safe_identifier :: "string \<Rightarrow> bool" where
  "safe_identifier s \<longleftrightarrow> s \<noteq> [] \<and> length s \<le> 128 \<and> alnum (hd s)
     \<and> list_all (\<lambda>c. alnum c \<or> c \<in> set ''._-'') (tl s)"

section \<open>Encoded forms\<close>

definition descriptor_json :: "catalog_descriptor \<Rightarrow> json" where
  "descriptor_json d = JObj (fld ''schema_version'' (JStr (de_schema d)) @ fld ''provider'' (JStr (de_provider d))
     @ fld ''catalog_id'' (JStr (de_catalog d)) @ fld ''component_id'' (JStr (de_component d))
     @ fld ''component_version'' (JStr (de_version d)) @ fld ''catalog_package_sha256'' (JStr (de_sha d))
     @ fld ''catalog_package_path'' (JStr (de_path d)) @ fld ''normalization_profile'' (JStr (de_profile d))
     @ fld ''record_count'' (JInt (de_records d)) @ fld ''retrievable_candidate_count'' (JInt (de_retrievable d))
     @ fld ''retrievable_candidate_ids_sha256'' (JStr (de_ids_sha d)))"

definition projection_binding_json :: "projection_binding \<Rightarrow> json" where
  "projection_binding_json b = JObj (fld ''package_path'' (JStr (pb_path b)) @ fld ''package_sha256'' (JStr (pb_sha b))
     @ fld ''projections_sha256'' (JStr (pb_projections_sha b)) @ fld ''projection_count'' (JInt (pb_count b))
     @ fld ''candidate_ids_sha256'' (JStr (pb_ids_sha b)))"

definition policy_binding_json :: "policy_binding \<Rightarrow> json" where
  "policy_binding_json b = JObj (fld ''path'' (JStr (pl_path b)) @ fld ''policy_id'' (JStr (pl_id b))
     @ fld ''policy_version'' (JStr (pl_version b)) @ fld ''policy_sha256'' (JStr (pl_sha b))
     @ fld ''normalization_profile'' (JStr (pl_profile b)))"

definition activation_json :: "activation \<Rightarrow> json" where
  "activation_json a = JObj (fld ''schema_version'' (JStr (av_schema a)) @ fld ''activation_id'' (JStr (av_id a))
     @ opt_str ''previous_activation_id'' (av_previous a) @ fld ''catalog'' (descriptor_json (av_catalog a))
     @ fld ''projection'' (projection_binding_json (av_projection a)) @ fld ''policy'' (policy_binding_json (av_policy a)))"

text \<open>Members of a payload are written in key order; an empty payload is omitted.\<close>

definition promotion_event_json :: "promotion_event \<Rightarrow> json" where
  "promotion_event_json e = JObj (fld ''schema_version'' (JStr (pv_schema e)) @ fld ''sequence'' (JInt (sint (pv_sequence e)))
     @ fld ''timestamp'' (JStr (pv_timestamp e)) @ fld ''event_type'' (JStr (pv_type e))
     @ fld ''intent_id'' (JStr (pv_intent e)) @ fld ''revision'' (JInt (sint (pv_revision e)))
     @ fld ''actor'' (JStr (pv_actor e)) @ opt_str ''reason'' (pv_reason e)
     @ opt ''payload'' (pv_payload e = []) (JObj (sort_members (pv_payload e)))
     @ opt_str ''previous_event_sha256'' (pv_previous e) @ fld ''event_sha256'' (JStr (pv_sha e)))"

definition observation_json :: "shadow_observation \<Rightarrow> json" where
  "observation_json s = JObj (fld ''schema_version'' (JStr (so_schema s)) @ fld ''intent_id'' (JStr (so_intent s))
     @ fld ''correlation_id'' (JStr (so_correlation s)) @ fld ''observed_at'' (JStr (so_observed s))
     @ fld ''current_response_sha256'' (JStr (so_current_sha s)) @ fld ''candidate_response_sha256'' (JStr (so_candidate_sha s))
     @ fld ''screening_items'' (JInt (so_items s)) @ fld ''candidate_set_changes'' (JInt (so_set_changes s))
     @ fld ''top_candidate_changes'' (JInt (so_top_changes s)) @ fld ''max_absolute_score_delta'' (JInt (so_max_delta s))
     @ fld ''coverage_loss_count'' (JInt (so_coverage_loss s)) @ fld ''additional_blocker_count'' (JInt (so_blockers s))
     @ fld ''observation_sha256'' (JStr (so_sha s)))"

definition summary_json :: "shadow_summary \<Rightarrow> json" where
  "summary_json s = JObj (fld ''schema_version'' (JStr (ss_schema s)) @ fld ''intent_id'' (JStr (ss_intent s))
     @ fld ''generated_at'' (JStr (ss_generated s)) @ fld ''observation_count'' (JInt (ss_observations s))
     @ fld ''screening_items'' (JInt (ss_items s)) @ fld ''candidate_set_changes'' (JInt (ss_set_changes s))
     @ fld ''top_candidate_changes'' (JInt (ss_top_changes s)) @ fld ''max_absolute_score_delta'' (JInt (ss_max_delta s))
     @ fld ''coverage_loss_count'' (JInt (ss_coverage_loss s)) @ fld ''additional_blocker_count'' (JInt (ss_blockers s))
     @ fld ''candidate_set_change_bps'' (JInt (ss_set_bps s)) @ fld ''top_candidate_change_bps'' (JInt (ss_top_bps s))
     @ fld ''summary_sha256'' (JStr (ss_sha s)))"

end
