(* ===== verification/ScoringActivation.thy ===== *)
theory ScoringActivation imports ActivationData begin

text \<open>
  The scoring activation manager (\<^verbatim>\<open>internal/scoringactivation/manager.go\<close> and \<^verbatim>\<open>phase8f_promotion.go\<close>): immutable
  activation documents that bind a catalogue descriptor, a projection package and a scoring policy,
  and one active document that moves between them under a pending record.

  Operations are programs over the files of the state directory (theory \<open>Files\<close>); catalogue
  descriptors, packages and policies are read from a disk, which they do not change.
\<close>

section \<open>Environment and errors\<close>

record activation_env = package_env +
  ae_policy :: "string \<Rightarrow> scoring_policy option"
  ae_cwd :: string
  ae_state :: string

datatype activation_error =
    BadActivationId | PackageError package_error | PolicyRead | PolicyError scoring_error
  | TupleMismatch string | TupleCounts | TupleProfile
  | NoSuchDocument | UndecodableDocument | DifferentBytes | NotRelative
  | NoPreviousActivation | InvalidDocument | ProjectionBindingMismatch | PolicyBindingMismatch
  | PendingSchema | ActivationCas string string | NotLinked

type_synonym 'a activation_prog = "(state_path, state_file, activation_error, 'a) prog"

section \<open>Loading and binding the three artefacts\<close>

definition LoadPolicy :: "activation_env \<Rightarrow> disk \<Rightarrow> string \<Rightarrow> (activation_error, loaded_policy) result" where
  "LoadPolicy env art path =
     (case read_file art path of
        None \<Rightarrow> Inl PolicyRead
      | Some raw \<Rightarrow> map_error PolicyError (ParsePolicy (pe_sha env) (ae_policy env) raw))"

definition tuple_checks :: "catalog_descriptor \<Rightarrow> manifest \<Rightarrow> (string \<times> string \<times> string) list" where
  "tuple_checks d m =
     [(''provider'', de_provider d, ma_provider m), (''catalog_id'', de_catalog d, ma_catalog m),
      (''component_id'', de_component d, ma_component m), (''component_version'', de_version d, ma_version m),
      (''catalog_package_sha256'', de_sha d, ma_catalog_sha m), (''normalization_profile'', de_profile d, ma_profile m)]"

definition validateTuple ::
  "activation_env \<Rightarrow> disk \<Rightarrow> catalog_descriptor \<Rightarrow> package \<Rightarrow> loaded_policy \<Rightarrow> (activation_error, unit) result" where
  "validateTuple env art d pkg po =
     (let m = pk_manifest pkg in
      res_bind (map_error PackageError (ValidateCatalogPackageFile (pe_sha env) art d)) (\<lambda>_.
      res_bind (first_err (\<lambda>(name, want, have). guard_err (want \<noteq> have) (TupleMismatch name)) (tuple_checks d m)) (\<lambda>_.
      if ma_source_records m \<noteq> de_records d \<or> ma_projections m \<noteq> de_retrievable d \<or> ma_ids_sha m \<noteq> de_ids_sha d
      then Inl TupleCounts
      else if sp_profile (lp_policy po) \<noteq> de_profile d then Inl TupleProfile
      else Inr ())))"

definition load_artefacts ::
  "activation_env \<Rightarrow> disk \<Rightarrow> activate_request \<Rightarrow> (activation_error, catalog_descriptor \<times> package \<times> loaded_policy) result" where
  "load_artefacts env art q =
     res_bind (map_error PackageError (LoadCatalogDescriptor (package_env.truncate env) art (Abs (ae_cwd env) (aq_descriptor_path q)))) (\<lambda>d.
     res_bind (map_error PackageError (LoadPackage (package_env.truncate env) art (Abs (ae_cwd env) (aq_package_path q)))) (\<lambda>pkg.
     res_bind (LoadPolicy env art (Abs (ae_cwd env) (aq_policy_path q))) (\<lambda>po.
     res_bind (validateTuple env art d pkg po) (\<lambda>_. Inr (d, pkg, po)))))"

definition bind_activation ::
  "string \<Rightarrow> string \<Rightarrow> catalog_descriptor \<Rightarrow> package \<Rightarrow> string \<Rightarrow> loaded_policy \<Rightarrow> string \<Rightarrow> activation" where
  "bind_activation aid previous d pkg package_path po policy_path =
     \<lparr>av_schema = ''openwatchlist.scoring-activation.v1'', av_id = aid, av_previous = previous, av_catalog = d,
      av_projection = \<lparr>pb_path = package_path, pb_sha = pk_sha pkg,
         pb_projections_sha = ma_projections_sha (pk_manifest pkg), pb_count = ma_projections (pk_manifest pkg),
         pb_ids_sha = ma_ids_sha (pk_manifest pkg)\<rparr>,
      av_policy = \<lparr>pl_path = policy_path, pl_id = sp_id (lp_policy po), pl_version = sp_version (lp_policy po),
         pl_sha = lp_sha po, pl_profile = sp_profile (lp_policy po)\<rparr>\<rparr>"

section \<open>Paths kept in documents\<close>

definition resolvePath :: "string \<Rightarrow> string \<Rightarrow> string" where
  "resolvePath base v = (if v = [] \<or> IsAbs v then v else Clean (Join2 base v))"

definition relativeToStateDirectory :: "string \<Rightarrow> string \<Rightarrow> (activation_error, string) result" where
  "relativeToStateDirectory state path =
     (if path = [] then Inr []
      else (case Rel state path of None \<Rightarrow> Inl NotRelative | Some r \<Rightarrow> Inr r))"

definition resolveActivationPaths :: "activation_env \<Rightarrow> activation \<Rightarrow> activation" where
  "resolveActivationPaths env a =
     a\<lparr>av_catalog := (av_catalog a)\<lparr>de_path := resolvePath (ae_state env) (de_path (av_catalog a))\<rparr>,
       av_projection := (av_projection a)\<lparr>pb_path := resolvePath (ae_state env) (pb_path (av_projection a))\<rparr>,
       av_policy := (av_policy a)\<lparr>pl_path := resolvePath (ae_state env) (pl_path (av_policy a))\<rparr>\<rparr>"

section \<open>Documents\<close>

definition loadActiveDocument :: "state_files \<Rightarrow> (activation_error, activation) result" where
  "loadActiveDocument = decodeStrictFile NoSuchDocument UndecodableDocument as_activation ActivePath"

definition loadActivationDocument :: "string \<Rightarrow> state_files \<Rightarrow> (activation_error, activation) result" where
  "loadActivationDocument aid = decodeStrictFile NoSuchDocument UndecodableDocument as_activation (ActivationPath aid)"

definition validateActivation :: "activation_env \<Rightarrow> disk \<Rightarrow> activation \<Rightarrow> (activation_error, snapshot) result" where
  "validateActivation env art a0 =
     (if av_schema a0 \<noteq> ''openwatchlist.scoring-activation.v1'' \<or> \<not> safe_identifier (av_id a0) then Inl InvalidDocument
      else (let a = resolveActivationPaths env a0; b = av_projection a; c = av_policy a in
        res_bind (map_error PackageError (LoadPackage (package_env.truncate env) art (pb_path b))) (\<lambda>pkg.
        res_bind (LoadPolicy env art (pl_path c)) (\<lambda>po.
        res_bind (validateTuple env art (av_catalog a) pkg po) (\<lambda>_.
        if pk_sha pkg \<noteq> pb_sha b \<or> ma_projections_sha (pk_manifest pkg) \<noteq> pb_projections_sha b
           \<or> ma_projections (pk_manifest pkg) \<noteq> pb_count b \<or> ma_ids_sha (pk_manifest pkg) \<noteq> pb_ids_sha b
        then Inl ProjectionBindingMismatch
        else if lp_sha po \<noteq> pl_sha c \<or> sp_id (lp_policy po) \<noteq> pl_id c \<or> sp_version (lp_policy po) \<noteq> pl_version c
           \<or> sp_profile (lp_policy po) \<noteq> pl_profile c
        then Inl PolicyBindingMismatch
        else Inr \<lparr>sn_activation = a, sn_package = pkg, sn_policy = po\<rparr>)))))"

definition LoadActive :: "activation_env \<Rightarrow> disk \<Rightarrow> state_files \<Rightarrow> (activation_error, snapshot) result" where
  "LoadActive env art d = res_bind (loadActiveDocument d) (validateActivation env art)"

definition LoadActivation :: "activation_env \<Rightarrow> disk \<Rightarrow> string \<Rightarrow> state_files \<Rightarrow> (activation_error, snapshot) result" where
  "LoadActivation env art aid d =
     (if \<not> safe_identifier aid then Inl BadActivationId
      else res_bind (loadActivationDocument aid d) (validateActivation env art))"

definition LookupActiveCandidate ::
  "activation_env \<Rightarrow> disk \<Rightarrow> string \<Rightarrow> state_files \<Rightarrow> (activation_error, candidate option) result" where
  "LookupActiveCandidate env art cid d =
     res_bind (LoadActive env art d) (\<lambda>s.
       Inr (find (\<lambda>c. cd_id c = TrimSpace cid) (pd_candidates (pk_projections (sn_package s)))))"

section \<open>Moving the active document\<close>

text \<open>The pending record, the active document and the removal of the record, in this order.\<close>

definition pending_record :: "string \<Rightarrow> string \<Rightarrow> state_file" where
  "pending_record target previous =
     ActivationPendingFile \<lparr>pn_schema = ''openwatchlist.scoring-activation-pending.v1'', pn_target = target, pn_previous = previous\<rparr>"

definition move_active :: "activation \<Rightarrow> string \<Rightarrow> unit activation_prog" where
  "move_active target previous =
     andThen (writep (Put ActivationPendingPath (pending_record (av_id target) previous))) (\<lambda>_.
     andThen (writep (Put ActivePath (ActivationFile target))) (\<lambda>_.
     writep (Remove ActivationPendingPath)))"

definition previous_id :: "state_files \<Rightarrow> (activation_error, string) result" where
  "previous_id d =
     (case loadActiveDocument d of
        Inr current \<Rightarrow> Inr (av_id current)
      | Inl NoSuchDocument \<Rightarrow> Inr []
      | Inl e \<Rightarrow> Inl e)"

definition Activate :: "activation_env \<Rightarrow> disk \<Rightarrow> activate_request \<Rightarrow> snapshot activation_prog" where
  "Activate env art q =
     (if \<not> safe_identifier (aq_id q) then failp BadActivationId
      else
        andThen (readp (\<lambda>_. load_artefacts env art q)) (\<lambda>(de, pkg, po).
        andThen (readp previous_id) (\<lambda>previous.
        andThen (readp (\<lambda>_. relativeToStateDirectory (ae_state env) (de_path de))) (\<lambda>catalogPath.
        andThen (readp (\<lambda>_. relativeToStateDirectory (ae_state env) (Abs (ae_cwd env) (aq_package_path q)))) (\<lambda>packagePath.
        andThen (readp (\<lambda>_. relativeToStateDirectory (ae_state env) (Abs (ae_cwd env) (aq_policy_path q)))) (\<lambda>policyPath.
        let a = bind_activation (aq_id q) previous (de\<lparr>de_path := catalogPath\<rparr>) pkg packagePath po policyPath in
        andThen (immutable DifferentBytes (ActivationPath (av_id a)) (ActivationFile a)) (\<lambda>_.
        andThen (move_active a previous) (\<lambda>_.
        ret \<lparr>sn_activation = a, sn_package = pkg, sn_policy = po\<rparr>))))))))"

definition Rollback :: "activation_env \<Rightarrow> disk \<Rightarrow> snapshot activation_prog" where
  "Rollback env art =
     andThen (readp loadActiveDocument) (\<lambda>active.
     if av_previous active = [] then failp NoPreviousActivation
     else
       andThen (readp (loadActivationDocument (av_previous active))) (\<lambda>previous.
       andThen (readp (\<lambda>_. validateActivation env art previous)) (\<lambda>snapshot.
       andThen (move_active previous (av_id active)) (\<lambda>_. ret snapshot))))"

text \<open>The outcomes of \<^verbatim>\<open>Recover\<close>: \<^verbatim>\<open>clean\<close>, \<^verbatim>\<open>completed\<close> or \<^verbatim>\<open>rolled_back\<close>.\<close>

definition move_completed :: "activation_env \<Rightarrow> disk \<Rightarrow> string \<Rightarrow> state_files \<Rightarrow> bool" where
  "move_completed env art target d =
     (case loadActiveDocument d of
        Inr active \<Rightarrow> av_id active = target \<and> is_ok (validateActivation env art active)
      | Inl _ \<Rightarrow> False)"

definition restore_previous :: "activation_env \<Rightarrow> disk \<Rightarrow> string \<Rightarrow> unit activation_prog" where
  "restore_previous env art previous =
     (if previous \<noteq> [] then
        andThen (readp (loadActivationDocument previous)) (\<lambda>a.
        andThen (readp (\<lambda>_. validateActivation env art a)) (\<lambda>_.
        writep (Put ActivePath (ActivationFile a))))
      else writep (Remove ActivePath))"

definition RecoverActivation :: "activation_env \<Rightarrow> disk \<Rightarrow> string activation_prog" where
  "RecoverActivation env art d =
     (case decodeStrictFile NoSuchDocument UndecodableDocument as_activation_pending ActivationPendingPath d of
        Inl NoSuchDocument \<Rightarrow> ret ''clean'' d
      | Inl e \<Rightarrow> failp e d
      | Inr pending \<Rightarrow>
          if pn_schema pending \<noteq> ''openwatchlist.scoring-activation-pending.v1'' then failp PendingSchema d
          else if move_completed env art (pn_target pending) d then
            andThen (writep (Remove ActivationPendingPath)) (\<lambda>_. ret ''completed'') d
          else
            andThen (restore_previous env art (pn_previous pending)) (\<lambda>_.
            andThen (writep (Remove ActivationPendingPath)) (\<lambda>_. ret ''rolled_back'')) d)"

section \<open>Staging and promotion\<close>

definition Stage :: "activation_env \<Rightarrow> disk \<Rightarrow> activate_request \<Rightarrow> string \<Rightarrow> snapshot activation_prog" where
  "Stage env art q expected0 =
     (if \<not> safe_identifier (aq_id q) then failp BadActivationId
      else
        andThen (readp (LoadActive env art)) (\<lambda>active.
        let current = av_id (sn_activation active);
            expected = (if expected0 = [] then current else expected0) in
        if current \<noteq> expected then failp (ActivationCas expected current)
        else
          andThen (readp (\<lambda>_. load_artefacts env art q)) (\<lambda>(de, pkg, po).
          let a = bind_activation (aq_id q) expected de pkg (Abs (ae_cwd env) (aq_package_path q)) po
                    (Abs (ae_cwd env) (aq_policy_path q)) in
          andThen (immutable DifferentBytes (ActivationPath (av_id a)) (ActivationFile a)) (\<lambda>_.
          ret \<lparr>sn_activation = a, sn_package = pkg, sn_policy = po\<rparr>))))"

definition PromoteExisting :: "activation_env \<Rightarrow> disk \<Rightarrow> string \<Rightarrow> string \<Rightarrow> snapshot activation_prog" where
  "PromoteExisting env art aid expected =
     andThen (readp (LoadActive env art)) (\<lambda>current.
     if av_id (sn_activation current) \<noteq> expected then failp (ActivationCas expected (av_id (sn_activation current)))
     else
       andThen (readp (LoadActivation env art aid)) (\<lambda>target.
       if av_previous (sn_activation target) \<noteq> expected \<and> aid \<noteq> av_previous (sn_activation current) then failp NotLinked
       else
         andThen (move_active (sn_activation target) (av_id (sn_activation current))) (\<lambda>_. ret target)))"

definition ActivationDigest :: "(string \<Rightarrow> string) \<Rightarrow> activation \<Rightarrow> string" where
  "ActivationDigest sha a = sha (marshalCanonical (activation_json a))"

text \<open>A stored document is its canonical form, so its digest is the digest of the document.\<close>

definition ActivationDocumentSHA256 :: "activation_env \<Rightarrow> string \<Rightarrow> state_files \<Rightarrow> (activation_error, string) result" where
  "ActivationDocumentSHA256 env aid d =
     (if \<not> safe_identifier aid then Inl BadActivationId
      else res_bind (loadActivationDocument aid d) (\<lambda>a. Inr (ActivationDigest (pe_sha env) a)))"

end
