(* ===== verification/ActivationProofs.thy ===== *)
theory ActivationProofs imports ScoringActivation begin

text \<open>
  What holds of every activation directory that the operations, crashes and recoveries can produce,
  and what recovery makes of an interrupted move.
\<close>

section \<open>Resolved paths\<close>

lemma drop_common_spec: "drop_common xs ys = (as, bs) \<Longrightarrow> \<exists>cs. xs = cs @ as \<and> ys = cs @ bs"
  by (induction xs ys rule: drop_common.induct) (auto split: if_splits intro: exI [of _ "_ # _"])

lemma resolve_ups: "''..'' \<notin> set (take n out) \<Longrightarrow> n \<le> length out \<Longrightarrow> resolve r out (replicate n ''..'' @ ps) = resolve r (drop n out) ps"
proof (induction n arbitrary: out)
  case (Suc n)
  then show ?case
    by (cases out) auto
qed simp

lemma part_dots: "part_ok ''..''"
  by (simp add: part_ok_def slash_def)

lemma components_print: "(\<forall>p \<in> set ps. part_ok p) \<Longrightarrow> components (print_path False ps) = ps"
  by (simp add: print_path_def components_Join) (simp add: components_def slash_def)

lemma abs_no_dots: "IsAbs s \<Longrightarrow> ''..'' \<notin> set (path_parts s)"
proof -
  assume "IsAbs s"
  then have "resolved True (path_parts s)"
    using path_parts_resolved [of s] by simp
  then show ?thesis
    by (cases "path_parts s") (auto split: if_splits)
qed

text \<open>An absolute path, made relative to the state directory and resolved again, is the cleaned path.\<close>

lemma resolve_relative:
  assumes base: "IsAbs base" and t: "IsAbs t"
  shows "\<exists>r. relativeToStateDirectory base t = Inr r \<and> resolvePath base r = Clean t"
proof -
  obtain up down where dc: "drop_common (path_parts base) (path_parts t) = (up, down)"
    by fastforce
  then obtain cs where cs: "path_parts base = cs @ up" "path_parts t = cs @ down"
    using drop_common_spec by blast
  have nodots: "''..'' \<notin> set up" "''..'' \<notin> set down" "''..'' \<notin> set cs"
    using abs_no_dots [OF base] abs_no_dots [OF t] cs by auto
  let ?ps = "replicate (length up) ''..'' @ down"
  let ?r = "print_path False ?ps"
  have parts: "\<forall>p \<in> set ?ps. part_ok p"
    using part_dots path_parts_ok [of _ t] cs(2) by auto
  have "up = [] \<or> hd up \<noteq> ''..''"
    using nodots(1) hd_in_set [of up] by metis
  then have "Rel base t = Some ?r"
    using base t dc by (auto simp: Rel_def)
  moreover have ne: "t \<noteq> []" "base \<noteq> []"
    using t base by (auto simp: IsAbs_def)
  ultimately have rel: "relativeToStateDirectory base t = Inr ?r"
    by (simp add: relativeToStateDirectory_def)
  have "\<not> IsAbs ?r"
    using Join_not_abs [OF parts] by (auto simp: print_path_def slash_def)
  moreover have "?r \<noteq> []"
    by (rule print_path_nonempty [OF parts])
  ultimately have res: "resolvePath base ?r = Clean (Join2 base ?r)"
    by (simp add: resolvePath_def)
  have "path_parts (Join2 base ?r) = resolve True (rev (path_parts base)) ?ps"
    using base ne(2) components_print [OF parts] by (simp add: Join2_parts(2))
  also have "\<dots> = resolve True (rev cs) down"
    using nodots(1) cs(1) by (subst resolve_ups) (auto dest: in_set_takeD)
  also have "\<dots> = path_parts t"
    using nodots(2) cs(2) by (simp add: resolve_plain)
  finally have "path_parts (Join2 base ?r) = path_parts t" .
  then have "Clean (Join2 base ?r) = Clean t"
    using base t ne(2) by (simp add: Clean_def Join2_parts(1))
  then show ?thesis
    using rel res by auto
qed

lemma resolvePath_abs: "IsAbs base \<Longrightarrow> v = [] \<or> resolvePath base v \<noteq> [] \<and> IsAbs (resolvePath base v)"
proof -
  assume "IsAbs base"
  then have "base \<noteq> []"
    by (auto simp: IsAbs_def)
  then show ?thesis
    using \<open>IsAbs base\<close> by (auto simp: resolvePath_def Join2_parts(1))
qed

lemma resolvePath_idem: "IsAbs base \<Longrightarrow> resolvePath base (resolvePath base v) = resolvePath base v"
  using resolvePath_abs [of base v] by (auto simp: resolvePath_def [of base "resolvePath base v"]) (simp add: resolvePath_def)

lemma resolve_idem: "IsAbs (ae_state env) \<Longrightarrow> resolveActivationPaths env (resolveActivationPaths env a) = resolveActivationPaths env a"
  by (simp add: resolveActivationPaths_def resolvePath_idem)

lemma resolve_fields [simp]:
  "av_id (resolveActivationPaths env a) = av_id a" "av_schema (resolveActivationPaths env a) = av_schema a"
  "av_previous (resolveActivationPaths env a) = av_previous a"
  by (simp_all add: resolveActivationPaths_def)

text \<open>Validation sees a document only through its resolved form.\<close>

definition same_resolved :: "activation_env \<Rightarrow> activation \<Rightarrow> activation \<Rightarrow> bool" where
  "same_resolved env a b \<longleftrightarrow> resolveActivationPaths env a = resolveActivationPaths env b"

lemma same_resolved_id: "same_resolved env a b \<Longrightarrow> av_id a = av_id b"
  unfolding same_resolved_def by (metis resolve_fields(1))

lemma validate_resolved:
  assumes "same_resolved env a b"
  shows "validateActivation env art a = validateActivation env art b"
proof -
  have r: "resolveActivationPaths env a = resolveActivationPaths env b"
    using assms by (simp add: same_resolved_def)
  then have "av_schema a = av_schema b" "av_id a = av_id b"
    by (metis resolve_fields)+
  then show ?thesis
    by (simp add: validateActivation_def r)
qed

lemma validate_snapshot: "validateActivation env art a = Inr s \<Longrightarrow> sn_activation s = resolveActivationPaths env a"
  by (auto simp: validateActivation_def Let_def split: if_splits)

section \<open>Operations and reachable directories\<close>

datatype activation_op =
    OpActivate activate_request | OpStage activate_request string | OpRollback | OpPromote string string

fun run_op :: "activation_env \<Rightarrow> disk \<Rightarrow> activation_op \<Rightarrow> snapshot activation_prog" where
  "run_op env art (OpActivate q) = Activate env art q"
| "run_op env art (OpStage q expected) = Stage env art q expected"
| "run_op env art OpRollback = Rollback env art"
| "run_op env art (OpPromote aid expected) = PromoteExisting env art aid expected"

text \<open>Any operation may be cut off after any of its writes; so may a recovery.\<close>

inductive activation_reach :: "activation_env \<Rightarrow> state_files \<Rightarrow> bool" for env where
  start: "activation_reach env fmempty"
| operation: "activation_reach env d \<Longrightarrow> activation_reach env (crash k (run_op env art op) d)"
| recovery: "activation_reach env d \<Longrightarrow> activation_reach env (crash k (RecoverActivation env art) d)"

text \<open>The identifier of the active document.\<close>

definition active_id :: "state_files \<Rightarrow> string option" where
  "active_id d = (case loadActiveDocument d of Inr a \<Rightarrow> Some (av_id a) | Inl _ \<Rightarrow> None)"

definition document :: "activation_env \<Rightarrow> state_files \<Rightarrow> activation \<Rightarrow> bool" where
  "document env d a \<longleftrightarrow> (\<exists>b. fmlookup d (ActivationPath (av_id a)) = Some (ActivationFile b) \<and> same_resolved env a b)"

definition optional_id :: "string \<Rightarrow> string option" where
  "optional_id s = (if s = [] then None else Some s)"

definition activation_ok :: "activation_env \<Rightarrow> state_files \<Rightarrow> bool" where
  "activation_ok env d \<longleftrightarrow>
     (\<forall>aid c. fmlookup d (ActivationPath aid) = Some c \<longrightarrow> (\<exists>a. c = ActivationFile a \<and> av_id a = aid))
     \<and> (\<forall>c. fmlookup d ActivePath = Some c \<longrightarrow> (\<exists>a. c = ActivationFile a \<and> document env d a \<and> av_id a \<noteq> []))
     \<and> (\<forall>c. fmlookup d ActivationPendingPath = Some c \<longrightarrow>
          (\<exists>target previous. c = pending_record target previous \<and> active_id d \<in> {Some target, optional_id previous}))"

lemma active_lookup: "loadActiveDocument d = Inr a \<longleftrightarrow> fmlookup d ActivePath = Some (ActivationFile a)"
  by (simp add: loadActiveDocument_def decodeStrictFile_Inr)

lemma document_lookup: "loadActivationDocument aid d = Inr a \<longleftrightarrow> fmlookup d (ActivationPath aid) = Some (ActivationFile a)"
  by (simp add: loadActivationDocument_def decodeStrictFile_Inr)

lemma active_id_cong: "fmlookup d ActivePath = fmlookup d' ActivePath \<Longrightarrow> active_id d = active_id d'"
  by (simp add: active_id_def loadActiveDocument_def decodeStrictFile_cong [of d ActivePath d'])

lemma active_id_Some: "fmlookup d ActivePath = Some (ActivationFile a) \<Longrightarrow> active_id d = Some (av_id a)"
  by (simp add: active_id_def active_lookup [symmetric])

lemma active_id_None: "fmlookup d ActivePath = None \<Longrightarrow> active_id d = None"
  by (simp add: active_id_def loadActiveDocument_def decodeStrictFile_def)

lemma ok_active:
  assumes "activation_ok env d"
  shows "(active_id d = None \<longleftrightarrow> fmlookup d ActivePath = None)
    \<and> (active_id d = Some i \<longleftrightarrow> (\<exists>a. fmlookup d ActivePath = Some (ActivationFile a) \<and> av_id a = i))"
  using assms by (cases "fmlookup d ActivePath") (auto simp: activation_ok_def active_id_None dest!: active_id_Some)

section \<open>The writes of an operation\<close>

text \<open>
  Every operation writes at most one new immutable document of its own name and then moves the active
  document to a stored one, from the one that was active.
\<close>

definition move_writes :: "activation \<Rightarrow> string \<Rightarrow> state_write list" where
  "move_writes target previous =
     [Put ActivationPendingPath (pending_record (av_id target) previous), Put ActivePath (ActivationFile target),
      Remove ActivationPendingPath]"

lemma move_active_writes: "move_active target previous d = (move_writes target previous, Inr ())"
  by (simp add: move_active_def andThen_writep move_writes_def)

definition new_document :: "state_write list \<Rightarrow> state_files \<Rightarrow> bool" where
  "new_document us d \<longleftrightarrow> us = [] \<or> (\<exists>a. us = [Put (ActivationPath (av_id a)) (ActivationFile a)]
     \<and> fmlookup d (ActivationPath (av_id a)) = None)"

definition legal_move :: "activation_env \<Rightarrow> state_write list \<Rightarrow> state_files \<Rightarrow> bool" where
  "legal_move env vs d \<longleftrightarrow> vs = [] \<or> (\<exists>target previous. vs = move_writes target previous \<and> document env d target
     \<and> active_id d = optional_id previous \<and> av_id target \<noteq> [])"

lemma safe_nonempty: "safe_identifier s \<Longrightarrow> s \<noteq> []"
  by (simp add: safe_identifier_def)

lemma previous_id_active: "activation_ok env d \<Longrightarrow> previous_id d = Inr p \<Longrightarrow> active_id d = optional_id p"
proof -
  assume ok: "activation_ok env d" and p: "previous_id d = Inr p"
  show ?thesis
  proof (cases "loadActiveDocument d")
    case (Inl e)
    then show ?thesis
      using p by (cases e) (auto simp: previous_id_def active_id_def optional_id_def)
  next
    case (Inr a)
    then have "av_id a \<noteq> []"
      using ok by (auto simp: activation_ok_def active_lookup)
    then show ?thesis
      using p Inr by (auto simp: previous_id_def active_id_def optional_id_def)
  qed
qed

lemma document_self: "fmlookup d (ActivationPath (av_id a)) = Some (ActivationFile a) \<Longrightarrow> document env d a"
  by (auto simp: document_def same_resolved_def)

lemma immutable_new:
  assumes "immutable e (ActivationPath (av_id a)) (ActivationFile a) d = (us, r)"
  shows "new_document us d \<and> (r = Inr x \<longrightarrow> document env (apply_writes us d) a)"
  using assms by (auto simp: immutable_def new_document_def split: option.splits if_splits intro: document_self)


lemma op_writes:
  assumes abs: "IsAbs (ae_state env)" and ok: "activation_ok env d" and run: "run_op env art op d = (ws, r)"
  shows "\<exists>us vs. ws = us @ vs \<and> new_document us d \<and> legal_move env vs (apply_writes us d)"
proof -
  have none: ?thesis if "ws = []"
    using that by (auto simp: new_document_def legal_move_def)
  have moved: ?thesis if "ws = move_writes t p" "document env d t" "active_id d = optional_id p" "av_id t \<noteq> []" for t p
    using that by (intro exI [of _ "[]"] exI [of _ ws]) (auto simp: new_document_def legal_move_def)
  have name: "av_id a = aid" if "fmlookup d (ActivationPath aid) = Some (ActivationFile a)" for aid a
    using ok that by (auto simp: activation_ok_def)
  show ?thesis
  proof (cases op)
    case (OpActivate q)
    let ?rel = "relativeToStateDirectory (ae_state env)"
    show ?thesis
    proof (cases "\<exists>de pkg po p cp pp lp. safe_identifier (aq_id q) \<and> load_artefacts env art q = Inr (de, pkg, po)
        \<and> previous_id d = Inr p \<and> ?rel (de_path de) = Inr cp \<and> ?rel (Abs (ae_cwd env) (aq_package_path q)) = Inr pp
        \<and> ?rel (Abs (ae_cwd env) (aq_policy_path q)) = Inr lp")
      case False
      then have "fst (run_op env art op d) = []"
        unfolding OpActivate run_op.simps Activate_def
        by (auto simp: andThen_readp split: sum.splits)
      then show ?thesis
        using run none by simp
    next
      case True
      then obtain de pkg po p cp pp lp where ids: "safe_identifier (aq_id q)" and art: "load_artefacts env art q = Inr (de, pkg, po)"
        and p: "previous_id d = Inr p" and rels: "?rel (de_path de) = Inr cp"
          "?rel (Abs (ae_cwd env) (aq_package_path q)) = Inr pp" "?rel (Abs (ae_cwd env) (aq_policy_path q)) = Inr lp"
        by blast
      define a where "a = bind_activation (aq_id q) p (de\<lparr>de_path := cp\<rparr>) pkg pp po lp"
      have aid: "av_id a = aq_id q"
        by (simp add: a_def bind_activation_def)
      obtain us ir where im: "immutable DifferentBytes (ActivationPath (av_id a)) (ActivationFile a) d = (us, ir)"
        by fastforce
      have nd: "new_document us d" "ir = Inr () \<Longrightarrow> document env (apply_writes us d) a"
        using immutable_new [OF im] by auto
      have run': "(ws, r) = andThen (\<lambda>_. (us, ir)) (\<lambda>_. andThen (move_active a p)
          (\<lambda>_. ret \<lparr>sn_activation = a, sn_package = pkg, sn_policy = po\<rparr>)) d"
        using run ids unfolding OpActivate run_op.simps Activate_def
        by (cases ir) (auto simp: andThen_readp art p rels Let_def a_def [symmetric] im andThen_def move_active_writes)
      show ?thesis
      proof (cases ir)
        case (Inl e)
        then have "ws = us"
          using run' by (simp add: andThen_def)
        then show ?thesis
          using nd(1) by (auto simp: legal_move_def)
      next
        case (Inr u)
        then have "ws = us @ move_writes a p"
          using run' by (simp add: andThen_def move_active_writes)
        moreover have "active_id (apply_writes us d) = optional_id p"
        proof -
          have "fmlookup (apply_writes us d) ActivePath = fmlookup d ActivePath"
            using nd(1) by (auto simp: new_document_def)
          then show ?thesis
            using active_id_cong previous_id_active [OF ok p] by metis
        qed
        ultimately show ?thesis
          using nd Inr aid safe_nonempty [OF ids] unfolding legal_move_def
          by (intro exI [of _ us] exI [of _ "move_writes a p"]) auto
      qed
    qed
  next
    case (OpStage q e0)
    have "ws = [] \<or> (\<exists>a ir. immutable DifferentBytes (ActivationPath (av_id a)) (ActivationFile a) d = (ws, ir))"
      using run unfolding OpStage run_op.simps Stage_def
      by (auto simp: andThen_readp Let_def andThen_def split: if_splits sum.splits prod.splits)
    then have "new_document ws d"
    proof (elim disjE exE)
      fix a ir
      assume "immutable DifferentBytes (ActivationPath (av_id a)) (ActivationFile a) d = (ws, ir)"
      from immutable_new [OF this] show ?thesis by blast
    qed (simp add: new_document_def)
    then show ?thesis
      by (intro exI [of _ ws] exI [of _ "[]"]) (simp add: legal_move_def)
  next
    case OpRollback
    have "ws = [] \<or> (\<exists>active previous. fmlookup d ActivePath = Some (ActivationFile active) \<and> av_previous active \<noteq> []
      \<and> fmlookup d (ActivationPath (av_previous active)) = Some (ActivationFile previous) \<and> ws = move_writes previous (av_id active))"
      using run unfolding OpRollback run_op.simps Rollback_def
      by (auto simp: andThen_readp andThen_def move_active_writes active_lookup document_lookup split: if_splits sum.splits)
    then show ?thesis
    proof (elim disjE exE conjE)
      fix active previous
      assume a: "fmlookup d ActivePath = Some (ActivationFile active)" "av_previous active \<noteq> []"
        "fmlookup d (ActivationPath (av_previous active)) = Some (ActivationFile previous)" "ws = move_writes previous (av_id active)"
      have "av_id active \<noteq> []"
        using ok a(1) by (auto simp: activation_ok_def)
      then have "active_id d = optional_id (av_id active)"
        using active_id_Some [OF a(1)] by (simp add: optional_id_def)
      moreover have "document env d previous"
        using a(3) name [OF a(3)] by (intro document_self) simp
      moreover have "av_id previous \<noteq> []"
        using a(2) name [OF a(3)] by simp
      ultimately show ?thesis
        using moved [OF a(4)] by blast
    qed (rule none)
  next
    case (OpPromote aid expected)
    have "ws = [] \<or> (\<exists>active doc. fmlookup d ActivePath = Some (ActivationFile active) \<and> safe_identifier aid
      \<and> fmlookup d (ActivationPath aid) = Some (ActivationFile doc)
      \<and> ws = move_writes (resolveActivationPaths env doc) (av_id active))"
      using run unfolding OpPromote run_op.simps PromoteExisting_def
      by (auto simp: andThen_readp andThen_def move_active_writes LoadActive_def LoadActivation_def active_lookup
          document_lookup dest!: validate_snapshot validate_snapshot [OF sym] split: if_splits sum.splits)
    then show ?thesis
    proof (elim disjE exE conjE)
      fix active doc
      assume a: "fmlookup d ActivePath = Some (ActivationFile active)" "safe_identifier aid"
        "fmlookup d (ActivationPath aid) = Some (ActivationFile doc)"
        "ws = move_writes (resolveActivationPaths env doc) (av_id active)"
      have "av_id active \<noteq> []"
        using ok a(1) by (auto simp: activation_ok_def)
      then have "active_id d = optional_id (av_id active)"
        using active_id_Some [OF a(1)] by (simp add: optional_id_def)
      moreover have "document env d (resolveActivationPaths env doc)"
        using a(3) name [OF a(3)] resolve_idem [OF abs, of doc] by (auto simp: document_def same_resolved_def)
      moreover have "av_id (resolveActivationPaths env doc) \<noteq> []"
        using a(2) name [OF a(3)] safe_nonempty by auto
      ultimately show ?thesis
        using moved [OF a(4)] by blast
    qed (rule none)
  qed
qed

section \<open>The invariant\<close>

lemma apply_move:
  "apply_writes (take k (move_writes t p)) d =
     (if k = 0 then d
      else if k = 1 then fmupd ActivationPendingPath (pending_record (av_id t) p) d
      else if k = 2 then fmupd ActivePath (ActivationFile t) (fmupd ActivationPendingPath (pending_record (av_id t) p) d)
      else fmdrop ActivationPendingPath (fmupd ActivePath (ActivationFile t) (fmupd ActivationPendingPath (pending_record (av_id t) p) d)))"
proof (cases "k \<ge> 3")
  case True
  then have "take k (move_writes t p) = move_writes t p"
    by (simp add: move_writes_def)
  then show ?thesis
    using True by (simp add: move_writes_def)
next
  case False
  then consider "k = 0" | "k = 1" | "k = 2"
    by linarith
  then show ?thesis
    by cases (simp_all add: move_writes_def numeral_2_eq_2)
qed

lemma ok_new_document:
  assumes "activation_ok env d" and "new_document us d"
  shows "activation_ok env (apply_writes us d)"
proof (cases us)
  case (Cons w ws)
  then obtain a where us: "us = [Put (ActivationPath (av_id a)) (ActivationFile a)]" and n: "fmlookup d (ActivationPath (av_id a)) = None"
    using assms(2) by (auto simp: new_document_def)
  let ?d = "apply_writes us d"
  have act: "fmlookup ?d ActivePath = fmlookup d ActivePath" "active_id ?d = active_id d"
    by (simp_all add: us active_id_def loadActiveDocument_def decodeStrictFile_def)
  have "document env d b \<Longrightarrow> document env ?d b" for b
    using n by (auto simp: document_def us)
  then show ?thesis
    using assms(1) act unfolding activation_ok_def by (auto simp: us)
qed (use assms in simp)

lemma ok_move:
  assumes ok: "activation_ok env d" and move: "legal_move env vs d"
  shows "activation_ok env (apply_writes (take k vs) d)"
proof (cases "vs = []")
  case False
  then obtain t p where vs: "vs = move_writes t p" and doc: "document env d t" and act: "active_id d = optional_id p"
    and ne: "av_id t \<noteq> []"
    using move by (auto simp: legal_move_def)
  let ?p = "fmupd ActivationPendingPath (pending_record (av_id t) p) d"
  let ?a = "fmupd ActivePath (ActivationFile t) ?p"
  have docs: "document env ?p b = document env d b" "document env ?a b = document env d b"
    "document env (fmdrop ActivationPendingPath ?a) b = document env d b" for b
    by (simp_all add: document_def)
  have ids: "active_id ?p = active_id d" "active_id ?a = Some (av_id t)"
    by (simp_all add: active_id_cong [of ?p d] active_id_Some)
  have "activation_ok env ?p"
    using ok act unfolding activation_ok_def docs ids by auto
  moreover have "activation_ok env ?a"
    using ok doc ne unfolding activation_ok_def docs ids by auto
  moreover have "activation_ok env (fmdrop ActivationPendingPath ?a)"
    using ok doc ne unfolding activation_ok_def docs by auto
  ultimately show ?thesis
    using ok unfolding vs apply_move by simp
qed (use ok in simp)


text \<open>What recovery writes.\<close>

lemma recovery_writes:
  assumes ok: "activation_ok env d" and rec: "RecoverActivation env art d = (us, r)"
  shows "us = [] \<or> us = [Remove ActivationPendingPath]
    \<or> (\<exists>a. us = [Put ActivePath (ActivationFile a), Remove ActivationPendingPath] \<and> document env d a \<and> av_id a \<noteq> []
        \<and> (\<exists>t. fmlookup d ActivationPendingPath = Some (pending_record t (av_id a))))
    \<or> (us = [Remove ActivePath, Remove ActivationPendingPath]
        \<and> (\<exists>t. fmlookup d ActivationPendingPath = Some (pending_record t [])))"
proof (cases "fmlookup d ActivationPendingPath")
  case None
  then show ?thesis
    using rec by (simp add: RecoverActivation_def decodeStrictFile_def)
next
  case (Some c)
  then obtain t p where c: "c = pending_record t p"
    using ok by (auto simp: activation_ok_def)
  then have pend: "decodeStrictFile NoSuchDocument UndecodableDocument as_activation_pending ActivationPendingPath d
      = Inr \<lparr>pn_schema = ''openwatchlist.scoring-activation-pending.v1'', pn_target = t, pn_previous = p\<rparr>"
    using Some by (simp add: decodeStrictFile_Inr pending_record_def)
  show ?thesis
  proof (cases "move_completed env art t d")
    case True
    then show ?thesis
      using rec by (auto simp: RecoverActivation_def pend andThen_writep)
  next
    case False
    then have rec': "andThen (restore_previous env art p) (\<lambda>_. andThen (writep (Remove ActivationPendingPath)) (\<lambda>_. ret ''rolled_back'')) d = (us, r)"
      using rec by (simp add: RecoverActivation_def pend)
    show ?thesis
    proof (cases "p = []")
      case True
      then show ?thesis
        using rec' Some c by (auto simp: restore_previous_def andThen_writep)
    next
      case False
      show ?thesis
      proof (cases "us = []")
        case False
        then obtain a where a: "fmlookup d (ActivationPath p) = Some (ActivationFile a)"
          and us: "us = [Put ActivePath (ActivationFile a), Remove ActivationPendingPath]"
          using rec' \<open>p \<noteq> []\<close> by (auto simp: restore_previous_def andThen_def document_lookup split: sum.splits)
        have "av_id a = p"
          using ok a by (auto simp: activation_ok_def)
        then show ?thesis
          using a us Some c \<open>p \<noteq> []\<close> by (auto intro!: document_self)
      qed simp
    qed
  qed
qed

lemma ok_recovery:
  assumes ok: "activation_ok env d" and rec: "RecoverActivation env art d = (us, r)"
  shows "activation_ok env (apply_writes (take k us) d)"
proof -
  have docs: "document env (fmdrop ActivationPendingPath d') b = document env d' b"
    "document env (fmupd ActivePath c d') b = document env d' b" "document env (fmdrop ActivePath d') b = document env d' b" for d' b c
    by (simp_all add: document_def)
  have drop: "activation_ok env (fmdrop ActivationPendingPath d')" if "activation_ok env d'" for d'
    using that unfolding activation_ok_def docs by auto
  have put: "activation_ok env (fmupd ActivePath (ActivationFile a) d)"
    if "document env d a" "av_id a \<noteq> []" "fmlookup d ActivationPendingPath = Some (pending_record t (av_id a))" for a t
    using ok that active_id_Some [of "fmupd ActivePath (ActivationFile a) d" a]
    unfolding activation_ok_def docs by (auto simp: pending_record_def optional_id_def)
  have rem: "activation_ok env (fmdrop ActivePath d)" if "fmlookup d ActivationPendingPath = Some (pending_record t [])" for t
    using ok that active_id_None [of "fmdrop ActivePath d"]
    unfolding activation_ok_def docs by (auto simp: pending_record_def optional_id_def)
  show ?thesis
    using recovery_writes [OF ok rec]
  proof (elim disjE exE conjE)
    assume "us = [Remove ActivationPendingPath]"
    then show ?thesis
      using ok drop by (cases k) auto
  next
    fix a t
    assume "us = [Put ActivePath (ActivationFile a), Remove ActivationPendingPath]" "document env d a" "av_id a \<noteq> []"
      "fmlookup d ActivationPendingPath = Some (pending_record t (av_id a))"
    then show ?thesis
      using ok drop put by (cases k; cases "k - 1") (auto simp: take_Cons' split: if_splits)
  next
    fix t
    assume "us = [Remove ActivePath, Remove ActivationPendingPath]" "fmlookup d ActivationPendingPath = Some (pending_record t [])"
    then show ?thesis
      using ok drop rem by (cases k; cases "k - 1") (auto simp: take_Cons' split: if_splits)
  qed (use ok in simp)
qed

lemma take_split: "\<exists>i j. take k (us @ vs) = take i us @ take j vs \<and> (j = 0 \<or> take i us = us)"
  by (rule exI [of _ k], rule exI [of _ "k - length us"]) (auto simp: not_le)

lemma new_document_take: "new_document us d \<Longrightarrow> new_document (take k us) d"
  by (cases k) (auto simp: new_document_def)

lemma activation_reach_ok:
  assumes abs: "IsAbs (ae_state env)"
  shows "activation_reach env d \<Longrightarrow> activation_ok env d"
proof (induction rule: activation_reach.induct)
  case start
  then show ?case
    by (simp add: activation_ok_def)
next
  case (operation d k art op)
  obtain ws r where run: "run_op env art op d = (ws, r)"
    by fastforce
  obtain us vs where ws: "ws = us @ vs" and nd: "new_document us d" and mv: "legal_move env vs (apply_writes us d)"
    using op_writes [OF abs operation.IH run] by blast
  obtain i j where t: "take k ws = take i us @ take j vs" "j = 0 \<or> take i us = us"
    using take_split ws by blast
  have "activation_ok env (apply_writes (take i us) d)"
    using ok_new_document [OF operation.IH new_document_take [OF nd]] .
  moreover have "activation_ok env (apply_writes (take j vs) (apply_writes us d))"
    using ok_move [OF ok_new_document [OF operation.IH nd] mv] .
  ultimately show ?case
    using t by (auto simp: crash_def run)
next
  case (recovery d k art)
  obtain us r where "RecoverActivation env art d = (us, r)"
    by fastforce
  then show ?case
    using ok_recovery [OF recovery.IH, of art us r k] by (simp add: crash_def)
qed


section \<open>Recovering an interrupted move\<close>

lemma recover_clean: "fmlookup d ActivationPendingPath = None \<Longrightarrow> RecoverActivation env art d = ([], Inr ''clean'')"
  by (simp add: RecoverActivation_def decodeStrictFile_def)

definition active_valid :: "activation_env \<Rightarrow> disk \<Rightarrow> state_files \<Rightarrow> bool" where
  "active_valid env art d \<longleftrightarrow> active_id d = None \<or> is_ok (LoadActive env art d)"

lemma recover_pending:
  assumes pend: "fmlookup d ActivationPendingPath = Some (pending_record t p)"
    and prev: "p \<noteq> [] \<Longrightarrow> \<exists>a. fmlookup d (ActivationPath p) = Some (ActivationFile a) \<and> av_id a = p \<and> is_ok (validateActivation env art a)"
  shows "\<exists>us out. RecoverActivation env art d = (us, Inr out) \<and> fmlookup (apply_writes us d) ActivationPendingPath = None
    \<and> active_id (apply_writes us d) \<in> {Some t, optional_id p} \<and> active_valid env art (apply_writes us d)"
proof -
  have pend': "decodeStrictFile NoSuchDocument UndecodableDocument as_activation_pending ActivationPendingPath d
      = Inr \<lparr>pn_schema = ''openwatchlist.scoring-activation-pending.v1'', pn_target = t, pn_previous = p\<rparr>"
    using pend by (simp add: decodeStrictFile_Inr pending_record_def)
  show ?thesis
  proof (cases "move_completed env art t d")
    case True
    then obtain a where a: "fmlookup d ActivePath = Some (ActivationFile a)" "av_id a = t" "is_ok (validateActivation env art a)"
      by (auto simp: move_completed_def active_lookup split: sum.splits)
    have "RecoverActivation env art d = ([Remove ActivationPendingPath], Inr ''completed'')"
      using True by (simp add: RecoverActivation_def pend' andThen_writep)
    moreover have l: "fmlookup (fmdrop ActivationPendingPath d) ActivePath = Some (ActivationFile a)"
      using a(1) by simp
    then have "active_valid env art (fmdrop ActivationPendingPath d)"
      using a(3) by (simp add: active_valid_def LoadActive_def active_lookup [THEN iffD2])
    ultimately show ?thesis
      using active_id_Some [OF l] a(2) by auto
  next
    case False
    have rec: "RecoverActivation env art d =
        andThen (restore_previous env art p) (\<lambda>_. andThen (writep (Remove ActivationPendingPath)) (\<lambda>_. ret ''rolled_back'')) d"
      using False by (simp add: RecoverActivation_def pend')
    show ?thesis
    proof (cases "p = []")
      case True
      then have "RecoverActivation env art d = ([Remove ActivePath, Remove ActivationPendingPath], Inr ''rolled_back'')"
        by (simp add: rec restore_previous_def andThen_writep)
      moreover have "active_id (fmdrop ActivationPendingPath (fmdrop ActivePath d)) = None"
        by (rule active_id_None) simp
      ultimately show ?thesis
        using True by (auto simp: optional_id_def active_valid_def)
    next
      case False
      then obtain a s where a: "fmlookup d (ActivationPath p) = Some (ActivationFile a)" "av_id a = p"
        and v: "validateActivation env art a = Inr s"
        using prev by (auto simp: is_ok_iff)
      have "RecoverActivation env art d = ([Put ActivePath (ActivationFile a), Remove ActivationPendingPath], Inr ''rolled_back'')"
        using False by (simp add: rec restore_previous_def andThen_def document_lookup [THEN iffD2, OF a(1)] v)
      moreover have l: "fmlookup (fmdrop ActivationPendingPath (fmupd ActivePath (ActivationFile a) d)) ActivePath = Some (ActivationFile a)"
        by simp
      then have "active_valid env art (fmdrop ActivationPendingPath (fmupd ActivePath (ActivationFile a) d))"
        using v by (simp add: active_valid_def LoadActive_def active_lookup [THEN iffD2])
      ultimately show ?thesis
        using active_id_Some [OF l] a(2) False by (auto simp: optional_id_def)
    qed
  qed
qed

text \<open>An operation cut off after any number of writes, then recovered.\<close>

lemma crash_then_recover:
  assumes abs: "IsAbs (ae_state env)" and ok: "activation_ok env d" and clean: "fmlookup d ActivationPendingPath = None"
    and valid: "active_valid env art' d" and run: "run_op env art op d = (ws, r)"
  shows "\<exists>us out. RecoverActivation env art' (apply_writes (take k ws) d) = (us, Inr out)
    \<and> fmlookup (apply_writes us (apply_writes (take k ws) d)) ActivationPendingPath = None
    \<and> active_id (apply_writes us (apply_writes (take k ws) d)) \<in> {active_id d, active_id (apply_writes ws d)}"
proof -
  obtain us vs where ws: "ws = us @ vs" and nd: "new_document us d" and mv: "legal_move env vs (apply_writes us d)"
    using op_writes [OF abs ok run] by blast
  obtain i j where t: "take k ws = take i us @ take j vs" "j = 0 \<or> take i us = us"
    using take_split ws by blast
  let ?d = "apply_writes us d"
  have same: "active_id (apply_writes xs d) = active_id d" "fmlookup (apply_writes xs d) ActivationPendingPath = None"
    if "new_document xs d" for xs
    using that clean by (auto simp: new_document_def intro: active_id_cong)
  show ?thesis
  proof (cases "j = 0 \<or> vs = []")
    case True
    then have "take k ws = take i us"
      using t by auto
    then show ?thesis
      using same [OF new_document_take [OF nd]] by (simp add: recover_clean)
  next
    case False
    then obtain tg p where vs: "vs = move_writes tg p" and act: "active_id ?d = optional_id p"
      using mv by (auto simp: legal_move_def)
    have k: "apply_writes (take k ws) d = apply_writes (take j (move_writes tg p)) ?d"
      using t False vs by simp
    let ?f = "apply_writes (take j (move_writes tg p)) ?d"
    have fin: "active_id (apply_writes ws d) = Some (av_id tg)"
      by (simp add: ws vs move_writes_def active_id_Some)
    have old: "optional_id p = active_id d"
      using act same(1) [OF nd] by simp
    show ?thesis
    proof (cases "j \<ge> 3")
      case True
      then have "fmlookup ?f ActivationPendingPath = None" "active_id ?f = Some (av_id tg)"
        by (simp_all add: apply_move active_id_Some)
      then show ?thesis
        unfolding k using fin by (simp add: recover_clean)
    next
      case small: False
      have pend: "fmlookup ?f ActivationPendingPath = Some (pending_record (av_id tg) p)"
        using small False by (simp add: apply_move)
      have "\<exists>a. fmlookup ?f (ActivationPath p) = Some (ActivationFile a) \<and> av_id a = p \<and> is_ok (validateActivation env art' a)"
        if "p \<noteq> []"
      proof -
        have "active_id d = Some p"
          using old that by (simp add: optional_id_def)
        then obtain a where a: "fmlookup d ActivePath = Some (ActivationFile a)" "av_id a = p"
          using ok_active [OF ok] by auto
        then obtain b where b: "fmlookup d (ActivationPath p) = Some (ActivationFile b)" "same_resolved env a b"
          using ok by (auto simp: activation_ok_def document_def)
        have "is_ok (validateActivation env art' a)"
          using valid \<open>active_id d = Some p\<close> a(1) by (simp add: active_valid_def LoadActive_def active_lookup [THEN iffD2])
        then have "is_ok (validateActivation env art' b)"
          using validate_resolved [OF b(2)] by simp
        moreover have "fmlookup ?d (ActivationPath p) = Some (ActivationFile b)"
          using nd b(1) by (auto simp: new_document_def)
        ultimately show ?thesis
          using same_resolved_id [OF b(2)] a(2) by (simp add: apply_move)
      qed
      from recover_pending [OF pend this] show ?thesis
        unfolding k fin using old by auto
    qed
  qed
qed


section \<open>Promotion as publication\<close>

definition docs_named :: "state_files \<Rightarrow> bool" where
  "docs_named d \<longleftrightarrow> (\<forall>aid a. fmlookup d (ActivationPath aid) = Some (ActivationFile a) \<longrightarrow> av_id a = aid)"

fun active_path :: "state_path \<Rightarrow> bool" where
  "active_path ActivePath = True"
| "active_path ActivationPendingPath = True"
| "active_path _ = False"

lemma PromoteExisting_Inr:
  assumes "PromoteExisting env art aid expected d = (ws, Inr s)"
  shows "\<exists>active doc. fmlookup d ActivePath = Some (ActivationFile active) \<and> av_id active = expected
    \<and> fmlookup d (ActivationPath aid) = Some (ActivationFile doc) \<and> ws = move_writes (resolveActivationPaths env doc) expected"
  using assms unfolding PromoteExisting_def
  by (auto simp: andThen_readp andThen_def move_active_writes LoadActive_def LoadActivation_def active_lookup
      document_lookup dest!: validate_snapshot validate_snapshot [OF sym] split: if_splits sum.splits)

lemma PromoteExisting_writes:
  assumes "PromoteExisting env art aid expected d = (ws, r)"
  shows "ws = [] \<or> (\<exists>t p. ws = move_writes t p)"
  using assms unfolding PromoteExisting_def
  by (auto simp: andThen_readp andThen_def move_active_writes split: if_splits sum.splits)

lemma move_writes_paths: "path_of ` set (move_writes t p) = {ActivePath, ActivationPendingPath}"
  by (auto simp: move_writes_def)

interpretation activations: publisher "PromoteExisting env art" active_id active_path docs_named for env art
proof unfold_locales
  fix t c d ws x
  assume p: "PromoteExisting env art t c d = (ws, Inr x)"
  show "active_id d = Some c"
    using PromoteExisting_Inr [OF p] by (auto simp: active_id_Some)
  assume "docs_named d"
  then show "active_id (apply_writes ws d) = Some t"
    using PromoteExisting_Inr [OF p] by (auto simp: docs_named_def move_writes_def active_id_Some)
next
  fix t c d ws r
  assume "PromoteExisting env art t c d = (ws, r)"
  from PromoteExisting_writes [OF this] show "path_of ` set ws \<subseteq> Collect active_path"
    by (auto simp: move_writes_def)
next
  fix d d' :: state_files
  assume "\<And>p. active_path p \<Longrightarrow> fmlookup d p = fmlookup d' p"
  then show "active_id d = active_id d'"
    by (intro active_id_cong) simp
qed

end
