(* ===== verification/ProjectionScore.thy ===== *)
theory ProjectionScore imports ScoringProps ProjectionPackage begin

text \<open>
  What the projection does to scoring: the normalised record of a candidate is a fixed point of the
  normalisers, and scoring it gives what scoring the catalogue record gives.
\<close>

section \<open>Normalising what is normalised\<close>

lemma map_ends:
  "xs = [] \<or> P (hd xs) \<and> P (last xs) \<Longrightarrow> (\<And>x. P x \<Longrightarrow> Q (f x)) \<Longrightarrow>
     (map f xs = [] \<or> Q (hd (map f xs))) \<and> (map f xs = [] \<or> Q (last (map f xs)))"
  by (cases "xs = []") (auto simp: hd_map last_map)

lemma image_fixed: "(\<And>y. y \<in> S \<Longrightarrow> f y = y) \<Longrightarrow> f ` S = S"
  by force

lemma map_of_by_key: "inj_on k (set xs) \<Longrightarrow> x \<in> set xs \<Longrightarrow> map_of (map (\<lambda>i. (k i, i)) xs) (k x) = Some x"
  by (induction xs) (auto simp: inj_on_def)

lemma normalizeText_encode:
  assumes "unicode_ok u" and "\<forall>r \<in> set xs. scalar r \<and> rune_upper u r = r"
    and "xs = [] \<or> \<not> IsSpace (hd xs)" and "xs = [] \<or> \<not> IsSpace (last xs)"
  shows "normalizeText u (encode xs) = TrimSpace (encode (text_loop u True xs))"
proof -
  have "TrimSpace (encode xs) = encode xs"
    using assms by (intro TrimSpace_encode_id) auto
  moreover have "runes (encode xs) = xs" "map (rune_upper u) xs = xs"
    using assms(2) by (auto intro: runes_encode map_idI)
  ultimately show ?thesis
    by (simp add: normalizeText_def runes_ToUpper [OF assms(1)])
qed

lemma scalar_top: "scalar r \<Longrightarrow> 240 + r div 262144 < 256"
  unfolding scalar_def by linarith

lemma high_bytes: "128 \<le> r \<Longrightarrow> c \<in> set (encode_rune r) \<Longrightarrow> 128 \<le> byte_of c"
  by (auto simp: encode_rune_def rune_error_def scalar_top split: if_splits)

lemma encode_rune_byte: "n < 128 \<Longrightarrow> byte n \<in> set (encode_rune r) \<longleftrightarrow> r = n"
  using high_bytes [of r "byte n"] by (cases "r < 128") (auto simp: encode_rune_ascii dest: arg_cong [of _ _ byte_of])

lemma space_byte: "space_ch = byte 32"
  using byte_byte_of [of space_ch] by (simp add: space_ch_def byte_of_def)

lemma underscore_byte: "CHR ''_'' = byte 95" and zero_byte: "CHR 0x00 = byte 0"
  using byte_byte_of [of "CHR ''_''"] byte_byte_of [of "CHR 0x00"] by (simp_all add: byte_of_def)

lemma replace_byte_free: "c \<notin> set s \<Longrightarrow> replace_byte s c new = s"
  by (induction s) (auto simp: replace_byte_def)

lemma replace_encode_rune: "replace_byte (encode_rune r) space_ch new = (if r = 32 then new else encode_rune r)"
proof (cases "r = 32")
  case True
  then show ?thesis
    by (simp add: encode_rune_ascii space_byte replace_byte_def)
next
  case False
  then have "space_ch \<notin> set (encode_rune r)"
    by (simp add: space_byte encode_rune_byte)
  then show ?thesis
    using False by (simp add: replace_byte_free)
qed

lemma replace_encode:
  "replace_byte (encode xs) space_ch new = concat (map (\<lambda>r. if r = 32 then new else encode_rune r) xs)"
proof (induction xs)
  case (Cons r xs)
  then show ?case
    using replace_encode_rune [of r new] by (simp add: encode_Cons replace_byte_def)
qed (simp add: replace_byte_def)

text \<open>Identifier types: spaces become underscores, which normalise to spaces again.\<close>

lemma separator_class [simp]: "\<not> IsLetter u 95" "\<not> IsDigit u 95" "\<not> IsLetter u 32" "\<not> IsDigit u 32"
  by (simp_all add: IsLetter_def IsDigit_def go_defs)

lemma text_loop_underscored: "spaced u b xs \<Longrightarrow> text_loop u b (map (\<lambda>r. if r = 32 then 95 else r) xs) = xs"
proof (induction u b xs rule: spaced.induct)
  case (2 u b r rs)
  then show ?case
    by (cases "r = 32") (simp_all split: if_splits)
qed simp

lemma text_loop_letters: "\<forall>r \<in> set xs. IsLetter u r \<or> IsDigit u r \<Longrightarrow> text_loop u b xs = xs"
  by (induction u b xs rule: text_loop.induct) auto

lemma type_runes: "normalizeIdentifierType u v = encode (map (\<lambda>r. if r = 32 then 95 else r) (text_runes u v))"
  if "unicode_ok u"
proof -
  have "(\<lambda>r. if r = 32 then ''_'' else encode_rune r) = (\<lambda>r. encode_rune (if r = 32 then 95 else r))"
    by (simp add: fun_eq_iff encode_rune_ascii underscore_byte)
  then show ?thesis
    using text_runes_facts(4) [OF that, of v]
    by (simp add: normalizeIdentifierType_def replace_encode) (simp add: encode_def comp_def)
qed

lemma value_runes: "normalizeIdentifierValue u v = encode (filter (\<lambda>r. r \<noteq> 32) (text_runes u v))" if "unicode_ok u"
proof -
  have "concat (map (\<lambda>r. if r = 32 then [] else encode_rune r) xs) = encode (filter (\<lambda>r. r \<noteq> 32) xs)" for xs
    by (induction xs) (simp_all add: encode_Cons)
  then show ?thesis
    using text_runes_facts(4) [OF that, of v] by (simp add: normalizeIdentifierValue_def replace_encode)
qed

lemma normalizeText_type:
  assumes u: "unicode_ok u"
  shows "normalizeText u (normalizeIdentifierType u v) = normalizeText u v"
proof -
  let ?t = "text_runes u v" and ?f = "\<lambda>r :: nat. if r = 32 then 95 else r"
  note facts = text_runes_facts [OF u, of v]
  have "\<forall>r \<in> set (map ?f ?t). scalar r \<and> rune_upper u r = r"
    using facts(1) by (auto simp: scalar_def rune_upper_def is_lower_az_def)
  moreover have f: "\<not> IsSpace r \<Longrightarrow> \<not> IsSpace (?f r)" for r
    by (simp add: IsSpace_def)
  then have "map ?f ?t = [] \<or> \<not> IsSpace (hd (map ?f ?t))" "map ?f ?t = [] \<or> \<not> IsSpace (last (map ?f ?t))"
    using map_ends [of ?t "\<lambda>r. \<not> IsSpace r" "\<lambda>r. \<not> IsSpace r" ?f] facts(3) by blast+
  ultimately have "normalizeText u (encode (map ?f ?t)) = TrimSpace (encode ?t)"
    using normalizeText_encode [OF u, of "map ?f ?t"] text_loop_underscored [OF facts(2)] by simp
  also have "\<dots> = encode ?t"
    using facts(1,3) by (intro TrimSpace_encode_id) auto
  finally show ?thesis
    by (simp add: type_runes [OF u] facts(4))
qed

lemma normalizeIdentifierType_idem: "unicode_ok u \<Longrightarrow> normalizeIdentifierType u (normalizeIdentifierType u v) = normalizeIdentifierType u v"
  by (simp add: normalizeIdentifierType_def [of u "normalizeIdentifierType u v"] normalizeText_type)
    (simp add: normalizeIdentifierType_def)

lemma normalizeText_value:
  assumes u: "unicode_ok u"
  shows "normalizeText u (normalizeIdentifierValue u v) = normalizeIdentifierValue u v"
proof -
  let ?t = "filter (\<lambda>r. r \<noteq> 32) (text_runes u v)"
  note facts = text_runes_facts [OF u, of v]
  have cls: "\<forall>r \<in> set ?t. IsLetter u r \<or> IsDigit u r"
    using spaced_class [OF facts(2)] by auto
  then have sp: "\<not> IsSpace r" if "r \<in> set ?t" for r
    using that facts(1) letter_digit_not_space [OF u] by auto
  have ends: "?t = [] \<or> \<not> IsSpace (hd ?t)" "?t = [] \<or> \<not> IsSpace (last ?t)"
    using sp hd_in_set [of ?t] last_in_set [of ?t] by blast+
  have "normalizeText u (encode ?t) = TrimSpace (encode ?t)"
    using facts(1) ends text_loop_letters [OF cls] by (subst normalizeText_encode [OF u]) auto
  also have "\<dots> = encode ?t"
    using facts(1) ends by (intro TrimSpace_encode_id) auto
  finally show ?thesis
    by (simp add: value_runes [OF u])
qed

lemma normalizeIdentifierValue_idem: "unicode_ok u \<Longrightarrow> normalizeIdentifierValue u (normalizeIdentifierValue u v) = normalizeIdentifierValue u v"
proof -
  assume u: "unicode_ok u"
  have "replace_byte (encode (filter (\<lambda>r. r \<noteq> 32) xs)) space_ch [] = encode (filter (\<lambda>r. r \<noteq> 32) xs)" for xs
    unfolding replace_encode by (induction xs) (simp_all add: encode_Cons)
  then show ?thesis
    by (simp add: normalizeIdentifierValue_def [of u "normalizeIdentifierValue u v"] normalizeText_value [OF u])
      (simp add: value_runes [OF u])
qed

lemma normalizeCountry_idem: "unicode_ok u \<Longrightarrow> normalizeCountry u (normalizeCountry u v) = normalizeCountry u v"
  using normalizeIdentifierValue_idem [of u v] by (simp add: normalizeCountry_def normalizeIdentifierValue_def)

lemma upper_word:
  assumes u: "unicode_ok u" and w: "list_all (\<lambda>c. is_upper_az (byte_of c)) w"
  shows "normalizeText u w = w"
proof -
  let ?t = "map byte_of w"
  have up: "\<forall>r \<in> set ?t. is_upper_az r"
    using w by (auto simp: list_all_iff)
  then have sp: "\<not> IsSpace r" if "r \<in> set ?t" for r
    using that by (auto simp: is_upper_az_def IsSpace_def)
  have w_eq: "encode ?t = w"
    using up by (subst encode_ascii) (auto simp: is_upper_az_def comp_def)
  have ok: "\<forall>r \<in> set ?t. scalar r \<and> rune_upper u r = r"
    using up by (auto simp: is_upper_az_def scalar_def rune_upper_def is_lower_az_def)
  have ends: "?t = [] \<or> \<not> IsSpace (hd ?t)" "?t = [] \<or> \<not> IsSpace (last ?t)"
    using sp hd_in_set [of ?t] last_in_set [of ?t] by blast+
  have "text_loop u True ?t = ?t"
    using up by (intro text_loop_letters) (auto simp: is_upper_az_def IsLetter_def)
  then have "normalizeText u (encode ?t) = TrimSpace (encode ?t)"
    using normalizeText_encode [OF u ok ends] by simp
  also have "\<dots> = encode ?t"
    using ok ends by (intro TrimSpace_encode_id) auto
  finally show ?thesis
    by (simp add: w_eq)
qed

lemma entity_words:
  "unicode_ok u \<Longrightarrow> normalizeText u ''PERSON'' = ''PERSON''"
  "unicode_ok u \<Longrightarrow> normalizeText u ''ORGANIZATION'' = ''ORGANIZATION''"
  "unicode_ok u \<Longrightarrow> normalizeText u ''VESSEL'' = ''VESSEL''"
  "unicode_ok u \<Longrightarrow> normalizeText u ''AIRCRAFT'' = ''AIRCRAFT''"
  by (rule upper_word; simp add: is_upper_az_def byte_of_def)+

lemma normalizeEntityType_idem:
  assumes u: "unicode_ok u"
  shows "normalizeEntityType u (normalizeEntityType u v) = normalizeEntityType u v"
proof -
  have words: "normalizeEntityType u w = w" if "w \<in> {''PERSON'', ''ORGANIZATION'', ''VESSEL'', ''AIRCRAFT''}" for w
    using that entity_words [OF u] by (auto simp: normalizeEntityType_def [of u w] Let_def)
  have "normalizeEntityType u v \<in> {''PERSON'', ''ORGANIZATION'', ''VESSEL'', ''AIRCRAFT''}
      \<or> normalizeEntityType u v = normalizeText u v"
    by (simp add: normalizeEntityType_def Let_def)
  moreover have "normalizeEntityType u (normalizeText u v) = normalizeEntityType u v"
    by (simp add: normalizeEntityType_def normalizeText_idem [OF u])
  ultimately show ?thesis
    using words by metis
qed

section \<open>Normalised attributes\<close>

lemma uniqueSorted_twice:
  assumes "\<And>x. f (g x) = f x" and "\<And>x. g x = [] \<Longrightarrow> f x = []"
  shows "uniqueSorted f (uniqueSorted g xs) = uniqueSorted f xs"
  unfolding uniqueSorted_def by (rule sorted_set_cong) (use assms in \<open>auto simp: image_iff\<close>)

lemma set_uniqueSorted [simp]: "set (uniqueSorted f xs) = f ` set xs - {[]}"
  by (auto simp: uniqueSorted_def)

lemma bestNameMatch_normalized:
  assumes "unicode_ok u"
  shows "bestNameMatch u s (uniqueSorted (normalizeText u) c) = bestNameMatch u s c"
proof -
  have "(r, sh, ns, nc) \<in> set (name_matches u s (uniqueSorted (normalizeText u) c))
      \<longleftrightarrow> (r, sh, ns, nc) \<in> set (name_matches u s c)" for r sh ns nc
  proof -
    have "normalizeText u ` (normalizeText u ` set c - {[]}) = normalizeText u ` set c - {[]}"
      by (rule image_fixed) (auto simp: normalizeText_idem [OF assms])
    then show ?thesis
      unfolding name_matches_iff set_uniqueSorted by blast
  qed
  then have "set (name_matches u s (uniqueSorted (normalizeText u) c)) = set (name_matches u s c)"
    by auto
  then show ?thesis
    unfolding bestNameMatch_def by (rule matches.sort_by_hd_cong [OF _ match_less_total])
qed

text \<open>Identifier types hold no zero byte, so the keys of the map are distinct.\<close>

lemma type_no_zero:
  assumes u: "unicode_ok u"
  shows "CHR 0x00 \<notin> set (normalizeIdentifierType u v)"
proof
  assume "CHR 0x00 \<in> set (normalizeIdentifierType u v)"
  then obtain r where r: "r \<in> set (text_runes u v)" "CHR 0x00 \<in> set (encode_rune (if r = 32 then 95 else r))"
    by (auto simp: type_runes [OF u] encode_def)
  have "r = 0"
    using r(2) encode_rune_byte [of 0 "if r = 32 then 95 else r"] by (simp add: zero_byte split: if_splits)
  then show False
    using spaced_class [OF text_runes_facts(2) [OF u] r(1)] by (simp add: IsLetter_def IsDigit_def go_defs)
qed

lemma split_at_first: "c \<notin> set a \<Longrightarrow> c \<notin> set a' \<Longrightarrow> a @ c # b = a' @ c # b' \<longleftrightarrow> a = a' \<and> b = b'"
  by (induction a arbitrary: a') (case_tac a'; auto)+

lemma set_normalizeIdentifiers:
  assumes u: "unicode_ok u"
  shows "set (normalizeIdentifiers u is) = {i \<in> normalizeIdentifier u ` set is. id_type i \<noteq> [] \<and> id_value i \<noteq> []}"
proof -
  let ?kept = "filter (\<lambda>i. id_type i \<noteq> [] \<and> id_value i \<noteq> []) (map (normalizeIdentifier u) is)"
  let ?seen = "map_of (rev (map (\<lambda>i. (identifier_map_key i, i)) ?kept))"
  have inj: "i = j" if "i \<in> set ?kept" "j \<in> set ?kept" "identifier_map_key i = identifier_map_key j" for i j
  proof -
    have "CHR 0x00 \<notin> set (id_type i)" "CHR 0x00 \<notin> set (id_type j)"
      using that(1,2) type_no_zero [OF u] by (auto simp: normalizeIdentifier_def)
    then show ?thesis
      using that(3) by (simp add: identifier_map_key_def split_at_first)
  qed
  have "?seen (identifier_map_key i) = Some i" if "i \<in> set ?kept" for i
  proof -
    have "inj_on identifier_map_key (set (rev ?kept))"
      using inj by (simp only: set_rev inj_on_def) blast
    then show ?thesis
      using map_of_by_key [of identifier_map_key "rev ?kept" i] that by (simp only: rev_map set_rev)
  qed
  then have "(\<lambda>k. the (?seen k)) ` identifier_map_key ` set ?kept = set ?kept"
    by (force simp: image_image)
  then show ?thesis
    by (auto simp: normalizeIdentifiers_def Let_def)
qed

lemma identifier_key_normalized: "unicode_ok u \<Longrightarrow> identifier_key u (normalizeIdentifier u i) = identifier_key u i"
  by (simp add: identifier_key_def normalizeIdentifier_def normalizeIdentifierType_idem normalizeIdentifierValue_idem)

lemma identifierMatch_normalized:
  assumes u: "unicode_ok u"
  shows "identifierMatch u s (normalizeIdentifiers u c) = identifierMatch u s c"
proof -
  have "set (filter (\<lambda>k. fst k \<noteq> [] \<and> snd k \<noteq> []) (map (identifier_key u) (normalizeIdentifiers u c)))
      = set (filter (\<lambda>k. fst k \<noteq> [] \<and> snd k \<noteq> []) (map (identifier_key u) c))" (is "?l = ?r")
  proof
    show "?l \<subseteq> ?r"
      by (auto simp: set_normalizeIdentifiers [OF u] identifier_key_normalized [OF u])
    show "?r \<subseteq> ?l"
    proof
      fix k
      assume "k \<in> ?r"
      then obtain i where i: "i \<in> set c" "k = identifier_key u i" "fst k \<noteq> []" "snd k \<noteq> []"
        by auto
      then have "normalizeIdentifier u i \<in> set (normalizeIdentifiers u c)"
        by (auto simp: set_normalizeIdentifiers [OF u] normalizeIdentifier_def identifier_key_def)
      then show "k \<in> ?l"
        using i identifier_key_normalized [OF u, of i] by (auto intro!: image_eqI [of _ _ "normalizeIdentifier u i"])
    qed
  qed
  then show ?thesis
    unfolding identifierMatch_def Let_def by simp
qed

end
