(* ===== verification/ProjectionProps.thy ===== *)
theory ProjectionProps imports ProjectionScore begin

text \<open>
  Properties of projection packages: scoring a projected candidate is scoring the catalogue record,
  a compiled package is read back as it was compiled and compiling again changes nothing, no
  compilation touches a package that exists, and the digest of a package determines its content.
\<close>

section \<open>Scoring a projected record\<close>

text \<open>The candidate as the catalogue has it.\<close>

definition raw_candidate :: "source_record \<Rightarrow> candidate" where
  "raw_candidate r = \<lparr>cd_id = sr_id r, cd_names = sr_names r, cd_identifiers = sr_identifiers r,
     cd_countries = sr_countries r, cd_dobs = sr_dobs r, cd_entity = sr_entity r\<rparr>"

lemma dateMatch_normalized: "dateMatch s (uniqueSorted TrimSpace c) = dateMatch s c"
proof -
  have "uniqueSorted normalizeDate (uniqueSorted TrimSpace c) = uniqueSorted normalizeDate c"
    by (rule uniqueSorted_twice) (simp_all add: normalizeDate_def Let_def)
  then show ?thesis
    by (simp add: dateMatch_def)
qed

lemma setMatch_normalized:
  assumes u: "unicode_ok u"
  shows "setMatch (normalizeCountry u) s (uniqueSorted (normalizeCountry u) c) = setMatch (normalizeCountry u) s c"
proof -
  have "normalizeCountry u [] = []"
    by (simp add: normalizeCountry_def normalizeText_def ToUpper_def runes_def replace_byte_def)
  then have "normalizeCountry u x = [] \<Longrightarrow> normalizeCountry u x = []" for x
    by simp
  then have "uniqueSorted (normalizeCountry u) (uniqueSorted (normalizeCountry u) c) = uniqueSorted (normalizeCountry u) c"
    by (intro uniqueSorted_twice) (simp_all add: normalizeCountry_idem [OF u])
  then show ?thesis
    by (simp add: setMatch_def)
qed

lemma tally_normalized:
  assumes u: "unicode_ok u"
  shows "tally_candidate u p s (normalizeRecord u r) = tally_candidate u p s (raw_candidate r)"
  by (simp add: tally_candidate_def normalizeRecord_def raw_candidate_def identifierMatch_normalized [OF u]
      bestNameMatch_normalized [OF u] dateMatch_normalized setMatch_normalized [OF u] normalizeEntityType_idem [OF u])

section \<open>The feed and its package\<close>

text \<open>What a feed must satisfy, and the two documents it stands for.\<close>

definition feed_id :: "source_record \<Rightarrow> string" where
  "feed_id r = TrimSpace (sr_id r)"

lemma feed_id_fun: "feed_id = (\<lambda>r. TrimSpace (sr_id r))"
  by (simp add: fun_eq_iff feed_id_def)

definition feed_ok :: "package_env \<Rightarrow> catalog_descriptor \<Rightarrow> canonical_input \<Rightarrow> bool" where
  "feed_ok env d i \<longleftrightarrow>
     validateCatalogDescriptor (pe_uni env) d = Inr () \<and> validateInputBinding d i = Inr ()
     \<and> int (length (ci_records i)) = de_records d
     \<and> [] \<notin> feed_id ` set (ci_records i) \<and> distinct (map feed_id (ci_records i))
     \<and> int (length (filter sr_retrievable (ci_records i))) = de_retrievable d
     \<and> digestCandidateIDs (pe_sha env) (sort (map feed_id (filter sr_retrievable (ci_records i)))) = de_ids_sha d"

definition feed_projections :: "unicode \<Rightarrow> canonical_input \<Rightarrow> (string \<times> candidate) list" where
  "feed_projections u i = map (\<lambda>r. (feed_id r, normalizeRecord u r)) (filter sr_retrievable (ci_records i))"

definition feed_document :: "package_env \<Rightarrow> canonical_input \<Rightarrow> projection_document" where
  "feed_document env i = compiled_document (feed_projections (pe_uni env) i)"

definition feed_payload :: "package_env \<Rightarrow> canonical_input \<Rightarrow> string" where
  "feed_payload env i = marshalCanonical (document_json (feed_document env i))"

definition feed_manifest :: "package_env \<Rightarrow> catalog_descriptor \<Rightarrow> canonical_input \<Rightarrow> manifest" where
  "feed_manifest env d i = compiled_manifest d (feed_document env i) (de_ids_sha d) (pe_sha env (feed_payload env i))"

definition feed_header :: "package_env \<Rightarrow> catalog_descriptor \<Rightarrow> canonical_input \<Rightarrow> string" where
  "feed_header env d i = marshalCanonical (manifest_json (feed_manifest env d i))"

definition feed_digest :: "package_env \<Rightarrow> catalog_descriptor \<Rightarrow> canonical_input \<Rightarrow> string" where
  "feed_digest env d i =
     pe_sha env (files_sha256 (pe_sha env (feed_header env d i)) (pe_sha env (feed_payload env i)))"

definition feed_package :: "package_env \<Rightarrow> catalog_descriptor \<Rightarrow> canonical_input \<Rightarrow> string \<Rightarrow> package" where
  "feed_package env d i dir =
     \<lparr>pk_directory = dir, pk_sha = feed_digest env d i, pk_manifest = feed_manifest env d i,
      pk_projections = feed_document env i, pk_manifest_path = Join2 dir ''manifest.json'',
      pk_projections_path = Join2 dir ''projections.json''\<rparr>"

lemma compile_bytes_Inr:
  "compile_bytes env d i = Inr b \<longleftrightarrow> feed_ok env d i \<and> b = (feed_header env d i, feed_payload env i)"
proof -
  have loop: "compile_loop (pe_uni env) [] (ci_records i) = Inr ps \<longleftrightarrow>
      [] \<notin> feed_id ` set (ci_records i) \<and> distinct (map feed_id (ci_records i)) \<and> ps = feed_projections (pe_uni env) i" for ps
    unfolding feed_projections_def feed_id_fun by (simp add: compile_loop_Inr)
  have ids: "map fst (feed_projections (pe_uni env) i) = map feed_id (filter sr_retrievable (ci_records i))"
    by (simp add: feed_projections_def comp_def)
  have len: "length (feed_projections (pe_uni env) i) = length (filter sr_retrievable (ci_records i))"
    by (simp add: feed_projections_def)
  show ?thesis
    unfolding compile_bytes_def feed_ok_def feed_header_def feed_manifest_def feed_payload_def feed_document_def Let_def
    by (simp add: loop len ids) (auto simp: ids)
qed

text \<open>A digest is a hexadecimal string of 64 characters.\<close>

definition sha_hex :: "(string \<Rightarrow> string) \<Rightarrow> bool" where
  "sha_hex sha \<longleftrightarrow> (\<forall>x. length (sha x) = 64 \<and> list_all is_hex (sha x))"

lemma hex_plain: "list_all is_hex s \<Longrightarrow> length s = 64 \<Longrightarrow> plain_name s"
proof -
  assume h: "list_all is_hex s" "length s = 64"
  have "\<not> is_hex slash"
    by (simp add: is_hex_def slash_def byte_of_def)
  then have "slash \<notin> set s"
    using h(1) by (auto simp: list_all_iff)
  then show "plain_name s"
    using h(2) by (auto simp: plain_name_def)
qed

lemma TrimSpace_hex:
  assumes "list_all is_hex s"
  shows "TrimSpace (s @ newline) = s"
proof -
  have c: "byte_of c < 128 \<and> \<not> IsSpace (byte_of c)" if "c \<in> set s" for c
    using assms that by (auto simp: list_all_iff is_hex_def IsSpace_def)
  let ?m = "map (\<lambda>c. (byte_of c, [c]))"
  have nl: "byte_of (CHR 0x0A) = 10" "IsSpace 10"
    by (simp_all add: byte_of_def IsSpace_def)
  have "ascii (s @ newline)"
    using c nl by (auto simp: ascii_def newline_def list_all_iff)
  then have "segs (s @ newline) = ?m s @ [(10, newline)]"
    using nl by (simp add: segs_ascii newline_def)
  moreover have "dropWhile seg_space (?m s @ [(10, newline)]) = (if s = [] then [] else ?m s @ [(10, newline)])"
    using c nl by (cases s) (auto simp: seg_space_def)
  moreover have "drop_end seg_space (?m s @ [(10, newline)]) = ?m s"
  proof -
    have "drop_end seg_space (?m s @ [(10, newline)]) = drop_end seg_space (?m s)"
      using nl by (simp add: drop_end_def seg_space_def)
    also have "\<dots> = ?m s"
      using c last_in_set [of s] by (intro drop_end_id) (auto simp: last_map seg_space_def)
    finally show ?thesis .
  qed
  ultimately show ?thesis
    by (cases "s = []") (simp_all add: TrimSpace_def comp_def)
qed

text \<open>The strict decoder reads back the two documents of the feed.\<close>

definition reads_back :: "package_env \<Rightarrow> catalog_descriptor \<Rightarrow> canonical_input \<Rightarrow> bool" where
  "reads_back env d i \<longleftrightarrow> pe_manifest env (feed_header env d i) = Some (feed_manifest env d i)
     \<and> pe_document env (feed_payload env i) = Some (feed_document env i)"

lemma nil_less: "x \<noteq> [] \<Longrightarrow> [] < (x :: string)"
  by (cases x) simp_all

lemma document_ids:
  assumes "feed_ok env d i"
  shows "payload_ids [] (pd_candidates (feed_document env i)) = Some (sort (map feed_id (filter sr_retrievable (ci_records i))))"
proof -
  let ?ps = "feed_projections (pe_uni env) i" and ?lt = "\<lambda>a b. fst a < (fst b :: string)"
  let ?ids = "sort (map feed_id (filter sr_retrievable (ci_records i)))"
  have "map (\<lambda>c. TrimSpace (cd_id c)) (pd_candidates (feed_document env i)) = map (\<lambda>p. TrimSpace (cd_id (snd p))) (sort_by ?lt ?ps)"
    by (simp add: feed_document_def compiled_document_def comp_def)
  also have "\<dots> = map fst (sort_by ?lt ?ps)"
    by (intro map_cong) (auto simp: feed_projections_def feed_id_def normalizeRecord_def)
  also have "\<dots> = ?ids"
  proof (rule properties_for_sort [symmetric])
    have "mset (map fst (sort_by ?lt ?ps)) = mset (map fst ?ps)"
      by simp
    also have "map fst ?ps = map feed_id (filter sr_retrievable (ci_records i))"
      by (simp add: feed_projections_def comp_def)
    finally show "mset (map fst (sort_by ?lt ?ps)) = mset (map feed_id (filter sr_retrievable (ci_records i)))" .
    have "sorted_wrt (\<lambda>a b. \<not> ?lt b a) (sort_by ?lt ?ps)"
      by (rule comparator.sort_by_no_inversion [OF comparator_key])
    then show "sorted (map fst (sort_by ?lt ?ps))"
      by (simp add: sorted_wrt_map linorder_not_less)
  qed
  finally have ids: "map (\<lambda>c. TrimSpace (cd_id c)) (pd_candidates (feed_document env i)) = ?ids" .
  have "distinct ?ids" "[] \<notin> set ?ids"
    using assms by (auto simp: feed_ok_def distinct_map inj_on_def)
  then have "sorted_wrt (<) ?ids"
    by (simp add: strict_sorted_iff)
  moreover have "\<forall>c \<in> set (pd_candidates (feed_document env i)). [] < TrimSpace (cd_id c)"
  proof
    fix c
    assume "c \<in> set (pd_candidates (feed_document env i))"
    then have "TrimSpace (cd_id c) \<in> set ?ids"
      unfolding ids [symmetric] by simp
    then show "[] < TrimSpace (cd_id c)"
      using \<open>[] \<notin> set ?ids\<close> by (intro nil_less) metis
  qed
  ultimately show ?thesis
    using payload_ids_sorted [of "pd_candidates (feed_document env i)" "[]"] \<open>[] \<notin> set ?ids\<close>
    unfolding ids [symmetric] by (simp add: image_iff)
qed

lemma check_feed:
  assumes "sha_hex (pe_sha env)" and "reads_back env d i" and "feed_ok env d i" and "root \<noteq> []"
    and dir: "dir = Join2 root (feed_digest env d i)"
  shows "check_package env dir (feed_header env d i) (feed_payload env i)
      (files_sha256 (pe_sha env (feed_header env d i)) (pe_sha env (feed_payload env i)))
      (feed_digest env d i @ newline) = Inr (feed_package env d i dir)"
proof -
  have "list_all is_hex (feed_digest env d i)" "plain_name (feed_digest env d i)"
    using assms(1) by (auto simp: sha_hex_def feed_digest_def intro: hex_plain)
  then have t: "TrimSpace (feed_digest env d i @ newline) = feed_digest env d i" "Base (Clean dir) = feed_digest env d i"
    using assms(4) by (simp_all add: TrimSpace_hex dir Base_Clean_Join2)
  have m: "ma_schema (feed_manifest env d i) = ''openwatchlist.scoring-projection-package-manifest.v1''"
    "ma_projections (feed_manifest env d i) = int (length (pd_candidates (feed_document env i)))"
    "ma_ids_sha (feed_manifest env d i) = de_ids_sha d"
    "ma_projections_sha (feed_manifest env d i) = pe_sha env (feed_payload env i)"
    by (simp_all add: feed_manifest_def compiled_manifest_def)
  have p: "pd_schema (feed_document env i) = ''openwatchlist.candidate-projection-registry.v1''"
    by (simp add: feed_document_def compiled_document_def)
  have "digestCandidateIDs (pe_sha env) (sort (map feed_id (filter sr_retrievable (ci_records i)))) = de_ids_sha d"
    using assms(3) by (simp add: feed_ok_def)
  moreover have "pe_sha env (files_sha256 (pe_sha env (feed_header env d i)) (pe_sha env (feed_payload env i))) = feed_digest env d i"
    by (simp add: feed_digest_def)
  ultimately show ?thesis
    using assms(2) t m p document_ids [OF assms(3)]
    by (simp add: check_package_def reads_back_def feed_package_def)
qed

section \<open>Compiling\<close>

lemma dir_key_child: "root \<noteq> [] \<Longrightarrow> plain_name n \<Longrightarrow> dir_key (Join2 root n) = (IsAbs root, path_parts root @ [n])"
  by (simp add: dir_key_def Join2_parts(1) Join2_name)

definition temp_name :: "string \<Rightarrow> string" where
  "temp_name suffix = ''.projection-package-'' @ suffix"

lemma temp_plain: "slash \<notin> set suffix \<Longrightarrow> plain_name (temp_name suffix)"
  by (simp add: plain_name_def temp_name_def slash_def)

lemma temp_not_hex: "list_all is_hex s \<Longrightarrow> temp_name suffix \<noteq> s"
  by (auto simp: temp_name_def is_hex_def byte_of_def)

text \<open>The directories a compilation uses are different.\<close>

lemma compile_keys:
  assumes "sha_hex (pe_sha env)" and "root \<noteq> []" and "slash \<notin> set suffix"
  shows "dir_key (Join2 root (feed_digest env d i)) \<noteq> dir_key (Join2 root (temp_name suffix))"
    "dir_key (Join2 root (feed_digest env d i)) \<noteq> dir_key root"
    "dir_key (Join2 root (temp_name suffix)) \<noteq> dir_key root"
proof -
  have h: "list_all is_hex (feed_digest env d i)" "length (feed_digest env d i) = 64"
    using assms(1) by (auto simp: sha_hex_def feed_digest_def)
  note keys = dir_key_child [OF assms(2) hex_plain [OF h]] dir_key_child [OF assms(2) temp_plain [OF assms(3)]]
  show "dir_key (Join2 root (feed_digest env d i)) \<noteq> dir_key (Join2 root (temp_name suffix))"
    using temp_not_hex [OF h(1), of suffix] by (simp add: keys)
  show "dir_key (Join2 root (feed_digest env d i)) \<noteq> dir_key root"
    unfolding keys by (simp add: dir_key_def)
  show "dir_key (Join2 root (temp_name suffix)) \<noteq> dir_key root"
    unfolding keys by (simp add: dir_key_def)
qed

lemma Compile_unfold:
  assumes "feed_ok env d i" and "root \<noteq> []"
  shows "Compile env d i root suffix disk =
    (let final = Join2 root (feed_digest env d i); temporary = Join2 root (temp_name suffix);
         written = fmupd (dir_key temporary) (package_files (pe_sha env) (feed_header env d i) (feed_payload env i))
                     (ensure_dir root disk)
     in if dir_exists written final
        then (map_error ExistingInvalid (LoadPackage env written final), fmdrop (dir_key temporary) written)
        else (let renamed = rename_dir temporary final written in (LoadPackage env renamed final, renamed)))"
proof -
  have "compile_bytes env d i = Inr (feed_header env d i, feed_payload env i)"
    using assms(1) by (simp add: compile_bytes_Inr)
  then show ?thesis
    using assms(2) unfolding Compile_def by (simp add: feed_digest_def temp_name_def Let_def)
qed

lemma lookup_ensure_dir: "k \<noteq> dir_key p \<Longrightarrow> fmlookup (ensure_dir p disk) k = fmlookup disk k"
  by (simp add: ensure_dir_def)

text \<open>A new package: its directory holds the four files, and reading it gives the package of the feed.\<close>

lemma compile_new:
  assumes "sha_hex (pe_sha env)" and "reads_back env d i" and "feed_ok env d i" and "root \<noteq> []"
    and "slash \<notin> set suffix" and "dir = Join2 root (feed_digest env d i)" and "\<not> dir_exists disk dir"
    and c: "Compile env d i root suffix disk = (r, disk')"
  shows "r = Inr (feed_package env d i dir)" "LoadPackage env disk' dir = r"
    "fmlookup disk' (dir_key dir) = Some (package_files (pe_sha env) (feed_header env d i) (feed_payload env i))"
    "dir_exists disk' root"
    "k \<noteq> dir_key dir \<Longrightarrow> k \<noteq> dir_key root \<Longrightarrow> fmlookup disk k = None \<Longrightarrow> fmlookup disk' k = None"
proof -
  let ?files = "package_files (pe_sha env) (feed_header env d i) (feed_payload env i)"
  let ?written = "fmupd (dir_key (Join2 root (temp_name suffix))) ?files (ensure_dir root disk)"
  let ?renamed = "rename_dir (Join2 root (temp_name suffix)) dir ?written"
  note keys = compile_keys(1,2) [OF assms(1,4,5), where d = d and i = i, folded assms(6)]
    compile_keys(3) [OF assms(1,4,5)]
  have "fmlookup ?written (dir_key dir) = None"
    using keys assms(7) by (simp add: lookup_ensure_dir dir_exists_def)
  then have res: "(r, disk') = (LoadPackage env ?renamed dir, ?renamed)"
    using c unfolding Compile_unfold [OF assms(3,4)] by (auto simp: Let_def assms(6) dir_exists_def)
  have look: "fmlookup ?renamed (dir_key dir) = Some ?files"
    by (simp add: rename_dir_def)
  then show "fmlookup disk' (dir_key dir) = Some ?files"
    using res by simp
  have "dir \<noteq> []"
    using assms(4,6) by simp
  from LoadPackage_directory [OF this look] have "LoadPackage env ?renamed dir = Inr (feed_package env d i dir)"
    using check_feed [OF assms(1-4,6)] by (simp add: feed_digest_def)
  then show "r = Inr (feed_package env d i dir)" "LoadPackage env disk' dir = r"
    using res by simp_all
  show "dir_exists disk' root"
    using res keys by (auto simp: rename_dir_def dir_exists_def ensure_dir_def)
  show "k \<noteq> dir_key dir \<Longrightarrow> k \<noteq> dir_key root \<Longrightarrow> fmlookup disk k = None \<Longrightarrow> fmlookup disk' k = None"
    using res by (simp add: rename_dir_def lookup_ensure_dir)
qed

lemma fmdrop_fresh: "fmlookup m k = None \<Longrightarrow> fmdrop k (fmupd k v m) = m"
  by (rule fmap_ext) simp

lemma compile_existing:
  assumes "sha_hex (pe_sha env)" and "feed_ok env d i" and "root \<noteq> []" and "slash \<notin> set suffix"
    and "dir = Join2 root (feed_digest env d i)" and "dir_exists disk dir" and "dir_exists disk root"
    and "\<not> dir_exists disk (Join2 root (temp_name suffix))"
  shows "Compile env d i root suffix disk = (map_error ExistingInvalid (LoadPackage env disk dir), disk)"
proof -
  let ?files = "package_files (pe_sha env) (feed_header env d i) (feed_payload env i)"
  let ?written = "fmupd (dir_key (Join2 root (temp_name suffix))) ?files disk"
  note keys = compile_keys(1,2) [OF assms(1,3,4), where d = d and i = i, folded assms(5)]
    compile_keys(3) [OF assms(1,3,4)]
  have look: "fmlookup ?written (dir_key dir) = fmlookup disk (dir_key dir)"
    using keys by simp
  have "dir \<noteq> []"
    using assms(3,5) by simp
  from LoadPackage_frame [OF this look] show ?thesis
    using assms(6,7,8) look unfolding Compile_unfold [OF assms(2,3)]
    by (simp add: Let_def assms(5) ensure_dir_def dir_exists_def fmdrop_fresh)
qed

section \<open>Concrete values for the witnesses\<close>

definition demo_digest :: "string \<Rightarrow> string" where
  "demo_digest s = replicate 64 (hex_ch (length s mod 16))"

definition demo_record :: source_record where
  "demo_record = \<lparr>sr_id = '' x1 '', sr_retrievable = True, sr_names = [''ann  lee'', ''Ann Lee''],
     sr_identifiers = [\<lparr>id_type = ''tax id'', id_value = ''ab-1''\<rparr>], sr_countries = [''gb''], sr_dobs = [''1970-05-05''],
     sr_entity = ''individual''\<rparr>"

definition demo_hidden :: source_record where
  "demo_hidden = \<lparr>sr_id = ''x0'', sr_retrievable = False, sr_names = [], sr_identifiers = [], sr_countries = [],
     sr_dobs = [], sr_entity = []\<rparr>"

definition demo_descriptor :: catalog_descriptor where
  "demo_descriptor = \<lparr>de_schema = ''openwatchlist.catalog-package-descriptor.v1'', de_provider = ''p'', de_catalog = ''c'',
     de_component = ''k'', de_version = ''1'', de_sha = demo_digest [], de_path = ''c.bin'', de_profile = ''n'',
     de_records = 2, de_retrievable = 1, de_ids_sha = demo_digest ''x1_''\<rparr>"

definition demo_input :: canonical_input where
  "demo_input = \<lparr>ci_schema = ''openwatchlist.canonical-projection-input.v1'', ci_provider = ''p'', ci_catalog = ''c'',
     ci_component = ''k'', ci_version = ''1'', ci_sha = demo_digest [], ci_profile = ''n'',
     ci_records = [demo_hidden, demo_record]\<rparr>"

definition demo_env0 :: package_env where
  "demo_env0 = \<lparr>pe_sha = demo_digest, pe_uni = ascii_tables, pe_descriptor = (\<lambda>_. None), pe_input = (\<lambda>_. None),
     pe_manifest = (\<lambda>_. None), pe_document = (\<lambda>_. None)\<rparr>"

definition demo_env :: package_env where
  "demo_env = demo_env0\<lparr>pe_manifest := \<lambda>raw. Some (feed_manifest demo_env0 demo_descriptor demo_input),
     pe_document := \<lambda>raw. Some (feed_document demo_env0 demo_input)\<rparr>"

lemma hex_ch_hex: "d < 16 \<Longrightarrow> is_hex (hex_ch d)"
  by (simp add: hex_ch_def is_hex_def)

lemma demo_sha_hex: "sha_hex (pe_sha demo_env)"
  by (simp add: sha_hex_def demo_env_def demo_env0_def demo_digest_def hex_ch_hex list_all_iff)

lemma demo_reads_back: "reads_back demo_env demo_descriptor demo_input"
proof -
  have same: "pe_sha demo_env = pe_sha demo_env0" "pe_uni demo_env = pe_uni demo_env0"
    by (simp_all add: demo_env_def)
  have doc: "feed_document demo_env demo_input = feed_document demo_env0 demo_input"
    by (simp only: feed_document_def same)
  have "feed_manifest demo_env demo_descriptor demo_input = feed_manifest demo_env0 demo_descriptor demo_input"
    by (simp only: feed_manifest_def feed_payload_def doc same)
  then show ?thesis
    unfolding reads_back_def doc by (simp only: demo_env_def package_env.simps) simp
qed

lemma demo_isSHA256: "isSHA256 u (demo_digest s)"
proof -
  let ?c = "hex_ch (length s mod 16)"
  have c: "byte_of ?c < 128" "\<not> is_upper_az (byte_of ?c)" "is_hex ?c"
    using hex_ch_hex [of "length s mod 16"] by (auto simp: hex_ch_def is_upper_az_def)
  then have "ToLower u (replicate n ?c) = replicate n ?c" for n
    by (simp add: ToLower_def runes_ascii ascii_def list_all_iff rune_lower_def encode_ascii)
  then show ?thesis
    using c(3) by (simp add: isSHA256_def demo_digest_def list_all_iff)
qed

lemma demo_feed_ok: "feed_ok demo_env demo_descriptor demo_input"
proof -
  have ids: "TrimSpace '' x1 '' = ''x1''" "TrimSpace ''x0'' = ''x0''"
    by (simp_all add: str_eval)
  have "validateCatalogDescriptor ascii_tables demo_descriptor = Inr ()"
    by (simp add: validateCatalogDescriptor_def demo_descriptor_def demo_isSHA256) (simp add: str_eval)
  moreover have "validateInputBinding demo_descriptor demo_input = Inr ()"
    by code_simp
  ultimately show ?thesis
    by (simp add: feed_ok_def demo_env_def demo_env0_def demo_input_def demo_record_def demo_hidden_def feed_id_def ids
        digestCandidateIDs_def newline_def) (simp add: demo_descriptor_def demo_digest_def)
qed

definition demo_disk :: disk where
  "demo_disk = fmupd (dir_key ''keep'') (fmupd ''a'' ''b'' fmempty) fmempty"

text \<open>The bytes of the files of a package.\<close>

definition package_bytes :: "disk \<Rightarrow> string \<Rightarrow> string set" where
  "package_bytes disk dir = {raw. \<exists>n \<in> {''manifest.json'', ''projections.json'', ''FILES.sha256''}.
     read_file disk (Join2 dir n) = Some raw}"

text \<open>A package of no candidates, with raw documents that a decoder accepts.\<close>

definition tiny_files :: string where
  "tiny_files = files_sha256 (demo_digest ''m'') (demo_digest ''pp'')"

definition tiny_env :: package_env where
  "tiny_env = demo_env0\<lparr>pe_manifest := \<lambda>raw. Some (compiled_manifest demo_descriptor
        \<lparr>pd_schema = [], pd_candidates = []\<rparr> (digestCandidateIDs demo_digest []) (demo_digest ''pp'')),
      pe_document := \<lambda>raw. Some \<lparr>pd_schema = ''openwatchlist.candidate-projection-registry.v1'', pd_candidates = []\<rparr>\<rparr>"

definition tiny_dir :: "string \<Rightarrow> string" where
  "tiny_dir root = Join2 root (demo_digest tiny_files)"

definition tiny_disk :: "string \<Rightarrow> disk" where
  "tiny_disk root = fmupd (dir_key (tiny_dir root)) (package_files demo_digest ''m'' ''pp'') fmempty"

lemma tiny_env_simps [simp]:
  "pe_sha tiny_env = demo_digest"
  "pe_manifest tiny_env raw = Some (compiled_manifest demo_descriptor \<lparr>pd_schema = [], pd_candidates = []\<rparr>
     (digestCandidateIDs demo_digest []) (demo_digest ''pp''))"
  "pe_document tiny_env raw = Some \<lparr>pd_schema = ''openwatchlist.candidate-projection-registry.v1'', pd_candidates = []\<rparr>"
  by (simp_all add: tiny_env_def demo_env0_def)

lemma demo_digest_hex: "sha_hex demo_digest"
  using demo_sha_hex by (simp add: demo_env_def demo_env0_def)

lemma tiny_loads:
  assumes "root \<noteq> []"
  shows "\<exists>p. LoadPackage tiny_env (tiny_disk root) (tiny_dir root) = Inr p \<and> pk_sha p = demo_digest tiny_files"
proof -
  have hex: "list_all is_hex (demo_digest x)" "plain_name (demo_digest x)" for x
    using demo_digest_hex by (auto simp: sha_hex_def intro: hex_plain)
  have base: "Base (Clean (tiny_dir root)) = demo_digest tiny_files"
    unfolding tiny_dir_def using assms by (rule Base_Clean_Join2) (rule hex)
  have "fmlookup (tiny_disk root) (dir_key (tiny_dir root)) = Some (package_files demo_digest ''m'' ''pp'')"
    by (simp add: tiny_disk_def)
  moreover have "tiny_dir root \<noteq> []"
    using assms by (simp add: tiny_dir_def)
  ultimately have "LoadPackage tiny_env (tiny_disk root) (tiny_dir root)
      = check_package tiny_env (tiny_dir root) ''m'' ''pp'' tiny_files (demo_digest tiny_files @ newline)"
    unfolding tiny_files_def by (rule LoadPackage_directory [rotated])
  then show ?thesis
    by (simp add: check_package_def base TrimSpace_hex hex(1) tiny_files_def [symmetric] compiled_manifest_def)
qed

lemma tiny_bytes: "root \<noteq> [] \<Longrightarrow> package_bytes (tiny_disk root) (tiny_dir root) \<subseteq> {''m'', ''pp'', tiny_files}"
proof -
  assume "root \<noteq> []"
  then have "fmlookup (tiny_disk root) (dir_key (tiny_dir root)) = Some (package_files demo_digest ''m'' ''pp'')" "tiny_dir root \<noteq> []"
    by (simp_all add: tiny_disk_def tiny_dir_def)
  then show ?thesis
    by (auto simp: package_bytes_def read_file_in package_names package_files_def tiny_files_def Let_def)
qed

section \<open>The properties\<close>

text \<open>C29. Scoring is unchanged by the projection: the score, the band, the components and the evidence of
  a candidate read from a projection package are those of the catalogue record it was compiled from;
  only surrounding white space of the identifier is gone.\<close>

theorem projection_preserves_scores:
  assumes "unicode_ok u"
  shows "scoreCandidate u p s l \<lparr>en_candidate = normalizeRecord u r, en_retrieval = t\<rparr>
    = (scoreCandidate u p s l \<lparr>en_candidate = raw_candidate r, en_retrieval = t\<rparr>)\<lparr>cr_id := TrimSpace (sr_id r)\<rparr>"
proof -
  have "identifierMatch u (sj_identifiers s) (cd_identifiers (normalizeRecord u r))
      = identifierMatch u (sj_identifiers s) (cd_identifiers (raw_candidate r))"
    "bestNameMatch u (sj_names s) (cd_names (normalizeRecord u r)) = bestNameMatch u (sj_names s) (cd_names (raw_candidate r))"
    by (simp_all add: normalizeRecord_def raw_candidate_def identifierMatch_normalized [OF assms] bestNameMatch_normalized [OF assms])
  then show ?thesis
    by (simp add: scoreCandidate_def Let_def tally_normalized [OF assms]) (simp add: normalizeRecord_def)
qed

theorem projection_preserves_scores_witness:
  "scoreCandidate ascii_tables demo_policy demo_subject demo_lineage
     \<lparr>en_candidate = normalizeRecord ascii_tables demo_record, en_retrieval = \<lparr>rt_routes = [], rt_reasons = []\<rparr>\<rparr>
   = (scoreCandidate ascii_tables demo_policy demo_subject demo_lineage
     \<lparr>en_candidate = raw_candidate demo_record, en_retrieval = \<lparr>rt_routes = [], rt_reasons = []\<rparr>\<rparr>)
       \<lparr>cr_id := TrimSpace (sr_id demo_record)\<rparr>"
  by (rule projection_preserves_scores [OF ascii_tables_ok])

text \<open>C30. A feed that matches its descriptor compiles: the package holds the normalised retrievable records in
  the order of their identifiers under the descriptor's lineage, reading its directory gives the same
  package, and compiling again, whatever the name of the temporary directory, returns it without
  changing the disk.\<close>

theorem compile_roundtrip:
  assumes "sha_hex (pe_sha env)" and "reads_back env d i" and "feed_ok env d i" and "root \<noteq> []"
    and "slash \<notin> set suffix" and "\<not> dir_exists disk (Join2 root (feed_digest env d i))"
    and "Compile env d i root suffix disk = (r, disk')"
    and "slash \<notin> set suffix'" and "\<not> dir_exists disk' (Join2 root (temp_name suffix'))"
  shows "r = Inr (feed_package env d i (Join2 root (feed_digest env d i)))
    \<and> LoadPackage env disk' (Join2 root (feed_digest env d i)) = r
    \<and> Compile env d i root suffix' disk' = (r, disk')"
proof -
  let ?dir = "Join2 root (feed_digest env d i)"
  note new = compile_new [OF assms(1-5) refl assms(6,7)]
  have "dir_exists disk' ?dir"
    using new(3) by (simp add: dir_exists_def)
  then have "Compile env d i root suffix' disk' = (map_error ExistingInvalid (LoadPackage env disk' ?dir), disk')"
    using compile_existing [OF assms(1,3,4,8) refl _ new(4) assms(9)] by blast
  then show ?thesis
    using new(1,2) by (simp add: map_error_def)
qed

theorem compile_roundtrip_witness:
  "let dir = Join2 ''out'' (feed_digest demo_env demo_descriptor demo_input);
       (r, disk) = Compile demo_env demo_descriptor demo_input ''out'' ''1'' fmempty
   in r = Inr (feed_package demo_env demo_descriptor demo_input dir)
      \<and> LoadPackage demo_env disk dir = r \<and> Compile demo_env demo_descriptor demo_input ''out'' ''2'' disk = (r, disk)"
proof -
  obtain r disk where c: "Compile demo_env demo_descriptor demo_input ''out'' ''1'' fmempty = (r, disk)"
    by (cases "Compile demo_env demo_descriptor demo_input ''out'' ''1'' fmempty")
  have s: "slash \<notin> set ''1''" "slash \<notin> set ''2''" "''out'' \<noteq> []"
    by (simp_all add: slash_def)
  have free: "\<not> dir_exists fmempty p" for p
    by (simp add: dir_exists_def)
  note keys = compile_keys(1) [OF demo_sha_hex s(3,2), where d = demo_descriptor and i = demo_input]
    compile_keys(3) [OF demo_sha_hex s(3,2)]
  have "\<not> dir_exists disk (Join2 ''out'' (temp_name ''2''))"
    using compile_new(5) [OF demo_sha_hex demo_reads_back demo_feed_ok s(3,1) refl free c] keys
    by (simp add: dir_exists_def eq_commute)
  from compile_roundtrip [OF demo_sha_hex demo_reads_back demo_feed_ok s(3,1) free c s(2) this] show ?thesis
    by (simp add: c Let_def)
qed

text \<open>A compilation touches nothing that exists: every directory of the disk other than the fresh
  temporary one keeps its files, whether the compilation succeeds or fails, and a feed that does not
  match its descriptor writes nothing at all.\<close>

theorem compile_keeps_existing:
  assumes "Compile env d i root suffix disk = (r, disk')"
    and "\<not> dir_exists disk (Join2 root (temp_name suffix))" and "dir_exists disk dir"
  shows "fmlookup disk' (dir_key dir) = fmlookup disk (dir_key dir)
    \<and> (\<not> feed_ok env d i \<longrightarrow> disk' = disk \<and> \<not> is_ok r)"
proof (cases "feed_ok env d i \<and> root \<noteq> []")
  case True
  let ?t = "Join2 root (temp_name suffix)" and ?f = "Join2 root (feed_digest env d i)"
  have ne: "dir_key dir \<noteq> dir_key ?t"
    using assms(2,3) by (auto simp: dir_exists_def)
  have kept: "fmlookup (ensure_dir root disk) (dir_key dir) = fmlookup disk (dir_key dir)"
    using assms(3) by (auto simp: ensure_dir_def dir_exists_def)
  define written where
    "written = fmupd (dir_key ?t) (package_files (pe_sha env) (feed_header env d i) (feed_payload env i)) (ensure_dir root disk)"
  have look: "fmlookup written (dir_key dir) = fmlookup disk (dir_key dir)"
    using ne kept by (simp add: written_def)
  have "disk' = (if dir_exists written ?f then fmdrop (dir_key ?t) written else rename_dir ?t ?f written)"
    using assms(1) True unfolding Compile_unfold [OF conjunct1 [OF True] conjunct2 [OF True]] written_def
    by (simp add: Let_def split: if_splits)
  moreover have "dir_key dir \<noteq> dir_key ?f" if "\<not> dir_exists written ?f"
    using that assms(3) look by (auto simp: dir_exists_def)
  ultimately show ?thesis
    using True ne look by (auto simp: rename_dir_def split: option.splits)
next
  case False
  then have "disk' = disk \<and> \<not> is_ok r"
  proof (cases "compile_bytes env d i")
    case (Inl e)
    then show ?thesis
      using assms(1) by (auto simp: Compile_def)
  next
    case (Inr b)
    then have "root = []"
      using False compile_bytes_Inr by blast
    then show ?thesis
      using assms(1) Inr by (cases b) (auto simp: Compile_def Let_def)
  qed
  then show ?thesis
    by simp
qed

theorem compile_keeps_existing_witness:
  "let (r, disk') = Compile demo_env demo_descriptor demo_input ''out'' ''1'' demo_disk
   in fmlookup disk' (dir_key ''keep'') = fmlookup demo_disk (dir_key ''keep'') \<and> dir_exists demo_disk ''keep''"
proof -
  obtain r disk where c: "Compile demo_env demo_descriptor demo_input ''out'' ''1'' demo_disk = (r, disk)"
    by (cases "Compile demo_env demo_descriptor demo_input ''out'' ''1'' demo_disk")
  have "slash \<notin> set ''1''"
    by (simp add: slash_def)
  then have "dir_key (Join2 ''out'' (temp_name ''1'')) = (False, [''out'', temp_name ''1''])"
    by (subst dir_key_child) (simp_all add: temp_plain, simp_all add: path_parts_def components_def slash_def)
  moreover have "dir_key ''keep'' = (False, [''keep''])"
    by (simp add: dir_key_def path_parts_def components_def slash_def)
  ultimately have d: "\<not> dir_exists demo_disk (Join2 ''out'' (temp_name ''1''))" "dir_exists demo_disk ''keep''"
    by (simp_all add: dir_exists_def demo_disk_def)
  from compile_keeps_existing [OF c d] d show ?thesis
    by (simp add: c)
qed

text \<open>The digest of a package determines its content: two packages that load, from whatever disks and
  directories, under one package digest have the same manifest and the same projections, provided the
  hash tells the files of the two directories apart.\<close>

theorem digest_determines_content:
  assumes "LoadPackage env disk a = Inr p" and "LoadPackage env disk' b = Inr q" and "pk_sha p = pk_sha q"
    and "sha_hex (pe_sha env)" and "inj_on (pe_sha env) (package_bytes disk a \<union> package_bytes disk' b)"
  shows "pk_manifest p = pk_manifest q \<and> pk_projections p = pk_projections q"
proof -
  obtain ma pa fa ka where A: "read_file disk (Join2 a ''manifest.json'') = Some ma"
      "read_file disk (Join2 a ''projections.json'') = Some pa" "read_file disk (Join2 a ''FILES.sha256'') = Some fa"
    and ca: "check_package env a ma pa fa ka = Inr p"
    using assms(1) unfolding LoadPackage_Inr by blast
  obtain mb pb fb kb where B: "read_file disk' (Join2 b ''manifest.json'') = Some mb"
      "read_file disk' (Join2 b ''projections.json'') = Some pb" "read_file disk' (Join2 b ''FILES.sha256'') = Some fb"
    and cb: "check_package env b mb pb fb kb = Inr q"
    using assms(2) unfolding LoadPackage_Inr by blast
  have inS: "{ma, pa, fa, mb, pb, fb} \<subseteq> package_bytes disk a \<union> package_bytes disk' b"
    using A B by (auto simp: package_bytes_def)
  have inj: "x = y" if "x \<in> {ma, pa, fa, mb, pb, fb}" "y \<in> {ma, pa, fa, mb, pb, fb}" "pe_sha env x = pe_sha env y" for x y
    using inj_onD [OF assms(5) that(3)] that inS by blast
  note a = check_package_Inr [OF ca] and b = check_package_Inr [OF cb]
  have "pe_sha env fa = pe_sha env fb"
    using assms(3) a(4) b(4) by metis
  then have "fa = fb"
    using inj [of fa fb] by blast
  then have "files_sha256 (pe_sha env ma) (pe_sha env pa) = files_sha256 (pe_sha env mb) (pe_sha env pb)"
    using a(3) b(3) by simp
  moreover have "length (pe_sha env x) = 64" for x
    using assms(4) by (simp add: sha_hex_def)
  ultimately have "pe_sha env ma = pe_sha env mb" "pe_sha env pa = pe_sha env pb"
    by (simp_all add: files_sha256_def)
  then have "ma = mb" "pa = pb"
    using inj [of ma mb] inj [of pa pb] by blast+
  then show ?thesis
    using a(1,2) b(1,2) by simp
qed

theorem digest_determines_content_witness:
  "\<exists>p q. LoadPackage tiny_env (tiny_disk ''out'') (tiny_dir ''out'') = Inr p
     \<and> LoadPackage tiny_env (tiny_disk ''bak'') (tiny_dir ''bak'') = Inr q
     \<and> pk_manifest p = pk_manifest q \<and> pk_projections p = pk_projections q"
proof -
  have ne: "''out'' \<noteq> []" "''bak'' \<noteq> []"
    by simp_all
  obtain p q where p: "LoadPackage tiny_env (tiny_disk ''out'') (tiny_dir ''out'') = Inr p"
    and q: "LoadPackage tiny_env (tiny_disk ''bak'') (tiny_dir ''bak'') = Inr q" and same: "pk_sha p = pk_sha q"
    using tiny_loads [OF ne(1)] tiny_loads [OF ne(2)] by force
  have "inj_on demo_digest {''m'', ''pp'', tiny_files}"
    by (auto simp: tiny_files_def demo_digest_def files_sha256_def newline_def hex_ch_def dest: arg_cong [of _ _ byte_of])
  moreover have "package_bytes (tiny_disk ''out'') (tiny_dir ''out'') \<union> package_bytes (tiny_disk ''bak'') (tiny_dir ''bak'')
      \<subseteq> {''m'', ''pp'', tiny_files}"
    using tiny_bytes [OF ne(1)] tiny_bytes [OF ne(2)] by blast
  ultimately have "inj_on (pe_sha tiny_env)
      (package_bytes (tiny_disk ''out'') (tiny_dir ''out'') \<union> package_bytes (tiny_disk ''bak'') (tiny_dir ''bak''))"
    unfolding tiny_env_simps(1) by (rule inj_on_subset)
  moreover have "sha_hex (pe_sha tiny_env)"
    by (simp add: demo_digest_hex)
  ultimately show ?thesis
    using digest_determines_content [OF p q same] p q by blast
qed

end
