(* ===== verification/ActivationProps.thy ===== *)
theory ActivationProps imports ActivationProofs ProjectionProps begin

text \<open>
  Properties of the activation manager: an activation is read back as it was made although its paths
  are stored relative to the state directory, and an operation that is cut off anywhere leaves, after
  recovery, either the old or the new document active.
\<close>

section \<open>Reading back an activation\<close>

lemma Clean_Abs: "IsAbs cwd \<Longrightarrow> Clean (Abs cwd s) = Abs cwd s \<and> IsAbs (Abs cwd s)"
proof -
  assume c: "IsAbs cwd"
  then have "cwd \<noteq> []"
    by (auto simp: IsAbs_def)
  then show ?thesis
    using c by (simp add: Abs_def Join2_parts(1)) (simp add: Join2_def)
qed

lemma IsAbs_Dir: "IsAbs p \<Longrightarrow> IsAbs (Dir p)"
proof -
  assume "IsAbs p"
  then obtain s where p: "p = slash # s"
    by (cases p) auto
  then show ?thesis
    by (simp add: Dir_def dropWhile_append)
qed

lemma read_file_Clean: "p \<noteq> [] \<Longrightarrow> read_file art (Clean p) = read_file art p"
  unfolding read_file_def Clean_parts by simp

lemma descriptor_path:
  assumes "LoadCatalogDescriptor penv art path = Inr d" and "IsAbs path"
  shows "IsAbs (de_path d)"
proof -
  obtain d0 where d0: "Option.bind (read_file art path) (pe_descriptor penv) = Some d0"
    using assms(1) by (auto simp: LoadCatalogDescriptor_def split: option.splits)
  then have d: "d = (if de_path d0 \<noteq> [] \<and> \<not> IsAbs (de_path d0)
      then d0\<lparr>de_path := Clean (Join2 (Dir path) (de_path d0))\<rparr> else d0)"
    and v: "validateCatalogDescriptor (pe_uni penv) d = Inr ()"
    using assms(1) by (auto simp: LoadCatalogDescriptor_def Let_def)
  have "de_path d \<noteq> []"
    using v by (auto simp: validateCatalogDescriptor_def split: if_splits)
  moreover have "IsAbs (Clean (Join2 (Dir path) x))" for x
  proof -
    have "Dir path \<noteq> []"
      by (simp add: Dir_def)
    then show ?thesis
      using IsAbs_Dir [OF assms(2)] by (simp add: Join2_parts(1))
  qed
  ultimately show ?thesis
    using d by (auto split: if_splits)
qed

lemma validateTuple_path:
  assumes "de_path d \<noteq> []"
  shows "validateTuple env art (d\<lparr>de_path := Clean (de_path d)\<rparr>) pkg po = validateTuple env art d pkg po"
proof -
  let ?d = "d\<lparr>de_path := Clean (de_path d)\<rparr>"
  have f: "de_records ?d = de_records d" "de_retrievable ?d = de_retrievable d" "de_ids_sha ?d = de_ids_sha d"
    "de_profile ?d = de_profile d" "tuple_checks ?d m = tuple_checks d m" for m
    by (simp_all add: tuple_checks_def)
  have "ValidateCatalogPackageFile sha art ?d = ValidateCatalogPackageFile sha art d" for sha
    by (simp add: ValidateCatalogPackageFile_def read_file_Clean [OF assms] split: option.split)
  then show ?thesis
    unfolding validateTuple_def Let_def f by simp
qed

lemma activated_valid:
  assumes cwd: "IsAbs (ae_cwd env)" and st: "IsAbs (ae_state env)" and aid: "safe_identifier aid"
    and art: "load_artefacts env art q = Inr (de, pkg, po)"
    and rels: "relativeToStateDirectory (ae_state env) (de_path de) = Inr cp"
      "relativeToStateDirectory (ae_state env) (Abs (ae_cwd env) (aq_package_path q)) = Inr pp"
      "relativeToStateDirectory (ae_state env) (Abs (ae_cwd env) (aq_policy_path q)) = Inr lp"
    and a: "a = bind_activation aid previous (de\<lparr>de_path := cp\<rparr>) pkg pp po lp"
  shows "validateActivation env art a = Inr \<lparr>sn_activation = resolveActivationPaths env a, sn_package = pkg, sn_policy = po\<rparr>"
proof -
  let ?pp = "Abs (ae_cwd env) (aq_package_path q)" and ?lp = "Abs (ae_cwd env) (aq_policy_path q)"
  have loads: "LoadCatalogDescriptor (package_env.truncate env) art (Abs (ae_cwd env) (aq_descriptor_path q)) = Inr de"
      "LoadPackage (package_env.truncate env) art ?pp = Inr pkg" "LoadPolicy env art ?lp = Inr po"
      "validateTuple env art de pkg po = Inr ()"
    using art by (auto simp: load_artefacts_def map_error_def split: sum.splits)
  have de: "IsAbs (de_path de)"
    using descriptor_path [OF loads(1)] Clean_Abs [OF cwd] by blast
  then have ne: "de_path de \<noteq> []"
    by (auto simp: IsAbs_def)
  have res: "resolvePath (ae_state env) cp = Clean (de_path de)" "resolvePath (ae_state env) pp = ?pp"
    "resolvePath (ae_state env) lp = ?lp"
    using resolve_relative [OF st de] resolve_relative [OF st, of ?pp] resolve_relative [OF st, of ?lp]
      Clean_Abs [OF cwd] rels by auto
  let ?r = "resolveActivationPaths env a"
  have tup: "validateTuple env art (av_catalog ?r) pkg po = Inr ()"
    using loads(4) validateTuple_path [OF ne] by (simp add: a bind_activation_def resolveActivationPaths_def res)
  have fields: "pb_path (av_projection ?r) = ?pp" "pl_path (av_policy ?r) = ?lp" "av_id a = aid"
    "av_schema a = ''openwatchlist.scoring-activation.v1''" "pb_sha (av_projection ?r) = pk_sha pkg"
    "pb_projections_sha (av_projection ?r) = ma_projections_sha (pk_manifest pkg)"
    "pb_count (av_projection ?r) = ma_projections (pk_manifest pkg)" "pb_ids_sha (av_projection ?r) = ma_ids_sha (pk_manifest pkg)"
    "pl_sha (av_policy ?r) = lp_sha po" "pl_id (av_policy ?r) = sp_id (lp_policy po)"
    "pl_version (av_policy ?r) = sp_version (lp_policy po)" "pl_profile (av_policy ?r) = sp_profile (lp_policy po)"
    by (simp_all add: a bind_activation_def resolveActivationPaths_def res)
  show ?thesis
    unfolding validateActivation_def Let_def fields loads(2,3) map_error_def
    using aid by (simp add: tup)
qed

lemma Activate_Inr:
  assumes "Activate env art q d = (ws, Inr s)"
  shows "\<exists>de pkg po p cp pp lp us. safe_identifier (aq_id q) \<and> load_artefacts env art q = Inr (de, pkg, po)
    \<and> relativeToStateDirectory (ae_state env) (de_path de) = Inr cp
    \<and> relativeToStateDirectory (ae_state env) (Abs (ae_cwd env) (aq_package_path q)) = Inr pp
    \<and> relativeToStateDirectory (ae_state env) (Abs (ae_cwd env) (aq_policy_path q)) = Inr lp
    \<and> s = \<lparr>sn_activation = bind_activation (aq_id q) p (de\<lparr>de_path := cp\<rparr>) pkg pp po lp, sn_package = pkg, sn_policy = po\<rparr>
    \<and> ws = us @ move_writes (sn_activation s) p"
  using assms unfolding Activate_def
  by (auto simp: andThen_readp Let_def andThen_def move_active_writes split: if_splits sum.splits prod.splits)

section \<open>A concrete directory\<close>

definition demo_catalog :: catalog_descriptor where
  "demo_catalog = \<lparr>de_schema = ''openwatchlist.catalog-package-descriptor.v1'', de_provider = ''p'', de_catalog = ''c'',
     de_component = ''k'', de_version = ''1'', de_sha = demo_digest ''c'', de_path = ''/a/c'', de_profile = sp_profile demo_policy,
     de_records = 0, de_retrievable = 0, de_ids_sha = digestCandidateIDs demo_digest []\<rparr>"

definition act_env :: activation_env where
  "act_env = \<lparr>pe_sha = demo_digest, pe_uni = ascii_tables, pe_descriptor = (\<lambda>_. Some demo_catalog), pe_input = (\<lambda>_. None),
     pe_manifest = (\<lambda>_. Some (compiled_manifest demo_catalog \<lparr>pd_schema = [], pd_candidates = []\<rparr>
        (digestCandidateIDs demo_digest []) (demo_digest ''pp''))),
     pe_document = (\<lambda>_. Some \<lparr>pd_schema = ''openwatchlist.candidate-projection-registry.v1'', pd_candidates = []\<rparr>),
     ae_policy = (\<lambda>_. Some demo_policy), ae_cwd = ''/'', ae_state = ''/state''\<rparr>"

definition act_package_path :: string where
  "act_package_path = Join2 ''/pkg'' (demo_digest tiny_files)"

definition act_disk :: disk where
  "act_disk = fmupd (True, [''a'']) (fmap_of_list [(''c'', ''c''), (''d'', ''d''), (''p'', ''p'')])
     (fmupd (dir_key act_package_path) (package_files demo_digest ''m'' ''pp'') fmempty)"

definition act_request :: "string \<Rightarrow> activate_request" where
  "act_request aid = \<lparr>aq_id = aid, aq_descriptor_path = ''/a/d'', aq_package_path = act_package_path, aq_policy_path = ''/a/p''\<rparr>"

lemma act_request_simps [simp]:
  "aq_id (act_request aid) = aid" "aq_package_path (act_request aid) = act_package_path" "aq_policy_path (act_request aid) = ''/a/p''"
  by (simp_all add: act_request_def)

lemma act_env_simps [simp]:
  "pe_sha act_env = demo_digest" "pe_uni act_env = ascii_tables"
  "pe_descriptor act_env raw = Some demo_catalog" "ae_policy act_env raw = Some demo_policy"
  "ae_cwd act_env = ''/''" "ae_state act_env = ''/state''"
  "pe_sha (package_env.truncate act_env) = demo_digest" "pe_uni (package_env.truncate act_env) = ascii_tables"
  "pe_descriptor (package_env.truncate act_env) raw = Some demo_catalog"
  "pe_manifest (package_env.truncate act_env) raw = Some (compiled_manifest demo_catalog \<lparr>pd_schema = [], pd_candidates = []\<rparr>
        (digestCandidateIDs demo_digest []) (demo_digest ''pp''))"
  "pe_document (package_env.truncate act_env) raw = Some \<lparr>pd_schema = ''openwatchlist.candidate-projection-registry.v1'', pd_candidates = []\<rparr>"
  by (simp_all add: act_env_def package_env.truncate_def)

lemma act_paths:
  "IsAbs ''/''" "IsAbs ''/state''" "IsAbs ''/a/c''" "IsAbs ''/a/d''" "IsAbs ''/a/p''"
  "path_parts ''/a/c'' = [''a'', ''c'']" "path_parts ''/a/d'' = [''a'', ''d'']" "path_parts ''/a/p'' = [''a'', ''p'']"
  "path_parts ''/pkg'' = [''pkg'']" "IsAbs ''/pkg''"
  by (simp_all add: slash_def path_parts_def components_def)

lemma act_package:
  "plain_name (demo_digest x)" "list_all is_hex (demo_digest x)"
  "IsAbs act_package_path" "path_parts act_package_path = [''pkg'', demo_digest tiny_files]"
proof -
  show p: "plain_name (demo_digest x)" "list_all is_hex (demo_digest x)" for x
    using demo_digest_hex by (auto simp: sha_hex_def intro: hex_plain)
  show "IsAbs act_package_path" "path_parts act_package_path = [''pkg'', demo_digest tiny_files]"
    by (simp_all add: act_package_path_def Join2_parts(1) Join2_name p(1) act_paths slash_def)
qed

lemma act_reads:
  "read_file act_disk (Abs ''/'' ''/a/d'') = Some ''d''" "read_file act_disk (Abs ''/'' ''/a/p'') = Some ''p''"
  "read_file act_disk ''/a/c'' = Some ''c''"
  by (simp_all add: read_file_def Abs_def act_paths slash_def act_disk_def dir_key_def act_package)

lemma act_loads_package:
  "\<exists>pkg. LoadPackage (package_env.truncate act_env) act_disk (Abs ''/'' act_package_path) = Inr pkg
     \<and> pk_manifest pkg = compiled_manifest demo_catalog \<lparr>pd_schema = [], pd_candidates = []\<rparr>
        (digestCandidateIDs demo_digest []) (demo_digest ''pp'')"
proof -
  have c: "Abs ''/'' act_package_path = Clean act_package_path"
    by (simp add: Abs_def act_package)
  have base: "Base (Clean (Clean act_package_path)) = demo_digest tiny_files"
    unfolding Clean_idem unfolding act_package_path_def by (rule Base_Clean_Join2) (simp_all add: act_package)
  have "dir_key (Clean act_package_path) \<noteq> (True, [''a''])"
    by (simp add: dir_key_def act_package)
  then have "fmlookup act_disk (dir_key (Clean act_package_path)) = Some (package_files demo_digest ''m'' ''pp'')"
    by (simp add: act_disk_def) (simp add: dir_key_def)
  moreover have "Clean act_package_path \<noteq> []"
    by simp
  ultimately have "LoadPackage (package_env.truncate act_env) act_disk (Clean act_package_path)
      = check_package (package_env.truncate act_env) (Clean act_package_path) ''m'' ''pp'' tiny_files (demo_digest tiny_files @ newline)"
    unfolding tiny_files_def by (rule LoadPackage_directory [rotated])
  then show ?thesis
    unfolding c using base by (simp add: check_package_def TrimSpace_hex act_package(2) tiny_files_def [symmetric] compiled_manifest_def)
qed

lemma act_artefacts: "\<exists>pkg po. load_artefacts act_env act_disk (act_request aid) = Inr (demo_catalog, pkg, po)"
proof -
  obtain pkg where pkg: "LoadPackage (package_env.truncate act_env) act_disk (Abs ''/'' act_package_path) = Inr pkg"
    and m: "pk_manifest pkg = compiled_manifest demo_catalog \<lparr>pd_schema = [], pd_candidates = []\<rparr>
        (digestCandidateIDs demo_digest []) (demo_digest ''pp'')"
    using act_loads_package by blast
  have cat: "validateCatalogDescriptor ascii_tables demo_catalog = Inr ()"
    by (simp add: validateCatalogDescriptor_def demo_catalog_def demo_isSHA256 digestCandidateIDs_def)
      (simp add: demo_policy_def str_eval)
  have cf: "ValidateCatalogPackageFile demo_digest act_disk demo_catalog = Inr ()"
    by (simp add: ValidateCatalogPackageFile_def demo_catalog_def act_reads)
  have "LoadCatalogDescriptor (package_env.truncate act_env) act_disk (Abs ''/'' ''/a/d'') = Inr demo_catalog"
  proof -
    have "IsAbs (de_path demo_catalog)"
      by (simp add: demo_catalog_def slash_def)
    then show ?thesis
      using cat cf by (simp add: LoadCatalogDescriptor_def act_reads)
  qed
  moreover obtain po where po: "LoadPolicy act_env act_disk (Abs ''/'' ''/a/p'') = Inr po" "lp_policy po = demo_policy"
    using demo_valid by (simp add: LoadPolicy_def act_reads ParsePolicy_def map_error_def)
  moreover have "validateTuple act_env act_disk demo_catalog pkg po = Inr ()"
  proof -
    have "de_retrievable demo_catalog = 0" "de_ids_sha demo_catalog = digestCandidateIDs demo_digest []"
      "de_profile demo_catalog = sp_profile demo_policy"
      by (simp_all add: demo_catalog_def)
    moreover have "first_err (\<lambda>(name, want, have). guard_err (want \<noteq> have) (TupleMismatch name))
        (tuple_checks demo_catalog (pk_manifest pkg)) = Inr ()"
      by (simp add: first_err_ok tuple_checks_def m compiled_manifest_def guard_err_def)
    moreover have "ma_source_records (pk_manifest pkg) = de_records demo_catalog" "ma_projections (pk_manifest pkg) = 0"
      "ma_ids_sha (pk_manifest pkg) = digestCandidateIDs demo_digest []"
      by (simp_all add: m compiled_manifest_def)
    ultimately show ?thesis
      using cf po(2) by (simp add: validateTuple_def map_error_def Let_def)
  qed
  ultimately show ?thesis
    by (simp add: load_artefacts_def act_request_def pkg map_error_def)
qed

lemma act_activates:
  assumes "safe_identifier aid"
  shows "\<exists>ws s. Activate act_env act_disk (act_request aid) fmempty = (ws, Inr s)
    \<and> active_id (apply_writes ws fmempty) = Some aid"
proof -
  obtain pkg po where art: "load_artefacts act_env act_disk (act_request aid) = Inr (demo_catalog, pkg, po)"
    using act_artefacts by blast
  have "IsAbs (de_path demo_catalog)" "IsAbs (Abs ''/'' act_package_path)" "IsAbs (Abs ''/'' ''/a/p'')"
    by (simp_all add: demo_catalog_def act_paths Abs_def act_package slash_def)
  then obtain cp pp lp where "relativeToStateDirectory ''/state'' (de_path demo_catalog) = Inr cp"
      "relativeToStateDirectory ''/state'' (Abs ''/'' act_package_path) = Inr pp"
      "relativeToStateDirectory ''/state'' (Abs ''/'' ''/a/p'') = Inr lp"
    using resolve_relative [OF act_paths(2)] by meson
  moreover have "previous_id fmempty = Inr []"
    by (simp add: previous_id_def loadActiveDocument_def decodeStrictFile_def)
  ultimately show ?thesis
    using assms art by (simp add: Activate_def andThen_readp immutable_def andThen_def move_active_writes Let_def
        bind_activation_def move_writes_def active_id_Some)
qed


definition act_files :: "string \<Rightarrow> state_files" where
  "act_files aid = run (Activate act_env act_disk (act_request aid)) fmempty"

lemma act_files_reach: "activation_reach act_env (act_files aid)"
proof -
  have "crash k p d = run p d" if "length (fst (p d)) \<le> k" for k and p :: "snapshot activation_prog" and d
    using that by (simp add: crash_def run_def)
  then have "act_files aid = crash (length (fst (run_op act_env act_disk (OpActivate (act_request aid)) fmempty)))
      (run_op act_env act_disk (OpActivate (act_request aid))) fmempty"
    by (simp add: act_files_def)
  then show ?thesis
    using activation_reach.operation [OF activation_reach.start] by metis
qed

lemma activate_load:
  assumes "IsAbs (ae_cwd env)" and "IsAbs (ae_state env)" and "Activate env art q d = (ws, Inr s)"
  shows "\<exists>s'. LoadActive env art (apply_writes ws d) = Inr s' \<and> sn_package s' = sn_package s \<and> sn_policy s' = sn_policy s
    \<and> av_id (sn_activation s') = aq_id q \<and> sn_activation s' = resolveActivationPaths env (sn_activation s)"
proof -
  obtain de pkg po p cp pp lp us where a: "safe_identifier (aq_id q)" "load_artefacts env art q = Inr (de, pkg, po)"
      "relativeToStateDirectory (ae_state env) (de_path de) = Inr cp"
      "relativeToStateDirectory (ae_state env) (Abs (ae_cwd env) (aq_package_path q)) = Inr pp"
      "relativeToStateDirectory (ae_state env) (Abs (ae_cwd env) (aq_policy_path q)) = Inr lp"
    and s: "s = \<lparr>sn_activation = bind_activation (aq_id q) p (de\<lparr>de_path := cp\<rparr>) pkg pp po lp, sn_package = pkg, sn_policy = po\<rparr>"
    and ws: "ws = us @ move_writes (sn_activation s) p"
    using Activate_Inr [OF assms(3)] by blast
  have "fmlookup (apply_writes ws d) ActivePath = Some (ActivationFile (sn_activation s))"
    by (simp add: ws move_writes_def)
  then have "LoadActive env art (apply_writes ws d) = validateActivation env art (sn_activation s)"
    by (simp add: LoadActive_def active_lookup [THEN iffD2])
  then show ?thesis
    using activated_valid [OF assms(1,2) a refl, of p] by (simp add: s bind_activation_def)
qed

section \<open>The properties\<close>

text \<open>C31. An activation is read back as it was made. The paths of the package, the policy and the catalogue
  are stored relative to the state directory; after a successful activation the active document loads,
  with the same package and the same policy, under the requested identifier.\<close>

theorem activate_then_load:
  assumes "IsAbs (ae_cwd env)" and "IsAbs (ae_state env)" and "Activate env art q d = (ws, Inr s)"
  shows "\<exists>s'. LoadActive env art (apply_writes ws d) = Inr s' \<and> sn_package s' = sn_package s \<and> sn_policy s' = sn_policy s
    \<and> av_id (sn_activation s') = aq_id q \<and> sn_activation s' = resolveActivationPaths env (sn_activation s)"
  using activate_load [OF assms] .

theorem activate_then_load_witness:
  "\<exists>s s'. snd (Activate act_env act_disk (act_request ''a1'') fmempty) = Inr s
     \<and> LoadActive act_env act_disk (act_files ''a1'') = Inr s' \<and> sn_package s' = sn_package s \<and> av_id (sn_activation s') = ''a1''"
proof -
  have "safe_identifier ''a1''"
    by (simp add: safe_identifier_def alnum_def go_defs byte_of_def)
  then obtain ws s where a: "Activate act_env act_disk (act_request ''a1'') fmempty = (ws, Inr s)"
    using act_activates by blast
  have "IsAbs (ae_cwd act_env)" "IsAbs (ae_state act_env)"
    by (simp_all add: slash_def)
  from activate_then_load [OF this a] show ?thesis
    using a by (auto simp: act_files_def run_def)
qed

text \<open>C18. Moving the active document is atomic. Let the state directory be an absolute path. Start from any directory that operations, crashes and
  recoveries can produce, without a pending record and with no document active or one that still validates against the
  files present at the time of recovery. Run any operation - activate, stage, roll back, promote - and cut it off after any
  number of its writes. Recovery then succeeds, leaves no pending record, and the active document is the one
  that was active before or the one the whole operation makes active.\<close>

theorem activation_crash_atomic:
  assumes "IsAbs (ae_state env)" and "activation_reach env d" and "fmlookup d ActivationPendingPath = None"
    and "active_valid env art' d" and "run_op env art op d = (ws, r)"
  shows "\<exists>us out. RecoverActivation env art' (apply_writes (take k ws) d) = (us, Inr out)
    \<and> fmlookup (apply_writes us (apply_writes (take k ws) d)) ActivationPendingPath = None
    \<and> active_id (apply_writes us (apply_writes (take k ws) d)) \<in> {active_id d, active_id (apply_writes ws d)}"
  using crash_then_recover [OF assms(1) activation_reach_ok [OF assms(1,2)] assms(3-5)] .

theorem activation_crash_atomic_witness:
  "active_id (act_files ''a1'') = Some ''a1''
   \<and> (\<exists>us out. RecoverActivation act_env act_disk (crash 2 (Activate act_env act_disk (act_request ''a2'')) (act_files ''a1'')) = (us, Inr out)
     \<and> active_id (apply_writes us (crash 2 (Activate act_env act_disk (act_request ''a2'')) (act_files ''a1'')))
       \<in> {Some ''a1'', active_id (run (Activate act_env act_disk (act_request ''a2'')) (act_files ''a1''))})"
proof -
  have safe: "safe_identifier ''a1''"
    by (simp add: safe_identifier_def alnum_def go_defs byte_of_def)
  obtain ws s where a: "Activate act_env act_disk (act_request ''a1'') fmempty = (ws, Inr s)"
    and act: "active_id (apply_writes ws fmempty) = Some ''a1''"
    using act_activates [OF safe] by blast
  have abs: "IsAbs (ae_cwd act_env)" "IsAbs (ae_state act_env)"
    by (simp_all add: slash_def)
  have f: "act_files ''a1'' = apply_writes ws fmempty"
    by (simp add: act_files_def run_def a)
  obtain us p where "ws = us @ move_writes (sn_activation s) p"
    using Activate_Inr [OF a] by blast
  then have pend: "fmlookup (act_files ''a1'') ActivationPendingPath = None"
    by (simp add: f move_writes_def)
  have "active_valid act_env act_disk (act_files ''a1'')"
    using activate_load [OF abs a] by (auto simp: active_valid_def f)
  from activation_crash_atomic [OF abs(2) act_files_reach pend this, where art = act_disk
      and op = "OpActivate (act_request ''a2'')" and k = 2, OF surjective_pairing]
  show ?thesis
    using act unfolding crash_def run_def f run_op.simps by auto
qed

end
