(* ===== verification/Promotion.thy ===== *)
theory Promotion imports ScoringActivation HashChain begin

text \<open>
  Controlled promotion of a staged activation (\<^verbatim>\<open>internal/activationpromotion\<close>): an intent, a revisioned state
  that moves from \<^verbatim>\<open>prepared\<close> over \<^verbatim>\<open>validated\<close> and \<^verbatim>\<open>canary\<close> to \<^verbatim>\<open>promoted\<close> and \<^verbatim>\<open>rolled_back\<close>, acknowledgements,
  shadow observations, a pending transaction and a hash-chained audit log.

  The operations are programs over the files of the two state directories; readings of the clock are
  arguments. The lock file is not modelled: an operation runs alone, but may be cut off.
\<close>

section \<open>Errors and small checks\<close>

datatype promotion_error =
    BadIdentifiers | OperatorReason | CanaryRange | AckRange | ThresholdRange | AlreadyActive
  | NoState | Undecodable | ActivationFailed activation_error | SameCandidate | CandidateNotLinked
  | ImmutableConflict | IntentBinding | RevisionMismatch "64 word" "64 word" | WrongPhase string
  | SummaryMismatch | InvalidSummary | SummaryChecksum | AckIds | AckActivation | AckStatus | AckTuple
  | NotEnoughAcks int int | InvalidPending | NoHead | InvalidHead | InvalidEvent | EventChecksum | AuditCas
  | AuditMissing "64 word" | AuditChain "64 word" | AuditFinal
  | ObservationPhase | InvalidObservation | ObservationChecksum | IntentMismatch
  | BadResponse | BatchItemObject | BatchItemResponse | ItemCounts | UnknownPhase string

type_synonym 'a promotion_prog = "(state_path, state_file, promotion_error, 'a) prog"

definition validateThresholds :: "promotion_thresholds \<Rightarrow> (promotion_error, unit) result" where
  "validateThresholds t =
     guard_err (th_score_delta t < 0 \<or> th_score_delta t > 1000 \<or> th_top_bps t < 0 \<or> th_top_bps t > 10000
       \<or> th_set_bps t < 0 \<or> th_set_bps t > 10000 \<or> th_coverage_loss t < 0 \<or> th_blockers t < 0) ThresholdRange"

definition evaluateSummary :: "promotion_thresholds \<Rightarrow> shadow_summary \<Rightarrow> string list" where
  "evaluateSummary t s =
     (if ss_max_delta s > th_score_delta t then [''max_score_delta_exceeded''] else [])
     @ (if ss_top_bps s > th_top_bps t then [''top_candidate_change_rate_exceeded''] else [])
     @ (if ss_set_bps s > th_set_bps t then [''candidate_set_change_rate_exceeded''] else [])
     @ (if ss_coverage_loss s > th_coverage_loss t then [''coverage_loss_exceeded''] else [])
     @ (if ss_blockers s > th_blockers t then [''additional_blocker_count_exceeded''] else [])"

definition normalizedAllowlist :: "string list \<Rightarrow> string list" where
  "normalizedAllowlist values = sorted_set (filter (\<lambda>v. v \<noteq> []) (map TrimSpace values))"

definition verifySummary :: "(string \<Rightarrow> string) \<Rightarrow> shadow_summary \<Rightarrow> (promotion_error, unit) result" where
  "verifySummary sha s =
     (if ss_schema s \<noteq> ''openwatchlist.activation-shadow-summary.v1'' \<or> ss_intent s = [] \<or> ss_sha s = [] \<or> ss_items s < 1
      then Inl InvalidSummary
      else if sha (marshalCanonical (summary_json (s\<lparr>ss_sha := []\<rparr>))) \<noteq> ss_sha s then Inl SummaryChecksum
      else Inr ())"

definition verifyObservation :: "(string \<Rightarrow> string) \<Rightarrow> shadow_observation \<Rightarrow> (promotion_error, unit) result" where
  "verifyObservation sha s =
     (if so_schema s \<noteq> ''openwatchlist.activation-shadow-observation.v1'' \<or> so_intent s = [] \<or> so_sha s = [] \<or> so_items s < 0
      then Inl InvalidObservation
      else if sha (marshalCanonical (observation_json (s\<lparr>so_sha := []\<rparr>))) \<noteq> so_sha s then Inl ObservationChecksum
      else Inr ())"

section \<open>The audit log\<close>

definition event_digest :: "(string \<Rightarrow> string) \<Rightarrow> promotion_event \<Rightarrow> string" where
  "event_digest sha e = sha (marshalCanonical (promotion_event_json e))"

definition clear_event :: "promotion_event \<Rightarrow> promotion_event" where
  "clear_event e = e\<lparr>pv_sha := []\<rparr>"

definition seal_event :: "string \<Rightarrow> promotion_event \<Rightarrow> promotion_event" where
  "seal_event h e = e\<lparr>pv_sha := h\<rparr>"

definition verifyAuditEvent :: "(string \<Rightarrow> string) \<Rightarrow> promotion_event \<Rightarrow> (promotion_error, unit) result" where
  "verifyAuditEvent sha e =
     (if pv_schema e \<noteq> ''openwatchlist.activation-promotion-audit-event.v1'' \<or> sint (pv_sequence e) < 1 \<or> pv_sha e = []
      then Inl InvalidEvent
      else if event_digest sha (clear_event e) \<noteq> pv_sha e then Inl EventChecksum
      else Inr ())"

definition loadAuditHead :: "state_files \<Rightarrow> (promotion_error, promotion_head) result" where
  "loadAuditHead d =
     res_bind (decodeStrictFile NoHead Undecodable as_head AuditHeadPath d) (\<lambda>h.
       if ph_schema h \<noteq> ''openwatchlist.activation-promotion-audit-head.v1'' \<or> sint (ph_sequence h) < 1 \<or> ph_sha h = []
       then Inl InvalidHead else Inr h)"

text \<open>A missing head is the zero value of the type.\<close>

definition head_or_zero :: "state_files \<Rightarrow> (promotion_error, promotion_head) result" where
  "head_or_zero d =
     (case loadAuditHead d of
        Inr h \<Rightarrow> Inr h
      | Inl e \<Rightarrow> if e = NoHead then Inr \<lparr>ph_schema = [], ph_sequence = 0, ph_sha = []\<rparr> else Inl e)"

definition nextAuditEvent ::
  "(string \<Rightarrow> string) \<Rightarrow> string \<Rightarrow> promotion_state \<Rightarrow> string \<Rightarrow> string \<Rightarrow> (string \<times> json) list \<Rightarrow> string
    \<Rightarrow> state_files \<Rightarrow> (promotion_error, promotion_event) result" where
  "nextAuditEvent sha event_type s actor reason payload now d =
     res_bind (head_or_zero d) (\<lambda>h.
       let e = \<lparr>pv_schema = ''openwatchlist.activation-promotion-audit-event.v1'', pv_sequence = ph_sequence h + 1,
                pv_timestamp = now, pv_type = event_type, pv_intent = ps_intent s, pv_revision = ps_revision s,
                pv_actor = actor, pv_reason = reason, pv_payload = payload, pv_previous = ph_sha h, pv_sha = []\<rparr>
       in Inr (seal_event (event_digest sha e) e))"

definition head_of_event :: "promotion_event \<Rightarrow> promotion_head" where
  "head_of_event e = \<lparr>ph_schema = ''openwatchlist.activation-promotion-audit-head.v1'', ph_sequence = pv_sequence e, ph_sha = pv_sha e\<rparr>"

definition appendAudit :: "(string \<Rightarrow> string) \<Rightarrow> promotion_event \<Rightarrow> unit promotion_prog" where
  "appendAudit sha e =
     andThen (readp (\<lambda>_. verifyAuditEvent sha e)) (\<lambda>_.
     andThen (readp head_or_zero) (\<lambda>h.
     if ph_sequence h = pv_sequence e \<and> ph_sha h = pv_sha e then ret ()
     else if pv_sequence e \<noteq> ph_sequence h + 1 \<or> pv_previous e \<noteq> ph_sha h then failp AuditCas
     else
       andThen (immutable ImmutableConflict (AuditPath (pv_sequence e) (pv_sha e)) (AuditFile e)) (\<lambda>_.
       writep (Put AuditHeadPath (AuditHeadFile (head_of_event e))))))"

text \<open>The digests in the names of the audit files of one sequence number, and verification.\<close>

fun audit_name :: "state_path \<Rightarrow> (64 word \<times> string) option" where
  "audit_name (AuditPath s h) = Some (s, h)"
| "audit_name _ = None"

definition audit_files :: "64 word \<Rightarrow> state_files \<Rightarrow> string list" where
  "audit_files s d =
     sorted_list_of_fset ((\<lambda>p. snd (the (audit_name p))) |`|
       ffilter (\<lambda>p. audit_name p \<noteq> None \<and> fst (the (audit_name p)) = s) (fmdom d))"

fun verify_loop :: "(string \<Rightarrow> string) \<Rightarrow> state_files \<Rightarrow> string \<Rightarrow> 64 word list \<Rightarrow> (promotion_error, string) result" where
  "verify_loop sha d previous [] = Inr previous"
| "verify_loop sha d previous (s # ss) =
     (case audit_files s d of
        [h] \<Rightarrow>
          res_bind (decodeStrictFile NoState Undecodable as_event (AuditPath s h) d) (\<lambda>e.
          if pv_sequence e \<noteq> s \<or> pv_previous e \<noteq> previous then Inl (AuditChain s)
          else res_bind (verifyAuditEvent sha e) (\<lambda>_. verify_loop sha d (pv_sha e) ss))
      | _ \<Rightarrow> Inl (AuditMissing s))"

definition VerifyAudit :: "(string \<Rightarrow> string) \<Rightarrow> state_files \<Rightarrow> (promotion_error, unit) result" where
  "VerifyAudit sha d =
     (case loadAuditHead d of
        Inl e \<Rightarrow> if e = NoHead then Inr () else Inl e
      | Inr h \<Rightarrow>
          res_bind (verify_loop sha d [] (map of_nat [1..<Suc (nat (sint (ph_sequence h)))])) (\<lambda>previous.
          if previous \<noteq> ph_sha h then Inl AuditFinal else Inr ()))"

section \<open>State and status\<close>

definition loadState :: "state_files \<Rightarrow> (promotion_error, promotion_state) result" where
  "loadState = decodeStrictFile NoState Undecodable as_state PromotionPath"

definition intentAndState :: "state_files \<Rightarrow> (promotion_error, intent \<times> promotion_state) result" where
  "intentAndState d =
     res_bind (loadState d) (\<lambda>s.
     res_bind (decodeStrictFile NoState Undecodable as_intent (IntentPath (ps_intent s)) d) (\<lambda>i.
     if it_schema i \<noteq> ''openwatchlist.activation-promotion-intent.v1''
        \<or> ps_schema s \<noteq> ''openwatchlist.activation-promotion-state.v1'' \<or> it_id i \<noteq> ps_intent s
     then Inl IntentBinding else Inr (i, s)))"

fun ack_name :: "state_path \<Rightarrow> (string \<times> string) option" where
  "ack_name (AckPath i x) = Some (i, x)"
| "ack_name _ = None"

definition ack_instances :: "string \<Rightarrow> state_files \<Rightarrow> string list" where
  "ack_instances i d =
     sorted_list_of_fset ((\<lambda>p. snd (the (ack_name p))) |`|
       ffilter (\<lambda>p. ack_name p \<noteq> None \<and> fst (the (ack_name p)) = i) (fmdom d))"

definition ready_ack :: "string \<Rightarrow> string \<Rightarrow> ack \<Rightarrow> bool" where
  "ready_ack i act a \<longleftrightarrow> ak_schema a = ''openwatchlist.activation-promotion-ack.v1'' \<and> ak_intent a = i
     \<and> ak_activation a = act \<and> ak_status a = ''ready''"

fun count_ready :: "string \<Rightarrow> string \<Rightarrow> state_files \<Rightarrow> int \<Rightarrow> string list \<Rightarrow> (promotion_error, int) result" where
  "count_ready i act d n [] = Inr n"
| "count_ready i act d n (x # xs) =
     res_bind (decodeStrictFile NoState Undecodable as_ack (AckPath i x) d) (\<lambda>a.
       count_ready i act d (if ready_ack i act a then n + 1 else n) xs)"

definition readyAckCount :: "string \<Rightarrow> string \<Rightarrow> state_files \<Rightarrow> (promotion_error, int) result" where
  "readyAckCount i act d = count_ready i act d 0 (ack_instances i d)"

definition Status :: "state_files \<Rightarrow> (promotion_error, promotion_status) result" where
  "Status d =
     res_bind (intentAndState d) (\<lambda>(i, s).
     res_bind (readyAckCount (it_id i) (it_candidate i) d) (\<lambda>ready.
     res_bind (head_or_zero d) (\<lambda>h.
     Inr \<lparr>st_intent = i, st_state = s, st_ready = ready, st_head = h\<rparr>)))"

section \<open>Committing a state\<close>

definition pending_file :: "promotion_state \<Rightarrow> promotion_event \<Rightarrow> state_file" where
  "pending_file s e =
     PromotionPendingFile \<lparr>pp_schema = ''openwatchlist.activation-promotion-pending.v1'', pp_state = s, pp_event = e\<rparr>"

definition commitState ::
  "(string \<Rightarrow> string) \<Rightarrow> promotion_state \<Rightarrow> string \<Rightarrow> string \<Rightarrow> string \<Rightarrow> (string \<times> json) list \<Rightarrow> string \<Rightarrow> unit promotion_prog" where
  "commitState sha s event_type actor reason payload now =
     andThen (immutable ImmutableConflict (SnapshotPath (ps_intent s) (ps_revision s)) (PromotionFile s)) (\<lambda>_.
     andThen (readp (nextAuditEvent sha event_type s actor reason payload now)) (\<lambda>e.
     andThen (writep (Put PromotionPendingPath (pending_file s e))) (\<lambda>_.
     andThen (appendAudit sha e) (\<lambda>_.
     andThen (writep (Put PromotionPath (PromotionFile s))) (\<lambda>_.
     writep (Remove PromotionPendingPath))))))"

text \<open>The tail that the operations share: commit, then report the status.\<close>

definition commit_and_report ::
  "(string \<Rightarrow> string) \<Rightarrow> promotion_state \<Rightarrow> string \<Rightarrow> string \<Rightarrow> string \<Rightarrow> (string \<times> json) list \<Rightarrow> string \<Rightarrow> promotion_status promotion_prog" where
  "commit_and_report sha s event_type actor reason payload now =
     andThen (commitState sha s event_type actor reason payload now) (\<lambda>_. readp Status)"

section \<open>Operations\<close>

definition activation_read :: "(state_files \<Rightarrow> (activation_error, 'a) result) \<Rightarrow> 'a promotion_prog" where
  "activation_read f = readp (\<lambda>d. map_error ActivationFailed (f d))"

definition check_request :: "prepare_request \<Rightarrow> (promotion_error, unit) result" where
  "check_request q =
     (if \<not> safe_identifier (pq_intent q) \<or> \<not> safe_identifier (pq_candidate q) then Inl BadIdentifiers
      else if TrimSpace (pq_operator q) = [] \<or> TrimSpace (pq_reason q) = [] then Inl OperatorReason
      else if pq_bps q < 1 \<or> pq_bps q > 5000 then Inl CanaryRange
      else if pq_acks q < 1 \<or> pq_acks q > 10000 then Inl AckRange
      else validateThresholds (pq_thresholds q))"

definition no_state :: "state_files \<Rightarrow> (promotion_error, unit) result" where
  "no_state d = (case loadState d of Inr _ \<Rightarrow> Inl AlreadyActive | Inl e \<Rightarrow> if e = NoState then Inr () else Inl e)"

definition Prepare ::
  "activation_env \<Rightarrow> disk \<Rightarrow> prepare_request \<Rightarrow> string \<Rightarrow> string \<Rightarrow> string \<Rightarrow> promotion_status promotion_prog" where
  "Prepare env art q created updated now =
     andThen (readp (\<lambda>_. check_request q)) (\<lambda>_.
     andThen (readp no_state) (\<lambda>_.
     andThen (activation_read (LoadActive env art)) (\<lambda>current.
     andThen (activation_read (LoadActivation env art (pq_candidate q))) (\<lambda>candidate.
     let cur = av_id (sn_activation current); cand = av_id (sn_activation candidate) in
     if cand = cur then failp SameCandidate
     else if av_previous (sn_activation candidate) \<noteq> cur then failp CandidateNotLinked
     else
       andThen (activation_read (ActivationDocumentSHA256 env cur)) (\<lambda>currentDigest.
       andThen (activation_read (ActivationDocumentSHA256 env cand)) (\<lambda>candidateDigest.
       let i = \<lparr>it_schema = ''openwatchlist.activation-promotion-intent.v1'', it_id = pq_intent q, it_created = created,
                it_operator = TrimSpace (pq_operator q), it_reason = TrimSpace (pq_reason q), it_current = cur,
                it_current_sha = currentDigest, it_candidate = cand, it_candidate_sha = candidateDigest,
                it_bps = pq_bps q, it_allowlist = normalizedAllowlist (pq_allowlist q), it_acks = pq_acks q,
                it_thresholds = pq_thresholds q\<rparr>;
           s = \<lparr>ps_schema = ''openwatchlist.activation-promotion-state.v1'', ps_intent = it_id i, ps_revision = 1,
                ps_phase = ''prepared'', ps_current = it_current i, ps_candidate = it_candidate i, ps_updated = updated,
                ps_report = [], ps_blockers = []\<rparr>
       in andThen (immutable ImmutableConflict (IntentPath (it_id i)) (IntentFile i)) (\<lambda>_.
          commit_and_report (pe_sha env) s ''promotion_prepared'' (it_operator i) (it_reason i)
            [(''current_activation_id'', JStr cur), (''candidate_activation_id'', JStr cand)] now)))))))"

text \<open>The intent and state, with the revision the caller expects.\<close>

definition at_revision :: "64 word \<Rightarrow> state_files \<Rightarrow> (promotion_error, intent \<times> promotion_state) result" where
  "at_revision expected d =
     res_bind (intentAndState d) (\<lambda>(i, s).
       if ps_revision s \<noteq> expected then Inl (RevisionMismatch expected (ps_revision s)) else Inr (i, s))"

definition Evaluate ::
  "(string \<Rightarrow> string) \<Rightarrow> 64 word \<Rightarrow> shadow_summary \<Rightarrow> string \<Rightarrow> string \<Rightarrow> string \<Rightarrow> string \<Rightarrow> promotion_status promotion_prog" where
  "Evaluate sha expected summary actor reason updated now =
     andThen (readp (at_revision expected)) (\<lambda>(i, s).
     if ps_phase s \<noteq> ''prepared'' \<and> ps_phase s \<noteq> ''validated'' \<and> ps_phase s \<noteq> ''blocked'' then failp (WrongPhase (ps_phase s))
     else if ss_intent summary \<noteq> it_id i \<or> ss_schema summary \<noteq> ''openwatchlist.activation-shadow-summary.v1''
     then failp SummaryMismatch
     else
       andThen (readp (\<lambda>_. verifySummary sha summary)) (\<lambda>_.
       let blockers = evaluateSummary (it_thresholds i) summary;
           s' = s\<lparr>ps_revision := ps_revision s + 1, ps_updated := updated, ps_report := ss_sha summary,
                  ps_blockers := blockers, ps_phase := (if blockers \<noteq> [] then ''blocked'' else ''validated'')\<rparr>
       in andThen (immutable ImmutableConflict (ReportPath (it_id i) (ss_sha summary)) (ReportFile summary)) (\<lambda>_.
          commit_and_report sha s' (if blockers \<noteq> [] then ''promotion_blocked'' else ''promotion_validated'') actor reason
            [(''summary_sha256'', JStr (ss_sha summary)), (''blockers'', jslice blockers)] now)))"

definition transition ::
  "(string \<Rightarrow> string) \<Rightarrow> 64 word \<Rightarrow> string \<Rightarrow> string \<Rightarrow> string \<Rightarrow> string \<Rightarrow> string \<Rightarrow> string \<Rightarrow> string \<Rightarrow> promotion_status promotion_prog" where
  "transition sha expected from_phase to_phase event_type actor reason updated now =
     andThen (readp (at_revision expected)) (\<lambda>(i, s).
     if ps_phase s \<noteq> from_phase then failp (WrongPhase (ps_phase s))
     else commit_and_report sha (s\<lparr>ps_revision := ps_revision s + 1, ps_phase := to_phase, ps_updated := updated\<rparr>)
            event_type actor reason [] now)"

definition StartCanary :: "(string \<Rightarrow> string) \<Rightarrow> 64 word \<Rightarrow> string \<Rightarrow> string \<Rightarrow> string \<Rightarrow> string \<Rightarrow> promotion_status promotion_prog" where
  "StartCanary sha expected actor reason updated now =
     transition sha expected ''validated'' ''canary'' ''canary_started'' actor reason updated now"

definition Acknowledge :: "(string \<Rightarrow> string) \<Rightarrow> ack \<Rightarrow> string \<Rightarrow> string \<Rightarrow> promotion_status promotion_prog" where
  "Acknowledge sha a observed now =
     andThen (readp intentAndState) (\<lambda>(i, s).
     if ps_phase s \<noteq> ''canary'' \<and> ps_phase s \<noteq> ''validated'' then failp (WrongPhase (ps_phase s))
     else if ak_intent a \<noteq> it_id i \<or> \<not> safe_identifier (ak_instance a) then failp AckIds
     else if ak_activation a \<noteq> it_candidate i then failp AckActivation
     else if ak_status a \<noteq> ''ready'' \<and> ak_status a \<noteq> ''not_ready'' then failp AckStatus
     else if TrimSpace (ak_tuple a) = [] then failp AckTuple
     else
       let a' = a\<lparr>ak_schema := ''openwatchlist.activation-promotion-ack.v1'', ak_observed := observed\<rparr> in
       andThen (immutable ImmutableConflict (AckPath (it_id i) (ak_instance a')) (AckFile a')) (\<lambda>_.
       andThen (readp (nextAuditEvent sha ''instance_acknowledged'' s (ak_instance a') []
           [(''status'', JStr (ak_status a')), (''activation_id'', JStr (ak_activation a')), (''tuple_sha256'', JStr (ak_tuple a'))] now)) (\<lambda>e.
       andThen (appendAudit sha e) (\<lambda>_. readp Status))))"

definition Promote ::
  "activation_env \<Rightarrow> disk \<Rightarrow> 64 word \<Rightarrow> string \<Rightarrow> string \<Rightarrow> string \<Rightarrow> string \<Rightarrow> promotion_status promotion_prog" where
  "Promote env art expected actor reason updated now =
     andThen (readp (at_revision expected)) (\<lambda>(i, s).
     if ps_phase s \<noteq> ''canary'' then failp (WrongPhase (ps_phase s))
     else
       andThen (readp (readyAckCount (it_id i) (it_candidate i))) (\<lambda>ready.
       if ready < it_acks i then failp (NotEnoughAcks (it_acks i) ready)
       else
         andThen (lift_errors ActivationFailed (PromoteExisting env art (it_candidate i) (it_current i))) (\<lambda>_.
         commit_and_report (pe_sha env)
           (s\<lparr>ps_revision := ps_revision s + 1, ps_phase := ''promoted'', ps_updated := updated, ps_blockers := []\<rparr>)
           ''promotion_completed'' actor reason [(''ready_ack_count'', JInt ready)] now)))"

definition RollbackPromotion ::
  "activation_env \<Rightarrow> disk \<Rightarrow> 64 word \<Rightarrow> string \<Rightarrow> string \<Rightarrow> string \<Rightarrow> string \<Rightarrow> promotion_status promotion_prog" where
  "RollbackPromotion env art expected actor reason updated now =
     andThen (readp (at_revision expected)) (\<lambda>(i, s).
     if ps_phase s \<noteq> ''promoted'' then failp (WrongPhase (ps_phase s))
     else
       andThen (lift_errors ActivationFailed (PromoteExisting env art (it_current i) (it_candidate i))) (\<lambda>_.
       commit_and_report (pe_sha env)
         (s\<lparr>ps_revision := ps_revision s + 1, ps_phase := ''rolled_back'', ps_updated := updated\<rparr>)
         ''promotion_rolled_back'' actor reason [] now))"

definition RecoverPromotion :: "(string \<Rightarrow> string) \<Rightarrow> string promotion_prog" where
  "RecoverPromotion sha d =
     (case decodeStrictFile NoState Undecodable as_pending PromotionPendingPath d of
        Inl e \<Rightarrow> if e = NoState then ([], res_bind (VerifyAudit sha d) (\<lambda>_. Inr ''clean'')) else ([], Inl e)
      | Inr p \<Rightarrow>
          if pp_schema p \<noteq> ''openwatchlist.activation-promotion-pending.v1''
             \<or> ps_schema (pp_state p) \<noteq> ''openwatchlist.activation-promotion-state.v1''
          then ([], Inl InvalidPending)
          else
            andThen (appendAudit sha (pp_event p)) (\<lambda>_.
            andThen (writep (Put PromotionPath (PromotionFile (pp_state p)))) (\<lambda>_.
            andThen (writep (Remove PromotionPendingPath)) (\<lambda>_. ret ''completed''))) d)"

section \<open>Shadow comparison and routing\<close>

record screening_result =
  sc_candidates :: "(string \<times> int) list"
  sc_blockers :: nat

fun obj_get :: "json \<Rightarrow> string \<Rightarrow> json option" where
  "obj_get (JObj kvs) k = map_of (rev kvs) k"
| "obj_get _ k = None"

fun as_array :: "json option \<Rightarrow> json list option" where
  "as_array (Some (JArr vs)) = Some vs"
| "as_array _ = None"

fun is_object :: "json \<Rightarrow> bool" where
  "is_object (JObj kvs) = True"
| "is_object _ = False"

definition get_string :: "json \<Rightarrow> string \<Rightarrow> string" where
  "get_string v k = (case obj_get v k of Some (JStr s) \<Rightarrow> s | _ \<Rightarrow> [])"

definition get_int :: "json \<Rightarrow> string \<Rightarrow> int" where
  "get_int v k = (case obj_get v k of Some (JInt n) \<Rightarrow> n | _ \<Rightarrow> 0)"

definition extractOne :: "json \<Rightarrow> screening_result" where
  "extractOne document =
     \<lparr>sc_candidates =
        map (\<lambda>c. (get_string c ''candidate_id'', get_int c ''score''))
          (filter (\<lambda>c. is_object c \<and> TrimSpace (get_string c ''candidate_id'') \<noteq> [])
            (case as_array (obj_get document ''candidates'') of None \<Rightarrow> [] | Some vs \<Rightarrow> vs)),
      sc_blockers = (case as_array (obj_get document ''blockers'') of None \<Rightarrow> 0 | Some vs \<Rightarrow> length vs)\<rparr>"

fun extract_items :: "json list \<Rightarrow> (promotion_error, screening_result list) result" where
  "extract_items [] = Inr []"
| "extract_items (v # vs) =
     (if \<not> is_object v then Inl BatchItemObject
      else (case obj_get v ''response'' of
              Some (JObj kvs) \<Rightarrow> res_bind (extract_items vs) (\<lambda>rs. Inr (extractOne (JObj kvs) # rs))
            | _ \<Rightarrow> Inl BatchItemResponse))"

text \<open>\<open>decode\<close> is the JSON decoder: an object, or \<^verbatim>\<open>null\<close>, which leaves the map empty.\<close>

definition extractScreeningResults ::
  "(string \<Rightarrow> json option) \<Rightarrow> string \<Rightarrow> (promotion_error, screening_result list) result" where
  "extractScreeningResults decode raw =
     (case decode raw of
        None \<Rightarrow> Inl BadResponse
      | Some document \<Rightarrow>
          if \<not> is_object document \<and> document \<noteq> JNull then Inl BadResponse
          else (case as_array (obj_get document ''items'') of
                  Some items \<Rightarrow> extract_items items
                | None \<Rightarrow> Inr [extractOne document]))"

definition sameCandidateSet :: "(string \<times> int) list \<Rightarrow> (string \<times> int) list \<Rightarrow> bool" where
  "sameCandidateSet left right \<longleftrightarrow>
     Join (sort (map fst left)) [CHR 0x00] = Join (sort (map fst right)) [CHR 0x00]"

definition topID :: "(string \<times> int) list \<Rightarrow> string" where
  "topID vs = (case vs of [] \<Rightarrow> [] | v # _ \<Rightarrow> fst v)"

definition scoreMap :: "(string \<times> int) list \<Rightarrow> string \<Rightarrow> int option" where
  "scoreMap vs = map_of (rev vs)"

text \<open>The identifiers of the left side in any order: the counts do not depend on it.\<close>

fun compare_scores :: "(string \<Rightarrow> int option) \<Rightarrow> (string \<Rightarrow> int option) \<Rightarrow> string list \<Rightarrow> shadow_observation \<Rightarrow> shadow_observation" where
  "compare_scores left right [] ob = ob"
| "compare_scores left right (i # is) ob =
     compare_scores left right is
       (case right i of
          None \<Rightarrow> ob\<lparr>so_coverage_loss := so_coverage_loss ob + 1\<rparr>
        | Some other \<Rightarrow>
            (let delta0 = wrap64 (the (left i) - other);
                 delta = (if delta0 < 0 then wrap64 (- delta0) else delta0)
             in if delta > so_max_delta ob then ob\<lparr>so_max_delta := delta\<rparr> else ob))"

definition compare_item :: "screening_result \<times> screening_result \<Rightarrow> shadow_observation \<Rightarrow> shadow_observation" where
  "compare_item pair ob0 =
     (let left = sc_candidates (fst pair); right = sc_candidates (snd pair);
          ob1 = (if \<not> sameCandidateSet left right then ob0\<lparr>so_set_changes := so_set_changes ob0 + 1\<rparr> else ob0);
          ob2 = (if topID left \<noteq> topID right then ob1\<lparr>so_top_changes := so_top_changes ob1 + 1\<rparr> else ob1);
          ob3 = compare_scores (scoreMap left) (scoreMap right) (sorted_set (map fst left)) ob2
      in if sc_blockers (snd pair) > sc_blockers (fst pair)
         then ob3\<lparr>so_blockers := so_blockers ob3 + (int (sc_blockers (snd pair)) - int (sc_blockers (fst pair)))\<rparr>
         else ob3)"

definition CompareResponses ::
  "(string \<Rightarrow> string) \<Rightarrow> (string \<Rightarrow> json option) \<Rightarrow> string \<Rightarrow> string \<Rightarrow> string \<Rightarrow> string \<Rightarrow> string \<Rightarrow> (promotion_error, shadow_observation) result" where
  "CompareResponses sha decode intentID correlationID currentRaw candidateRaw observedAt =
     res_bind (extractScreeningResults decode currentRaw) (\<lambda>current.
     res_bind (extractScreeningResults decode candidateRaw) (\<lambda>candidate.
     if length current \<noteq> length candidate then Inl ItemCounts
     else
       let ob = fold compare_item (zip current candidate)
             \<lparr>so_schema = ''openwatchlist.activation-shadow-observation.v1'', so_intent = intentID,
              so_correlation = correlationID, so_observed = observedAt, so_current_sha = sha currentRaw,
              so_candidate_sha = sha candidateRaw, so_items = int (length current), so_set_changes = 0,
              so_top_changes = 0, so_max_delta = 0, so_coverage_loss = 0, so_blockers = 0, so_sha = []\<rparr>
       in Inr (ob\<lparr>so_sha := sha (marshalCanonical (observation_json ob))\<rparr>)))"

definition RecordObservation :: "(string \<Rightarrow> string) \<Rightarrow> shadow_observation \<Rightarrow> unit promotion_prog" where
  "RecordObservation sha ob =
     andThen (readp intentAndState) (\<lambda>(i, s).
     if so_intent ob \<noteq> it_id i
        \<or> (ps_phase s \<noteq> ''prepared'' \<and> ps_phase s \<noteq> ''validated'' \<and> ps_phase s \<noteq> ''canary'')
     then failp ObservationPhase
     else
       andThen (readp (\<lambda>_. verifyObservation sha ob)) (\<lambda>_.
       immutable ImmutableConflict (ObservationPath (it_id i) (so_sha ob)) (ObservationFile ob)))"

fun observation_name :: "state_path \<Rightarrow> (string \<times> string) option" where
  "observation_name (ObservationPath i h) = Some (i, h)"
| "observation_name _ = None"

definition observation_files :: "string \<Rightarrow> state_files \<Rightarrow> string list" where
  "observation_files i d =
     sorted_list_of_fset ((\<lambda>p. snd (the (observation_name p))) |`|
       ffilter (\<lambda>p. observation_name p \<noteq> None \<and> fst (the (observation_name p)) = i) (fmdom d))"

definition add_observation :: "shadow_observation \<Rightarrow> shadow_summary \<Rightarrow> shadow_summary" where
  "add_observation ob s =
     s\<lparr>ss_observations := wrap64 (ss_observations s + 1), ss_items := wrap64 (ss_items s + so_items ob),
       ss_set_changes := wrap64 (ss_set_changes s + so_set_changes ob),
       ss_top_changes := wrap64 (ss_top_changes s + so_top_changes ob),
       ss_coverage_loss := wrap64 (ss_coverage_loss s + so_coverage_loss ob),
       ss_blockers := wrap64 (ss_blockers s + so_blockers ob),
       ss_max_delta := (if so_max_delta ob > ss_max_delta s then so_max_delta ob else ss_max_delta s)\<rparr>"

fun summarize_loop :: "(string \<Rightarrow> string) \<Rightarrow> string \<Rightarrow> state_files \<Rightarrow> shadow_summary \<Rightarrow> string list \<Rightarrow> (promotion_error, shadow_summary) result" where
  "summarize_loop sha i d s [] = Inr s"
| "summarize_loop sha i d s (h # hs) =
     res_bind (decodeStrictFile NoState Undecodable as_observation (ObservationPath i h) d) (\<lambda>ob.
     res_bind (verifyObservation sha ob) (\<lambda>_. summarize_loop sha i d (add_observation ob s) hs))"

definition with_rates :: "shadow_summary \<Rightarrow> shadow_summary" where
  "with_rates s =
     (if ss_items s > 0
      then s\<lparr>ss_set_bps := quot64 (wrap64 (ss_set_changes s * 10000)) (ss_items s),
             ss_top_bps := quot64 (wrap64 (ss_top_changes s * 10000)) (ss_items s)\<rparr>
      else s)"

definition SummarizeObservations :: "(string \<Rightarrow> string) \<Rightarrow> string \<Rightarrow> string \<Rightarrow> state_files \<Rightarrow> (promotion_error, shadow_summary) result" where
  "SummarizeObservations sha intentID now d =
     res_bind (intentAndState d) (\<lambda>(i, _).
     if intentID \<noteq> it_id i then Inl IntentMismatch
     else
       res_bind (summarize_loop sha intentID d
          \<lparr>ss_schema = ''openwatchlist.activation-shadow-summary.v1'', ss_intent = intentID, ss_generated = now,
           ss_observations = 0, ss_items = 0, ss_set_changes = 0, ss_top_changes = 0, ss_max_delta = 0,
           ss_coverage_loss = 0, ss_blockers = 0, ss_set_bps = 0, ss_top_bps = 0, ss_sha = []\<rparr>
          (observation_files intentID d)) (\<lambda>s0.
       let s = with_rates s0 in Inr (s\<lparr>ss_sha := sha (marshalCanonical (summary_json s))\<rparr>)))"

text \<open>The first 8 bytes of the digest, read from its hexadecimal form.\<close>

definition hex_digit :: "char \<Rightarrow> nat" where
  "hex_digit c = (if byte_of c \<le> 57 then byte_of c - 48 else byte_of c - 87)"

definition canary_bucket :: "(string \<Rightarrow> string) \<Rightarrow> string \<Rightarrow> int" where
  "canary_bucket sha cid = int (foldl (\<lambda>n c. n * 16 + hex_digit c) 0 (take 16 (sha cid)) mod 10000)"

definition Route :: "(string \<Rightarrow> string) \<Rightarrow> string \<Rightarrow> state_files \<Rightarrow> (promotion_error, string \<times> promotion_status) result" where
  "Route sha cid d =
     res_bind (Status d) (\<lambda>st.
       let phase = ps_phase (st_state st) in
       if phase = ''promoted'' then Inr (''candidate'', st)
       else if phase = ''canary'' then
         (if cid \<in> set (it_allowlist (st_intent st)) then Inr (''candidate'', st)
          else if canary_bucket sha cid < it_bps (st_intent st) then Inr (''candidate'', st)
          else Inr (''current'', st))
       else if phase = ''prepared'' \<or> phase = ''validated'' \<or> phase = ''blocked'' \<or> phase = ''rolled_back'' then Inr (''current'', st)
       else Inl (UnknownPhase phase))"

end
