(* ===== verification/PromotionProofs.thy ===== *)
theory PromotionProofs imports ActivationProofs Promotion begin

text \<open>
  The reachable promotion directories and their invariant: whatever sequence of operations, crashes and
  recoveries led there, the state (and the state of a pending transaction) rests on the documents that
  its phase requires.
\<close>

interpretation promotion_log: hash_chain pv_sequence pv_previous pv_sha clear_event seal_event "event_digest sha" for sha
  by unfold_locales (simp_all add: clear_event_def seal_event_def,
    metis promotion_event.surjective promotion_event.update_convs(11) old.unit.exhaust)

section \<open>Immutable documents\<close>

fun fixed_path :: "state_path \<Rightarrow> bool" where
  "fixed_path (ActivationPath aid) = True"
| "fixed_path (IntentPath i) = True"
| "fixed_path (SnapshotPath i n) = True"
| "fixed_path (ReportPath i h) = True"
| "fixed_path (ObservationPath i h) = True"
| "fixed_path (AckPath i x) = True"
| "fixed_path (AuditPath n h) = True"
| "fixed_path _ = False"

definition extends :: "state_files \<Rightarrow> state_files \<Rightarrow> bool" where
  "extends d d' \<longleftrightarrow> (\<forall>p c. fixed_path p \<longrightarrow> fmlookup d p = Some c \<longrightarrow> fmlookup d' p = Some c)"

lemma extends_refl [simp]: "extends d d"
  by (simp add: extends_def)

lemma extends_trans: "extends a b \<Longrightarrow> extends b c \<Longrightarrow> extends a c"
  by (simp add: extends_def)

lemma extends_move: "\<not> fixed_path p \<Longrightarrow> extends d d' \<Longrightarrow> extends d (fmupd p c d')" "\<not> fixed_path p \<Longrightarrow> extends d d' \<Longrightarrow> extends d (fmdrop p d')"
  by (auto simp: extends_def)

lemma extends_new: "fmlookup d' p = None \<Longrightarrow> extends d d' \<Longrightarrow> extends d (fmupd p c d')"
  by (auto simp: extends_def)

lemma extends_lookup: "extends d d' \<Longrightarrow> fmlookup d p = Some c \<Longrightarrow> fixed_path p \<Longrightarrow> fmlookup d' p = Some c"
  by (simp add: extends_def)

section \<open>Acknowledgements\<close>

fun is_ready :: "state_files \<Rightarrow> string \<Rightarrow> string \<Rightarrow> state_path \<Rightarrow> bool" where
  "is_ready d i act (AckPath j x) =
     (j = i \<and> (case fmlookup d (AckPath j x) of Some (AckFile a) \<Rightarrow> ready_ack i act a | _ \<Rightarrow> False))"
| "is_ready d i act _ = False"

definition ready_acks :: "state_files \<Rightarrow> string \<Rightarrow> string \<Rightarrow> int" where
  "ready_acks d i act = int (fcard (ffilter (is_ready d i act) (fmdom d)))"

lemma ready_acks_mono:
  assumes "extends d d'"
  shows "ready_acks d i act \<le> ready_acks d' i act"
proof -
  have "ffilter (is_ready d i act) (fmdom d) |\<subseteq>| ffilter (is_ready d' i act) (fmdom d')"
  proof
    fix p
    assume "p |\<in>| ffilter (is_ready d i act) (fmdom d)"
    then obtain x a where "p = AckPath i x" "fmlookup d p = Some (AckFile a)" "ready_ack i act a"
      by (cases p) (auto split: option.splits state_file.splits)
    moreover from this have "fmlookup d' p = Some (AckFile a)"
      using extends_lookup [OF assms] by simp
    ultimately show "p |\<in>| ffilter (is_ready d' i act) (fmdom d')"
      by (auto simp: fmdom_notI intro: fmdomI)
  qed
  then show ?thesis
    by (simp add: ready_acks_def fcard_mono)
qed

lemma count_ready_Inr:
  "count_ready i act d n xs = Inr m \<Longrightarrow> distinct xs \<Longrightarrow> m = n + int (card {x \<in> set xs. is_ready d i act (AckPath i x)})"
proof (induction xs arbitrary: n)
  case (Cons x xs)
  then obtain a where a: "fmlookup d (AckPath i x) = Some (AckFile a)"
    and c: "count_ready i act d (if ready_ack i act a then n + 1 else n) xs = Inr m"
    by (auto simp: decodeStrictFile_Inr)
  have "{y \<in> set (x # xs). is_ready d i act (AckPath i y)} =
      (if ready_ack i act a then insert x {y \<in> set xs. is_ready d i act (AckPath i y)} else {y \<in> set xs. is_ready d i act (AckPath i y)})"
    using a by auto
  then show ?case
    using Cons.IH [OF c] Cons.prems(2) by (auto split: if_splits)
qed simp

lemma ack_name_Some: "ack_name p = Some (i, x) \<longleftrightarrow> p = AckPath i x"
  by (cases p) auto

lemma set_ack_instances: "set (ack_instances i d) = {x. AckPath i x |\<in>| fmdom d}"
proof (intro set_eqI iffI)
  fix x
  assume "x \<in> set (ack_instances i d)"
  then obtain p j y where "p |\<in>| fmdom d" "ack_name p = Some (j, y)" "j = i" "x = y"
    by (auto simp: ack_instances_def)
  then show "x \<in> {x. AckPath i x |\<in>| fmdom d}"
    by (simp add: ack_name_Some)
next
  fix x
  assume "x \<in> {x. AckPath i x |\<in>| fmdom d}"
  then have "AckPath i x |\<in>| ffilter (\<lambda>p. ack_name p \<noteq> None \<and> fst (the (ack_name p)) = i) (fmdom d)"
    by simp
  then have "snd (the (ack_name (AckPath i x))) |\<in>| (\<lambda>p. snd (the (ack_name p))) |`|
      ffilter (\<lambda>p. ack_name p \<noteq> None \<and> fst (the (ack_name p)) = i) (fmdom d)"
    by (rule fimageI)
  then show "x \<in> set (ack_instances i d)"
    by (simp add: ack_instances_def)
qed

lemma distinct_ack_instances: "distinct (ack_instances i d)"
  by (simp add: ack_instances_def sorted_list_of_fset.rep_eq)

lemma readyAckCount_Inr:
  assumes "readyAckCount i act d = Inr n"
  shows "n = ready_acks d i act"
proof -
  have "n = int (card {x \<in> set (ack_instances i d). is_ready d i act (AckPath i x)})"
    using count_ready_Inr [of i act d 0 "ack_instances i d" n] assms distinct_ack_instances by (simp add: readyAckCount_def)
  also have "{x \<in> set (ack_instances i d). is_ready d i act (AckPath i x)} = {x. is_ready d i act (AckPath i x)}"
    by (auto simp: set_ack_instances split: option.splits intro: fmdomI)
  also have "card \<dots> = card (AckPath i ` {x. is_ready d i act (AckPath i x)})"
    by (simp add: card_image inj_on_def)
  also have "AckPath i ` {x. is_ready d i act (AckPath i x)} = fset (ffilter (is_ready d i act) (fmdom d))"
  proof
    show "AckPath i ` {x. is_ready d i act (AckPath i x)} \<subseteq> fset (ffilter (is_ready d i act) (fmdom d))"
      by (auto split: option.splits intro: fmdomI)
    show "fset (ffilter (is_ready d i act) (fmdom d)) \<subseteq> AckPath i ` {x. is_ready d i act (AckPath i x)}"
    proof
      fix p
      assume "p \<in> fset (ffilter (is_ready d i act) (fmdom d))"
      then have "is_ready d i act p"
        by simp
      then show "p \<in> AckPath i ` {x. is_ready d i act (AckPath i x)}"
        by (cases p) auto
    qed
  qed
  finally show ?thesis
    by (simp add: ready_acks_def fcard.rep_eq)
qed

section \<open>The invariant\<close>

definition passing_report :: "state_files \<Rightarrow> intent \<Rightarrow> promotion_state \<Rightarrow> bool" where
  "passing_report d i s \<longleftrightarrow>
     (\<exists>r. fmlookup d (ReportPath (ps_intent s) (ps_report s)) = Some (ReportFile r) \<and> evaluateSummary (it_thresholds i) r = [])"

definition past_validation :: "string set" where
  "past_validation = {''validated'', ''canary'', ''promoted'', ''rolled_back''}"

definition past_promotion :: "string set" where
  "past_promotion = {''promoted'', ''rolled_back''}"

definition founded :: "state_files \<Rightarrow> promotion_state \<Rightarrow> bool" where
  "founded d s \<longleftrightarrow>
     (\<exists>i. fmlookup d (IntentPath (ps_intent s)) = Some (IntentFile i)
        \<and> (ps_phase s \<in> past_validation \<longrightarrow> passing_report d i s)
        \<and> (ps_phase s \<in> past_promotion \<longrightarrow> it_acks i \<le> ready_acks d (it_id i) (it_candidate i)))"

lemma founded_mono: "founded d s \<Longrightarrow> extends d d' \<Longrightarrow> founded d' s"
  unfolding founded_def passing_report_def
  by (meson extends_lookup fixed_path.simps ready_acks_mono order_trans)

definition promotion_ok :: "state_files \<Rightarrow> bool" where
  "promotion_ok d \<longleftrightarrow>
     (\<forall>c. fmlookup d PromotionPath = Some c \<longrightarrow> (\<exists>s. c = PromotionFile s \<and> founded d s))
     \<and> (\<forall>c. fmlookup d PromotionPendingPath = Some c \<longrightarrow> (\<exists>s e. c = pending_file s e \<and> founded d s))"

lemma ok_state: "promotion_ok d \<Longrightarrow> fmlookup d PromotionPath = Some (PromotionFile s) \<Longrightarrow> founded d s"
  by (auto simp: promotion_ok_def)

text \<open>Other files may change as long as no immutable document does.\<close>

lemma ok_frame:
  assumes "promotion_ok d" and "extends d d'" and "fmlookup d' PromotionPath = fmlookup d PromotionPath"
    and "fmlookup d' PromotionPendingPath = fmlookup d PromotionPendingPath"
  shows "promotion_ok d'"
  using assms founded_mono unfolding promotion_ok_def by metis

text \<open>What an operation may rely on while it runs: the invariant, and the documents it has seen.\<close>

definition while_running :: "state_files \<Rightarrow> state_files \<Rightarrow> bool" where
  "while_running d0 d \<longleftrightarrow> promotion_ok d \<and> extends d0 d"

lemma running_write:
  assumes "while_running d0 d" and "\<not> fixed_path p" and "p \<noteq> PromotionPath" and "p \<noteq> PromotionPendingPath"
  shows "while_running d0 (fmupd p c d)" "while_running d0 (fmdrop p d)"
  using assms ok_frame [of d] extends_move [OF assms(2), of d0 d] extends_move [OF assms(2), of d d]
  by (auto simp: while_running_def)

lemma running_new:
  assumes "while_running d0 d" and "fixed_path p" and "fmlookup d p = None"
  shows "while_running d0 (fmupd p c d)"
proof -
  have "p \<noteq> PromotionPath" "p \<noteq> PromotionPendingPath"
    using assms(2) by auto
  then show ?thesis
    using assms ok_frame [of d] extends_new [OF assms(3), of d0] extends_new [OF assms(3), of d] by (auto simp: while_running_def)
qed

lemma running_state:
  assumes "while_running d0 d" and "founded d s"
  shows "while_running d0 (fmupd PromotionPath (PromotionFile s) d)" "while_running d0 (fmupd PromotionPendingPath (pending_file s e) d)"
    "while_running d0 (fmdrop PromotionPendingPath d)"
proof -
  have x: "extends d (fmupd PromotionPath c d)" "extends d (fmupd PromotionPendingPath c d)" "extends d (fmdrop PromotionPendingPath d)" for c
    by (simp_all add: extends_move)
  have f: "founded (fmupd PromotionPath c d) s = founded d s" for c s
    by (rule iffI; erule founded_mono; simp add: extends_def)
  have g: "founded (fmupd PromotionPendingPath c d) s = founded d s" "founded (fmdrop PromotionPendingPath d) s = founded d s" for c s
    by (rule iffI; erule founded_mono; simp add: extends_def)+
  show "while_running d0 (fmupd PromotionPath (PromotionFile s) d)" "while_running d0 (fmupd PromotionPendingPath (pending_file s e) d)"
    "while_running d0 (fmdrop PromotionPendingPath d)"
    using assms x extends_trans unfolding while_running_def promotion_ok_def by (auto simp: f g)
qed

lemma running_rebase:
  assumes "while_running d0 d" and "safe (while_running d) p (\<lambda>_. while_running d) d"
  shows "safe (while_running d0) p (\<lambda>_. while_running d0) d"
proof -
  have "while_running d0 d1" if "while_running d d1" for d1
    using that assms(1) extends_trans unfolding while_running_def by blast
  then show ?thesis
    using assms(2) unfolding safe_def by blast
qed

section \<open>The shared programs\<close>

lemma safe_immutable_fixed:
  assumes "while_running d0 d" and "fixed_path p"
    and "\<And>d'. while_running d0 d' \<Longrightarrow> extends d d' \<Longrightarrow> fmlookup d' p = Some c \<Longrightarrow> safe (while_running d0) (g ()) R d'"
  shows "safe (while_running d0) (andThen (immutable err p c) g) R d"
proof (rule safe_andThen)
  show "safe (while_running d0) (immutable err p c) (\<lambda>_ d'. extends d d' \<and> fmlookup d' p = Some c) d"
    using assms(1,2) running_new [OF assms(1,2)] extends_new [of d p d] by (intro safe_immutable) auto
qed (use assms(3) in auto)

lemma safe_appendAudit:
  assumes "while_running d0 d"
  shows "safe (while_running d0) (appendAudit sha e) (\<lambda>_. while_running d0) d"
  unfolding appendAudit_def
proof (intro safe_step_readp assms)
  fix x h
  assume "verifyAuditEvent sha e = Inr x" "head_or_zero d = Inr h"
  have "safe (while_running d0) (andThen (immutable ImmutableConflict (AuditPath (pv_sequence e) (pv_sha e)) (AuditFile e)) (\<lambda>_.
       writep (Put AuditHeadPath (AuditHeadFile (head_of_event e))))) (\<lambda>_. while_running d0) d"
    by (rule safe_immutable_fixed [OF assms]) (auto intro!: safe_writep running_write simp del: prog_simps)
  then show "safe (while_running d0) (if ph_sequence h = pv_sequence e \<and> ph_sha h = pv_sha e then ret ()
       else if pv_sequence e \<noteq> ph_sequence h + 1 \<or> pv_previous e \<noteq> ph_sha h then failp AuditCas
       else andThen (immutable ImmutableConflict (AuditPath (pv_sequence e) (pv_sha e)) (AuditFile e)) (\<lambda>_.
         writep (Put AuditHeadPath (AuditHeadFile (head_of_event e))))) (\<lambda>_. while_running d0) d"
    using assms by (auto simp del: prog_simps)
qed

lemma safe_commit:
  assumes "while_running d0 d" and "founded d s"
  shows "safe (while_running d0) (commitState sha s ty actor reason payload now) (\<lambda>_. while_running d0) d"
  unfolding commitState_def
proof (rule safe_immutable_fixed [OF assms(1)])
  fix d1
  assume r1: "while_running d0 d1" "extends d d1"
  then have f1: "founded d1 s"
    using assms(2) founded_mono by blast
  show "safe (while_running d0) (andThen (readp (nextAuditEvent sha ty s actor reason payload now)) (\<lambda>e.
     andThen (writep (Put PromotionPendingPath (pending_file s e))) (\<lambda>_.
     andThen (appendAudit sha e) (\<lambda>_.
     andThen (writep (Put PromotionPath (PromotionFile s))) (\<lambda>_. writep (Remove PromotionPendingPath)))))) (\<lambda>_. while_running d0) d1"
  proof (intro safe_step_readp safe_step_writep r1)
    fix e
    let ?d = "apply_write (Put PromotionPendingPath (pending_file s e)) d1"
    have p: "while_running d1 ?d" "while_running d0 ?d"
      using running_state(2) [of _ d1 s e] r1 f1 by (simp_all add: while_running_def)
    have "safe (while_running d1) (andThen (appendAudit sha e) (\<lambda>_.
        andThen (writep (Put PromotionPath (PromotionFile s))) (\<lambda>_. writep (Remove PromotionPendingPath)))) (\<lambda>_. while_running d1) ?d"
    proof (rule safe_step [OF safe_appendAudit [OF p(1)]])
      fix d2
      assume w: "while_running d1 d2"
      then have "founded d2 s"
        using f1 founded_mono by (auto simp: while_running_def)
      then have "while_running d1 (fmupd PromotionPath (PromotionFile s) d2)"
        "founded (fmupd PromotionPath (PromotionFile s) d2) s"
        using w running_state(1) founded_mono extends_move(1) [of PromotionPath d2 d2] by auto
      then show "safe (while_running d1) (andThen (writep (Put PromotionPath (PromotionFile s))) (\<lambda>_. writep (Remove PromotionPendingPath)))
         (\<lambda>_. while_running d1) d2"
        using w running_state(3) by (intro safe_step_writep safe_writep) auto
    qed
    then show "safe (while_running d0) (andThen (appendAudit sha e) (\<lambda>_.
        andThen (writep (Put PromotionPath (PromotionFile s))) (\<lambda>_. writep (Remove PromotionPendingPath)))) (\<lambda>_. while_running d0) ?d"
      using p(2) r1 extends_trans unfolding safe_def while_running_def by blast
  qed
qed simp

lemma safe_commit_and_report:
  "while_running d0 d \<Longrightarrow> founded d s \<Longrightarrow> safe (while_running d0) (commit_and_report sha s ty actor reason payload now) (\<lambda>_. while_running d0) d"
  unfolding commit_and_report_def by (rule safe_step [OF safe_commit]) (auto intro: safe_readp simp del: prog_simps)


section \<open>Every operation keeps the invariant\<close>

text \<open>The activation manager touches nothing the promotions rest on.\<close>

lemma safe_move_active: "while_running d0 d \<Longrightarrow> safe (while_running d0) (move_active t p) (\<lambda>_. while_running d0) d"
  unfolding move_active_def
  by (intro safe_step_writep safe_writep) (auto intro!: running_write)

lemma safe_activation_op:
  assumes "while_running d0 d"
  shows "safe (while_running d0) (run_op env art op) (\<lambda>_. while_running d0) d"
proof (cases op)
  case (OpActivate q)
  show ?thesis
  proof (cases "safe_identifier (aq_id q)")
    case True
    then show ?thesis
      unfolding OpActivate run_op.simps Activate_def Let_def
      by (simp del: prog_simps) (intro safe_step_readp assms, simp only: split_paired_all prod.case,
        intro safe_step_readp assms safe_immutable_fixed, simp, rule safe_step [OF safe_move_active], assumption, rule safe_ret)
  next
    case False
    then show ?thesis
      using assms unfolding OpActivate run_op.simps Activate_def by (auto simp del: prog_simps)
  qed
next
  case (OpStage q e)
  show ?thesis
  proof (cases "safe_identifier (aq_id q)")
    case True
    then show ?thesis
      using assms unfolding OpStage run_op.simps Stage_def Let_def
      by (auto intro!: safe_step_readp safe_immutable_fixed safe_ret simp del: prog_simps)
  next
    case False
    then show ?thesis
      using assms unfolding OpStage run_op.simps Stage_def by (auto simp del: prog_simps)
  qed
next
  case OpRollback
  show ?thesis
    using assms unfolding OpRollback run_op.simps Rollback_def
    by (auto intro!: safe_step_readp safe_step [OF safe_move_active] safe_ret simp del: prog_simps)
next
  case (OpPromote aid e)
  show ?thesis
    using assms unfolding OpPromote run_op.simps PromoteExisting_def
    by (auto intro!: safe_failp safe_step_readp safe_step [OF safe_move_active] safe_ret simp del: prog_simps)
qed

lemma safe_recover_activation:
  assumes "while_running d0 d"
  shows "safe (while_running d0) (RecoverActivation env art) (\<lambda>_. while_running d0) d"
proof -
  have done_: "safe (while_running d0) (andThen (writep (Remove ActivationPendingPath)) (\<lambda>_. ret x)) (\<lambda>_. while_running d0) d'"
    if "while_running d0 d'" for x d'
    using that by (auto intro!: safe_step_writep safe_ret running_write simp del: prog_simps)
  have restore: "safe (while_running d0) (restore_previous env art p) (\<lambda>_. while_running d0) d" for p
    using assms unfolding restore_previous_def
    by (auto intro!: safe_step_readp safe_writep running_write simp del: prog_simps)
  have same: "safe (while_running d0) (RecoverActivation env art) (\<lambda>_. while_running d0) d"
    if "RecoverActivation env art d = g d" "safe (while_running d0) g (\<lambda>_. while_running d0) d" for g
    using that by (simp add: safe_def crash_def)
  let ?pend = "decodeStrictFile NoSuchDocument UndecodableDocument as_activation_pending ActivationPendingPath d"
  consider "?pend = Inl NoSuchDocument" | e where "?pend = Inl e" "e \<noteq> NoSuchDocument" | p where "?pend = Inr p"
    by (cases ?pend) auto
  then show ?thesis
  proof cases
    case 1
    then have "RecoverActivation env art d = ret ''clean'' d"
      by (simp add: RecoverActivation_def)
    then show ?thesis
      by (rule same) (use assms in \<open>auto simp del: prog_simps\<close>)
  next
    case 2
    then have "RecoverActivation env art d = failp e d"
      by (cases e) (simp_all add: RecoverActivation_def)
    then show ?thesis
      by (rule same) (use assms in \<open>auto simp del: prog_simps\<close>)
  next
    case 3
    have "RecoverActivation env art d =
        (if pn_schema p \<noteq> ''openwatchlist.scoring-activation-pending.v1'' then failp PendingSchema
          else if move_completed env art (pn_target p) d then
            andThen (writep (Remove ActivationPendingPath)) (\<lambda>_. ret ''completed'')
          else
            andThen (restore_previous env art (pn_previous p)) (\<lambda>_.
            andThen (writep (Remove ActivationPendingPath)) (\<lambda>_. ret ''rolled_back''))) d"
      by (simp add: RecoverActivation_def 3)
    then show ?thesis
      by (rule same) (use assms done_ safe_step [OF restore done_] in \<open>auto simp del: prog_simps\<close>)
  qed
qed

lemma safe_publish:
  "while_running d0 d \<Longrightarrow> safe (while_running d0) (lift_errors ActivationFailed (PromoteExisting env art t c)) (\<lambda>_. while_running d0) d"
  using safe_lift [OF safe_activation_op [of d0 d env art "OpPromote t c"]] by simp

text \<open>What reading the state tells.\<close>

lemma intentAndState_Inr:
  "intentAndState d = Inr (i, s) \<longleftrightarrow> fmlookup d PromotionPath = Some (PromotionFile s)
     \<and> fmlookup d (IntentPath (ps_intent s)) = Some (IntentFile i) \<and> it_id i = ps_intent s
     \<and> it_schema i = ''openwatchlist.activation-promotion-intent.v1'' \<and> ps_schema s = ''openwatchlist.activation-promotion-state.v1''"
  by (auto simp: intentAndState_def loadState_def decodeStrictFile_Inr split: if_splits)

lemma at_revision_Inr: "at_revision n d = Inr (i, s) \<longleftrightarrow> intentAndState d = Inr (i, s) \<and> ps_revision s = n"
  by (auto simp: at_revision_def split: if_splits)

lemma running_intent:
  assumes "while_running d0 d" and "intentAndState d = Inr (i, s)"
  shows "fmlookup d (IntentPath (ps_intent s)) = Some (IntentFile i)" "founded d s" "it_id i = ps_intent s"
    "ps_phase s \<in> past_validation \<Longrightarrow> passing_report d i s"
proof -
  have a: "fmlookup d PromotionPath = Some (PromotionFile s)" "fmlookup d (IntentPath (ps_intent s)) = Some (IntentFile i)" "it_id i = ps_intent s"
    using assms(2) by (simp_all add: intentAndState_Inr)
  then have f: "founded d s"
    using assms(1) ok_state by (auto simp: while_running_def)
  show "fmlookup d (IntentPath (ps_intent s)) = Some (IntentFile i)" "founded d s" "it_id i = ps_intent s"
    using a f by auto
  show "ps_phase s \<in> past_validation \<Longrightarrow> passing_report d i s"
    using f a by (auto simp: founded_def)
qed

lemma safe_if: "(b \<Longrightarrow> safe I p Q d) \<Longrightarrow> (\<not> b \<Longrightarrow> safe I q Q d) \<Longrightarrow> safe I (if b then p else q) Q d"
  by simp

lemma safe_read_pair:
  "I d \<Longrightarrow> (\<And>a b. f d = Inr (a, b) \<Longrightarrow> safe I (g a b) R d) \<Longrightarrow> safe I (andThen (readp f) (\<lambda>(a, b). g a b)) R d"
  by (rule safe_step_readp) auto

lemmas safe_rules = safe_if safe_failp safe_read_pair safe_step_readp

lemma safe_Prepare:
  assumes r: "while_running d0 d"
  shows "safe (while_running d0) (Prepare env art q created updated now) (\<lambda>_. while_running d0) d"
  unfolding Prepare_def activation_read_def Let_def
  by (intro safe_rules r safe_immutable_fixed; (simp; fail)?)
    (rule safe_commit_and_report; simp add: founded_def past_validation_def past_promotion_def)

lemma safe_Evaluate:
  assumes r: "while_running d0 d"
  shows "safe (while_running d0) (Evaluate sha expected summary actor reason updated now) (\<lambda>_. while_running d0) d"
  unfolding Evaluate_def Let_def
proof (intro safe_rules r safe_immutable_fixed; (simp; fail)?)
  fix i s d1
  assume at: "at_revision expected d = Inr (i, s)" and r1: "while_running d0 d1" and x: "extends d d1"
    and rep: "fmlookup d1 (ReportPath (it_id i) (ss_sha summary)) = Some (ReportFile summary)"
  let ?b = "evaluateSummary (it_thresholds i) summary"
  have i: "fmlookup d1 (IntentPath (ps_intent s)) = Some (IntentFile i)" "it_id i = ps_intent s"
    using running_intent [OF r] at extends_lookup [OF x] by (auto simp: at_revision_Inr)
  have "founded d1 (s\<lparr>ps_revision := ps_revision s + 1, ps_updated := updated, ps_report := ss_sha summary,
                  ps_blockers := ?b, ps_phase := (if ?b \<noteq> [] then ''blocked'' else ''validated'')\<rparr>)"
    using i rep by (auto simp: founded_def past_validation_def past_promotion_def passing_report_def)
  then show "safe (while_running d0) (commit_and_report sha (s\<lparr>ps_revision := ps_revision s + 1, ps_updated := updated, ps_report := ss_sha summary,
                  ps_blockers := ?b, ps_phase := (if ?b \<noteq> [] then ''blocked'' else ''validated'')\<rparr>)
      (if ?b \<noteq> [] then ''promotion_blocked'' else ''promotion_validated'') actor reason
            [(''summary_sha256'', JStr (ss_sha summary)), (''blockers'', jslice ?b)] now) (\<lambda>_. while_running d0) d1"
    by (rule safe_commit_and_report [OF r1])
qed

lemma passing_report_phase [simp]:
  "passing_report d i (s\<lparr>ps_revision := n, ps_phase := p, ps_updated := u\<rparr>) = passing_report d i s"
  "passing_report d i (s\<lparr>ps_revision := n, ps_phase := p, ps_updated := u, ps_blockers := b\<rparr>) = passing_report d i s"
  by (simp_all add: passing_report_def)

lemma safe_StartCanary:
  assumes r: "while_running d0 d"
  shows "safe (while_running d0) (StartCanary sha expected actor reason updated now) (\<lambda>_. while_running d0) d"
  unfolding StartCanary_def transition_def
proof (intro safe_rules r)
  fix i s
  assume at: "at_revision expected d = Inr (i, s)" and ph: "\<not> ps_phase s \<noteq> ''validated''"
  have "passing_report d i s"
    using running_intent(4) [OF r] at ph by (simp add: at_revision_Inr past_validation_def)
  then have "founded d (s\<lparr>ps_revision := ps_revision s + 1, ps_phase := ''canary'', ps_updated := updated\<rparr>)"
    using running_intent(1) [OF r] at by (simp add: founded_def past_promotion_def at_revision_Inr)
  then show "safe (while_running d0) (commit_and_report sha (s\<lparr>ps_revision := ps_revision s + 1, ps_phase := ''canary'', ps_updated := updated\<rparr>)
            ''canary_started'' actor reason [] now) (\<lambda>_. while_running d0) d"
    by (rule safe_commit_and_report [OF r])
qed

lemma safe_Acknowledge:
  assumes r: "while_running d0 d"
  shows "safe (while_running d0) (Acknowledge sha a observed now) (\<lambda>_. while_running d0) d"
  unfolding Acknowledge_def Let_def
  by (intro safe_rules r safe_immutable_fixed; (simp; fail)?)
    (rule safe_step [OF safe_appendAudit], assumption, rule safe_readp)

lemma safe_Promote:
  assumes r: "while_running d0 d"
  shows "safe (while_running d0) (Promote env art expected actor reason updated now) (\<lambda>_. while_running d0) d"
  unfolding Promote_def
proof (intro safe_rules r)
  fix i s ready
  assume at: "at_revision expected d = Inr (i, s)" and ph: "\<not> ps_phase s \<noteq> ''canary''"
    and ready: "readyAckCount (it_id i) (it_candidate i) d = Inr ready" "\<not> ready < it_acks i"
  have rep: "passing_report d i s"
    using running_intent(4) [OF r] at ph by (simp add: at_revision_Inr past_validation_def)
  have "founded d (s\<lparr>ps_revision := ps_revision s + 1, ps_phase := ''promoted'', ps_updated := updated, ps_blockers := []\<rparr>)"
    using running_intent(1) [OF r] at rep ready readyAckCount_Inr [OF ready(1)]
    by (simp add: founded_def at_revision_Inr)
  then have "founded d1 (s\<lparr>ps_revision := ps_revision s + 1, ps_phase := ''promoted'', ps_updated := updated, ps_blockers := []\<rparr>)"
    if "extends d d1" for d1
    using founded_mono that by blast
  moreover have "while_running d d"
    using r by (simp add: while_running_def)
  ultimately show "safe (while_running d0) (andThen (lift_errors ActivationFailed (PromoteExisting env art (it_candidate i) (it_current i))) (\<lambda>_.
         commit_and_report (pe_sha env)
           (s\<lparr>ps_revision := ps_revision s + 1, ps_phase := ''promoted'', ps_updated := updated, ps_blockers := []\<rparr>)
           ''promotion_completed'' actor reason [(''ready_ack_count'', JInt ready)] now)) (\<lambda>_. while_running d0) d"
    by (intro running_rebase [OF r] safe_step [OF safe_publish] safe_commit_and_report) (auto simp: while_running_def)
qed

lemma safe_Rollback:
  assumes r: "while_running d0 d"
  shows "safe (while_running d0) (RollbackPromotion env art expected actor reason updated now) (\<lambda>_. while_running d0) d"
  unfolding RollbackPromotion_def
proof (intro safe_rules r)
  fix i s
  assume at: "at_revision expected d = Inr (i, s)" and ph: "\<not> ps_phase s \<noteq> ''promoted''"
  let ?s = "s\<lparr>ps_revision := ps_revision s + 1, ps_phase := ''rolled_back'', ps_updated := updated\<rparr>"
  have "founded d ?s"
    using running_intent(1,2) [OF r] at ph by (auto simp: founded_def at_revision_Inr past_validation_def past_promotion_def)
  then have "founded d1 ?s" if "extends d d1" for d1
    using founded_mono that by blast
  moreover have "while_running d d"
    using r by (simp add: while_running_def)
  ultimately show "safe (while_running d0) (andThen (lift_errors ActivationFailed (PromoteExisting env art (it_current i) (it_candidate i))) (\<lambda>_.
         commit_and_report (pe_sha env) ?s ''promotion_rolled_back'' actor reason [] now)) (\<lambda>_. while_running d0) d"
    by (intro running_rebase [OF r] safe_step [OF safe_publish] safe_commit_and_report) (auto simp: while_running_def)
qed

lemma safe_RecordObservation:
  assumes r: "while_running d0 d"
  shows "safe (while_running d0) (RecordObservation sha ob) (\<lambda>_. while_running d0) d"
  unfolding RecordObservation_def
  by (intro safe_rules r safe_immutable) (auto intro: r running_new)

lemma safe_RecoverPromotion:
  assumes r: "while_running d0 d"
  shows "safe (while_running d0) (RecoverPromotion sha) (\<lambda>_. while_running d0) d"
proof -
  have none: ?thesis if "fst (RecoverPromotion sha d) = []"
    using that r by (cases "RecoverPromotion sha d") (auto intro: safe_no_writes)
  show ?thesis
  proof (cases "fmlookup d PromotionPendingPath")
    case None
    then show ?thesis
      by (intro none) (simp add: RecoverPromotion_def decodeStrictFile_def)
  next
    case (Some c)
    then obtain s e where c: "c = pending_file s e" and f: "founded d s"
      using r by (auto simp: while_running_def promotion_ok_def)
    then have pend: "decodeStrictFile NoState Undecodable as_pending PromotionPendingPath d
        = Inr \<lparr>pp_schema = ''openwatchlist.activation-promotion-pending.v1'', pp_state = s, pp_event = e\<rparr>"
      using Some by (simp add: decodeStrictFile_Inr pending_file_def)
    show ?thesis
    proof (cases "ps_schema s = ''openwatchlist.activation-promotion-state.v1''")
      case False
      then show ?thesis
        by (intro none) (simp add: RecoverPromotion_def pend)
    next
      case True
      let ?p = "andThen (appendAudit sha e) (\<lambda>_. andThen (writep (Put PromotionPath (PromotionFile s))) (\<lambda>_.
            andThen (writep (Remove PromotionPendingPath)) (\<lambda>_. ret ''completed'')))"
      have rec: "RecoverPromotion sha d = ?p d"
        using True by (simp add: RecoverPromotion_def pend)
      have "while_running d d"
        using r by (simp add: while_running_def)
      then have "safe (while_running d) ?p (\<lambda>_. while_running d) d"
      proof (rule safe_step [OF safe_appendAudit])
        fix d2
        assume w: "while_running d d2"
        then have "founded d2 s"
          using f founded_mono by (auto simp: while_running_def)
        then have "while_running d (fmupd PromotionPath (PromotionFile s) d2)"
          "founded (fmupd PromotionPath (PromotionFile s) d2) s"
          using w running_state(1) founded_mono extends_move(1) [of PromotionPath d2 d2] by auto
        then show "safe (while_running d) (andThen (writep (Put PromotionPath (PromotionFile s))) (\<lambda>_.
            andThen (writep (Remove PromotionPendingPath)) (\<lambda>_. ret ''completed''))) (\<lambda>_. while_running d) d2"
          using w running_state(3) by (intro safe_step_writep safe_ret) auto
      qed
      from running_rebase [OF r this] show ?thesis
        by (simp add: safe_def crash_def rec)
    qed
  qed
qed

section \<open>Reachable directories\<close>

datatype promotion_op =
    PoPrepare disk prepare_request string string string
  | PoEvaluate "64 word" shadow_summary string string string string
  | PoStartCanary "64 word" string string string string
  | PoAcknowledge ack string string
  | PoPromote disk "64 word" string string string string
  | PoRollback disk "64 word" string string string string
  | PoObserve shadow_observation
  | PoRecover
  | PoActivation disk activation_op
  | PoRecoverActivation disk

fun promotion_writes :: "activation_env \<Rightarrow> promotion_op \<Rightarrow> state_files \<Rightarrow> state_write list" where
  "promotion_writes env (PoPrepare art q c u n) d = fst (Prepare env art q c u n d)"
| "promotion_writes env (PoEvaluate e s a r u n) d = fst (Evaluate (pe_sha env) e s a r u n d)"
| "promotion_writes env (PoStartCanary e a r u n) d = fst (StartCanary (pe_sha env) e a r u n d)"
| "promotion_writes env (PoAcknowledge k u n) d = fst (Acknowledge (pe_sha env) k u n d)"
| "promotion_writes env (PoPromote art e a r u n) d = fst (Promote env art e a r u n d)"
| "promotion_writes env (PoRollback art e a r u n) d = fst (RollbackPromotion env art e a r u n d)"
| "promotion_writes env (PoObserve ob) d = fst (RecordObservation (pe_sha env) ob d)"
| "promotion_writes env PoRecover d = fst (RecoverPromotion (pe_sha env) d)"
| "promotion_writes env (PoActivation art op) d = fst (run_op env art op d)"
| "promotion_writes env (PoRecoverActivation art) d = fst (RecoverActivation env art d)"

text \<open>Operations of both managers in any order, each possibly cut off after some of its writes.\<close>

inductive promotion_reach :: "activation_env \<Rightarrow> state_files \<Rightarrow> bool" for env where
  fresh: "promotion_reach env fmempty"
| step: "promotion_reach env d \<Longrightarrow> promotion_reach env (apply_writes (take k (promotion_writes env op d)) d)"

lemma step_running:
  assumes "while_running d0 d"
  shows "while_running d0 (apply_writes (take k (promotion_writes env op d)) d)"
proof -
  have c: "safe I p Q d \<Longrightarrow> I (apply_writes (take k (fst (p d))) d)" for I Q and p :: "'a promotion_prog"
    by (simp add: safe_def crash_def)
  have c2: "safe I p Q d \<Longrightarrow> I (apply_writes (take k (fst (p d))) d)" for I Q and p :: "'a activation_prog"
    by (simp add: safe_def crash_def)
  show ?thesis
    by (cases op; simp)
      (rule c [OF safe_Prepare [OF assms]] c [OF safe_Evaluate [OF assms]] c [OF safe_StartCanary [OF assms]]
        c [OF safe_Acknowledge [OF assms]] c [OF safe_Promote [OF assms]] c [OF safe_Rollback [OF assms]]
        c [OF safe_RecordObservation [OF assms]] c [OF safe_RecoverPromotion [OF assms]]
        c2 [OF safe_activation_op [OF assms]] c2 [OF safe_recover_activation [OF assms]])+
qed

lemma promotion_reach_ok: "promotion_reach env d \<Longrightarrow> promotion_ok d"
proof (induction rule: promotion_reach.induct)
  case fresh
  then show ?case
    by (simp add: promotion_ok_def)
next
  case (step d k op)
  then show ?case
    using step_running [of d d k env op] by (simp add: while_running_def)
qed

end
