(* ===== verification/PromotionRecovery.thy ===== *)
theory PromotionRecovery imports PromotionProofs begin

text \<open>
  Transactions of the promotion manager that are cut off: what the commit of a state writes, how recovery
  completes it once the pending document exists, and what happens when the interruption comes earlier.
\<close>

section \<open>The writes of a commit\<close>

definition audit_writes :: "promotion_event \<Rightarrow> state_files \<Rightarrow> state_write list" where
  "audit_writes e d =
     (if fmlookup d (AuditPath (pv_sequence e) (pv_sha e)) = None then [Put (AuditPath (pv_sequence e) (pv_sha e)) (AuditFile e)] else [])"

definition snapshot_writes :: "promotion_state \<Rightarrow> state_files \<Rightarrow> state_write list" where
  "snapshot_writes s d =
     (if fmlookup d (SnapshotPath (ps_intent s) (ps_revision s)) = None
      then [Put (SnapshotPath (ps_intent s) (ps_revision s)) (PromotionFile s)] else [])"

lemma immutable_writes:
  "immutable err p c d = (ws, Inr u) \<longleftrightarrow> (fmlookup d p = None \<or> fmlookup d p = Some c)
     \<and> ws = (if fmlookup d p = None then [Put p c] else [])"
  by (auto simp: immutable_def split: option.splits if_splits)

lemma head_or_zero_cong: "fmlookup d AuditHeadPath = fmlookup d' AuditHeadPath \<Longrightarrow> head_or_zero d = head_or_zero d'"
  by (simp add: head_or_zero_def loadAuditHead_def decodeStrictFile_cong [of d AuditHeadPath d'])

lemma head_of_event_loads: "verifyAuditEvent sha e = Inr u \<Longrightarrow> fmlookup d AuditHeadPath = Some (AuditHeadFile (head_of_event e))
    \<Longrightarrow> head_or_zero d = Inr (head_of_event e)"
  by (auto simp: head_or_zero_def loadAuditHead_def decodeStrictFile_def head_of_event_def verifyAuditEvent_def split: if_splits)

text \<open>Appending an event whose predecessor is the head.\<close>

lemma appendAudit_next:
  assumes "head_or_zero d = Inr h" and "pv_sequence e = ph_sequence h + 1"
  shows "appendAudit sha e d = (ws, Inr u) \<longleftrightarrow> verifyAuditEvent sha e = Inr () \<and> pv_previous e = ph_sha h
     \<and> (fmlookup d (AuditPath (pv_sequence e) (pv_sha e)) \<in> {None, Some (AuditFile e)})
     \<and> ws = audit_writes e d @ [Put AuditHeadPath (AuditHeadFile (head_of_event e))]"
proof -
  have "ph_sequence h \<noteq> pv_sequence e"
    using assms(2) by simp
  then show ?thesis
    using assms
    by (auto simp: appendAudit_def andThen_readp andThen_ok immutable_writes audit_writes_def split: sum.splits)
qed

lemma appendAudit_again:
  assumes "verifyAuditEvent sha e = Inr ()" and "head_or_zero d = Inr (head_of_event e)"
  shows "appendAudit sha e d = ([], Inr ())"
  using assms by (simp add: appendAudit_def andThen_readp head_of_event_def)

lemma commit_writes:
  assumes "commitState sha s ty actor reason payload now d = (ws, Inr u)"
  shows "\<exists>e h. nextAuditEvent sha ty s actor reason payload now d = Inr e \<and> verifyAuditEvent sha e = Inr ()
    \<and> head_or_zero d = Inr h \<and> pv_sequence e = ph_sequence h + 1 \<and> pv_previous e = ph_sha h
    \<and> fmlookup d (SnapshotPath (ps_intent s) (ps_revision s)) \<in> {None, Some (PromotionFile s)}
    \<and> fmlookup d (AuditPath (pv_sequence e) (pv_sha e)) \<in> {None, Some (AuditFile e)}
    \<and> ws = snapshot_writes s d @ [Put PromotionPendingPath (pending_file s e)] @ audit_writes e d
        @ [Put AuditHeadPath (AuditHeadFile (head_of_event e)), Put PromotionPath (PromotionFile s), Remove PromotionPendingPath]"
proof -
  let ?snap = "snapshot_writes s d"
  have snap: "immutable ImmutableConflict (SnapshotPath (ps_intent s) (ps_revision s)) (PromotionFile s) d = (?snap, Inr ())"
    "fmlookup d (SnapshotPath (ps_intent s) (ps_revision s)) \<in> {None, Some (PromotionFile s)}"
    using assms by (auto simp: commitState_def andThen_ok immutable_writes snapshot_writes_def)
  have same: "fmlookup (apply_writes ?snap d) p = fmlookup d p" if "p \<noteq> SnapshotPath (ps_intent s) (ps_revision s)" for p
    using that by (simp add: snapshot_writes_def)
  have heads: "head_or_zero (apply_writes ?snap d) = head_or_zero d"
    by (rule head_or_zero_cong) (simp add: same)
  then have nxt: "nextAuditEvent sha ty s actor reason payload now (apply_writes ?snap d) = nextAuditEvent sha ty s actor reason payload now d"
    by (simp add: nextAuditEvent_def)
  obtain e vs where e: "nextAuditEvent sha ty s actor reason payload now d = Inr e"
    and rest: "andThen (writep (Put PromotionPendingPath (pending_file s e))) (\<lambda>_. andThen (appendAudit sha e) (\<lambda>_.
       andThen (writep (Put PromotionPath (PromotionFile s))) (\<lambda>_. writep (Remove PromotionPendingPath)))) (apply_writes ?snap d) = (vs, Inr u)"
    and ws: "ws = ?snap @ vs"
    using assms snap(1) nxt by (auto simp: commitState_def andThen_def split: sum.splits prod.splits)
  obtain h where h: "head_or_zero d = Inr h"
    using e by (auto simp: nextAuditEvent_def)
  have seq: "pv_sequence e = ph_sequence h + 1" "pv_previous e = ph_sha h"
    using e h by (auto simp: nextAuditEvent_def Let_def seal_event_def)
  let ?d = "fmupd PromotionPendingPath (pending_file s e) (apply_writes ?snap d)"
  have "head_or_zero ?d = Inr h"
    using h heads head_or_zero_cong [of ?d "apply_writes ?snap d"] by simp
  from appendAudit_next [OF this seq(1)] obtain us where
    v: "verifyAuditEvent sha e = Inr ()" "fmlookup ?d (AuditPath (pv_sequence e) (pv_sha e)) \<in> {None, Some (AuditFile e)}"
    and vs: "vs = Put PromotionPendingPath (pending_file s e) # (audit_writes e ?d @ [Put AuditHeadPath (AuditHeadFile (head_of_event e))])
        @ [Put PromotionPath (PromotionFile s), Remove PromotionPendingPath]"
    using rest by (auto simp: andThen_ok)
  have "fmlookup ?d (AuditPath (pv_sequence e) (pv_sha e)) = fmlookup d (AuditPath (pv_sequence e) (pv_sha e))"
    by (simp add: same)
  then show ?thesis
    using e h seq v snap(2) ws vs by (auto simp: audit_writes_def)
qed

text \<open>The files after a complete commit.\<close>

definition committed :: "promotion_state \<Rightarrow> promotion_event \<Rightarrow> state_files \<Rightarrow> state_files" where
  "committed s e d =
     fmdrop PromotionPendingPath (fmupd PromotionPath (PromotionFile s) (fmupd AuditHeadPath (AuditHeadFile (head_of_event e))
       (fmupd (AuditPath (pv_sequence e) (pv_sha e)) (AuditFile e)
         (fmupd (SnapshotPath (ps_intent s) (ps_revision s)) (PromotionFile s) d))))"

lemma fmupd_same: "fmlookup d p = Some c \<Longrightarrow> fmupd p c d = d"
  by (intro fmap_ext) auto

lemma commit_files:
  assumes "commitState sha s ty actor reason payload now d = (ws, Inr u)"
  shows "\<exists>e. apply_writes ws d = committed s e d"
proof -
  obtain e where "fmlookup d (SnapshotPath (ps_intent s) (ps_revision s)) \<in> {None, Some (PromotionFile s)}"
    "fmlookup d (AuditPath (pv_sequence e) (pv_sha e)) \<in> {None, Some (AuditFile e)}"
    and ws: "ws = snapshot_writes s d @ [Put PromotionPendingPath (pending_file s e)] @ audit_writes e d
        @ [Put AuditHeadPath (AuditHeadFile (head_of_event e)), Put PromotionPath (PromotionFile s), Remove PromotionPendingPath]"
    using commit_writes [OF assms] by blast
  then have "apply_writes ws d = committed s e d"
    by (intro fmap_ext) (auto simp: snapshot_writes_def audit_writes_def committed_def)
  then show ?thesis ..
qed

section \<open>Recovery completes a commit\<close>

lemma recover_commit_pending:
  assumes pend: "fmlookup d PromotionPendingPath = Some (pending_file s e)" and schema: "ps_schema s = ''openwatchlist.activation-promotion-state.v1''"
    and v: "verifyAuditEvent sha e = Inr ()"
    and audit: "head_or_zero d = Inr (head_of_event e)
      \<or> (\<exists>h. head_or_zero d = Inr h \<and> pv_sequence e = ph_sequence h + 1 \<and> pv_previous e = ph_sha h
          \<and> fmlookup d (AuditPath (pv_sequence e) (pv_sha e)) \<in> {None, Some (AuditFile e)})"
  shows "\<exists>us. RecoverPromotion sha d = (us, Inr ''completed'')
    \<and> apply_writes us d = fmdrop PromotionPendingPath (fmupd PromotionPath (PromotionFile s)
        (if head_or_zero d = Inr (head_of_event e) then d
         else fmupd AuditHeadPath (AuditHeadFile (head_of_event e)) (fmupd (AuditPath (pv_sequence e) (pv_sha e)) (AuditFile e) d)))"
proof -
  have rec: "RecoverPromotion sha d = andThen (appendAudit sha e) (\<lambda>_. andThen (writep (Put PromotionPath (PromotionFile s))) (\<lambda>_.
            andThen (writep (Remove PromotionPendingPath)) (\<lambda>_. ret ''completed''))) d"
    using pend schema by (simp add: RecoverPromotion_def decodeStrictFile_def pending_file_def)
  show ?thesis
  proof (cases "head_or_zero d = Inr (head_of_event e)")
    case True
    then show ?thesis
      using appendAudit_again [OF v True] by (simp add: rec andThen_def)
  next
    case False
    then obtain h where h: "head_or_zero d = Inr h" "pv_sequence e = ph_sequence h + 1" "pv_previous e = ph_sha h"
      "fmlookup d (AuditPath (pv_sequence e) (pv_sha e)) \<in> {None, Some (AuditFile e)}"
      using audit by blast
    have "appendAudit sha e d = (audit_writes e d @ [Put AuditHeadPath (AuditHeadFile (head_of_event e))], Inr ())"
      using appendAudit_next [OF h(1,2), of sha] v h(3,4) by blast
    moreover have "apply_writes (audit_writes e d) d = fmupd (AuditPath (pv_sequence e) (pv_sha e)) (AuditFile e) d"
      using h(4) fmupd_same [of d] by (auto simp: audit_writes_def)
    ultimately show ?thesis
      using False by (simp add: rec andThen_def)
  qed
qed

lemma take_cases4:
  "take n [a, b, c] = [] \<and> n = 0 \<or> take n [a, b, c] = [a] \<and> n = 1 \<or> take n [a, b, c] = [a, b] \<and> n = 2
    \<or> take n [a, b, c] = [a, b, c] \<and> 3 \<le> n"
proof -
  consider "n = 0" | "n = 1" | "n = 2" | "3 \<le> n"
    by linarith
  then show ?thesis
    by cases (simp_all add: numeral_2_eq_2)
qed

lemma commit_recover:
  assumes c: "commitState sha s ty actor reason payload now d = (ws, Inr u)"
    and schema: "ps_schema s = ''openwatchlist.activation-promotion-state.v1''"
    and clean: "fmlookup d PromotionPendingPath = None"
    and pend: "fmlookup (apply_writes (take k ws) d) PromotionPendingPath \<noteq> None"
  shows "\<exists>us. RecoverPromotion sha (apply_writes (take k ws) d) = (us, Inr ''completed'')
    \<and> apply_writes us (apply_writes (take k ws) d) = apply_writes ws d"
proof -
  obtain e h where v: "verifyAuditEvent sha e = Inr ()" and h: "head_or_zero d = Inr h" "pv_sequence e = ph_sequence h + 1" "pv_previous e = ph_sha h"
    and sn: "fmlookup d (SnapshotPath (ps_intent s) (ps_revision s)) \<in> {None, Some (PromotionFile s)}"
    and au: "fmlookup d (AuditPath (pv_sequence e) (pv_sha e)) \<in> {None, Some (AuditFile e)}"
    and ws: "ws = snapshot_writes s d @ [Put PromotionPendingPath (pending_file s e)] @ audit_writes e d
        @ [Put AuditHeadPath (AuditHeadFile (head_of_event e)), Put PromotionPath (PromotionFile s), Remove PromotionPendingPath]"
    using commit_writes [OF c] by blast
  let ?pre = "snapshot_writes s d @ [Put PromotionPendingPath (pending_file s e)]"
  let ?tail = "[Put AuditHeadPath (AuditHeadFile (head_of_event e)), Put PromotionPath (PromotionFile s), Remove PromotionPendingPath]"
  have whole: "apply_writes ws d = committed s e d"
    using sn au unfolding ws by (intro fmap_ext) (auto simp: snapshot_writes_def audit_writes_def committed_def)
  have k: "length (snapshot_writes s d) < k"
  proof (rule ccontr)
    assume "\<not> length (snapshot_writes s d) < k"
    then have "take k ws = take k (snapshot_writes s d)"
      by (simp add: ws)
    then have "fmlookup (apply_writes (take k ws) d) PromotionPendingPath = None"
      using clean by (cases k) (auto simp: snapshot_writes_def)
    then show False
      using pend by simp
  qed
  obtain i n where t: "take k ws = ?pre @ take i (audit_writes e d) @ take n ?tail" "n = 0 \<or> take i (audit_writes e d) = audit_writes e d"
  proof -
    have "ws = ?pre @ (audit_writes e d @ ?tail)"
      by (simp add: ws)
    then have "take k ws = take k ?pre @ take (k - length ?pre) (audit_writes e d @ ?tail)"
      by (metis take_append)
    then have "take k ws = ?pre @ take (k - length ?pre) (audit_writes e d @ ?tail)"
      using k by simp
    moreover obtain i n where "take (k - length ?pre) (audit_writes e d @ ?tail) = take i (audit_writes e d) @ take n ?tail"
      and in_order: "n = 0 \<or> take i (audit_writes e d) = audit_writes e d"
      using ActivationProofs.take_split by blast
    ultimately have "take k ws = ?pre @ take i (audit_writes e d) @ take n ?tail"
      by (simp only:)
    then show thesis
      using in_order by (rule that)
  qed
  let ?d = "apply_writes (take k ws) d"
  have n: "n \<le> 2"
  proof (rule ccontr)
    assume "\<not> n \<le> 2"
    then have "take n ?tail = ?tail"
      by simp
    then have "fmlookup ?d PromotionPendingPath = None"
      unfolding t(1) by simp
    then show False
      using pend by simp
  qed
  have aw: "take i (audit_writes e d) = [] \<or> take i (audit_writes e d) = [Put (AuditPath (pv_sequence e) (pv_sha e)) (AuditFile e)]"
    by (cases i) (auto simp: audit_writes_def)
  have p: "fmlookup ?d PromotionPendingPath = Some (pending_file s e)"
    using n aw unfolding t(1) by (elim disjE; cases "n = 0"; cases "n = 1") (auto simp: numeral_2_eq_2 le_Suc_eq)
  have head: "head_or_zero ?d = (if n = 0 then Inr h else Inr (head_of_event e))"
  proof (cases "n = 0")
    case True
    then have "fmlookup ?d AuditHeadPath = fmlookup d AuditHeadPath"
      using aw unfolding t(1) by (auto simp: snapshot_writes_def)
    then show ?thesis
      using True h(1) head_or_zero_cong by metis
  next
    case False
    then have "fmlookup ?d AuditHeadPath = Some (AuditHeadFile (head_of_event e))"
      using n unfolding t(1) by (cases "n = 1") (auto simp: numeral_2_eq_2 le_Suc_eq)
    then show ?thesis
      using False head_of_event_loads [OF v] by simp
  qed
  have aud: "fmlookup ?d (AuditPath (pv_sequence e) (pv_sha e)) \<in> {None, Some (AuditFile e)}"
    using au aw n unfolding t(1) by (elim disjE; cases "n = 0"; cases "n = 1") (auto simp: numeral_2_eq_2 le_Suc_eq snapshot_writes_def)
  have ne: "n = 0 \<Longrightarrow> h \<noteq> head_of_event e"
  proof
    assume "h = head_of_event e"
    then have "ph_sequence h = pv_sequence e"
      by (simp add: head_of_event_def)
    then show False
      using h(2) by simp
  qed
  obtain us where us: "RecoverPromotion sha ?d = (us, Inr ''completed'')"
    "apply_writes us ?d = fmdrop PromotionPendingPath (fmupd PromotionPath (PromotionFile s)
        (if head_or_zero ?d = Inr (head_of_event e) then ?d
         else fmupd AuditHeadPath (AuditHeadFile (head_of_event e)) (fmupd (AuditPath (pv_sequence e) (pv_sha e)) (AuditFile e) ?d)))"
    using recover_commit_pending [OF p schema v] head h(2,3) aud by (auto split: if_splits)
  have "apply_writes us ?d = committed s e d"
  proof (cases "n = 0")
    case True
    then have "apply_writes us ?d = fmdrop PromotionPendingPath (fmupd PromotionPath (PromotionFile s)
        (fmupd AuditHeadPath (AuditHeadFile (head_of_event e)) (fmupd (AuditPath (pv_sequence e) (pv_sha e)) (AuditFile e) ?d)))"
      using us(2) head ne by simp
    also have "\<dots> = committed s e d"
      using sn aw True unfolding t(1) by (intro fmap_ext) (auto simp: committed_def snapshot_writes_def)
    finally show ?thesis .
  next
    case False
    then have "take i (audit_writes e d) = audit_writes e d"
      using t(2) by simp
    then have d: "?d = apply_writes (take n ?tail) (apply_writes (audit_writes e d) (apply_writes ?pre d))"
      unfolding t(1) by simp
    have "apply_writes us ?d = fmdrop PromotionPendingPath (fmupd PromotionPath (PromotionFile s) ?d)"
      using us(2) head False by simp
    also have "\<dots> = committed s e d"
      using sn au False n unfolding d
      by (intro fmap_ext, cases "n = 1") (auto simp: committed_def snapshot_writes_def audit_writes_def numeral_2_eq_2 le_Suc_eq)
    finally show ?thesis .
  qed
  then show ?thesis
    using us(1) whole by auto
qed

end
