(* ===== verification/PromotionAtomic.thy ===== *)
theory PromotionAtomic imports PromotionRecovery begin

text \<open>
  The five operations that commit a state: their writes are some preparation, which touches neither the
  state nor the pending document, followed by the writes of one commit. Hence each of them is atomic
  after recovery.
\<close>

fun transaction :: "activation_env \<Rightarrow> promotion_op \<Rightarrow> promotion_status promotion_prog option" where
  "transaction env (PoPrepare art q c u n) = Some (Prepare env art q c u n)"
| "transaction env (PoEvaluate e s a r u n) = Some (Evaluate (pe_sha env) e s a r u n)"
| "transaction env (PoStartCanary e a r u n) = Some (StartCanary (pe_sha env) e a r u n)"
| "transaction env (PoPromote art e a r u n) = Some (Promote env art e a r u n)"
| "transaction env (PoRollback art e a r u n) = Some (RollbackPromotion env art e a r u n)"
| "transaction env _ = None"

fun prep_path :: "state_path \<Rightarrow> bool" where
  "prep_path (IntentPath i) = True"
| "prep_path (ReportPath i h) = True"
| "prep_path p = active_path p"

definition preparation :: "state_write list \<Rightarrow> bool" where
  "preparation pre \<longleftrightarrow> path_of ` set pre \<subseteq> Collect prep_path"

definition commits :: "(string \<Rightarrow> string) \<Rightarrow> state_files \<Rightarrow> state_write list \<Rightarrow> promotion_status \<Rightarrow> bool" where
  "commits sha d ws st \<longleftrightarrow>
     (\<exists>pre cs s ty actor reason payload now. ws = pre @ cs \<and> preparation pre
        \<and> commitState sha s ty actor reason payload now (apply_writes pre d) = (cs, Inr ())
        \<and> ps_schema s = ''openwatchlist.activation-promotion-state.v1'' \<and> Status (apply_writes ws d) = Inr st)"

lemma commit_and_report_ok:
  "commit_and_report sha s ty actor reason payload now d = (ws, Inr st) \<longleftrightarrow>
     commitState sha s ty actor reason payload now d = (ws, Inr ()) \<and> Status (apply_writes ws d) = Inr st"
  by (auto simp: commit_and_report_def andThen_ok)

lemma commitsI:
  assumes "preparation pre" and "commit_and_report sha s ty actor reason payload now (apply_writes pre d) = (cs, Inr st)"
    and "ps_schema s = ''openwatchlist.activation-promotion-state.v1''"
  shows "commits sha d (pre @ cs) st"
proof -
  have "commitState sha s ty actor reason payload now (apply_writes pre d) = (cs, Inr ())" "Status (apply_writes (pre @ cs) d) = Inr st"
    using assms(2) by (simp_all add: commit_and_report_ok)
  then show ?thesis
    unfolding commits_def using assms(1,3) by blast
qed

lemma immutable_preparation:
  "immutable err p c d = (ws, Inr u) \<Longrightarrow> prep_path p \<Longrightarrow> preparation ws"
  by (auto simp: immutable_writes preparation_def)

lemma move_preparation: "preparation (move_writes t p)" "preparation []"
  by (auto simp: preparation_def move_writes_paths)

lemma lift_ok: "lift_errors g p d = (ws, Inr x) \<longleftrightarrow> p d = (ws, Inr x)"
  by (auto simp: lift_errors_def map_error_def split: prod.splits sum.splits)

lemma guard_ok: "(if b then failp e else q) d = (ws, Inr y) \<longleftrightarrow> \<not> b \<and> q d = (ws, Inr y)"
  by simp

lemma read_ok: "andThen (readp f) g d = (ws, Inr y) \<longleftrightarrow> (\<exists>x. f d = Inr x \<and> g x d = (ws, Inr y))"
  by (auto simp: andThen_readp split: sum.splits)

lemma map_error_ok: "map_error f r = Inr x \<longleftrightarrow> r = Inr x"
  by (cases r) (auto simp: map_error_def)

lemmas step_ok = read_ok guard_ok andThen_ok [where p = "immutable e p c" for e p c] andThen_ok [where p = "lift_errors f p" for f p]
  lift_ok map_error_ok

text \<open>What a successful operation has checked, and what it commits.\<close>

definition prepared_intent :: "prepare_request \<Rightarrow> string \<Rightarrow> string \<Rightarrow> string \<Rightarrow> string \<Rightarrow> string \<Rightarrow> intent" where
  "prepared_intent q created cur x cand y =
     \<lparr>it_schema = ''openwatchlist.activation-promotion-intent.v1'', it_id = pq_intent q, it_created = created,
      it_operator = TrimSpace (pq_operator q), it_reason = TrimSpace (pq_reason q), it_current = cur,
      it_current_sha = x, it_candidate = cand, it_candidate_sha = y, it_bps = pq_bps q,
      it_allowlist = normalizedAllowlist (pq_allowlist q), it_acks = pq_acks q, it_thresholds = pq_thresholds q\<rparr>"

definition prepared_state :: "prepare_request \<Rightarrow> string \<Rightarrow> string \<Rightarrow> string \<Rightarrow> promotion_state" where
  "prepared_state q cur cand updated =
     \<lparr>ps_schema = ''openwatchlist.activation-promotion-state.v1'', ps_intent = pq_intent q, ps_revision = 1,
      ps_phase = ''prepared'', ps_current = cur, ps_candidate = cand, ps_updated = updated, ps_report = [], ps_blockers = []\<rparr>"

lemma Prepare_parts:
  assumes "Prepare env art q created updated now d = (ws, Inr st)"
  shows "\<exists>current cand x y pre cs. let cur = av_id (sn_activation current);
      i = prepared_intent q created cur x cand y in
    LoadActive env art d = Inr current
    \<and> immutable ImmutableConflict (IntentPath (pq_intent q)) (IntentFile i) d = (pre, Inr ())
    \<and> commit_and_report (pe_sha env) (prepared_state q cur cand updated) ''promotion_prepared'' (it_operator i) (it_reason i)
        [(''current_activation_id'', JStr cur), (''candidate_activation_id'', JStr cand)] now (apply_writes pre d) = (cs, Inr st)
    \<and> ws = pre @ cs"
  using assms unfolding Prepare_def activation_read_def Let_def prepared_intent_def prepared_state_def
  by (clarsimp simp add: step_ok simp del: prog_simps) (intro exI conjI, assumption, assumption, rule refl)

definition evaluated_state :: "intent \<Rightarrow> shadow_summary \<Rightarrow> string \<Rightarrow> promotion_state \<Rightarrow> promotion_state" where
  "evaluated_state i summary updated s =
     (let blockers = evaluateSummary (it_thresholds i) summary in
      s\<lparr>ps_revision := ps_revision s + 1, ps_updated := updated, ps_report := ss_sha summary,
        ps_blockers := blockers, ps_phase := (if blockers \<noteq> [] then ''blocked'' else ''validated'')\<rparr>)"

lemma Evaluate_parts:
  assumes "Evaluate sha expected summary actor reason updated now d = (ws, Inr st)"
  shows "\<exists>i s ty pl pre cs. at_revision expected d = Inr (i, s) \<and> ps_phase s \<in> {''prepared'', ''validated'', ''blocked''}
    \<and> verifySummary sha summary = Inr () \<and> ss_intent summary = it_id i
    \<and> immutable ImmutableConflict (ReportPath (it_id i) (ss_sha summary)) (ReportFile summary) d = (pre, Inr ())
    \<and> commit_and_report sha (evaluated_state i summary updated s) ty actor reason pl now (apply_writes pre d) = (cs, Inr st) \<and> ws = pre @ cs"
  using assms unfolding Evaluate_def Let_def evaluated_state_def
  by (clarsimp simp add: step_ok simp del: prog_simps split del: if_split) blast

lemma StartCanary_parts:
  assumes "StartCanary sha expected actor reason updated now d = (ws, Inr st)"
  shows "\<exists>i s. at_revision expected d = Inr (i, s) \<and> ps_phase s = ''validated''
    \<and> commit_and_report sha (s\<lparr>ps_revision := ps_revision s + 1, ps_phase := ''canary'', ps_updated := updated\<rparr>)
            ''canary_started'' actor reason [] now d = (ws, Inr st)"
  using assms unfolding StartCanary_def transition_def
  by (auto simp: step_ok simp del: prog_simps)

lemma Promote_parts:
  assumes "Promote env art expected actor reason updated now d = (ws, Inr st)"
  shows "\<exists>i s x n pre cs. at_revision expected d = Inr (i, s) \<and> ps_phase s = ''canary''
    \<and> readyAckCount (it_id i) (it_candidate i) d = Inr n \<and> it_acks i \<le> n
    \<and> PromoteExisting env art (it_candidate i) (it_current i) d = (pre, Inr x)
    \<and> commit_and_report (pe_sha env)
           (s\<lparr>ps_revision := ps_revision s + 1, ps_phase := ''promoted'', ps_updated := updated, ps_blockers := []\<rparr>)
           ''promotion_completed'' actor reason [(''ready_ack_count'', JInt n)] now (apply_writes pre d) = (cs, Inr st)
    \<and> ws = pre @ cs"
  using assms unfolding Promote_def
  by (auto simp: step_ok not_less simp del: prog_simps)

lemma Rollback_parts:
  assumes "RollbackPromotion env art expected actor reason updated now d = (ws, Inr st)"
  shows "\<exists>i s x pre cs. at_revision expected d = Inr (i, s) \<and> ps_phase s = ''promoted''
    \<and> PromoteExisting env art (it_current i) (it_candidate i) d = (pre, Inr x)
    \<and> commit_and_report (pe_sha env)
           (s\<lparr>ps_revision := ps_revision s + 1, ps_phase := ''rolled_back'', ps_updated := updated\<rparr>)
           ''promotion_rolled_back'' actor reason [] now (apply_writes pre d) = (cs, Inr st)
    \<and> ws = pre @ cs"
  using assms unfolding RollbackPromotion_def
  by (auto simp: step_ok simp del: prog_simps)

lemma publish_preparation: "PromoteExisting env art t c d = (ws, r) \<Longrightarrow> preparation ws"
  using PromoteExisting_writes [of env art t c d ws] move_preparation by auto

lemma stored_schema: "at_revision n d = Inr (i, s) \<Longrightarrow> ps_schema s = ''openwatchlist.activation-promotion-state.v1''"
  by (simp add: at_revision_Inr intentAndState_Inr)

lemma transaction_commits:
  assumes "transaction env op = Some p" and "p d = (ws, Inr st)"
  shows "commits (pe_sha env) d ws st"
proof (cases op)
  case (PoPrepare art q c u n)
  then have "Prepare env art q c u n d = (ws, Inr st)"
    using assms by simp
  from Prepare_parts [OF this] obtain s ty who why pl f pre cs where
    x: "immutable ImmutableConflict (IntentPath (pq_intent q)) f d = (pre, Inr ())" "ws = pre @ cs"
    "commit_and_report (pe_sha env) s ty who why pl n (apply_writes pre d) = (cs, Inr st)"
    "ps_schema s = ''openwatchlist.activation-promotion-state.v1''"
    unfolding Let_def prepared_state_def by fastforce
  show ?thesis
    unfolding x(2) by (intro commitsI [OF immutable_preparation [OF x(1)] x(3,4)]) simp
next
  case (PoEvaluate e sm a r u n)
  then have "Evaluate (pe_sha env) e sm a r u n d = (ws, Inr st)"
    using assms by simp
  from Evaluate_parts [OF this] obtain i s ty pl pre cs where x: "at_revision e d = Inr (i, s)"
    "immutable ImmutableConflict (ReportPath (it_id i) (ss_sha sm)) (ReportFile sm) d = (pre, Inr ())"
    "commit_and_report (pe_sha env) (evaluated_state i sm u s) ty a r pl n (apply_writes pre d) = (cs, Inr st)" "ws = pre @ cs"
    by blast
  show ?thesis
    unfolding x(4) using stored_schema [OF x(1)]
    by (intro commitsI [OF immutable_preparation [OF x(2)] x(3)]) (simp_all add: evaluated_state_def Let_def)
next
  case (PoStartCanary e a r u n)
  then have "StartCanary (pe_sha env) e a r u n d = (ws, Inr st)"
    using assms by simp
  from StartCanary_parts [OF this] obtain i s where x: "at_revision e d = Inr (i, s)"
    "commit_and_report (pe_sha env) (s\<lparr>ps_revision := ps_revision s + 1, ps_phase := ''canary'', ps_updated := u\<rparr>)
            ''canary_started'' a r [] n (apply_writes [] d) = (ws, Inr st)"
    by auto
  show ?thesis
    using commitsI [OF move_preparation(2) x(2)] stored_schema [OF x(1)] by simp
next
  case (PoPromote art e a r u n)
  then have "Promote env art e a r u n d = (ws, Inr st)"
    using assms by simp
  from Promote_parts [OF this] obtain i s x m pre cs where x: "at_revision e d = Inr (i, s)"
    "PromoteExisting env art (it_candidate i) (it_current i) d = (pre, Inr x)" "ws = pre @ cs"
    "commit_and_report (pe_sha env)
           (s\<lparr>ps_revision := ps_revision s + 1, ps_phase := ''promoted'', ps_updated := u, ps_blockers := []\<rparr>)
           ''promotion_completed'' a r [(''ready_ack_count'', JInt m)] n (apply_writes pre d) = (cs, Inr st)"
    by auto
  show ?thesis
    unfolding x(3) using stored_schema [OF x(1)] by (intro commitsI [OF publish_preparation [OF x(2)] x(4)]) simp
next
  case (PoRollback art e a r u n)
  then have "RollbackPromotion env art e a r u n d = (ws, Inr st)"
    using assms by simp
  from Rollback_parts [OF this] obtain i s x pre cs where x: "at_revision e d = Inr (i, s)"
    "PromoteExisting env art (it_current i) (it_candidate i) d = (pre, Inr x)" "ws = pre @ cs"
    "commit_and_report (pe_sha env)
           (s\<lparr>ps_revision := ps_revision s + 1, ps_phase := ''rolled_back'', ps_updated := u\<rparr>)
           ''promotion_rolled_back'' a r [] n (apply_writes pre d) = (cs, Inr st)"
    by auto
  show ?thesis
    unfolding x(3) using stored_schema [OF x(1)] by (intro commitsI [OF publish_preparation [OF x(2)] x(4)]) simp
qed (use assms in simp_all)

text \<open>The state and the pending document during a commit.\<close>

lemma commit_state_early:
  assumes c: "commitState sha s ty actor reason payload now d = (ws, Inr u)"
    and clean: "fmlookup d PromotionPendingPath = None" and cut: "fmlookup (apply_writes (take k ws) d) PromotionPendingPath = None"
  shows "fmlookup (apply_writes (take k ws) d) PromotionPath = fmlookup d PromotionPath \<or> take k ws = ws"
proof -
  obtain e where ws: "ws = snapshot_writes s d @ [Put PromotionPendingPath (pending_file s e)] @ audit_writes e d
        @ [Put AuditHeadPath (AuditHeadFile (head_of_event e)), Put PromotionPath (PromotionFile s), Remove PromotionPendingPath]"
    using commit_writes [OF c] by blast
  let ?n = "length (snapshot_writes s d)"
  show ?thesis
  proof (cases "k \<le> ?n")
    case True
    then have "take k ws = take k (snapshot_writes s d)"
      by (simp add: ws)
    then show ?thesis
      by (cases k) (auto simp: snapshot_writes_def)
  next
    case False
    let ?body = "audit_writes e d @ [Put AuditHeadPath (AuditHeadFile (head_of_event e)), Put PromotionPath (PromotionFile s)]"
    obtain m where m: "k = ?n + Suc m"
      using False by (metis add_Suc_right less_imp_Suc_add not_le)
    have t: "take k ws = snapshot_writes s d @ Put PromotionPendingPath (pending_file s e) # take m (?body @ [Remove PromotionPendingPath])"
      by (simp add: ws m)
    have "take k ws = ws"
    proof (cases "m \<le> length ?body")
      case True
      have "PromotionPendingPath \<notin> path_of ` set ?body"
        by (auto simp: audit_writes_def)
      then have no: "PromotionPendingPath \<notin> path_of ` set (take m ?body)"
        by (meson image_mono set_take_subset subsetD)
      have t': "take k ws = snapshot_writes s d @ Put PromotionPendingPath (pending_file s e) # take m ?body"
        using True unfolding t take_append by simp
      have "fmlookup (apply_writes (take k ws) d) PromotionPendingPath = Some (pending_file s e)"
        unfolding t' apply_writes_simps using no by (subst lookup_untouched) simp_all
      then show ?thesis
        using cut by simp
    next
      case False
      then show ?thesis
        by (simp add: ws m)
    qed
    then show ?thesis ..
  qed
qed


text \<open>A transaction that is cut off: nothing happened yet, everything happened, or recovery completes it.\<close>

lemma commits_atomic:
  assumes c: "commits sha d ws st" and clean: "fmlookup d PromotionPendingPath = None" and d': "d' = apply_writes (take k ws) d"
  shows "(fmlookup d' PromotionPendingPath = None \<and> (fmlookup d' PromotionPath = fmlookup d PromotionPath \<or> d' = apply_writes ws d))
    \<or> (\<exists>us. RecoverPromotion sha d' = (us, Inr ''completed'') \<and> apply_writes us d' = apply_writes ws d)"
proof -
  obtain pre cs s ty actor reason payload now where ws: "ws = pre @ cs" and pre: "preparation pre"
    and cs: "commitState sha s ty actor reason payload now (apply_writes pre d) = (cs, Inr ())"
    and schema: "ps_schema s = ''openwatchlist.activation-promotion-state.v1''"
    using c unfolding commits_def by blast
  have same: "fmlookup (apply_writes us d) p = fmlookup d p"
    if "set us \<subseteq> set pre" "p \<in> {PromotionPath, PromotionPendingPath}" for us p
  proof (rule lookup_untouched)
    have "p \<notin> path_of ` set pre"
      using pre that(2) unfolding preparation_def by auto
    then show "p \<notin> path_of ` set us"
      using that(1) by blast
  qed
  show ?thesis
  proof (cases "k \<le> length pre")
    case True
    then have "d' = apply_writes (take k pre) d"
      by (simp add: d' ws)
    then show ?thesis
      using same [OF set_take_subset] clean by simp
  next
    case False
    then obtain j where t: "take k ws = pre @ take j cs"
      by (simp add: ws)
    let ?d = "apply_writes pre d"
    have base: "fmlookup ?d PromotionPendingPath = None" "fmlookup ?d PromotionPath = fmlookup d PromotionPath"
      using same [of pre] clean by simp_all
    have d'': "d' = apply_writes (take j cs) ?d"
      by (simp add: d' t)
    show ?thesis
    proof (cases "fmlookup d' PromotionPendingPath = None")
      case True
      then show ?thesis
        using commit_state_early [OF cs base(1), of j] base(2) unfolding d'' ws by auto
    next
      case False
      then show ?thesis
        using commit_recover [OF cs schema base(1), of j] unfolding d'' ws by auto
    qed
  qed
qed

end
