(* ===== verification/PromotionAudit.thy ===== *)
theory PromotionAudit imports PromotionAtomic begin

text \<open>
  The audit log of the promotion manager as a hash chain, and the directories that the operations
  produce when interrupted transactions are recovered before the next operation.
\<close>

section \<open>The log\<close>

abbreviation audit_chain :: "(string \<Rightarrow> string) \<Rightarrow> promotion_event list \<Rightarrow> bool" where
  "audit_chain sha evs \<equiv> chain_ok pv_sequence pv_previous pv_sha (\<lambda>e. event_digest sha (clear_event e)) 0 [] evs"

definition audit_log :: "(string \<Rightarrow> string) \<Rightarrow> promotion_event list \<Rightarrow> state_files \<Rightarrow> bool" where
  "audit_log sha evs d \<longleftrightarrow>
     audit_chain sha evs \<and> (\<forall>e \<in> set evs. verifyAuditEvent sha e = Inr ()) \<and> length evs < 2 ^ 63
     \<and> (\<forall>n h c. fmlookup d (AuditPath n h) = Some c \<longleftrightarrow> (\<exists>e \<in> set evs. n = pv_sequence e \<and> h = pv_sha e \<and> c = AuditFile e))
     \<and> fmlookup d AuditHeadPath = (if evs = [] then None else Some (AuditHeadFile (head_of_event (last evs))))"

fun audit_path :: "state_path \<Rightarrow> bool" where
  "audit_path AuditHeadPath = True"
| "audit_path (AuditPath n h) = True"
| "audit_path _ = False"

lemma audit_log_cong:
  "(\<And>p. audit_path p \<Longrightarrow> fmlookup d p = fmlookup d' p) \<Longrightarrow> audit_log sha evs d = audit_log sha evs d'"
  by (simp add: audit_log_def)

lemma audit_log_frame: "path_of ` set ws \<inter> Collect audit_path = {} \<Longrightarrow> audit_log sha evs (apply_writes ws d) = audit_log sha evs d"
  by (rule audit_log_cong) (auto intro: lookup_untouched)

lemma audit_log_empty: "(\<And>p. audit_path p \<Longrightarrow> fmlookup d p = None) \<Longrightarrow> audit_log sha [] d"
  by (simp add: audit_log_def)

lemma audit_sequence:
  assumes "audit_log sha evs d" and "k < length evs"
  shows "pv_sequence (evs ! k) = of_nat (Suc k)" "pv_previous (evs ! k) = chain_head pv_sha [] (take k evs)"
  using assms promotion_log.sequence_of_nth [of sha 0 "[]" evs k] promotion_log.prev_of_nth [of sha 0 "[]" evs k]
  by (simp_all add: audit_log_def)

lemma of_nat_63: "m < 2 ^ 63 \<Longrightarrow> n < 2 ^ 63 \<Longrightarrow> (of_nat m :: 64 word) = of_nat n \<longleftrightarrow> m = n"
  by (simp add: word_unat_eq_iff unat_of_nat take_bit_nat_eq_self)

lemma sint_63: "n < 2 ^ 63 \<Longrightarrow> sint (of_nat n :: 64 word) = int n"
  by (simp add: signed_of_nat signed_take_bit_int_eq_self)

lemma sint_63_bound: "n < 2 ^ 63 \<Longrightarrow> 1 \<le> sint (of_nat (Suc n) :: 64 word) \<Longrightarrow> Suc n < 2 ^ 63"
proof (rule ccontr)
  assume n: "n < 2 ^ 63" "1 \<le> sint (of_nat (Suc n) :: 64 word)" "\<not> Suc n < 2 ^ 63"
  then have "Suc n = 2 ^ 63"
    by linarith
  then have "sint (of_nat (Suc n) :: 64 word) = - (2 ^ 63)"
    by (simp only: signed_of_nat) (simp add: signed_take_bit_eq_take_bit_minus)
  then show False
    using n(2) by simp
qed

lemma audit_event_at:
  assumes log: "audit_log sha evs d" and k: "k < length evs" and e: "e \<in> set evs" "pv_sequence e = of_nat (Suc k)"
  shows "e = evs ! k"
proof -
  obtain j where j: "j < length evs" "e = evs ! j"
    using e(1) by (auto simp: in_set_conv_nth)
  have "(of_nat (Suc j) :: 64 word) = of_nat (Suc k)"
    using audit_sequence(1) [OF log j(1)] j(2) e(2) by simp
  moreover have "Suc j < 2 ^ 63 \<or> Suc j = 2 ^ 63" "Suc k < 2 ^ 63 \<or> Suc k = 2 ^ 63" "length evs < 2 ^ 63"
    using j k log by (auto simp: audit_log_def)
  ultimately have "Suc j = Suc k"
    using of_nat_63 [of "Suc j" "Suc k"] j(1) k by linarith
  then show ?thesis
    using j(2) by simp
qed

section \<open>Verification\<close>

lemma audit_name_Some: "audit_name p = Some (n, h) \<longleftrightarrow> p = AuditPath n h"
  by (cases p) auto

lemma set_audit_files: "set (audit_files n d) = {h. AuditPath n h |\<in>| fmdom d}"
proof (intro set_eqI iffI)
  fix h
  assume "h \<in> set (audit_files n d)"
  then obtain p m g where "p |\<in>| fmdom d" "audit_name p = Some (m, g)" "m = n" "h = g"
    by (auto simp: audit_files_def)
  then show "h \<in> {h. AuditPath n h |\<in>| fmdom d}"
    by (simp add: audit_name_Some)
next
  fix h
  assume "h \<in> {h. AuditPath n h |\<in>| fmdom d}"
  then have "AuditPath n h |\<in>| ffilter (\<lambda>p. audit_name p \<noteq> None \<and> fst (the (audit_name p)) = n) (fmdom d)"
    by simp
  then have "snd (the (audit_name (AuditPath n h))) |\<in>| (\<lambda>p. snd (the (audit_name p))) |`|
      ffilter (\<lambda>p. audit_name p \<noteq> None \<and> fst (the (audit_name p)) = n) (fmdom d)"
    by (rule fimageI)
  then show "h \<in> set (audit_files n d)"
    by (simp add: audit_files_def)
qed

lemma audit_files_one:
  assumes "{h. AuditPath n h |\<in>| fmdom d} = {h}"
  shows "audit_files n d = [h]"
proof -
  have "distinct (audit_files n d)"
    by (simp add: audit_files_def sorted_list_of_fset.rep_eq)
  then have "length (audit_files n d) = card (set (audit_files n d))"
    by (simp add: distinct_card)
  then have "length (audit_files n d) = 1" "set (audit_files n d) = {h}"
    using assms by (simp_all add: set_audit_files)
  then show ?thesis
    by (cases "audit_files n d") auto
qed

lemma audit_files_at:
  assumes log: "audit_log sha evs d" and k: "k < length evs"
  shows "audit_files (of_nat (Suc k)) d = [pv_sha (evs ! k)]"
proof (rule audit_files_one, rule set_eqI)
  fix h
  have "AuditPath (of_nat (Suc k)) h |\<in>| fmdom d \<longleftrightarrow> (\<exists>c. fmlookup d (AuditPath (of_nat (Suc k)) h) = Some c)"
    by (simp add: fmlookup_dom_iff)
  also have "\<dots> \<longleftrightarrow> (\<exists>e \<in> set evs. of_nat (Suc k) = pv_sequence e \<and> h = pv_sha e)"
    using log unfolding audit_log_def by blast
  also have "\<dots> \<longleftrightarrow> h = pv_sha (evs ! k)"
    using audit_event_at [OF log k] audit_sequence(1) [OF log k] nth_mem [OF k] by metis
  finally show "h \<in> {h. AuditPath (of_nat (Suc k)) h |\<in>| fmdom d} \<longleftrightarrow> h \<in> {pv_sha (evs ! k)}"
    by simp
qed

lemma verify_from:
  assumes log: "audit_log sha evs d"
  shows "k \<le> length evs \<Longrightarrow> verify_loop sha d (chain_head pv_sha [] (take k evs)) (map of_nat [Suc k..<Suc (length evs)])
    = Inr (chain_head pv_sha [] evs)"
proof (induction "length evs - k" arbitrary: k)
  case 0
  then show ?case
    by simp
next
  case (Suc m)
  then have k: "k < length evs"
    by simp
  then have l: "map of_nat [Suc k..<Suc (length evs)] = (of_nat (Suc k) :: 64 word) # map of_nat [Suc (Suc k)..<Suc (length evs)]"
    by (simp add: upt_conv_Cons del: upt_Suc)
  have e: "evs ! k \<in> set evs" "pv_sequence (evs ! k) = of_nat (Suc k)" "pv_previous (evs ! k) = chain_head pv_sha [] (take k evs)"
    using k audit_sequence [OF log k] by simp_all
  then have "fmlookup d (AuditPath (of_nat (Suc k)) (pv_sha (evs ! k))) = Some (AuditFile (evs ! k))"
    using log unfolding audit_log_def by metis
  then have dec: "decodeStrictFile NoState Undecodable as_event (AuditPath (of_nat (Suc k)) (pv_sha (evs ! k))) d = Inr (evs ! k)"
    by (simp add: decodeStrictFile_Inr)
  have v: "verifyAuditEvent sha (evs ! k) = Inr ()"
    using log e(1) by (simp add: audit_log_def)
  have h: "chain_head pv_sha [] (take (Suc k) evs) = pv_sha (evs ! k)"
    using k by (simp add: take_Suc_conv_app_nth)
  show ?case
    unfolding l verify_loop.simps audit_files_at [OF log k] list.case
    using dec v e Suc(1) [of "Suc k"] Suc(2) k h by (simp del: upt_Suc)
qed

lemma audit_head:
  assumes log: "audit_log sha evs d"
  shows "\<exists>h. head_or_zero d = Inr h \<and> ph_sequence h = of_nat (length evs) \<and> ph_sha h = chain_head pv_sha [] evs"
proof (cases "evs = []")
  case True
  then have "fmlookup d AuditHeadPath = None"
    using log by (simp add: audit_log_def)
  then show ?thesis
    using True by (simp add: head_or_zero_def loadAuditHead_def decodeStrictFile_def)
next
  case False
  then have k: "length evs - 1 < length evs" "Suc (length evs - 1) = length evs"
    by simp_all
  have "last evs = evs ! (length evs - 1)"
    using False by (simp add: last_conv_nth)
  then have "pv_sequence (last evs) = of_nat (length evs)"
    using audit_sequence(1) [OF log k(1)] k(2) by simp
  moreover have "verifyAuditEvent sha (last evs) = Inr ()" "fmlookup d AuditHeadPath = Some (AuditHeadFile (head_of_event (last evs)))"
    using log False by (simp_all add: audit_log_def)
  ultimately show ?thesis
    using False head_of_event_loads [of sha "last evs" "()" d] by (simp add: head_of_event_def chain_head_def)
qed

lemma audit_log_verifies:
  assumes log: "audit_log sha evs d"
  shows "VerifyAudit sha d = Inr ()"
proof (cases "evs = []")
  case True
  then have "fmlookup d AuditHeadPath = None"
    using log by (simp add: audit_log_def)
  then show ?thesis
    by (simp add: VerifyAudit_def loadAuditHead_def decodeStrictFile_def)
next
  case False
  then have v: "verifyAuditEvent sha (last evs) = Inr ()" and h: "fmlookup d AuditHeadPath = Some (AuditHeadFile (head_of_event (last evs)))"
    using log by (simp_all add: audit_log_def)
  have head: "loadAuditHead d = Inr (head_of_event (last evs))"
    using v h by (auto simp: loadAuditHead_def decodeStrictFile_def head_of_event_def verifyAuditEvent_def split: if_splits)
  obtain k where k: "head_or_zero d = Inr k" "ph_sequence k = of_nat (length evs)" "ph_sha k = chain_head pv_sha [] evs"
    using audit_head [OF log] by blast
  then have "k = head_of_event (last evs)"
    using head by (simp add: head_or_zero_def)
  then have "ph_sequence (head_of_event (last evs)) = of_nat (length evs)" "ph_sha (head_of_event (last evs)) = chain_head pv_sha [] evs"
    using k by simp_all
  moreover have "nat (sint (of_nat (length evs) :: 64 word)) = length evs"
    using log by (simp add: audit_log_def sint_63)
  ultimately show ?thesis
    using verify_from [OF log, of 0] by (simp add: VerifyAudit_def head del: upt_Suc)
qed


section \<open>Appending\<close>

lemma audit_append:
  assumes log: "audit_log sha evs d" and v: "verifyAuditEvent sha e = Inr ()"
    and sq: "pv_sequence e = of_nat (Suc (length evs))" and prev: "pv_previous e = chain_head pv_sha [] evs"
    and stored: "fmlookup d' (AuditPath (pv_sequence e) (pv_sha e)) = Some (AuditFile e)"
    and other: "\<And>n h. (n, h) \<noteq> (pv_sequence e, pv_sha e) \<Longrightarrow> fmlookup d' (AuditPath n h) = fmlookup d (AuditPath n h)"
    and head: "fmlookup d' AuditHeadPath = Some (AuditHeadFile (head_of_event e))"
  shows "audit_log sha (evs @ [e]) d'"
proof -
  have bound: "Suc (length evs) < 2 ^ 63"
    using v sq log by (intro sint_63_bound) (auto simp: verifyAuditEvent_def audit_log_def split: if_splits)
  have "event_digest sha (clear_event e) = pv_sha e"
    using v by (auto simp: verifyAuditEvent_def split: if_splits)
  then have chain: "audit_chain sha (evs @ [e])"
    using log sq prev by (simp add: audit_log_def chain_ok_append)
  have new: "\<not> (\<exists>f \<in> set evs. pv_sequence e = pv_sequence f)"
  proof
    assume "\<exists>f \<in> set evs. pv_sequence e = pv_sequence f"
    then obtain k where k: "k < length evs" "pv_sequence (evs ! k) = of_nat (Suc (length evs))"
      using sq by (auto simp: in_set_conv_nth)
    then have "(of_nat (Suc k) :: 64 word) = of_nat (Suc (length evs))"
      using audit_sequence(1) [OF log k(1)] by simp
    then show False
      using of_nat_63 [of "Suc k" "Suc (length evs)"] bound k(1) by simp
  qed
  have "fmlookup d' (AuditPath n h) = Some c \<longleftrightarrow> (\<exists>f \<in> set (evs @ [e]). n = pv_sequence f \<and> h = pv_sha f \<and> c = AuditFile f)" for n h c
  proof (cases "(n, h) = (pv_sequence e, pv_sha e)")
    case True
    then show ?thesis
      using stored new by auto
  next
    case False
    then have "fmlookup d' (AuditPath n h) = fmlookup d (AuditPath n h)"
      by (rule other)
    moreover have "fmlookup d (AuditPath n h) = Some c \<longleftrightarrow> (\<exists>f \<in> set evs. n = pv_sequence f \<and> h = pv_sha f \<and> c = AuditFile f)"
      using log unfolding audit_log_def by blast
    ultimately show ?thesis
      using False by auto
  qed
  then show ?thesis
    unfolding audit_log_def using chain v log bound head by (simp add: audit_log_def)
qed

text \<open>Under a well-formed log the next event is not yet stored, and its append succeeds below the bound.\<close>

lemma audit_next:
  assumes log: "audit_log sha evs d" and nxt: "nextAuditEvent sha ty s actor reason payload now d = Inr e"
  shows "pv_sequence e = of_nat (Suc (length evs))" "pv_previous e = chain_head pv_sha [] evs"
proof -
  obtain h where h: "head_or_zero d = Inr h" "ph_sequence h = of_nat (length evs)" "ph_sha h = chain_head pv_sha [] evs"
    using audit_head [OF log] by blast
  then show "pv_sequence e = of_nat (Suc (length evs))" "pv_previous e = chain_head pv_sha [] evs"
    using nxt by (auto simp: nextAuditEvent_def Let_def seal_event_def)
qed

lemma next_event_verifies:
  assumes log: "audit_log sha evs d" and bound: "Suc (length evs) < 2 ^ 63" and sha: "\<And>x. sha x \<noteq> []"
  shows "\<exists>e. nextAuditEvent sha ty s actor reason payload now d = Inr e \<and> verifyAuditEvent sha e = Inr ()"
proof -
  obtain h where h: "head_or_zero d = Inr h" "ph_sequence h = of_nat (length evs)"
    using audit_head [OF log] by blast
  let ?e = "\<lparr>pv_schema = ''openwatchlist.activation-promotion-audit-event.v1'', pv_sequence = ph_sequence h + 1,
                pv_timestamp = now, pv_type = ty, pv_intent = ps_intent s, pv_revision = ps_revision s,
                pv_actor = actor, pv_reason = reason, pv_payload = payload, pv_previous = ph_sha h, pv_sha = []\<rparr>"
  have "ph_sequence h + 1 = of_nat (Suc (length evs))"
    by (simp add: h(2))
  then have "sint (ph_sequence h + 1) = int (Suc (length evs))"
    using sint_63 [OF bound] by (simp only:)
  then have "verifyAuditEvent sha (seal_event (event_digest sha ?e) ?e) = Inr ()"
    using sha by (simp add: verifyAuditEvent_def seal_event_def clear_event_def event_digest_def)
  then show ?thesis
    by (simp add: nextAuditEvent_def h(1) Let_def)
qed

lemma audit_new:
  assumes log: "audit_log sha evs d" and bound: "Suc (length evs) < 2 ^ 63"
  shows "fmlookup d (AuditPath (of_nat (Suc (length evs))) h) = None"
proof (rule ccontr)
  assume "fmlookup d (AuditPath (of_nat (Suc (length evs))) h) \<noteq> None"
  then obtain f where f: "f \<in> set evs" "pv_sequence f = of_nat (Suc (length evs))"
    using log unfolding audit_log_def by fastforce
  then obtain k where k: "k < length evs" "f = evs ! k"
    by (auto simp: in_set_conv_nth)
  then have "(of_nat (Suc k) :: 64 word) = of_nat (Suc (length evs))"
    using audit_sequence(1) [OF log k(1)] f(2) by simp
  then show False
    using of_nat_63 [of "Suc k" "Suc (length evs)"] bound k(1) by simp
qed

lemma audit_commit:
  assumes log: "audit_log sha evs d" and c: "commitState sha s ty actor reason payload now d = (ws, Inr u)"
  shows "\<exists>e. audit_log sha (evs @ [e]) (apply_writes ws d) \<and> apply_writes ws d = committed s e d"
proof -
  obtain e where e: "nextAuditEvent sha ty s actor reason payload now d = Inr e" "verifyAuditEvent sha e = Inr ()"
    and sn: "fmlookup d (SnapshotPath (ps_intent s) (ps_revision s)) \<in> {None, Some (PromotionFile s)}"
    and au: "fmlookup d (AuditPath (pv_sequence e) (pv_sha e)) \<in> {None, Some (AuditFile e)}"
    and ws: "ws = snapshot_writes s d @ [Put PromotionPendingPath (pending_file s e)] @ audit_writes e d
        @ [Put AuditHeadPath (AuditHeadFile (head_of_event e)), Put PromotionPath (PromotionFile s), Remove PromotionPendingPath]"
    using commit_writes [OF c] by blast
  have d': "apply_writes ws d = committed s e d"
    using sn au unfolding ws by (intro fmap_ext) (auto simp: snapshot_writes_def audit_writes_def committed_def)
  have "audit_log sha (evs @ [e]) (committed s e d)"
    by (rule audit_append [OF log e(2) audit_next [OF log e(1)]]) (auto simp: committed_def)
  then show ?thesis
    using d' by auto
qed

text \<open>A commit succeeds unless its snapshot is taken.\<close>

lemma commit_succeeds:
  assumes log: "audit_log sha evs d" and bound: "Suc (length evs) < 2 ^ 63" and sha: "\<And>x. sha x \<noteq> []"
    and free: "fmlookup d (SnapshotPath (ps_intent s) (ps_revision s)) \<in> {None, Some (PromotionFile s)}"
  shows "\<exists>ws. commitState sha s ty actor reason payload now d = (ws, Inr ())"
proof -
  let ?snap = "snapshot_writes s d"
  have log': "audit_log sha evs (apply_writes ?snap d)"
    using log by (subst audit_log_frame) (auto simp: snapshot_writes_def)
  obtain e where e: "nextAuditEvent sha ty s actor reason payload now (apply_writes ?snap d) = Inr e" "verifyAuditEvent sha e = Inr ()"
    using next_event_verifies [OF log' bound sha] by blast
  let ?d = "fmupd PromotionPendingPath (pending_file s e) (apply_writes ?snap d)"
  have log'': "audit_log sha evs ?d"
    using log' audit_log_frame [of "[Put PromotionPendingPath (pending_file s e)]" sha evs "apply_writes ?snap d"] by simp
  obtain h where h: "head_or_zero ?d = Inr h" "ph_sequence h = of_nat (length evs)" "ph_sha h = chain_head pv_sha [] evs"
    using audit_head [OF log''] by blast
  have sq: "pv_sequence e = of_nat (Suc (length evs))" "pv_previous e = chain_head pv_sha [] evs"
    using audit_next [OF log' e(1)] by auto
  have new: "fmlookup ?d (AuditPath (pv_sequence e) (pv_sha e)) = None"
    using audit_new [OF log'' bound] sq(1) by simp
  have app: "\<exists>ws. appendAudit sha e ?d = (ws, Inr ())"
    using appendAudit_next [OF h(1), of e sha _ "()"] e(2) sq h(2,3) new by auto
  have snap: "immutable ImmutableConflict (SnapshotPath (ps_intent s) (ps_revision s)) (PromotionFile s) d = (?snap, Inr ())"
    using free by (auto simp: immutable_def snapshot_writes_def)
  show ?thesis
    using app by (auto simp: commitState_def andThen_def snap e(1))
qed

end
