(* ===== verification/PromotionSteady.thy ===== *)
theory PromotionSteady imports PromotionAudit begin

text \<open>
  Directories in which the manager's operations succeed, one after the other, and in which a transaction
  that was interrupted after its pending document was written is recovered before the next operation.
\<close>

definition no_promotion :: "state_files \<Rightarrow> bool" where
  "no_promotion d \<longleftrightarrow> (\<forall>p. audit_path p \<or> p \<in> {PromotionPath, PromotionPendingPath} \<longrightarrow> fmlookup d p = None)"

inductive promotion_steady :: "activation_env \<Rightarrow> state_files \<Rightarrow> bool" for env where
  start: "no_promotion d \<Longrightarrow> docs_named d \<Longrightarrow> promotion_steady env d"
| staged: "promotion_steady env d \<Longrightarrow> Stage env art q expected d = (ws, Inr sn) \<Longrightarrow> promotion_steady env (apply_writes ws d)"
| acknowledged: "promotion_steady env d \<Longrightarrow> Acknowledge (pe_sha env) a observed now d = (ws, Inr st) \<Longrightarrow> promotion_steady env (apply_writes ws d)"
| observed: "promotion_steady env d \<Longrightarrow> RecordObservation (pe_sha env) ob d = (ws, Inr u) \<Longrightarrow> promotion_steady env (apply_writes ws d)"
| transacted: "promotion_steady env d \<Longrightarrow> transaction env op = Some p \<Longrightarrow> p d = (ws, Inr st) \<Longrightarrow> promotion_steady env (apply_writes ws d)"
| interrupted: "promotion_steady env d \<Longrightarrow> transaction env op = Some p \<Longrightarrow> p d = (ws, Inr st) \<Longrightarrow> d' = apply_writes (take k ws) d
    \<Longrightarrow> fmlookup d' PromotionPendingPath \<noteq> None \<Longrightarrow> RecoverPromotion (pe_sha env) d' = (us, r) \<Longrightarrow> promotion_steady env (apply_writes us d')"

section \<open>The invariant\<close>

definition in_phase :: "state_files \<Rightarrow> bool" where
  "in_phase d \<longleftrightarrow>
     (\<forall>c. fmlookup d PromotionPath = Some c \<longrightarrow>
        (\<exists>s i. c = PromotionFile s \<and> fmlookup d (IntentPath (ps_intent s)) = Some (IntentFile i) \<and> it_id i = ps_intent s
           \<and> active_id d = Some (if ps_phase s = ''promoted'' then it_candidate i else it_current i)))"

definition steady_ok :: "activation_env \<Rightarrow> state_files \<Rightarrow> bool" where
  "steady_ok env d \<longleftrightarrow> (\<exists>evs. audit_log (pe_sha env) evs d) \<and> fmlookup d PromotionPendingPath = None \<and> docs_named d \<and> in_phase d"

lemma in_phaseD:
  assumes "in_phase d" and "intentAndState d = Inr (i, s)"
  shows "active_id d = Some (if ps_phase s = ''promoted'' then it_candidate i else it_current i)"
  using assms by (auto simp: in_phase_def intentAndState_Inr)

lemma in_phase_frame:
  assumes "in_phase d" and "active_id d' = active_id d" and "fmlookup d' PromotionPath = fmlookup d PromotionPath"
    and "\<And>i f. fmlookup d (IntentPath i) = Some f \<Longrightarrow> fmlookup d' (IntentPath i) = Some f"
  shows "in_phase d'"
  using assms unfolding in_phase_def by metis

text \<open>Other documents than those of the invariant may change.\<close>

fun aside :: "state_path \<Rightarrow> bool" where
  "aside (AckPath i x) = True"
| "aside (ObservationPath i h) = True"
| "aside (ReportPath i h) = True"
| "aside _ = False"

lemma steady_aside:
  assumes "steady_ok env d" and "path_of ` set ws \<subseteq> Collect aside"
  shows "steady_ok env (apply_writes ws d)"
proof -
  have same: "fmlookup (apply_writes ws d) p = fmlookup d p" if "\<not> aside p" for p
    using that assms(2) by (intro lookup_untouched) auto
  have "audit_log (pe_sha env) evs (apply_writes ws d) = audit_log (pe_sha env) evs d" for evs
    by (rule audit_log_cong, rule same) (auto elim: audit_path.elims)
  moreover have "docs_named (apply_writes ws d) = docs_named d"
    by (simp add: docs_named_def same)
  moreover have "active_id (apply_writes ws d) = active_id d"
    by (rule active_id_cong) (simp add: same)
  ultimately show ?thesis
    using assms(1) in_phase_frame [of d "apply_writes ws d"] by (auto simp: steady_ok_def same)
qed

section \<open>Transactions keep it\<close>

lemma committed_simps [simp]:
  "fmlookup (committed s e d) PromotionPath = Some (PromotionFile s)"
  "fmlookup (committed s e d) PromotionPendingPath = None"
  "fmlookup (committed s e d) (IntentPath i) = fmlookup d (IntentPath i)"
  "fmlookup (committed s e d) (ActivationPath a) = fmlookup d (ActivationPath a)"
  "fmlookup (committed s e d) ActivePath = fmlookup d ActivePath"
  "fmlookup (committed s e d) (AckPath i x) = fmlookup d (AckPath i x)"
  "fmlookup (committed s e d) (ReportPath i h) = fmlookup d (ReportPath i h)"
  "fmlookup (committed s e d) (SnapshotPath i n) =
     (if (i, n) = (ps_intent s, ps_revision s) then Some (PromotionFile s) else fmlookup d (SnapshotPath i n))"
  by (auto simp: committed_def)

lemma committed_active [simp]: "active_id (committed s e d) = active_id d"
  by (rule active_id_cong) simp

lemma committed_in_phase:
  "fmlookup d (IntentPath (ps_intent s)) = Some (IntentFile i) \<Longrightarrow> it_id i = ps_intent s
    \<Longrightarrow> active_id d = Some (if ps_phase s = ''promoted'' then it_candidate i else it_current i) \<Longrightarrow> in_phase (committed s e d)"
  by (auto simp: in_phase_def)

lemma preparation_frame:
  assumes "preparation pre" and "\<not> prep_path p"
  shows "fmlookup (apply_writes pre d) p = fmlookup d p"
  using assms by (intro lookup_untouched) (auto simp: preparation_def)

lemma steady_commit:
  assumes ok: "steady_ok env d" and pre: "preparation pre"
    and c: "commit_and_report (pe_sha env) s ty actor reason payload now (apply_writes pre d) = (cs, Inr st)"
    and i: "fmlookup (apply_writes pre d) (IntentPath (ps_intent s)) = Some (IntentFile i)" "it_id i = ps_intent s"
    and act: "active_id (apply_writes pre d) = Some (if ps_phase s = ''promoted'' then it_candidate i else it_current i)"
  shows "steady_ok env (apply_writes (pre @ cs) d)"
proof -
  let ?d = "apply_writes pre d"
  obtain evs where "audit_log (pe_sha env) evs d"
    using ok by (auto simp: steady_ok_def)
  moreover have "audit_log (pe_sha env) evs ?d = audit_log (pe_sha env) evs d"
    by (rule audit_log_cong, rule preparation_frame [OF pre]) (auto elim: audit_path.elims)
  ultimately obtain e where e: "audit_log (pe_sha env) (evs @ [e]) (apply_writes cs ?d)" "apply_writes cs ?d = committed s e ?d"
    using audit_commit [of "pe_sha env" evs ?d s ty actor reason payload now cs "()"] c by (auto simp: commit_and_report_ok)
  have "docs_named (committed s e ?d)"
    using ok preparation_frame [OF pre, of "ActivationPath _"] by (simp add: steady_ok_def docs_named_def)
  then show ?thesis
    using e committed_in_phase [OF i act, of e] unfolding steady_ok_def by (auto simp: e(2))
qed

lemma steady_intent:
  assumes "steady_ok env d" and "at_revision n d = Inr (i, s)"
  shows "fmlookup d (IntentPath (ps_intent s)) = Some (IntentFile i)" "it_id i = ps_intent s"
    "active_id d = Some (if ps_phase s = ''promoted'' then it_candidate i else it_current i)"
proof -
  have "intentAndState d = Inr (i, s)"
    using assms(2) by (simp add: at_revision_Inr)
  then show "fmlookup d (IntentPath (ps_intent s)) = Some (IntentFile i)" "it_id i = ps_intent s"
    "active_id d = Some (if ps_phase s = ''promoted'' then it_candidate i else it_current i)"
    using in_phaseD [of d i s] assms(1) by (simp_all add: intentAndState_Inr steady_ok_def)
qed

lemma steady_publish:
  assumes ok: "steady_ok env d" and at: "at_revision n d = Inr (i, s)"
    and p: "PromoteExisting env art t c d = (pre, Inr x)"
    and cr: "commit_and_report (pe_sha env) s' ty actor reason payload now (apply_writes pre d) = (cs, Inr st)"
    and s': "ps_intent s' = ps_intent s" "t = (if ps_phase s' = ''promoted'' then it_candidate i else it_current i)"
  shows "steady_ok env (apply_writes (pre @ cs) d)"
proof (rule steady_commit [OF ok publish_preparation [OF p] cr])
  have "docs_named d"
    using ok by (simp add: steady_ok_def)
  then show "active_id (apply_writes pre d) = Some (if ps_phase s' = ''promoted'' then it_candidate i else it_current i)"
    using activations.publish_to [of d env art t c pre x] p s'(2) by simp
  show "fmlookup (apply_writes pre d) (IntentPath (ps_intent s')) = Some (IntentFile i)"
    using steady_intent(1) [OF ok at] activations.publish_other_files [OF p, of "IntentPath (ps_intent s)"] s'(1) by simp
  show "it_id i = ps_intent s'"
    using steady_intent(2) [OF ok at] s'(1) by simp
qed

lemma preparation_active:
  assumes "preparation pre" and "ActivePath \<notin> path_of ` set pre"
  shows "active_id (apply_writes pre d) = active_id d"
  by (rule active_id_cong) (rule lookup_untouched [OF assms(2)])

lemma immutable_lookup:
  assumes "immutable err p c d = (ws, Inr u)"
  shows "fmlookup (apply_writes ws d) q = (if q = p then Some c else fmlookup d q)"
  using assms by (auto simp: immutable_writes)

lemma LoadActive_id: "LoadActive env art d = Inr sn \<Longrightarrow> active_id d = Some (av_id (sn_activation sn))"
  by (auto simp: LoadActive_def active_lookup active_id_Some dest!: validate_snapshot)

lemma steady_transaction:
  assumes ok: "steady_ok env d" and op: "transaction env op = Some p" and run: "p d = (ws, Inr st)"
  shows "steady_ok env (apply_writes ws d)"
proof (cases op)
  case (PoPrepare art q c u n)
  then have "Prepare env art q c u n d = (ws, Inr st)"
    using op run by simp
  from Prepare_parts [OF this] obtain sn cand x y ty who why pl pre cs where
    l: "LoadActive env art d = Inr sn"
    and pre: "immutable ImmutableConflict (IntentPath (pq_intent q)) (IntentFile (prepared_intent q c (av_id (sn_activation sn)) x cand y)) d = (pre, Inr ())"
    and cr: "commit_and_report (pe_sha env) (prepared_state q (av_id (sn_activation sn)) cand u) ty who why pl n (apply_writes pre d) = (cs, Inr st)"
    and ws: "ws = pre @ cs"
    unfolding Let_def by fastforce
  have "active_id (apply_writes pre d) = Some (av_id (sn_activation sn))"
    using LoadActive_id [OF l] immutable_lookup [OF pre] active_id_cong [of "apply_writes pre d" d] by simp
  then show ?thesis
    unfolding ws using immutable_lookup [OF pre]
    by (intro steady_commit [OF ok immutable_preparation [OF pre] cr,
          where i = "prepared_intent q c (av_id (sn_activation sn)) x cand y"]) (simp_all add: prepared_state_def prepared_intent_def)
next
  case (PoEvaluate e sm a r u n)
  then have "Evaluate (pe_sha env) e sm a r u n d = (ws, Inr st)"
    using op run by simp
  from Evaluate_parts [OF this] obtain i s ty pl pre cs where at: "at_revision e d = Inr (i, s)" "ps_phase s \<in> {''prepared'', ''validated'', ''blocked''}"
    and pre: "immutable ImmutableConflict (ReportPath (it_id i) (ss_sha sm)) (ReportFile sm) d = (pre, Inr ())"
    and cr: "commit_and_report (pe_sha env) (evaluated_state i sm u s) ty a r pl n (apply_writes pre d) = (cs, Inr st)" and ws: "ws = pre @ cs"
    by blast
  have "active_id (apply_writes pre d) = active_id d"
    using immutable_lookup [OF pre] by (intro active_id_cong) simp
  then show ?thesis
    unfolding ws using immutable_lookup [OF pre] steady_intent [OF ok at(1)] at(2)
    by (intro steady_commit [OF ok immutable_preparation [OF pre] cr]) (auto simp: evaluated_state_def Let_def)
next
  case (PoStartCanary e a r u n)
  then have "StartCanary (pe_sha env) e a r u n d = (ws, Inr st)"
    using op run by simp
  from StartCanary_parts [OF this] obtain i s where at: "at_revision e d = Inr (i, s)" "ps_phase s = ''validated''"
    and cr: "commit_and_report (pe_sha env) (s\<lparr>ps_revision := ps_revision s + 1, ps_phase := ''canary'', ps_updated := u\<rparr>)
            ''canary_started'' a r [] n (apply_writes [] d) = (ws, Inr st)"
    by auto
  show ?thesis
    using steady_commit [OF ok move_preparation(2) cr] steady_intent [OF ok at(1)] at(2) by simp
next
  case (PoPromote art e a r u n)
  then have "Promote env art e a r u n d = (ws, Inr st)"
    using op run by simp
  from Promote_parts [OF this] obtain i s x m pre cs where x: "at_revision e d = Inr (i, s)"
    "PromoteExisting env art (it_candidate i) (it_current i) d = (pre, Inr x)"
    "commit_and_report (pe_sha env)
           (s\<lparr>ps_revision := ps_revision s + 1, ps_phase := ''promoted'', ps_updated := u, ps_blockers := []\<rparr>)
           ''promotion_completed'' a r [(''ready_ack_count'', JInt m)] n (apply_writes pre d) = (cs, Inr st)" "ws = pre @ cs"
    by auto
  show ?thesis
    unfolding x(4) by (rule steady_publish [OF ok x(1-3)]) simp_all
next
  case (PoRollback art e a r u n)
  then have "RollbackPromotion env art e a r u n d = (ws, Inr st)"
    using op run by simp
  from Rollback_parts [OF this] obtain i s x pre cs where x: "at_revision e d = Inr (i, s)"
    "PromoteExisting env art (it_current i) (it_candidate i) d = (pre, Inr x)"
    "commit_and_report (pe_sha env)
           (s\<lparr>ps_revision := ps_revision s + 1, ps_phase := ''rolled_back'', ps_updated := u\<rparr>)
           ''promotion_rolled_back'' a r [] n (apply_writes pre d) = (cs, Inr st)" "ws = pre @ cs"
    by auto
  show ?thesis
    unfolding x(4) by (rule steady_publish [OF ok x(1-3)]) simp_all
qed (use op in simp_all)

section \<open>The other operations\<close>

lemma steady_stage:
  assumes ok: "steady_ok env d" and st: "Stage env art q expected d = (ws, Inr sn)"
  shows "steady_ok env (apply_writes ws d)"
proof -
  obtain a where im: "immutable DifferentBytes (ActivationPath (av_id a)) (ActivationFile a) d = (ws, Inr ())"
    using st unfolding Stage_def Let_def by (auto simp: andThen_readp andThen_ok split: if_splits sum.splits)
  have same: "fmlookup (apply_writes ws d) p = fmlookup d p" if "p \<noteq> ActivationPath (av_id a)" for p
    using that by (simp add: immutable_lookup [OF im])
  have "audit_log (pe_sha env) evs (apply_writes ws d) = audit_log (pe_sha env) evs d" for evs
    by (rule audit_log_cong, rule same) (auto elim: audit_path.elims)
  moreover have "docs_named (apply_writes ws d)"
    using ok by (auto simp: steady_ok_def docs_named_def immutable_lookup [OF im])
  moreover have "active_id (apply_writes ws d) = active_id d"
    by (rule active_id_cong) (simp add: same)
  ultimately show ?thesis
    using ok in_phase_frame [of d "apply_writes ws d"] by (auto simp: steady_ok_def same)
qed

lemma steady_acknowledge:
  assumes ok: "steady_ok env d" and ack: "Acknowledge (pe_sha env) a observed now d = (ws, Inr st)"
  shows "steady_ok env (apply_writes ws d)"
proof -
  obtain i x f e ty s actor pl pre as where im: "immutable ImmutableConflict (AckPath i x) f d = (pre, Inr ())"
    and e: "nextAuditEvent (pe_sha env) ty s actor [] pl now (apply_writes pre d) = Inr e"
    and ap: "appendAudit (pe_sha env) e (apply_writes pre d) = (as, Inr ())" and ws: "ws = pre @ as"
    using ack unfolding Acknowledge_def Let_def
    by (clarsimp simp add: step_ok andThen_ok [where p = "appendAudit sha e" for sha e])
  let ?d = "apply_writes pre d"
  have ok1: "steady_ok env ?d"
    using im by (intro steady_aside [OF ok]) (auto simp: immutable_writes)
  then obtain evs where log: "audit_log (pe_sha env) evs ?d"
    by (auto simp: steady_ok_def)
  obtain h where h: "head_or_zero ?d = Inr h" "pv_sequence e = ph_sequence h + 1"
    using e by (auto simp: nextAuditEvent_def Let_def seal_event_def)
  have v: "verifyAuditEvent (pe_sha env) e = Inr ()" "fmlookup ?d (AuditPath (pv_sequence e) (pv_sha e)) \<in> {None, Some (AuditFile e)}"
    and as: "as = audit_writes e ?d @ [Put AuditHeadPath (AuditHeadFile (head_of_event e))]"
    using appendAudit_next [OF h, of "pe_sha env" as "()"] ap by auto
  have l: "fmlookup (apply_writes as ?d) p = (if p = AuditHeadPath then Some (AuditHeadFile (head_of_event e))
      else if p = AuditPath (pv_sequence e) (pv_sha e) then Some (AuditFile e) else fmlookup ?d p)" for p
    using v(2) unfolding as by (auto simp: audit_writes_def)
  have "audit_log (pe_sha env) (evs @ [e]) (apply_writes as ?d)"
    by (rule audit_append [OF log v(1) audit_next [OF log e]]) (auto simp: l)
  moreover have "active_id (apply_writes as ?d) = active_id ?d"
    by (rule active_id_cong) (simp add: l)
  then have "in_phase (apply_writes as ?d)"
    using ok1 in_phase_frame [of ?d "apply_writes as ?d"] by (simp add: steady_ok_def l)
  moreover have "docs_named (apply_writes as ?d)"
    using ok1 by (simp add: steady_ok_def docs_named_def l)
  ultimately show ?thesis
    using ok1 unfolding steady_ok_def ws by (auto simp: l)
qed

lemma steady_observe:
  assumes ok: "steady_ok env d" and ob: "RecordObservation (pe_sha env) ob d = (ws, Inr u)"
  shows "steady_ok env (apply_writes ws d)"
proof -
  obtain i h f where "immutable ImmutableConflict (ObservationPath i h) f d = (ws, Inr ())"
    using ob unfolding RecordObservation_def by (auto simp: andThen_readp split: if_splits sum.splits)
  then show ?thesis
    by (intro steady_aside [OF ok]) (auto simp: immutable_writes)
qed

lemma steady_start: "no_promotion d \<Longrightarrow> docs_named d \<Longrightarrow> steady_ok env d"
  using audit_log_empty [of d "pe_sha env"] by (auto simp: steady_ok_def no_promotion_def in_phase_def)

lemma steady_invariant: "promotion_steady env d \<Longrightarrow> steady_ok env d"
proof (induction rule: promotion_steady.induct)
  case (interrupted d op p ws st d' k us r)
  have "fmlookup d PromotionPendingPath = None"
    using interrupted.IH by (simp add: steady_ok_def)
  from commits_atomic [OF transaction_commits [OF interrupted.hyps(2,3)] this interrupted.hyps(4)]
  have "apply_writes us d' = apply_writes ws d"
    using interrupted.hyps(5,6) by auto
  then show ?case
    using steady_transaction [OF interrupted.IH interrupted.hyps(2,3)] by simp
qed (auto intro: steady_start steady_stage steady_acknowledge steady_observe steady_transaction)

end
