(* ===== verification/PromotionTyped.thy ===== *)
theory PromotionTyped imports PromotionProofs begin

text \<open>
  Every file of the two state directories holds the kind of document that its path function names.
\<close>

fun of_kind :: "state_path \<Rightarrow> state_file \<Rightarrow> bool" where
  "of_kind ActivePath c = (as_activation c \<noteq> None)"
| "of_kind ActivationPendingPath c = (as_activation_pending c \<noteq> None)"
| "of_kind (ActivationPath aid) c = (as_activation c \<noteq> None)"
| "of_kind PromotionPath c = (as_state c \<noteq> None)"
| "of_kind PromotionPendingPath c = (as_pending c \<noteq> None)"
| "of_kind AuditHeadPath c = (as_head c \<noteq> None)"
| "of_kind (IntentPath i) c = (as_intent c \<noteq> None)"
| "of_kind (SnapshotPath i n) c = (as_state c \<noteq> None)"
| "of_kind (ReportPath i h) c = (case c of ReportFile r \<Rightarrow> True | _ \<Rightarrow> False)"
| "of_kind (ObservationPath i h) c = (as_observation c \<noteq> None)"
| "of_kind (AckPath i x) c = (as_ack c \<noteq> None)"
| "of_kind (AuditPath n h) c = (as_event c \<noteq> None)"

definition well_typed :: "state_files \<Rightarrow> bool" where
  "well_typed d \<longleftrightarrow> (\<forall>p c. fmlookup d p = Some c \<longrightarrow> of_kind p c)"

fun typed_write :: "state_write \<Rightarrow> bool" where
  "typed_write (Put p c) = of_kind p c"
| "typed_write (Remove p) = True"

definition typed_prog :: "(state_path, state_file, 'e, 'a) prog \<Rightarrow> bool" where
  "typed_prog p \<longleftrightarrow> (\<forall>d. list_all typed_write (fst (p d)))"

lemma typed_writes: "list_all typed_write ws \<Longrightarrow> well_typed d \<Longrightarrow> well_typed (apply_writes ws d)"
proof (induction ws arbitrary: d)
  case (Cons w ws)
  then have "well_typed (apply_write w d)"
    by (cases w) (auto simp: well_typed_def)
  then show ?case
    using Cons by simp
qed simp

section \<open>Programs write what their paths name\<close>

lemma typed_rules:
  "typed_prog (ret x)" "typed_prog (failp e)" "typed_prog (readp f)" "typed_write w \<Longrightarrow> typed_prog (writep w)"
  "of_kind q c \<Longrightarrow> typed_prog (immutable e q c)"
  by (auto simp: typed_prog_def immutable_def split: option.split)

lemma typed_andThen: "typed_prog p \<Longrightarrow> (\<And>x. typed_prog (f x)) \<Longrightarrow> typed_prog (andThen p f)"
  by (auto simp: typed_prog_def andThen_def split: prod.split sum.split) (metis fst_conv)+

lemma typed_if: "(b \<Longrightarrow> typed_prog p) \<Longrightarrow> (\<not> b \<Longrightarrow> typed_prog q) \<Longrightarrow> typed_prog (if b then p else q)"
  by simp

lemma typed_pair: "(\<And>a b. typed_prog (f a b)) \<Longrightarrow> typed_prog (case x of (a, b) \<Rightarrow> f a b)"
  by (cases x) simp

lemma typed_triple: "(\<And>a b c. typed_prog (f a b c)) \<Longrightarrow> typed_prog (case x of (a, b, c) \<Rightarrow> f a b c)"
  by (cases x) simp

lemma typed_lift: "typed_prog p \<Longrightarrow> typed_prog (lift_errors g p)"
  by (auto simp: typed_prog_def lift_errors_def split: prod.split) (metis fst_conv)

lemma typed_move: "typed_prog (move_active t p)"
  unfolding move_active_def by (intro typed_andThen typed_rules) (simp_all add: pending_record_def)

lemmas typed_intros = typed_if typed_pair typed_triple typed_andThen typed_rules typed_lift typed_move

lemma typed_append: "typed_prog (appendAudit sha e)"
  unfolding appendAudit_def by (intro typed_intros) simp_all

lemma typed_commit: "typed_prog (commit_and_report sha s ty actor reason payload now)"
  unfolding commit_and_report_def commitState_def by (intro typed_intros typed_append) (simp_all add: pending_file_def)

lemma typed_activation_op: "typed_prog (run_op env art op)"
  by (cases op; simp; unfold Activate_def Stage_def Rollback_def PromoteExisting_def Let_def; intro typed_intros; simp)

lemma typed_recover_activation: "typed_prog (RecoverActivation env art)"
proof -
  have "typed_prog (restore_previous env art p)" for p
    unfolding restore_previous_def by (intro typed_intros) simp_all
  then have "typed_prog (andThen (restore_previous env art p) (\<lambda>_. andThen (writep (Remove ActivationPendingPath)) (\<lambda>_. ret x)))" for p and x :: string
    by (intro typed_intros) simp_all
  then show ?thesis
    unfolding typed_prog_def RecoverActivation_def by (auto simp: andThen_writep split: sum.split activation_error.split)
qed

lemma typed_recover_promotion: "typed_prog (RecoverPromotion sha)"
proof -
  have "typed_prog (andThen (appendAudit sha e) (\<lambda>_. andThen (writep (Put PromotionPath (PromotionFile s))) (\<lambda>_.
            andThen (writep (Remove PromotionPendingPath)) (\<lambda>_. ret x))))" for e s and x :: string
    by (intro typed_intros typed_append) simp_all
  then show ?thesis
    unfolding typed_prog_def RecoverPromotion_def by (auto split: sum.split)
qed

lemma typed_run: "typed_prog p \<Longrightarrow> list_all typed_write (fst (p d))"
  by (simp add: typed_prog_def)

lemma typed_operation:
  "list_all typed_write (promotion_writes env op d)"
proof -
  have pub: "typed_prog (PromoteExisting env art x y)" for art x y
    using typed_activation_op [of env art "OpPromote x y"] by simp
  have "typed_prog (Prepare env art q c u n)" for art q c u n
    unfolding Prepare_def activation_read_def Let_def by (intro typed_intros typed_commit) simp_all
  moreover have "typed_prog (Evaluate sha e sm ac r u n)" for sha e sm ac r u n
    unfolding Evaluate_def Let_def by (intro typed_intros typed_commit) simp_all
  moreover have "typed_prog (StartCanary sha e ac r u n)" for sha e ac r u n
    unfolding StartCanary_def transition_def by (intro typed_intros typed_commit)
  moreover have "typed_prog (Acknowledge sha k u n)" for sha k u n
    unfolding Acknowledge_def Let_def by (intro typed_intros typed_append) simp_all
  moreover have "typed_prog (Promote env art e ac r u n)" for art e ac r u n
    unfolding Promote_def by (intro typed_intros typed_commit pub)
  moreover have "typed_prog (RollbackPromotion env art e ac r u n)" for art e ac r u n
    unfolding RollbackPromotion_def by (intro typed_intros typed_commit pub)
  moreover have "typed_prog (RecordObservation sha ob)" for sha ob
    unfolding RecordObservation_def by (intro typed_intros) simp_all
  ultimately show ?thesis
    using typed_activation_op typed_recover_activation typed_recover_promotion by (cases op) (simp_all add: typed_run)
qed

lemma list_all_take: "list_all P xs \<Longrightarrow> list_all P (take k xs)"
  by (auto simp: list_all_iff dest: in_set_takeD)

lemma reach_typed: "promotion_reach env d \<Longrightarrow> well_typed d"
proof (induction rule: promotion_reach.induct)
  case (step d k op)
  then show ?case
    by (intro typed_writes list_all_take typed_operation)
qed (simp add: well_typed_def)

end
