(* ===== verification/PromotionDemo.thy ===== *)
theory PromotionDemo imports ActivationProps PromotionSteady PromotionTyped begin

text \<open>
  When the operations of the promotion manager succeed, and one promotion carried through all its phases on
  a concrete directory: activate \<^verbatim>\<open>a1\<close>, stage \<^verbatim>\<open>a2\<close>, prepare, evaluate, start the canary, acknowledge.
\<close>

section \<open>Staging\<close>

text \<open>A staged document is valid as it stands: its paths are absolute.\<close>

lemma staged_valid:
  assumes cwd: "IsAbs (ae_cwd env)" and aid: "safe_identifier aid" and art: "load_artefacts env art q = Inr (de, pkg, po)"
    and a: "a = bind_activation aid previous de pkg (Abs (ae_cwd env) (aq_package_path q)) po (Abs (ae_cwd env) (aq_policy_path q))"
  shows "validateActivation env art a = Inr \<lparr>sn_activation = a, sn_package = pkg, sn_policy = po\<rparr>"
    "resolveActivationPaths env a = a"
proof -
  let ?pp = "Abs (ae_cwd env) (aq_package_path q)" and ?lp = "Abs (ae_cwd env) (aq_policy_path q)"
  have loads: "LoadCatalogDescriptor (package_env.truncate env) art (Abs (ae_cwd env) (aq_descriptor_path q)) = Inr de"
      "LoadPackage (package_env.truncate env) art ?pp = Inr pkg" "LoadPolicy env art ?lp = Inr po"
      "validateTuple env art de pkg po = Inr ()"
    using art by (auto simp: load_artefacts_def map_error_def split: sum.splits)
  have "IsAbs (de_path de)" "IsAbs ?pp" "IsAbs ?lp"
    using descriptor_path [OF loads(1)] Clean_Abs [OF cwd] by blast+
  then show res: "resolveActivationPaths env a = a"
    by (simp add: resolveActivationPaths_def resolvePath_def a bind_activation_def)
  have fields: "pb_path (av_projection a) = ?pp" "pl_path (av_policy a) = ?lp" "av_id a = aid" "av_catalog a = de"
    "av_schema a = ''openwatchlist.scoring-activation.v1''" "pb_sha (av_projection a) = pk_sha pkg"
    "pb_projections_sha (av_projection a) = ma_projections_sha (pk_manifest pkg)"
    "pb_count (av_projection a) = ma_projections (pk_manifest pkg)" "pb_ids_sha (av_projection a) = ma_ids_sha (pk_manifest pkg)"
    "pl_sha (av_policy a) = lp_sha po" "pl_id (av_policy a) = sp_id (lp_policy po)"
    "pl_version (av_policy a) = sp_version (lp_policy po)" "pl_profile (av_policy a) = sp_profile (lp_policy po)"
    by (simp_all add: a bind_activation_def)
  show "validateActivation env art a = Inr \<lparr>sn_activation = a, sn_package = pkg, sn_policy = po\<rparr>"
    unfolding validateActivation_def Let_def res fields loads(2,3) map_error_def
    using aid loads(4) by simp
qed

text \<open>Reading depends on the documents alone.\<close>

lemma LoadActive_lookup: "fmlookup d ActivePath = Some (ActivationFile a) \<Longrightarrow> LoadActive env art d = validateActivation env art a"
  by (simp add: LoadActive_def active_lookup [THEN iffD2])

lemma LoadActivation_lookup:
  "fmlookup d (ActivationPath aid) = Some (ActivationFile a) \<Longrightarrow> safe_identifier aid
    \<Longrightarrow> LoadActivation env art aid d = validateActivation env art a"
  by (simp add: LoadActivation_def document_lookup [THEN iffD2])

lemma digest_lookup:
  "fmlookup d (ActivationPath aid) = Some (ActivationFile a) \<Longrightarrow> safe_identifier aid
    \<Longrightarrow> ActivationDocumentSHA256 env aid d = Inr (ActivationDigest (pe_sha env) a)"
  by (simp add: ActivationDocumentSHA256_def document_lookup [THEN iffD2])

lemma Stage_Inr:
  assumes "Stage env art q expected d = (ws, Inr s)"
  shows "\<exists>active de pkg po. LoadActive env art d = Inr active \<and> safe_identifier (aq_id q) \<and> load_artefacts env art q = Inr (de, pkg, po)
    \<and> s = \<lparr>sn_activation = bind_activation (aq_id q) (av_id (sn_activation active)) de pkg (Abs (ae_cwd env) (aq_package_path q)) po
              (Abs (ae_cwd env) (aq_policy_path q)), sn_package = pkg, sn_policy = po\<rparr>
    \<and> immutable DifferentBytes (ActivationPath (aq_id q)) (ActivationFile (sn_activation s)) d = (ws, Inr ())"
proof -
  have "av_id (bind_activation aid p de pkg pp po lp) = aid" for aid p de pkg pp po lp
    by (simp add: bind_activation_def)
  then show ?thesis
    using assms unfolding Stage_def Let_def
    by (auto simp: andThen_readp andThen_ok split: if_splits sum.splits)
qed

lemma stage_promote:
  assumes cwd: "IsAbs (ae_cwd env)" and st: "Stage env art q expected d = (ws, Inr s)"
  shows "\<exists>c us. active_id d = Some c
    \<and> PromoteExisting env art (aq_id q) c (apply_writes ws d) = (us, Inr s)
    \<and> active_id (apply_writes us (apply_writes ws d)) = Some (aq_id q) \<and> LoadActive env art (apply_writes us (apply_writes ws d)) = Inr s"
proof -
  obtain active de pkg po where x: "LoadActive env art d = Inr active" "safe_identifier (aq_id q)" "load_artefacts env art q = Inr (de, pkg, po)"
    and s: "s = \<lparr>sn_activation = bind_activation (aq_id q) (av_id (sn_activation active)) de pkg (Abs (ae_cwd env) (aq_package_path q)) po
              (Abs (ae_cwd env) (aq_policy_path q)), sn_package = pkg, sn_policy = po\<rparr>"
    and im: "immutable DifferentBytes (ActivationPath (aq_id q)) (ActivationFile (sn_activation s)) d = (ws, Inr ())"
    using Stage_Inr [OF st] by blast
  let ?a = "sn_activation s" and ?d = "apply_writes ws d"
  have v: "validateActivation env art ?a = Inr s" "resolveActivationPaths env ?a = ?a"
    using staged_valid [OF cwd x(2,3)] by (simp_all add: s)
  have ids: "av_id ?a = aq_id q" "av_previous ?a = av_id (sn_activation active)"
    by (simp_all add: s bind_activation_def)
  have act: "LoadActive env art ?d = Inr active"
    using x(1) immutable_lookup [OF im, of ActivePath]
    by (simp add: LoadActive_def loadActiveDocument_def decodeStrictFile_cong [of ?d ActivePath d])
  have doc: "LoadActivation env art (aq_id q) ?d = Inr s"
    using LoadActivation_lookup [of ?d "aq_id q" ?a] immutable_lookup [OF im] x(2) v(1) by simp
  let ?us = "move_writes ?a (av_id (sn_activation active))"
  have p: "PromoteExisting env art (aq_id q) (av_id (sn_activation active)) ?d = (?us, Inr s)"
    using act doc ids by (simp add: PromoteExisting_def andThen_readp andThen_def move_active_writes)
  have "fmlookup (apply_writes ?us ?d) ActivePath = Some (ActivationFile ?a)"
    by (simp add: move_writes_def)
  then show ?thesis
    using p LoadActive_id [OF x(1)] LoadActive_lookup [of "apply_writes ?us ?d" ?a] active_id_Some v(1) ids(1) by auto
qed

section \<open>When a commit succeeds\<close>

lemma count_ready_total:
  "(\<And>x. x \<in> set xs \<Longrightarrow> \<exists>a. fmlookup d (AckPath i x) = Some (AckFile a)) \<Longrightarrow> \<exists>m. count_ready i act d n xs = Inr m"
proof (induction xs arbitrary: n)
  case (Cons x xs)
  then obtain a where "fmlookup d (AckPath i x) = Some (AckFile a)"
    by auto
  then show ?case
    using Cons by (simp add: decodeStrictFile_def)
qed simp

lemma readyAckCount_total:
  assumes "well_typed d"
  shows "readyAckCount i act d = Inr (ready_acks d i act)"
proof -
  have "\<exists>a. fmlookup d (AckPath i x) = Some (AckFile a)" if x: "x \<in> set (ack_instances i d)" for x
  proof -
    obtain c where c: "fmlookup d (AckPath i x) = Some c"
      using x by (auto simp: set_ack_instances fmlookup_dom_iff)
    then have "of_kind (AckPath i x) c"
      using assms unfolding well_typed_def by blast
    then show ?thesis
      using c by (cases c) auto
  qed
  then obtain m where "readyAckCount i act d = Inr m"
    using count_ready_total [of "ack_instances i d" d i act 0] by (auto simp: readyAckCount_def)
  then show ?thesis
    using readyAckCount_Inr by metis
qed

lemma status_total:
  assumes "intentAndState d = Inr (i, s)" and "well_typed d" and "audit_log sha evs d"
  shows "\<exists>st. Status d = Inr st \<and> st_intent st = i \<and> st_state st = s"
  using assms audit_head [OF assms(3)] by (auto simp: Status_def readyAckCount_total)

lemma commit_and_report_succeeds:
  assumes log: "audit_log sha evs d" and bound: "Suc (length evs) < 2 ^ 63" and sha: "\<And>x. sha x \<noteq> []"
    and free: "fmlookup d (SnapshotPath (ps_intent s) (ps_revision s)) = None" and typed: "well_typed d"
    and i: "fmlookup d (IntentPath (ps_intent s)) = Some (IntentFile i)" "it_id i = ps_intent s"
      "it_schema i = ''openwatchlist.activation-promotion-intent.v1''" "ps_schema s = ''openwatchlist.activation-promotion-state.v1''"
  shows "\<exists>ws st e. commit_and_report sha s ty actor reason payload now d = (ws, Inr st) \<and> apply_writes ws d = committed s e d
    \<and> audit_log sha (evs @ [e]) (apply_writes ws d) \<and> st_state st = s"
proof -
  obtain ws where c: "commitState sha s ty actor reason payload now d = (ws, Inr ())"
    using commit_succeeds [OF log bound sha, of s ty actor reason payload now] free by auto
  obtain e where e: "audit_log sha (evs @ [e]) (apply_writes ws d)" "apply_writes ws d = committed s e d"
    using audit_commit [OF log c] by blast
  have "well_typed (committed s e d)"
    using typed unfolding committed_def well_typed_def by auto
  moreover have "intentAndState (committed s e d) = Inr (i, s)"
    using i by (simp add: intentAndState_Inr)
  ultimately obtain st where "Status (apply_writes ws d) = Inr st" "st_state st = s"
    using status_total e by metis
  then show ?thesis
    using c e by (auto simp: commit_and_report_ok)
qed

section \<open>The directory\<close>

definition promo_request :: prepare_request where
  "promo_request = \<lparr>pq_intent = ''i1'', pq_candidate = ''a2'', pq_operator = ''o'', pq_reason = ''r'', pq_bps = 100,
     pq_allowlist = [''c1''], pq_acks = 1,
     pq_thresholds = \<lparr>th_score_delta = 0, th_top_bps = 0, th_set_bps = 0, th_coverage_loss = 0, th_blockers = 0\<rparr>\<rparr>"

lemma demo_names: "safe_identifier ''a1''" "safe_identifier ''a2''" "safe_identifier ''i1''" "safe_identifier ''n1''"
  by (simp_all add: safe_identifier_def alnum_def go_defs byte_of_def)

lemma demo_env_abs: "IsAbs (ae_cwd act_env)" "IsAbs (ae_state act_env)"
  by (simp_all add: slash_def)

lemma demo_nonempty: "demo_digest x \<noteq> []"
  by (simp add: demo_digest_def)

lemma reach_activation:
  "promotion_reach env d \<Longrightarrow> run_op env art op d = (ws, r) \<Longrightarrow> promotion_reach env (apply_writes ws d)"
  using promotion_reach.step [of env d "length ws" "PoActivation art op"] by simp

definition staged :: "state_files \<Rightarrow> bool" where
  "staged d \<longleftrightarrow>
     (\<exists>b1 b2 s1 s2. fmlookup d ActivePath = Some (ActivationFile b1) \<and> fmlookup d (ActivationPath ''a1'') = Some (ActivationFile b1)
        \<and> fmlookup d (ActivationPath ''a2'') = Some (ActivationFile b2) \<and> av_id b1 = ''a1'' \<and> av_id b2 = ''a2'' \<and> av_previous b2 = ''a1''
        \<and> resolveActivationPaths act_env b2 = b2
        \<and> validateActivation act_env act_disk b1 = Inr s1 \<and> validateActivation act_env act_disk b2 = Inr s2)"

lemma demo_stage:
  "\<exists>b1 b2 s1 s2. Stage act_env act_disk (act_request ''a2'') [] (act_files ''a1'') = ([Put (ActivationPath ''a2'') (ActivationFile b2)], Inr s2)
     \<and> fmlookup (act_files ''a1'') ActivePath = Some (ActivationFile b1) \<and> fmlookup (act_files ''a1'') (ActivationPath ''a1'') = Some (ActivationFile b1)
     \<and> (\<forall>p. \<not> active_path p \<longrightarrow> p \<noteq> ActivationPath ''a1'' \<longrightarrow> fmlookup (act_files ''a1'') p = None)
     \<and> av_id b1 = ''a1'' \<and> av_id b2 = ''a2'' \<and> av_previous b2 = ''a1'' \<and> resolveActivationPaths act_env b2 = b2
     \<and> validateActivation act_env act_disk b1 = Inr s1 \<and> validateActivation act_env act_disk b2 = Inr s2"
proof -
  obtain ws s where a: "Activate act_env act_disk (act_request ''a1'') fmempty = (ws, Inr s)"
    using act_activates [OF demo_names(1)] by blast
  obtain p us where ws: "ws = us @ move_writes (sn_activation s) p" and ids: "av_id (sn_activation s) = ''a1''"
    using Activate_Inr [OF a] by (auto simp: bind_activation_def)
  have us: "us = [Put (ActivationPath ''a1'') (ActivationFile (sn_activation s))]"
    using a ids unfolding ws Activate_def
    by (auto simp: andThen_readp Let_def andThen_def move_active_writes immutable_def bind_activation_def move_writes_def
        split: if_splits sum.splits prod.splits)
  have d: "act_files ''a1'' = apply_writes ws fmempty"
    by (simp add: act_files_def run_def a)
  let ?d = "act_files ''a1''"
  have l1: "fmlookup ?d ActivePath = Some (ActivationFile (sn_activation s))"
    "fmlookup ?d (ActivationPath ''a1'') = Some (ActivationFile (sn_activation s))"
    "\<And>p. \<not> active_path p \<Longrightarrow> p \<noteq> ActivationPath ''a1'' \<Longrightarrow> fmlookup ?d p = None"
    by (auto simp: d ws us move_writes_def)
  obtain s1 where s1: "LoadActive act_env act_disk ?d = Inr s1"
    using activate_load [OF demo_env_abs a] by (auto simp: d)
  then have v1: "validateActivation act_env act_disk (sn_activation s) = Inr s1" "av_id (sn_activation s1) = ''a1''"
    using LoadActive_lookup [OF l1(1)] validate_snapshot [of act_env act_disk "sn_activation s" s1] ids by auto
  obtain pkg po where art: "load_artefacts act_env act_disk (act_request ''a2'') = Inr (demo_catalog, pkg, po)"
    using act_artefacts by blast
  let ?b2 = "bind_activation ''a2'' ''a1'' demo_catalog pkg (Abs ''/'' act_package_path) po (Abs ''/'' ''/a/p'')"
  have b2: "av_id ?b2 = ''a2''" "av_previous ?b2 = ''a1''"
    by (simp_all add: bind_activation_def)
  have v2: "validateActivation act_env act_disk ?b2 = Inr \<lparr>sn_activation = ?b2, sn_package = pkg, sn_policy = po\<rparr>"
    "resolveActivationPaths act_env ?b2 = ?b2"
    using staged_valid [OF demo_env_abs(1) demo_names(2) art, of ?b2 "''a1''"] by simp_all
  have "Stage act_env act_disk (act_request ''a2'') [] ?d
      = ([Put (ActivationPath ''a2'') (ActivationFile ?b2)], Inr \<lparr>sn_activation = ?b2, sn_package = pkg, sn_policy = po\<rparr>)"
    by (simp add: Stage_def demo_names andThen_readp s1 v1 Let_def art b2 immutable_def l1 andThen_def)
  then show ?thesis
    using l1 ids b2 v1(1) v2 by blast
qed

lemma demo_staged: "\<exists>d. promotion_reach act_env d \<and> promotion_steady act_env d \<and> staged d
    \<and> (\<forall>p. \<not> active_path p \<and> p \<notin> range ActivationPath \<longrightarrow> fmlookup d p = None)"
proof -
  let ?d = "act_files ''a1''"
  obtain b1 b2 s1 s2 where st: "Stage act_env act_disk (act_request ''a2'') [] ?d = ([Put (ActivationPath ''a2'') (ActivationFile b2)], Inr s2)"
    and l: "fmlookup ?d ActivePath = Some (ActivationFile b1)" "fmlookup ?d (ActivationPath ''a1'') = Some (ActivationFile b1)"
    and none: "\<forall>p. \<not> active_path p \<longrightarrow> p \<noteq> ActivationPath ''a1'' \<longrightarrow> fmlookup ?d p = None"
    and b: "av_id b1 = ''a1''" "av_id b2 = ''a2''" "av_previous b2 = ''a1''" "resolveActivationPaths act_env b2 = b2"
      "validateActivation act_env act_disk b1 = Inr s1" "validateActivation act_env act_disk b2 = Inr s2"
    using demo_stage by blast
  let ?d2 = "apply_writes [Put (ActivationPath ''a2'') (ActivationFile b2)] ?d"
  obtain ws r where a: "run_op act_env act_disk (OpActivate (act_request ''a1'')) fmempty = (ws, r)"
    by fastforce
  then have "promotion_reach act_env ?d"
    using reach_activation [OF promotion_reach.fresh a] by (simp add: act_files_def run_def)
  then have r: "promotion_reach act_env ?d2"
    using reach_activation [of act_env ?d act_disk "OpStage (act_request ''a2'') []"] st by simp
  have "docs_named ?d"
    unfolding docs_named_def
  proof (intro allI impI)
    fix aid a
    assume f: "fmlookup ?d (ActivationPath aid) = Some (ActivationFile a)"
    then have "aid = ''a1''"
      using none by (cases "aid = ''a1''") auto
    then show "av_id a = aid"
      using f l(2) b(1) by simp
  qed
  moreover have "no_promotion ?d"
    using none by (auto simp: no_promotion_def elim!: audit_path.elims)
  ultimately have "promotion_steady act_env ?d2"
    using promotion_steady.staged [OF promotion_steady.start st] by blast
  then show ?thesis
    using r l b none by (intro exI [of _ ?d2]) (auto simp: staged_def)
qed

end
