(* ===== verification/PromotionCase.thy ===== *)
theory PromotionCase imports PromotionDemo begin

text \<open>The promotion \<^verbatim>\<open>i1\<close> of \<^verbatim>\<open>a2\<close> on the concrete directory, phase by phase.\<close>

definition demo_intent :: "intent \<Rightarrow> bool" where
  "demo_intent i \<longleftrightarrow> (\<exists>x y. i = prepared_intent promo_request ''t'' ''a1'' x ''a2'' y)"

definition in_demo :: "64 word \<Rightarrow> string \<Rightarrow> state_files \<Rightarrow> bool" where
  "in_demo r ph d \<longleftrightarrow>
     promotion_reach act_env d \<and> promotion_steady act_env d
     \<and> (\<exists>evs. audit_log demo_digest evs d \<and> evs \<noteq> [] \<and> length evs \<le> unat r + 1)
     \<and> (\<forall>n c. fmlookup d (SnapshotPath ''i1'' n) = Some c \<longrightarrow> n \<le> r)
     \<and> (\<forall>i h c. fmlookup d (ReportPath i h) = Some c \<longrightarrow> ph \<noteq> ''prepared'')
     \<and> fmlookup d (AckPath ''i1'' ''n1'') = None
     \<and> (\<exists>i s. intentAndState d = Inr (i, s) \<and> demo_intent i \<and> ps_phase s = ph \<and> ps_revision s = r \<and> ps_intent s = ''i1'')"

lemma in_demoD:
  assumes "in_demo r ph d"
  shows "promotion_reach act_env d" "promotion_steady act_env d" "well_typed d" "fmlookup d PromotionPendingPath = None"
    "docs_named d"
  using assms reach_typed [of act_env d] steady_invariant [of act_env d] by (auto simp: in_demo_def steady_ok_def)

lemma intent_simps:
  assumes "demo_intent i"
  shows "it_id i = ''i1''" "it_current i = ''a1''" "it_candidate i = ''a2''" "it_acks i = 1" "it_allowlist i = normalizedAllowlist [''c1'']"
    "it_schema i = ''openwatchlist.activation-promotion-intent.v1''"
    "it_thresholds i = \<lparr>th_score_delta = 0, th_top_bps = 0, th_set_bps = 0, th_coverage_loss = 0, th_blockers = 0\<rparr>"
  using assms by (auto simp: demo_intent_def prepared_intent_def promo_request_def)

lemma reach_transaction:
  "promotion_reach act_env d \<Longrightarrow> transaction act_env op = Some p \<Longrightarrow> p d = (ws, Inr st) \<Longrightarrow> promotion_reach act_env (apply_writes ws d)"
  using promotion_reach.step [of act_env d "length ws" op] by (cases op) auto

lemma demo_trim: "TrimSpace ''o'' = ''o''" "TrimSpace ''r'' = ''r''" "TrimSpace ''c1'' = ''c1''" "TrimSpace ''x'' = ''x''"
  by (simp_all add: str_eval)

text \<open>A commit of the promotion in the demonstration.\<close>

lemma demo_commit:
  assumes log: "audit_log demo_digest evs d" and len: "length evs \<le> 20" and typed: "well_typed d"
    and i: "fmlookup d (IntentPath ''i1'') = Some (IntentFile i)" "demo_intent i"
    and s: "ps_intent s = ''i1''" "ps_schema s = ''openwatchlist.activation-promotion-state.v1''"
    and free: "fmlookup d (SnapshotPath ''i1'' (ps_revision s)) = None"
  shows "\<exists>ws st e. commit_and_report demo_digest s ty actor reason payload now d = (ws, Inr st) \<and> apply_writes ws d = committed s e d
    \<and> audit_log demo_digest (evs @ [e]) (apply_writes ws d) \<and> st_state st = s \<and> intentAndState (apply_writes ws d) = Inr (i, s)"
proof -
  have bound: "Suc (length evs) < 2 ^ 63"
    using len by simp
  have "fmlookup d (SnapshotPath (ps_intent s) (ps_revision s)) = None" "fmlookup d (IntentPath (ps_intent s)) = Some (IntentFile i)"
    "it_id i = ps_intent s" "it_schema i = ''openwatchlist.activation-promotion-intent.v1''"
    using i s free intent_simps [OF i(2)] by simp_all
  from commit_and_report_succeeds [OF log bound demo_nonempty this(1) typed this(2-4) s(2), of ty actor reason payload now]
  obtain ws st e where "commit_and_report demo_digest s ty actor reason payload now d = (ws, Inr st)" "apply_writes ws d = committed s e d"
    "audit_log demo_digest (evs @ [e]) (apply_writes ws d)" "st_state st = s"
    by blast
  moreover from this have "intentAndState (apply_writes ws d) = Inr (i, s)"
    using i s intent_simps [OF i(2)] by (simp add: intentAndState_Inr)
  ultimately show ?thesis
    by blast
qed

lemma demo_prepared: "\<exists>d. in_demo 1 ''prepared'' d \<and> staged d"
proof -
  obtain d where d: "promotion_reach act_env d" "promotion_steady act_env d" "staged d"
    and none: "\<And>p. \<not> active_path p \<Longrightarrow> p \<notin> range ActivationPath \<Longrightarrow> fmlookup d p = None"
    using demo_staged by blast
  have n: "fmlookup d PromotionPath = None" "fmlookup d AuditHeadPath = None" "\<And>i. fmlookup d (IntentPath i) = None"
    "\<And>i n. fmlookup d (SnapshotPath i n) = None" "\<And>i h. fmlookup d (ReportPath i h) = None"
    "\<And>i h. fmlookup d (AuditPath i h) = None" "\<And>i x. fmlookup d (AckPath i x) = None"
    by (rule none; auto)+
  obtain b1 b2 s1 s2 where b: "fmlookup d ActivePath = Some (ActivationFile b1)" "fmlookup d (ActivationPath ''a1'') = Some (ActivationFile b1)"
    "fmlookup d (ActivationPath ''a2'') = Some (ActivationFile b2)" "av_id b1 = ''a1''" "av_id b2 = ''a2''" "av_previous b2 = ''a1''"
    "validateActivation act_env act_disk b1 = Inr s1" "validateActivation act_env act_disk b2 = Inr s2"
    using d(3) by (auto simp: staged_def)
  have l: "LoadActive act_env act_disk d = Inr s1" "LoadActivation act_env act_disk ''a2'' d = Inr s2"
    using b LoadActive_lookup [OF b(1)] LoadActivation_lookup [OF b(3) demo_names(2)] by simp_all
  have ids: "av_id (sn_activation s1) = ''a1''" "av_id (sn_activation s2) = ''a2''" "av_previous (sn_activation s2) = ''a1''"
    using validate_snapshot [OF b(7)] validate_snapshot [OF b(8)] b by simp_all
  let ?i = "prepared_intent promo_request ''t'' ''a1'' (ActivationDigest demo_digest b1) ''a2'' (ActivationDigest demo_digest b2)"
  let ?s = "prepared_state promo_request ''a1'' ''a2'' ''u''"
  let ?pre = "[Put (IntentPath ''i1'') (IntentFile ?i)]"
  have typed: "well_typed (apply_writes ?pre d)"
    using reach_typed [OF d(1)] by (intro typed_writes) simp_all
  have log: "audit_log demo_digest [] (apply_writes ?pre d)"
    using n by (simp add: audit_log_def)
  have di: "demo_intent ?i"
    by (auto simp: demo_intent_def)
  have a: "fmlookup (apply_writes ?pre d) (IntentPath ''i1'') = Some (IntentFile ?i)" "ps_intent ?s = ''i1''"
    "ps_schema ?s = ''openwatchlist.activation-promotion-state.v1''"
    "fmlookup (apply_writes ?pre d) (SnapshotPath ''i1'' (ps_revision ?s)) = None" "length ([] :: promotion_event list) \<le> 20"
    by (simp_all add: prepared_state_def promo_request_def n)
  obtain cs st e where c: "commit_and_report demo_digest ?s ''promotion_prepared'' ''o'' ''r''
      [(''current_activation_id'', JStr ''a1''), (''candidate_activation_id'', JStr ''a2'')] ''n'' (apply_writes ?pre d) = (cs, Inr st)"
    "apply_writes cs (apply_writes ?pre d) = committed ?s e (apply_writes ?pre d)"
    "audit_log demo_digest ([] @ [e]) (apply_writes cs (apply_writes ?pre d))" "intentAndState (apply_writes cs (apply_writes ?pre d)) = Inr (?i, ?s)"
    using demo_commit [OF log a(5) typed a(1) di a(2-4)] by blast
  have "check_request promo_request = Inr ()"
    by (simp add: check_request_def promo_request_def demo_names demo_trim validateThresholds_def guard_err_def)
  moreover have "no_state d = Inr ()"
    by (simp add: no_state_def loadState_def decodeStrictFile_def n)
  moreover have "ActivationDocumentSHA256 act_env ''a1'' d = Inr (ActivationDigest demo_digest b1)"
    "ActivationDocumentSHA256 act_env ''a2'' d = Inr (ActivationDigest demo_digest b2)"
    using digest_lookup [OF b(2) demo_names(1), of act_env] digest_lookup [OF b(3) demo_names(2), of act_env] by simp_all
  moreover have "pq_candidate promo_request = ''a2''" "pq_intent promo_request = ''i1''" "pq_operator promo_request = ''o''" "pq_reason promo_request = ''r''"
    by (simp_all add: promo_request_def)
  ultimately have run: "Prepare act_env act_disk promo_request ''t'' ''u'' ''n'' d = (?pre @ cs, Inr st)"
    using c(1) l ids n(3) unfolding Prepare_def activation_read_def Let_def
    by (simp add: andThen_readp map_error_def andThen_def immutable_def prepared_intent_def prepared_state_def demo_trim)
  let ?d = "apply_writes (?pre @ cs) d"
  have op: "transaction act_env (PoPrepare act_disk promo_request ''t'' ''u'' ''n'') = Some (Prepare act_env act_disk promo_request ''t'' ''u'' ''n'')"
    by simp
  have "in_demo 1 ''prepared'' ?d"
    unfolding in_demo_def using reach_transaction [OF d(1) op run] promotion_steady.transacted [OF d(2) op run] c di
    by (auto simp: n prepared_state_def promo_request_def split: if_splits)
  moreover have "?d = committed ?s e (fmupd (IntentPath ''i1'') (IntentFile ?i) d)"
    using c(2) by simp
  then have "staged ?d"
    using d(3) by (simp add: staged_def)
  ultimately show ?thesis
    by blast
qed

text \<open>Evaluation with a summary that shows no change, and the start of the canary.\<close>

definition demo_counts :: shadow_summary where
  "demo_counts = \<lparr>ss_schema = ''openwatchlist.activation-shadow-summary.v1'', ss_intent = ''i1'', ss_generated = ''g'',
     ss_observations = 1, ss_items = 1, ss_set_changes = 0, ss_top_changes = 0, ss_max_delta = 0, ss_coverage_loss = 0,
     ss_blockers = 0, ss_set_bps = 0, ss_top_bps = 0, ss_sha = []\<rparr>"

definition demo_summary :: shadow_summary where
  "demo_summary = demo_counts\<lparr>ss_sha := demo_digest (marshalCanonical (summary_json demo_counts))\<rparr>"

lemma demo_summary_verifies: "verifySummary demo_digest demo_summary = Inr ()"
proof -
  have "demo_summary\<lparr>ss_sha := []\<rparr> = demo_counts"
    by (simp add: demo_summary_def demo_counts_def)
  then have "sha (marshalCanonical (summary_json (demo_summary\<lparr>ss_sha := []\<rparr>))) = sha (marshalCanonical (summary_json demo_counts))" for sha :: "string \<Rightarrow> string"
    by simp
  moreover have "ss_sha demo_summary = demo_digest (marshalCanonical (summary_json demo_counts))"
    "ss_schema demo_summary = ''openwatchlist.activation-shadow-summary.v1''" "ss_intent demo_summary = ''i1''" "ss_items demo_summary = 1"
    by (simp_all add: demo_summary_def demo_counts_def)
  ultimately show ?thesis
    using demo_nonempty by (simp add: verifySummary_def)
qed

lemma staged_committed [simp]: "staged (committed s e d) = staged d"
  by (simp add: staged_def)

lemma staged_other: "\<not> active_path p \<Longrightarrow> p \<notin> range ActivationPath \<Longrightarrow> staged (fmupd p c d) = staged d"
  by (cases p) (auto simp: staged_def)

lemma in_demo_at:
  assumes "in_demo r ph d"
  shows "\<exists>i s evs. at_revision r d = Inr (i, s) \<and> demo_intent i \<and> ps_phase s = ph \<and> ps_revision s = r \<and> ps_intent s = ''i1''
    \<and> ps_schema s = ''openwatchlist.activation-promotion-state.v1''
    \<and> fmlookup d (IntentPath ''i1'') = Some (IntentFile i) \<and> audit_log demo_digest evs d \<and> length evs \<le> unat r + 1"
  using assms by (auto simp: in_demo_def at_revision_Inr intentAndState_Inr)

lemma free_snapshot: "in_demo r ph d \<Longrightarrow> r < m \<Longrightarrow> fmlookup d (SnapshotPath ''i1'' m) = None"
  by (cases "fmlookup d (SnapshotPath ''i1'' m)") (auto simp: in_demo_def not_less [symmetric])

lemma promo_evaluated: "\<exists>d. in_demo 2 ''validated'' d \<and> staged d"
proof -
  obtain d where d: "in_demo 1 ''prepared'' d" "staged d"
    using demo_prepared by blast
  obtain i s evs where s: "at_revision 1 d = Inr (i, s)" "demo_intent i" "ps_phase s = ''prepared''" "ps_revision s = 1" "ps_intent s = ''i1''"
    "ps_schema s = ''openwatchlist.activation-promotion-state.v1''" and i: "fmlookup d (IntentPath ''i1'') = Some (IntentFile i)"
    and log: "audit_log demo_digest evs d" "length evs \<le> 2"
    using in_demo_at [OF d(1)] by auto
  let ?s = "evaluated_state i demo_summary ''u'' s"
  let ?pre = "[Put (ReportPath ''i1'' (ss_sha demo_summary)) (ReportFile demo_summary)]"
  let ?d = "apply_writes ?pre d"
  have none: "fmlookup d (ReportPath ''i1'' h) = None" "fmlookup d (SnapshotPath ''i1'' 2) = None" for h
    using free_snapshot [OF d(1), of 2] d(1) by (auto simp: in_demo_def not_None_eq [symmetric] simp del: not_None_eq)
  have ev: "evaluateSummary (it_thresholds i) demo_summary = []"
    by (simp add: evaluateSummary_def intent_simps [OF s(2)] demo_summary_def demo_counts_def)
  have ss: "ps_phase ?s = ''validated''" "ps_revision ?s = 2" "ps_intent ?s = ''i1''" "ps_schema ?s = ''openwatchlist.activation-promotion-state.v1''"
    by (simp_all add: evaluated_state_def Let_def ev s)
  have typed: "well_typed ?d"
    using in_demoD(3) [OF d(1)] by (intro typed_writes) simp_all
  have log': "audit_log demo_digest evs ?d"
    using log(1) by (subst audit_log_frame) auto
  have a: "fmlookup ?d (IntentPath ''i1'') = Some (IntentFile i)" "fmlookup ?d (SnapshotPath ''i1'' (ps_revision ?s)) = None" "length evs \<le> 20"
    using i none log(2) by (simp_all add: ss)
  obtain cs st e where c: "commit_and_report demo_digest ?s ''promotion_validated'' ''o'' ''r''
      [(''summary_sha256'', JStr (ss_sha demo_summary)), (''blockers'', jslice [])] ''n'' ?d = (cs, Inr st)"
    "apply_writes cs ?d = committed ?s e ?d" "audit_log demo_digest (evs @ [e]) (apply_writes cs ?d)"
    "intentAndState (apply_writes cs ?d) = Inr (i, ?s)"
    using demo_commit [OF log' a(3) typed a(1) s(2) ss(3,4) a(2)] by blast
  have "ss_intent demo_summary = ''i1''" "ss_schema demo_summary = ''openwatchlist.activation-shadow-summary.v1''"
    by (simp_all add: demo_summary_def demo_counts_def)
  then have run: "Evaluate demo_digest 1 demo_summary ''o'' ''r'' ''u'' ''n'' d = (?pre @ cs, Inr st)"
    using c(1) none(1) s unfolding Evaluate_def Let_def
    by (simp add: andThen_readp andThen_def immutable_def demo_summary_verifies ev ev [unfolded intent_simps(7) [OF s(2)]]
        intent_simps [OF s(2)] evaluated_state_def Let_def)
  have op: "transaction act_env (PoEvaluate 1 demo_summary ''o'' ''r'' ''u'' ''n'') = Some (Evaluate demo_digest 1 demo_summary ''o'' ''r'' ''u'' ''n'')"
    by simp
  let ?d' = "apply_writes (?pre @ cs) d"
  have d': "?d' = committed ?s e ?d"
    using c(2) by simp
  have "n \<le> 2" if "fmlookup ?d' (SnapshotPath ''i1'' n) = Some x" for n x
  proof (cases "n = 2")
    case False
    then have "fmlookup d (SnapshotPath ''i1'' n) = Some x"
      using that unfolding d' by (simp add: ss)
    then have "n \<le> 1"
      using d(1) by (simp add: in_demo_def)
    also have "(1 :: 64 word) \<le> 2"
      by simp
    finally show ?thesis .
  qed simp
  moreover have "fmlookup ?d' (AckPath ''i1'' ''n1'') = None"
    using d(1) unfolding d' by (simp add: in_demo_def)
  moreover have "audit_log demo_digest (evs @ [e]) ?d'" "evs @ [e] \<noteq> []" "length (evs @ [e]) \<le> 3" "intentAndState ?d' = Inr (i, ?s)"
    using c log(2) by simp_all
  ultimately have "in_demo 2 ''validated'' ?d'"
    unfolding in_demo_def using reach_transaction [OF in_demoD(1) [OF d(1)] op run] promotion_steady.transacted [OF in_demoD(2) [OF d(1)] op run] s(2) ss
    by auto
  moreover have "staged ?d'"
    using d(2) staged_other [of "ReportPath ''i1'' (ss_sha demo_summary)"] unfolding d' by auto
  ultimately show ?thesis
    by blast
qed

lemma demo_canary:
  assumes "in_demo 2 ''validated'' d" and "staged d"
  shows "\<exists>ws st. StartCanary demo_digest 2 ''o'' ''r'' u n d = (ws, Inr st) \<and> in_demo 3 ''canary'' (apply_writes ws d) \<and> staged (apply_writes ws d)"
proof -
  obtain i s evs where s: "at_revision 2 d = Inr (i, s)" "demo_intent i" "ps_phase s = ''validated''" "ps_revision s = 2" "ps_intent s = ''i1''"
    "ps_schema s = ''openwatchlist.activation-promotion-state.v1''" and i: "fmlookup d (IntentPath ''i1'') = Some (IntentFile i)"
    and log: "audit_log demo_digest evs d" "length evs \<le> 3"
    using in_demo_at [OF assms(1)] by auto
  let ?s = "s\<lparr>ps_revision := 3, ps_phase := ''canary'', ps_updated := u\<rparr>"
  have ss: "ps_intent ?s = ''i1''" "ps_schema ?s = ''openwatchlist.activation-promotion-state.v1''" "length evs \<le> 20"
    using s log by simp_all
  have "fmlookup d (SnapshotPath ''i1'' 3) = None"
    by (rule free_snapshot [OF assms(1)]) simp
  then have free: "fmlookup d (SnapshotPath ''i1'' (ps_revision ?s)) = None"
    by simp
  obtain ws st e where c: "commit_and_report demo_digest ?s ''canary_started'' ''o'' ''r'' [] n d = (ws, Inr st)"
    "apply_writes ws d = committed ?s e d" "audit_log demo_digest (evs @ [e]) (apply_writes ws d)" "intentAndState (apply_writes ws d) = Inr (i, ?s)"
    using demo_commit [OF log(1) ss(3) in_demoD(3) [OF assms(1)] i s(2) ss(1,2) free] by blast
  have run: "StartCanary demo_digest 2 ''o'' ''r'' u n d = (ws, Inr st)"
    using c(1) s by (simp add: StartCanary_def transition_def andThen_readp)
  have op: "transaction act_env (PoStartCanary 2 ''o'' ''r'' u n) = Some (StartCanary demo_digest 2 ''o'' ''r'' u n)"
    by simp
  let ?d' = "apply_writes ws d"
  have "m \<le> 3" if "fmlookup ?d' (SnapshotPath ''i1'' m) = Some x" for m x
  proof (cases "m = 3")
    case False
    then have "fmlookup d (SnapshotPath ''i1'' m) = Some x"
      using that by (simp add: c(2) s)
    then have "m \<le> 2"
      using assms(1) by (simp add: in_demo_def)
    also have "(2 :: 64 word) \<le> 3"
      by simp
    finally show ?thesis .
  qed simp
  moreover have "fmlookup ?d' (AckPath ''i1'' ''n1'') = None"
    using assms(1) by (simp add: in_demo_def c(2))
  moreover have "length (evs @ [e]) \<le> 4" "evs @ [e] \<noteq> []"
    using log(2) by simp_all
  ultimately have "in_demo 3 ''canary'' ?d'"
    unfolding in_demo_def
    using reach_transaction [OF in_demoD(1) [OF assms(1)] op run] promotion_steady.transacted [OF in_demoD(2) [OF assms(1)] op run] s c(3,4)
    by auto
  then show ?thesis
    using run assms(2) by (auto simp: c(2))
qed

end
