(* ===== verification/PromotionEnd.thy ===== *)
theory PromotionEnd imports PromotionCase begin

text \<open>The acknowledgement of the candidate and the promotion on the concrete directory.\<close>

definition acked :: "state_files \<Rightarrow> bool" where
  "acked d \<longleftrightarrow>
     promotion_reach act_env d \<and> promotion_steady act_env d
     \<and> (\<exists>evs. audit_log demo_digest evs d \<and> length evs \<le> 5) \<and> fmlookup d (SnapshotPath ''i1'' 4) = None \<and> 1 \<le> ready_acks d ''i1'' ''a2''
     \<and> (\<exists>i s. intentAndState d = Inr (i, s) \<and> demo_intent i \<and> ps_phase s = ''canary'' \<and> ps_revision s = 3 \<and> ps_intent s = ''i1'')"

definition demo_ack :: ack where
  "demo_ack = \<lparr>ak_schema = [], ak_intent = ''i1'', ak_instance = ''n1'', ak_activation = ''a2'', ak_status = ''ready'',
     ak_observed = [], ak_tuple = ''x''\<rparr>"

lemma demo_acked:
  assumes d: "in_demo 3 ''canary'' d" and st: "staged d"
  shows "\<exists>ws st. Acknowledge demo_digest demo_ack ''u'' ''n'' d = (ws, Inr st) \<and> acked (apply_writes ws d) \<and> staged (apply_writes ws d)"
proof -
  obtain i s evs where s: "at_revision 3 d = Inr (i, s)" "demo_intent i" "ps_phase s = ''canary''" "ps_revision s = 3" "ps_intent s = ''i1''"
    and log: "audit_log demo_digest evs d" "length evs \<le> 4"
    using in_demo_at [OF d] by auto
  then have is_: "intentAndState d = Inr (i, s)"
    by (simp add: at_revision_Inr)
  let ?a = "demo_ack\<lparr>ak_schema := ''openwatchlist.activation-promotion-ack.v1'', ak_observed := ''u''\<rparr>"
  let ?pre = "[Put (AckPath ''i1'' ''n1'') (AckFile ?a)]"
  let ?d = "apply_writes ?pre d"
  have none: "fmlookup d (AckPath ''i1'' ''n1'') = None"
    using d by (simp add: in_demo_def)
  have log': "audit_log demo_digest evs ?d"
    using log(1) by (subst audit_log_frame) auto
  have bound: "Suc (length evs) < 2 ^ 63"
    using log(2) by simp
  let ?pl = "[(''status'', JStr ''ready''), (''activation_id'', JStr ''a2''), (''tuple_sha256'', JStr ''x'')]"
  obtain e where e: "nextAuditEvent demo_digest ''instance_acknowledged'' s ''n1'' [] ?pl ''n'' ?d = Inr e" "verifyAuditEvent demo_digest e = Inr ()"
    using next_event_verifies [OF log' bound demo_nonempty] by blast
  obtain h where h: "head_or_zero ?d = Inr h" "ph_sequence h = of_nat (length evs)" "ph_sha h = chain_head pv_sha [] evs"
    using audit_head [OF log'] by blast
  have sq: "pv_sequence e = of_nat (Suc (length evs))" "pv_previous e = chain_head pv_sha [] evs"
    using audit_next [OF log' e(1)] by auto
  have new: "fmlookup ?d (AuditPath (pv_sequence e) (pv_sha e)) = None"
    using audit_new [OF log' bound] sq(1) by simp
  let ?as = "audit_writes e ?d @ [Put AuditHeadPath (AuditHeadFile (head_of_event e))]"
  have ap: "appendAudit demo_digest e ?d = (?as, Inr ())"
    using appendAudit_next [OF h(1), of e demo_digest ?as "()"] e(2) sq h(2,3) new by auto
  let ?d' = "apply_writes (?pre @ ?as) d"
  have l: "fmlookup ?d' p = (if p = AuditHeadPath then Some (AuditHeadFile (head_of_event e))
      else if p = AuditPath (pv_sequence e) (pv_sha e) then Some (AuditFile e) else fmlookup ?d p)" for p
    using new by (auto simp: audit_writes_def)
  have log'': "audit_log demo_digest (evs @ [e]) ?d'"
    by (rule audit_append [OF log' e(2) sq]) (simp_all only: l, auto)
  have typed: "well_typed ?d'"
    using in_demoD(3) [OF d] by (intro typed_writes) (auto simp: audit_writes_def demo_ack_def)
  have is': "intentAndState ?d' = Inr (i, s)"
    using is_ by (simp only: intentAndState_Inr l) simp
  obtain st' where st': "Status ?d' = Inr st'"
    using status_total [OF is' typed log''] by blast
  have run: "Acknowledge demo_digest demo_ack ''u'' ''n'' d = (?pre @ ?as, Inr st')"
    using e(1) ap st' none unfolding Acknowledge_def Let_def
    by (simp add: andThen_readp is_ s intent_simps [OF s(2)] demo_ack_def demo_names demo_trim immutable_def andThen_def)
  have "promotion_reach act_env ?d'"
    using promotion_reach.step [OF in_demoD(1) [OF d], of "length (?pre @ ?as)" "PoAcknowledge demo_ack ''u'' ''n''"]
    by (simp only: promotion_writes.simps act_env_simps run fst_conv take_all_iff [THEN iffD2, OF order_refl])
  moreover have "promotion_steady act_env ?d'"
    by (rule promotion_steady.acknowledged [OF in_demoD(2) [OF d]]) (simp only: act_env_simps, rule run)
  moreover have "1 \<le> ready_acks ?d' ''i1'' ''a2''"
  proof -
    have a: "fmlookup ?d' (AckPath ''i1'' ''n1'') = Some (AckFile ?a)"
      by (simp only: l) simp
    have "is_ready ?d' ''i1'' ''a2'' (AckPath ''i1'' ''n1'')"
      unfolding is_ready.simps a by (simp add: ready_ack_def demo_ack_def)
    then have "AckPath ''i1'' ''n1'' |\<in>| ffilter (is_ready ?d' ''i1'' ''a2'') (fmdom ?d')"
      using fmdomI [OF a] by (simp only: ffmember_filter)
    then have "ffilter (is_ready ?d' ''i1'' ''a2'') (fmdom ?d') \<noteq> {||}"
      by blast
    then have "0 < fcard (ffilter (is_ready ?d' ''i1'' ''a2'') (fmdom ?d'))"
      using fcard_0_eq by (metis gr0I)
    then show ?thesis
      unfolding ready_acks_def by linarith
  qed
  moreover have "fmlookup ?d' (SnapshotPath ''i1'' 4) = None"
    using free_snapshot [OF d, of 4] by (simp only: l) simp
  moreover have "length (evs @ [e]) \<le> 5"
    using log(2) by simp
  ultimately have "acked ?d'"
    unfolding acked_def using log'' is' s by blast
  moreover have "staged ?d'"
    using st by (simp only: staged_def l) simp
  ultimately show ?thesis
    using run by blast
qed

lemma demo_promote:
  assumes d: "acked d" and st: "staged d"
  shows "\<exists>ws st t cs. Promote act_env act_disk 3 ''o'' ''r'' ''u'' ''n'' d = (ws, Inr st) \<and> ws = move_writes t ''a1'' @ cs \<and> av_id t = ''a2''
    \<and> it_current (st_intent st) \<noteq> it_candidate (st_intent st) \<and> intentAndState (apply_writes ws d) = Inr (st_intent st, st_state st)
    \<and> ps_phase (st_state st) = ''promoted'' \<and> it_candidate (st_intent st) = ''a2''"
proof -
  obtain i s evs where is_: "intentAndState d = Inr (i, s)" "demo_intent i" "ps_phase s = ''canary''" "ps_revision s = 3" "ps_intent s = ''i1''"
    and log: "audit_log demo_digest evs d" "length evs \<le> 5" and free: "fmlookup d (SnapshotPath ''i1'' 4) = None"
    and ready: "1 \<le> ready_acks d ''i1'' ''a2''" and typed: "well_typed d"
    using d reach_typed [of act_env d] by (auto simp: acked_def)
  have i: "fmlookup d (IntentPath ''i1'') = Some (IntentFile i)" "ps_schema s = ''openwatchlist.activation-promotion-state.v1''"
    using is_ by (simp_all add: intentAndState_Inr)
  have at: "at_revision 3 d = Inr (i, s)"
    using is_ by (simp add: at_revision_Inr)
  obtain b1 b2 s1 s2 where b: "fmlookup d ActivePath = Some (ActivationFile b1)" "fmlookup d (ActivationPath ''a2'') = Some (ActivationFile b2)"
    "av_id b1 = ''a1''" "av_id b2 = ''a2''" "av_previous b2 = ''a1''"
    "validateActivation act_env act_disk b1 = Inr s1" "validateActivation act_env act_disk b2 = Inr s2" "resolveActivationPaths act_env b2 = b2"
    using st by (auto simp: staged_def)
  have l: "LoadActive act_env act_disk d = Inr s1" "LoadActivation act_env act_disk ''a2'' d = Inr s2"
    using b LoadActive_lookup [OF b(1)] LoadActivation_lookup [OF b(2) demo_names(2)] by simp_all
  have ids: "av_id (sn_activation s1) = ''a1''" "sn_activation s2 = b2"
    using validate_snapshot [OF b(6)] validate_snapshot [OF b(7)] b by simp_all
  let ?pre = "move_writes b2 ''a1''"
  have pub: "PromoteExisting act_env act_disk ''a2'' ''a1'' d = (?pre, Inr s2)"
    using l ids b(5) by (simp add: PromoteExisting_def andThen_readp andThen_def move_active_writes)
  let ?d = "apply_writes ?pre d"
  let ?s = "s\<lparr>ps_revision := 4, ps_phase := ''promoted'', ps_updated := ''u'', ps_blockers := []\<rparr>"
  have log': "audit_log demo_digest evs ?d"
    using log(1) by (subst audit_log_frame) (auto simp: move_writes_def)
  have typed': "well_typed ?d"
    using typed by (intro typed_writes) (simp_all add: move_writes_def pending_record_def)
  have a: "fmlookup ?d (IntentPath ''i1'') = Some (IntentFile i)" "ps_intent ?s = ''i1''" "ps_schema ?s = ''openwatchlist.activation-promotion-state.v1''"
    "fmlookup ?d (SnapshotPath ''i1'' (ps_revision ?s)) = None" "length evs \<le> 20"
    using i is_ free log(2) by (simp_all add: move_writes_def)
  obtain cs st e where c: "commit_and_report demo_digest ?s ''promotion_completed'' ''o'' ''r''
      [(''ready_ack_count'', JInt (ready_acks d ''i1'' ''a2''))] ''n'' ?d = (cs, Inr st)"
    "apply_writes cs ?d = committed ?s e ?d" "intentAndState (apply_writes cs ?d) = Inr (i, ?s)"
    using demo_commit [OF log' a(5) typed' a(1) is_(2) a(2-4)] by blast
  have run: "Promote act_env act_disk 3 ''o'' ''r'' ''u'' ''n'' d = (?pre @ cs, Inr st)"
    using ready pub c(1) by (simp add: Promote_def andThen_readp at is_ intent_simps [OF is_(2)] readyAckCount_total [OF typed]
        lift_errors_def map_error_def andThen_def)
  have "Status (apply_writes cs ?d) = Inr st"
    using c(1) by (simp add: commit_and_report_ok)
  then have "st_intent st = i" "st_state st = ?s"
    using c(3) by (auto simp: Status_def)
  then show ?thesis
    using run b(4) c(3) intent_simps [OF is_(2)] by auto
qed

text \<open>What the demonstration provides.\<close>

lemma demo_promotion: "\<exists>d ws st. promotion_steady act_env d \<and> Promote act_env act_disk 3 ''o'' ''r'' ''u'' ''n'' d = (ws, Inr st)
    \<and> ps_phase (st_state st) = ''promoted'' \<and> it_candidate (st_intent st) = ''a2'' \<and> it_current (st_intent st) \<noteq> it_candidate (st_intent st)"
proof -
  obtain d0 where "in_demo 2 ''validated'' d0" "staged d0"
    using promo_evaluated by blast
  from demo_canary [OF this, of "''u''" "''n''"] obtain d1 where d1: "in_demo 3 ''canary'' d1" "staged d1"
    by blast
  obtain d where d: "acked d" "staged d"
    using demo_acked [OF d1] by blast
  then show ?thesis
    using demo_promote [OF d] unfolding acked_def by blast
qed

lemma demo_head: "in_demo r ph d \<Longrightarrow> \<exists>h. fmlookup d AuditHeadPath = Some (AuditHeadFile h)"
  by (auto simp: in_demo_def audit_log_def)

end
