(* ===== verification/PromotionProps.thy ===== *)
theory PromotionProps imports PromotionEnd begin

text \<open>
  Properties of controlled promotion: who may be served by the candidate, what an interruption leaves, the
  audit log, and two interruptions after which the promotion cannot go on.
\<close>

section \<open>Interrupted commits\<close>

lemma steady_facts:
  assumes "promotion_steady env d"
  obtains evs where "audit_log (pe_sha env) evs d" "fmlookup d PromotionPendingPath = None" "docs_named d" "in_phase d"
  using steady_invariant [OF assms] by (auto simp: steady_ok_def)

lemma recover_nothing:
  assumes "audit_log sha evs d" and "fmlookup d PromotionPendingPath = None"
  shows "RecoverPromotion sha d = ([], Inr ''clean'')"
  using audit_log_verifies [OF assms(1)] assms(2) by (simp add: RecoverPromotion_def decodeStrictFile_def)

text \<open>A snapshot of another state blocks a commit.\<close>

lemma commit_blocked:
  assumes "fmlookup d (SnapshotPath (ps_intent s) (ps_revision s)) = Some c" and "c \<noteq> PromotionFile s"
  shows "commitState sha s ty actor reason payload now d = ([], Inl ImmutableConflict)"
    "commit_and_report sha s ty actor reason payload now d = ([], Inl ImmutableConflict)"
proof -
  show c: "commitState sha s ty actor reason payload now d = ([], Inl ImmutableConflict)"
    unfolding commitState_def by (rule andThen_fail) (simp add: immutable_def assms)
  show "commit_and_report sha s ty actor reason payload now d = ([], Inl ImmutableConflict)"
    unfolding commit_and_report_def by (rule andThen_fail) (rule c)
qed

lemma canary_wedge:
  assumes st: "promotion_steady env d" and run: "StartCanary (pe_sha env) e a r u n d = (ws, Inr st)"
    and new: "fmlookup d (SnapshotPath (ps_intent (st_state st)) (ps_revision (st_state st))) = None"
  shows "RecoverPromotion (pe_sha env) (apply_writes (take 1 ws) d) = ([], Inr ''clean'')
    \<and> (\<forall>e' a' r' u' n'. u' \<noteq> u \<longrightarrow> \<not> is_ok (snd (StartCanary (pe_sha env) e' a' r' u' n' (apply_writes (take 1 ws) d))))
    \<and> (\<forall>e' sm a' r' u' n'. \<not> is_ok (snd (Evaluate (pe_sha env) e' sm a' r' u' n' (apply_writes (take 1 ws) d))))"
proof -
  let ?sha = "pe_sha env"
  obtain evs where log: "audit_log ?sha evs d" and clean: "fmlookup d PromotionPendingPath = None"
    using steady_facts [OF st] .
  obtain i s where at: "at_revision e d = Inr (i, s)" and ph: "ps_phase s = ''validated''"
    and cr: "commit_and_report ?sha (s\<lparr>ps_revision := ps_revision s + 1, ps_phase := ''canary'', ps_updated := u\<rparr>) ''canary_started'' a r [] n d = (ws, Inr st)"
    using StartCanary_parts [OF run] by blast
  let ?s = "s\<lparr>ps_revision := ps_revision s + 1, ps_phase := ''canary'', ps_updated := u\<rparr>"
  have c: "commitState ?sha ?s ''canary_started'' a r [] n d = (ws, Inr ())" "Status (apply_writes ws d) = Inr st"
    using cr by (simp_all add: commit_and_report_ok)
  obtain ev where ev: "apply_writes ws d = committed ?s ev d"
    using commit_files [OF c(1)] by blast
  have is_: "intentAndState d = Inr (i, s)"
    using at by (simp add: at_revision_Inr)
  then have sst: "st_state st = ?s"
    using c(2) unfolding ev by (auto simp: Status_def intentAndState_Inr)
  let ?snap = "SnapshotPath (ps_intent s) (ps_revision s + 1)"
  have sn: "snapshot_writes ?s d = [Put ?snap (PromotionFile ?s)]"
    using new by (simp add: snapshot_writes_def sst)
  obtain vs where "ws = snapshot_writes ?s d @ vs"
    using commit_writes [OF c(1)] by blast
  then have t: "take 1 ws = [Put ?snap (PromotionFile ?s)]"
    by (simp add: sn)
  let ?d = "fmupd ?snap (PromotionFile ?s) d"
  have d: "apply_writes (take 1 ws) d = ?d"
    by (simp only: t) simp
  have log': "audit_log ?sha evs ?d"
    using log audit_log_frame [of "[Put ?snap (PromotionFile ?s)]" ?sha evs d] by simp
  have rec: "RecoverPromotion ?sha ?d = ([], Inr ''clean'')"
    by (rule recover_nothing [OF log']) (simp add: clean)
  have is': "intentAndState ?d = Inr (i, s)"
    using is_ by (simp add: intentAndState_Inr)
  have at': "at_revision e' ?d = (if e' = ps_revision s then Inr (i, s) else Inl (RevisionMismatch e' (ps_revision s)))" for e'
    by (simp add: at_revision_def is')
  have canary: "\<not> is_ok (snd (StartCanary ?sha e' a' r' u' n' ?d))" if "u' \<noteq> u" for e' a' r' u' n'
  proof -
    have "?s \<noteq> s\<lparr>ps_revision := ps_revision s + 1, ps_phase := ''canary'', ps_updated := u'\<rparr>"
      using that by (auto dest: arg_cong [where f = ps_updated])
    then have "commit_and_report ?sha (s\<lparr>ps_revision := ps_revision s + 1, ps_phase := ''canary'', ps_updated := u'\<rparr>) ''canary_started'' a' r' [] n' ?d
        = ([], Inl ImmutableConflict)"
      by (intro commit_blocked(2) [of _ _ "PromotionFile ?s"]) auto
    then show ?thesis
      by (simp add: StartCanary_def transition_def andThen_readp at' ph)
  qed
  have "\<not> is_ok (snd (Evaluate ?sha e' sm a' r' u' n' ?d))" for e' sm a' r' u' n'
  proof
    assume "is_ok (snd (Evaluate ?sha e' sm a' r' u' n' ?d))"
    then obtain vs st' where "Evaluate ?sha e' sm a' r' u' n' ?d = (vs, Inr st')"
      by (cases "Evaluate ?sha e' sm a' r' u' n' ?d") (auto simp: is_ok_iff)
    from Evaluate_parts [OF this] obtain j x ty pl pre cs where p: "at_revision e' ?d = Inr (j, x)"
      and pre: "immutable ImmutableConflict (ReportPath (it_id j) (ss_sha sm)) (ReportFile sm) ?d = (pre, Inr ())"
      and cr': "commit_and_report ?sha (evaluated_state j sm u' x) ty a' r' pl n' (apply_writes pre ?d) = (cs, Inr st')"
      by blast
    have x: "x = s"
      using p by (simp add: at' split: if_splits)
    have e: "ps_intent (evaluated_state j sm u' s) = ps_intent s" "ps_revision (evaluated_state j sm u' s) = ps_revision s + 1"
      "ps_phase (evaluated_state j sm u' s) \<noteq> ''canary''"
      by (simp_all add: evaluated_state_def Let_def)
    have "?s \<noteq> evaluated_state j sm u' s"
      using e(3) by (auto dest!: arg_cong [where f = ps_phase])
    then have "commit_and_report ?sha (evaluated_state j sm u' s) ty a' r' pl n' (apply_writes pre ?d) = ([], Inl ImmutableConflict)"
      using e immutable_lookup [OF pre, of ?snap] by (intro commit_blocked(2) [of _ _ "PromotionFile ?s"]) auto
    then show False
      using cr' x by simp
  qed
  then show ?thesis
    unfolding d using rec canary by blast
qed

section \<open>Interrupted promotions\<close>

lemma promotion_stuck:
  assumes st: "promotion_steady env d" and run: "Promote env art e a r u n d = (ws, Inr st)"
    and ne: "it_current (st_intent st) \<noteq> it_candidate (st_intent st)"
  shows "active_id (apply_writes (take 3 ws) d) = Some (it_candidate (st_intent st))
    \<and> RecoverPromotion (pe_sha env) (apply_writes (take 3 ws) d) = ([], Inr ''clean'')
    \<and> (\<exists>s. intentAndState (apply_writes (take 3 ws) d) = Inr (st_intent st, s) \<and> ps_phase s = ''canary'')
    \<and> (\<forall>art' e' a' r' u' n'. \<not> is_ok (snd (Promote env art' e' a' r' u' n' (apply_writes (take 3 ws) d)))
         \<and> \<not> is_ok (snd (RollbackPromotion env art' e' a' r' u' n' (apply_writes (take 3 ws) d))))"
proof -
  obtain evs where log: "audit_log (pe_sha env) evs d" and clean: "fmlookup d PromotionPendingPath = None" and named: "docs_named d"
    using steady_facts [OF st] .
  obtain i s x m pre cs where at: "at_revision e d = Inr (i, s)" and ph: "ps_phase s = ''canary''"
    and pub: "PromoteExisting env art (it_candidate i) (it_current i) d = (pre, Inr x)" and ws: "ws = pre @ cs"
    and cr: "commit_and_report (pe_sha env)
           (s\<lparr>ps_revision := ps_revision s + 1, ps_phase := ''promoted'', ps_updated := u, ps_blockers := []\<rparr>)
           ''promotion_completed'' a r [(''ready_ack_count'', JInt m)] n (apply_writes pre d) = (cs, Inr st)"
    using Promote_parts [OF run] by blast
  obtain t where pre: "pre = move_writes t (it_current i)"
    using PromoteExisting_Inr [OF pub] by blast
  then have t: "take 3 ws = pre"
    by (simp add: ws move_writes_def)
  let ?d = "apply_writes pre d"
  have own: "path_of ` set pre \<subseteq> Collect active_path"
    by (rule activations.publish_own [OF pub])
  have same: "fmlookup ?d p = fmlookup d p" if "\<not> active_path p" for p
    using that by (rule activations.publish_other_files [OF pub])
  have act: "active_id ?d = Some (it_candidate i)"
    by (rule activations.publish_to [OF named pub])
  have is_: "intentAndState d = Inr (i, s)"
    using at by (simp add: at_revision_Inr)
  then have is': "intentAndState ?d = Inr (i, s)"
    by (simp add: intentAndState_Inr same)
  let ?s = "s\<lparr>ps_revision := ps_revision s + 1, ps_phase := ''promoted'', ps_updated := u, ps_blockers := []\<rparr>"
  have c: "commitState (pe_sha env) ?s ''promotion_completed'' a r [(''ready_ack_count'', JInt m)] n ?d = (cs, Inr ())"
    "Status (apply_writes cs ?d) = Inr st"
    using cr by (simp_all only: commit_and_report_ok)
  obtain ev where ev: "apply_writes cs ?d = committed ?s ev ?d"
    using commit_files [OF c(1)] by blast
  have "Status (committed ?s ev ?d) = Inr st"
    using c(2) by (simp only: ev)
  then have i: "st_intent st = i"
    using is' by (auto simp: Status_def intentAndState_Inr)
  have "audit_log (pe_sha env) evs ?d"
  proof (subst audit_log_cong)
    show "fmlookup ?d p = fmlookup d p" if "audit_path p" for p
      using that by (intro same) (auto elim: audit_path.elims)
  qed (rule log)
  moreover have "fmlookup ?d PromotionPendingPath = None"
    by (simp add: same clean)
  ultimately have rec: "RecoverPromotion (pe_sha env) ?d = ([], Inr ''clean'')"
    by (rule recover_nothing)
  have "\<not> is_ok (snd (Promote env art' e' a' r' u' n' ?d))" for art' e' a' r' u' n'
  proof
    assume "is_ok (snd (Promote env art' e' a' r' u' n' ?d))"
    then obtain vs st' where "Promote env art' e' a' r' u' n' ?d = (vs, Inr st')"
      by (cases "Promote env art' e' a' r' u' n' ?d") (auto simp: is_ok_iff)
    from Promote_parts [OF this] obtain j y z p where "at_revision e' ?d = Inr (j, y)"
      "PromoteExisting env art' (it_candidate j) (it_current j) ?d = (p, Inr z)"
      by blast
    then have "active_id ?d = Some (it_current i)"
      using activations.publish_from is' by (auto simp: at_revision_Inr)
    then show False
      using act ne i by simp
  qed
  moreover have "\<not> is_ok (snd (RollbackPromotion env art' e' a' r' u' n' ?d))" for art' e' a' r' u' n'
    using ph by (auto simp: RollbackPromotion_def andThen_readp at_revision_def is')
  ultimately show ?thesis
    unfolding t using act rec is' ph i by blast
qed

section \<open>Equal responses\<close>

lemma scoreMap_Some: "k \<in> fst ` set vs \<Longrightarrow> \<exists>x. scoreMap vs k = Some x"
  unfolding scoreMap_def by (metis map_of_eq_None_iff not_None_eq set_rev)

lemma compare_same_scores:
  "set ks \<subseteq> fst ` set vs \<Longrightarrow> 0 \<le> so_max_delta ob \<Longrightarrow> compare_scores (scoreMap vs) (scoreMap vs) ks ob = ob"
proof (induction ks)
  case (Cons k ks)
  then obtain x where "scoreMap vs k = Some x"
    using scoreMap_Some [of k vs] by auto
  then show ?case
    using Cons by (simp add: wrap64_def Let_def)
qed simp

lemma compare_item_same: "0 \<le> so_max_delta ob \<Longrightarrow> compare_item (v, v) ob = ob"
  by (simp add: compare_item_def Let_def sameCandidateSet_def compare_same_scores)

lemma compare_same: "0 \<le> so_max_delta ob \<Longrightarrow> fold compare_item (zip vs vs) ob = ob"
  by (induction vs) (simp_all add: compare_item_same)

lemma canary_cut_pending:
  assumes d: "in_demo 2 ''validated'' d" and run: "StartCanary demo_digest 2 ''o'' ''r'' u n d = (ws, Inr st)"
  shows "fmlookup (apply_writes (take 2 ws) d) PromotionPendingPath \<noteq> None"
    "fmlookup d (SnapshotPath (ps_intent (st_state st)) (ps_revision (st_state st))) = None"
proof -
  obtain i s where at: "at_revision 2 d = Inr (i, s)" and cr: "commit_and_report demo_digest
      (s\<lparr>ps_revision := ps_revision s + 1, ps_phase := ''canary'', ps_updated := u\<rparr>) ''canary_started'' ''o'' ''r'' [] n d = (ws, Inr st)"
    using StartCanary_parts [OF run] by blast
  let ?s = "s\<lparr>ps_revision := ps_revision s + 1, ps_phase := ''canary'', ps_updated := u\<rparr>"
  have s: "ps_intent s = ''i1''" "ps_revision s = 2" "intentAndState d = Inr (i, s)"
    using d at by (auto simp: in_demo_def at_revision_Inr)
  have c: "commitState demo_digest ?s ''canary_started'' ''o'' ''r'' [] n d = (ws, Inr ())" "Status (apply_writes ws d) = Inr st"
    using cr by (simp_all only: commit_and_report_ok)
  obtain ev where "apply_writes ws d = committed ?s ev d"
    using commit_files [OF c(1)] by blast
  then have "Status (committed ?s ev d) = Inr st"
    using c(2) by (simp only:)
  then have st: "st_state st = ?s"
    using s(3) by (auto simp: Status_def intentAndState_Inr)
  have free: "fmlookup d (SnapshotPath ''i1'' 3) = None"
    by (rule free_snapshot [OF d]) simp
  then show "fmlookup d (SnapshotPath (ps_intent (st_state st)) (ps_revision (st_state st))) = None"
    by (simp add: st s)
  obtain e vs where "ws = snapshot_writes ?s d @ [Put PromotionPendingPath (pending_file ?s e)] @ vs"
    using commit_writes [OF c(1)] by blast
  then have "take 2 ws = [Put (SnapshotPath ''i1'' 3) (PromotionFile ?s), Put PromotionPendingPath (pending_file ?s e)]"
    using free s by (simp add: snapshot_writes_def)
  then show "fmlookup (apply_writes (take 2 ws) d) PromotionPendingPath \<noteq> None"
    by simp
qed

section \<open>The properties\<close>

text \<open>C6. The candidate serves only after a passing evaluation. In every directory that operations of both managers,
  cut off anywhere, and recoveries can produce: if a correlation identifier is routed to the candidate, the
  shadow report that the state names is stored and is within the thresholds of the intent, and either the promotion is
  complete and enough instances have acknowledged the candidate, or the canary runs and the identifier is on
  the allow list or falls into the canary share.\<close>

theorem candidate_traffic_needs_passing_report:
  assumes "promotion_reach env d" and "Route sha cid d = Inr (''candidate'', st)"
  shows "(\<exists>r. fmlookup d (ReportPath (ps_intent (st_state st)) (ps_report (st_state st))) = Some (ReportFile r)
        \<and> evaluateSummary (it_thresholds (st_intent st)) r = [])
    \<and> (ps_phase (st_state st) = ''promoted'' \<and> it_acks (st_intent st) \<le> st_ready st
       \<or> ps_phase (st_state st) = ''canary''
         \<and> (cid \<in> set (it_allowlist (st_intent st)) \<or> canary_bucket sha cid < it_bps (st_intent st)))"
proof -
  obtain i s where is_: "intentAndState d = Inr (i, s)" and ready: "readyAckCount (it_id i) (it_candidate i) d = Inr (st_ready st)"
    and st: "st_intent st = i" "st_state st = s"
    and ph: "ps_phase s = ''promoted'' \<or> ps_phase s = ''canary'' \<and> (cid \<in> set (it_allowlist i) \<or> canary_bucket sha cid < it_bps i)"
    using assms(2) unfolding Route_def Status_def Let_def by (auto split: if_splits)
  have "founded d s"
    using promotion_reach_ok [OF assms(1)] is_ by (intro ok_state) (simp_all add: intentAndState_Inr)
  then have "passing_report d i s" "ps_phase s = ''promoted'' \<Longrightarrow> it_acks i \<le> ready_acks d (it_id i) (it_candidate i)"
    using is_ ph by (auto simp: founded_def intentAndState_Inr past_validation_def past_promotion_def)
  then show ?thesis
    using ph readyAckCount_Inr [OF ready] unfolding st passing_report_def by auto
qed

theorem candidate_traffic_needs_passing_report_witness:
  "\<exists>d st r. promotion_reach act_env d \<and> Route demo_digest ''c1'' d = Inr (''candidate'', st) \<and> ps_phase (st_state st) = ''canary''
    \<and> fmlookup d (ReportPath (ps_intent (st_state st)) (ps_report (st_state st))) = Some (ReportFile r)
    \<and> evaluateSummary (it_thresholds (st_intent st)) r = []"
proof -
  obtain d where "in_demo 2 ''validated'' d" "staged d"
    using promo_evaluated by blast
  from demo_canary [OF this, of "''u''" "''n''"] obtain d where d: "in_demo 3 ''canary'' d"
    by blast
  obtain i s evs where is_: "at_revision 3 d = Inr (i, s)" "demo_intent i" "ps_phase s = ''canary''" "audit_log demo_digest evs d"
    using in_demo_at [OF d] by blast
  then have "intentAndState d = Inr (i, s)"
    by (simp add: at_revision_Inr)
  then obtain st where st: "Status d = Inr st" "st_intent st = i" "st_state st = s"
    using status_total in_demoD(3) [OF d] is_(4) by blast
  have "''c1'' \<in> set (it_allowlist i)"
    by (simp add: intent_simps [OF is_(2)] normalizedAllowlist_def demo_trim)
  then have r: "Route demo_digest ''c1'' d = Inr (''candidate'', st)"
    by (simp add: Route_def st is_(3))
  from candidate_traffic_needs_passing_report [OF in_demoD(1) [OF d] r] show ?thesis
    using in_demoD(1) [OF d] r st(3) is_(3) by blast
qed

text \<open>C7. A transaction is atomic after recovery. Run a successful operation that changes the state - prepare,
  evaluate, start the canary, promote, roll back - and cut it off after any number of its writes. Either no
  pending document is left, and the state is the old one or everything was written; or recovery
  reports \<^verbatim>\<open>completed\<close> and leaves exactly the files, and the status, of the uninterrupted operation.\<close>

theorem promotion_transaction_atomic:
  assumes "transaction env op = Some p" and "p d = (ws, Inr st)" and "fmlookup d PromotionPendingPath = None"
    and "d' = apply_writes (take k ws) d"
  shows "fmlookup d' PromotionPendingPath = None \<and> (fmlookup d' PromotionPath = fmlookup d PromotionPath \<or> d' = apply_writes ws d)
    \<or> (\<exists>us. RecoverPromotion (pe_sha env) d' = (us, Inr ''completed'') \<and> apply_writes us d' = apply_writes ws d
         \<and> Status (apply_writes us d') = Inr st)"
  using commits_atomic [OF transaction_commits [OF assms(1,2)] assms(3,4)] transaction_commits [OF assms(1,2)]
  by (auto simp: commits_def)

theorem promotion_transaction_atomic_witness:
  "\<exists>d ws st us. StartCanary demo_digest 2 ''o'' ''r'' ''u'' ''n'' d = (ws, Inr st) \<and> apply_writes (take 2 ws) d \<noteq> apply_writes ws d
    \<and> RecoverPromotion demo_digest (apply_writes (take 2 ws) d) = (us, Inr ''completed'')
    \<and> apply_writes us (apply_writes (take 2 ws) d) = apply_writes ws d"
proof -
  obtain d where d: "in_demo 2 ''validated'' d" "staged d"
    using promo_evaluated by blast
  obtain ws st where run: "StartCanary demo_digest 2 ''o'' ''r'' ''u'' ''n'' d = (ws, Inr st)" and fin: "in_demo 3 ''canary'' (apply_writes ws d)"
    using demo_canary [OF d, of "''u''" "''n''"] by blast
  have op: "transaction act_env (PoStartCanary 2 ''o'' ''r'' ''u'' ''n'') = Some (StartCanary demo_digest 2 ''o'' ''r'' ''u'' ''n'')"
    by simp
  have cut: "fmlookup (apply_writes (take 2 ws) d) PromotionPendingPath \<noteq> None"
    by (rule canary_cut_pending(1) [OF d(1) run])
  then have "apply_writes (take 2 ws) d \<noteq> apply_writes ws d"
    using in_demoD(4) [OF fin] by metis
  then show ?thesis
    using promotion_transaction_atomic [OF op run in_demoD(4) [OF d(1)] refl, of 2] cut run by auto
qed

text \<open>C19. The audit log always verifies. In every directory reached by successful operations, in any order, with
  transactions that were interrupted after their pending document recovered first, the log is an unbroken hash chain
  from the first event to the head, and verification accepts it.\<close>

theorem promotion_audit_verifies:
  assumes "promotion_steady env d"
  shows "VerifyAudit (pe_sha env) d = Inr () \<and> (\<exists>evs. audit_log (pe_sha env) evs d)"
proof -
  obtain evs where "audit_log (pe_sha env) evs d"
    using steady_facts [OF assms] .
  then show ?thesis
    using audit_log_verifies by blast
qed

theorem promotion_audit_verifies_witness:
  "\<exists>d h. promotion_steady act_env d \<and> fmlookup d AuditHeadPath = Some (AuditHeadFile h) \<and> VerifyAudit demo_digest d = Inr ()"
proof -
  obtain d where d: "in_demo 1 ''prepared'' d"
    using demo_prepared by blast
  obtain i s where "intentAndState d = Inr (i, s)"
    using d by (auto simp: in_demo_def)
  obtain h where "fmlookup d AuditHeadPath = Some (AuditHeadFile h)"
    using demo_head [OF d] by blast
  then show ?thesis
    using promotion_audit_verifies [OF in_demoD(2) [OF d]] in_demoD(2) [OF d] by auto
qed

text \<open>C17. The active document follows the phase. In every directory that operations which ran to their end and transactions
  recovered after a crash make of a directory that holds no promotion yet, with no activation outside the promotion in between, the candidate is the
  active document exactly in the phase \<^verbatim>\<open>promoted\<close>; in every other phase, also after a rollback, the document that
  was active when the promotion was prepared is active. (After a crash between moving the active document and opening the
  transaction this fails, as the property on interrupted promotions shows.)\<close>

theorem active_follows_phase:
  assumes "promotion_steady env d" and "Status d = Inr st"
  shows "active_id d = Some (if ps_phase (st_state st) = ''promoted'' then it_candidate (st_intent st) else it_current (st_intent st))"
proof -
  have "intentAndState d = Inr (st_intent st, st_state st)"
    using assms(2) by (auto simp: Status_def)
  then show ?thesis
    using in_phaseD steady_facts [OF assms(1)] by metis
qed

theorem active_follows_phase_witness:
  "\<exists>d st. promotion_steady act_env d \<and> Status d = Inr st \<and> ps_phase (st_state st) = ''promoted'' \<and> active_id d = Some ''a2''"
proof -
  obtain d ws st where d: "promotion_steady act_env d" and run: "Promote act_env act_disk 3 ''o'' ''r'' ''u'' ''n'' d = (ws, Inr st)"
    and st: "ps_phase (st_state st) = ''promoted''" "it_candidate (st_intent st) = ''a2''"
    using demo_promotion by blast
  have op: "transaction act_env (PoPromote act_disk 3 ''o'' ''r'' ''u'' ''n'') = Some (Promote act_env act_disk 3 ''o'' ''r'' ''u'' ''n'')"
    by simp
  have steady: "promotion_steady act_env (apply_writes ws d)"
    by (rule promotion_steady.transacted [OF d op run])
  moreover have s: "Status (apply_writes ws d) = Inr st"
    using transaction_commits [OF op run] by (auto simp: commits_def)
  ultimately show ?thesis
    using active_follows_phase [OF steady s] st by auto
qed

text \<open>C33. An interruption right after the snapshot wedges the promotion. If starting the canary is cut off after its first write,
  the immutable snapshot of the next revision, recovery sees nothing to do. But from then on
  no evaluation succeeds, and no start of the canary with another time of update.\<close>

theorem snapshot_wedge:
  assumes "promotion_steady env d" and "StartCanary (pe_sha env) e a r u n d = (ws, Inr st)"
    and "fmlookup d (SnapshotPath (ps_intent (st_state st)) (ps_revision (st_state st))) = None"
  shows "RecoverPromotion (pe_sha env) (apply_writes (take 1 ws) d) = ([], Inr ''clean'')
    \<and> (\<forall>e' a' r' u' n'. u' \<noteq> u \<longrightarrow> \<not> is_ok (snd (StartCanary (pe_sha env) e' a' r' u' n' (apply_writes (take 1 ws) d))))
    \<and> (\<forall>e' sm a' r' u' n'. \<not> is_ok (snd (Evaluate (pe_sha env) e' sm a' r' u' n' (apply_writes (take 1 ws) d))))"
  using canary_wedge [OF assms] .

theorem snapshot_wedge_witness:
  "\<exists>d ws st. StartCanary demo_digest 2 ''o'' ''r'' ''u'' ''n'' d = (ws, Inr st)
    \<and> RecoverPromotion demo_digest (apply_writes (take 1 ws) d) = ([], Inr ''clean'')
    \<and> \<not> is_ok (snd (StartCanary demo_digest 2 ''o'' ''r'' ''later'' ''n'' (apply_writes (take 1 ws) d)))"
proof -
  obtain d where d: "in_demo 2 ''validated'' d" "staged d"
    using promo_evaluated by blast
  obtain ws st where run: "StartCanary demo_digest 2 ''o'' ''r'' ''u'' ''n'' d = (ws, Inr st)"
    using demo_canary [OF d, of "''u''" "''n''"] by blast
  then have "StartCanary (pe_sha act_env) 2 ''o'' ''r'' ''u'' ''n'' d = (ws, Inr st)"
    by simp
  from snapshot_wedge [OF in_demoD(2) [OF d(1)] this canary_cut_pending(2) [OF d(1) run]]
  have w: "RecoverPromotion demo_digest (apply_writes (take 1 ws) d) = ([], Inr ''clean'')"
    "\<not> is_ok (snd (StartCanary demo_digest 2 ''o'' ''r'' ''later'' ''n'' (apply_writes (take 1 ws) d)))"
    unfolding act_env_simps by (blast, simp)
  show ?thesis
    using run w by blast
qed

text \<open>C32. An interrupted promotion cannot be finished. If a promotion is cut off after the active document has moved and before the
  commit of the state, the candidate is active while the phase is still \<^verbatim>\<open>canary\<close>. Recovery sees nothing to do, every
  further promotion fails since the current document is no longer active, and every rollback
  fails since the phase is not \<^verbatim>\<open>promoted\<close>.\<close>

theorem interrupted_promotion_is_stuck:
  assumes "promotion_steady env d" and "Promote env art e a r u n d = (ws, Inr st)"
    and "it_current (st_intent st) \<noteq> it_candidate (st_intent st)"
  shows "active_id (apply_writes (take 3 ws) d) = Some (it_candidate (st_intent st))
    \<and> RecoverPromotion (pe_sha env) (apply_writes (take 3 ws) d) = ([], Inr ''clean'')
    \<and> (\<exists>s. intentAndState (apply_writes (take 3 ws) d) = Inr (st_intent st, s) \<and> ps_phase s = ''canary'')
    \<and> (\<forall>art' e' a' r' u' n'. \<not> is_ok (snd (Promote env art' e' a' r' u' n' (apply_writes (take 3 ws) d)))
         \<and> \<not> is_ok (snd (RollbackPromotion env art' e' a' r' u' n' (apply_writes (take 3 ws) d))))"
  using promotion_stuck [OF assms] .

theorem interrupted_promotion_is_stuck_witness:
  "\<exists>d ws st. Promote act_env act_disk 3 ''o'' ''r'' ''u'' ''n'' d = (ws, Inr st)
    \<and> active_id (apply_writes (take 3 ws) d) = Some ''a2''
    \<and> RecoverPromotion demo_digest (apply_writes (take 3 ws) d) = ([], Inr ''clean'')
    \<and> \<not> is_ok (snd (Promote act_env act_disk 3 ''o'' ''r'' ''u'' ''n'' (apply_writes (take 3 ws) d)))"
proof -
  obtain d ws st where d: "promotion_steady act_env d" and run: "Promote act_env act_disk 3 ''o'' ''r'' ''u'' ''n'' d = (ws, Inr st)"
    and st: "it_candidate (st_intent st) = ''a2''" "it_current (st_intent st) \<noteq> it_candidate (st_intent st)"
    using demo_promotion by blast
  from interrupted_promotion_is_stuck [OF d run st(2)] show ?thesis
    unfolding act_env_simps st(1) using run by blast
qed

text \<open>What was staged can be published. After a successful staging the active document is unchanged, and publishing the
  staged document from it succeeds: the staged document becomes active and loads as
  it was staged.\<close>

theorem stage_then_publish:
  assumes "IsAbs (ae_cwd env)" and "Stage env art q expected d = (ws, Inr s)"
  shows "\<exists>c us. active_id d = Some c \<and> PromoteExisting env art (aq_id q) c (apply_writes ws d) = (us, Inr s)
    \<and> active_id (apply_writes us (apply_writes ws d)) = Some (aq_id q)
    \<and> LoadActive env art (apply_writes us (apply_writes ws d)) = Inr s"
  using stage_promote [OF assms] .

theorem stage_then_publish_witness:
  "\<exists>ws s c us. Stage act_env act_disk (act_request ''a2'') [] (act_files ''a1'') = (ws, Inr s)
    \<and> PromoteExisting act_env act_disk ''a2'' c (apply_writes ws (act_files ''a1'')) = (us, Inr s)
    \<and> active_id (apply_writes us (apply_writes ws (act_files ''a1''))) = Some ''a2''"
proof -
  obtain ws s where st: "Stage act_env act_disk (act_request ''a2'') [] (act_files ''a1'') = (ws, Inr s)"
    using demo_stage by metis
  from stage_then_publish [OF demo_env_abs(1) st] show ?thesis
    using st by auto
qed

text \<open>Equal responses show no change. A shadow observation of one response against itself counts its items and
  no change of any kind, whatever the response holds, and it is accepted for recording.\<close>

theorem equal_responses_show_no_change:
  assumes "extractScreeningResults decode raw = Inr rs" and "sha (marshalCanonical (observation_json ob0)) \<noteq> []" and "iid \<noteq> []"
    and "ob0 = \<lparr>so_schema = ''openwatchlist.activation-shadow-observation.v1'', so_intent = iid, so_correlation = cid,
      so_observed = now, so_current_sha = sha raw, so_candidate_sha = sha raw, so_items = int (length rs), so_set_changes = 0,
      so_top_changes = 0, so_max_delta = 0, so_coverage_loss = 0, so_blockers = 0, so_sha = []\<rparr>"
  shows "\<exists>ob. CompareResponses sha decode iid cid raw raw now = Inr ob \<and> ob\<lparr>so_sha := []\<rparr> = ob0 \<and> verifyObservation sha ob = Inr ()"
proof -
  have "CompareResponses sha decode iid cid raw raw now = Inr (ob0\<lparr>so_sha := sha (marshalCanonical (observation_json ob0))\<rparr>)"
    using compare_same [of ob0 rs] by (simp add: CompareResponses_def assms(1,4))
  moreover have "(ob0\<lparr>so_sha := sha (marshalCanonical (observation_json ob0))\<rparr>)\<lparr>so_sha := []\<rparr> = ob0"
    by (simp add: assms(4))
  ultimately show ?thesis
    using assms(2,3) by (intro exI [of _ "ob0\<lparr>so_sha := sha (marshalCanonical (observation_json ob0))\<rparr>"]) (simp add: verifyObservation_def assms(4))
qed

theorem equal_responses_show_no_change_witness:
  "\<exists>ob. CompareResponses demo_digest (\<lambda>_. Some (JObj [(''candidates'', JArr [JObj [(''candidate_id'', JStr ''x''), (''score'', JInt 7)]])]))
      ''i1'' ''c1'' ''raw'' ''raw'' ''n'' = Inr ob \<and> so_items ob = 1 \<and> so_set_changes ob = 0 \<and> verifyObservation demo_digest ob = Inr ()"
proof -
  have e: "extractScreeningResults (\<lambda>_. Some (JObj [(''candidates'', JArr [JObj [(''candidate_id'', JStr ''x''), (''score'', JInt 7)]])])) ''raw''
      = Inr [\<lparr>sc_candidates = [(''x'', 7)], sc_blockers = 0\<rparr>]"
    by (simp add: extractScreeningResults_def extractOne_def get_string_def get_int_def demo_trim)
  from equal_responses_show_no_change [where sha = demo_digest and iid = "''i1''" and cid = "''c1''" and now = "''n''", OF e demo_nonempty _ refl]
  obtain ob where ob: "CompareResponses demo_digest (\<lambda>_. Some (JObj [(''candidates'', JArr [JObj [(''candidate_id'', JStr ''x''), (''score'', JInt 7)]])]))
      ''i1'' ''c1'' ''raw'' ''raw'' ''n'' = Inr ob" "verifyObservation demo_digest ob = Inr ()"
    and eq: "ob\<lparr>so_sha := []\<rparr> = \<lparr>so_schema = ''openwatchlist.activation-shadow-observation.v1'', so_intent = ''i1'', so_correlation = ''c1'',
      so_observed = ''n'', so_current_sha = demo_digest ''raw'', so_candidate_sha = demo_digest ''raw'', so_items = 1, so_set_changes = 0,
      so_top_changes = 0, so_max_delta = 0, so_coverage_loss = 0, so_blockers = 0, so_sha = []\<rparr>"
    by auto
  have "so_items ob = 1" "so_set_changes ob = 0"
    using arg_cong [OF eq, of so_items] arg_cong [OF eq, of so_set_changes] by simp_all
  then show ?thesis
    using ob by auto
qed

end
