(* ===== verification/LedgerData.thy ===== *)
theory LedgerData imports AlertData Files begin

text \<open>
  The screening ledger (\<^verbatim>\<open>internal/screeningledger\<close>): its documents (\<^verbatim>\<open>types.go\<close>), the keys derived from the root
  secret (\<^verbatim>\<open>chainkey.go\<close>), digests, encryption of snapshots (\<^verbatim>\<open>crypto.go\<close>), the files of the directory and the
  canonical reader (\<^verbatim>\<open>canonicalread.go\<close>), and redaction (\<^verbatim>\<open>redact.go\<close>). The event is the record
  \<^typ>\<open>ledger_event\<close> of the alert component.

  A chain file is either the canonical serialisation of a document, which is then identified with the
  document, or other bytes. Identifiers are taken to contain no path separator.
\<close>

section \<open>Cryptography, time and decoding\<close>

text \<open>
  Parameters: SHA-256 and HMAC-SHA256 in hexadecimal, HKDF (secret, salt, purpose), AES-GCM (key, nonce,
  text, additional data), base64, the decoder for one JSON value (numbers kept as read) and
  the rounding of its numbers when it is read without \<^verbatim>\<open>UseNumber\<close>, RFC 3339 parsing and printing of
  instants in nanoseconds, the Unicode tables, and the lenient reading of a snapshot.
\<close>

record snapshot_envelope =
  ls_schema :: string
  ls_sha :: string
  ls_plain_sha :: string
  ls_kind :: string
  ls_cipher :: string
  ls_nonce :: string
  ls_ciphertext :: string
  ls_aad :: string
  ls_bytes :: int
  ls_created :: string
  ls_expires :: string
  ls_class :: string
  ls_purged :: string
  ls_reason :: string

record ledger_env =
  lx_sha :: "string \<Rightarrow> string"
  lx_mac :: "string \<Rightarrow> string \<Rightarrow> string"
  lx_hkdf :: "string \<Rightarrow> string \<Rightarrow> string \<Rightarrow> string"
  lx_seal :: "string \<Rightarrow> string \<Rightarrow> string \<Rightarrow> string \<Rightarrow> string"
  lx_open :: "string \<Rightarrow> string \<Rightarrow> string \<Rightarrow> string \<Rightarrow> string option"
  lx_b64 :: "string \<Rightarrow> string"
  lx_unb64 :: "string \<Rightarrow> string option"
  lx_json :: "string \<Rightarrow> json option"
  lx_floats :: "json \<Rightarrow> json"
  lx_time :: "string \<Rightarrow> int option"
  lx_format :: "int \<Rightarrow> string"
  lx_unicode :: unicode
  lx_lenient :: "string \<Rightarrow> snapshot_envelope option"

text \<open>The documented behaviour the properties rely on.\<close>

definition ledger_env_ok :: "ledger_env \<Rightarrow> bool" where
  "ledger_env_ok env \<longleftrightarrow>
     (\<forall>r s i. length (lx_hkdf env r s i) = 32)
     \<and> (\<forall>k n p a. lx_open env k n (lx_seal env k n p a) a = Some p)
     \<and> (\<forall>k n p a. lx_seal env k n p a \<noteq> [])
     \<and> (\<forall>x. lx_unb64 env (lx_b64 env x) = Some x)
     \<and> (\<forall>x. x \<noteq> [] \<longrightarrow> lx_b64 env x \<noteq> [])
     \<and> (\<forall>t. lx_time env (lx_format env t) = Some t)"

section \<open>Documents\<close>

definition EventSchemaV1 :: string where "EventSchemaV1 = ''openwatchlist.screening-ledger-event.v1''"
definition EventSchemaV2 :: string where "EventSchemaV2 = ''openwatchlist.screening-ledger-event.v2''"
definition HeadSchemaV1 :: string where "HeadSchemaV1 = ''openwatchlist.screening-ledger-head.v1''"
definition HeadSchemaV2 :: string where "HeadSchemaV2 = ''openwatchlist.screening-ledger-head.v2''"
definition AuditSchemaV1 :: string where "AuditSchemaV1 = ''openwatchlist.screening-ledger-audit.v1''"
definition AuditSchemaV2 :: string where "AuditSchemaV2 = ''openwatchlist.screening-ledger-audit.v2''"

lemmas schema_names = EventSchemaV1_def EventSchemaV2_def HeadSchemaV1_def HeadSchemaV2_def AuditSchemaV1_def AuditSchemaV2_def

record retention_policy =
  lr_class :: string
  lr_days :: int
  lr_redact :: "string list"
  lr_hash :: "string list"
  lr_max_bytes :: int

record append_input =
  ai_route :: string
  ai_status :: int
  ai_correlation :: string
  ai_idempotency :: string
  ai_request :: string
  ai_response :: string
  ai_occurred :: string
  ai_retention :: retention_policy

record ledger_head =
  lh_schema :: string
  lh_ledger :: string
  lh_sequence :: "64 word"
  lh_event :: string
  lh_sha :: string

record ledger_audit =
  la_schema :: string
  la_ledger :: string
  la_sequence :: "64 word"
  la_previous :: string
  la_sha :: string
  la_occurred :: string
  la_action :: string
  la_operator :: string
  la_reason :: string
  la_event :: string
  la_details :: "json option"

definition ledger_audit_json :: "ledger_audit \<Rightarrow> json" where
  "ledger_audit_json e = JObj (fld ''schema_version'' (JStr (la_schema e)) @ fld ''ledger_id'' (JStr (la_ledger e))
     @ fld ''sequence'' (ju64 (la_sequence e)) @ fld ''previous_audit_sha256'' (JStr (la_previous e))
     @ fld ''audit_sha256'' (JStr (la_sha e)) @ fld ''occurred_at'' (JStr (la_occurred e))
     @ fld ''action'' (JStr (la_action e)) @ opt ''operator'' (la_operator e = []) (JStr (la_operator e))
     @ opt ''reason'' (la_reason e = []) (JStr (la_reason e)) @ opt ''event_id'' (la_event e = []) (JStr (la_event e))
     @ raw_member ''details'' (la_details e))"

definition snapshot_json :: "snapshot_envelope \<Rightarrow> json" where
  "snapshot_json e = JObj (fld ''schema_version'' (JStr (ls_schema e)) @ fld ''snapshot_sha256'' (JStr (ls_sha e))
     @ fld ''plaintext_sha256'' (JStr (ls_plain_sha e)) @ fld ''kind'' (JStr (ls_kind e)) @ fld ''cipher'' (JStr (ls_cipher e))
     @ fld ''nonce_base64'' (JStr (ls_nonce e)) @ opt ''ciphertext_base64'' (ls_ciphertext e = []) (JStr (ls_ciphertext e))
     @ fld ''aad'' (JStr (ls_aad e)) @ fld ''plaintext_bytes'' (JInt (ls_bytes e)) @ fld ''created_at'' (JStr (ls_created e))
     @ fld ''expires_at'' (JStr (ls_expires e)) @ fld ''retention_class'' (JStr (ls_class e))
     @ opt ''purged_at'' (ls_purged e = []) (JStr (ls_purged e)) @ opt ''purge_reason'' (ls_reason e = []) (JStr (ls_reason e)))"

definition ledger_head_json :: "ledger_head \<Rightarrow> json" where
  "ledger_head_json h = JObj (fld ''schema_version'' (JStr (lh_schema h)) @ fld ''ledger_id'' (JStr (lh_ledger h))
     @ fld ''sequence'' (ju64 (lh_sequence h)) @ fld ''event_id'' (JStr (lh_event h)) @ fld ''event_sha256'' (JStr (lh_sha h)))"

section \<open>Errors\<close>

datatype chain = Events | Audits

datatype ledger_error =
    NotExist | NotCanonical | NegativeRetention int | RetentionTooLong int | NegativeSnapshotLimit int
  | BadJson | SnapshotTooLarge | BadOccurredAt string | BadKey | ExistingEventInvalid
  | SnapshotCollision | PendingInvalid | LedgerIdMismatch | SnapshotPurged | BadNonce | BadCiphertext
  | DecryptionFailed | PlaintextChecksum | SnapshotName | PurgeUnavailable string
  | ModeNotAllowed | PolicyLedger string string | GenesisZero chain | MinSchema chain string
  | Sentinel chain | SequenceGap nat | ChainMismatch chain
  | MustBeV1 chain "64 word" | BelowMinimum chain "64 word" | NoDigest chain "64 word" | BadDigest chain
  | WrongPin chain "64 word" | PinMissing chain | HeadMismatch chain | PurgeClaimsNeedAnchor nat
  | NoEntryAt chain "64 word" | WrongEvent string string | NoDirectory

section \<open>Keys and digests\<close>

record chain_keys =
  ck_snap :: string
  ck_redact :: string
  ck_chain :: string

definition deriveChainKeys :: "ledger_env \<Rightarrow> string \<Rightarrow> string \<Rightarrow> chain_keys" where
  "deriveChainKeys env root ledgerID =
     \<lparr>ck_snap = lx_hkdf env root ledgerID ''openwatchlist/screening-ledger/snapshot-aead/v2'',
      ck_redact = lx_hkdf env root ledgerID ''openwatchlist/screening-ledger/redaction-pseudonym/v2'',
      ck_chain = lx_hkdf env root ledgerID ''openwatchlist/screening-ledger/chain-mac/v2''\<rparr>"

definition legacyHashEvent :: "ledger_env \<Rightarrow> ledger_event \<Rightarrow> string" where
  "legacyHashEvent env e = lx_sha env (marshal (ledger_event_json (e\<lparr>le_sha := []\<rparr>)))"

definition hashEvent :: "ledger_env \<Rightarrow> string \<Rightarrow> ledger_event \<Rightarrow> string" where
  "hashEvent env key e = lx_mac env key (marshal (ledger_event_json (e\<lparr>le_sha := []\<rparr>)))"

definition legacyHashAudit :: "ledger_env \<Rightarrow> ledger_audit \<Rightarrow> string" where
  "legacyHashAudit env e = lx_sha env (marshal (ledger_audit_json (e\<lparr>la_sha := []\<rparr>)))"

definition hashAudit :: "ledger_env \<Rightarrow> string \<Rightarrow> ledger_audit \<Rightarrow> string" where
  "hashAudit env key e = lx_mac env key (marshal (ledger_audit_json (e\<lparr>la_sha := []\<rparr>)))"

text \<open>The first JSON value of the bytes, with the members of every object sorted.\<close>

definition canonicalJSON :: "ledger_env \<Rightarrow> string \<Rightarrow> string option" where
  "canonicalJSON env raw = map_option (\<lambda>v. marshal (canonical_json v)) (lx_json env raw)"

text \<open>
  \<^verbatim>\<open>AddDate(0, 0, days)\<close> in UTC adds days of 24 hours; the result is cut to microseconds.
\<close>

definition mustExpires :: "ledger_env \<Rightarrow> string \<Rightarrow> int \<Rightarrow> (ledger_error, string) result" where
  "mustExpires env occurred days =
     (case lx_time env occurred of
        None \<Rightarrow> Inl (BadOccurredAt occurred)
      | Some t \<Rightarrow> let u = t + days * 86400 * 10 ^ 9 in Inr (lx_format env (u - u mod 1000)))"

section \<open>Snapshots\<close>

definition encryptSnapshot ::
  "ledger_env \<Rightarrow> string \<Rightarrow> string \<Rightarrow> string \<Rightarrow> string \<Rightarrow> string \<Rightarrow> string \<Rightarrow> string \<Rightarrow> (ledger_error, snapshot_envelope) result" where
  "encryptSnapshot env key nonce kind plaintext createdAt expiresAt retentionClass =
     (if length key \<noteq> 32 then Inl BadKey
      else
        let snapSHA = lx_sha env (kind @ [CHR 0x0A] @ plaintext);
            aad = kind @ '':'' @ snapSHA
        in Inr \<lparr>ls_schema = ''openwatchlist.screening-ledger-snapshot.v1'', ls_sha = snapSHA,
                ls_plain_sha = lx_sha env plaintext, ls_kind = kind, ls_cipher = ''AES-256-GCM'',
                ls_nonce = lx_b64 env nonce, ls_ciphertext = lx_b64 env (lx_seal env key nonce plaintext aad),
                ls_aad = aad, ls_bytes = int (length plaintext), ls_created = createdAt, ls_expires = expiresAt,
                ls_class = retentionClass, ls_purged = [], ls_reason = []\<rparr>)"

text \<open>A nonce of the wrong length makes the cipher panic; here it is an error.\<close>

definition decryptSnapshot :: "ledger_env \<Rightarrow> string \<Rightarrow> snapshot_envelope \<Rightarrow> (ledger_error, string) result" where
  "decryptSnapshot env key e =
     (if ls_purged e \<noteq> [] \<or> ls_ciphertext e = [] then Inl SnapshotPurged
      else if length key \<notin> {16, 24, 32} then Inl BadKey
      else case lx_unb64 env (ls_nonce e) of
          None \<Rightarrow> Inl BadNonce
        | Some nonce \<Rightarrow>
            (case lx_unb64 env (ls_ciphertext e) of
               None \<Rightarrow> Inl BadCiphertext
             | Some ct \<Rightarrow>
                 if length nonce \<noteq> 12 then Inl BadNonce
                 else (case lx_open env key nonce ct (ls_aad e) of
                         None \<Rightarrow> Inl DecryptionFailed
                       | Some plain \<Rightarrow> if lx_sha env plain \<noteq> ls_plain_sha e then Inl PlaintextChecksum else Inr plain)))"

section \<open>Files\<close>

text \<open>Every path is a directory and the full name of a file in it.\<close>

datatype ledger_path =
    LedgerIdFile | LedgerHeadFile | LedgerAuditHeadFile | LedgerPendingFile
  | LedgerEventFile string | LedgerSnapshotFile string | LedgerAuditFile string
  | LedgerHoldFile string | LedgerReplicationFile string

datatype ledger_file =
    LEvent ledger_event | LSnapshot snapshot_envelope | LHead ledger_head | LAudit ledger_audit | LBytes string

type_synonym ledger_files = "(ledger_path, ledger_file) files"
type_synonym 'a ledger_prog = "(ledger_path, ledger_file, ledger_error, 'a) prog"

fun as_ledger_event :: "ledger_file \<Rightarrow> ledger_event option" where
  "as_ledger_event (LEvent e) = Some e" | "as_ledger_event _ = None"

fun as_snapshot :: "ledger_file \<Rightarrow> snapshot_envelope option" where
  "as_snapshot (LSnapshot e) = Some e" | "as_snapshot _ = None"

fun as_ledger_head :: "ledger_file \<Rightarrow> ledger_head option" where
  "as_ledger_head (LHead h) = Some h" | "as_ledger_head _ = None"

fun as_ledger_audit :: "ledger_file \<Rightarrow> ledger_audit option" where
  "as_ledger_audit (LAudit e) = Some e" | "as_ledger_audit _ = None"

text \<open>The bytes of a file.\<close>

fun file_bytes :: "ledger_file \<Rightarrow> string" where
  "file_bytes (LEvent e) = marshal (ledger_event_json e)"
| "file_bytes (LSnapshot e) = marshal (snapshot_json e)"
| "file_bytes (LHead h) = marshal (ledger_head_json h)"
| "file_bytes (LAudit e) = marshal (ledger_audit_json e)"
| "file_bytes (LBytes b) = b"

definition readCanonicalChainFile ::
  "(ledger_file \<Rightarrow> 'a option) \<Rightarrow> ledger_path \<Rightarrow> ledger_files \<Rightarrow> (ledger_error, 'a) result" where
  "readCanonicalChainFile sel p d =
     (case fmlookup d p of
        None \<Rightarrow> Inl NotExist
      | Some c \<Rightarrow> (case sel c of None \<Rightarrow> Inl NotCanonical | Some x \<Rightarrow> Inr x))"

lemma chain_read_ok: "readCanonicalChainFile sel p d = Inr x \<longleftrightarrow> (\<exists>c. fmlookup d p = Some c \<and> sel c = Some x)"
  by (auto simp: readCanonicalChainFile_def split: option.splits)

lemma read_missing: "readCanonicalChainFile sel p d = Inl NotExist \<longleftrightarrow> fmlookup d p = None"
  by (auto simp: readCanonicalChainFile_def split: option.splits)

lemma read_cong: "fmlookup d p = fmlookup d' p \<Longrightarrow> readCanonicalChainFile sel p d = readCanonicalChainFile sel p d'"
  by (simp add: readCanonicalChainFile_def)

definition event_path :: "string \<Rightarrow> ledger_path" where
  "event_path i = LedgerEventFile (i @ ''.json'')"

definition snapshot_path :: "string \<Rightarrow> ledger_path" where
  "snapshot_path sha = LedgerSnapshotFile (sha @ ''.json'')"

definition replication_path :: "string \<Rightarrow> ledger_path" where
  "replication_path i = LedgerReplicationFile (i @ ''.json'')"

text \<open>The names ending in \<^verbatim>\<open>.json\<close> of one directory, in the order of \<^verbatim>\<open>os.ReadDir\<close>.\<close>

definition HasSuffix :: "string \<Rightarrow> string \<Rightarrow> bool" where
  "HasSuffix s p = HasPrefix (rev s) (rev p)"

fun event_name :: "ledger_path \<Rightarrow> string option" where
  "event_name (LedgerEventFile n) = Some n" | "event_name _ = None"

fun audit_name :: "ledger_path \<Rightarrow> string option" where
  "audit_name (LedgerAuditFile n) = Some n" | "audit_name _ = None"

definition json_names :: "(ledger_path \<Rightarrow> string option) \<Rightarrow> ledger_files \<Rightarrow> string list" where
  "json_names name_of d =
     filter (\<lambda>n. HasSuffix n ''.json'')
       (sorted_list_of_fset ((\<lambda>p. the (name_of p)) |`| ffilter (\<lambda>p. name_of p \<noteq> None) (fmdom d)))"

text \<open>\<^verbatim>\<open>%020d\<close> of a 64-bit number: exactly twenty digits.\<close>

fun padded :: "nat \<Rightarrow> nat \<Rightarrow> string" where
  "padded 0 n = []"
| "padded (Suc w) n = digit_ch (n div 10 ^ w) # padded w (n mod 10 ^ w)"

definition audit_file_name :: "ledger_audit \<Rightarrow> string" where
  "audit_file_name e = padded 20 (unat (la_sequence e)) @ ''-'' @ la_sha e @ ''.json''"

definition audit_path :: "ledger_audit \<Rightarrow> ledger_path" where
  "audit_path e = LedgerAuditFile (audit_file_name e)"

section \<open>Redaction\<close>

definition lowerSet :: "unicode \<Rightarrow> string list \<Rightarrow> string list" where
  "lowerSet u vs = map (\<lambda>v. ToLower u (TrimSpace v)) vs"

definition hmacHex :: "ledger_env \<Rightarrow> string \<Rightarrow> json \<Rightarrow> string" where
  "hmacHex env key v = lx_mac env key (marshal (canonical_json v))"

fun redactValue :: "ledger_env \<Rightarrow> string list \<Rightarrow> string list \<Rightarrow> string \<Rightarrow> json \<Rightarrow> json" where
  "redactValue env redact hash secret (JObj kvs) =
     JObj (map (\<lambda>(field, child).
       let lower = ToLower (lx_unicode env) field in
       (field,
        if lower \<in> set redact then JStr ''[REDACTED]''
        else if lower \<in> set hash then JStr (''hmac-sha256:'' @ hmacHex env secret child)
        else redactValue env redact hash secret child)) kvs)"
| "redactValue env redact hash secret (JArr vs) = JArr (map (redactValue env redact hash secret) vs)"
| "redactValue env redact hash secret v = v"

text \<open>The members are printed in the order of their names, as Go prints a map.\<close>

definition RedactJSON :: "ledger_env \<Rightarrow> string \<Rightarrow> retention_policy \<Rightarrow> string \<Rightarrow> (ledger_error, string) result" where
  "RedactJSON env raw policy key =
     (case lx_json env raw of
        None \<Rightarrow> Inl BadJson
      | Some v \<Rightarrow>
          Inr (marshal (canonical_json
            (redactValue env (lowerSet (lx_unicode env) (lr_redact policy)) (lowerSet (lx_unicode env) (lr_hash policy)) key v))))"

end
