(* ===== verification/Ledger.thy ===== *)
theory Ledger imports LedgerData begin

text \<open>
  The store of the screening ledger (\<^verbatim>\<open>store.go\<close>, \<^verbatim>\<open>audit.go\<close>): appending events and audit entries, recovery,
  and verification of both chains under a policy. Operations are programs over the files of the
  directory that may be cut off between two atomic writes. Readings of the clock and of the random source
  are arguments; the mutex makes an operation run alone.
\<close>

section \<open>Policies and options\<close>

record verification_policy =
  vp_schema :: string
  vp_ledger :: string
  vp_min_event :: string
  vp_min_audit :: string
  vp_genesis_event :: "64 word"
  vp_genesis_audit :: "64 word"
  vp_allow_unanchored :: bool
  vp_min_anchor :: "64 word"
  vp_event_pin :: string
  vp_audit_pin :: string
  vp_tenancy :: string

text \<open>\<open>vo_purges\<close>: a source of independent purge records is configured.\<close>

record verify_options =
  vo_policy :: verification_policy
  vo_mode :: string
  vo_purges :: bool
  vo_defer :: bool

definition modeOrDefault :: "verify_options \<Rightarrow> string" where
  "modeOrDefault o' = (if vo_mode o' = [] then ''anchored'' else vo_mode o')"

definition eventSchemaOrdinal :: "string \<Rightarrow> nat option" where
  "eventSchemaOrdinal v = (if v = EventSchemaV1 then Some 1 else if v = EventSchemaV2 then Some 2 else None)"

definition auditSchemaOrdinal :: "string \<Rightarrow> nat option" where
  "auditSchemaOrdinal v = (if v = AuditSchemaV1 then Some 1 else if v = AuditSchemaV2 then Some 2 else None)"

definition headSchemaFor :: "string \<Rightarrow> string" where
  "headSchemaFor v = (if v = EventSchemaV1 \<or> v = AuditSchemaV1 then HeadSchemaV1 else HeadSchemaV2)"

section \<open>Opening a store\<close>

record ledger_store =
  lt_id :: string
  lt_keys :: chain_keys

definition loadHead :: "ledger_store \<Rightarrow> ledger_files \<Rightarrow> (ledger_error, ledger_head) result" where
  "loadHead s d =
     (if fmlookup d LedgerHeadFile = None
      then Inr \<lparr>lh_schema = HeadSchemaV1, lh_ledger = lt_id s, lh_sequence = 0, lh_event = [], lh_sha = []\<rparr>
      else readCanonicalChainFile as_ledger_head LedgerHeadFile d)"

definition loadAuditHead :: "ledger_store \<Rightarrow> ledger_files \<Rightarrow> (ledger_error, ledger_head) result" where
  "loadAuditHead s d =
     (if fmlookup d LedgerAuditHeadFile = None
      then Inr \<lparr>lh_schema = HeadSchemaV1, lh_ledger = lt_id s, lh_sequence = 0, lh_event = [], lh_sha = []\<rparr>
      else readCanonicalChainFile as_ledger_head LedgerAuditHeadFile d)"

definition event_head :: "ledger_store \<Rightarrow> ledger_event \<Rightarrow> ledger_head" where
  "event_head s e = \<lparr>lh_schema = headSchemaFor (le_schema e), lh_ledger = lt_id s, lh_sequence = le_sequence e,
     lh_event = le_id e, lh_sha = le_sha e\<rparr>"

definition audit_head :: "ledger_store \<Rightarrow> ledger_audit \<Rightarrow> ledger_head" where
  "audit_head s e = \<lparr>lh_schema = headSchemaFor (la_schema e), lh_ledger = lt_id s, lh_sequence = la_sequence e,
     lh_event = [], lh_sha = la_sha e\<rparr>"

text \<open>A pending document that cannot be read, for whatever reason, stops every operation.\<close>

definition read_pending :: "ledger_files \<Rightarrow> (ledger_error, ledger_event option) result" where
  "read_pending d =
     (case readCanonicalChainFile as_ledger_event LedgerPendingFile d of
        Inr e \<Rightarrow> Inr (Some e)
      | Inl x \<Rightarrow> if x = NotExist then Inr None else Inl PendingInvalid)"

definition recoverLocked :: "ledger_store \<Rightarrow> unit ledger_prog" where
  "recoverLocked s =
     andThen (readp read_pending) (\<lambda>p. case p of
         None \<Rightarrow> ret ()
       | Some e \<Rightarrow>
           andThen (\<lambda>d. if fmlookup d (event_path (le_id e)) \<noteq> None
                        then writep (Put LedgerHeadFile (LHead (event_head s e))) d else ret () d) (\<lambda>_.
           writep (Remove LedgerPendingFile)))"

definition ensureLedgerID :: "ledger_env \<Rightarrow> string \<Rightarrow> string \<Rightarrow> string ledger_prog" where
  "ensureLedgerID env absolute requested =
     andThen (readp (\<lambda>d. Inr (fmlookup d LedgerIdFile))) (\<lambda>found. case found of
         Some c \<Rightarrow>
           let existing = TrimSpace (file_bytes c) in
           if TrimSpace requested \<noteq> [] \<and> existing \<noteq> TrimSpace requested then failp LedgerIdMismatch else ret existing
       | None \<Rightarrow>
           let i = (if TrimSpace requested = [] then ''ledger-'' @ take 24 (lx_sha env absolute) else TrimSpace requested)
           in andThen (writep (Put LedgerIdFile (LBytes (i @ [CHR 0x0A])))) (\<lambda>_. ret i))"

definition NewStore :: "ledger_env \<Rightarrow> string \<Rightarrow> string \<Rightarrow> string \<Rightarrow> string \<Rightarrow> ledger_store ledger_prog" where
  "NewStore env directory absolute key requested =
     (if TrimSpace directory = [] then failp NoDirectory
      else if length key \<noteq> 32 then failp BadKey
      else andThen (ensureLedgerID env absolute requested) (\<lambda>i.
           let s = \<lparr>lt_id = i, lt_keys = deriveChainKeys env key i\<rparr> in
           andThen (recoverLocked s) (\<lambda>_. ret s)))"

section \<open>Appending an event\<close>

definition check_retention :: "retention_policy \<Rightarrow> (ledger_error, unit) result" where
  "check_retention r =
     (if lr_days r < 0 then Inl (NegativeRetention (lr_days r))
      else if lr_days r > 36525 then Inl (RetentionTooLong (lr_days r))
      else if lr_max_bytes r < 0 then Inl (NegativeSnapshotLimit (lr_max_bytes r))
      else Inr ())"

definition default_retention :: "retention_policy \<Rightarrow> retention_policy" where
  "default_retention r =
     r\<lparr>lr_class := (if lr_class r = [] then ''screening-standard'' else lr_class r),
       lr_days := (if lr_days r = 0 then 2555 else lr_days r),
       lr_max_bytes := (if lr_max_bytes r = 0 then 2 * 1024 * 1024 else lr_max_bytes r)\<rparr>"

definition with_defaults :: "string \<Rightarrow> append_input \<Rightarrow> (ledger_error, append_input) result" where
  "with_defaults now i =
     res_bind (check_retention (ai_retention i)) (\<lambda>_.
       Inr (i\<lparr>ai_occurred := (if ai_occurred i = [] then now else ai_occurred i), ai_retention := default_retention (ai_retention i)\<rparr>))"

definition idempotency_hash :: "ledger_env \<Rightarrow> append_input \<Rightarrow> string" where
  "idempotency_hash env i = (if ai_idempotency i = [] then [] else lx_sha env (ai_idempotency i))"

definition event_identity :: "ledger_env \<Rightarrow> ledger_store \<Rightarrow> append_input \<Rightarrow> string" where
  "event_identity env s i =
     lx_sha env (Join [lt_id s, ai_route i, lx_sha env (ai_request i), lx_sha env (ai_response i),
        lx_sha env (ai_correlation i),
        (if idempotency_hash env i \<noteq> [] then idempotency_hash env i else ai_occurred i)] [CHR 0x0A])"

text \<open>What an event keeps of a response: its lineage and a bounded summary of the candidates.\<close>

definition member :: "(string \<times> json) list \<Rightarrow> string \<Rightarrow> json option" where
  "member kvs k = (case map_of kvs k of Some v \<Rightarrow> if v = JNull then None else Some v | None \<Rightarrow> None)"

definition bounded_candidate :: "(string \<times> json) list \<Rightarrow> json" where
  "bounded_candidate kvs =
     JObj (concat (map (\<lambda>k. case map_of kvs k of Some v \<Rightarrow> [(k, v)] | None \<Rightarrow> [])
       [''candidate_id'', ''score'', ''similarity_band'', ''reason_codes'', ''evidence_sha256'']))"

fun bounded_candidates :: "json list \<Rightarrow> json list" where
  "bounded_candidates [] = []"
| "bounded_candidates (JObj kvs # vs) = bounded_candidate kvs # bounded_candidates vs"
| "bounded_candidates (v # vs) = bounded_candidates vs"

definition bounded_summary :: "(string \<times> json) list \<Rightarrow> json" where
  "bounded_summary kvs =
     JObj ((case map_of kvs ''candidates'' of Some (JArr vs) \<Rightarrow> [(''candidates'', JArr (bounded_candidates vs))] | _ \<Rightarrow> [])
       @ (case map_of kvs ''blockers'' of Some v \<Rightarrow> [(''blockers'', v)] | None \<Rightarrow> []))"

definition extractBoundedMetadata :: "ledger_env \<Rightarrow> string \<Rightarrow> json option \<times> json option \<times> json option" where
  "extractBoundedMetadata env response =
     (let extract = (\<lambda>kvs.
          (map_option canonical_json (case member kvs ''activation_tuple'' of Some v \<Rightarrow> Some v | None \<Rightarrow> member kvs ''activation''),
           map_option canonical_json (member kvs ''promotion''),
           Some (canonical_json (bounded_summary kvs))))
      in case map_option (lx_floats env) (lx_json env response) of
          Some (JObj kvs) \<Rightarrow> extract kvs
        | Some JNull \<Rightarrow> extract []
        | _ \<Rightarrow> (None, None, None))"

text \<open>The checks and the material that do not depend on the directory.\<close>

record append_plan =
  pl_input :: append_input
  pl_request :: snapshot_envelope
  pl_response :: snapshot_envelope
  pl_canonical :: string
  pl_expires :: string

definition plan_append ::
  "ledger_env \<Rightarrow> ledger_store \<Rightarrow> string \<Rightarrow> string \<Rightarrow> string \<Rightarrow> append_input \<Rightarrow> (ledger_error, append_plan) result" where
  "plan_append env s now nonce1 nonce2 input =
     res_bind (with_defaults now input) (\<lambda>i.
     case canonicalJSON env (ai_request i) of None \<Rightarrow> Inl BadJson | Some request \<Rightarrow>
     (case canonicalJSON env (ai_response i) of None \<Rightarrow> Inl BadJson | Some response \<Rightarrow>
     if int (length request) > lr_max_bytes (ai_retention i) \<or> int (length response) > lr_max_bytes (ai_retention i)
     then Inl SnapshotTooLarge
     else
       res_bind (mustExpires env (ai_occurred i) (lr_days (ai_retention i))) (\<lambda>expires.
       res_bind (encryptSnapshot env (ck_snap (lt_keys s)) nonce1 ''request'' request (ai_occurred i) expires (lr_class (ai_retention i))) (\<lambda>rq.
       res_bind (encryptSnapshot env (ck_snap (lt_keys s)) nonce2 ''response'' response (ai_occurred i) expires (lr_class (ai_retention i))) (\<lambda>rs.
       Inr \<lparr>pl_input = i, pl_request = rq, pl_response = rs, pl_canonical = response, pl_expires = expires\<rparr>)))))"

definition draft_event :: "ledger_env \<Rightarrow> ledger_store \<Rightarrow> append_plan \<Rightarrow> ledger_head \<Rightarrow> ledger_event" where
  "draft_event env s pl h =
     (let i = pl_input pl; (activation, promotion, candidates) = extractBoundedMetadata env (pl_canonical pl)
      in \<lparr>le_schema = EventSchemaV2, le_id = event_identity env s i, le_ledger = lt_id s,
          le_sequence = lh_sequence h + 1, le_previous = lh_sha h, le_sha = [], le_occurred = ai_occurred i,
          le_route = ai_route i, le_status = ai_status i, le_correlation = lx_sha env (ai_correlation i),
          le_idempotency = idempotency_hash env i, le_request_sha = lx_sha env (ai_request i),
          le_response_sha = lx_sha env (ai_response i), le_request_snapshot = ls_sha (pl_request pl),
          le_response_snapshot = ls_sha (pl_response pl), le_activation = activation, le_promotion = promotion,
          le_candidates = candidates, le_retention = lr_class (ai_retention i), le_expires = pl_expires pl\<rparr>)"

definition new_event :: "ledger_env \<Rightarrow> ledger_store \<Rightarrow> append_plan \<Rightarrow> ledger_head \<Rightarrow> ledger_event" where
  "new_event env s pl h =
     (let e = draft_event env s pl h in e\<lparr>le_sha := hashEvent env (ck_chain (lt_keys s)) e\<rparr>)"

text \<open>An existing snapshot of that digest is kept, whatever else it says.\<close>

fun lenient_snapshot :: "ledger_env \<Rightarrow> ledger_file \<Rightarrow> snapshot_envelope option" where
  "lenient_snapshot env (LSnapshot e) = Some e"
| "lenient_snapshot env (LBytes b) = lx_lenient env b"
| "lenient_snapshot env _ = None"

definition writeSnapshot :: "ledger_env \<Rightarrow> snapshot_envelope \<Rightarrow> unit ledger_prog" where
  "writeSnapshot env e d =
     (case fmlookup d (snapshot_path (ls_sha e)) of
        None \<Rightarrow> ([Put (snapshot_path (ls_sha e)) (LSnapshot e)], Inr ())
      | Some c \<Rightarrow>
          (case lenient_snapshot env c of
             Some old \<Rightarrow> if ls_sha old = ls_sha e then ([], Inr ()) else ([], Inl SnapshotCollision)
           | None \<Rightarrow> ([], Inl SnapshotCollision)))"

definition existing_event :: "ledger_path \<Rightarrow> ledger_files \<Rightarrow> (ledger_error, ledger_event option) result" where
  "existing_event p d =
     (case readCanonicalChainFile as_ledger_event p d of
        Inr e \<Rightarrow> Inr (Some e)
      | Inl x \<Rightarrow> if x = NotExist then Inr None else Inl ExistingEventInvalid)"

definition commit_event :: "ledger_store \<Rightarrow> ledger_event \<Rightarrow> unit ledger_prog" where
  "commit_event s e =
     andThen (writep (Put LedgerPendingFile (LEvent e))) (\<lambda>_.
     andThen (writep (Put (event_path (le_id e)) (LEvent e))) (\<lambda>_.
     andThen (writep (Put LedgerHeadFile (LHead (event_head s e)))) (\<lambda>_.
     writep (Remove LedgerPendingFile))))"

text \<open>The second component of the result says that the event was there already.\<close>

definition Append ::
  "ledger_env \<Rightarrow> ledger_store \<Rightarrow> string \<Rightarrow> string \<Rightarrow> string \<Rightarrow> append_input \<Rightarrow> (ledger_event \<times> bool) ledger_prog" where
  "Append env s now nonce1 nonce2 input =
     andThen (recoverLocked s) (\<lambda>_.
     andThen (readp (\<lambda>_. plan_append env s now nonce1 nonce2 input)) (\<lambda>pl.
     andThen (readp (existing_event (event_path (event_identity env s (pl_input pl))))) (\<lambda>found. case found of
         Some e \<Rightarrow> ret (e, True)
       | None \<Rightarrow>
           andThen (readp (loadHead s)) (\<lambda>h.
           let e = new_event env s pl h in
           andThen (writeSnapshot env (pl_request pl)) (\<lambda>_.
           andThen (writeSnapshot env (pl_response pl)) (\<lambda>_.
           andThen (commit_event s e) (\<lambda>_. ret (e, False))))))))"

section \<open>Appending an audit entry\<close>

definition draft_audit ::
  "ledger_store \<Rightarrow> string \<Rightarrow> string \<Rightarrow> string \<Rightarrow> string \<Rightarrow> string \<Rightarrow> json option \<Rightarrow> ledger_head \<Rightarrow> ledger_audit" where
  "draft_audit s now action operator reason event details h =
     \<lparr>la_schema = AuditSchemaV2, la_ledger = lt_id s, la_sequence = lh_sequence h + 1, la_previous = lh_sha h,
      la_sha = [], la_occurred = now, la_action = action, la_operator = operator, la_reason = reason,
      la_event = event, la_details = details\<rparr>"

definition new_audit ::
  "ledger_env \<Rightarrow> ledger_store \<Rightarrow> string \<Rightarrow> string \<Rightarrow> string \<Rightarrow> string \<Rightarrow> string \<Rightarrow> json option \<Rightarrow> ledger_head \<Rightarrow> ledger_audit" where
  "new_audit env s now action operator reason event details h =
     (let e = draft_audit s now action operator reason event details h in e\<lparr>la_sha := hashAudit env (ck_chain (lt_keys s)) e\<rparr>)"

definition AppendAudit ::
  "ledger_env \<Rightarrow> ledger_store \<Rightarrow> string \<Rightarrow> string \<Rightarrow> string \<Rightarrow> string \<Rightarrow> string \<Rightarrow> json option \<Rightarrow> ledger_audit ledger_prog" where
  "AppendAudit env s now action operator reason event details =
     andThen (readp (loadAuditHead s)) (\<lambda>h.
     let e = new_audit env s now action operator reason event details h in
     andThen (writep (Put (audit_path e) (LAudit e))) (\<lambda>_.
     andThen (writep (Put LedgerAuditHeadFile (LHead (audit_head s e)))) (\<lambda>_. ret e)))"

section \<open>Reading\<close>

fun read_all :: "(ledger_file \<Rightarrow> 'a option) \<Rightarrow> ledger_files \<Rightarrow> ledger_path list \<Rightarrow> (ledger_error, 'a list) result" where
  "read_all sel d [] = Inr []"
| "read_all sel d (p # ps) =
     res_bind (readCanonicalChainFile sel p d) (\<lambda>x. res_bind (read_all sel d ps) (\<lambda>xs. Inr (x # xs)))"

definition event_paths :: "ledger_files \<Rightarrow> ledger_path list" where
  "event_paths d = map LedgerEventFile (json_names event_name d)"

definition audit_paths :: "ledger_files \<Rightarrow> ledger_path list" where
  "audit_paths d = map LedgerAuditFile (json_names audit_name d)"

definition ListEvents :: "ledger_files \<Rightarrow> (ledger_error, ledger_event list) result" where
  "ListEvents d =
     res_bind (read_all as_ledger_event d (event_paths d)) (\<lambda>es. Inr (sort_by (\<lambda>a b. le_sequence a < le_sequence b) es))"

definition readAuditEntries :: "ledger_files \<Rightarrow> (ledger_error, ledger_audit list) result" where
  "readAuditEntries d = read_all as_ledger_audit d (audit_paths d)"

fun find_sequence ::
  "('a \<Rightarrow> 64 word) \<Rightarrow> (ledger_file \<Rightarrow> 'a option) \<Rightarrow> ledger_error \<Rightarrow> 64 word \<Rightarrow> ledger_files \<Rightarrow> ledger_path list \<Rightarrow> (ledger_error, 'a) result"
where
  "find_sequence sq sel err n d [] = Inl err"
| "find_sequence sq sel err n d (p # ps) =
     res_bind (readCanonicalChainFile sel p d) (\<lambda>x. if sq x = n then Inr x else find_sequence sq sel err n d ps)"

definition eventAtSequence :: "64 word \<Rightarrow> ledger_files \<Rightarrow> (ledger_error, ledger_event) result" where
  "eventAtSequence n d = find_sequence le_sequence as_ledger_event (NoEntryAt Events n) n d (event_paths d)"

definition auditEntryAtSequence :: "64 word \<Rightarrow> ledger_files \<Rightarrow> (ledger_error, ledger_audit) result" where
  "auditEntryAtSequence n d = find_sequence la_sequence as_ledger_audit (NoEntryAt Audits n) n d (audit_paths d)"

definition GetEvent :: "string \<Rightarrow> ledger_files \<Rightarrow> (ledger_error, ledger_event) result" where
  "GetEvent i d =
     res_bind (readCanonicalChainFile as_ledger_event (event_path i) d) (\<lambda>e.
       if le_id e \<noteq> i then Inl (WrongEvent i (le_id e)) else Inr e)"

definition LoadSnapshot :: "string \<Rightarrow> ledger_files \<Rightarrow> (ledger_error, snapshot_envelope) result" where
  "LoadSnapshot sha d = readCanonicalChainFile as_snapshot (snapshot_path sha) d"

definition DecryptSnapshot :: "ledger_env \<Rightarrow> ledger_store \<Rightarrow> string \<Rightarrow> ledger_files \<Rightarrow> (ledger_error, string) result" where
  "DecryptSnapshot env s sha d = res_bind (LoadSnapshot sha d) (\<lambda>e. decryptSnapshot env (ck_snap (lt_keys s)) e)"

definition MarkReplicated :: "string \<Rightarrow> string \<Rightarrow> string \<Rightarrow> unit ledger_prog" where
  "MarkReplicated now i occurred =
     writep (Put (replication_path i)
       (LBytes (marshal (JObj [(''event_id'', JStr i),
         (''replicated_at'', JStr (if occurred = [] then now else occurred))]))))"

definition IsReplicated :: "string \<Rightarrow> ledger_files \<Rightarrow> bool" where
  "IsReplicated i d \<longleftrightarrow> fmlookup d (replication_path i) \<noteq> None"

section \<open>Verifying the event chain\<close>

record event_walk =
  ew_last :: ledger_head
  ew_previous :: string
  ew_pinned :: bool
  ew_frozen :: nat
  ew_total :: nat
  ew_performed :: nat
  ew_claims :: "(string \<times> 64 word) list"
  ew_known :: "string list"

text \<open>Which digest an entry must carry is decided by its position against the genesis boundary.\<close>

definition position_digest ::
  "chain \<Rightarrow> 64 word \<Rightarrow> nat \<Rightarrow> (string \<Rightarrow> nat option) \<Rightarrow> string \<Rightarrow> string \<Rightarrow> ('e \<Rightarrow> string) \<Rightarrow> ('e \<Rightarrow> string)
    \<Rightarrow> string \<Rightarrow> 64 word \<Rightarrow> 'e \<Rightarrow> (ledger_error, string) result" where
  "position_digest c genesis min_ordinal ordinal v1 v2 legacy keyed schema n e =
     (if n < genesis then if schema \<noteq> v1 then Inl (MustBeV1 c n) else Inr (legacy e)
      else case ordinal schema of
          None \<Rightarrow> Inl (BelowMinimum c n)
        | Some k \<Rightarrow> if k < min_ordinal then Inl (BelowMinimum c n)
                    else if schema = v2 then Inr (keyed e) else Inl (NoDigest c n))"

definition event_digest_at :: "ledger_env \<Rightarrow> ledger_store \<Rightarrow> verification_policy \<Rightarrow> nat \<Rightarrow> ledger_event \<Rightarrow> (ledger_error, string) result" where
  "event_digest_at env s policy min_ordinal e =
     position_digest Events (vp_genesis_event policy) min_ordinal eventSchemaOrdinal EventSchemaV1 EventSchemaV2
       (legacyHashEvent env) (hashEvent env (ck_chain (lt_keys s))) (le_schema e) (le_sequence e) e"

definition verifySnapshotChecked ::
  "ledger_env \<Rightarrow> ledger_store \<Rightarrow> string \<Rightarrow> bool \<Rightarrow> string \<Rightarrow> 64 word \<Rightarrow> ledger_files
    \<Rightarrow> (ledger_error, bool \<times> (string \<times> 64 word) option) result" where
  "verifySnapshotChecked env s mode purges sha n d =
     res_bind (LoadSnapshot sha d) (\<lambda>e.
     if ls_sha e \<noteq> sha then Inl SnapshotName
     else if ls_purged e \<noteq> [] then
       (if purges then Inr (False, Some (sha, n))
        else if mode = ''historical-unanchored'' then Inr (False, None)
        else Inl (PurgeUnavailable sha))
     else res_bind (decryptSnapshot env (ck_snap (lt_keys s)) e) (\<lambda>plain.
       if lx_sha env plain \<noteq> ls_plain_sha e then Inl PlaintextChecksum else Inr (True, None)))"

fun check_snapshots ::
  "ledger_env \<Rightarrow> ledger_store \<Rightarrow> string \<Rightarrow> bool \<Rightarrow> 64 word \<Rightarrow> ledger_files \<Rightarrow> string list \<Rightarrow> event_walk \<Rightarrow> (ledger_error, event_walk) result" where
  "check_snapshots env s mode purges n d [] w = Inr w"
| "check_snapshots env s mode purges n d (sha # shas) w =
     res_bind (verifySnapshotChecked env s mode purges sha n d) (\<lambda>(performed, claim).
       check_snapshots env s mode purges n d shas
         (w\<lparr>ew_known := sha # ew_known w, ew_total := ew_total w + 1,
            ew_performed := ew_performed w + (if performed then 1 else 0),
            ew_claims := ew_claims w @ (case claim of Some c \<Rightarrow> [c] | None \<Rightarrow> [])\<rparr>))"

definition check_event ::
  "ledger_env \<Rightarrow> ledger_store \<Rightarrow> verify_options \<Rightarrow> nat \<Rightarrow> ledger_files \<Rightarrow> nat \<Rightarrow> ledger_event \<Rightarrow> event_walk \<Rightarrow> (ledger_error, event_walk) result" where
  "check_event env s vopts min_ordinal d i e w =
     (let policy = vo_policy vopts in
      if le_sequence e \<noteq> of_nat (i + 1) then Inl (SequenceGap (i + 1))
      else if le_previous e \<noteq> ew_previous w then Inl (ChainMismatch Events)
      else res_bind (event_digest_at env s policy min_ordinal e) (\<lambda>digest.
        if digest \<noteq> le_sha e then Inl (BadDigest Events)
        else
          let last_frozen = vp_genesis_event policy > 1 \<and> le_sequence e = vp_genesis_event policy - 1 in
          if last_frozen \<and> le_sha e \<noteq> vp_event_pin policy then Inl (WrongPin Events (le_sequence e))
          else res_bind (check_snapshots env s (modeOrDefault vopts) (vo_purges vopts) (le_sequence e) d
                 [le_request_snapshot e, le_response_snapshot e]
                 (w\<lparr>ew_pinned := ew_pinned w \<or> last_frozen,
                    ew_frozen := (if le_sequence e < vp_genesis_event policy then i + 1 else ew_frozen w)\<rparr>)) (\<lambda>w'.
               Inr (w'\<lparr>ew_previous := le_sha e, ew_last := event_head s e\<rparr>))))"

fun walk_events ::
  "ledger_env \<Rightarrow> ledger_store \<Rightarrow> verify_options \<Rightarrow> nat \<Rightarrow> ledger_files \<Rightarrow> nat \<Rightarrow> ledger_event list \<Rightarrow> event_walk \<Rightarrow> (ledger_error, event_walk) result" where
  "walk_events env s vopts min_ordinal d i [] w = Inr w"
| "walk_events env s vopts min_ordinal d i (e # es) w =
     res_bind (check_event env s vopts min_ordinal d i e w) (walk_events env s vopts min_ordinal d (Suc i) es)"

section \<open>Verifying the audit chain\<close>

record audit_walk =
  aw_last :: ledger_head
  aw_previous :: string
  aw_pinned :: bool
  aw_frozen :: nat

definition audit_digest_at :: "ledger_env \<Rightarrow> ledger_store \<Rightarrow> verification_policy \<Rightarrow> nat \<Rightarrow> ledger_audit \<Rightarrow> (ledger_error, string) result" where
  "audit_digest_at env s policy min_ordinal e =
     position_digest Audits (vp_genesis_audit policy) min_ordinal auditSchemaOrdinal AuditSchemaV1 AuditSchemaV2
       (legacyHashAudit env) (hashAudit env (ck_chain (lt_keys s))) (la_schema e) (la_sequence e) e"

definition check_audit ::
  "ledger_env \<Rightarrow> ledger_store \<Rightarrow> verification_policy \<Rightarrow> nat \<Rightarrow> nat \<Rightarrow> ledger_audit \<Rightarrow> audit_walk \<Rightarrow> (ledger_error, audit_walk) result" where
  "check_audit env s policy min_ordinal i e w =
     (if la_sequence e \<noteq> of_nat (i + 1) \<or> la_previous e \<noteq> aw_previous w then Inl (ChainMismatch Audits)
      else res_bind (audit_digest_at env s policy min_ordinal e) (\<lambda>digest.
        if digest \<noteq> la_sha e then Inl (BadDigest Audits)
        else
          let last_frozen = vp_genesis_audit policy > 1 \<and> la_sequence e = vp_genesis_audit policy - 1 in
          if last_frozen \<and> la_sha e \<noteq> vp_audit_pin policy then Inl (WrongPin Audits (la_sequence e))
          else Inr \<lparr>aw_last = audit_head s e, aw_previous = la_sha e, aw_pinned = (aw_pinned w \<or> last_frozen),
                    aw_frozen = (if la_sequence e < vp_genesis_audit policy then i + 1 else aw_frozen w)\<rparr>))"

text \<open>The files are read one by one in the order of their names.\<close>

fun walk_audits ::
  "ledger_env \<Rightarrow> ledger_store \<Rightarrow> verification_policy \<Rightarrow> nat \<Rightarrow> ledger_files \<Rightarrow> nat \<Rightarrow> ledger_path list \<Rightarrow> audit_walk \<Rightarrow> (ledger_error, audit_walk) result" where
  "walk_audits env s policy min_ordinal d i [] w = Inr w"
| "walk_audits env s policy min_ordinal d i (p # ps) w =
     res_bind (readCanonicalChainFile as_ledger_audit p d) (\<lambda>e.
     res_bind (check_audit env s policy min_ordinal i e w) (walk_audits env s policy min_ordinal d (Suc i) ps))"

definition verifyAuditPolicyLocked ::
  "ledger_env \<Rightarrow> ledger_store \<Rightarrow> verification_policy \<Rightarrow> ledger_files \<Rightarrow> (ledger_error, ledger_head \<times> nat) result" where
  "verifyAuditPolicyLocked env s policy d =
     (case auditSchemaOrdinal (vp_min_audit policy) of
        None \<Rightarrow> Inl (MinSchema Audits (vp_min_audit policy))
      | Some min_ordinal \<Rightarrow>
          if vp_genesis_audit policy = 1 \<and> vp_audit_pin policy \<noteq> [] then Inl (Sentinel Audits)
          else
            res_bind (walk_audits env s policy min_ordinal d 0 (audit_paths d)
                \<lparr>aw_last = \<lparr>lh_schema = HeadSchemaV1, lh_ledger = lt_id s, lh_sequence = 0, lh_event = [], lh_sha = []\<rparr>,
                 aw_previous = [], aw_pinned = (vp_genesis_audit policy = 1), aw_frozen = 0\<rparr>) (\<lambda>w.
            if \<not> aw_pinned w then Inl (PinMissing Audits)
            else res_bind (loadAuditHead s d) (\<lambda>h.
              if lh_sequence h \<noteq> lh_sequence (aw_last w) \<or> lh_sha h \<noteq> lh_sha (aw_last w) then Inl (HeadMismatch Audits)
              else Inr (h, aw_frozen w))))"

section \<open>Verification under a policy\<close>

record verify_report =
  rp_head :: ledger_head
  rp_audit_head :: ledger_head
  rp_frozen :: nat
  rp_audit_frozen :: nat
  rp_total :: nat
  rp_performed :: nat
  rp_claims :: "(string \<times> 64 word) list"
  rp_known :: "string list"

text \<open>The checks after recovery, which write nothing.\<close>

definition verify_files ::
  "ledger_env \<Rightarrow> ledger_store \<Rightarrow> verify_options \<Rightarrow> ledger_files \<Rightarrow> (ledger_error, verify_report) result" where
  "verify_files env s vopts d =
     (let policy = vo_policy vopts; mode = modeOrDefault vopts in
      if mode = ''historical-unanchored'' \<and> \<not> vp_allow_unanchored policy then Inl ModeNotAllowed
      else if vp_ledger policy \<noteq> lt_id s then Inl (PolicyLedger (vp_ledger policy) (lt_id s))
      else if vp_genesis_event policy = 0 then Inl (GenesisZero Events)
      else if vp_genesis_audit policy = 0 then Inl (GenesisZero Audits)
      else case eventSchemaOrdinal (vp_min_event policy) of
          None \<Rightarrow> Inl (MinSchema Events (vp_min_event policy))
        | Some min_ordinal \<Rightarrow>
            res_bind (ListEvents d) (\<lambda>es.
            if vp_genesis_event policy = 1 \<and> vp_event_pin policy \<noteq> [] then Inl (Sentinel Events)
            else
              res_bind (walk_events env s vopts min_ordinal d 0 es
                  \<lparr>ew_last = \<lparr>lh_schema = HeadSchemaV1, lh_ledger = lt_id s, lh_sequence = 0, lh_event = [], lh_sha = []\<rparr>,
                   ew_previous = [], ew_pinned = (vp_genesis_event policy = 1), ew_frozen = 0, ew_total = 0,
                   ew_performed = 0, ew_claims = [], ew_known = []\<rparr>) (\<lambda>w.
              if \<not> ew_pinned w then Inl (PinMissing Events)
              else res_bind (loadHead s d) (\<lambda>h.
                if lh_sequence h \<noteq> lh_sequence (ew_last w) \<or> lh_sha h \<noteq> lh_sha (ew_last w) then Inl (HeadMismatch Events)
                else res_bind (verifyAuditPolicyLocked env s policy d) (\<lambda>(ah, af).
                  if ew_claims w \<noteq> [] \<and> mode \<noteq> ''historical-unanchored'' \<and> \<not> vo_defer vopts
                  then Inl (PurgeClaimsNeedAnchor (length (ew_claims w)))
                  else Inr \<lparr>rp_head = h, rp_audit_head = ah, rp_frozen = ew_frozen w, rp_audit_frozen = af,
                            rp_total = ew_total w, rp_performed = ew_performed w, rp_claims = ew_claims w,
                            rp_known = sorted_set (ew_known w)\<rparr>)))))"

definition VerifyPolicy :: "ledger_env \<Rightarrow> ledger_store \<Rightarrow> verify_options \<Rightarrow> verify_report ledger_prog" where
  "VerifyPolicy env s vopts = andThen (recoverLocked s) (\<lambda>_. readp (verify_files env s vopts))"

end
