(* ===== verification/LedgerAnchor.thy ===== *)
theory LedgerAnchor imports Ledger AlertPolicy begin

text \<open>
  Anchors and purge claims (\<^verbatim>\<open>anchor.go\<close>): the row an anchor commits to, verification of a ledger against its newest
  anchor, and the adjudication of purged snapshots against the audit chain and the retention table. The database
  is a set of reading functions; instants are nanoseconds. The age of the anchor is not computed.
\<close>

section \<open>Rows and readers\<close>

record tombstone =
  ts_sha :: string
  ts_purged_at :: int
  ts_operator :: string
  ts_reason :: string

record anchor =
  an_ledger :: string
  an_sequence :: int
  an_event :: string
  an_audit :: string
  an_audit_sequence :: int
  an_policy :: string
  an_at :: int
  an_mac :: string

datatype anchor_error =
    LedgerFailed ledger_error | DatabaseError string | BadMode string | NoAnchorReader | NoProvisioningReader
  | NotProvisioned string | AnchorsWiped "64 word" | GenesisRequired | AnchorKeyLength | AnchorMacInvalid
  | AnchorPolicyMismatch | AnchorBelowFloor int "64 word" | ChainBehindAnchor chain | ChainDisagrees chain
  | ForeignLedgers "string list" | NotAttested string | NotYetAnchored string | NoPurgeSource string
  | NoTombstone string | PreviousAnchorInvalid | NoLocalEvent string | NoMirrorEvent string
  | MirrorCountDivergence string int int | MirrorMaxDivergence string | Attribution string
  | PurgedAfterAnchor string | PurgedTooEarly string | BadExpiresAt string

type_synonym 'a anchored = "(anchor_error, 'a) result"

text \<open>The aggregate is absent when no row refers to the snapshot.\<close>

record purge_checker =
  px_record :: "string \<Rightarrow> tombstone option anchored"
  px_all :: "tombstone list anchored"
  px_aggregate :: "string \<Rightarrow> string \<Rightarrow> (int \<times> int) option anchored"
  px_foreign :: "string \<Rightarrow> string list anchored"

record anchor_reader =
  ar_latest :: "string \<Rightarrow> anchor option anchored"
  ar_previous :: "string \<Rightarrow> int \<Rightarrow> anchor option anchored"

record anchor_options =
  ao_policy :: verification_policy
  ao_mode :: string
  ao_purges :: "purge_checker option"
  ao_anchors :: "anchor_reader option"
  ao_provisioning :: "(bool \<times> string) anchored option"
  ao_key :: string
  ao_policy_sha :: string
  ao_allow_genesis :: bool

section \<open>The authenticated row\<close>

definition anchoredAtMACString :: "ledger_env \<Rightarrow> int \<Rightarrow> string" where
  "anchoredAtMACString env t = lx_format env t"

definition anchorMAC ::
  "ledger_env \<Rightarrow> string \<Rightarrow> string \<Rightarrow> int \<Rightarrow> string \<Rightarrow> string \<Rightarrow> int \<Rightarrow> string \<Rightarrow> int \<Rightarrow> string" where
  "anchorMAC env kAnchor ledgerID sequence eventSHA auditSHA auditSequence policySHA anchoredAt =
     lx_mac env kAnchor (Join [ledgerID, decimal_int sequence, eventSHA, auditSHA, decimal_int auditSequence, policySHA,
       anchoredAtMACString env anchoredAt] [CHR 0x00])"

definition anchor_verify :: "ledger_env \<Rightarrow> string \<Rightarrow> anchor \<Rightarrow> bool" where
  "anchor_verify env kAnchor a \<longleftrightarrow>
     an_mac a = anchorMAC env kAnchor (an_ledger a) (an_sequence a) (an_event a) (an_audit a) (an_audit_sequence a)
       (an_policy a) (an_at a)"

text \<open>The row that is inserted; \<open>at\<close> is the reading of the database's clock.\<close>

definition WriteAnchor ::
  "ledger_env \<Rightarrow> string \<Rightarrow> string \<Rightarrow> int \<Rightarrow> string \<Rightarrow> string \<Rightarrow> int \<Rightarrow> string \<Rightarrow> int \<Rightarrow> anchor anchored" where
  "WriteAnchor env kAnchor ledgerID sequence eventSHA auditSHA auditSequence policySHA at =
     (if length kAnchor \<noteq> 32 then Inl AnchorKeyLength
      else Inr \<lparr>an_ledger = ledgerID, an_sequence = sequence, an_event = eventSHA, an_audit = auditSHA,
                an_audit_sequence = auditSequence, an_policy = policySHA, an_at = at,
                an_mac = anchorMAC env kAnchor ledgerID sequence eventSHA auditSHA auditSequence policySHA at\<rparr>)"

section \<open>Attestations and obligations\<close>

text \<open>The details of a purge, decoded into \<^verbatim>\<open>purgeExpiredAuditDetails\<close>.\<close>

definition purged_snapshots :: "json \<Rightarrow> string list option" where
  "purged_snapshots v =
     (case object_members v of None \<Rightarrow> None | Some kvs \<Rightarrow> strs_member kvs ''snapshot_sha256'')"

lemma purged_snapshots_written: "purged_snapshots (JObj [(''snapshot_sha256'', JArr (map JStr shas))]) = Some shas"
proof -
  have "fold_name ''snapshot_sha256'' = ''snapshot_sha256''"
    by (rule fold_name_plain) (simp add: byte_of_def)
  moreover have "those (map (\<lambda>x. str_step [] (JStr x)) xs) = Some xs" for xs
    by (induction xs) (simp_all add: str_step_def)
  ultimately show ?thesis
    by (simp add: purged_snapshots_def object_members_def strs_member_def members_of_def strs_step_def comp_def)
qed

definition attested_by :: "ledger_audit \<Rightarrow> string list" where
  "attested_by e =
     (if la_action e \<noteq> ''purge_expired'' then []
      else case la_details e of None \<Rightarrow> [] | Some v \<Rightarrow> (case purged_snapshots v of None \<Rightarrow> [] | Some shas \<Rightarrow> shas))"

text \<open>For every snapshot the first entry of least sequence that attests its purge.\<close>

fun attest :: "ledger_audit \<Rightarrow> string list \<Rightarrow> (string \<Rightarrow> ledger_audit option) \<Rightarrow> string \<Rightarrow> ledger_audit option" where
  "attest e [] m = m"
| "attest e (sha # shas) m =
     attest e shas (case m sha of None \<Rightarrow> m(sha := Some e) | Some old \<Rightarrow> if la_sequence e < la_sequence old then m(sha := Some e) else m)"

definition attestingAuditEntries :: "ledger_files \<Rightarrow> (string \<Rightarrow> ledger_audit option) anchored" where
  "attestingAuditEntries d =
     (case readAuditEntries d of
        Inl e \<Rightarrow> Inl (LedgerFailed e)
      | Inr es \<Rightarrow> Inr (fold (\<lambda>e. attest e (attested_by e)) es (\<lambda>_. None)))"

text \<open>How many events refer to a snapshot, and the latest instant to which any of them promises to keep it.\<close>

type_synonym obligations = "string \<Rightarrow> (int \<times> int) option"

definition add_obligation :: "int \<Rightarrow> string \<Rightarrow> obligations \<Rightarrow> obligations" where
  "add_obligation t sha ob =
     ob(sha := (case ob sha of None \<Rightarrow> Some (1, t) | Some (n, m) \<Rightarrow> Some (n + 1, if t > m then t else m)))"

definition snapshot_refs :: "ledger_event \<Rightarrow> string list" where
  "snapshot_refs e = remdups (filter (\<lambda>sha. sha \<noteq> []) [le_request_snapshot e, le_response_snapshot e])"

fun obligations_loop :: "ledger_env \<Rightarrow> ledger_event list \<Rightarrow> obligations \<Rightarrow> obligations anchored" where
  "obligations_loop env [] ob = Inr ob"
| "obligations_loop env (e # es) ob =
     (case lx_time env (le_expires e) of
        None \<Rightarrow> Inl (BadExpiresAt (le_id e))
      | Some t \<Rightarrow> obligations_loop env es (fold (add_obligation (t - t mod 1000)) (snapshot_refs e) ob))"

definition computeSnapshotObligations :: "ledger_env \<Rightarrow> ledger_event list \<Rightarrow> obligations anchored" where
  "computeSnapshotObligations env es = obligations_loop env es (\<lambda>_. None)"

section \<open>Lower bounds\<close>

record lower_bound_source =
  lb_previous :: "int option"
  lb_obligations :: obligations

definition loadPurgeLowerBoundSource ::
  "ledger_env \<Rightarrow> ledger_store \<Rightarrow> anchor_reader \<Rightarrow> string \<Rightarrow> int \<Rightarrow> ledger_files \<Rightarrow> lower_bound_source anchored" where
  "loadPurgeLowerBoundSource env s anchors kAnchor anchorSequence d =
     res_bind (ar_previous anchors (lt_id s) anchorSequence) (\<lambda>prev.
     res_bind (case prev of
         None \<Rightarrow> Inr None
       | Some a \<Rightarrow> if length kAnchor \<noteq> 32 then Inl AnchorKeyLength
                   else if \<not> anchor_verify env kAnchor a then Inl PreviousAnchorInvalid
                   else Inr (Some (an_at a))) (\<lambda>previousAt.
     case ListEvents d of
       Inl e \<Rightarrow> Inl (LedgerFailed e)
     | Inr es \<Rightarrow> res_bind (computeSnapshotObligations env es) (\<lambda>ob. Inr \<lparr>lb_previous = previousAt, lb_obligations = ob\<rparr>)))"

definition forSnapshot :: "lower_bound_source \<Rightarrow> purge_checker \<Rightarrow> string \<Rightarrow> string \<Rightarrow> int anchored" where
  "forSnapshot b purges ledgerID sha =
     (case lb_obligations b sha of
        None \<Rightarrow> Inl (NoLocalEvent sha)
      | Some (n, latest) \<Rightarrow>
          res_bind (px_aggregate purges sha ledgerID) (\<lambda>mirror.
          case mirror of
            None \<Rightarrow> Inl (NoMirrorEvent sha)
          | Some (mirrorCount, mirrorMax) \<Rightarrow>
              if mirrorCount \<noteq> n then Inl (MirrorCountDivergence sha mirrorCount n)
              else if mirrorMax \<noteq> latest then Inl (MirrorMaxDivergence sha)
              else Inr (case lb_previous b of Some t \<Rightarrow> if t > latest then t else latest | None \<Rightarrow> latest)))"

definition purgeAttributionMismatch :: "tombstone \<Rightarrow> ledger_audit \<Rightarrow> int \<Rightarrow> int \<Rightarrow> unit anchored" where
  "purgeAttributionMismatch t e anchoredAt lowerBound =
     (if la_operator e \<noteq> ts_operator t \<or> la_reason e \<noteq> ts_reason t then Inl (Attribution (ts_sha t))
      else if ts_purged_at t > anchoredAt then Inl (PurgedAfterAnchor (ts_sha t))
      else if \<not> ts_purged_at t > lowerBound then Inl (PurgedTooEarly (ts_sha t))
      else Inr ())"

section \<open>Adjudication of purge claims\<close>

record adjudication =
  ad_attesting :: "string \<Rightarrow> ledger_audit option"
  ad_bound :: lower_bound_source
  ad_anchor :: anchor

definition adjudicate_claim ::
  "ledger_store \<Rightarrow> adjudication \<Rightarrow> purge_checker option \<Rightarrow> string \<times> 64 word \<Rightarrow> unit anchored" where
  "adjudicate_claim s a purges claim =
     (let sha = fst claim in
      case ad_attesting a sha of
        None \<Rightarrow> Inl (NotAttested sha)
      | Some entry \<Rightarrow>
          if sint (la_sequence entry) > an_audit_sequence (ad_anchor a) then Inl (NotYetAnchored sha)
          else case purges of
              None \<Rightarrow> Inl (NoPurgeSource sha)
            | Some px \<Rightarrow>
                res_bind (px_record px sha) (\<lambda>rec. case rec of
                    None \<Rightarrow> Inl (NoTombstone sha)
                  | Some t \<Rightarrow>
                      res_bind (forSnapshot (ad_bound a) px (lt_id s) sha) (\<lambda>bound.
                        purgeAttributionMismatch t entry (an_at (ad_anchor a)) bound)))"

text \<open>A row of this ledger that no entry attests fails, unless the schema is declared to be shared.\<close>

definition adjudicate_row ::
  "ledger_store \<Rightarrow> adjudication \<Rightarrow> purge_checker \<Rightarrow> string list \<Rightarrow> string \<Rightarrow> tombstone \<Rightarrow> tombstone list anchored" where
  "adjudicate_row s a px known tenancy t =
     (if ts_sha t \<notin> set known then Inr []
      else case ad_attesting a (ts_sha t) of
          None \<Rightarrow> if tenancy = ''shared'' then Inr [t] else Inl (NotAttested (ts_sha t))
        | Some entry \<Rightarrow>
            if sint (la_sequence entry) > an_audit_sequence (ad_anchor a) then Inl (NotYetAnchored (ts_sha t))
            else res_bind (forSnapshot (ad_bound a) px (lt_id s) (ts_sha t)) (\<lambda>bound.
              res_bind (purgeAttributionMismatch t entry (an_at (ad_anchor a)) bound) (\<lambda>_. Inr [])))"

fun adjudicate_rows ::
  "ledger_store \<Rightarrow> adjudication \<Rightarrow> purge_checker \<Rightarrow> string list \<Rightarrow> string \<Rightarrow> tombstone list \<Rightarrow> tombstone list anchored" where
  "adjudicate_rows s a px known tenancy [] = Inr []"
| "adjudicate_rows s a px known tenancy (t # ts) =
     res_bind (adjudicate_row s a px known tenancy t) (\<lambda>us.
     res_bind (adjudicate_rows s a px known tenancy ts) (\<lambda>vs. Inr (us @ vs)))"

definition adjudicatePurgeClaims ::
  "ledger_env \<Rightarrow> ledger_store \<Rightarrow> (string \<times> 64 word) list \<Rightarrow> anchor \<Rightarrow> anchor_reader \<Rightarrow> string \<Rightarrow> string list
    \<Rightarrow> purge_checker option \<Rightarrow> string \<Rightarrow> ledger_files \<Rightarrow> tombstone list anchored" where
  "adjudicatePurgeClaims env s claims latest anchors kAnchor known purges tenancy d =
     (if claims = [] \<and> purges = None then Inr []
      else
        res_bind (attestingAuditEntries d) (\<lambda>attesting.
        res_bind (loadPurgeLowerBoundSource env s anchors kAnchor (an_sequence latest) d) (\<lambda>bound.
        let a = \<lparr>ad_attesting = attesting, ad_bound = bound, ad_anchor = latest\<rparr> in
        res_bind (first_err (adjudicate_claim s a purges) claims) (\<lambda>_.
        case purges of
          None \<Rightarrow> Inr []
        | Some px \<Rightarrow> res_bind (px_all px) (adjudicate_rows s a px known tenancy)))))"

definition reportOutOfScopePurgeRecords :: "string list \<Rightarrow> purge_checker option \<Rightarrow> tombstone list anchored" where
  "reportOutOfScopePurgeRecords known purges =
     (case purges of
        None \<Rightarrow> Inr []
      | Some px \<Rightarrow> res_bind (px_all px) (\<lambda>all. Inr (filter (\<lambda>t. ts_sha t \<notin> set known) all)))"

section \<open>Verification against the newest anchor\<close>

record anchored_report =
  av_report :: verify_report
  av_status :: string
  av_sequence :: int
  av_mode :: string
  av_out_of_scope :: "tombstone list"
  av_checked :: string
  av_shared :: "tombstone list"

text \<open>An error carries the status that the code reports with it.\<close>

type_synonym 'a with_status = "(string \<times> anchor_error, 'a) result"

definition plainly :: "'a anchored \<Rightarrow> 'a with_status" where
  "plainly r = (case r of Inl e \<Rightarrow> Inl ([], e) | Inr x \<Rightarrow> Inr x)"

definition failing :: "'a anchored \<Rightarrow> 'a with_status" where
  "failing r = (case r of Inl e \<Rightarrow> Inl (''failed'', e) | Inr x \<Rightarrow> Inr x)"

definition in_ledger :: "(ledger_error, 'a) result \<Rightarrow> 'a anchored" where
  "in_ledger r = (case r of Inl e \<Rightarrow> Inl (LedgerFailed e) | Inr x \<Rightarrow> Inr x)"

definition anchor_mode :: "anchor_options \<Rightarrow> string" where
  "anchor_mode ao = (if ao_mode ao = [] then ''anchored'' else ao_mode ao)"

definition deferred_options :: "anchor_options \<Rightarrow> verify_options" where
  "deferred_options ao = \<lparr>vo_policy = ao_policy ao, vo_mode = ao_mode ao, vo_purges = (ao_purges ao \<noteq> None), vo_defer = True\<rparr>"

definition base_report :: "verify_report \<Rightarrow> anchor_options \<Rightarrow> anchored_report" where
  "base_report r ao = \<lparr>av_report = r, av_status = [], av_sequence = 0, av_mode = anchor_mode ao, av_out_of_scope = [],
     av_checked = [], av_shared = []\<rparr>"

text \<open>The checks on the row itself.\<close>

definition check_anchor_row :: "ledger_env \<Rightarrow> anchor_options \<Rightarrow> anchor \<Rightarrow> unit with_status" where
  "check_anchor_row env ao a =
     (let floor = vp_min_anchor (ao_policy ao) in
      if length (ao_key ao) \<noteq> 32 then Inl ([], AnchorKeyLength)
      else if \<not> anchor_verify env (ao_key ao) a then Inl (''failed'', AnchorMacInvalid)
      else if ao_policy_sha ao \<noteq> [] \<and> an_policy a \<noteq> ao_policy_sha ao then Inl (''failed'', AnchorPolicyMismatch)
      else if floor > 0 \<and> an_sequence a < sint floor then Inl (''failed'', AnchorBelowFloor (an_sequence a) floor)
      else Inr ())"

text \<open>The chain at the anchored sequence; \<open>head\<close> is the verified head, \<open>at\<close> reads an older entry.\<close>

definition check_chain_at ::
  "chain \<Rightarrow> ledger_head \<Rightarrow> (64 word \<Rightarrow> (ledger_error, string) result) \<Rightarrow> int \<Rightarrow> string \<Rightarrow> unit with_status" where
  "check_chain_at c head at sequence digest =
     (if sequence > sint (lh_sequence head) then Inl (''failed'', ChainBehindAnchor c)
      else
        res_bind (if sequence \<noteq> sint (lh_sequence head) then plainly (in_ledger (at (of_int sequence))) else Inr (lh_sha head)) (\<lambda>found.
        if found \<noteq> digest then Inl (''failed'', ChainDisagrees c) else Inr ()))"

definition check_against_anchor :: "ledger_env \<Rightarrow> anchor_options \<Rightarrow> verify_report \<Rightarrow> anchor \<Rightarrow> ledger_files \<Rightarrow> unit with_status" where
  "check_against_anchor env ao r a d =
     res_bind (check_anchor_row env ao a) (\<lambda>_.
     res_bind (check_chain_at Events (rp_head r) (\<lambda>n. res_bind (eventAtSequence n d) (\<lambda>e. Inr (le_sha e))) (an_sequence a) (an_event a)) (\<lambda>_.
     check_chain_at Audits (rp_audit_head r) (\<lambda>n. res_bind (auditEntryAtSequence n d) (\<lambda>e. Inr (la_sha e))) (an_audit_sequence a) (an_audit a)))"

definition check_tenancy :: "ledger_store \<Rightarrow> anchor_options \<Rightarrow> unit with_status" where
  "check_tenancy s ao =
     (case ao_purges ao of
        Some px \<Rightarrow>
          if vp_tenancy (ao_policy ao) = ''exclusive'' then
            res_bind (failing (px_foreign px (lt_id s))) (\<lambda>foreign. if foreign \<noteq> [] then Inl (''failed'', ForeignLedgers foreign) else Inr ())
          else Inr ()
      | None \<Rightarrow> Inr ())"

text \<open>With a row found: the cross-check, the adjudication in anchored mode, and the report of foreign rows in every mode.\<close>

definition verify_with_anchor ::
  "ledger_env \<Rightarrow> ledger_store \<Rightarrow> anchor_options \<Rightarrow> anchor_reader \<Rightarrow> verify_report \<Rightarrow> anchor \<Rightarrow> ledger_files \<Rightarrow> anchored_report with_status" where
  "verify_with_anchor env s ao anchors r a d =
     res_bind (check_against_anchor env ao r a d) (\<lambda>_.
     res_bind (if anchor_mode ao = ''anchored'' then
                 res_bind (check_tenancy s ao) (\<lambda>_.
                 res_bind (failing (adjudicatePurgeClaims env s (rp_claims r) a anchors (ao_key ao) (rp_known r) (ao_purges ao)
                   (vp_tenancy (ao_policy ao)) d)) (\<lambda>shared.
                 Inr (shared, rp_performed r + length (rp_claims r))))
               else Inr ([], rp_performed r)) (\<lambda>(shared, performed).
     res_bind (failing (reportOutOfScopePurgeRecords (rp_known r) (ao_purges ao))) (\<lambda>reported.
     Inr ((base_report (r\<lparr>rp_performed := performed\<rparr>) ao)
       \<lparr>av_status := ''verified'', av_sequence := an_sequence a, av_out_of_scope := reported,
        av_checked := (if reported \<noteq> [] then ''checked-with-findings'' else ''checked-clean''), av_shared := shared\<rparr>))))"

definition verify_after_policy ::
  "ledger_env \<Rightarrow> ledger_store \<Rightarrow> anchor_options \<Rightarrow> verify_report \<Rightarrow> ledger_files \<Rightarrow> anchored_report with_status" where
  "verify_after_policy env s ao r d =
     (let mode = anchor_mode ao; base = base_report r ao in
      if mode \<noteq> ''anchored'' \<and> mode \<noteq> ''historical-unanchored'' then Inl ([], BadMode mode)
      else case ao_anchors ao of
          None \<Rightarrow> if mode = ''historical-unanchored'' then Inr (base\<lparr>av_status := ''unavailable''\<rparr>) else Inl ([], NoAnchorReader)
        | Some anchors \<Rightarrow>
            (case ao_provisioning ao of
               None \<Rightarrow> Inl ([], NoProvisioningReader)
             | Some state \<Rightarrow>
                 res_bind (plainly state) (\<lambda>(provisioned, reason).
                 if \<not> provisioned then Inl (''failed'', NotProvisioned reason)
                 else
                   res_bind (plainly (ar_latest anchors (lt_id s))) (\<lambda>found.
                   case found of
                     None \<Rightarrow>
                       if vp_min_anchor (ao_policy ao) \<ge> 1 then Inl (''failed'', AnchorsWiped (vp_min_anchor (ao_policy ao)))
                       else if mode = ''historical-unanchored'' \<or> ao_allow_genesis ao then Inr (base\<lparr>av_status := ''absent''\<rparr>)
                       else Inl ([], GenesisRequired)
                   | Some a \<Rightarrow> verify_with_anchor env s ao anchors r a d))))"

definition VerifyAnchored ::
  "ledger_env \<Rightarrow> ledger_store \<Rightarrow> anchor_options \<Rightarrow> (ledger_path, ledger_file, string \<times> anchor_error, anchored_report) prog" where
  "VerifyAnchored env s ao d =
     (case VerifyPolicy env s (deferred_options ao) d of
        (ws, Inl e) \<Rightarrow> (ws, Inl ([], LedgerFailed e))
      | (ws, Inr r) \<Rightarrow> (ws, verify_after_policy env s ao r (apply_writes ws d)))"

section \<open>Shortfalls of the mirror\<close>

text \<open>
  A count divergence may be deferred exactly when the events missing from the mirror are as many as the shortfall and
  none of them is marked as replicated.
\<close>

fun missing_events :: "string \<Rightarrow> string list \<Rightarrow> ledger_files \<Rightarrow> ledger_event list \<Rightarrow> string list \<Rightarrow> bool \<times> string list" where
  "missing_events sha mirrored d [] missing = (True, missing)"
| "missing_events sha mirrored d (e # es) missing =
     (if le_request_snapshot e \<noteq> sha \<and> le_response_snapshot e \<noteq> sha \<or> le_id e \<in> set mirrored
      then missing_events sha mirrored d es missing
      else if IsReplicated (le_id e) d then (False, missing @ [le_id e])
      else missing_events sha mirrored d es (missing @ [le_id e]))"

definition ShortfallExplained ::
  "(string \<Rightarrow> string \<Rightarrow> string list anchored) \<Rightarrow> ledger_store \<Rightarrow> string \<Rightarrow> int \<Rightarrow> int \<Rightarrow> ledger_files \<Rightarrow> (bool \<times> string list) anchored" where
  "ShortfallExplained mirrored_ids s sha mirrorCount chainCount d =
     (if mirrorCount \<ge> chainCount then Inr (False, [])
      else
        res_bind (in_ledger (ListEvents d)) (\<lambda>es.
        res_bind (mirrored_ids sha (lt_id s)) (\<lambda>mirrored.
        case missing_events sha mirrored d es [] of
          (False, missing) \<Rightarrow> Inr (False, missing)
        | (True, missing) \<Rightarrow> Inr (missing \<noteq> [] \<and> int (length missing) = chainCount - mirrorCount, missing))))"

end
