(* ===== verification/LedgerRetention.thy ===== *)
theory LedgerRetention imports LedgerAnchor begin

text \<open>
  Retention and export of the screening ledger (\<^verbatim>\<open>replay.go\<close>): \<open>PurgeExpired\<close>, which blanks the snapshots whose events have
  all expired, and \<open>ExportBundle\<close>. The retention table that records a purge is a function, the order in which
  a map is traversed an argument; writing the archive is not modelled, its contents are the result.
\<close>

section \<open>Which snapshots may be purged\<close>

text \<open>A snapshot an event refers to twice is listed with the event twice.\<close>

definition snapshot_keys :: "ledger_event list \<Rightarrow> string list" where
  "snapshot_keys es = remdups (concat (map (\<lambda>e. [le_request_snapshot e, le_response_snapshot e]) es))"

definition references :: "string \<Rightarrow> ledger_event list \<Rightarrow> ledger_event list" where
  "references sha es = concat (map (\<lambda>e. map (\<lambda>_. e) (filter ((=) sha) [le_request_snapshot e, le_response_snapshot e])) es)"

definition held :: "string \<Rightarrow> ledger_files \<Rightarrow> bool" where
  "held i d \<longleftrightarrow> fmlookup d (LedgerHoldFile i) \<noteq> None"

definition released :: "ledger_env \<Rightarrow> int \<Rightarrow> ledger_files \<Rightarrow> ledger_event \<Rightarrow> bool" where
  "released env now d e \<longleftrightarrow>
     \<not> held (le_id e) d \<and> (case lx_time env (le_expires e) of None \<Rightarrow> False | Some t \<Rightarrow> \<not> now < t)"

fun eligible_snapshots ::
  "ledger_env \<Rightarrow> int \<Rightarrow> ledger_event list \<Rightarrow> ledger_files \<Rightarrow> string list \<Rightarrow> (ledger_error, string list) result" where
  "eligible_snapshots env now es d [] = Inr []"
| "eligible_snapshots env now es d (sha # shas) =
     (if \<not> list_all (released env now d) (references sha es) then eligible_snapshots env now es d shas
      else res_bind (LoadSnapshot sha d) (\<lambda>x.
        if ls_purged x \<noteq> [] then eligible_snapshots env now es d shas
        else res_bind (eligible_snapshots env now es d shas) (\<lambda>rest. Inr (sha # rest))))"

section \<open>Purging\<close>

datatype purge_error = NoRecorder | SharedTenancy | UnknownTenancy string | PurgeFailed anchor_error

text \<open>An error comes with the number of snapshots purged before it.\<close>

type_synonym 'a purge_prog = "(ledger_path, ledger_file, nat \<times> purge_error, 'a) prog"

type_synonym purge_recorder = "string list \<Rightarrow> obligations \<Rightarrow> string \<Rightarrow> string \<Rightarrow> string \<Rightarrow> string list anchored"

definition counted :: "nat \<Rightarrow> 'a anchored \<Rightarrow> (nat \<times> purge_error, 'a) result" where
  "counted n r = map_error (\<lambda>e. (n, PurgeFailed e)) r"

definition purged_envelope :: "ledger_env \<Rightarrow> int \<Rightarrow> string \<Rightarrow> snapshot_envelope \<Rightarrow> snapshot_envelope" where
  "purged_envelope env now reason x =
     x\<lparr>ls_ciphertext := [], ls_nonce := [], ls_purged := lx_format env now, ls_reason := reason\<rparr>"

fun purge_loop ::
  "ledger_env \<Rightarrow> int \<Rightarrow> string \<Rightarrow> string list \<Rightarrow> string list \<Rightarrow> string list \<Rightarrow> string list purge_prog" where
  "purge_loop env now reason recorded [] purged = ret purged"
| "purge_loop env now reason recorded (sha # shas) purged =
     (if sha \<notin> set recorded then purge_loop env now reason recorded shas purged
      else
        andThen (readp (\<lambda>d. counted (length purged) (in_ledger (LoadSnapshot sha d)))) (\<lambda>x.
        andThen (writep (Put (snapshot_path sha) (LSnapshot (purged_envelope env now reason x)))) (\<lambda>_.
        purge_loop env now reason recorded shas (purged @ [sha]))))"

definition purge_details :: "string list \<Rightarrow> json" where
  "purge_details shas = JObj [(''snapshot_sha256'', JArr (map JStr shas))]"

text \<open>\<open>order\<close> is the order in which the map of references is traversed, \<open>at\<close> the reading of the clock by \<open>AppendAudit\<close>.\<close>

definition PurgeExpired ::
  "ledger_env \<Rightarrow> ledger_store \<Rightarrow> (ledger_event list \<Rightarrow> string list) \<Rightarrow> purge_recorder option \<Rightarrow> int \<Rightarrow> string \<Rightarrow> string \<Rightarrow> string \<Rightarrow> string
    \<Rightarrow> nat purge_prog" where
  "PurgeExpired env s order recorder now operator reason tenancy at =
     (case recorder of
        None \<Rightarrow> failp (0, NoRecorder)
      | Some record \<Rightarrow>
          if tenancy = ''shared'' then failp (0, SharedTenancy)
          else if tenancy \<noteq> ''exclusive'' then failp (0, UnknownTenancy tenancy)
          else
            andThen (readp (\<lambda>d. counted 0 (in_ledger (ListEvents d)))) (\<lambda>es.
            andThen (readp (\<lambda>d. counted 0 (in_ledger (eligible_snapshots env now es d (order es))))) (\<lambda>eligible.
            andThen (readp (\<lambda>_. counted 0 (computeSnapshotObligations env es))) (\<lambda>obligations.
            andThen (readp (\<lambda>_. counted 0 (record eligible obligations (lt_id s) operator reason))) (\<lambda>recorded.
            andThen (purge_loop env now reason recorded eligible []) (\<lambda>purged.
            andThen (lift_errors (\<lambda>e. (length purged, PurgeFailed (LedgerFailed e)))
                      (AppendAudit env s at ''purge_expired'' operator reason [] (Some (purge_details (sort purged))))) (\<lambda>_.
            ret (length purged))))))))"

section \<open>Export\<close>

record bundle_manifest =
  bm_schema :: string
  bm_event :: string
  bm_mode :: string
  bm_created :: string
  bm_files :: "(string \<times> string) list"
  bm_sha :: string

definition bundle_manifest_json :: "bundle_manifest \<Rightarrow> json" where
  "bundle_manifest_json m = JObj (fld ''schema_version'' (JStr (bm_schema m)) @ fld ''event_id'' (JStr (bm_event m))
     @ fld ''mode'' (JStr (bm_mode m)) @ fld ''created_at'' (JStr (bm_created m))
     @ fld ''files'' (JObj (map (\<lambda>(n, h). (n, JStr h)) (bm_files m))) @ fld ''bundle_sha256'' (JStr (bm_sha m)))"

datatype bundle_error = Unverified anchor_error | BundleMode string | BundleFailed ledger_error

definition bundle_evidence ::
  "ledger_env \<Rightarrow> ledger_store \<Rightarrow> string \<Rightarrow> retention_policy \<Rightarrow> string \<Rightarrow> ledger_files \<Rightarrow> (ledger_error, string) result" where
  "bundle_evidence env s mode policy sha d =
     res_bind (DecryptSnapshot env s sha d) (\<lambda>text.
       if mode = ''redacted'' then RedactJSON env text policy (ck_redact (lt_keys s)) else Inr text)"

text \<open>The files of a bundle in the order of their names. Both snapshots are decrypted before either is redacted.\<close>

definition bundle_files ::
  "ledger_env \<Rightarrow> ledger_store \<Rightarrow> string \<Rightarrow> retention_policy \<Rightarrow> string \<Rightarrow> ledger_files \<Rightarrow> (ledger_error, (string \<times> string) list) result" where
  "bundle_files env s mode policy i d =
     res_bind (GetEvent i d) (\<lambda>e.
     res_bind (DecryptSnapshot env s (le_request_snapshot e) d) (\<lambda>_.
     res_bind (DecryptSnapshot env s (le_response_snapshot e) d) (\<lambda>_.
     res_bind (bundle_evidence env s mode policy (le_request_snapshot e) d) (\<lambda>request.
     res_bind (bundle_evidence env s mode policy (le_response_snapshot e) d) (\<lambda>response.
     Inr ((case fmlookup d LedgerAuditHeadFile of None \<Rightarrow> [] | Some c \<Rightarrow> [(''audit-head.json'', file_bytes c)])
       @ [(''event.json'', marshal (ledger_event_json e)), (''request.json'', request), (''response.json'', response)]))))))"

definition bundle_of :: "ledger_env \<Rightarrow> string \<Rightarrow> string \<Rightarrow> string \<Rightarrow> (string \<times> string) list \<Rightarrow> bundle_manifest" where
  "bundle_of env created mode i files =
     \<lparr>bm_schema = ''openwatchlist.screening-audit-bundle.v1'', bm_event = i, bm_mode = mode, bm_created = created,
      bm_files = map (\<lambda>(n, c). (n, lx_sha env c)) files,
      bm_sha = lx_sha env (concat (map (\<lambda>(n, c). n @ [CHR 0x0A] @ c @ [CHR 0x0A]) files))\<rparr>"

text \<open>The audit entry is written after the archive; that it cannot be written is not reported.\<close>

definition best_effort :: "('p, 'c, 'e, 'a) prog \<Rightarrow> ('p, 'c, 'f, unit) prog" where
  "best_effort p d = (fst (p d), Inr ())"

definition ExportBundle ::
  "ledger_env \<Rightarrow> ledger_store \<Rightarrow> unit anchored \<Rightarrow> string \<Rightarrow> string \<Rightarrow> string \<Rightarrow> string \<Rightarrow> retention_policy
    \<Rightarrow> (ledger_path, ledger_file, bundle_error, bundle_manifest \<times> (string \<times> string) list) prog" where
  "ExportBundle env s verified now at i mode policy =
     andThen (readp (\<lambda>_. map_error Unverified verified)) (\<lambda>_.
     if mode \<noteq> ''redacted'' \<and> mode \<noteq> ''internal'' then failp (BundleMode mode)
     else
       andThen (readp (\<lambda>d. map_error BundleFailed (bundle_files env s mode policy i d))) (\<lambda>files.
       let m = bundle_of env now mode i files in
       andThen (best_effort (AppendAudit env s at ''export_bundle'' [] [] i
         (Some (JObj [(''bundle_sha256'', JStr (bm_sha m)), (''mode'', JStr mode)])))) (\<lambda>_.
       ret (m, files @ [(''manifest.json'', marshal (bundle_manifest_json m))]))))"

end
