(* ===== verification/LedgerProofs.thy ===== *)
theory LedgerProofs imports Ledger begin

text \<open>
  The screening ledger: names and listings of files, what a successful walk over a chain means, the
  reachable directories and their invariant.
\<close>

section \<open>Names\<close>

lemma HasPrefix_append [simp]: "HasPrefix (p @ s) p"
  by (induction p) (auto)

lemma HasSuffix_append [simp]: "HasSuffix (s @ p) p"
  by (simp add: HasSuffix_def)

lemma json_names_set:
  "set (json_names name_of d) = {n. HasSuffix n ''.json'' \<and> (\<exists>p c. name_of p = Some n \<and> fmlookup d p = Some c)}"
  unfolding json_names_def by (auto simp: image_iff fmlookup_dom_iff Bex_def)

lemma json_names_sorted [simp]: "sorted (json_names name_of d)" "distinct (json_names name_of d)"
  by (simp_all add: json_names_def sorted_list_of_fset.rep_eq sorted_wrt_filter)

lemma event_name_Some [simp]: "event_name p = Some n \<longleftrightarrow> p = LedgerEventFile n"
  by (cases p) auto

lemma audit_file_named [simp]: "audit_name p = Some n \<longleftrightarrow> p = LedgerAuditFile n"
  by (cases p) auto

lemma event_paths_set: "set (event_paths d) = {LedgerEventFile n |n c. HasSuffix n ''.json'' \<and> fmlookup d (LedgerEventFile n) = Some c}"
  by (auto simp: event_paths_def json_names_set)

lemma audit_paths_set: "set (audit_paths d) = {LedgerAuditFile n |n c. HasSuffix n ''.json'' \<and> fmlookup d (LedgerAuditFile n) = Some c}"
  by (auto simp: audit_paths_def json_names_set)

lemma paths_distinct [simp]: "distinct (event_paths d)" "distinct (audit_paths d)"
  by (simp_all add: event_paths_def audit_paths_def distinct_map inj_on_def)

lemma event_path_inj [simp]: "event_path i = event_path j \<longleftrightarrow> i = j"
  by (simp add: event_path_def)

lemma snapshot_path_inj [simp]: "snapshot_path i = snapshot_path j \<longleftrightarrow> i = j"
  by (simp add: snapshot_path_def)

text \<open>The listings depend on their directory only.\<close>

lemma json_names_cong:
  assumes "\<And>p n. name_of p = Some n \<Longrightarrow> fmlookup d p = fmlookup d' p"
  shows "json_names name_of d = json_names name_of d'"
  using assms by (intro sorted_distinct_set_unique) (auto simp: json_names_set)

section \<open>Padded numbers\<close>

lemma digit_ch_less: "a < 10 \<Longrightarrow> b < 10 \<Longrightarrow> digit_ch a < digit_ch b \<longleftrightarrow> a < b"
  unfolding digit_ch_def byte_def by (simp add: less_char_def of_char_of take_bit_nat_eq_self)

lemma length_padded [simp]: "length (padded w n) = w"
  by (induction w arbitrary: n) auto

lemma padded_less: "m < n \<Longrightarrow> n < 10 ^ w \<Longrightarrow> padded w m @ x < padded w n @ y"
proof (induction w arbitrary: m n)
  case (Suc w)
  have q: "m div 10 ^ w < 10" "n div 10 ^ w < 10"
    using Suc.prems by (auto simp: less_mult_imp_div_less mult.commute)
  have le: "m div 10 ^ w \<le> n div 10 ^ w"
    using Suc.prems(1) by (simp add: div_le_mono)
  show ?case
  proof (cases "m div 10 ^ w = n div 10 ^ w")
    case True
    then have "m mod 10 ^ w < n mod 10 ^ w"
      using Suc.prems(1) by (metis add_left_cancel div_mult_mod_eq nat_add_left_cancel_less)
    then show ?thesis
      using Suc.IH [of "m mod 10 ^ w" "n mod 10 ^ w"] True by simp
  next
    case False
    then have "digit_ch (m div 10 ^ w) < digit_ch (n div 10 ^ w)"
      using q le by (simp add: digit_ch_less)
    then show ?thesis
      by simp
  qed
qed simp

lemma audit_file_name_less: "la_sequence e < la_sequence f \<Longrightarrow> audit_file_name e < audit_file_name f"
proof -
  assume "la_sequence e < la_sequence f"
  then have "unat (la_sequence e) < unat (la_sequence f)"
    by (simp add: word_less_nat_alt)
  moreover have "unat (la_sequence f) < 2 ^ LENGTH(64)"
    by (rule unsigned_less)
  then have "unat (la_sequence f) < 10 ^ 20"
    by simp
  ultimately show ?thesis
    unfolding audit_file_name_def by (rule padded_less)
qed

lemma audit_file_name_suffix [simp]: "HasSuffix (audit_file_name e) ''.json''"
  by (metis HasSuffix_append append.assoc audit_file_name_def)

section \<open>Walking the event chain\<close>

definition unsealed :: "ledger_event \<Rightarrow> ledger_event" where
  "unsealed e = e\<lparr>le_sha := []\<rparr>"

text \<open>The digest an unsealed event must carry at its position.\<close>

definition event_hash :: "ledger_env \<Rightarrow> ledger_store \<Rightarrow> verification_policy \<Rightarrow> ledger_event \<Rightarrow> string" where
  "event_hash env s policy e =
     (if le_sequence e < vp_genesis_event policy then legacyHashEvent env e else hashEvent env (ck_chain (lt_keys s)) e)"

abbreviation "ledger_chain env s policy \<equiv>
  chain_ok le_sequence le_previous le_sha (\<lambda>e. event_hash env s policy (unsealed e))"

interpretation ledger_log: hash_chain le_sequence le_previous le_sha unsealed "\<lambda>h e. e\<lparr>le_sha := h\<rparr>" "event_hash env s policy"
  for env s policy
proof unfold_locales
  fix e f :: ledger_event
  assume "unsealed e = unsealed f" "le_sha e = le_sha f"
  moreover have "g = unsealed g\<lparr>le_sha := le_sha g\<rparr>" for g
    by (simp add: unsealed_def)
  ultimately show "e = f"
    by metis
qed (simp_all add: unsealed_def)

lemma hash_unsealed [simp]:
  "legacyHashEvent env (unsealed e) = legacyHashEvent env e" "hashEvent env k (unsealed e) = hashEvent env k e"
  "le_sequence (unsealed e) = le_sequence e"
  by (simp_all add: unsealed_def legacyHashEvent_def hashEvent_def)

lemma event_hash_unsealed [simp]: "event_hash env s policy (unsealed e) = event_hash env s policy e"
  by (simp add: event_hash_def)

lemma position_digest_ok: "position_digest c genesis m ordinal v1 v2 legacy keyed schema n e = Inr x \<longleftrightarrow>
    (if n < genesis then schema = v1 \<and> x = legacy e else schema = v2 \<and> (\<exists>k. ordinal schema = Some k \<and> m \<le> k) \<and> x = keyed e)"
  by (auto simp: position_digest_def split: option.splits)

lemma event_digest_ok: "event_digest_at env s policy m e = Inr x \<longleftrightarrow>
    x = event_hash env s policy e \<and> (if le_sequence e < vp_genesis_event policy then le_schema e = EventSchemaV1
       else le_schema e = EventSchemaV2 \<and> m \<le> 2)"
  by (auto simp: event_digest_at_def position_digest_ok event_hash_def eventSchemaOrdinal_def schema_names)

text \<open>What every entry of a verified chain satisfies besides its links.\<close>

definition entry_ok :: "ledger_env \<Rightarrow> ledger_store \<Rightarrow> verify_options \<Rightarrow> nat \<Rightarrow> ledger_files \<Rightarrow> ledger_event \<Rightarrow> bool" where
  "entry_ok env s vo m d e \<longleftrightarrow>
     (let policy = vo_policy vo in
      (if le_sequence e < vp_genesis_event policy then le_schema e = EventSchemaV1 else le_schema e = EventSchemaV2 \<and> m \<le> 2)
      \<and> (vp_genesis_event policy > 1 \<and> le_sequence e = vp_genesis_event policy - 1 \<longrightarrow> le_sha e = vp_event_pin policy)
      \<and> (\<forall>sha \<in> {le_request_snapshot e, le_response_snapshot e}.
            is_ok (verifySnapshotChecked env s (modeOrDefault vo) (vo_purges vo) sha (le_sequence e) d)))"

lemma is_ok_bind: "is_ok (res_bind r f) \<longleftrightarrow> (\<exists>x. r = Inr x \<and> is_ok (f x))"
  by (cases r) auto

lemma is_ok_if: "is_ok (if b then Inl e else r) \<longleftrightarrow> \<not> b \<and> is_ok r"
  by simp

lemmas ok_simps = is_ok_bind is_ok_if is_ok.simps

lemma check_snapshots_ok:
  "is_ok (check_snapshots env s mode p n d shas w) \<longleftrightarrow> (\<forall>sha \<in> set shas. is_ok (verifySnapshotChecked env s mode p sha n d))"
proof (induction shas arbitrary: w)
  case (Cons sha shas)
  show ?case
    by (cases "verifySnapshotChecked env s mode p sha n d") (auto simp: Cons.IH simp del: res_bind_Inr split: prod.splits)
qed simp

lemma check_snapshots_keeps:
  "check_snapshots env s mode p n d shas w = Inr w' \<Longrightarrow> ew_last w' = ew_last w \<and> ew_previous w' = ew_previous w
     \<and> ew_pinned w' = ew_pinned w \<and> ew_frozen w' = ew_frozen w \<and> set (ew_known w') = set shas \<union> set (ew_known w)
     \<and> ew_total w' = ew_total w + length shas"
proof (induction shas arbitrary: w)
  case (Cons sha shas)
  then obtain r where v: "verifySnapshotChecked env s mode p sha n d = Inr r"
    by auto
  show ?case
    using Cons.prems Cons.IH by (cases r) (fastforce simp: v)
qed simp

lemma check_event_ok:
  "is_ok (check_event env s vo m d i e w) \<longleftrightarrow>
     le_sequence e = of_nat (Suc i) \<and> le_previous e = ew_previous w \<and> event_hash env s (vo_policy vo) e = le_sha e \<and> entry_ok env s vo m d e"
proof -
  have chain: "is_ok (if a then Inl x else if b then Inl y else res_bind D (\<lambda>digest. if digest \<noteq> q then Inl z else if l \<and> g then Inl u else r))
      \<longleftrightarrow> \<not> a \<and> \<not> b \<and> D = Inr q \<and> (l \<longrightarrow> \<not> g) \<and> is_ok r" for a b l g x y z u q D r
    by (cases D) auto
  have rest: "is_ok (res_bind (check_snapshots env s mode p n d shas w) (\<lambda>w. Inr (f w)))
      \<longleftrightarrow> (\<forall>sha \<in> set shas. is_ok (verifySnapshotChecked env s mode p sha n d))" for w and f :: "event_walk \<Rightarrow> event_walk" and mode p n shas
    by (simp add: is_ok_bind is_ok_iff [symmetric] check_snapshots_ok)
  show ?thesis
    unfolding check_event_def entry_ok_def Let_def chain rest event_digest_ok
    by (simp add: eq_commute [of "le_sha e" "event_hash env s (vo_policy vo) e"])
qed

lemma check_event_result:
  assumes "check_event env s vo m d i e w = Inr w'"
  shows "ew_last w' = event_head s e" "ew_previous w' = le_sha e"
    "ew_pinned w' \<longleftrightarrow> ew_pinned w \<or> vp_genesis_event (vo_policy vo) > 1 \<and> le_sequence e = vp_genesis_event (vo_policy vo) - 1"
    "ew_frozen w' = (if le_sequence e < vp_genesis_event (vo_policy vo) then Suc i else ew_frozen w)"
    "set (ew_known w') = {le_request_snapshot e, le_response_snapshot e} \<union> set (ew_known w)"
proof -
  obtain w1 where w1: "check_snapshots env s (modeOrDefault vo) (vo_purges vo) (le_sequence e) d
      [le_request_snapshot e, le_response_snapshot e]
      (w\<lparr>ew_pinned := ew_pinned w \<or> vp_genesis_event (vo_policy vo) > 1 \<and> le_sequence e = vp_genesis_event (vo_policy vo) - 1,
         ew_frozen := if le_sequence e < vp_genesis_event (vo_policy vo) then Suc i else ew_frozen w\<rparr>) = Inr w1"
    and w': "w' = w1\<lparr>ew_previous := le_sha e, ew_last := event_head s e\<rparr>"
    using assms by (auto simp: check_event_def Let_def simp del: check_snapshots.simps split: if_splits)
  show "ew_last w' = event_head s e" "ew_previous w' = le_sha e"
    "ew_pinned w' \<longleftrightarrow> ew_pinned w \<or> vp_genesis_event (vo_policy vo) > 1 \<and> le_sequence e = vp_genesis_event (vo_policy vo) - 1"
    "ew_frozen w' = (if le_sequence e < vp_genesis_event (vo_policy vo) then Suc i else ew_frozen w)"
    "set (ew_known w') = {le_request_snapshot e, le_response_snapshot e} \<union> set (ew_known w)"
    using check_snapshots_keeps [OF w1] by (simp_all add: w')
qed

lemma walk_events_ok:
  "is_ok (walk_events env s vo m d i es w) \<longleftrightarrow>
     ledger_chain env s (vo_policy vo) i (ew_previous w) es \<and> (\<forall>e \<in> set es. entry_ok env s vo m d e)"
proof (induction es arbitrary: i w)
  case (Cons e es)
  show ?case
  proof (cases "check_event env s vo m d i e w")
    case (Inl x)
    then have "\<not> is_ok (check_event env s vo m d i e w)"
      by simp
    then show ?thesis
      unfolding check_event_ok using Inl by auto
  next
    case (Inr w')
    then have "is_ok (check_event env s vo m d i e w)"
      by simp
    then show ?thesis
      unfolding check_event_ok using Inr Cons.IH [of "Suc i" w'] check_event_result(2) [OF Inr] by simp
  qed
qed simp

lemma walk_events_results:
  "walk_events env s vo m d i es w = Inr w' \<Longrightarrow>
     ew_last w' = (if es = [] then ew_last w else event_head s (last es))
     \<and> (ew_pinned w' \<longleftrightarrow> ew_pinned w \<or> (\<exists>e \<in> set es. vp_genesis_event (vo_policy vo) > 1 \<and> le_sequence e = vp_genesis_event (vo_policy vo) - 1))
     \<and> set (ew_known w') = (\<Union>e \<in> set es. {le_request_snapshot e, le_response_snapshot e}) \<union> set (ew_known w)"
proof (induction es arbitrary: i w)
  case (Cons e es)
  then obtain w1 where w1: "check_event env s vo m d i e w = Inr w1" "walk_events env s vo m d (Suc i) es w1 = Inr w'"
    by (auto simp del: vimage_Un)
  show ?case
    using Cons.IH [OF w1(2)] check_event_result [OF w1(1)] by auto
qed simp

lemmas walk_events_result = walk_events_results [THEN conjunct1] walk_events_results [THEN conjunct2, THEN conjunct1]
  walk_events_results [THEN conjunct2, THEN conjunct2]

text \<open>When every snapshot can be decrypted nothing is claimed to be purged.\<close>

lemma check_snapshots_performed:
  "(\<And>sha. sha \<in> set shas \<Longrightarrow> verifySnapshotChecked env s mode p sha n d = Inr (True, None)) \<Longrightarrow>
   check_snapshots env s mode p n d shas w = Inr w' \<Longrightarrow>
     ew_claims w' = ew_claims w \<and> ew_performed w' = ew_performed w + length shas \<and> ew_total w' = ew_total w + length shas"
  by (induction shas arbitrary: w) auto

lemma check_event_performed:
  assumes "\<And>sha. sha \<in> {le_request_snapshot e, le_response_snapshot e}
      \<Longrightarrow> verifySnapshotChecked env s (modeOrDefault vo) (vo_purges vo) sha (le_sequence e) d = Inr (True, None)"
    and "check_event env s vo m d i e w = Inr w'"
  shows "ew_claims w' = ew_claims w \<and> ew_performed w' = ew_performed w + 2 \<and> ew_total w' = ew_total w + 2"
proof -
  obtain w0 w1 where w1: "check_snapshots env s (modeOrDefault vo) (vo_purges vo) (le_sequence e) d
      [le_request_snapshot e, le_response_snapshot e] w0 = Inr w1"
    and w: "ew_claims w0 = ew_claims w" "ew_performed w0 = ew_performed w" "ew_total w0 = ew_total w"
      "ew_claims w' = ew_claims w1" "ew_performed w' = ew_performed w1" "ew_total w' = ew_total w1"
    using assms(2) by (fastforce simp: check_event_def Let_def simp del: check_snapshots.simps split: if_splits)
  show ?thesis
    using check_snapshots_performed [OF _ w1] assms(1) w by simp
qed

lemma walk_events_performed:
  assumes "\<And>e sha. e \<in> set es \<Longrightarrow> sha \<in> {le_request_snapshot e, le_response_snapshot e}
      \<Longrightarrow> verifySnapshotChecked env s (modeOrDefault vo) (vo_purges vo) sha (le_sequence e) d = Inr (True, None)"
    and "walk_events env s vo m d i es w = Inr w'"
  shows "ew_claims w' = ew_claims w \<and> ew_performed w' = ew_performed w + 2 * length es \<and> ew_total w' = ew_total w + 2 * length es"
  using assms
proof (induction es arbitrary: i w)
  case (Cons e es)
  then obtain w1 where w1: "check_event env s vo m d i e w = Inr w1" "walk_events env s vo m d (Suc i) es w1 = Inr w'"
    by auto
  show ?case
    using Cons.IH [OF _ w1(2)] check_event_performed [OF _ w1(1)] Cons.prems(1) by auto
qed simp

text \<open>The initial state of the walk, and what verification of the event chain amounts to.\<close>

definition event_start :: "ledger_store \<Rightarrow> verification_policy \<Rightarrow> event_walk" where
  "event_start s policy =
     \<lparr>ew_last = \<lparr>lh_schema = HeadSchemaV1, lh_ledger = lt_id s, lh_sequence = 0, lh_event = [], lh_sha = []\<rparr>,
      ew_previous = [], ew_pinned = (vp_genesis_event policy = 1), ew_frozen = 0, ew_total = 0,
      ew_performed = 0, ew_claims = [], ew_known = []\<rparr>"

lemma event_start_simps [simp]: "ew_previous (event_start s p) = []" "ew_pinned (event_start s p) \<longleftrightarrow> vp_genesis_event p = 1"
  "ew_claims (event_start s p) = []" "ew_known (event_start s p) = []" "ew_performed (event_start s p) = 0"
  "ew_total (event_start s p) = 0" "ew_frozen (event_start s p) = 0"
  "lh_sequence (ew_last (event_start s p)) = 0" "lh_sha (ew_last (event_start s p)) = []"
  by (simp_all add: event_start_def)

definition chain_last :: "ledger_store \<Rightarrow> ledger_event list \<Rightarrow> 64 word \<times> string" where
  "chain_last s es = (if es = [] then (0, []) else (le_sequence (last es), le_sha (last es)))"

lemma verify_files_report:
  assumes "verify_files env s vo d = Inr r"
  obtains m es w h where "eventSchemaOrdinal (vp_min_event (vo_policy vo)) = Some m" "ListEvents d = Inr es"
    "walk_events env s vo m d 0 es (event_start s (vo_policy vo)) = Inr w" "ew_pinned w"
    "loadHead s d = Inr (rp_head r)" "(lh_sequence (rp_head r), lh_sha (rp_head r)) = chain_last s es"
    "verifyAuditPolicyLocked env s (vo_policy vo) d = Inr (rp_audit_head r, rp_audit_frozen r)"
    "rp_claims r = ew_claims w" "rp_known r = sorted_set (ew_known w)" "rp_frozen r = ew_frozen w"
    "rp_total r = ew_total w" "rp_performed r = ew_performed w"
    "vp_ledger (vo_policy vo) = lt_id s" "vp_genesis_event (vo_policy vo) \<noteq> 0" "vp_genesis_audit (vo_policy vo) \<noteq> 0"
    "vp_genesis_event (vo_policy vo) = 1 \<longrightarrow> vp_event_pin (vo_policy vo) = []"
proof -
  obtain m es w h ah where r: "eventSchemaOrdinal (vp_min_event (vo_policy vo)) = Some m" "ListEvents d = Inr es"
    "walk_events env s vo m d 0 es (event_start s (vo_policy vo)) = Inr w" "ew_pinned w" "loadHead s d = Inr h"
    "lh_sequence h = lh_sequence (ew_last w)" "lh_sha h = lh_sha (ew_last w)"
    "verifyAuditPolicyLocked env s (vo_policy vo) d = Inr ah"
    "r = \<lparr>rp_head = h, rp_audit_head = fst ah, rp_frozen = ew_frozen w, rp_audit_frozen = snd ah,
          rp_total = ew_total w, rp_performed = ew_performed w, rp_claims = ew_claims w, rp_known = sorted_set (ew_known w)\<rparr>"
    "vp_ledger (vo_policy vo) = lt_id s" "vp_genesis_event (vo_policy vo) \<noteq> 0" "vp_genesis_audit (vo_policy vo) \<noteq> 0"
    "vp_genesis_event (vo_policy vo) = 1 \<longrightarrow> vp_event_pin (vo_policy vo) = []"
    using assms unfolding verify_files_def Let_def event_start_def [symmetric]
    by (auto split: if_splits option.splits prod.splits)
  have "(lh_sequence h, lh_sha h) = chain_last s es"
    using walk_events_result(1) [OF r(3)] r(6,7) by (auto simp: chain_last_def event_head_def)
  then show thesis
    using that [OF r(1-4)] r(5,8-) by simp
qed

section \<open>Walking the audit chain\<close>

definition unsealed_audit :: "ledger_audit \<Rightarrow> ledger_audit" where
  "unsealed_audit e = e\<lparr>la_sha := []\<rparr>"

definition audit_hash :: "ledger_env \<Rightarrow> ledger_store \<Rightarrow> verification_policy \<Rightarrow> ledger_audit \<Rightarrow> string" where
  "audit_hash env s policy e =
     (if la_sequence e < vp_genesis_audit policy then legacyHashAudit env e else hashAudit env (ck_chain (lt_keys s)) e)"

abbreviation "audit_chain env s policy \<equiv>
  chain_ok la_sequence la_previous la_sha (\<lambda>e. audit_hash env s policy (unsealed_audit e))"

interpretation ledger_audit_log: hash_chain la_sequence la_previous la_sha unsealed_audit "\<lambda>h e. e\<lparr>la_sha := h\<rparr>" "audit_hash env s policy"
  for env s policy
proof unfold_locales
  fix e f :: ledger_audit
  assume "unsealed_audit e = unsealed_audit f" "la_sha e = la_sha f"
  moreover have "g = unsealed_audit g\<lparr>la_sha := la_sha g\<rparr>" for g
    by (simp add: unsealed_audit_def)
  ultimately show "e = f"
    by metis
qed (simp_all add: unsealed_audit_def)

lemma audit_hash_unsealed [simp]: "audit_hash env s policy (unsealed_audit e) = audit_hash env s policy e"
  by (simp add: audit_hash_def unsealed_audit_def legacyHashAudit_def hashAudit_def)

lemma audit_digest_ok: "audit_digest_at env s policy m e = Inr x \<longleftrightarrow>
    x = audit_hash env s policy e \<and> (if la_sequence e < vp_genesis_audit policy then la_schema e = AuditSchemaV1
       else la_schema e = AuditSchemaV2 \<and> m \<le> 2)"
  by (auto simp: audit_digest_at_def position_digest_ok audit_hash_def auditSchemaOrdinal_def schema_names)

definition audit_entry_ok :: "verification_policy \<Rightarrow> nat \<Rightarrow> ledger_audit \<Rightarrow> bool" where
  "audit_entry_ok policy m e \<longleftrightarrow>
     (if la_sequence e < vp_genesis_audit policy then la_schema e = AuditSchemaV1 else la_schema e = AuditSchemaV2 \<and> m \<le> 2)
     \<and> (vp_genesis_audit policy > 1 \<and> la_sequence e = vp_genesis_audit policy - 1 \<longrightarrow> la_sha e = vp_audit_pin policy)"

lemma check_audit_ok:
  "check_audit env s policy m i e w = Inr w' \<longleftrightarrow>
     la_sequence e = of_nat (Suc i) \<and> la_previous e = aw_previous w \<and> audit_hash env s policy e = la_sha e
     \<and> audit_entry_ok policy m e
     \<and> w' = \<lparr>aw_last = audit_head s e, aw_previous = la_sha e,
             aw_pinned = (aw_pinned w \<or> vp_genesis_audit policy > 1 \<and> la_sequence e = vp_genesis_audit policy - 1),
             aw_frozen = (if la_sequence e < vp_genesis_audit policy then Suc i else aw_frozen w)\<rparr>"
proof -
  have chain: "(if a then Inl x else res_bind D (\<lambda>digest. if digest \<noteq> q then Inl z else if l \<and> g then Inl u else Inr v)) = Inr w'
      \<longleftrightarrow> \<not> a \<and> D = Inr q \<and> (l \<longrightarrow> \<not> g) \<and> w' = v" for a l g x z u q D v
    by (cases D) auto
  show ?thesis
    unfolding check_audit_def audit_entry_ok_def Let_def chain audit_digest_ok
    by (simp add: eq_commute [of "la_sha e" "audit_hash env s policy e"])
qed

lemma walk_audits_ok:
  "walk_audits env s policy m d i ps w = Inr w' \<Longrightarrow>
     (\<exists>es. read_all as_ledger_audit d ps = Inr es \<and> audit_chain env s policy i (aw_previous w) es
        \<and> (\<forall>e \<in> set es. audit_entry_ok policy m e)
        \<and> aw_last w' = (if es = [] then aw_last w else audit_head s (last es))
        \<and> (aw_pinned w' \<longleftrightarrow> aw_pinned w \<or> (\<exists>e \<in> set es. vp_genesis_audit policy > 1 \<and> la_sequence e = vp_genesis_audit policy - 1)))"
proof (induction ps arbitrary: i w)
  case (Cons p ps)
  then obtain e w1 where e: "readCanonicalChainFile as_ledger_audit p d = Inr e" "check_audit env s policy m i e w = Inr w1"
    "walk_audits env s policy m d (Suc i) ps w1 = Inr w'"
    by auto
  show ?case
    using Cons.IH [OF e(3)] e(1,2) by (fastforce simp: check_audit_ok)
qed simp

lemma walk_audits_total:
  assumes "read_all as_ledger_audit d ps = Inr es" and "audit_chain env s policy i (aw_previous w) es"
    and "\<forall>e \<in> set es. audit_entry_ok policy m e"
  shows "\<exists>w'. walk_audits env s policy m d i ps w = Inr w'"
  using assms
proof (induction ps arbitrary: i w es)
  case (Cons p ps)
  then obtain e es' where e: "readCanonicalChainFile as_ledger_audit p d = Inr e" "read_all as_ledger_audit d ps = Inr es'" "es = e # es'"
    by auto
  obtain w1 where w1: "check_audit env s policy m i e w = Inr w1" "aw_previous w1 = la_sha e"
    using Cons.prems(2,3) e(3) by (simp add: check_audit_ok)
  show ?case
    using Cons.IH [OF e(2), of "Suc i" w1] Cons.prems(2,3) e w1 by simp
qed simp

definition audit_start :: "ledger_store \<Rightarrow> verification_policy \<Rightarrow> audit_walk" where
  "audit_start s policy =
     \<lparr>aw_last = \<lparr>lh_schema = HeadSchemaV1, lh_ledger = lt_id s, lh_sequence = 0, lh_event = [], lh_sha = []\<rparr>,
      aw_previous = [], aw_pinned = (vp_genesis_audit policy = 1), aw_frozen = 0\<rparr>"

definition audit_last :: "ledger_audit list \<Rightarrow> 64 word \<times> string" where
  "audit_last es = (if es = [] then (0, []) else (la_sequence (last es), la_sha (last es)))"

lemma verify_audit_ok:
  assumes "verifyAuditPolicyLocked env s policy d = Inr (h, n)"
  obtains m es where "auditSchemaOrdinal (vp_min_audit policy) = Some m" "readAuditEntries d = Inr es"
    "audit_chain env s policy 0 [] es" "\<forall>e \<in> set es. audit_entry_ok policy m e"
    "vp_genesis_audit policy = 1 \<or> (\<exists>e \<in> set es. vp_genesis_audit policy > 1 \<and> la_sequence e = vp_genesis_audit policy - 1)"
    "loadAuditHead s d = Inr h" "(lh_sequence h, lh_sha h) = audit_last es"
proof -
  obtain m w where m: "auditSchemaOrdinal (vp_min_audit policy) = Some m"
    and w: "walk_audits env s policy m d 0 (audit_paths d) (audit_start s policy) = Inr w" "aw_pinned w"
    and h: "loadAuditHead s d = Inr h" "lh_sequence h = lh_sequence (aw_last w)" "lh_sha h = lh_sha (aw_last w)"
    using assms unfolding verifyAuditPolicyLocked_def audit_start_def [symmetric]
    by (auto split: if_splits option.splits)
  obtain es where es: "read_all as_ledger_audit d (audit_paths d) = Inr es" "audit_chain env s policy 0 [] es"
    "\<forall>e \<in> set es. audit_entry_ok policy m e"
    "aw_last w = (if es = [] then aw_last (audit_start s policy) else audit_head s (last es))"
    "vp_genesis_audit policy = 1 \<or> (\<exists>e \<in> set es. vp_genesis_audit policy > 1 \<and> la_sequence e = vp_genesis_audit policy - 1)"
    using walk_audits_ok [OF w(1)] w(2) by (auto simp: audit_start_def)
  have "(lh_sequence h, lh_sha h) = audit_last es"
    using h(2,3) es(4) by (simp add: audit_start_def audit_last_def audit_head_def)
  then show thesis
    using that [OF m _ es(2,3,5) h(1)] es(1) by (simp add: readAuditEntries_def)
qed

end
