(* ===== verification/LedgerReach.thy ===== *)
theory LedgerReach imports LedgerProofs begin

text \<open>
  The directories of a screening ledger that start empty and are changed by the operations of the store: every
  \<^verbatim>\<open>Append\<close> and every recovery may be cut off after any of its writes. The invariant relates a directory to the list of
  its events and the list of its audit entries.
\<close>

section \<open>The invariant\<close>

definition store_ok :: "ledger_store \<Rightarrow> bool" where
  "store_ok s \<longleftrightarrow> length (ck_snap (lt_keys s)) = 32"

definition snapshot_good :: "ledger_env \<Rightarrow> ledger_store \<Rightarrow> snapshot_envelope \<Rightarrow> bool" where
  "snapshot_good env s x \<longleftrightarrow> ls_purged x = [] \<and> is_ok (decryptSnapshot env (ck_snap (lt_keys s)) x)"

definition snapshots_part :: "ledger_env \<Rightarrow> ledger_store \<Rightarrow> ledger_files \<Rightarrow> bool" where
  "snapshots_part env s d \<longleftrightarrow>
     (\<forall>sha c. fmlookup d (snapshot_path sha) = Some c \<longrightarrow> (\<exists>x. c = LSnapshot x \<and> ls_sha x = sha \<and> snapshot_good env s x))"

definition event_stored :: "ledger_files \<Rightarrow> ledger_event \<Rightarrow> bool" where
  "event_stored d e \<longleftrightarrow> le_schema e = EventSchemaV2
     \<and> fmlookup d (snapshot_path (le_request_snapshot e)) \<noteq> None \<and> fmlookup d (snapshot_path (le_response_snapshot e)) \<noteq> None"

definition keyed_chain :: "ledger_env \<Rightarrow> ledger_store \<Rightarrow> ledger_event list \<Rightarrow> bool" where
  "keyed_chain env s es \<longleftrightarrow> chain_ok le_sequence le_previous le_sha (hashEvent env (ck_chain (lt_keys s))) 0 [] es"

definition events_part :: "ledger_env \<Rightarrow> ledger_store \<Rightarrow> ledger_event list \<Rightarrow> ledger_files \<Rightarrow> bool" where
  "events_part env s es d \<longleftrightarrow>
     (\<forall>n c. fmlookup d (LedgerEventFile n) = Some c \<longleftrightarrow> (\<exists>e \<in> set es. n = le_id e @ ''.json'' \<and> c = LEvent e))
     \<and> distinct (map le_id es) \<and> keyed_chain env s es \<and> (\<forall>e \<in> set es. event_stored d e)"

definition head_at :: "ledger_store \<Rightarrow> ledger_event list \<Rightarrow> ledger_files \<Rightarrow> bool" where
  "head_at s es d \<longleftrightarrow> fmlookup d LedgerHeadFile = (if es = [] then None else Some (LHead (event_head s (last es))))"

definition settled :: "ledger_store \<Rightarrow> ledger_event list \<Rightarrow> ledger_files \<Rightarrow> bool" where
  "settled s es d \<longleftrightarrow> fmlookup d LedgerPendingFile = None \<and> head_at s es d"

text \<open>Between two writes of \<^verbatim>\<open>Append\<close>: the event is announced but not stored, or stored and still announced.\<close>

definition announced :: "ledger_store \<Rightarrow> ledger_event list \<Rightarrow> ledger_files \<Rightarrow> bool" where
  "announced s es d \<longleftrightarrow>
     (\<exists>e. fmlookup d LedgerPendingFile = Some (LEvent e)
        \<and> (le_id e \<notin> le_id ` set es \<and> head_at s es d
           \<or> es \<noteq> [] \<and> e = last es \<and> (head_at s es d \<or> head_at s (butlast es) d)))"

definition audit_part :: "ledger_env \<Rightarrow> ledger_store \<Rightarrow> ledger_audit list \<Rightarrow> ledger_files \<Rightarrow> bool" where
  "audit_part env s as d \<longleftrightarrow>
     (\<forall>n c. fmlookup d (LedgerAuditFile n) = Some c \<longleftrightarrow> (\<exists>e \<in> set as. n = audit_file_name e \<and> c = LAudit e))
     \<and> chain_ok la_sequence la_previous la_sha (hashAudit env (ck_chain (lt_keys s))) 0 [] as
     \<and> (\<forall>e \<in> set as. la_schema e = AuditSchemaV2)
     \<and> fmlookup d LedgerAuditHeadFile = (if as = [] then None else Some (LHead (audit_head s (last as))))"

definition ledger_inv :: "ledger_env \<Rightarrow> ledger_store \<Rightarrow> ledger_event list \<Rightarrow> ledger_audit list \<Rightarrow> ledger_files \<Rightarrow> bool" where
  "ledger_inv env s es as d \<longleftrightarrow> snapshots_part env s d \<and> events_part env s es d \<and> (settled s es d \<or> announced s es d)
     \<and> audit_part env s as d"

lemmas inv_defs = ledger_inv_def snapshots_part_def events_part_def settled_def announced_def audit_part_def head_at_def
  event_stored_def event_path_def snapshot_path_def audit_path_def replication_path_def

text \<open>Files outside the chains do not matter.\<close>

lemma ledger_inv_cong:
  assumes "\<And>p. p \<notin> range LedgerReplicationFile \<union> range LedgerHoldFile \<union> {LedgerIdFile} \<Longrightarrow> fmlookup d p = fmlookup d' p"
  shows "ledger_inv env s es as d = ledger_inv env s es as d'"
proof -
  have "fmlookup d (LedgerEventFile n) = fmlookup d' (LedgerEventFile n)" "fmlookup d (LedgerSnapshotFile n) = fmlookup d' (LedgerSnapshotFile n)"
    "fmlookup d (LedgerAuditFile n) = fmlookup d' (LedgerAuditFile n)" "fmlookup d LedgerHeadFile = fmlookup d' LedgerHeadFile"
    "fmlookup d LedgerPendingFile = fmlookup d' LedgerPendingFile" "fmlookup d LedgerAuditHeadFile = fmlookup d' LedgerAuditHeadFile" for n
    by (auto intro: assms)
  then show ?thesis
    by (simp add: inv_defs)
qed

section \<open>Recovery\<close>

lemma event_file_iff: "events_part env s es d \<Longrightarrow> fmlookup d (event_path i) \<noteq> None \<longleftrightarrow> i \<in> le_id ` set es"
  by (auto simp: events_part_def event_path_def)

lemma inv_head:
  "ledger_inv env s es as d \<Longrightarrow> fmlookup d LedgerPendingFile = Some (LEvent (last es)) \<Longrightarrow> es \<noteq> []
    \<Longrightarrow> ledger_inv env s es as (fmupd LedgerHeadFile (LHead (event_head s (last es))) d)"
  by (simp add: inv_defs)

lemma inv_remove_pending: "ledger_inv env s es as d \<Longrightarrow> head_at s es d
    \<Longrightarrow> ledger_inv env s es as (fmdrop LedgerPendingFile d) \<and> settled s es (fmdrop LedgerPendingFile d)"
  by (simp add: inv_defs)

lemma recover_safe:
  assumes inv: "ledger_inv env s es as d"
  shows "safe (ledger_inv env s es as) (recoverLocked s) (\<lambda>_. settled s es) d"
proof (cases "fmlookup d LedgerPendingFile")
  case None
  then have "settled s es d"
    using inv by (auto simp: ledger_inv_def settled_def announced_def)
  then show ?thesis
    using inv None unfolding recoverLocked_def
    by (intro safe_step_readp) (auto simp: read_pending_def readCanonicalChainFile_def simp del: prog_simps)
next
  case (Some c)
  then obtain e where c: "c = LEvent e"
    and e: "le_id e \<notin> le_id ` set es \<and> head_at s es d \<or> es \<noteq> [] \<and> e = last es"
    using inv by (auto simp: ledger_inv_def settled_def announced_def)
  have ev: "events_part env s es d"
    using inv by (simp add: ledger_inv_def)
  have remove: "safe (ledger_inv env s es as) (writep (Remove LedgerPendingFile)) (\<lambda>_. settled s es) d'"
    if "ledger_inv env s es as d'" "head_at s es d'" for d'
    using inv_remove_pending [OF that] that(1) by (intro safe_writep) auto
  have step: "safe (ledger_inv env s es as)
     (andThen (\<lambda>d. if fmlookup d (event_path (le_id e)) \<noteq> None then writep (Put LedgerHeadFile (LHead (event_head s e))) d else ret () d)
       (\<lambda>_. writep (Remove LedgerPendingFile))) (\<lambda>_. settled s es) d"
  proof (cases "le_id e \<in> le_id ` set es")
    case True
    then have last: "es \<noteq> []" "e = last es"
      using e by auto
    let ?d = "fmupd LedgerHeadFile (LHead (event_head s (last es))) d"
    have h: "ledger_inv env s es as ?d" "head_at s es ?d"
      using inv_head [OF inv] Some c last by (auto simp: head_at_def)
    show ?thesis
      using event_file_iff [OF ev, of "le_id e"] True inv h remove [OF h] last
      by (intro safe_andThen [where Q = "\<lambda>_ d'. d' = ?d"]) (auto simp: safe_def crash_def take_Cons' simp del: not_None_eq)
  next
    case False
    then have h: "head_at s es d"
      using e last_in_set by auto
    show ?thesis
      using event_file_iff [OF ev, of "le_id e"] False inv remove [OF inv h]
      by (intro safe_andThen [where Q = "\<lambda>_ d'. d' = d"]) (auto simp: safe_def crash_def simp del: not_None_eq)
  qed
  show ?thesis
    unfolding recoverLocked_def
    by (intro safe_step_readp inv) (use Some c step in \<open>auto simp: read_pending_def readCanonicalChainFile_def simp del: prog_simps\<close>)
qed

lemma recover_succeeds:
  assumes "ledger_inv env s es as d"
  shows "\<exists>ws. recoverLocked s d = (ws, Inr ())"
proof -
  have "\<exists>c. read_pending d = Inr c"
    using assms by (auto simp: read_pending_def readCanonicalChainFile_def ledger_inv_def settled_def announced_def)
  then show ?thesis
    by (auto simp: recoverLocked_def andThen_def split: option.splits)
qed

section \<open>Appending\<close>

definition head_value :: "ledger_store \<Rightarrow> ledger_event list \<Rightarrow> ledger_head" where
  "head_value s es =
     (if es = [] then \<lparr>lh_schema = HeadSchemaV1, lh_ledger = lt_id s, lh_sequence = 0, lh_event = [], lh_sha = []\<rparr>
      else event_head s (last es))"

lemma loadHead_value: "head_at s es d \<Longrightarrow> loadHead s d = Inr (head_value s es)"
  by (auto simp: head_at_def loadHead_def head_value_def chain_read_ok split: if_splits)

lemma keyed_chain_head: "keyed_chain env s es \<Longrightarrow> lh_sequence (head_value s es) = of_nat (length es) \<and> lh_sha (head_value s es) = chain_head le_sha [] es"
  by (cases es rule: rev_cases) (auto simp: keyed_chain_def chain_ok_append head_value_def event_head_def)

lemma hashEvent_ignores_digest [simp]: "hashEvent env k (e\<lparr>le_sha := h\<rparr>) = hashEvent env k e"
  by (simp add: hashEvent_def)

lemma new_event_fields [simp]:
  "le_sequence (new_event env s pl h) = lh_sequence h + 1" "le_previous (new_event env s pl h) = lh_sha h"
  "le_id (new_event env s pl h) = event_identity env s (pl_input pl)" "le_schema (new_event env s pl h) = EventSchemaV2"
  "le_request_snapshot (new_event env s pl h) = ls_sha (pl_request pl)"
  "le_response_snapshot (new_event env s pl h) = ls_sha (pl_response pl)"
  by (simp_all add: new_event_def draft_event_def Let_def case_prod_unfold)

lemma new_event_hash [simp]: "hashEvent env (ck_chain (lt_keys s)) (new_event env s pl h) = le_sha (new_event env s pl h)"
  by (simp add: new_event_def Let_def)

lemma new_event_chain: "keyed_chain env s es \<Longrightarrow> keyed_chain env s (es @ [new_event env s pl (head_value s es)])"
  using keyed_chain_head [of env s es] by (simp add: keyed_chain_def chain_ok_append)

text \<open>A fresh snapshot can be decrypted.\<close>

lemma encrypt_good:
  assumes "ledger_env_ok env" and "length key = 32" and "length nonce = 12"
    and "encryptSnapshot env key nonce kind p created expires cls = Inr x"
  shows "ls_purged x = [] \<and> decryptSnapshot env key x = Inr p"
  using assms by (auto simp: encryptSnapshot_def Let_def decryptSnapshot_def ledger_env_ok_def)

lemma plan_append_ok:
  "plan_append env s now n1 n2 input = Inr pl \<longleftrightarrow>
     (\<exists>i p q t. with_defaults now input = Inr i \<and> canonicalJSON env (ai_request i) = Some p \<and> canonicalJSON env (ai_response i) = Some q
        \<and> int (length p) \<le> lr_max_bytes (ai_retention i) \<and> int (length q) \<le> lr_max_bytes (ai_retention i)
        \<and> mustExpires env (ai_occurred i) (lr_days (ai_retention i)) = Inr t
        \<and> encryptSnapshot env (ck_snap (lt_keys s)) n1 ''request'' p (ai_occurred i) t (lr_class (ai_retention i)) = Inr (pl_request pl)
        \<and> encryptSnapshot env (ck_snap (lt_keys s)) n2 ''response'' q (ai_occurred i) t (lr_class (ai_retention i)) = Inr (pl_response pl)
        \<and> pl_input pl = i \<and> pl_canonical pl = q \<and> pl_expires pl = t)"
    (is "?l \<longleftrightarrow> ?r")
proof -
  have bind: "res_bind r f = Inr pl \<longleftrightarrow> (\<exists>x. r = Inr x \<and> f x = Inr pl)" for r :: "(ledger_error, 'x) result" and f
    by simp
  have opt: "(case o' of None \<Rightarrow> Inl x | Some y \<Rightarrow> f y) = Inr pl \<longleftrightarrow> (\<exists>y. o' = Some y \<and> f y = Inr pl)" for o' :: "string option" and x :: ledger_error and f
    by (cases o') auto
  have test: "(if c then Inl x else r) = Inr pl \<longleftrightarrow> \<not> c \<and> r = Inr pl" for c and x :: ledger_error and r
    by simp
  have rec: "Inr \<lparr>pl_input = i, pl_request = rq, pl_response = rs, pl_canonical = q, pl_expires = t\<rparr> = (Inr pl :: (ledger_error, append_plan) result)
      \<longleftrightarrow> pl_request pl = rq \<and> pl_response pl = rs \<and> pl_input pl = i \<and> pl_canonical pl = q \<and> pl_expires pl = t" for i rq rs q t
    by (cases pl) auto
  show ?thesis
    unfolding plan_append_def bind opt test rec by (simp add: not_less)
qed

lemma plan_snapshots_good:
  assumes "ledger_env_ok env" and "store_ok s" and "length n1 = 12" and "length n2 = 12"
    and "plan_append env s now n1 n2 input = Inr pl"
  shows "snapshot_good env s (pl_request pl)" "snapshot_good env s (pl_response pl)"
  using encrypt_good [OF assms(1)] assms(2-5) by (auto simp: plan_append_ok snapshot_good_def store_ok_def)

lemma inv_put_snapshot:
  assumes "ledger_inv env s es as d" and "snapshot_good env s x"
  shows "ledger_inv env s es as (fmupd (snapshot_path (ls_sha x)) (LSnapshot x) d)"
  using assms by (auto simp: inv_defs)

lemma write_snapshot_safe:
  assumes inv: "ledger_inv env s es as d" and "settled s es d" and "snapshot_good env s x"
    and "\<forall>sha \<in> K. fmlookup d (snapshot_path sha) \<noteq> None"
  shows "safe (ledger_inv env s es as) (writeSnapshot env x)
    (\<lambda>_ d'. settled s es d' \<and> (\<forall>sha \<in> insert (ls_sha x) K. fmlookup d' (snapshot_path sha) \<noteq> None)) d"
proof (cases "fmlookup d (snapshot_path (ls_sha x))")
  case None
  have "settled s es (fmupd (snapshot_path (ls_sha x)) (LSnapshot x) d)"
    using assms(2) by (simp add: settled_def head_at_def snapshot_path_def)
  then show ?thesis
    using None inv inv_put_snapshot [OF inv assms(3)] assms(4)
    by (auto simp: safe_def crash_def writeSnapshot_def take_Cons')
next
  case (Some c)
  then have "\<exists>y. c = LSnapshot y \<and> ls_sha y = ls_sha x"
    using inv by (auto simp: ledger_inv_def snapshots_part_def)
  then show ?thesis
    using Some assms by (auto simp: safe_def crash_def writeSnapshot_def)
qed

text \<open>The four writes of the commit.\<close>

lemma commit_safe:
  assumes inv: "ledger_inv env s es as d" and set: "settled s es d" and new: "le_id e \<notin> le_id ` set es"
    and chain: "keyed_chain env s (es @ [e])" and stored: "event_stored d e"
  shows "safe (\<lambda>d'. ledger_inv env s es as d' \<or> ledger_inv env s (es @ [e]) as d') (commit_event s e)
    (\<lambda>_ d'. ledger_inv env s (es @ [e]) as d' \<and> settled s (es @ [e]) d') d"
proof -
  let ?d1 = "fmupd LedgerPendingFile (LEvent e) d"
  let ?d2 = "fmupd (event_path (le_id e)) (LEvent e) ?d1"
  let ?d3 = "fmupd LedgerHeadFile (LHead (event_head s e)) ?d2"
  have d1: "ledger_inv env s es as ?d1"
    using inv set new by (auto simp: inv_defs)
  have d2: "ledger_inv env s (es @ [e]) as ?d2"
    using inv set new chain stored by (auto simp: inv_defs)
  have d3: "ledger_inv env s (es @ [e]) as ?d3"
    using inv_head [OF d2] by (simp add: event_path_def)
  have d4: "ledger_inv env s (es @ [e]) as (fmdrop LedgerPendingFile ?d3) \<and> settled s (es @ [e]) (fmdrop LedgerPendingFile ?d3)"
    by (rule inv_remove_pending [OF d3]) (simp add: head_at_def)
  show ?thesis
    unfolding commit_event_def
    by (intro safe_step_writep safe_writep) (use inv d1 d2 d3 d4 in auto)
qed

text \<open>The event an append adds when it adds one.\<close>

definition next_event :: "ledger_env \<Rightarrow> ledger_store \<Rightarrow> string \<Rightarrow> string \<Rightarrow> string \<Rightarrow> append_input \<Rightarrow> ledger_event list \<Rightarrow> ledger_event" where
  "next_event env s now n1 n2 input es =
     (case plan_append env s now n1 n2 input of Inr pl \<Rightarrow> new_event env s pl (head_value s es) | Inl _ \<Rightarrow> undefined)"

lemma safe_weaken: "safe I p Q d \<Longrightarrow> (\<And>d. I d \<Longrightarrow> J d) \<Longrightarrow> (\<And>x d. I d \<Longrightarrow> Q x d \<Longrightarrow> R x d) \<Longrightarrow> safe J p R d"
  using safe_end unfolding safe_def by metis

abbreviation stored_after :: "ledger_env \<Rightarrow> ledger_store \<Rightarrow> ledger_event list \<Rightarrow> ledger_audit list \<Rightarrow> ledger_event \<Rightarrow> ledger_event \<times> bool \<Rightarrow> ledger_files \<Rightarrow> bool" where
  "stored_after env s es as new r d' \<equiv>
     (if snd r then ledger_inv env s es as d' \<and> settled s es d' \<and> fst r \<in> set es \<and> le_id (fst r) = le_id new
      else fst r = new \<and> ledger_inv env s (es @ [new]) as d' \<and> settled s (es @ [new]) d')"

text \<open>From the snapshots on.\<close>

lemma store_event_safe:
  assumes d: "ledger_inv env s es as d" "settled s es d" and good: "snapshot_good env s x" "snapshot_good env s y"
    and new: "le_id e \<notin> le_id ` set es" and chain: "keyed_chain env s (es @ [e])"
    and fields: "le_schema e = EventSchemaV2" "le_request_snapshot e = ls_sha x" "le_response_snapshot e = ls_sha y"
  shows "safe (\<lambda>d'. ledger_inv env s es as d' \<or> ledger_inv env s (es @ [e]) as d')
    (andThen (writeSnapshot env x) (\<lambda>_. andThen (writeSnapshot env y) (\<lambda>_. andThen (commit_event s e) (\<lambda>_. ret (e, False)))))
    (stored_after env s es as e) d"
    (is "safe ?I _ ?Q _")
proof -
  have commit: "safe ?I (andThen (commit_event s e) (\<lambda>_. ret (e, False))) ?Q d2"
    if "ledger_inv env s es as d2" "settled s es d2" "event_stored d2 e" for d2
    by (rule safe_andThen [OF commit_safe [OF that(1,2) new chain that(3)]]) (auto simp del: prog_simps)
  have second: "safe ?I (andThen (writeSnapshot env y) (\<lambda>_. andThen (commit_event s e) (\<lambda>_. ret (e, False)))) ?Q d1"
    if "ledger_inv env s es as d1" "settled s es d1" "fmlookup d1 (snapshot_path (ls_sha x)) \<noteq> None" for d1
  proof (rule safe_andThen [where Q = "\<lambda>_ d2. ledger_inv env s es as d2 \<and> settled s es d2 \<and> event_stored d2 e"])
    show "safe ?I (writeSnapshot env y) (\<lambda>_ d2. ledger_inv env s es as d2 \<and> settled s es d2 \<and> event_stored d2 e) d1"
      by (rule safe_weaken [OF write_snapshot_safe [OF that(1,2) good(2), of "{ls_sha x}"]])
        (use that(3) in \<open>auto simp: event_stored_def fields\<close>)
  qed (use commit in auto)
  show ?thesis
  proof (rule safe_andThen [where Q = "\<lambda>_ d1. ledger_inv env s es as d1 \<and> settled s es d1 \<and> fmlookup d1 (snapshot_path (ls_sha x)) \<noteq> None"])
    show "safe ?I (writeSnapshot env x) (\<lambda>_ d1. ledger_inv env s es as d1 \<and> settled s es d1 \<and> fmlookup d1 (snapshot_path (ls_sha x)) \<noteq> None) d"
      by (rule safe_weaken [OF write_snapshot_safe [OF d good(1), of "{}"]]) auto
  qed (use second in auto)
qed

text \<open>Everything after recovery.\<close>

lemma existing_event_ok:
  assumes "events_part env s es d" and "existing_event (event_path i) d = Inr found"
  shows "case found of Some e \<Rightarrow> e \<in> set es \<and> le_id e = i | None \<Rightarrow> i \<notin> le_id ` set es"
proof (cases found)
  case (Some x)
  then have "fmlookup d (event_path i) = Some (LEvent x)"
    using assms(2) by (auto simp: existing_event_def chain_read_ok split: sum.splits if_splits elim!: as_ledger_event.elims)
  then show ?thesis
    using assms(1) Some by (auto simp: events_part_def event_path_def)
next
  case None
  then have "fmlookup d (event_path i) = None"
    using assms(2) by (auto simp: existing_event_def read_missing split: sum.splits if_splits)
  then show ?thesis
    using event_file_iff [OF assms(1), of i] None by simp
qed

definition append_recovered ::
  "ledger_env \<Rightarrow> ledger_store \<Rightarrow> string \<Rightarrow> string \<Rightarrow> string \<Rightarrow> append_input \<Rightarrow> (ledger_event \<times> bool) ledger_prog" where
  "append_recovered env s now nonce1 nonce2 input =
     andThen (readp (\<lambda>_. plan_append env s now nonce1 nonce2 input)) (\<lambda>pl.
     andThen (readp (existing_event (event_path (event_identity env s (pl_input pl))))) (\<lambda>found. case found of
         Some e \<Rightarrow> ret (e, True)
       | None \<Rightarrow>
           andThen (readp (loadHead s)) (\<lambda>h.
           let e = new_event env s pl h in
           andThen (writeSnapshot env (pl_request pl)) (\<lambda>_.
           andThen (writeSnapshot env (pl_response pl)) (\<lambda>_.
           andThen (commit_event s e) (\<lambda>_. ret (e, False)))))))"

lemma Append_recovered: "Append env s now n1 n2 input = andThen (recoverLocked s) (\<lambda>_. append_recovered env s now n1 n2 input)"
  by (simp add: Append_def append_recovered_def)

lemma append_recovered_safe:
  assumes d: "ledger_inv env s es as d" "settled s es d" and ok: "ledger_env_ok env" "store_ok s" "length n1 = 12" "length n2 = 12"
  shows "safe (\<lambda>d'. ledger_inv env s es as d' \<or> ledger_inv env s (es @ [next_event env s now n1 n2 input es]) as d')
    (append_recovered env s now n1 n2 input) (stored_after env s es as (next_event env s now n1 n2 input es)) d"
    (is "safe ?I _ (stored_after env s es as ?e) _")
  unfolding append_recovered_def
proof (intro safe_step_readp)
  fix pl found
  assume pl: "plan_append env s now n1 n2 input = Inr pl"
    and found: "existing_event (event_path (event_identity env s (pl_input pl))) d = Inr found"
  have e: "?e = new_event env s pl (head_value s es)"
    by (simp add: next_event_def pl)
  have ev: "events_part env s es d"
    using d(1) by (simp add: ledger_inv_def)
  have head: "loadHead s d = Inr (head_value s es)"
    using d(2) by (auto simp: settled_def intro: loadHead_value)
  show "safe ?I (case found of Some e \<Rightarrow> ret (e, True)
       | None \<Rightarrow>
           andThen (readp (loadHead s)) (\<lambda>h.
           let e = new_event env s pl h in
           andThen (writeSnapshot env (pl_request pl)) (\<lambda>_.
           andThen (writeSnapshot env (pl_response pl)) (\<lambda>_.
           andThen (commit_event s e) (\<lambda>_. ret (e, False)))))) (stored_after env s es as ?e) d"
  proof (cases found)
    case (Some x)
    then show ?thesis
      using existing_event_ok [OF ev found] d by (auto simp: e simp del: prog_simps)
  next
    case None
    have tail: "safe ?I (andThen (writeSnapshot env (pl_request pl)) (\<lambda>_. andThen (writeSnapshot env (pl_response pl)) (\<lambda>_.
        andThen (commit_event s ?e) (\<lambda>_. ret (?e, False))))) (stored_after env s es as ?e) d"
      using existing_event_ok [OF ev found] ev
      by (intro store_event_safe d plan_snapshots_good [OF ok pl]) (simp_all add: e None new_event_chain events_part_def)
    show ?thesis
      unfolding None option.case
      by (rule safe_step_readp) (use d(1) head tail in \<open>auto simp: e Let_def simp del: prog_simps\<close>)
  qed
qed (use d(1) in auto)

lemma Append_safe:
  assumes inv: "ledger_inv env s es as d" and ok: "ledger_env_ok env" "store_ok s" "length n1 = 12" "length n2 = 12"
  shows "safe (\<lambda>d'. ledger_inv env s es as d' \<or> ledger_inv env s (es @ [next_event env s now n1 n2 input es]) as d')
    (Append env s now n1 n2 input) (stored_after env s es as (next_event env s now n1 n2 input es)) d"
    (is "safe ?I _ _ _")
  unfolding Append_recovered
proof (rule safe_andThen [where Q = "\<lambda>_ d'. ledger_inv env s es as d' \<and> settled s es d'"])
  show "safe ?I (recoverLocked s) (\<lambda>_ d'. ledger_inv env s es as d' \<and> settled s es d') d"
    by (rule safe_weaken [OF recover_safe [OF inv]]) auto
qed (use append_recovered_safe [OF _ _ ok] in auto)

section \<open>Audit entries\<close>

lemma new_audit_fields [simp]:
  "la_sequence (new_audit env s now a p r i dt h) = lh_sequence h + 1" "la_previous (new_audit env s now a p r i dt h) = lh_sha h"
  "la_schema (new_audit env s now a p r i dt h) = AuditSchemaV2" "la_action (new_audit env s now a p r i dt h) = a"
  "la_operator (new_audit env s now a p r i dt h) = p" "la_reason (new_audit env s now a p r i dt h) = r"
  "la_details (new_audit env s now a p r i dt h) = dt"
  by (simp_all add: new_audit_def draft_audit_def Let_def)

lemma new_audit_hash [simp]:
  "hashAudit env (ck_chain (lt_keys s)) (new_audit env s now a p r i dt h) = la_sha (new_audit env s now a p r i dt h)"
  by (simp add: new_audit_def Let_def hashAudit_def)

lemma chain_sequence_bound:
  assumes "chain_ok sq prev self hash 0 p es" and "e \<in> set es" and "length es < 2 ^ 64"
  shows "0 < unat (sq e) \<and> unat (sq e) \<le> length es"
proof -
  have "sq (es ! k) = of_nat (Suc (i + k))" if "chain_ok sq prev self hash i p es" "k < length es" for i p k es
    using that
  proof (induction es arbitrary: i p k)
    case (Cons e es)
    then show ?case by (cases k) auto
  qed simp
  then obtain k where "sq e = of_nat (Suc k)" "k < length es"
    using assms(1,2) by (metis add_0 in_set_conv_nth)
  moreover have "unat (of_nat (Suc k) :: 64 word) = Suc k" if "Suc k < 2 ^ 64" for k
    using that by (simp add: unat_of_nat take_bit_nat_eq_self del: of_nat_Suc)
  ultimately show ?thesis
    using assms(3) by simp
qed

definition audit_head_value :: "ledger_store \<Rightarrow> ledger_audit list \<Rightarrow> ledger_head" where
  "audit_head_value s as =
     (if as = [] then \<lparr>lh_schema = HeadSchemaV1, lh_ledger = lt_id s, lh_sequence = 0, lh_event = [], lh_sha = []\<rparr>
      else audit_head s (last as))"

lemma loadAuditHead_value: "audit_part env s as d \<Longrightarrow> loadAuditHead s d = Inr (audit_head_value s as)"
  by (auto simp: audit_part_def loadAuditHead_def audit_head_value_def chain_read_ok split: if_splits)

lemma audit_head_value_ok:
  "audit_part env s as d \<Longrightarrow> lh_sequence (audit_head_value s as) = of_nat (length as) \<and> lh_sha (audit_head_value s as) = chain_head la_sha [] as"
  by (cases as rule: rev_cases) (auto simp: audit_part_def chain_ok_append audit_head_value_def audit_head_def)

lemma padded_inj: "length a = length b \<Longrightarrow> a @ x = b @ y \<longleftrightarrow> a = b \<and> x = y"
  by simp

lemma audit_file_name_new:
  assumes "audit_part env s as d" and "Suc (length as) < 2 ^ 64" and "f \<in> set as" and "la_sequence e = of_nat (Suc (length as))"
  shows "audit_file_name f < audit_file_name e"
proof (rule audit_file_name_less)
  have "0 < unat (la_sequence f) \<and> unat (la_sequence f) \<le> length as"
    using assms(1-3) by (intro chain_sequence_bound [where e = f]) (auto simp: audit_part_def)
  moreover have "unat (la_sequence e) = Suc (length as)"
    using assms(2,4) by (simp add: unat_of_nat take_bit_nat_eq_self del: of_nat_Suc)
  ultimately show "la_sequence f < la_sequence e"
    by (simp add: word_less_nat_alt)
qed

lemma audit_append_inv:
  assumes inv: "ledger_inv env s es as d" and len: "Suc (length as) < 2 ^ 64"
    and e: "la_sequence e = lh_sequence (audit_head_value s as) + 1" "la_previous e = lh_sha (audit_head_value s as)"
      "la_schema e = AuditSchemaV2" "hashAudit env (ck_chain (lt_keys s)) e = la_sha e"
  shows "ledger_inv env s es (as @ [e]) (fmupd LedgerAuditHeadFile (LHead (audit_head s e)) (fmupd (audit_path e) (LAudit e) d))"
proof -
  have a: "audit_part env s as d"
    using inv by (simp add: ledger_inv_def)
  have sq: "la_sequence e = of_nat (Suc (length as))" "la_previous e = chain_head la_sha [] as"
    using audit_head_value_ok [OF a] e(1,2) by simp_all
  have "audit_file_name f \<noteq> audit_file_name e \<and> audit_file_name e \<noteq> audit_file_name f" if "f \<in> set as" for f
    using audit_file_name_new [OF a len that sq(1)] by auto
  then have "audit_part env s (as @ [e]) (fmupd LedgerAuditHeadFile (LHead (audit_head s e)) (fmupd (audit_path e) (LAudit e) d))"
    using a e(3,4) sq by (auto simp: audit_part_def audit_path_def chain_ok_append)
  then show ?thesis
    using inv by (simp add: ledger_inv_def snapshots_part_def events_part_def event_stored_def settled_def announced_def
      head_at_def snapshot_path_def audit_path_def)
qed

lemma AppendAudit_run:
  assumes "ledger_inv env s es as d"
  shows "AppendAudit env s now a p r i dt d =
    (let e = new_audit env s now a p r i dt (audit_head_value s as)
     in ([Put (audit_path e) (LAudit e), Put LedgerAuditHeadFile (LHead (audit_head s e))], Inr e))"
proof -
  have "audit_part env s as d"
    using assms by (simp add: ledger_inv_def)
  then show ?thesis
    by (simp add: AppendAudit_def andThen_readp andThen_writep loadAuditHead_value Let_def)
qed

lemma AppendAudit_inv:
  assumes inv: "ledger_inv env s es as d" and len: "Suc (length as) < 2 ^ 64" and run: "AppendAudit env s now a p r i dt d = (ws, Inr e)"
  shows "e = new_audit env s now a p r i dt (audit_head_value s as) \<and> ledger_inv env s es (as @ [e]) (apply_writes ws d)"
proof -
  have e: "e = new_audit env s now a p r i dt (audit_head_value s as)"
    and ws: "ws = [Put (audit_path e) (LAudit e), Put LedgerAuditHeadFile (LHead (audit_head s e))]"
    using run by (auto simp: AppendAudit_run [OF inv] Let_def)
  then show ?thesis
    using audit_append_inv [OF inv len, of e] by simp
qed

section \<open>Verification of a reachable directory\<close>

lemma chain_ok_cong: "(\<And>e. e \<in> set es \<Longrightarrow> h e = h' e) \<Longrightarrow> chain_ok sq prev self h i p es = chain_ok sq prev self h' i p es"
  by (induction es arbitrary: i p) auto

lemma chain_sequences_increase:
  assumes "chain_ok sq prev self hash 0 p es" and "length es < 2 ^ 64"
  shows "sorted_wrt (\<lambda>a b. sq a < sq b) es"
  using assms
proof (induction es rule: rev_induct)
  case (snoc e es)
  have "0 < unat (sq f) \<and> unat (sq f) \<le> length es" if "f \<in> set es" for f
    using snoc.prems that by (intro chain_sequence_bound [where e = f]) (auto simp: chain_ok_append)
  moreover have "unat (sq e) = Suc (length es)"
    using snoc.prems by (simp add: chain_ok_append unat_of_nat take_bit_nat_eq_self del: of_nat_Suc)
  ultimately show ?case
    using snoc by (fastforce simp: chain_ok_append sorted_wrt_append word_less_nat_alt)
qed simp

lemma read_all_map: "(\<And>p. p \<in> set ps \<Longrightarrow> readCanonicalChainFile sel p d = Inr (f p)) \<Longrightarrow> read_all sel d ps = Inr (map f ps)"
  by (induction ps) auto

interpretation by_sequence: comparator "\<lambda>a b. le_sequence a < le_sequence b"
  by (rule comparator_key)

lemma event_listing:
  assumes "events_part env s es d" and "length es < 2 ^ 64"
  shows "ListEvents d = Inr es"
proof -
  define f where "f p = (case fmlookup d p of Some (LEvent e) \<Rightarrow> e | _ \<Rightarrow> undefined)" for p
  have paths: "set (event_paths d) = (\<lambda>e. event_path (le_id e)) ` set es"
    using assms(1) by (fastforce simp: event_paths_set events_part_def event_path_def)
  have f: "f (event_path (le_id e)) = e" "readCanonicalChainFile as_ledger_event (event_path (le_id e)) d = Inr e" if "e \<in> set es" for e
  proof -
    have "fmlookup d (event_path (le_id e)) = Some (LEvent e)"
      using assms(1) that by (auto simp: events_part_def event_path_def)
    then show "f (event_path (le_id e)) = e" "readCanonicalChainFile as_ledger_event (event_path (le_id e)) d = Inr e"
      by (simp_all add: f_def chain_read_ok)
  qed
  have "read_all as_ledger_event d (event_paths d) = Inr (map f (event_paths d))"
    using f paths by (intro read_all_map) auto
  moreover have "mset (map f (event_paths d)) = mset es"
  proof -
    have "mset (event_paths d) = mset (map (\<lambda>e. event_path (le_id e)) es)"
      using assms(1) paths by (intro set_eq_iff_mset_eq_distinct [THEN iffD1])
        (auto simp: events_part_def distinct_map inj_on_def)
    then have "mset (map f (event_paths d)) = mset (map f (map (\<lambda>e. event_path (le_id e)) es))"
      by (metis mset_map)
    also have "map f (map (\<lambda>e. event_path (le_id e)) es) = es"
      using f by (simp add: comp_def map_idI)
    finally show ?thesis .
  qed
  moreover have inc: "sorted_wrt (\<lambda>a b. le_sequence a < le_sequence b) es"
    using assms by (intro chain_sequences_increase) (auto simp: events_part_def keyed_chain_def)
  have "sort_by (\<lambda>a b. le_sequence a < le_sequence b) es = es"
    using inc by (intro by_sequence.sort_by_sorted sorted_wrt_mono_rel [OF _ inc]) auto
  moreover have "le_sequence a < le_sequence b \<or> le_sequence b < le_sequence a" if "a \<in> set es" "b \<in> set es" "a \<noteq> b" for a b
    using that inc by (metis sorted_wrt_nth_less linorder_neqE_nat in_set_conv_nth)
  ultimately have "sort_by (\<lambda>a b. le_sequence a < le_sequence b) (map f (event_paths d)) = es"
    by (metis by_sequence.sort_by_order_independent set_mset_mset)
  then show ?thesis
    using \<open>read_all as_ledger_event d (event_paths d) = Inr (map f (event_paths d))\<close> by (simp add: ListEvents_def)
qed

lemma audit_listing:
  assumes "audit_part env s as d" and "length as < 2 ^ 64"
  shows "readAuditEntries d = Inr as" "audit_paths d = map audit_path as"
proof -
  have inc: "sorted_wrt (\<lambda>a b. la_sequence a < la_sequence b) as"
    using assms by (intro chain_sequences_increase) (auto simp: audit_part_def)
  have "sorted_wrt (<) (map audit_file_name as)"
    unfolding sorted_wrt_map by (rule sorted_wrt_mono_rel [OF _ inc]) (rule audit_file_name_less)
  then have "sorted (map audit_file_name as)" "distinct (map audit_file_name as)"
    by (simp_all add: strict_sorted_iff)
  then have "json_names audit_name d = map audit_file_name as"
    using assms(1) by (intro sorted_distinct_set_unique) (auto simp: json_names_set audit_part_def)
  then show paths: "audit_paths d = map audit_path as"
    by (simp add: audit_paths_def audit_path_def)
  have "readCanonicalChainFile as_ledger_audit (audit_path e) d = Inr e" if "e \<in> set as" for e
    using assms(1) that by (auto simp: chain_read_ok audit_part_def audit_path_def)
  then have "read_all as_ledger_audit d (map audit_path as) = Inr as"
    by (induction as) auto
  then show "readAuditEntries d = Inr as"
    by (simp add: readAuditEntries_def paths)
qed

definition plain_options :: "ledger_store \<Rightarrow> verify_options \<Rightarrow> bool" where
  "plain_options s vo \<longleftrightarrow>
     (let p = vo_policy vo in
      vp_ledger p = lt_id s \<and> vp_genesis_event p = 1 \<and> vp_genesis_audit p = 1 \<and> vp_event_pin p = [] \<and> vp_audit_pin p = []
      \<and> vp_min_event p \<in> {EventSchemaV1, EventSchemaV2} \<and> vp_min_audit p \<in> {AuditSchemaV1, AuditSchemaV2}
      \<and> (modeOrDefault vo = ''historical-unanchored'' \<longrightarrow> vp_allow_unanchored p))"

lemma keyed_is_ledger_chain:
  assumes "keyed_chain env s es" and "vp_genesis_event p = 1" and "length es < 2 ^ 64"
  shows "ledger_chain env s p 0 [] es"
proof -
  have "event_hash env s p (unsealed e) = hashEvent env (ck_chain (lt_keys s)) e" if "e \<in> set es" for e
    using chain_sequence_bound [OF assms(1) [unfolded keyed_chain_def] that assms(3)] assms(2)
    by (simp add: event_hash_def word_less_nat_alt)
  then show ?thesis
    using assms(1) chain_ok_cong [of es "\<lambda>e. event_hash env s p (unsealed e)"] by (simp add: keyed_chain_def)
qed

lemma keyed_is_audit_chain:
  assumes "audit_part env s as d" and "vp_genesis_audit p = 1" and "length as < 2 ^ 64"
  shows "audit_chain env s p 0 [] as" "\<forall>e \<in> set as. \<not> la_sequence e < vp_genesis_audit p"
proof -
  have pos: "\<not> la_sequence e < vp_genesis_audit p" if "e \<in> set as" for e
    using chain_sequence_bound [of la_sequence la_previous la_sha _ _ as e] assms that
    by (auto simp: audit_part_def word_less_nat_alt)
  then have "audit_hash env s p (unsealed_audit e) = hashAudit env (ck_chain (lt_keys s)) e" if "e \<in> set as" for e
    using that unfolding audit_hash_unsealed by (simp add: audit_hash_def)
  then show "audit_chain env s p 0 [] as"
    using assms(1) chain_ok_cong [of as "\<lambda>e. audit_hash env s p (unsealed_audit e)"] by (simp add: audit_part_def)
  show "\<forall>e \<in> set as. \<not> la_sequence e < vp_genesis_audit p"
    using pos by blast
qed

lemma good_snapshot_verifies:
  assumes "snapshots_part env s d" and "fmlookup d (snapshot_path sha) \<noteq> None"
  shows "verifySnapshotChecked env s mode p sha n d = Inr (True, None)"
proof -
  obtain x where x: "fmlookup d (snapshot_path sha) = Some (LSnapshot x)" "ls_sha x = sha" "snapshot_good env s x"
    using assms by (auto simp: snapshots_part_def)
  then obtain q where q: "decryptSnapshot env (ck_snap (lt_keys s)) x = Inr q" "ls_purged x = []"
    by (auto simp: snapshot_good_def is_ok_iff)
  then have "lx_sha env q = ls_plain_sha x"
    by (auto simp: decryptSnapshot_def split: if_splits option.splits)
  then show ?thesis
    using x q by (simp add: verifySnapshotChecked_def LoadSnapshot_def readCanonicalChainFile_def)
qed

lemma inv_audit_verifies:
  assumes a: "audit_part env s as d" and len: "length as < 2 ^ 64" and p: "plain_options s vo"
  shows "\<exists>n. verifyAuditPolicyLocked env s (vo_policy vo) d = Inr (audit_head_value s as, n)"
proof -
  have g: "vp_genesis_audit (vo_policy vo) = 1" "vp_audit_pin (vo_policy vo) = []"
    using p by (auto simp: plain_options_def Let_def)
  obtain m where m: "auditSchemaOrdinal (vp_min_audit (vo_policy vo)) = Some m" "m \<le> 2"
    using p by (auto simp: plain_options_def Let_def auditSchemaOrdinal_def schema_names)
  have read: "read_all as_ledger_audit d (audit_paths d) = Inr as"
    using audit_listing(1) [OF a len] by (simp add: readAuditEntries_def)
  have "\<forall>e \<in> set as. audit_entry_ok (vo_policy vo) m e"
    using keyed_is_audit_chain(2) [OF a g(1) len] a m(2) g(1) by (auto simp: audit_entry_ok_def audit_part_def)
  then obtain w where w: "walk_audits env s (vo_policy vo) m d 0 (audit_paths d) (audit_start s (vo_policy vo)) = Inr w"
    using walk_audits_total [OF read, of env s "vo_policy vo" 0 "audit_start s (vo_policy vo)" m] keyed_is_audit_chain(1) [OF a g(1) len]
    by (auto simp: audit_start_def)
  have "aw_last w = audit_head_value s as" "aw_pinned w"
    using walk_audits_ok [OF w] read g(1) by (auto simp: audit_start_def audit_head_value_def)
  then show ?thesis
    using m(1) g w loadAuditHead_value [OF a] unfolding verifyAuditPolicyLocked_def audit_start_def [symmetric] by simp
qed

lemma inv_verifies:
  assumes inv: "ledger_inv env s es as d" and settled: "settled s es d" and len: "length es < 2 ^ 64" "length as < 2 ^ 64"
    and p: "plain_options s vo"
  obtains r where "verify_files env s vo d = Inr r" "rp_head r = head_value s es" "rp_audit_head r = audit_head_value s as"
    "rp_total r = 2 * length es" "rp_performed r = 2 * length es" "rp_claims r = []"
    "rp_known r = sorted_set (concat (map (\<lambda>e. [le_request_snapshot e, le_response_snapshot e]) es))"
proof -
  let ?p = "vo_policy vo"
  have g: "vp_genesis_event ?p = 1" "vp_genesis_audit ?p = 1" "vp_event_pin ?p = []" "vp_ledger ?p = lt_id s"
    "modeOrDefault vo = ''historical-unanchored'' \<longrightarrow> vp_allow_unanchored ?p"
    using p by (auto simp: plain_options_def Let_def)
  obtain m where m: "eventSchemaOrdinal (vp_min_event ?p) = Some m" "m \<le> 2"
    using p by (auto simp: plain_options_def Let_def eventSchemaOrdinal_def schema_names)
  have ev: "events_part env s es d" and snaps: "snapshots_part env s d" and a: "audit_part env s as d"
    using inv by (auto simp: ledger_inv_def)
  have list: "ListEvents d = Inr es"
    by (rule event_listing [OF ev len(1)])
  have verified: "verifySnapshotChecked env s (modeOrDefault vo) (vo_purges vo) sha (le_sequence e) d = Inr (True, None)"
    if "e \<in> set es" "sha \<in> {le_request_snapshot e, le_response_snapshot e}" for e sha
    using ev that by (intro good_snapshot_verifies [OF snaps]) (auto simp: events_part_def event_stored_def)
  have chain: "ledger_chain env s ?p 0 [] es"
    using ev g(1) len(1) by (intro keyed_is_ledger_chain) (auto simp: events_part_def)
  have "entry_ok env s vo m d e" if "e \<in> set es" for e
  proof -
    have "\<not> le_sequence e < 1"
      using chain_sequence_bound [of le_sequence le_previous le_sha _ _ es e] ev that len(1)
      by (auto simp: events_part_def keyed_chain_def word_less_nat_alt)
    then show ?thesis
      using ev verified [OF that] m(2) that g(1) by (auto simp: entry_ok_def Let_def events_part_def event_stored_def)
  qed
  then obtain w where w: "walk_events env s vo m d 0 es (event_start s ?p) = Inr w"
    using walk_events_ok [of env s vo m d 0 es "event_start s ?p"] chain by (auto simp: is_ok_iff)
  have w': "ew_pinned w" "ew_last w = head_value s es" "ew_claims w = []" "ew_performed w = 2 * length es" "ew_total w = 2 * length es"
    "set (ew_known w) = (\<Union>e \<in> set es. {le_request_snapshot e, le_response_snapshot e})"
    using walk_events_results [OF w] walk_events_performed [OF verified w] g(1)
    by (auto simp: event_start_def head_value_def)
  have known: "sorted_set (ew_known w) = sorted_set (concat (map (\<lambda>e. [le_request_snapshot e, le_response_snapshot e]) es))"
    using w'(6) by (intro sorted_set_cong) auto
  obtain n where n: "verifyAuditPolicyLocked env s ?p d = Inr (audit_head_value s as, n)"
    using inv_audit_verifies [OF a len(2) p] by blast
  have h: "loadHead s d = Inr (head_value s es)"
    using settled by (auto simp: settled_def intro: loadHead_value)
  have "verify_files env s vo d = Inr \<lparr>rp_head = head_value s es, rp_audit_head = audit_head_value s as, rp_frozen = ew_frozen w,
      rp_audit_frozen = n, rp_total = ew_total w, rp_performed = ew_performed w, rp_claims = [], rp_known = sorted_set (ew_known w)\<rparr>"
    using g m list w w' n h unfolding verify_files_def Let_def event_start_def [symmetric] by simp
  then show thesis
    using w' known by (intro that) auto
qed

section \<open>Reachable directories\<close>

text \<open>
  The number counts the events and audit entries that were started; \<open>k\<close> is the number of writes performed before
  the operation was cut off. Nonces have the length the cipher asks for.
\<close>

inductive ledger_reach :: "ledger_env \<Rightarrow> ledger_store \<Rightarrow> nat \<Rightarrow> ledger_files \<Rightarrow> bool" for env s where
  fresh: "(\<And>p. p \<noteq> LedgerIdFile \<Longrightarrow> fmlookup d p = None) \<Longrightarrow> ledger_reach env s 0 d"
| append: "ledger_reach env s n d \<Longrightarrow> Append env s now n1 n2 input d = (ws, r) \<Longrightarrow> length n1 = 12 \<Longrightarrow> length n2 = 12
    \<Longrightarrow> ledger_reach env s (Suc n) (apply_writes (take k ws) d)"
| audit: "ledger_reach env s n d \<Longrightarrow> AppendAudit env s now a p r i dt d = (ws, Inr e)
    \<Longrightarrow> ledger_reach env s (Suc n) (apply_writes ws d)"
| verify: "ledger_reach env s n d \<Longrightarrow> VerifyPolicy env s vo d = (ws, q) \<Longrightarrow> ledger_reach env s n (apply_writes (take k ws) d)"
| replicated: "ledger_reach env s n d \<Longrightarrow> MarkReplicated now i t d = (ws, q) \<Longrightarrow> ledger_reach env s n (apply_writes ws d)"

lemma VerifyPolicy_writes: "fst (VerifyPolicy env s vo d) = fst (recoverLocked s d)"
  by (simp add: VerifyPolicy_def andThen_def split: prod.splits sum.splits)

text \<open>The directories that such operations make of a given one, counted in the same way.\<close>

inductive ledger_later :: "ledger_env \<Rightarrow> ledger_store \<Rightarrow> ledger_files \<Rightarrow> nat \<Rightarrow> ledger_files \<Rightarrow> bool" for env s d0 where
  now: "ledger_later env s d0 0 d0"
| append: "ledger_later env s d0 n d \<Longrightarrow> Append env s now n1 n2 input d = (ws, r) \<Longrightarrow> length n1 = 12 \<Longrightarrow> length n2 = 12
    \<Longrightarrow> ledger_later env s d0 (Suc n) (apply_writes (take k ws) d)"
| audit: "ledger_later env s d0 n d \<Longrightarrow> AppendAudit env s now a p r i dt d = (ws, Inr e)
    \<Longrightarrow> ledger_later env s d0 (Suc n) (apply_writes ws d)"
| verify: "ledger_later env s d0 n d \<Longrightarrow> VerifyPolicy env s vo d = (ws, q) \<Longrightarrow> ledger_later env s d0 n (apply_writes (take k ws) d)"
| replicated: "ledger_later env s d0 n d \<Longrightarrow> MarkReplicated now i t d = (ws, q) \<Longrightarrow> ledger_later env s d0 n (apply_writes ws d)"

lemma reach_is_later:
  "ledger_reach env s n d \<Longrightarrow> \<exists>d0. (\<forall>p. p \<noteq> LedgerIdFile \<longrightarrow> fmlookup d0 p = None) \<and> ledger_later env s d0 n d"
proof (induction rule: ledger_reach.induct)
  case (fresh d)
  then show ?case
    using ledger_later.now by blast
qed (blast intro: ledger_later.intros)+

lemma later_inv:
  assumes "ledger_later env s d0 n d" and "ledger_inv env s es0 as0 d0" and "ledger_env_ok env" and "store_ok s"
    and "length es0 + length as0 + n < 2 ^ 64"
  shows "\<exists>es as. ledger_inv env s (es0 @ es) as d \<and> length (es0 @ es) + length as \<le> length es0 + length as0 + n"
  using assms(1,5)
proof (induction rule: ledger_later.induct)
  case now
  then show ?case
    using assms(2) by (intro exI [of _ "[]"] exI [of _ as0]) simp
next
  case (append n d now n1 n2 input ws r k)
  then obtain es as where inv: "ledger_inv env s (es0 @ es) as d" "length (es0 @ es) + length as \<le> length es0 + length as0 + n"
    by auto
  have "ledger_inv env s (es0 @ es) as (apply_writes (take k ws) d)
    \<or> ledger_inv env s (es0 @ (es @ [next_event env s now n1 n2 input (es0 @ es)])) as (apply_writes (take k ws) d)"
    using safe_crash [OF Append_safe [OF inv(1) assms(3,4) append.hyps(3,4)] append.hyps(2)] by simp
  then show ?case
    using inv(2) by (elim disjE) (fastforce, fastforce)
next
  case (audit n d now a p r i dt ws e)
  then obtain es as where inv: "ledger_inv env s (es0 @ es) as d" "length (es0 @ es) + length as \<le> length es0 + length as0 + n"
    by auto
  have "ledger_inv env s (es0 @ es) (as @ [e]) (apply_writes ws d)"
    using AppendAudit_inv [OF inv(1) _ audit.hyps(2), THEN conjunct2] inv(2) audit.prems by fastforce
  then show ?case
    using inv(2) by (intro exI [of _ es] exI [of _ "as @ [e]"]) simp
next
  case (verify n d vo ws q k)
  then obtain es as where inv: "ledger_inv env s (es0 @ es) as d" "length (es0 @ es) + length as \<le> length es0 + length as0 + n"
    by auto
  have "ws = fst (recoverLocked s d)"
    using verify.hyps(2) VerifyPolicy_writes [of env s vo d] by simp
  then show ?case
    using safe_crash [OF recover_safe [OF inv(1)], of ws _ k] inv(2) by (metis prod.collapse)
next
  case (replicated n d now i t ws q)
  then obtain es as where inv: "ledger_inv env s (es0 @ es) as d" "length (es0 @ es) + length as \<le> length es0 + length as0 + n"
    by auto
  have "ledger_inv env s (es0 @ es) as (apply_writes ws d)"
    using inv(1) replicated.hyps(2)
    by (subst ledger_inv_cong [of _ d]) (auto simp: MarkReplicated_def replication_path_def)
  then show ?case
    using inv(2) by blast
qed

lemma reach_inv:
  assumes "ledger_reach env s n d" and "ledger_env_ok env" and "store_ok s" and "n < 2 ^ 64"
  shows "\<exists>es as. ledger_inv env s es as d \<and> length es + length as \<le> n"
proof -
  obtain d0 where d0: "\<forall>p. p \<noteq> LedgerIdFile \<longrightarrow> fmlookup d0 p = None" "ledger_later env s d0 n d"
    using reach_is_later [OF assms(1)] by blast
  have "ledger_inv env s [] [] d0"
    using d0(1) by (simp add: inv_defs keyed_chain_def)
  from later_inv [OF d0(2) this assms(2,3)] show ?thesis
    using assms(4) by auto
qed

end
