(* ===== verification/LedgerTamper.thy ===== *)
theory LedgerTamper imports LedgerReach begin

text \<open>
  The screening ledger against changes made from outside: what verification under a policy establishes of any
  directory that passes it, and which changes it does not notice.
\<close>

section \<open>Accepted directories\<close>

lemma VerifyPolicy_ok: "VerifyPolicy env s vo d = (ws, Inr r) \<longleftrightarrow>
    recoverLocked s d = (ws, Inr ()) \<and> verify_files env s vo (apply_writes ws d) = Inr r"
  by (auto simp: VerifyPolicy_def andThen_ok)

lemma recovered_no_pending: "recoverLocked s d = (ws, Inr ()) \<Longrightarrow> fmlookup (apply_writes ws d) LedgerPendingFile = None"
  by (auto simp: recoverLocked_def andThen_ok read_pending_def readCanonicalChainFile_def split: option.splits if_splits)

lemma ledger_recover_nothing: "fmlookup d LedgerPendingFile = None \<Longrightarrow> recoverLocked s d = ([], Inr ())"
  by (simp add: recoverLocked_def andThen_readp read_pending_def readCanonicalChainFile_def)

lemma ListEvents_sorted: "ListEvents d = Inr es \<Longrightarrow> sorted_wrt (\<lambda>a b. \<not> le_sequence b < le_sequence a) es"
  by (auto simp: ListEvents_def by_sequence.sort_by_no_inversion)

text \<open>The sequence numbers of an accepted chain do not wrap, because the events are sorted by them.\<close>

lemma chain_length_bound:
  assumes "sorted_wrt (\<lambda>a b. \<not> le_sequence b < le_sequence a) es" and "ledger_chain env s p 0 [] es"
  shows "length es < 2 ^ 64"
proof (rule ccontr)
  assume "\<not> length es < 2 ^ 64"
  then have n: "2 ^ 64 - 1 < length es"
    by simp
  have "le_sequence (es ! (2 ^ 64 - 1)) = of_nat (2 ^ 64)"
    using ledger_log.sequence_of_nth [OF assms(2) n] by simp
  then have "le_sequence (es ! (2 ^ 64 - 1)) = 0"
    by simp
  moreover have "le_sequence (es ! 0) = 1"
    using ledger_log.sequence_of_nth [OF assms(2), of 0] n by (cases es) simp_all
  moreover have "\<not> le_sequence (es ! (2 ^ 64 - 1)) < le_sequence (es ! 0)"
    using sorted_wrt_nth_less [OF assms(1) _ n, of 0] by simp
  ultimately show False by simp
qed

text \<open>What is known of the events of an accepted directory.\<close>

lemma accepted_events:
  assumes "verify_files env s vo d = Inr r"
  obtains m es where "ListEvents d = Inr es" "ledger_chain env s (vo_policy vo) 0 [] es" "length es < 2 ^ 64"
    "\<forall>e \<in> set es. entry_ok env s vo m d e" "vp_genesis_event (vo_policy vo) \<noteq> 0"
    "vp_genesis_event (vo_policy vo) = 1 \<or> (\<exists>e \<in> set es. le_sequence e = vp_genesis_event (vo_policy vo) - 1)"
    "(lh_sequence (rp_head r), lh_sha (rp_head r)) = chain_last s es"
    "rp_known r = sorted_set (concat (map (\<lambda>e. [le_request_snapshot e, le_response_snapshot e]) es))"
proof -
  obtain m es w where r: "ListEvents d = Inr es" "walk_events env s vo m d 0 es (event_start s (vo_policy vo)) = Inr w"
    "ew_pinned w" "(lh_sequence (rp_head r), lh_sha (rp_head r)) = chain_last s es" "rp_known r = sorted_set (ew_known w)"
    "vp_genesis_event (vo_policy vo) \<noteq> 0"
    by (rule verify_files_report [OF assms]) metis
  have ok: "ledger_chain env s (vo_policy vo) 0 [] es" "\<forall>e \<in> set es. entry_ok env s vo m d e"
    using walk_events_ok [of env s vo m d 0 es "event_start s (vo_policy vo)"] r(2) by auto
  have "vp_genesis_event (vo_policy vo) = 1 \<or> (\<exists>e \<in> set es. le_sequence e = vp_genesis_event (vo_policy vo) - 1)"
    using walk_events_result(2) [OF r(2)] r(3) by auto
  moreover have "sorted_set (ew_known w) = sorted_set (concat (map (\<lambda>e. [le_request_snapshot e, le_response_snapshot e]) es))"
    using walk_events_result(3) [OF r(2)] by (intro sorted_set_cong) auto
  ultimately show thesis
    using that [OF r(1) ok(1) chain_length_bound [OF ListEvents_sorted [OF r(1)] ok(1)] ok(2) r(6) _ r(4)] r(5) by simp
qed

lemma chain_ok_digest: "chain_ok sq prev self h i p es \<Longrightarrow> e \<in> set es \<Longrightarrow> h e = self e"
  by (induction es arbitrary: i p) auto

text \<open>The schema and the digest of every event are decided by its position.\<close>

lemma accepted_digests:
  assumes "verify_files env s vo d = Inr r" and "ListEvents d = Inr es" and "e \<in> set es"
  shows "if le_sequence e < vp_genesis_event (vo_policy vo)
       then le_schema e = EventSchemaV1 \<and> le_sha e = legacyHashEvent env e
       else le_schema e = EventSchemaV2 \<and> le_sha e = hashEvent env (ck_chain (lt_keys s)) e"
proof -
  obtain m where es: "ledger_chain env s (vo_policy vo) 0 [] es" "\<forall>e \<in> set es. entry_ok env s vo m d e"
    by (rule accepted_events [OF assms(1)]) (use assms(2) in simp)
  have "event_hash env s (vo_policy vo) e = le_sha e"
    using chain_ok_digest [OF es(1) assms(3)] by simp
  then show ?thesis
    using es(2) assms(3) by (fastforce simp: entry_ok_def Let_def event_hash_def)
qed

section \<open>The frozen prefix\<close>

interpretation frozen_log: hash_chain le_sequence le_previous le_sha unsealed "\<lambda>h e. e\<lparr>le_sha := h\<rparr>" "legacyHashEvent env" for env
  by (rule hash_chain.intro [OF ledger_log.seal_sq ledger_log.seal_prev ledger_log.seal_self ledger_log.blank_seal
      ledger_log.prev_blank ledger_log.sq_blank ledger_log.event_eqI])

lemma nth_sequence:
  assumes "ledger_chain env s p 0 [] es" and "length es < 2 ^ 64" and "k < length es"
  shows "unat (le_sequence (es ! k)) = Suc k"
  using ledger_log.sequence_of_nth [OF assms(1,3)] assms(2,3) by (simp add: unat_of_nat take_bit_nat_eq_self del: of_nat_Suc)

text \<open>The events below the boundary are the first ones, they are chained by the unkeyed digest, and the last of them is the pinned one.\<close>

lemma frozen_prefix:
  assumes chain: "ledger_chain env s p 0 [] es" and len: "length es < 2 ^ 64"
    and last: "e \<in> set es" "le_sequence e = vp_genesis_event p - 1" and g: "1 < vp_genesis_event p"
  defines "k \<equiv> unat (vp_genesis_event p) - 1"
  shows "chain_ok le_sequence le_previous le_sha (\<lambda>e. legacyHashEvent env (unsealed e)) 0 [] (take k es)"
    and "length (take k es) = k" and "chain_head le_sha [] (take k es) = le_sha e"
    and "filter (\<lambda>e. le_sequence e < vp_genesis_event p) es = take k es"
proof -
  have gk: "unat (vp_genesis_event p) = Suc k" "0 < k"
    using g by (auto simp: k_def word_less_nat_alt)
  have "unat (vp_genesis_event p - 1) = k"
    using unat_minus_one [of "vp_genesis_event p"] gk(1) by fastforce
  then have e: "unat (le_sequence e) = k"
    using last(2) by simp
  obtain j where j: "j < length es" "e = es ! j"
    using last(1) by (metis in_set_conv_nth)
  then have jk: "k = Suc j"
    using nth_sequence [OF chain len j(1)] e by simp
  then show "length (take k es) = k"
    using j(1) by simp
  have below: "le_sequence (es ! i) < vp_genesis_event p \<longleftrightarrow> i < k" if "i < length es" for i
    using nth_sequence [OF chain len that] gk by (simp add: word_less_nat_alt)
  have "\<forall>x \<in> set (take k es). le_sequence x < vp_genesis_event p"
    using below by (auto simp: in_set_conv_nth)
  moreover have "\<forall>x \<in> set (drop k es). \<not> le_sequence x < vp_genesis_event p"
  proof
    fix x
    assume "x \<in> set (drop k es)"
    then obtain i where "i < length es - k" "x = es ! (k + i)"
      by (auto simp: in_set_conv_nth)
    then show "\<not> le_sequence x < vp_genesis_event p"
      using below [of "k + i"] by simp
  qed
  ultimately show "filter (\<lambda>e. le_sequence e < vp_genesis_event p) es = take k es"
    using filter_append [of "\<lambda>e. le_sequence e < vp_genesis_event p" "take k es" "drop k es"] by (simp add: filter_id_conv filter_empty_conv)
  have "ledger_chain env s p 0 [] (take k es)"
    using chain chain_ok_append [of le_sequence le_previous le_sha _ 0 "[]" "take k es" "drop k es"] by simp
  moreover have "event_hash env s p (unsealed x) = legacyHashEvent env (unsealed x)" if "x \<in> set (take k es)" for x
    using that \<open>\<forall>x \<in> set (take k es). le_sequence x < vp_genesis_event p\<close> by (simp add: event_hash_def)
  ultimately show "chain_ok le_sequence le_previous le_sha (\<lambda>e. legacyHashEvent env (unsealed e)) 0 [] (take k es)"
    using chain_ok_cong [of "take k es" "\<lambda>e. event_hash env s p (unsealed e)" "\<lambda>e. legacyHashEvent env (unsealed e)"] by simp
  have "take k es = take j es @ [e]"
    using j jk by (simp add: take_Suc_conv_app_nth)
  then show "chain_head le_sha [] (take k es) = le_sha e"
    by simp
qed

section \<open>Verification looks at snapshots one by one\<close>

lemma walk_events_cong:
  assumes "\<And>sha n. verifySnapshotChecked env s (modeOrDefault vo) (vo_purges vo) sha n d
      = verifySnapshotChecked env s (modeOrDefault vo) (vo_purges vo) sha n d'"
  shows "walk_events env s vo m d i es = walk_events env s vo m d' i es"
proof -
  have snaps: "check_snapshots env s (modeOrDefault vo) (vo_purges vo) n d shas w = check_snapshots env s (modeOrDefault vo) (vo_purges vo) n d' shas w" for n shas w
    by (induction shas arbitrary: w) (simp_all add: assms)
  have "check_event env s vo m d i e w = check_event env s vo m d' i e w" for i e w
    unfolding check_event_def Let_def snaps ..
  note c = this
  show ?thesis
  proof (induction es arbitrary: i)
    case (Cons e es)
    show ?case
      by (rule ext) (simp only: walk_events.simps c Cons.IH)
  qed (auto simp: fun_eq_iff)
qed

lemma read_all_cong: "(\<And>p. p \<in> set ps \<Longrightarrow> fmlookup d p = fmlookup d' p) \<Longrightarrow> read_all sel d ps = read_all sel d' ps"
  by (induction ps) (auto simp: readCanonicalChainFile_def)

lemma walk_audits_cong: "(\<And>p. p \<in> set ps \<Longrightarrow> fmlookup d p = fmlookup d' p) \<Longrightarrow> walk_audits env s policy m d i ps w = walk_audits env s policy m d' i ps w"
proof (induction ps arbitrary: i w)
  case (Cons p ps)
  have "readCanonicalChainFile as_ledger_audit p d = readCanonicalChainFile as_ledger_audit p d'"
    by (rule read_cong) (simp add: Cons.prems)
  then show ?case
    using Cons by (cases "readCanonicalChainFile as_ledger_audit p d'") (simp_all add: ext [of "walk_audits env s policy m d (Suc i) ps"])
qed simp

lemma listing_cong:
  assumes "\<And>n. fmlookup d (LedgerEventFile n) = fmlookup d' (LedgerEventFile n)"
  shows "ListEvents d = ListEvents d'"
proof -
  have "event_paths d = event_paths d'"
    using assms by (auto simp: event_paths_def intro!: arg_cong [of _ _ "map LedgerEventFile"] json_names_cong)
  moreover have "read_all as_ledger_event d (event_paths d') = read_all as_ledger_event d' (event_paths d')"
    using assms by (intro read_all_cong) (auto simp: event_paths_set)
  ultimately show ?thesis
    by (simp add: ListEvents_def)
qed

lemma audit_verification_cong:
  assumes "\<And>n. fmlookup d (LedgerAuditFile n) = fmlookup d' (LedgerAuditFile n)"
    and "fmlookup d LedgerAuditHeadFile = fmlookup d' LedgerAuditHeadFile"
  shows "verifyAuditPolicyLocked env s policy d = verifyAuditPolicyLocked env s policy d'"
proof -
  have paths: "audit_paths d = audit_paths d'"
    using assms(1) by (auto simp: audit_paths_def intro!: arg_cong [of _ _ "map LedgerAuditFile"] json_names_cong)
  have walk: "walk_audits env s policy m d 0 (audit_paths d') w = walk_audits env s policy m d' 0 (audit_paths d') w" for m w
    using assms(1) by (intro walk_audits_cong) (auto simp: audit_paths_set)
  have head: "loadAuditHead s d = loadAuditHead s d'"
    using assms(2) by (simp add: loadAuditHead_def readCanonicalChainFile_def)
  show ?thesis
    unfolding verifyAuditPolicyLocked_def paths walk head ..
qed

lemma verify_files_cong:
  assumes "\<And>sha n. verifySnapshotChecked env s (modeOrDefault vo) (vo_purges vo) sha n d
      = verifySnapshotChecked env s (modeOrDefault vo) (vo_purges vo) sha n d'"
    and "\<And>p. p \<notin> range LedgerSnapshotFile \<union> range LedgerReplicationFile \<Longrightarrow> fmlookup d p = fmlookup d' p"
  shows "verify_files env s vo d = verify_files env s vo d'"
proof -
  have "fmlookup d LedgerHeadFile = fmlookup d' LedgerHeadFile"
    by (rule assms(2)) auto
  then have head: "ListEvents d = ListEvents d'" "loadHead s d = loadHead s d'"
    using assms(2) by (auto intro!: listing_cong simp: loadHead_def readCanonicalChainFile_def)
  have audit: "verifyAuditPolicyLocked env s policy d = verifyAuditPolicyLocked env s policy d'" for policy
    using assms(2) by (intro audit_verification_cong) auto
  show ?thesis
    unfolding verify_files_def walk_events_cong [OF assms(1)] head audit ..
qed

section \<open>Two audit entries of one number\<close>

lemma audit_chain_distinct:
  assumes "audit_chain env s p 0 [] es" and "length es < 2 ^ 64" and "e \<in> set es" "f \<in> set es" "la_sequence e = la_sequence f"
  shows "e = f"
proof -
  obtain i j where i: "i < length es" "e = es ! i" and j: "j < length es" "f = es ! j"
    using assms(3,4) by (metis in_set_conv_nth)
  have "(of_nat (Suc i) :: 64 word) = of_nat (Suc j)"
    using ledger_audit_log.sequence_of_nth [OF assms(1)] i j assms(5) by simp
  then have "Suc i = Suc j"
    using i(1) j(1) assms(2) by (simp add: word_unat_eq_iff unat_of_nat take_bit_nat_eq_self del: of_nat_Suc)
  then show ?thesis
    using i j by simp
qed

end
