(* ===== verification/LedgerAnchorProofs.thy ===== *)
theory LedgerAnchorProofs imports LedgerAnchor LedgerTamper begin

text \<open>
  What acceptance against an anchor means: the chains pass through the anchored digests, and in anchored mode every
  purge claim has been adjudicated.
\<close>

section \<open>The outcome of verification\<close>

lemma VerifyAnchored_ok: "VerifyAnchored env s ao d = (ws, Inr rep) \<longleftrightarrow>
    (\<exists>r. VerifyPolicy env s (deferred_options ao) d = (ws, Inr r) \<and> verify_after_policy env s ao r (apply_writes ws d) = Inr rep)"
  by (auto simp: VerifyAnchored_def split: prod.splits sum.splits)

lemma plainly_ok [simp]: "plainly r = Inr x \<longleftrightarrow> r = Inr x"
  by (cases r) (simp_all add: plainly_def)

lemma failing_ok [simp]: "failing r = Inr x \<longleftrightarrow> r = Inr x"
  by (cases r) (simp_all add: failing_def)

lemma in_ledger_ok [simp]: "in_ledger r = Inr x \<longleftrightarrow> r = Inr x"
  by (cases r) (simp_all add: in_ledger_def)

lemma anchor_row_used:
  assumes "verify_after_policy env s ao r d = Inr rep" and "ao_anchors ao = Some rd" and "ar_latest rd (lt_id s) = Inr (Some a)"
  shows "verify_with_anchor env s ao rd r a d = Inr rep"
  using assms by (auto simp: verify_after_policy_def Let_def plainly_def split: if_splits option.splits sum.splits)

lemma verify_with_anchor_ok:
  assumes "verify_with_anchor env s ao rd r a d = Inr rep"
  shows "check_against_anchor env ao r a d = Inr ()"
    and "anchor_mode ao = ''anchored'' \<Longrightarrow> \<exists>shared. adjudicatePurgeClaims env s (rp_claims r) a rd (ao_key ao) (rp_known r) (ao_purges ao)
      (vp_tenancy (ao_policy ao)) d = Inr shared"
  using assms by (auto simp: verify_with_anchor_def split: if_splits)

lemma deferred_simps [simp]:
  "vo_policy (deferred_options ao) = ao_policy ao" "modeOrDefault (deferred_options ao) = anchor_mode ao" "vo_purges (deferred_options ao) \<longleftrightarrow> ao_purges ao \<noteq> None"
  by (simp_all add: deferred_options_def modeOrDefault_def anchor_mode_def)

section \<open>The chain at the anchored sequence\<close>

lemma find_sequence_ok:
  "find_sequence sq sel err n d ps = Inr x \<Longrightarrow> read_all sel d ps = Inr xs \<Longrightarrow> x \<in> set xs \<and> sq x = n"
  by (induction ps arbitrary: xs) (auto split: if_splits)

lemma event_at_ok: "eventAtSequence n d = Inr e \<Longrightarrow> ListEvents d = Inr es \<Longrightarrow> e \<in> set es \<and> le_sequence e = n"
  unfolding eventAtSequence_def ListEvents_def by (auto dest: find_sequence_ok)

lemma audit_at_ok: "auditEntryAtSequence n d = Inr e \<Longrightarrow> readAuditEntries d = Inr es \<Longrightarrow> e \<in> set es \<and> la_sequence e = n"
  unfolding auditEntryAtSequence_def readAuditEntries_def by (auto dest: find_sequence_ok)

lemma check_chain_at_ok: "check_chain_at c h at n g = Inr () \<longleftrightarrow>
    n \<le> sint (lh_sequence h) \<and> (if n = sint (lh_sequence h) then lh_sha h = g else at (of_int n) = Inr g)"
  by (auto simp: check_chain_at_def)

lemma sequence_at:
  assumes "chain_ok sq prev self h i p es" and "k < length es"
  shows "sq (es ! k) = of_nat (Suc (i + k))"
  using assms
proof (induction es arbitrary: i p k)
  case (Cons e es)
  then show ?case by (cases k) auto
qed simp

text \<open>A chain accepted at a positive sequence passes through the anchored digest there.\<close>

lemma chain_at_anchor:
  assumes chain: "chain_ok sq prev self h 0 [] es" and len: "length es < 2 ^ 64"
    and head: "(lh_sequence hh, lh_sha hh) = (if es = [] then (0, []) else (sq (last es), self (last es)))"
    and ok: "check_chain_at c hh at n g = Inr ()" and at: "\<And>m y. at m = Inr y \<Longrightarrow> \<exists>e \<in> set es. sq e = m \<and> self e = y"
    and n: "0 < n"
  shows "nat n \<le> length es \<and> chain_head self [] (take (nat n) es) = g"
proof -
  have le: "n \<le> sint (lh_sequence hh)"
    using ok by (simp add: check_chain_at_ok)
  have seq: "unat (sq (es ! k)) = Suc k" if "k < length es" for k
    using sequence_at [OF chain that] that len by (simp add: unat_of_nat take_bit_nat_eq_self del: of_nat_Suc)
  have big: "n < 2 ^ 63"
    using le sint_lt [of "lh_sequence hh"] by simp
  have "\<exists>e \<in> set es. sq e = of_int n \<and> self e = g"
  proof (cases "n = sint (lh_sequence hh)")
    case True
    then have ne: "es \<noteq> []"
      using n head by (cases "es = []") simp_all
    then have h: "lh_sequence hh = sq (last es)" "lh_sha hh = self (last es)"
      using head by simp_all
    have "sq (last es) = of_int n"
      unfolding True h(1) [symmetric] by simp
    moreover have "self (last es) = g"
      using ok True h(2) by (simp add: check_chain_at_ok)
    ultimately show ?thesis
      using last_in_set [OF ne] by blast
  next
    case False
    then have "at (of_int n) = Inr g"
      using ok by (simp add: check_chain_at_ok)
    then show ?thesis
      by (rule at)
  qed
  then obtain j where j: "j < length es" "sq (es ! j) = of_int n" "self (es ! j) = g"
    unfolding Bex_def in_set_conv_nth by blast
  have "uint (of_int n :: 64 word) = n"
    using n big by (simp only: uint_word_of_int) simp
  then have "unat (of_int n :: 64 word) = nat n"
    by (simp only: unat_eq_nat_uint)
  then have k: "nat n = Suc j"
    using seq [OF j(1)] j(2) by simp
  then have "take (nat n) es = take j es @ [es ! j]"
    using j(1) by (simp add: take_Suc_conv_app_nth)
  then show ?thesis
    using k j by simp
qed

lemma chain_ok_take: "chain_ok sq prev self h i p es \<Longrightarrow> chain_ok sq prev self h i p (take k es)"
  using chain_ok_append [of sq prev self h i p "take k es" "drop k es"] by simp

text \<open>The events and audit entries of an accepted directory at the anchored sequences.\<close>

lemma accepted_at_anchor:
  assumes v: "VerifyAnchored env s ao d = (ws, Inr rep)" and rd: "ao_anchors ao = Some rd" "ar_latest rd (lt_id s) = Inr (Some a)"
  obtains r es as where "verify_files env s (deferred_options ao) (apply_writes ws d) = Inr r"
    "verify_with_anchor env s ao rd r a (apply_writes ws d) = Inr rep"
    "ListEvents (apply_writes ws d) = Inr es" "ledger_chain env s (ao_policy ao) 0 [] es"
    "0 < an_sequence a \<Longrightarrow> nat (an_sequence a) \<le> length es \<and> chain_head le_sha [] (take (nat (an_sequence a)) es) = an_event a"
    "readAuditEntries (apply_writes ws d) = Inr as" "audit_chain env s (ao_policy ao) 0 [] as"
    "length as < 2 ^ 64 \<Longrightarrow> 0 < an_audit_sequence a
      \<Longrightarrow> nat (an_audit_sequence a) \<le> length as \<and> chain_head la_sha [] (take (nat (an_audit_sequence a)) as) = an_audit a"
proof -
  let ?d = "apply_writes ws d"
  obtain r where r: "VerifyPolicy env s (deferred_options ao) d = (ws, Inr r)" "verify_after_policy env s ao r ?d = Inr rep"
    using v by (auto simp: VerifyAnchored_ok)
  then have f: "verify_files env s (deferred_options ao) ?d = Inr r"
    by (simp add: VerifyPolicy_ok)
  have w: "verify_with_anchor env s ao rd r a ?d = Inr rep"
    by (rule anchor_row_used [OF r(2) rd])
  have c: "check_chain_at Events (rp_head r) (\<lambda>n. res_bind (eventAtSequence n ?d) (\<lambda>e. Inr (le_sha e))) (an_sequence a) (an_event a) = Inr ()"
    "check_chain_at Audits (rp_audit_head r) (\<lambda>n. res_bind (auditEntryAtSequence n ?d) (\<lambda>e. Inr (la_sha e))) (an_audit_sequence a) (an_audit a) = Inr ()"
    using verify_with_anchor_ok(1) [OF w] by (auto simp: check_against_anchor_def)
  obtain m es where es: "ListEvents ?d = Inr es" "ledger_chain env s (ao_policy ao) 0 [] es" "length es < 2 ^ 64"
    "(lh_sequence (rp_head r), lh_sha (rp_head r)) = chain_last s es"
    by (rule accepted_events [OF f]) (metis deferred_simps(1))
  obtain as where as: "readAuditEntries ?d = Inr as" "audit_chain env s (ao_policy ao) 0 [] as"
    "(lh_sequence (rp_audit_head r), lh_sha (rp_audit_head r)) = audit_last as"
    using verify_files_report [OF f] by (metis deferred_simps(1) verify_audit_ok)
  have e: "nat (an_sequence a) \<le> length es \<and> chain_head le_sha [] (take (nat (an_sequence a)) es) = an_event a" if "0 < an_sequence a"
    using es(4) event_at_ok [OF _ es(1)] that
    by (intro chain_at_anchor [OF es(2,3) _ c(1)]) (auto simp: chain_last_def)
  have x: "nat (an_audit_sequence a) \<le> length as \<and> chain_head la_sha [] (take (nat (an_audit_sequence a)) as) = an_audit a"
    if "length as < 2 ^ 64" "0 < an_audit_sequence a"
    using as(3) audit_at_ok [OF _ as(1)] that
    by (intro chain_at_anchor [OF as(2) that(1) _ c(2)]) (auto simp: audit_last_def)
  show thesis
    by (rule that [OF f w es(1,2) e as(1,2) x])
qed

section \<open>Purge claims\<close>

text \<open>Every purged snapshot an event refers to is claimed when a source of purge records is configured.\<close>

lemma check_snapshots_claims:
  "check_snapshots env s mode True n d shas w = Inr w' \<Longrightarrow>
     set (ew_claims w) \<subseteq> set (ew_claims w')
     \<and> (\<forall>sha \<in> set shas. \<forall>x. LoadSnapshot sha d = Inr x \<longrightarrow> ls_purged x \<noteq> [] \<longrightarrow> (sha, n) \<in> set (ew_claims w'))"
proof (induction shas arbitrary: w)
  case (Cons sha shas)
  then obtain b c where v: "verifySnapshotChecked env s mode True sha n d = Inr (b, c)"
    by auto
  have "c = Some (sha, n)" if "LoadSnapshot sha d = Inr x" "ls_purged x \<noteq> []" for x
    using v that by (auto simp: verifySnapshotChecked_def split: if_splits)
  then show ?case
    using Cons.prems Cons.IH by (fastforce simp: v)
qed simp

lemma check_event_claims:
  assumes "check_event env s vo m d i e w = Inr w'" and "vo_purges vo"
  shows "set (ew_claims w) \<subseteq> set (ew_claims w')
     \<and> (\<forall>sha \<in> {le_request_snapshot e, le_response_snapshot e}. \<forall>x. LoadSnapshot sha d = Inr x \<longrightarrow> ls_purged x \<noteq> []
          \<longrightarrow> (sha, le_sequence e) \<in> set (ew_claims w'))"
proof -
  obtain w0 w1 where w1: "check_snapshots env s (modeOrDefault vo) True (le_sequence e) d [le_request_snapshot e, le_response_snapshot e] w0 = Inr w1"
    and "ew_claims w0 = ew_claims w" "ew_claims w' = ew_claims w1"
    using assms by (auto simp: check_event_def Let_def simp del: check_snapshots.simps split: if_splits)
  then show ?thesis
    using check_snapshots_claims [OF w1] by simp
qed

lemma walk_events_claims:
  assumes "vo_purges vo"
  shows "walk_events env s vo m d i es w = Inr w' \<Longrightarrow>
     set (ew_claims w) \<subseteq> set (ew_claims w')
     \<and> (\<forall>e \<in> set es. \<forall>sha \<in> {le_request_snapshot e, le_response_snapshot e}. \<forall>x. LoadSnapshot sha d = Inr x \<longrightarrow> ls_purged x \<noteq> []
          \<longrightarrow> (sha, le_sequence e) \<in> set (ew_claims w'))"
proof (induction es arbitrary: i w)
  case (Cons e es)
  then obtain w1 where w1: "check_event env s vo m d i e w = Inr w1" "walk_events env s vo m d (Suc i) es w1 = Inr w'"
    by auto
  show ?case
    using Cons.IH [OF w1(2)] check_event_claims [OF w1(1) assms] by (simp add: subset_iff)
qed simp

lemma purged_is_claimed:
  assumes f: "verify_files env s vo d = Inr r" and mode: "modeOrDefault vo = ''anchored''"
    and e: "ListEvents d = Inr es" "e \<in> set es" "sha \<in> {le_request_snapshot e, le_response_snapshot e}"
    and x: "LoadSnapshot sha d = Inr x" "ls_purged x \<noteq> []"
  shows "vo_purges vo \<and> (sha, le_sequence e) \<in> set (rp_claims r)"
proof -
  obtain m w where w: "walk_events env s vo m d 0 es (event_start s (vo_policy vo)) = Inr w" "rp_claims r = ew_claims w"
    by (rule verify_files_report [OF f]) (use e(1) in simp)
  have "entry_ok env s vo m d e"
    using walk_events_ok [of env s vo m d 0 es "event_start s (vo_policy vo)"] w(1) e(2) by simp
  then have "is_ok (verifySnapshotChecked env s ''anchored'' (vo_purges vo) sha (le_sequence e) d)"
    using e(3) mode by (auto simp: entry_ok_def Let_def)
  then have "vo_purges vo"
    using x by (auto simp: verifySnapshotChecked_def split: if_splits)
  then show ?thesis
    using walk_events_claims [OF _ w(1)] e(2,3) x w(2) by auto
qed

lemma attest_cases: "attest e shas m sha = Some x \<Longrightarrow> x = e \<and> sha \<in> set shas \<or> m sha = Some x"
proof (induction shas arbitrary: m)
  case (Cons a shas)
  then show ?case
    by (fastforce split: option.splits if_splits)
qed simp

lemma attesting_entry:
  assumes "attestingAuditEntries d = Inr m" and "m sha = Some x"
  shows "\<exists>as. readAuditEntries d = Inr as \<and> x \<in> set as \<and> sha \<in> set (attested_by x)"
proof -
  obtain as where as: "readAuditEntries d = Inr as" "m = fold (\<lambda>e. attest e (attested_by e)) as (\<lambda>_. None)"
    using assms(1) by (auto simp: attestingAuditEntries_def split: sum.splits)
  have "fold (\<lambda>e. attest e (attested_by e)) as k sha = Some x \<Longrightarrow> x \<in> set as \<and> sha \<in> set (attested_by x) \<or> k sha = Some x" for k
    by (induction as arbitrary: k) (auto dest: attest_cases)
  then show ?thesis
    using assms(2) as by auto
qed

text \<open>Obligations only grow.\<close>

definition owed :: "obligations \<Rightarrow> string \<Rightarrow> int \<Rightarrow> bool" where
  "owed ob sha t \<longleftrightarrow> (\<exists>n u. ob sha = Some (n, u) \<and> t \<le> u)"

lemma add_obligation_owed: "owed ob sha t \<Longrightarrow> owed (add_obligation u x ob) sha t" "owed (add_obligation u x ob) x u"
  by (auto simp: owed_def add_obligation_def split: option.splits)

lemma fold_obligation_owed: "owed ob sha t \<Longrightarrow> owed (fold (add_obligation u) xs ob) sha t"
  by (induction xs arbitrary: ob) (auto intro: add_obligation_owed)

lemma fold_obligation_added: "sha \<in> set xs \<Longrightarrow> owed (fold (add_obligation u) xs ob) sha u"
  by (induction xs arbitrary: ob) (auto intro: add_obligation_owed fold_obligation_owed)

lemma obligations_loop_owed:
  "obligations_loop env es ob = Inr ob' \<Longrightarrow>
     (\<forall>sha t. owed ob sha t \<longrightarrow> owed ob' sha t)
     \<and> (\<forall>e \<in> set es. \<exists>u. lx_time env (le_expires e) = Some u \<and> (\<forall>sha \<in> set (snapshot_refs e). owed ob' sha (u - u mod 1000)))"
proof (induction es arbitrary: ob)
  case (Cons e es)
  then obtain u where u: "lx_time env (le_expires e) = Some u" "obligations_loop env es (fold (add_obligation (u - u mod 1000)) (snapshot_refs e) ob) = Inr ob'"
    by (auto split: option.splits)
  show ?case
    using Cons.IH [OF u(2)] u(1) by (auto intro: fold_obligation_owed fold_obligation_added)
qed simp

lemma forSnapshot_bound: "forSnapshot b px l sha = Inr t \<Longrightarrow> lb_obligations b sha = Some (n, m) \<Longrightarrow> m \<le> t"
  by (cases "px_aggregate px sha l") (auto simp: forSnapshot_def simp del: res_bind_Inr split: option.splits if_splits)

lemma lower_bound_owed:
  assumes "loadPurgeLowerBoundSource env s rd k n d = Inr b" and "ListEvents d = Inr es" and "forSnapshot b px l sha = Inr t"
    and "e \<in> set es" and "sha \<in> set (snapshot_refs e)"
  shows "\<exists>u. lx_time env (le_expires e) = Some u \<and> u - u mod 1000 \<le> t"
proof -
  have "computeSnapshotObligations env es = Inr (lb_obligations b)"
    using assms(1,2) by (auto simp: loadPurgeLowerBoundSource_def)
  then obtain u where u: "lx_time env (le_expires e) = Some u" "owed (lb_obligations b) sha (u - u mod 1000)"
    using obligations_loop_owed [of env es _ "lb_obligations b"] assms(4,5) by (fastforce simp: computeSnapshotObligations_def)
  then show ?thesis
    using forSnapshot_bound [OF assms(3)] by (fastforce simp: owed_def)
qed

text \<open>What acceptance in anchored mode establishes of a purged snapshot that an event refers to.\<close>

lemma adjudicated_purge:
  assumes v: "VerifyAnchored env s ao d = (ws, Inr rep)" and mode: "anchor_mode ao = ''anchored''"
    and rd: "ao_anchors ao = Some rd" "ar_latest rd (lt_id s) = Inr (Some a)"
    and e: "ListEvents (apply_writes ws d) = Inr es" "e \<in> set es" "sha \<in> set (snapshot_refs e)"
    and x: "LoadSnapshot sha (apply_writes ws d) = Inr x" "ls_purged x \<noteq> []"
  obtains px b as entry t l where "ao_purges ao = Some px" "loadPurgeLowerBoundSource env s rd (ao_key ao) (an_sequence a) (apply_writes ws d) = Inr b"
    "readAuditEntries (apply_writes ws d) = Inr as" "entry \<in> set as" "sha \<in> set (attested_by entry)"
    "sint (la_sequence entry) \<le> an_audit_sequence a" "px_record px sha = Inr (Some t)" "forSnapshot b px (lt_id s) sha = Inr l"
    "purgeAttributionMismatch t entry (an_at a) l = Inr ()"
proof -
  let ?d = "apply_writes ws d"
  obtain r where r: "verify_files env s (deferred_options ao) ?d = Inr r" "verify_with_anchor env s ao rd r a ?d = Inr rep"
    by (rule accepted_at_anchor [OF v rd])
  have claim: "ao_purges ao \<noteq> None" "(sha, le_sequence e) \<in> set (rp_claims r)"
    using purged_is_claimed [OF r(1) _ e(1,2) _ x] e(3) mode by (auto simp: snapshot_refs_def split: if_splits)
  then obtain px where px: "ao_purges ao = Some px" by auto
  obtain shared where "adjudicatePurgeClaims env s (rp_claims r) a rd (ao_key ao) (rp_known r) (ao_purges ao) (vp_tenancy (ao_policy ao)) ?d = Inr shared"
    using verify_with_anchor_ok(2) [OF r(2) mode] by blast
  then obtain m b where b: "attestingAuditEntries ?d = Inr m" "loadPurgeLowerBoundSource env s rd (ao_key ao) (an_sequence a) ?d = Inr b"
    "first_err (adjudicate_claim s \<lparr>ad_attesting = m, ad_bound = b, ad_anchor = a\<rparr> (Some px)) (rp_claims r) = Inr ()"
    by (auto simp: adjudicatePurgeClaims_def px Let_def)
  then have "adjudicate_claim s \<lparr>ad_attesting = m, ad_bound = b, ad_anchor = a\<rparr> (Some px) (sha, le_sequence e) = Inr ()"
    using claim(2) by (simp add: first_err_ok)
  then obtain entry t l where c: "m sha = Some entry" "sint (la_sequence entry) \<le> an_audit_sequence a" "px_record px sha = Inr (Some t)"
    "forSnapshot b px (lt_id s) sha = Inr l" "purgeAttributionMismatch t entry (an_at a) l = Inr ()"
    by (auto simp: adjudicate_claim_def Let_def split: option.splits if_splits)
  obtain as where as: "readAuditEntries ?d = Inr as" "entry \<in> set as" "sha \<in> set (attested_by entry)"
    using attesting_entry [OF b(1) c(1)] by blast
  show thesis
    by (rule that [OF px b(2) as c(2-5)])
qed

end
