(* ===== verification/LedgerRetentionProofs.thy ===== *)
theory LedgerRetentionProofs imports LedgerRetention LedgerAnchorProofs begin

text \<open>What a purge writes, whatever the retention table answers and wherever it is cut off; and what redaction leaves.\<close>

section \<open>The writes of a purge\<close>

lemma LoadSnapshot_lookup: "LoadSnapshot sha d = Inr x \<longleftrightarrow> fmlookup d (snapshot_path sha) = Some (LSnapshot x)"
  by (auto simp: LoadSnapshot_def chain_read_ok elim!: as_snapshot.elims)

lemma eligible_ok:
  "eligible_snapshots env now es d keys = Inr el \<Longrightarrow> distinct keys \<Longrightarrow>
     distinct el \<and> set el \<subseteq> set keys \<and> (\<forall>sha \<in> set el. list_all (released env now d) (references sha es)
       \<and> (\<exists>x. LoadSnapshot sha d = Inr x \<and> ls_purged x = []))"
  by (induction keys arbitrary: el) (auto split: if_splits)

lemma references_iff: "e \<in> set (references sha es) \<longleftrightarrow> e \<in> set es \<and> sha \<in> {le_request_snapshot e, le_response_snapshot e}"
  by (auto simp: references_def)

definition purge_writes :: "ledger_env \<Rightarrow> int \<Rightarrow> string \<Rightarrow> ledger_files \<Rightarrow> string list \<Rightarrow> (ledger_path, ledger_file) file_write list" where
  "purge_writes env now reason d shas =
     map (\<lambda>sha. Put (snapshot_path sha) (LSnapshot (purged_envelope env now reason (projr (LoadSnapshot sha d))))) shas"

lemma purge_loop_run:
  assumes "distinct shas" and "\<forall>sha \<in> set shas. is_ok (LoadSnapshot sha d)"
  shows "purge_loop env now reason recorded shas purged d =
    (purge_writes env now reason d (filter (\<lambda>sha. sha \<in> set recorded) shas), Inr (purged @ filter (\<lambda>sha. sha \<in> set recorded) shas))"
  using assms
proof (induction shas arbitrary: purged d)
  case (Cons sha shas)
  obtain x where x: "LoadSnapshot sha d = Inr x"
    using Cons.prems(2) by (auto simp: is_ok_iff)
  let ?d = "fmupd (snapshot_path sha) (LSnapshot (purged_envelope env now reason x)) d"
  have same: "LoadSnapshot b ?d = LoadSnapshot b d" if "b \<in> set shas" for b
    using that Cons.prems(1) by (auto simp: LoadSnapshot_def readCanonicalChainFile_def)
  then have "purge_writes env now reason ?d (filter (\<lambda>sha. sha \<in> set recorded) shas)
      = purge_writes env now reason d (filter (\<lambda>sha. sha \<in> set recorded) shas)"
    by (simp add: purge_writes_def)
  moreover have "\<forall>b \<in> set shas. is_ok (LoadSnapshot b ?d)"
    using same Cons.prems(2) by simp
  ultimately show ?case
    using Cons.IH [of ?d] Cons.IH [of d] Cons.prems x
    by (simp add: andThen_def counted_def in_ledger_def map_error_def purge_writes_def)
qed (simp add: purge_writes_def)

text \<open>Either nothing is written, or the confirmed snapshots and then the audit entry that names them.\<close>

lemma AppendAudit_writes:
  "AppendAudit env s at a p r i dt d = (us, q) \<Longrightarrow> us = [] \<and> \<not> is_ok q \<or>
     (\<exists>e. q = Inr e \<and> us = [Put (audit_path e) (LAudit e), Put LedgerAuditHeadFile (LHead (audit_head s e))]
        \<and> la_action e = a \<and> la_operator e = p \<and> la_reason e = r \<and> la_details e = dt)"
  by (auto simp: AppendAudit_def andThen_readp andThen_writep Let_def new_audit_def draft_audit_def split: sum.splits)

lemma counted_read:
  "andThen (readp (\<lambda>d. counted n (r d))) f d = (case r d of Inl e \<Rightarrow> ([], Inl (n, PurgeFailed e)) | Inr x \<Rightarrow> f x d)"
  by (simp add: andThen_readp counted_def map_error_def split: sum.split)

lemma in_ledger_case: "(case in_ledger r of Inl e \<Rightarrow> f e | Inr x \<Rightarrow> g x) = (case r of Inl e \<Rightarrow> f (LedgerFailed e) | Inr x \<Rightarrow> g x)"
  by (simp add: in_ledger_def map_error_def split: sum.split)

definition purge_tail where
  "purge_tail env s now operator reason at el recorded =
     andThen (purge_loop env now reason recorded el []) (\<lambda>purged.
     andThen (lift_errors (\<lambda>e. (length purged, PurgeFailed (LedgerFailed e)))
               (AppendAudit env s at ''purge_expired'' operator reason [] (Some (purge_details (sort purged))))) (\<lambda>_.
     ret (length purged)))"

lemma purge_start:
  "(\<exists>e. PurgeExpired env s order recorder now operator reason tenancy at d = ([], Inl e)) \<or>
   (\<exists>rc es el ob recorded. recorder = Some rc \<and> tenancy = ''exclusive'' \<and> ListEvents d = Inr es
      \<and> eligible_snapshots env now es d (order es) = Inr el \<and> computeSnapshotObligations env es = Inr ob
      \<and> rc el ob (lt_id s) operator reason = Inr recorded
      \<and> PurgeExpired env s order recorder now operator reason tenancy at d = purge_tail env s now operator reason at el recorded d)"
  by (auto simp: PurgeExpired_def counted_read in_ledger_case purge_tail_def [symmetric] split: option.split sum.split)

lemma purge_run:
  assumes run: "PurgeExpired env s order recorder now operator reason tenancy at d = (ws, q)" and distinct: "\<And>es. distinct (order es)"
  obtains "ws = []" "\<not> is_ok q"
  | rc es el ob recorded us p where "recorder = Some rc" "tenancy = ''exclusive''" "ListEvents d = Inr es"
      "eligible_snapshots env now es d (order es) = Inr el" "computeSnapshotObligations env es = Inr ob"
      "rc el ob (lt_id s) operator reason = Inr recorded"
      "ws = purge_writes env now reason d (filter (\<lambda>sha. sha \<in> set recorded) el) @ us"
      "AppendAudit env s at ''purge_expired'' operator reason [] (Some (purge_details (sort (filter (\<lambda>sha. sha \<in> set recorded) el))))
         (apply_writes (purge_writes env now reason d (filter (\<lambda>sha. sha \<in> set recorded) el)) d) = (us, p)"
      "is_ok q = is_ok p" "\<And>n. q = Inr n \<Longrightarrow> n = length (filter (\<lambda>sha. sha \<in> set recorded) el)"
  using purge_start [of env s order recorder now operator reason tenancy at d]
proof (elim disjE exE conjE)
  fix rc es el ob recorded
  assume start: "recorder = Some rc" "tenancy = ''exclusive''" "ListEvents d = Inr es"
    "eligible_snapshots env now es d (order es) = Inr el" "computeSnapshotObligations env es = Inr ob"
    "rc el ob (lt_id s) operator reason = Inr recorded"
    and tail: "PurgeExpired env s order recorder now operator reason tenancy at d = purge_tail env s now operator reason at el recorded d"
  let ?ps = "filter (\<lambda>sha. sha \<in> set recorded) el"
  let ?vs = "purge_writes env now reason d ?ps"
  have loop: "purge_loop env now reason recorded el [] d = (?vs, Inr ?ps)"
    using eligible_ok [OF start(4) distinct] purge_loop_run [of el d env now reason recorded "[]"] by (auto simp: is_ok_iff)
  obtain us p where audit: "AppendAudit env s at ''purge_expired'' operator reason [] (Some (purge_details (sort ?ps))) (apply_writes ?vs d) = (us, p)"
    by fastforce
  have "purge_tail env s now operator reason at el recorded d
      = (?vs @ us, map_error (\<lambda>e. (length ?ps, PurgeFailed (LedgerFailed e))) (case p of Inl e \<Rightarrow> Inl e | Inr _ \<Rightarrow> Inr (length ?ps)))"
    by (simp add: purge_tail_def andThen_def loop audit lift_errors_def map_error_def split: sum.splits)
  with run tail have "ws = ?vs @ us" "q = map_error (\<lambda>e. (length ?ps, PurgeFailed (LedgerFailed e))) (case p of Inl e \<Rightarrow> Inl e | Inr _ \<Rightarrow> Inr (length ?ps))"
    by simp_all
  then show thesis
    using that(2) [OF start _ audit] by (auto simp: map_error_def split: sum.splits)
qed (use run that(1) in simp)

section \<open>What a purge changes\<close>

lemma last_write_cases: "last_write p ws c = c \<or> (\<exists>w \<in> set ws. path_of w = p \<and> last_write p ws c = content_of w)"
proof (induction ws arbitrary: c)
  case (Cons w ws)
  show ?case
    using Cons.IH [of "if path_of w = p then content_of w else c"] by (auto split: if_splits)
qed simp

text \<open>Which snapshots a purge may blank.\<close>

definition purgeable :: "ledger_env \<Rightarrow> int \<Rightarrow> ledger_event list \<Rightarrow> ledger_files \<Rightarrow> string \<Rightarrow> bool" where
  "purgeable env now es d sha \<longleftrightarrow> (\<exists>x. LoadSnapshot sha d = Inr x \<and> ls_purged x = [])
     \<and> (\<forall>e \<in> set es. sha \<in> {le_request_snapshot e, le_response_snapshot e} \<longrightarrow>
          \<not> held (le_id e) d \<and> (\<exists>t. lx_time env (le_expires e) = Some t \<and> t \<le> now))"

lemma eligible_purgeable:
  assumes "eligible_snapshots env now es d keys = Inr el" and "distinct keys" and "sha \<in> set el"
  shows "purgeable env now es d sha"
proof -
  have r: "list_all (released env now d) (references sha es)" "\<exists>x. LoadSnapshot sha d = Inr x \<and> ls_purged x = []"
    using eligible_ok [OF assms(1,2)] assms(3) by auto
  have "released env now d e" if "e \<in> set es" "sha \<in> {le_request_snapshot e, le_response_snapshot e}" for e
    using r(1) that by (auto simp: list_all_iff references_iff)
  then show ?thesis
    using r(2) by (force simp: purgeable_def released_def split: option.splits)
qed

lemma attested_by_purge:
  "la_action e = ''purge_expired'' \<Longrightarrow> la_details e = Some (purge_details shas) \<Longrightarrow> attested_by e = shas"
  by (simp add: attested_by_def purge_details_def purged_snapshots_written)

text \<open>A single write of a purge, and what the audit entry says.\<close>

definition blanks :: "ledger_env \<Rightarrow> int \<Rightarrow> string \<Rightarrow> ledger_files \<Rightarrow> string \<Rightarrow> (ledger_path, ledger_file) file_write \<Rightarrow> bool" where
  "blanks env now reason d sha w \<longleftrightarrow>
     (\<exists>x. LoadSnapshot sha d = Inr x \<and> w = Put (snapshot_path sha) (LSnapshot (purged_envelope env now reason x)))"

definition audits :: "ledger_files \<Rightarrow> (ledger_path, ledger_file) file_write \<Rightarrow> bool" where
  "audits d w \<longleftrightarrow> (\<exists>h. w = Put LedgerAuditHeadFile (LHead h))
     \<or> (\<exists>e. w = Put (audit_path e) (LAudit e) \<and> (\<forall>sha \<in> set (attested_by e). \<exists>x. LoadSnapshot sha d = Inr x \<and> ls_purged x = []))"

lemma purge_write:
  assumes "PurgeExpired env s order recorder now operator reason tenancy at d = (ws, q)" and "\<And>es. distinct (order es)" and "w \<in> set ws"
  shows "(\<exists>rc es el ob recorded sha. recorder = Some rc \<and> tenancy = ''exclusive'' \<and> ListEvents d = Inr es \<and> purgeable env now es d sha
        \<and> rc el ob (lt_id s) operator reason = Inr recorded \<and> sha \<in> set el \<and> sha \<in> set recorded \<and> blanks env now reason d sha w)
    \<or> audits d w"
  using purge_run [OF assms(1,2)]
proof cases
  case (2 rc es el ob recorded us p)
  show ?thesis
  proof (cases "w \<in> set us")
    case True
    have "\<exists>x. LoadSnapshot sha d = Inr x \<and> ls_purged x = []" if "sha \<in> set el" for sha
      using eligible_ok [OF 2(4) assms(2)] that by blast
    then show ?thesis
      using AppendAudit_writes [OF 2(8)] True by (auto simp: audits_def attested_by_purge)
  next
    case False
    then obtain sha where sha: "sha \<in> set el" "sha \<in> set recorded"
      "w = Put (snapshot_path sha) (LSnapshot (purged_envelope env now reason (projr (LoadSnapshot sha d))))"
      using assms(3) 2(7) by (auto simp: purge_writes_def)
    moreover have p: "purgeable env now es d sha"
      using eligible_purgeable [OF 2(4) assms(2) sha(1)] .
    ultimately have "blanks env now reason d sha w"
      by (auto simp: blanks_def purgeable_def)
    then show ?thesis
      using 2(1-3,6) sha(1,2) p by blast
  qed
qed (use assms(3) in simp)

lemma purge_paths:
  assumes "PurgeExpired env s order recorder now operator reason tenancy at d = (ws, q)" and "\<And>es. distinct (order es)" and "w \<in> set ws"
  shows "path_of w \<in> range LedgerSnapshotFile \<union> range LedgerAuditFile \<union> {LedgerAuditHeadFile}"
  using purge_write [OF assms] by (auto simp: blanks_def audits_def snapshot_path_def audit_path_def)

text \<open>The audit entry of a completed purge.\<close>

lemma purge_attests:
  assumes run: "PurgeExpired env s order recorder now operator reason tenancy at d = (ws, Inr k)" and "\<And>es. distinct (order es)"
  obtains vs entry where "ws = vs @ [Put (audit_path entry) (LAudit entry), Put LedgerAuditHeadFile (LHead (audit_head s entry))]" "length vs = k"
    "la_operator entry = operator" "la_reason entry = reason" "\<forall>w \<in> set vs. \<exists>sha \<in> set (attested_by entry). blanks env now reason d sha w"
  using purge_run [OF assms]
proof cases
  case (2 rc es el ob recorded us p)
  let ?ps = "filter (\<lambda>sha. sha \<in> set recorded) el"
  obtain entry where a: "us = [Put (audit_path entry) (LAudit entry), Put LedgerAuditHeadFile (LHead (audit_head s entry))]"
    "la_operator entry = operator" "la_reason entry = reason" "la_action entry = ''purge_expired''" "la_details entry = Some (purge_details (sort ?ps))"
    using AppendAudit_writes [OF 2(8)] 2(9) by (auto simp: is_ok_iff)
  have "\<exists>x. LoadSnapshot sha d = Inr x" if "sha \<in> set ?ps" for sha
    using eligible_ok [OF 2(4) assms(2)] that by auto
  then have "\<forall>w \<in> set (purge_writes env now reason d ?ps). \<exists>sha \<in> set (attested_by entry). blanks env now reason d sha w"
    by (fastforce simp: purge_writes_def attested_by_purge [OF a(4,5)] blanks_def)
  moreover have "length (purge_writes env now reason d ?ps) = k"
    using 2(10) by (simp add: purge_writes_def)
  ultimately show ?thesis
    using that a(1-3) 2(7) by blast
qed simp

section \<open>A purge that was cut off\<close>

text \<open>Further runs of the purge, by anyone, at any time and cut off anywhere.\<close>

definition purge_rerun :: "ledger_env \<Rightarrow> ledger_store \<Rightarrow> ledger_files \<Rightarrow> ledger_files \<Rightarrow> bool" where
  "purge_rerun env s d d' \<longleftrightarrow> (\<exists>order recorder now operator reason tenancy at k. (\<forall>es. distinct (order es))
     \<and> d' = crash k (PurgeExpired env s order recorder now operator reason tenancy at) d)"

text \<open>A snapshot that is blank although no audit entry says so.\<close>

definition orphaned :: "string \<Rightarrow> ledger_files \<Rightarrow> bool" where
  "orphaned sha d \<longleftrightarrow> (\<exists>x. LoadSnapshot sha d = Inr x \<and> ls_purged x \<noteq> [])
     \<and> (\<forall>p e. fmlookup d p = Some (LAudit e) \<longrightarrow> sha \<notin> set (attested_by e))"

lemma rerun_lookup:
  assumes "purge_rerun env s d d'"
  obtains "fmlookup d' p = fmlookup d p"
  | now reason sha x where "p = snapshot_path sha" "LoadSnapshot sha d = Inr x" "ls_purged x = []" "fmlookup d' p = Some (LSnapshot (purged_envelope env now reason x))"
  | h where "p = LedgerAuditHeadFile" "fmlookup d' p = Some (LHead h)"
  | e where "p = audit_path e" "fmlookup d' p = Some (LAudit e)" "\<forall>sha \<in> set (attested_by e). \<exists>x. LoadSnapshot sha d = Inr x \<and> ls_purged x = []"
proof -
  obtain order recorder now operator reason tenancy at k where o: "\<forall>es. distinct (order es)"
    and d': "d' = crash k (PurgeExpired env s order recorder now operator reason tenancy at) d"
    using assms unfolding purge_rerun_def by metis
  obtain ws q where run: "PurgeExpired env s order recorder now operator reason tenancy at d = (ws, q)"
    by fastforce
  have d': "d' = apply_writes (take k ws) d"
    using d' run by (simp add: crash_def)
  consider "fmlookup d' p = fmlookup d p" | w where "w \<in> set ws" "path_of w = p" "fmlookup d' p = content_of w"
    using last_write_cases [of p "take k ws" "fmlookup d p"] unfolding d' lookup_apply_writes by (blast dest: in_set_takeD)
  then show thesis
  proof cases
    case 2
    have shape: "(\<exists>sha x. blanks env now reason d sha w \<and> LoadSnapshot sha d = Inr x \<and> ls_purged x = []) \<or> audits d w"
      using purge_write [OF run _ 2(1)] o unfolding purgeable_def by blast
    then show thesis
      using that 2 by (fastforce simp: blanks_def audits_def)
  qed (use that in blast)
qed

lemma rerun_events:
  assumes "purge_rerun env s d d'"
  shows "ListEvents d' = ListEvents d" and "fmlookup d' LedgerPendingFile = fmlookup d LedgerPendingFile"
proof -
  have "fmlookup d' p = fmlookup d p" if "p \<in> insert LedgerPendingFile (range LedgerEventFile)" for p
    by (rule rerun_lookup [OF assms, of p]) (use that in \<open>auto simp: snapshot_path_def audit_path_def\<close>)
  then show "ListEvents d' = ListEvents d" "fmlookup d' LedgerPendingFile = fmlookup d LedgerPendingFile"
    by (auto intro: listing_cong)
qed

lemma rerun_orphaned:
  assumes "purge_rerun env s d d'" and "orphaned sha d"
  shows "orphaned sha d'"
proof -
  obtain x where x: "LoadSnapshot sha d = Inr x" "ls_purged x \<noteq> []"
    using assms(2) by (auto simp: orphaned_def)
  have "fmlookup d' (snapshot_path sha) = Some (LSnapshot x)"
    by (rule rerun_lookup [OF assms(1), of "snapshot_path sha"]) (use x in \<open>auto simp: LoadSnapshot_lookup snapshot_path_def audit_path_def\<close>)
  then have "LoadSnapshot sha d' = Inr x"
    by (simp add: LoadSnapshot_lookup)
  moreover have "sha \<notin> set (attested_by e)" if "fmlookup d' p = Some (LAudit e)" for p e
    by (rule rerun_lookup [OF assms(1), of p]) (use that x assms(2) in \<open>auto simp: orphaned_def\<close>)
  ultimately show ?thesis
    using x(2) by (auto simp: orphaned_def)
qed

lemma reruns_orphaned:
  assumes "(purge_rerun env s)\<^sup>*\<^sup>* d d'" and "orphaned sha d"
  shows "orphaned sha d' \<and> ListEvents d' = ListEvents d \<and> fmlookup d' LedgerPendingFile = fmlookup d LedgerPendingFile"
  using assms by (induction rule: rtranclp_induct) (auto simp: rerun_events intro: rerun_orphaned)

lemma read_all_lookup: "read_all as_ledger_audit d ps = Inr es \<Longrightarrow> e \<in> set es \<Longrightarrow> \<exists>p. fmlookup d p = Some (LAudit e)"
  by (induction ps arbitrary: es) (auto simp: chain_read_ok elim!: as_ledger_audit.elims)

lemma orphaned_refused:
  assumes o: "orphaned sha d" and pending: "fmlookup d LedgerPendingFile = None"
    and e: "ListEvents d = Inr es" "e \<in> set es" "sha \<in> set (snapshot_refs e)"
    and mode: "anchor_mode ao = ''anchored''" and rd: "ao_anchors ao = Some rd" "ar_latest rd (lt_id s) = Inr (Some a)"
  shows "\<not> is_ok (snd (VerifyAnchored env s ao d))"
proof
  assume "is_ok (snd (VerifyAnchored env s ao d))"
  then obtain ws rep where v: "VerifyAnchored env s ao d = (ws, Inr rep)"
    by (cases "VerifyAnchored env s ao d") (auto simp: is_ok_iff)
  have ws: "ws = []"
    using v pending by (auto simp: VerifyAnchored_ok VerifyPolicy_ok ledger_recover_nothing)
  obtain x where x: "LoadSnapshot sha d = Inr x" "ls_purged x \<noteq> []"
    using o by (auto simp: orphaned_def)
  obtain as entry where "readAuditEntries d = Inr as" "entry \<in> set as" "sha \<in> set (attested_by entry)"
    by (rule adjudicated_purge [OF v mode rd, of es e sha x]) (use e x ws in auto)
  then show False
    using o read_all_lookup unfolding readAuditEntries_def orphaned_def by blast
qed

end
