(* ===== verification/LedgerDemo.thy ===== *)
theory LedgerDemo imports LedgerTamper begin

text \<open>
  A concrete environment that has the documented behaviour, and the directory after one event and one audit
  entry, for evaluating the properties.
\<close>

section \<open>An environment\<close>

text \<open>Instants are printed as decimal numbers of nanoseconds; digests are the length of the text.\<close>

definition read_decimal :: "string \<Rightarrow> int" where
  "read_decimal = foldl (\<lambda>n c. 10 * n + (of_char c - 48)) 0"

definition read_decimal_int :: "string \<Rightarrow> int option" where
  "read_decimal_int s =
     (case s of [] \<Rightarrow> None | c # cs \<Rightarrow> if c = CHR ''-'' then Some (- read_decimal cs) else Some (read_decimal s))"

lemma of_digit_ch: "n < 10 \<Longrightarrow> of_char (digit_ch n) = (48 + int n)"
proof -
  assume "n < 10"
  then have "(of_char (digit_ch n) :: nat) = 48 + n"
    by (simp add: digit_ch_def byte_def)
  then show ?thesis
    by (metis of_nat_add of_nat_numeral of_nat_of_char)
qed

lemma read_decimal_decimal: "read_decimal (decimal n) = int n"
proof (induction n rule: decimal.induct)
  case (1 n)
  then show ?case
    by (subst decimal.simps) (auto simp: read_decimal_def of_digit_ch zmod_int zdiv_int)
qed

lemma decimal_no_sign: "hd (decimal n) \<noteq> CHR ''-''"
proof (induction n rule: decimal.induct)
  case (1 n)
  have "digit_ch n \<noteq> CHR ''-''" if "n < 10"
    using of_digit_ch [OF that] by auto
  then show ?case
    using 1 by (subst decimal.simps) auto
qed

lemma read_decimal_int: "read_decimal_int (decimal_int t) = Some t"
proof (cases "t < 0")
  case True
  then show ?thesis
    by (simp add: read_decimal_int_def decimal_int_def read_decimal_decimal)
next
  case False
  obtain c cs where c: "decimal (nat t) = c # cs"
    by (meson decimal_nonempty list.exhaust)
  then show ?thesis
    using False decimal_no_sign [of "nat t"] read_decimal_decimal [of "nat t"] by (simp add: read_decimal_int_def decimal_int_def)
qed

definition toy_ledger :: ledger_env where
  "toy_ledger = \<lparr>lx_sha = (\<lambda>x. decimal (length x)), lx_mac = (\<lambda>k x. decimal (length x)), lx_hkdf = (\<lambda>r s i. replicate 32 CHR ''k''),
     lx_seal = (\<lambda>k n p a. CHR ''s'' # p), lx_open = (\<lambda>k n c a. Some (tl c)), lx_b64 = (\<lambda>x. x), lx_unb64 = Some,
     lx_json = (\<lambda>x. Some JNull), lx_floats = (\<lambda>x. x), lx_time = read_decimal_int, lx_format = decimal_int,
     lx_unicode = ascii_tables, lx_lenient = (\<lambda>x. None)\<rparr>"

lemma toy_ledger_ok: "ledger_env_ok toy_ledger"
  by (simp add: ledger_env_ok_def toy_ledger_def read_decimal_int)

definition toy_store :: ledger_store where
  "toy_store = \<lparr>lt_id = ''l1'', lt_keys = deriveChainKeys toy_ledger (replicate 32 CHR ''r'') ''l1''\<rparr>"

lemma toy_store_ok: "store_ok toy_store"
  by (simp add: store_ok_def toy_store_def deriveChainKeys_def toy_ledger_def)

definition toy_policy :: verification_policy where
  "toy_policy = \<lparr>vp_schema = [], vp_ledger = ''l1'', vp_min_event = EventSchemaV2, vp_min_audit = AuditSchemaV2, vp_genesis_event = 1,
     vp_genesis_audit = 1, vp_allow_unanchored = False, vp_min_anchor = 0, vp_event_pin = [], vp_audit_pin = [], vp_tenancy = []\<rparr>"

definition toy_options :: verify_options where
  "toy_options = \<lparr>vo_policy = toy_policy, vo_mode = [], vo_purges = False, vo_defer = False\<rparr>"

lemma toy_options_plain: "plain_options toy_store toy_options"
  by (simp add: plain_options_def toy_options_def toy_policy_def toy_store_def modeOrDefault_def)

definition toy_nonce :: string where
  "toy_nonce = replicate 12 CHR ''n''"

lemma toy_nonce_length: "length toy_nonce = 12"
  by (simp add: toy_nonce_def)

section \<open>One event\<close>

definition toy_input :: append_input where
  "toy_input = \<lparr>ai_route = ''/screen'', ai_status = 200, ai_correlation = ''c'', ai_idempotency = [], ai_request = ''q'', ai_response = ''r'',
     ai_occurred = ''7'', ai_retention = \<lparr>lr_class = [], lr_days = 0, lr_redact = [], lr_hash = [], lr_max_bytes = 0\<rparr>\<rparr>"

definition toy_append :: "(ledger_path, ledger_file) file_write list \<times> (ledger_error, ledger_event \<times> bool) result" where
  "toy_append = Append toy_ledger toy_store ''9'' toy_nonce toy_nonce toy_input fmempty"

definition toy_event :: ledger_event where
  "toy_event = next_event toy_ledger toy_store ''9'' toy_nonce toy_nonce toy_input []"

definition toy_files :: ledger_files where
  "toy_files = apply_writes (fst toy_append) fmempty"

lemma toy_time: "read_decimal_int ''7'' = Some 7"
  by (simp add: read_decimal_int_def read_decimal_def)

lemma toy_marshal_null: "length (marshal JNull) = 4"
  by simp

lemma request_length: "12 = Suc (length ''request'' + length ''null'')"
  by simp

lemma response_length: "13 = Suc (length ''response'' + length ''null'')"
  by simp

lemma toy_plan: "\<exists>pl. plan_append toy_ledger toy_store ''9'' toy_nonce toy_nonce toy_input = Inr pl
    \<and> ls_sha (pl_request pl) \<noteq> ls_sha (pl_response pl)"
proof -
  have k: "length (ck_snap (lt_keys toy_store)) = 32"
    using toy_store_ok by (simp add: store_ok_def)
  have x: "\<exists>x. encryptSnapshot toy_ledger (ck_snap (lt_keys toy_store)) n kd p c e cl = Inr x \<and> ls_sha x = decimal m"
    if "m = Suc (length kd + length p)" for n kd p c e cl m
    using that by (simp add: encryptSnapshot_def k Let_def toy_ledger_def)
  obtain t where t: "mustExpires toy_ledger ''7'' 2555 = Inr t"
    by (simp add: mustExpires_def toy_ledger_def toy_time Let_def)
  have c: "canonicalJSON toy_ledger x = Some ''null''" for x
    by (simp add: canonicalJSON_def toy_ledger_def)
  obtain i where i: "with_defaults ''9'' toy_input = Inr i" "ai_occurred i = ''7''" "lr_max_bytes (ai_retention i) = 2097152" "lr_days (ai_retention i) = 2555"
    by (simp add: with_defaults_def toy_input_def check_retention_def default_retention_def)
  obtain y z where y: "encryptSnapshot toy_ledger (ck_snap (lt_keys toy_store)) toy_nonce ''request'' ''null'' ''7'' t (lr_class (ai_retention i)) = Inr y"
      "ls_sha y = decimal 12"
    and z: "encryptSnapshot toy_ledger (ck_snap (lt_keys toy_store)) toy_nonce ''response'' ''null'' ''7'' t (lr_class (ai_retention i)) = Inr z"
      "ls_sha z = decimal 13"
    using x [of 12 "''request''" "''null''" toy_nonce] x [of 13 "''response''" "''null''" toy_nonce] by (metis request_length response_length)
  have "plan_append toy_ledger toy_store ''9'' toy_nonce toy_nonce toy_input
      = Inr \<lparr>pl_input = i, pl_request = y, pl_response = z, pl_canonical = ''null'', pl_expires = t\<rparr>"
    using i c t y(1) z(1) by (subst plan_append_ok) simp
  moreover have "read_decimal (decimal 12) \<noteq> read_decimal (decimal 13)"
    by (simp add: read_decimal_decimal)
  ultimately show ?thesis
    using y(2) z(2) by auto
qed

text \<open>Snapshots of different names are both written.\<close>

lemma fresh_append:
  assumes "plan_append env s now n1 n2 input = Inr pl" and "ls_sha (pl_request pl) \<noteq> ls_sha (pl_response pl)"
  shows "\<exists>ws. Append env s now n1 n2 input fmempty = (ws, Inr (next_event env s now n1 n2 input [], False))"
proof -
  have "recoverLocked s fmempty = ([], Inr ())"
    by (simp add: ledger_recover_nothing)
  moreover have "existing_event p fmempty = Inr None" for p
    by (simp add: existing_event_def readCanonicalChainFile_def)
  moreover have "loadHead s fmempty = Inr (head_value s [])"
    by (simp add: loadHead_def head_value_def)
  ultimately show ?thesis
    using assms by (simp add: Append_recovered append_recovered_def next_event_def andThen_def writeSnapshot_def commit_event_def Let_def)
qed

lemma toy_append: "\<exists>ws. toy_append = (ws, Inr (toy_event, False))"
  using toy_plan fresh_append unfolding toy_append_def toy_event_def by blast

lemma toy_reach: "ledger_reach toy_ledger toy_store 1 toy_files"
proof -
  obtain ws r where ws: "Append toy_ledger toy_store ''9'' toy_nonce toy_nonce toy_input fmempty = (ws, r)"
    by fastforce
  have "ledger_reach toy_ledger toy_store (Suc 0) (apply_writes (take (length ws) ws) fmempty)"
    by (rule ledger_reach.append [OF ledger_reach.fresh ws toy_nonce_length toy_nonce_length]) simp
  then show ?thesis
    by (simp add: toy_files_def toy_append_def ws)
qed

lemma toy_fresh: "ledger_reach toy_ledger toy_store 0 fmempty"
  by (rule ledger_reach.fresh) simp

lemma toy_inv: "ledger_inv toy_ledger toy_store [toy_event] [] toy_files \<and> settled toy_store [toy_event] toy_files"
proof -
  have "ledger_inv toy_ledger toy_store [] [] fmempty"
    by (simp add: inv_defs keyed_chain_def)
  note safe = Append_safe [OF this toy_ledger_ok toy_store_ok toy_nonce_length toy_nonce_length, of "''9''" toy_input]
  obtain ws where "Append toy_ledger toy_store ''9'' toy_nonce toy_nonce toy_input fmempty = (ws, Inr (toy_event, False))"
    using toy_append by (auto simp: toy_append_def)
  then show ?thesis
    using safe by (auto simp: safe_def toy_files_def toy_append_def toy_event_def simp del: settled_def)
qed

lemma toy_verifies: "\<exists>r. VerifyPolicy toy_ledger toy_store toy_options toy_files = ([], Inr r)"
proof -
  obtain r where "verify_files toy_ledger toy_store toy_options toy_files = Inr r"
    using inv_verifies [OF conjunct1 [OF toy_inv] conjunct2 [OF toy_inv] _ _ toy_options_plain] by auto
  moreover have "recoverLocked toy_store toy_files = ([], Inr ())"
    using toy_inv by (simp add: settled_def ledger_recover_nothing)
  ultimately show ?thesis
    by (simp add: VerifyPolicy_ok)
qed

section \<open>Audit entries\<close>

lemma decimal_inj: "decimal m = decimal n \<longleftrightarrow> m = n"
  using read_decimal_decimal of_nat_eq_iff by metis

definition toy_audit :: "string \<Rightarrow> ledger_files \<Rightarrow> (ledger_path, ledger_file) file_write list \<times> (ledger_error, ledger_audit) result" where
  "toy_audit text = AppendAudit toy_ledger toy_store ''9'' ''a'' ''op'' ''why'' [] (Some (JNum text))"

lemma toy_audit_digests:
  "la_sha (new_audit toy_ledger toy_store ''9'' ''a'' ''op'' ''why'' [] (Some (JNum ''1'')) h)
   \<noteq> la_sha (new_audit toy_ledger toy_store ''9'' ''a'' ''op'' ''why'' [] (Some (JNum ''22'')) h)"
  by (simp add: new_audit_def draft_audit_def Let_def hashAudit_def toy_ledger_def ledger_audit_json_def decimal_inj raw_member_def opt_member_def opt_def)

section \<open>A ledger with a frozen prefix of one event\<close>

definition legacy_snapshot :: "string \<Rightarrow> string \<Rightarrow> snapshot_envelope" where
  "legacy_snapshot name text = \<lparr>ls_schema = [], ls_sha = name, ls_plain_sha = decimal (length text), ls_kind = [], ls_cipher = [],
     ls_nonce = toy_nonce, ls_ciphertext = CHR ''s'' # text, ls_aad = [], ls_bytes = 0, ls_created = [], ls_expires = [],
     ls_class = [], ls_purged = [], ls_reason = []\<rparr>"

definition legacy_draft :: ledger_event where
  "legacy_draft = \<lparr>le_schema = EventSchemaV1, le_id = ''e1'', le_ledger = ''l1'', le_sequence = 1, le_previous = [], le_sha = [],
     le_occurred = [], le_route = [], le_status = 0, le_correlation = [], le_idempotency = [], le_request_sha = [],
     le_response_sha = [], le_request_snapshot = ''a'', le_response_snapshot = ''b'', le_activation = None, le_promotion = None,
     le_candidates = None, le_retention = [], le_expires = ''5''\<rparr>"

definition legacy_event :: ledger_event where
  "legacy_event = legacy_draft\<lparr>le_sha := legacyHashEvent toy_ledger legacy_draft\<rparr>"

definition legacy_files :: ledger_files where
  "legacy_files = fmupd LedgerHeadFile (LHead (event_head toy_store legacy_event))
     (fmupd (event_path ''e1'') (LEvent legacy_event)
     (fmupd (snapshot_path ''a'') (LSnapshot (legacy_snapshot ''a'' ''1''))
     (fmupd (snapshot_path ''b'') (LSnapshot (legacy_snapshot ''b'' ''22'')) fmempty)))"

definition legacy_options :: verify_options where
  "legacy_options = \<lparr>vo_policy = toy_policy\<lparr>vp_genesis_event := 2, vp_event_pin := le_sha legacy_event\<rparr>, vo_mode = [], vo_purges = False, vo_defer = False\<rparr>"

lemma legacy_paths: "event_paths legacy_files = [event_path ''e1'']" "audit_paths legacy_files = []"
proof -
  have "json_names event_name legacy_files = [''e1.json'']"
    by (intro sorted_distinct_set_unique) (auto simp: json_names_set legacy_files_def event_path_def snapshot_path_def HasSuffix_def)
  moreover have "json_names audit_name legacy_files = []"
    by (intro sorted_distinct_set_unique) (auto simp: json_names_set legacy_files_def event_path_def snapshot_path_def)
  ultimately show "event_paths legacy_files = [event_path ''e1'']" "audit_paths legacy_files = []"
    by (simp_all add: event_paths_def audit_paths_def event_path_def)
qed

lemma legacy_events: "ListEvents legacy_files = Inr [legacy_event]"
proof -
  have "fmlookup legacy_files (event_path ''e1'') = Some (LEvent legacy_event)"
    by (simp add: legacy_files_def event_path_def)
  then show ?thesis
    by (simp add: ListEvents_def legacy_paths readCanonicalChainFile_def)
qed

lemma legacy_snapshots:
  "LoadSnapshot ''a'' legacy_files = Inr (legacy_snapshot ''a'' ''1'')" "LoadSnapshot ''b'' legacy_files = Inr (legacy_snapshot ''b'' ''22'')"
  by (simp_all add: LoadSnapshot_def legacy_files_def readCanonicalChainFile_def snapshot_path_def event_path_def)

lemma legacy_decrypts: "decryptSnapshot toy_ledger (ck_snap (lt_keys toy_store)) (legacy_snapshot n t) = Inr t"
  using toy_store_ok toy_nonce_length by (simp add: decryptSnapshot_def legacy_snapshot_def store_ok_def toy_ledger_def)

lemma legacy_verifies: "\<exists>r. VerifyPolicy toy_ledger toy_store legacy_options legacy_files = ([], Inr r)"
proof -
  have ev: "le_schema legacy_event = EventSchemaV1" "le_sequence legacy_event = 1" "le_previous legacy_event = []" "le_id legacy_event = ''e1''"
    "le_request_snapshot legacy_event = ''a''" "le_response_snapshot legacy_event = ''b''"
    by (simp_all add: legacy_event_def legacy_draft_def)
  have sha: "legacyHashEvent toy_ledger legacy_event = le_sha legacy_event"
    by (simp add: legacy_event_def legacy_draft_def legacyHashEvent_def)
  have o': "vp_genesis_event (vo_policy legacy_options) = 2" "vp_genesis_audit (vo_policy legacy_options) = 1" "vp_event_pin (vo_policy legacy_options) = le_sha legacy_event"
    "vp_audit_pin (vo_policy legacy_options) = []" "vp_ledger (vo_policy legacy_options) = lt_id toy_store"
    "vp_min_event (vo_policy legacy_options) = EventSchemaV2" "vp_min_audit (vo_policy legacy_options) = AuditSchemaV2"
    "modeOrDefault legacy_options = ''anchored''" "vo_purges legacy_options = False"
    by (simp_all add: legacy_options_def toy_policy_def toy_store_def modeOrDefault_def)
  have ord: "eventSchemaOrdinal EventSchemaV2 = Some 2" "auditSchemaOrdinal AuditSchemaV2 = Some 2"
    by (simp_all add: eventSchemaOrdinal_def auditSchemaOrdinal_def schema_names)
  have snap: "verifySnapshotChecked toy_ledger toy_store m p ''a'' n legacy_files = Inr (True, None)"
    "verifySnapshotChecked toy_ledger toy_store m p ''b'' n legacy_files = Inr (True, None)" for m p n
    by (simp_all add: verifySnapshotChecked_def legacy_snapshots legacy_decrypts) (simp_all add: legacy_snapshot_def toy_ledger_def)
  have head: "loadHead toy_store legacy_files = Inr (event_head toy_store legacy_event)"
    by (simp add: loadHead_def legacy_files_def readCanonicalChainFile_def)
  have no_audit: "fmlookup legacy_files LedgerAuditHeadFile = None" "fmlookup legacy_files LedgerPendingFile = None"
    by (simp_all add: legacy_files_def event_path_def snapshot_path_def)
  have "\<exists>x. verifyAuditPolicyLocked toy_ledger toy_store (vo_policy legacy_options) legacy_files = Inr x"
    by (simp add: verifyAuditPolicyLocked_def o' ord legacy_paths loadAuditHead_def no_audit)
  then obtain ah af where audit: "verifyAuditPolicyLocked toy_ledger toy_store (vo_policy legacy_options) legacy_files = Inr (ah, af)"
    by auto
  have "\<exists>r. verify_files toy_ledger toy_store legacy_options legacy_files = Inr r"
    by (simp add: verify_files_def Let_def o' ord legacy_events head audit check_event_def ev event_digest_at_def position_digest_def sha snap event_head_def)
  then show ?thesis
    by (auto simp: VerifyPolicy_ok ledger_recover_nothing [OF no_audit(2)])
qed

definition legacy_marked :: ledger_files where
  "legacy_marked = fmupd (replication_path ''e1'') (LBytes []) legacy_files"

lemma legacy_marked_same: "p \<noteq> replication_path ''e1'' \<Longrightarrow> fmlookup legacy_marked p = fmlookup legacy_files p"
  by (simp add: legacy_marked_def)

lemma legacy_marked_verifies:
  "VerifyPolicy toy_ledger toy_store legacy_options legacy_files = ([], Inr r) \<Longrightarrow> VerifyPolicy toy_ledger toy_store legacy_options legacy_marked = ([], Inr r)"
proof -
  assume v: "VerifyPolicy toy_ledger toy_store legacy_options legacy_files = ([], Inr r)"
  have "verifySnapshotChecked toy_ledger toy_store m p sha n legacy_marked = verifySnapshotChecked toy_ledger toy_store m p sha n legacy_files" for m p sha n
    by (simp add: verifySnapshotChecked_def LoadSnapshot_def readCanonicalChainFile_def legacy_marked_same snapshot_path_def replication_path_def)
  then have "verify_files toy_ledger toy_store legacy_options legacy_marked = verify_files toy_ledger toy_store legacy_options legacy_files"
    by (rule verify_files_cong) (intro legacy_marked_same, auto simp: replication_path_def)
  moreover have "fmlookup legacy_marked LedgerPendingFile = None"
    by (simp add: legacy_marked_def legacy_files_def event_path_def snapshot_path_def replication_path_def)
  ultimately show ?thesis
    using v by (simp add: VerifyPolicy_ok ledger_recover_nothing)
qed

lemma legacy_marked_events: "ListEvents legacy_marked = Inr [legacy_event]"
proof -
  have "ListEvents legacy_marked = ListEvents legacy_files"
    by (rule listing_cong) (auto simp: legacy_marked_same replication_path_def)
  then show ?thesis
    by (simp add: legacy_events)
qed

definition toy_cut :: ledger_files where
  "toy_cut = apply_writes (take 3 (fst toy_append)) fmempty"

end
