(* ===== verification/LedgerAnchorDemo.thy ===== *)
theory LedgerAnchorDemo imports LedgerAnchorProofs LedgerDemo begin

text \<open>
  A directory whose request snapshot was purged, with the audit entry, the row of the retention table and the anchor
  that go with it, accepted in anchored mode.
\<close>

definition purged_snapshot :: snapshot_envelope where
  "purged_snapshot = (legacy_snapshot ''a'' ''1'')\<lparr>ls_purged := ''3'', ls_ciphertext := []\<rparr>"

definition purge_entry :: ledger_audit where
  "purge_entry = new_audit toy_ledger toy_store ''3'' ''purge_expired'' ''op'' ''why'' []
     (Some (JObj [(''snapshot_sha256'', JArr [JStr ''a''])])) (audit_head_value toy_store [])"

definition purged_files :: ledger_files where
  "purged_files = fmupd LedgerAuditHeadFile (LHead (audit_head toy_store purge_entry))
     (fmupd (audit_path purge_entry) (LAudit purge_entry) (fmupd (snapshot_path ''a'') (LSnapshot purged_snapshot) legacy_files))"

definition toy_anchor :: "int \<Rightarrow> anchor" where
  "toy_anchor n = (let k = replicate 32 CHR ''a'' in
     \<lparr>an_ledger = ''l1'', an_sequence = 1, an_event = le_sha legacy_event, an_audit = la_sha purge_entry, an_audit_sequence = n, an_policy = [],
      an_at = 4, an_mac = anchorMAC toy_ledger k ''l1'' 1 (le_sha legacy_event) (la_sha purge_entry) n [] 4\<rparr>)"

definition toy_tombstone :: tombstone where
  "toy_tombstone = \<lparr>ts_sha = ''a'', ts_purged_at = 3, ts_operator = ''op'', ts_reason = ''why''\<rparr>"

definition toy_purges :: purge_checker where
  "toy_purges = \<lparr>px_record = (\<lambda>sha. Inr (if sha = ''a'' then Some toy_tombstone else None)), px_all = Inr [toy_tombstone],
     px_aggregate = (\<lambda>sha l. Inr (Some (1, 0))), px_foreign = (\<lambda>l. Inr [])\<rparr>"

definition toy_reader :: "int \<Rightarrow> anchor_reader" where
  "toy_reader n = \<lparr>ar_latest = (\<lambda>l. Inr (Some (toy_anchor n))), ar_previous = (\<lambda>l k. Inr None)\<rparr>"

definition toy_anchored :: "int \<Rightarrow> anchor_options" where
  "toy_anchored n = \<lparr>ao_policy = vo_policy legacy_options, ao_mode = [], ao_purges = Some toy_purges, ao_anchors = Some (toy_reader n),
     ao_provisioning = Some (Inr (True, [])), ao_key = replicate 32 CHR ''a'', ao_policy_sha = [], ao_allow_genesis = False\<rparr>"

lemma entry_simps:
  "la_sequence purge_entry = 1" "la_previous purge_entry = []" "la_schema purge_entry = AuditSchemaV2" "la_operator purge_entry = ''op''"
  "la_reason purge_entry = ''why''" "attested_by purge_entry = [''a'']"
  using purged_snapshots_written [of "[''a'']"]
  by (simp_all add: purge_entry_def new_audit_def draft_audit_def Let_def audit_head_value_def attested_by_def)

lemma purged_paths: "event_paths purged_files = [event_path ''e1'']" "audit_paths purged_files = [audit_path purge_entry]"
proof -
  have "json_names event_name purged_files = [''e1.json'']"
    by (intro sorted_distinct_set_unique)
      (auto simp: json_names_set purged_files_def legacy_files_def event_path_def snapshot_path_def audit_path_def HasSuffix_def)
  moreover have "json_names audit_name purged_files = [audit_file_name purge_entry]"
    by (intro sorted_distinct_set_unique) (auto simp: json_names_set purged_files_def legacy_files_def event_path_def snapshot_path_def audit_path_def)
  ultimately show "event_paths purged_files = [event_path ''e1'']" "audit_paths purged_files = [audit_path purge_entry]"
    by (simp_all add: event_paths_def audit_paths_def event_path_def audit_path_def)
qed

lemma purged_lookup:
  "fmlookup purged_files (event_path ''e1'') = Some (LEvent legacy_event)" "fmlookup purged_files (audit_path purge_entry) = Some (LAudit purge_entry)"
  "fmlookup purged_files (snapshot_path ''a'') = Some (LSnapshot purged_snapshot)" "fmlookup purged_files LedgerPendingFile = None"
  "fmlookup purged_files (snapshot_path ''b'') = Some (LSnapshot (legacy_snapshot ''b'' ''22''))"
  "fmlookup purged_files LedgerHeadFile = Some (LHead (event_head toy_store legacy_event))"
  "fmlookup purged_files LedgerAuditHeadFile = Some (LHead (audit_head toy_store purge_entry))"
  by (simp_all add: purged_files_def legacy_files_def event_path_def snapshot_path_def audit_path_def)

lemma purged_lists: "ListEvents purged_files = Inr [legacy_event]" "readAuditEntries purged_files = Inr [purge_entry]"
  by (simp_all add: ListEvents_def readAuditEntries_def purged_paths readCanonicalChainFile_def purged_lookup)

lemma event_simps:
  "le_schema legacy_event = EventSchemaV1" "le_sequence legacy_event = 1" "le_previous legacy_event = []" "le_id legacy_event = ''e1''"
  "le_request_snapshot legacy_event = ''a''" "le_response_snapshot legacy_event = ''b''" "le_expires legacy_event = ''5''"
  "legacyHashEvent toy_ledger legacy_event = le_sha legacy_event"
  by (simp_all add: legacy_event_def legacy_draft_def legacyHashEvent_def)

lemma anchored_options:
  "vp_genesis_event (vo_policy legacy_options) = 2" "vp_genesis_audit (vo_policy legacy_options) = 1" "vp_event_pin (vo_policy legacy_options) = le_sha legacy_event"
  "vp_audit_pin (vo_policy legacy_options) = []" "vp_ledger (vo_policy legacy_options) = lt_id toy_store"
  "vp_min_event (vo_policy legacy_options) = EventSchemaV2" "vp_min_audit (vo_policy legacy_options) = AuditSchemaV2"
  "vp_min_anchor (vo_policy legacy_options) = 0" "vp_tenancy (vo_policy legacy_options) = []"
  by (simp_all add: legacy_options_def toy_policy_def toy_store_def)

lemma purged_audit:
  "verifyAuditPolicyLocked toy_ledger toy_store (vo_policy legacy_options) purged_files = Inr (audit_head toy_store purge_entry, 0)"
proof -
  have "hashAudit toy_ledger (ck_chain (lt_keys toy_store)) purge_entry = la_sha purge_entry"
    by (simp add: purge_entry_def)
  then show ?thesis
    by (simp add: verifyAuditPolicyLocked_def purged_paths anchored_options auditSchemaOrdinal_def schema_names readCanonicalChainFile_def
        purged_lookup check_audit_def audit_digest_at_def position_digest_def entry_simps loadAuditHead_def audit_head_def)
qed

lemma purged_verifies:
  "\<exists>r. verify_files toy_ledger toy_store (deferred_options (toy_anchored n)) purged_files = Inr r \<and> rp_claims r = [(''a'', 1)]
    \<and> rp_head r = event_head toy_store legacy_event \<and> rp_audit_head r = audit_head toy_store purge_entry \<and> rp_known r = [''a'', ''b'']"
proof -
  have o': "ao_policy (toy_anchored n) = vo_policy legacy_options" "anchor_mode (toy_anchored n) = ''anchored''"
    "\<exists>px. ao_purges (toy_anchored n) = Some px" "vo_defer (deferred_options (toy_anchored n))"
    by (simp_all add: toy_anchored_def deferred_options_def anchor_mode_def)
  have snap: "verifySnapshotChecked toy_ledger toy_store m True ''a'' k purged_files = Inr (False, Some (''a'', k))"
    "verifySnapshotChecked toy_ledger toy_store m p ''b'' k purged_files = Inr (True, None)" for m p k
    by (simp_all add: verifySnapshotChecked_def LoadSnapshot_def readCanonicalChainFile_def purged_lookup legacy_decrypts)
      (simp_all add: purged_snapshot_def legacy_snapshot_def toy_ledger_def)
  have head: "loadHead toy_store purged_files = Inr (event_head toy_store legacy_event)"
    by (simp add: loadHead_def purged_lookup readCanonicalChainFile_def)
  have known: "sorted_set [''b'', ''a''] = [''a'', ''b'']"
    by code_simp
  have ord: "eventSchemaOrdinal EventSchemaV2 = Some 2"
    by (simp add: eventSchemaOrdinal_def schema_names)
  show ?thesis
    by (simp add: verify_files_def Let_def o' anchored_options ord purged_lists head purged_audit check_event_def event_simps
        event_digest_at_def position_digest_def snap event_head_def known)
qed

lemma purged_anchored: "\<exists>rep. VerifyAnchored toy_ledger toy_store (toy_anchored 1) purged_files = ([], Inr rep)"
proof -
  obtain r where r: "verify_files toy_ledger toy_store (deferred_options (toy_anchored 1)) purged_files = Inr r" "rp_claims r = [(''a'', 1)]"
    "rp_head r = event_head toy_store legacy_event" "rp_audit_head r = audit_head toy_store purge_entry" "rp_known r = [''a'', ''b'']"
    using purged_verifies by blast
  have fields: "ao_anchors (toy_anchored 1) = Some (toy_reader 1)" "ao_provisioning (toy_anchored 1) = Some (Inr (True, []))"
    "ao_purges (toy_anchored 1) = Some toy_purges" "ao_key (toy_anchored 1) = replicate 32 CHR ''a''" "ao_policy_sha (toy_anchored 1) = []"
    "anchor_mode (toy_anchored 1) = ''anchored''" "ao_policy (toy_anchored 1) = vo_policy legacy_options"
    "ar_latest (toy_reader 1) l = Inr (Some (toy_anchor 1))" "ar_previous (toy_reader 1) l k = Inr None" for l k
    by (simp_all add: toy_anchored_def toy_reader_def anchor_mode_def)
  have a: "an_sequence (toy_anchor 1) = 1" "an_event (toy_anchor 1) = le_sha legacy_event" "an_audit (toy_anchor 1) = la_sha purge_entry"
    "an_audit_sequence (toy_anchor 1) = 1" "an_at (toy_anchor 1) = 4" "anchor_verify toy_ledger (replicate 32 CHR ''a'') (toy_anchor 1)"
    by (simp_all add: toy_anchor_def Let_def anchor_verify_def)
  have row: "check_anchor_row toy_ledger (toy_anchored 1) (toy_anchor 1) = Inr ()"
    by (simp add: check_anchor_row_def Let_def fields a anchored_options)
  have chain: "check_against_anchor toy_ledger (toy_anchored 1) r (toy_anchor 1) purged_files = Inr ()"
    by (simp add: check_against_anchor_def row check_chain_at_def r a event_head_def audit_head_def event_simps entry_simps)
  have time: "lx_time toy_ledger ''5'' = Some 5"
    by (simp add: toy_ledger_def read_decimal_int_def read_decimal_def)
  have bound: "\<exists>b. loadPurgeLowerBoundSource toy_ledger toy_store (toy_reader 1) (replicate 32 CHR ''a'') 1 purged_files = Inr b
      \<and> lb_previous b = None \<and> lb_obligations b ''a'' = Some (1, 0)"
    by (simp add: loadPurgeLowerBoundSource_def fields purged_lists computeSnapshotObligations_def event_simps time snapshot_refs_def add_obligation_def)
  have att: "attestingAuditEntries purged_files = Inr ((\<lambda>_. None)(''a'' := Some purge_entry))"
    by (simp add: attestingAuditEntries_def purged_lists entry_simps)
  have "\<exists>x. adjudicatePurgeClaims toy_ledger toy_store (rp_claims r) (toy_anchor 1) (toy_reader 1) (replicate 32 CHR ''a'') (rp_known r) (Some toy_purges)
      [] purged_files = Inr x"
    using bound by (auto simp: adjudicatePurgeClaims_def att a r Let_def adjudicate_claim_def adjudicate_row_def entry_simps toy_purges_def toy_tombstone_def
        forSnapshot_def purgeAttributionMismatch_def) (auto intro!: exI [of _ 0])
  then obtain x where "adjudicatePurgeClaims toy_ledger toy_store (rp_claims r) (toy_anchor 1) (toy_reader 1) (replicate 32 CHR ''a'') (rp_known r) (Some toy_purges)
      [] purged_files = Inr x" by blast
  then have "\<exists>rep. verify_after_policy toy_ledger toy_store (toy_anchored 1) r purged_files = Inr rep"
    by (simp add: verify_after_policy_def Let_def fields plainly_def failing_def verify_with_anchor_def chain check_tenancy_def anchored_options
        reportOutOfScopePurgeRecords_def toy_purges_def)
  then show ?thesis
    using r(1) by (auto simp: VerifyAnchored_ok VerifyPolicy_ok ledger_recover_nothing purged_lookup)
qed

end
