(* ===== verification/LedgerProps.thy ===== *)
theory LedgerProps imports LedgerDemo begin

text \<open>Properties of the screening ledger's store.\<close>

section \<open>What readers see\<close>

lemma inv_list: "ledger_inv env s es as d \<Longrightarrow> length es < 2 ^ 64 \<Longrightarrow> ListEvents d = Inr es"
  by (auto simp: ledger_inv_def intro: event_listing)

text \<open>After recovery a directory that satisfies the invariant is settled.\<close>

lemma recover_run:
  assumes "ledger_inv env s es as d" and "recoverLocked s d = (ws, r)"
  shows "r = Inr () \<and> ledger_inv env s es as (apply_writes ws d) \<and> settled s es (apply_writes ws d)"
proof -
  obtain us where us: "recoverLocked s d = (us, Inr ())"
    using recover_succeeds [OF assms(1)] by blast
  then have "settled s es (apply_writes us d)" "ledger_inv env s es as (apply_writes us d)"
    using recover_safe [OF assms(1)] safe_end [OF recover_safe [OF assms(1)] us] by (auto simp: safe_def)
  then show ?thesis
    using us assms(2) by simp
qed

lemma VerifyPolicy_run:
  assumes "ledger_inv env s es as d" and "recoverLocked s d = (ws, r)"
  shows "VerifyPolicy env s vo d = (ws, verify_files env s vo (apply_writes ws d))"
  using recover_run [OF assms] assms(2) by (auto simp: VerifyPolicy_def andThen_def)

lemma head_value_sequence: "ledger_inv env s es as d \<Longrightarrow> lh_sequence (head_value s es) = of_nat (length es)"
  using keyed_chain_head by (auto simp: ledger_inv_def events_part_def)

section \<open>Properties\<close>

text \<open>
  C3. Whatever appends, audit entries, replication marks and verifications were performed on a ledger, appends and
  recoveries cut off anywhere, verification under a policy without a frozen prefix succeeds: it reports the last
  event, claims no purge, and has decrypted the two snapshots of every event.
\<close>

theorem reachable_ledgers_verify:
  assumes "ledger_reach env s n d" and "ledger_env_ok env" and "store_ok s" and "n < 2 ^ 64" and "plain_options s vo"
  shows "\<exists>ws r es. VerifyPolicy env s vo d = (ws, Inr r) \<and> ListEvents (apply_writes ws d) = Inr es
    \<and> rp_claims r = [] \<and> rp_performed r = 2 * length es \<and> rp_total r = 2 * length es
    \<and> unat (lh_sequence (rp_head r)) = length es"
proof -
  obtain es as where inv: "ledger_inv env s es as d" "length es + length as \<le> n"
    using reach_inv [OF assms(1-4)] by blast
  obtain ws where ws: "recoverLocked s d = (ws, Inr ())"
    using recover_succeeds [OF inv(1)] by blast
  have len: "length es < 2 ^ 64" "length as < 2 ^ 64"
    using inv(2) assms(4) by auto
  have d': "ledger_inv env s es as (apply_writes ws d)" "settled s es (apply_writes ws d)"
    using recover_run [OF inv(1) ws] by auto
  obtain r where r: "verify_files env s vo (apply_writes ws d) = Inr r" "rp_head r = head_value s es"
    "rp_total r = 2 * length es" "rp_performed r = 2 * length es" "rp_claims r = []"
    using inv_verifies [OF d' len assms(5)] by metis
  have "unat (lh_sequence (rp_head r)) = length es"
    using r(2) head_value_sequence [OF inv(1)] len(1) by (simp add: unat_of_nat take_bit_nat_eq_self)
  then show ?thesis
    using VerifyPolicy_run [OF inv(1) ws, of vo] inv_list [OF d'(1) len(1)] r by auto
qed

theorem reachable_ledgers_verify_witness:
  "\<exists>ws r es. VerifyPolicy toy_ledger toy_store toy_options toy_files = (ws, Inr r) \<and> ListEvents (apply_writes ws toy_files) = Inr es
    \<and> rp_claims r = [] \<and> rp_performed r = 2 * length es \<and> rp_total r = 2 * length es \<and> unat (lh_sequence (rp_head r)) = length es"
  by (rule reachable_ledgers_verify [OF toy_reach toy_ledger_ok toy_store_ok _ toy_options_plain]) simp

text \<open>
  C4. An append that adds an event is atomic: cut off after any of its writes and recovered, the ledger holds the
  old events, or the old events and the new one, and its head names the last of them.
\<close>

theorem append_crash_atomic:
  assumes "ledger_reach env s n d" and "ledger_env_ok env" and "store_ok s" and "Suc n < 2 ^ 64"
    and "length n1 = 12" and "length n2 = 12" and run: "Append env s now n1 n2 input d = (ws, Inr (e, False))"
    and rec: "recoverLocked s (apply_writes (take k ws) d) = (us, r)" and d': "d' = apply_writes us (apply_writes (take k ws) d)"
  shows "r = Inr () \<and> (\<exists>es es'. ListEvents d = Inr es \<and> (es' = es \<or> es' = es @ [e]) \<and> (length ws \<le> k \<longrightarrow> es' = es @ [e])
    \<and> ListEvents d' = Inr es' \<and> loadHead s d' = Inr (head_value s es'))"
proof -
  obtain es as where inv: "ledger_inv env s es as d" "length es + length as \<le> n"
    using reach_inv [OF assms(1-3)] assms(4) by auto
  note safe = Append_safe [OF inv(1) assms(2,3,5,6), of now input]
  have e: "e = next_event env s now n1 n2 input es" "ledger_inv env s (es @ [e]) as (apply_writes ws d)"
    using safe run by (auto simp: safe_def)
  obtain es' where es': "ledger_inv env s es' as (apply_writes (take k ws) d)" "es' = es \<or> es' = es @ [e]" "length ws \<le> k \<longrightarrow> es' = es @ [e]"
    using safe_crash [OF safe run, of k] e by (cases "length ws \<le> k") auto
  have len: "length es < 2 ^ 64" "length es' < 2 ^ 64"
    using inv(2) assms(4) es'(2) by auto
  have d: "r = Inr () \<and> ledger_inv env s es' as d' \<and> settled s es' d'"
    using recover_run [OF es'(1) rec] d' by simp
  then show ?thesis
    using es'(2,3) inv_list [OF inv(1) len(1)] inv_list [of env s es' as d'] len(2) loadHead_value [of s es' d']
    by (auto simp: settled_def)
qed

theorem append_crash_atomic_witness:
  "snd (recoverLocked toy_store toy_cut) = Inr () \<and> (\<exists>es'. es' \<in> {[], [toy_event]}
    \<and> ListEvents (apply_writes (fst (recoverLocked toy_store toy_cut)) toy_cut) = Inr es')"
proof -
  obtain ws where ws: "Append toy_ledger toy_store ''9'' toy_nonce toy_nonce toy_input fmempty = (ws, Inr (toy_event, False))"
    using toy_append by (auto simp: toy_append_def)
  have none: "ListEvents fmempty = Inr []"
    by (rule event_listing [of toy_ledger toy_store]) (simp_all add: events_part_def keyed_chain_def)
  have cut: "toy_cut = apply_writes (take 3 ws) fmempty"
    by (simp add: toy_cut_def toy_append_def ws)
  obtain us r where rec: "recoverLocked toy_store (apply_writes (take 3 ws) fmempty) = (us, r)"
    by fastforce
  note result = append_crash_atomic [OF toy_fresh toy_ledger_ok toy_store_ok _ toy_nonce_length toy_nonce_length ws rec refl]
  show ?thesis
    using result none unfolding cut rec by auto
qed

section \<open>Repetition\<close>

lemma defaults_fields:
  assumes "with_defaults now input = Inr i"
  shows "ai_route i = ai_route input" "ai_request i = ai_request input" "ai_response i = ai_response input"
    "ai_correlation i = ai_correlation input" "ai_idempotency i = ai_idempotency input"
    "ai_occurred i = (if ai_occurred input = [] then now else ai_occurred input)"
    "ai_retention i = default_retention (ai_retention input)"
  using assms by (auto simp: with_defaults_def)

lemma identity_of_plan:
  assumes "plan_append env s now n1 n2 input = Inr pl" and "plan_append env s now' m1 m2 input = Inr pl'"
    and "ai_occurred input \<noteq> [] \<or> idempotency_hash env input \<noteq> []"
  shows "event_identity env s (pl_input pl) = event_identity env s (pl_input pl')"
proof -
  have i: "with_defaults now input = Inr (pl_input pl)" "with_defaults now' input = Inr (pl_input pl')"
    using assms(1,2) unfolding plan_append_ok by blast+
  show ?thesis
    using assms(3) by (simp add: event_identity_def idempotency_hash_def defaults_fields [OF i(1)] defaults_fields [OF i(2)] split: if_splits)
qed

lemma encrypt_any: "encryptSnapshot env key nonce kind p c e cl = Inr x \<Longrightarrow> \<exists>y. encryptSnapshot env key nonce' kind p c' e' cl' = Inr y"
  by (auto simp: encryptSnapshot_def Let_def split: if_splits)

text \<open>An input that was accepted is accepted again.\<close>

lemma plan_again:
  assumes "plan_append env s now n1 n2 input = Inr pl" and "lx_time env now' \<noteq> None"
  shows "\<exists>pl'. plan_append env s now' m1 m2 input = Inr pl'"
proof -
  obtain i p q t where i: "with_defaults now input = Inr i" "canonicalJSON env (ai_request i) = Some p" "canonicalJSON env (ai_response i) = Some q"
      "int (length p) \<le> lr_max_bytes (ai_retention i)" "int (length q) \<le> lr_max_bytes (ai_retention i)"
      "mustExpires env (ai_occurred i) (lr_days (ai_retention i)) = Inr t"
    and x: "encryptSnapshot env (ck_snap (lt_keys s)) n1 ''request'' p (ai_occurred i) t (lr_class (ai_retention i)) = Inr (pl_request pl)"
      "encryptSnapshot env (ck_snap (lt_keys s)) n2 ''response'' q (ai_occurred i) t (lr_class (ai_retention i)) = Inr (pl_response pl)"
    using assms(1) unfolding plan_append_ok by (elim exE conjE) (rule that)
  obtain i' where i': "with_defaults now' input = Inr i'"
    using i(1) by (auto simp: with_defaults_def)
  note f = defaults_fields [OF i(1)] defaults_fields [OF i']
  obtain t' where t': "mustExpires env (ai_occurred i') (lr_days (ai_retention i')) = Inr t'"
    using i(6) assms(2) by (auto simp: f mustExpires_def Let_def split: option.splits if_splits)
  obtain y z where "encryptSnapshot env (ck_snap (lt_keys s)) m1 ''request'' p (ai_occurred i') t' (lr_class (ai_retention i')) = Inr y"
    "encryptSnapshot env (ck_snap (lt_keys s)) m2 ''response'' q (ai_occurred i') t' (lr_class (ai_retention i')) = Inr z"
    using encrypt_any [OF x(1)] encrypt_any [OF x(2)] by metis
  then have "plan_append env s now' m1 m2 input = Inr \<lparr>pl_input = i', pl_request = y, pl_response = z, pl_canonical = q, pl_expires = t'\<rparr>"
    using i i' t' by (subst plan_append_ok) (simp add: f)
  then show ?thesis by blast
qed

text \<open>
  C24. Appending is idempotent. Take an input that a ledger that started empty has accepted and that carries its time or an idempotency key,
  and any later directory: after fewer than 2^64 further appends (each possibly cut off), completed audit entries, verifications and replication marks.
  Repeating the input there, at any time and with any other nonces, returns the event that the first call returned and writes
  nothing but what the recovery of an interrupted append writes; nothing at all if no append is pending.
\<close>

theorem append_replays:
  assumes reach: "ledger_reach env s n d" and ok: "ledger_env_ok env" "store_ok s" and few: "Suc (n + m) < 2 ^ 64"
    and nonces: "length n1 = 12" "length n2 = 12" and run: "Append env s now n1 n2 input d = (ws, Inr (e, b))"
    and key: "ai_occurred input \<noteq> [] \<or> idempotency_hash env input \<noteq> []"
    and later: "ledger_later env s (apply_writes ws d) m d'"
  shows "\<exists>us. recoverLocked s d' = (us, Inr ()) \<and> Append env s (lx_format env t) m1 m2 input d' = (us, Inr (e, True))
    \<and> (fmlookup d' LedgerPendingFile = None \<longrightarrow> us = [])"
proof -
  obtain es as where inv: "ledger_inv env s es as d" "length es + length as \<le> n"
    using reach_inv [OF reach ok] few by auto
  have "stored_after env s es as (next_event env s now n1 n2 input es) (e, b) (apply_writes ws d)"
    using Append_safe [OF inv(1) ok nonces, of now input] run by (auto simp: safe_def)
  then obtain es' where st: "ledger_inv env s es' as (apply_writes ws d)" "length es' \<le> Suc (length es)" "e \<in> set es'"
    "le_id e = le_id (next_event env s now n1 n2 input es)"
    by (cases b) auto
  obtain es'' as'' where inv'': "ledger_inv env s (es' @ es'') as'' d'"
    using later_inv [OF later st(1) ok] st(2) inv(2) few by auto
  obtain us where us: "recoverLocked s d' = (us, Inr ())"
    using recover_succeeds [OF inv''] by blast
  have rec: "ledger_inv env s (es' @ es'') as'' (apply_writes us d')"
    using safe_end [OF recover_safe [OF inv''] us] .
  obtain pl where pl: "plan_append env s now n1 n2 input = Inr pl"
    using run by (auto simp: Append_def andThen_ok)
  obtain pl' where pl': "plan_append env s (lx_format env t) m1 m2 input = Inr pl'"
    using plan_again [OF pl] ok(1) by (metis ledger_env_ok_def option.distinct(1))
  have "le_id e = event_identity env s (pl_input pl')"
    using st(4) identity_of_plan [OF pl pl' key] by (simp add: next_event_def pl)
  then have "fmlookup (apply_writes us d') (event_path (event_identity env s (pl_input pl'))) = Some (LEvent e)"
    using rec st(3) by (auto simp: ledger_inv_def events_part_def event_path_def)
  then have "existing_event (event_path (event_identity env s (pl_input pl'))) (apply_writes us d') = Inr (Some e)"
    by (simp add: existing_event_def readCanonicalChainFile_def)
  then have "Append env s (lx_format env t) m1 m2 input d' = (us, Inr (e, True))"
    using pl' us by (simp add: Append_recovered append_recovered_def andThen_def)
  then show ?thesis
    using us by (auto simp: ledger_recover_nothing)
qed

theorem append_replays_witness:
  "Append toy_ledger toy_store (lx_format toy_ledger 99) toy_nonce toy_nonce toy_input
     (apply_writes (fst (MarkReplicated ''8'' ''e'' [] toy_files)) toy_files)
   = ([], Inr (toy_event, True))"
proof -
  obtain ws where ws: "Append toy_ledger toy_store ''9'' toy_nonce toy_nonce toy_input fmempty = (ws, Inr (toy_event, False))"
    using toy_append by (auto simp: toy_append_def)
  have files: "toy_files = apply_writes ws fmempty"
    by (simp add: toy_files_def toy_append_def ws)
  let ?d = "apply_writes (fst (MarkReplicated ''8'' ''e'' [] toy_files)) toy_files"
  have later: "ledger_later toy_ledger toy_store (apply_writes ws fmempty) 0 ?d"
    using ledger_later.replicated [OF ledger_later.now surjective_pairing] unfolding files by blast
  have "fmlookup ?d LedgerPendingFile = None"
    using toy_inv by (simp add: MarkReplicated_def settled_def replication_path_def)
  then show ?thesis
    using append_replays [OF toy_fresh toy_ledger_ok toy_store_ok _ toy_nonce_length toy_nonce_length ws _ later]
    by (simp add: toy_input_def)
qed

section \<open>Changes from outside\<close>

text \<open>
  C11. No downgrade: in any directory that passes verification, whoever wrote it, every event at or after the
  genesis boundary of the policy has the current schema and carries the keyed digest of its content, and only
  events before the boundary carry the unkeyed one.
\<close>

theorem no_downgrade:
  assumes "VerifyPolicy env s vo d = (ws, Inr r)"
  shows "\<exists>es. ListEvents (apply_writes ws d) = Inr es \<and>
    (\<forall>e \<in> set es. if le_sequence e < vp_genesis_event (vo_policy vo)
       then le_schema e = EventSchemaV1 \<and> le_sha e = legacyHashEvent env e
       else le_schema e = EventSchemaV2 \<and> le_sha e = hashEvent env (ck_chain (lt_keys s)) e)"
proof -
  have v: "verify_files env s vo (apply_writes ws d) = Inr r"
    using assms by (simp add: VerifyPolicy_ok)
  obtain es where "ListEvents (apply_writes ws d) = Inr es"
    by (rule accepted_events [OF v])
  then show ?thesis
    using accepted_digests [OF v] by blast
qed

theorem no_downgrade_witness: "le_schema legacy_event = EventSchemaV1 \<and> le_sha legacy_event = legacyHashEvent toy_ledger legacy_event"
proof -
  obtain r where "VerifyPolicy toy_ledger toy_store legacy_options legacy_files = ([], Inr r)"
    using legacy_verifies by blast
  then show ?thesis
    using no_downgrade [of toy_ledger toy_store legacy_options legacy_files "[]" r] legacy_events
    by (simp add: legacy_options_def legacy_event_def legacy_draft_def)
qed

text \<open>
  C20. The pinned prefix: two directories that pass verification under policies with one genesis boundary above
  one and one pin have the same frozen events, or two different events with one SHA-256 digest have been found. The key
  of the chain is not needed for this.
\<close>

theorem frozen_prefix_pinned:
  assumes v: "VerifyPolicy env s vo d = (ws, Inr r)" "VerifyPolicy env s' vo' d' = (ws', Inr r')"
    and g: "1 < vp_genesis_event (vo_policy vo)" "vp_genesis_event (vo_policy vo') = vp_genesis_event (vo_policy vo)"
      "vp_event_pin (vo_policy vo') = vp_event_pin (vo_policy vo)"
    and l: "ListEvents (apply_writes ws d) = Inr es" "ListEvents (apply_writes ws' d') = Inr es'"
  defines "frozen \<equiv> filter (\<lambda>e. le_sequence e < vp_genesis_event (vo_policy vo))"
  shows "frozen es = frozen es' \<or> (\<exists>e \<in> set es. \<exists>f \<in> set es'. unsealed e \<noteq> unsealed f \<and> legacyHashEvent env e = legacyHashEvent env f)"
proof -
  let ?k = "unat (vp_genesis_event (vo_policy vo)) - 1"
  have prefix: "chain_ok le_sequence le_previous le_sha (\<lambda>e. legacyHashEvent env (unsealed e)) 0 [] (take ?k xs)
      \<and> length (take ?k xs) = ?k \<and> chain_head le_sha [] (take ?k xs) = vp_event_pin (vo_policy vo) \<and> frozen xs = take ?k xs"
    if v: "verify_files env t o' f = Inr q" and xs: "ListEvents f = Inr xs"
      and g': "vp_genesis_event (vo_policy o') = vp_genesis_event (vo_policy vo)" "vp_event_pin (vo_policy o') = vp_event_pin (vo_policy vo)"
    for t o' f q xs
  proof -
    obtain m ys where ys: "ListEvents f = Inr ys" "ledger_chain env t (vo_policy o') 0 [] ys" "length ys < 2 ^ 64"
      "\<forall>e \<in> set ys. entry_ok env t o' m f e"
      "vp_genesis_event (vo_policy o') = 1 \<or> (\<exists>e \<in> set ys. le_sequence e = vp_genesis_event (vo_policy o') - 1)"
      by (rule accepted_events [OF v]) (rule that)
    then obtain e where e: "e \<in> set ys" "le_sequence e = vp_genesis_event (vo_policy o') - 1"
      using g(1) g'(1) by auto
    have "le_sha e = vp_event_pin (vo_policy o')"
      using ys(4) e g(1) g'(1) by (auto simp: entry_ok_def Let_def)
    then show ?thesis
      using frozen_prefix [OF ys(2,3) e] g(1) g' xs ys(1) by (simp add: frozen_def)
  qed
  have p: "verify_files env s vo (apply_writes ws d) = Inr r" "verify_files env s' vo' (apply_writes ws' d') = Inr r'"
    using v by (simp_all add: VerifyPolicy_ok)
  note xs = prefix [OF p(1) l(1) refl refl] and ys = prefix [OF p(2) l(2) g(2,3)]
  have "take ?k es = take ?k es' \<or> (\<exists>e \<in> set (take ?k es). \<exists>f \<in> set (take ?k es').
      unsealed e \<noteq> unsealed f \<and> legacyHashEvent env (unsealed e) = legacyHashEvent env (unsealed f))"
    using xs ys by (intro frozen_log.same_head_same_log [of env 0 "[]"]) simp_all
  then show ?thesis
    using xs ys by (auto dest!: in_set_takeD)
qed

theorem frozen_prefix_pinned_witness:
  "\<exists>es es'. ListEvents legacy_files = Inr es \<and> ListEvents legacy_marked = Inr es' \<and>
     (filter (\<lambda>e. le_sequence e < 2) es = filter (\<lambda>e. le_sequence e < 2) es'
      \<or> (\<exists>e \<in> set es. \<exists>f \<in> set es'. unsealed e \<noteq> unsealed f \<and> legacyHashEvent toy_ledger e = legacyHashEvent toy_ledger f))"
proof -
  obtain r where v: "VerifyPolicy toy_ledger toy_store legacy_options legacy_files = ([], Inr r)"
      "VerifyPolicy toy_ledger toy_store legacy_options legacy_marked = ([], Inr r)"
    using legacy_verifies legacy_marked_verifies by blast
  have g: "vp_genesis_event (vo_policy legacy_options) = 2"
    by (simp add: legacy_options_def)
  have l: "ListEvents (apply_writes [] legacy_files) = Inr [legacy_event]" "ListEvents (apply_writes [] legacy_marked) = Inr [legacy_event]"
    using legacy_events legacy_marked_events by simp_all
  then show ?thesis
    using frozen_prefix_pinned [OF v _ refl refl l] unfolding g by simp
qed

text \<open>
  C21. A snapshot can be replaced: if two snapshots of a verified ledger can be decrypted, storing the second one
  under the name of the first, with only the name in it changed, needs no key, and verification returns the same
  report, while decrypting the first now yields the text of the second.
\<close>

theorem substituted_snapshot_verifies:
  assumes v: "VerifyPolicy env s vo d = (ws, Inr r)" and d': "d' = apply_writes ws d"
    and x: "LoadSnapshot a d' = Inr x" "ls_sha x = a" "DecryptSnapshot env s a d' = Inr p"
    and y: "LoadSnapshot b d' = Inr y" "DecryptSnapshot env s b d' = Inr q"
    and d'': "d'' = fmupd (snapshot_path a) (LSnapshot (y\<lparr>ls_sha := a\<rparr>)) d'"
  shows "VerifyPolicy env s vo d'' = ([], Inr r) \<and> DecryptSnapshot env s a d'' = Inr q"
proof -
  have v': "verify_files env s vo d' = Inr r" and no_pending: "fmlookup d' LedgerPendingFile = None"
    using v d' recovered_no_pending by (auto simp: VerifyPolicy_ok)
  have same: "decryptSnapshot env k (y\<lparr>ls_sha := a\<rparr>) = decryptSnapshot env k y" for k
  proof -
    have f: "ls_purged (y\<lparr>ls_sha := a\<rparr>) = ls_purged y" "ls_ciphertext (y\<lparr>ls_sha := a\<rparr>) = ls_ciphertext y"
      "ls_nonce (y\<lparr>ls_sha := a\<rparr>) = ls_nonce y" "ls_aad (y\<lparr>ls_sha := a\<rparr>) = ls_aad y" "ls_plain_sha (y\<lparr>ls_sha := a\<rparr>) = ls_plain_sha y"
      by simp_all
    show ?thesis
      unfolding decryptSnapshot_def f ..
  qed
  have ok: "ls_purged e = [] \<and> lx_sha env t = ls_plain_sha e" if "decryptSnapshot env k e = Inr t" for k e t
    using that by (auto simp: decryptSnapshot_def split: if_splits option.splits)
  have x': "decryptSnapshot env (ck_snap (lt_keys s)) x = Inr p" and y': "decryptSnapshot env (ck_snap (lt_keys s)) y = Inr q"
    using x y by (auto simp: DecryptSnapshot_def)
  have "verifySnapshotChecked env s (modeOrDefault vo) (vo_purges vo) sha n d'
      = verifySnapshotChecked env s (modeOrDefault vo) (vo_purges vo) sha n d''" for sha n
  proof (cases "sha = a")
    case True
    then show ?thesis
      using x x' ok [OF x'] y' ok [OF y'] same
      by (simp add: verifySnapshotChecked_def LoadSnapshot_def d'' readCanonicalChainFile_def split: option.splits)
  next
    case False
    then have "LoadSnapshot sha d' = LoadSnapshot sha d''"
      by (simp add: d'' LoadSnapshot_def readCanonicalChainFile_def)
    then show ?thesis
      by (simp add: verifySnapshotChecked_def)
  qed
  then have "verify_files env s vo d' = verify_files env s vo d''"
    by (rule verify_files_cong) (auto simp: d'' snapshot_path_def)
  then have "verify_files env s vo d'' = Inr r"
    using v' by simp
  moreover have "recoverLocked s d'' = ([], Inr ())"
    using no_pending by (intro ledger_recover_nothing) (simp add: d'' snapshot_path_def)
  ultimately have "VerifyPolicy env s vo d'' = ([], Inr r)"
    by (simp add: VerifyPolicy_ok)
  then show ?thesis
    using y' same by (simp add: DecryptSnapshot_def LoadSnapshot_def readCanonicalChainFile_def d'')
qed

theorem substituted_snapshot_verifies_witness:
  "DecryptSnapshot toy_ledger toy_store ''a'' legacy_files = Inr ''1''
   \<and> (\<exists>r. VerifyPolicy toy_ledger toy_store legacy_options (fmupd (snapshot_path ''a'') (LSnapshot (legacy_snapshot ''a'' ''22'')) legacy_files) = ([], Inr r))
   \<and> DecryptSnapshot toy_ledger toy_store ''a'' (fmupd (snapshot_path ''a'') (LSnapshot (legacy_snapshot ''a'' ''22'')) legacy_files) = Inr ''22''"
proof -
  obtain r where v: "VerifyPolicy toy_ledger toy_store legacy_options legacy_files = ([], Inr r)"
    using legacy_verifies by blast
  have d: "DecryptSnapshot toy_ledger toy_store ''a'' legacy_files = Inr ''1''" "DecryptSnapshot toy_ledger toy_store ''b'' legacy_files = Inr ''22''"
    by (simp_all add: DecryptSnapshot_def legacy_snapshots legacy_decrypts)
  have n: "ls_sha (legacy_snapshot ''a'' ''1'') = ''a''" "(legacy_snapshot ''b'' ''22'')\<lparr>ls_sha := ''a''\<rparr> = legacy_snapshot ''a'' ''22''"
    by (simp_all add: legacy_snapshot_def)
  show ?thesis
    using substituted_snapshot_verifies [OF v _ legacy_snapshots(1) n(1) d(1) legacy_snapshots(2) d(2) refl] d(1) unfolding n(2) by auto
qed

lemma verify_files_audit: "verify_files env s vo d = Inr r \<Longrightarrow> verifyAuditPolicyLocked env s (vo_policy vo) d = Inr (rp_audit_head r, rp_audit_frozen r)"
  by (rule verify_files_report)

lemma recover_paths: "recoverLocked s d = (ws, r) \<Longrightarrow> path_of ` set ws \<subseteq> {LedgerHeadFile, LedgerPendingFile}"
  by (auto simp: recoverLocked_def andThen_readp andThen_writep split: sum.splits option.splits if_splits prod.splits)
    (auto simp: andThen_def split: if_splits)

lemma audit_reading_cong:
  assumes "\<And>n. fmlookup d (LedgerAuditFile n) = fmlookup d' (LedgerAuditFile n)"
  shows "readAuditEntries d = readAuditEntries d'"
proof -
  have "audit_paths d = audit_paths d'"
    using assms by (auto simp: audit_paths_def intro!: arg_cong [of _ _ "map LedgerAuditFile"] json_names_cong)
  moreover have "read_all as_ledger_audit d (audit_paths d') = read_all as_ledger_audit d' (audit_paths d')"
    using assms by (intro read_all_cong) (auto simp: audit_paths_set)
  ultimately show ?thesis
    by (simp add: readAuditEntries_def)
qed

lemma read_all_member: "read_all sel d ps = Inr xs \<Longrightarrow> p \<in> set ps \<Longrightarrow> \<exists>x \<in> set xs. readCanonicalChainFile sel p d = Inr x"
  by (induction ps arbitrary: xs) auto

lemma read_all_length: "read_all sel d ps = Inr xs \<Longrightarrow> length xs = length ps"
  by (induction ps arbitrary: xs) auto

lemma read_audit_member:
  assumes "readAuditEntries d = Inr xs" and "fmlookup d (LedgerAuditFile (audit_file_name e)) = Some (LAudit e)"
  shows "e \<in> set xs"
proof -
  have "LedgerAuditFile (audit_file_name e) \<in> set (audit_paths d)"
    using assms(2) by (auto simp: audit_paths_set)
  then show ?thesis
    using read_all_member [OF assms(1) [unfolded readAuditEntries_def]] assms(2) by (fastforce simp: chain_read_ok)
qed

lemma audit_listing_length: "readAuditEntries d = Inr xs \<Longrightarrow> length xs \<le> fcard (fmdom d)"
proof -
  assume "readAuditEntries d = Inr xs"
  then have "length xs = card (set (audit_paths d))"
    using read_all_length [of as_ledger_audit d "audit_paths d" xs] by (simp add: readAuditEntries_def distinct_card)
  also have "\<dots> \<le> card (fset (fmdom d))"
    by (intro card_mono) (auto simp: audit_paths_set fmlookup_dom_iff)
  finally show ?thesis
    by (simp add: fcard.rep_eq)
qed

text \<open>
  C22. An interrupted audit entry is fatal: if \<^verbatim>\<open>AppendAudit\<close> is cut off between its two writes, verification
  fails; and once a further entry with another digest has been appended, verification fails for ever, that is, in every directory
  that keeps the audit files.
\<close>

theorem audit_crash_wedges:
  assumes reach: "ledger_reach env s n d" "ledger_env_ok env" "store_ok s" "Suc n < 2 ^ 64"
    and cut: "AppendAudit env s now a p r i dt d = (ws, Inr e)" "d1 = apply_writes (take 1 ws) d"
    and more: "AppendAudit env s now' a' p' r' i' dt' d1 = (ws', Inr e')" "d2 = apply_writes ws' d1" "la_sha e' \<noteq> la_sha e"
    and kept: "\<And>n c. fmlookup d2 (LedgerAuditFile n) = Some c \<Longrightarrow> fmlookup d3 (LedgerAuditFile n) = Some c"
    and few: "fcard (fmdom d3) < 2 ^ 64"
  shows "\<not> is_ok (snd (VerifyPolicy env s vo d1)) \<and> \<not> is_ok (snd (VerifyPolicy env s vo d3))"
proof -
  obtain es as where inv: "ledger_inv env s es as d" "length es + length as \<le> n"
    using reach_inv [OF reach(1-3)] reach(4) by auto
  have a: "audit_part env s as d"
    using inv(1) by (simp add: ledger_inv_def)
  have e: "e = new_audit env s now a p r i dt (audit_head_value s as)" "ws = [Put (audit_path e) (LAudit e), Put LedgerAuditHeadFile (LHead (audit_head s e))]"
    using cut(1) by (auto simp: AppendAudit_run [OF inv(1)] Let_def)
  have head: "loadAuditHead s d1 = Inr (audit_head_value s as)"
  proof -
    have "fmlookup d1 LedgerAuditHeadFile = fmlookup d LedgerAuditHeadFile"
      by (simp add: cut(2) e(2) audit_path_def)
    then show ?thesis
      using loadAuditHead_value [OF a] by (simp only: loadAuditHead_def readCanonicalChainFile_def)
  qed
  have e': "e' = new_audit env s now' a' p' r' i' dt' (audit_head_value s as)" "ws' = [Put (audit_path e') (LAudit e'), Put LedgerAuditHeadFile (LHead (audit_head s e'))]"
    using more(1) head by (auto simp: AppendAudit_def andThen_readp andThen_writep Let_def)
  have kept_by_recovery: "fmlookup (apply_writes us f) q = fmlookup f q" if "recoverLocked s f = (us, Inr ())" "q \<notin> {LedgerHeadFile, LedgerPendingFile}" for us f q
    using recover_paths [OF that(1)] that(2) by (intro lookup_untouched) blast
  have audits: "\<exists>h. verifyAuditPolicyLocked env s (vo_policy vo) f = Inr h" if ok: "is_ok (snd (VerifyPolicy env s vo f))" for f
  proof -
    obtain us q where v: "VerifyPolicy env s vo f = (us, Inr q)"
      using ok by (cases "VerifyPolicy env s vo f"; cases "snd (VerifyPolicy env s vo f)") auto
    then have "verifyAuditPolicyLocked env s (vo_policy vo) (apply_writes us f) = verifyAuditPolicyLocked env s (vo_policy vo) f"
      by (intro audit_verification_cong kept_by_recovery) (auto simp: VerifyPolicy_ok)
    then show ?thesis
      using v verify_files_audit by (metis VerifyPolicy_ok)
  qed
  show ?thesis
  proof (intro conjI notI)
    assume "is_ok (snd (VerifyPolicy env s vo d1))"
    then obtain h k where v: "verifyAuditPolicyLocked env s (vo_policy vo) d1 = Inr (h, k)"
      using audits by fastforce
    let ?d = "fmupd LedgerAuditHeadFile (LHead (audit_head s e)) d1"
    have "ledger_inv env s es (as @ [e]) ?d"
      using audit_append_inv [OF inv(1), of e] inv(2) reach(4) by (simp add: cut(2) e(2)) (simp add: e(1))
    then have "readAuditEntries ?d = Inr (as @ [e])"
      using inv(2) reach(4) by (intro audit_listing) (auto simp: ledger_inv_def)
    then have "readAuditEntries d1 = Inr (as @ [e])"
      using audit_reading_cong [of d1 ?d] by simp
    moreover obtain ys where "readAuditEntries d1 = Inr ys" "loadAuditHead s d1 = Inr h" "(lh_sequence h, lh_sha h) = audit_last ys"
      by (rule verify_audit_ok [OF v]) (rule that)
    ultimately have "lh_sequence (audit_head_value s as) = la_sequence e"
      using head by (simp add: audit_last_def)
    then show False
      by (simp add: e(1))
  next
    assume "is_ok (snd (VerifyPolicy env s vo d3))"
    then obtain h k where v: "verifyAuditPolicyLocked env s (vo_policy vo) d3 = Inr (h, k)"
      using audits by fastforce
    obtain xs where xs: "readAuditEntries d3 = Inr xs" "audit_chain env s (vo_policy vo) 0 [] xs"
      by (rule verify_audit_ok [OF v]) (rule that)
    have same: "la_sequence e = la_sequence e'"
      by (simp add: e(1) e'(1))
    have names: "audit_file_name e \<noteq> audit_file_name e'"
      using more(3) same by (auto simp: audit_file_name_def)
    have "fmlookup d2 (audit_path e) = Some (LAudit e)" "fmlookup d2 (audit_path e') = Some (LAudit e')"
      using names by (simp_all add: more(2) cut(2) e(2) e'(2) audit_path_def)
    then have "e \<in> set xs" "e' \<in> set xs"
      using kept read_audit_member [OF xs(1)] by (auto simp: audit_path_def)
    then have "e = e'"
      using audit_chain_distinct [OF xs(2) _ _ _ same] few audit_listing_length [OF xs(1)] by simp
    then show False
      using more(3) by simp
  qed
qed

theorem audit_crash_wedges_witness:
  "\<exists>ws e ws' e' d1. AppendAudit toy_ledger toy_store ''9'' ''a'' ''op'' ''why'' [] (Some (JNum ''1'')) fmempty = (ws, Inr e)
    \<and> d1 = apply_writes (take 1 ws) fmempty
    \<and> AppendAudit toy_ledger toy_store ''9'' ''a'' ''op'' ''why'' [] (Some (JNum ''22'')) d1 = (ws', Inr e')
    \<and> \<not> is_ok (snd (VerifyPolicy toy_ledger toy_store toy_options (apply_writes ws' d1)))"
proof -
  let ?h = "audit_head_value toy_store []"
  let ?e = "new_audit toy_ledger toy_store ''9'' ''a'' ''op'' ''why'' [] (Some (JNum ''1'')) ?h"
  let ?f = "new_audit toy_ledger toy_store ''9'' ''a'' ''op'' ''why'' [] (Some (JNum ''22'')) ?h"
  let ?ws = "\<lambda>e. [Put (audit_path e) (LAudit e), Put LedgerAuditHeadFile (LHead (audit_head toy_store e))]"
  have run: "AppendAudit toy_ledger toy_store ''9'' ''a'' ''op'' ''why'' [] (Some (JNum t)) d
      = (?ws (new_audit toy_ledger toy_store ''9'' ''a'' ''op'' ''why'' [] (Some (JNum t)) ?h),
         Inr (new_audit toy_ledger toy_store ''9'' ''a'' ''op'' ''why'' [] (Some (JNum t)) ?h))"
    if "fmlookup d LedgerAuditHeadFile = None" for t d
    using that by (simp add: AppendAudit_def loadAuditHead_def audit_head_value_def andThen_def Let_def)
  let ?d1 = "apply_writes (take 1 (?ws ?e)) fmempty"
  have r: "AppendAudit toy_ledger toy_store ''9'' ''a'' ''op'' ''why'' [] (Some (JNum ''1'')) fmempty = (?ws ?e, Inr ?e)"
    "AppendAudit toy_ledger toy_store ''9'' ''a'' ''op'' ''why'' [] (Some (JNum ''22'')) ?d1 = (?ws ?f, Inr ?f)"
    using run by (simp_all add: audit_path_def)
  have few: "fcard (fmdom (apply_writes (?ws ?f) ?d1)) < 2 ^ 64"
    by (simp add: fcard_finsert_if fcard_fempty)
  have "\<not> is_ok (snd (VerifyPolicy toy_ledger toy_store toy_options (apply_writes (?ws ?f) ?d1)))"
    using audit_crash_wedges [OF toy_fresh toy_ledger_ok toy_store_ok _ r(1) refl r(2) refl toy_audit_digests(1) [symmetric] _ few, of toy_options] by simp
  then show ?thesis
    using r by blast
qed

end
