(* ===== verification/LedgerAnchorProps.thy ===== *)
theory LedgerAnchorProps imports LedgerAnchorDemo LedgerProps begin

text \<open>Properties of the screening ledger under its anchors.\<close>

section \<open>What an anchor pins\<close>

text \<open>
  C13. Anchored history: if two directories are accepted against one anchor row under policies with one genesis
  boundary, they have the same events and audit entries up to the anchored sequences, or two different entries
  with one digest have been found.
\<close>

theorem anchored_history_agrees:
  assumes v: "VerifyAnchored env s ao d = (ws, Inr rep)" "VerifyAnchored env s ao' d' = (ws', Inr rep')"
    and rd: "ao_anchors ao = Some rd" "ar_latest rd (lt_id s) = Inr (Some a)" "ao_anchors ao' = Some rd'" "ar_latest rd' (lt_id s) = Inr (Some a)"
    and g: "vp_genesis_event (ao_policy ao') = vp_genesis_event (ao_policy ao)" "vp_genesis_audit (ao_policy ao') = vp_genesis_audit (ao_policy ao)"
    and l: "ListEvents (apply_writes ws d) = Inr es" "ListEvents (apply_writes ws' d') = Inr es'"
      "readAuditEntries (apply_writes ws d) = Inr as" "readAuditEntries (apply_writes ws' d') = Inr as'"
    and few: "length as < 2 ^ 64" "length as' < 2 ^ 64"
  shows "(take (nat (an_sequence a)) es = take (nat (an_sequence a)) es'
      \<or> (\<exists>e \<in> set es. \<exists>f \<in> set es'. unsealed e \<noteq> unsealed f \<and> event_hash env s (ao_policy ao) e = event_hash env s (ao_policy ao) f))
    \<and> (take (nat (an_audit_sequence a)) as = take (nat (an_audit_sequence a)) as'
      \<or> (\<exists>e \<in> set as. \<exists>f \<in> set as'. unsealed_audit e \<noteq> unsealed_audit f \<and> audit_hash env s (ao_policy ao) e = audit_hash env s (ao_policy ao) f))"
proof -
  let ?p = "ao_policy ao" and ?k = "nat (an_sequence a)" and ?j = "nat (an_audit_sequence a)"
  have hash: "event_hash env s (ao_policy ao') = event_hash env s ?p" "audit_hash env s (ao_policy ao') = audit_hash env s ?p"
    using g by (auto simp: event_hash_def audit_hash_def)
  have x: "ledger_chain env s ?p 0 [] es" "0 < an_sequence a \<Longrightarrow> ?k \<le> length es \<and> chain_head le_sha [] (take ?k es) = an_event a"
    "audit_chain env s ?p 0 [] as" "0 < an_audit_sequence a \<Longrightarrow> ?j \<le> length as \<and> chain_head la_sha [] (take ?j as) = an_audit a"
    using l(1,3) few(1) by (auto intro: accepted_at_anchor [OF v(1) rd(1,2)])
  have y: "ledger_chain env s ?p 0 [] es'" "0 < an_sequence a \<Longrightarrow> ?k \<le> length es' \<and> chain_head le_sha [] (take ?k es') = an_event a"
    "audit_chain env s ?p 0 [] as'" "0 < an_audit_sequence a \<Longrightarrow> ?j \<le> length as' \<and> chain_head la_sha [] (take ?j as') = an_audit a"
    using l(2,4) few(2) unfolding hash [symmetric] by (auto intro: accepted_at_anchor [OF v(2) rd(3,4)])
  have "take ?k es = take ?k es' \<or> (\<exists>e \<in> set (take ?k es). \<exists>f \<in> set (take ?k es').
      unsealed e \<noteq> unsealed f \<and> event_hash env s ?p (unsealed e) = event_hash env s ?p (unsealed f))"
  proof (cases "0 < an_sequence a")
    case True
    then show ?thesis
      using x(2) y(2) by (intro ledger_log.same_head_same_log [OF chain_ok_take [OF x(1)] chain_ok_take [OF y(1)]]) simp_all
  qed simp
  moreover have "take ?j as = take ?j as' \<or> (\<exists>e \<in> set (take ?j as). \<exists>f \<in> set (take ?j as').
      unsealed_audit e \<noteq> unsealed_audit f \<and> audit_hash env s ?p (unsealed_audit e) = audit_hash env s ?p (unsealed_audit f))"
  proof (cases "0 < an_audit_sequence a")
    case True
    then show ?thesis
      using x(4) y(4) by (intro ledger_audit_log.same_head_same_log [OF chain_ok_take [OF x(3)] chain_ok_take [OF y(3)]]) simp_all
  qed simp
  ultimately show ?thesis
    by (auto dest!: in_set_takeD)
qed

theorem anchored_history_agrees_witness:
  "\<exists>rep. VerifyAnchored toy_ledger toy_store (toy_anchored 1) purged_files = ([], Inr rep)
    \<and> (take 1 [legacy_event] = take 1 [legacy_event]
      \<or> (\<exists>e \<in> {legacy_event}. \<exists>f \<in> {legacy_event}. unsealed e \<noteq> unsealed f
          \<and> event_hash toy_ledger toy_store (vo_policy legacy_options) e = event_hash toy_ledger toy_store (vo_policy legacy_options) f))"
proof -
  obtain rep where v: "VerifyAnchored toy_ledger toy_store (toy_anchored 1) purged_files = ([], Inr rep)"
    using purged_anchored by blast
  have rd: "ao_anchors (toy_anchored 1) = Some (toy_reader 1)" "ar_latest (toy_reader 1) (lt_id toy_store) = Inr (Some (toy_anchor 1))"
      "ao_policy (toy_anchored 1) = vo_policy legacy_options" "nat (an_sequence (toy_anchor 1)) = 1"
    by (simp_all add: toy_anchored_def toy_reader_def toy_anchor_def Let_def)
  have l: "ListEvents (apply_writes [] purged_files) = Inr [legacy_event]" "readAuditEntries (apply_writes [] purged_files) = Inr [purge_entry]"
    by (simp_all add: purged_lists)
  show ?thesis
    using v anchored_history_agrees [OF v v rd(1,2) rd(1,2) refl refl l(1) l(1) l(2) l(2)] unfolding rd(3,4) by simp
qed

text \<open>
  C5. No evidence is lost early: in a directory accepted in anchored mode, the purge of a snapshot that an event
  refers to is attested by an audit entry at or below the anchored audit sequence and by a row of the retention table
  with the same operator and reason, dated after the time to which every event promises to keep the snapshot and not after
  the anchor.
\<close>

theorem accepted_purge_is_attested:
  assumes v: "VerifyAnchored env s ao d = (ws, Inr rep)" and mode: "anchor_mode ao = ''anchored''"
    and rd: "ao_anchors ao = Some rd" "ar_latest rd (lt_id s) = Inr (Some a)"
    and e: "ListEvents (apply_writes ws d) = Inr es" "e \<in> set es" "sha \<in> set (snapshot_refs e)"
    and x: "LoadSnapshot sha (apply_writes ws d) = Inr x" "ls_purged x \<noteq> []"
  shows "\<exists>px t as entry. ao_purges ao = Some px \<and> px_record px sha = Inr (Some t)
    \<and> readAuditEntries (apply_writes ws d) = Inr as \<and> entry \<in> set as \<and> sha \<in> set (attested_by entry)
    \<and> sint (la_sequence entry) \<le> an_audit_sequence a \<and> la_operator entry = ts_operator t \<and> la_reason entry = ts_reason t
    \<and> ts_purged_at t \<le> an_at a
    \<and> (\<forall>f \<in> set es. sha \<in> set (snapshot_refs f) \<longrightarrow> (\<exists>u. lx_time env (le_expires f) = Some u \<and> u - u mod 1000 < ts_purged_at t))"
proof -
  obtain px b as entry t l where p: "ao_purges ao = Some px" "loadPurgeLowerBoundSource env s rd (ao_key ao) (an_sequence a) (apply_writes ws d) = Inr b"
    "readAuditEntries (apply_writes ws d) = Inr as" "entry \<in> set as" "sha \<in> set (attested_by entry)"
    "sint (la_sequence entry) \<le> an_audit_sequence a" "px_record px sha = Inr (Some t)" "forSnapshot b px (lt_id s) sha = Inr l"
    "purgeAttributionMismatch t entry (an_at a) l = Inr ()"
    by (rule adjudicated_purge [OF assms])
  have "\<exists>u. lx_time env (le_expires f) = Some u \<and> u - u mod 1000 < ts_purged_at t" if "f \<in> set es" "sha \<in> set (snapshot_refs f)" for f
    using lower_bound_owed [OF p(2) e(1) p(8) that] p(9) by (force simp: purgeAttributionMismatch_def split: if_splits)
  then show ?thesis
    using p by (intro exI [of _ px] exI [of _ t] exI [of _ as] exI [of _ entry]) (auto simp: purgeAttributionMismatch_def split: if_splits)
qed

theorem accepted_purge_is_attested_witness:
  "\<exists>t. px_record toy_purges ''a'' = Inr (Some t) \<and> sint (la_sequence purge_entry) \<le> 1 \<and> la_operator purge_entry = ts_operator t
    \<and> ''a'' \<in> set (attested_by purge_entry) \<and> 0 < ts_purged_at t \<and> ts_purged_at t \<le> 4"
proof -
  obtain rep where v: "VerifyAnchored toy_ledger toy_store (toy_anchored 1) purged_files = ([], Inr rep)"
    using purged_anchored by blast
  have rd: "ao_anchors (toy_anchored 1) = Some (toy_reader 1)" "ar_latest (toy_reader 1) (lt_id toy_store) = Inr (Some (toy_anchor 1))"
      "anchor_mode (toy_anchored 1) = ''anchored''" "ao_purges (toy_anchored 1) = Some toy_purges" "an_audit_sequence (toy_anchor 1) = 1"
      "an_at (toy_anchor 1) = 4"
    by (simp_all add: toy_anchored_def toy_reader_def toy_anchor_def Let_def anchor_mode_def)
  have l: "ListEvents (apply_writes [] purged_files) = Inr [legacy_event]" "readAuditEntries (apply_writes [] purged_files) = Inr [purge_entry]"
      "LoadSnapshot ''a'' (apply_writes [] purged_files) = Inr purged_snapshot"
    by (simp_all add: purged_lists LoadSnapshot_def readCanonicalChainFile_def purged_lookup)
  have a: "''a'' \<in> set (snapshot_refs legacy_event)" "ls_purged purged_snapshot \<noteq> []"
    by (simp_all add: snapshot_refs_def event_simps purged_snapshot_def)
  have time: "lx_time toy_ledger ''5'' = Some 5"
    by (simp add: toy_ledger_def read_decimal_int_def read_decimal_def)
  show ?thesis
    using accepted_purge_is_attested [OF v rd(3,1,2) l(1) _ a(1) l(3) a(2)] l(2) a(1)
    by (auto simp: rd event_simps time)
qed

text \<open>
  C23. An anchor taken before the first audit entry blocks verification for good: its audit sequence is 0, the
  entry at sequence 0 is looked up once the audit chain has an entry, and there is none.
\<close>

theorem anchor_before_first_audit_entry_blocks:
  assumes rd: "ao_anchors ao = Some rd" "ar_latest rd (lt_id s) = Inr (Some a)" "an_audit_sequence a = 0"
    and es: "readAuditEntries d = Inr as" "as \<noteq> []" "length as < 2 ^ 64"
  shows "\<not> is_ok (snd (VerifyAnchored env s ao d))"
proof
  assume "is_ok (snd (VerifyAnchored env s ao d))"
  then obtain ws rep where v: "VerifyAnchored env s ao d = (ws, Inr rep)"
    by (metis is_ok_iff prod.collapse)
  let ?d = "apply_writes ws d"
  obtain r where r: "verify_files env s (deferred_options ao) ?d = Inr r" "verify_with_anchor env s ao rd r a ?d = Inr rep"
    by (rule accepted_at_anchor [OF v rd(1,2)])
  have "recoverLocked s d = (ws, Inr ())"
    using v by (auto simp: VerifyAnchored_ok VerifyPolicy_ok)
  then have "readAuditEntries ?d = readAuditEntries d"
    using recover_paths by (intro audit_reading_cong lookup_untouched) blast
  then have as: "readAuditEntries ?d = Inr as"
    using es(1) by simp
  have audit: "audit_chain env s (ao_policy ao) 0 [] as" "(lh_sequence (rp_audit_head r), lh_sha (rp_audit_head r)) = audit_last as"
    using verify_files_audit [OF r(1)] as by (auto elim: verify_audit_ok)
  have pos: "la_sequence e \<noteq> 0" if "e \<in> set as" for e
    using chain_sequence_bound [OF audit(1) that es(3)] by auto
  then have "lh_sequence (rp_audit_head r) \<noteq> 0"
    using audit(2) es(2) by (simp add: audit_last_def)
  then have "sint (lh_sequence (rp_audit_head r)) \<noteq> 0"
    by (metis signed_word_eqI sint_0)
  moreover have "check_chain_at Audits (rp_audit_head r) (\<lambda>n. res_bind (auditEntryAtSequence n ?d) (\<lambda>e. Inr (la_sha e))) 0 (an_audit a) = Inr ()"
    using verify_with_anchor_ok(1) [OF r(2)] rd(3) by (auto simp: check_against_anchor_def)
  ultimately obtain e where "auditEntryAtSequence 0 ?d = Inr e"
    by (auto simp: check_chain_at_ok)
  then show False
    using audit_at_ok [OF _ as] pos by blast
qed

theorem anchor_before_first_audit_entry_blocks_witness:
  "readAuditEntries purged_files = Inr [purge_entry] \<and> \<not> is_ok (snd (VerifyAnchored toy_ledger toy_store (toy_anchored 0) purged_files))"
proof -
  have rd: "ao_anchors (toy_anchored 0) = Some (toy_reader 0)" "ar_latest (toy_reader 0) (lt_id toy_store) = Inr (Some (toy_anchor 0))"
      "an_audit_sequence (toy_anchor 0) = 0"
    by (simp_all add: toy_anchored_def toy_reader_def toy_anchor_def Let_def)
  show ?thesis
    using anchor_before_first_audit_entry_blocks [OF rd purged_lists(2)] purged_lists(2) by simp
qed

end
