(* ===== verification/LedgerRetentionProps.thy ===== *)
theory LedgerRetentionProps imports LedgerRetentionProofs LedgerAnchorProps begin

text \<open>What a purge of the screening ledger keeps to, and what is left when it is interrupted or its content comes back.\<close>

section \<open>A purge of the directory with one frozen event\<close>

definition record_all :: purge_recorder where
  "record_all = (\<lambda>shas obligations ledger operator reason. Inr shas)"

definition toy_purge :: "(ledger_path, ledger_file) file_write list \<times> (nat \<times> purge_error, nat) result" where
  "toy_purge = PurgeExpired toy_ledger toy_store snapshot_keys (Some record_all) 10 ''op'' ''why'' ''exclusive'' ''9'' legacy_files"

lemma snapshot_keys_distinct: "\<forall>es. distinct (snapshot_keys es)"
  by (simp add: snapshot_keys_def)

lemma legacy_simps:
  "le_id legacy_event = ''e1''" "le_request_snapshot legacy_event = ''a''" "le_response_snapshot legacy_event = ''b''" "le_expires legacy_event = ''5''"
  by (simp_all add: legacy_event_def legacy_draft_def)

lemma legacy_eligible:
  "eligible_snapshots toy_ledger 10 [legacy_event] legacy_files (snapshot_keys [legacy_event]) = Inr [''a'', ''b'']"
proof -
  have "lx_time toy_ledger ''5'' = Some 5"
    by (simp add: toy_ledger_def read_decimal_int_def read_decimal_def)
  moreover have "\<not> held ''e1'' legacy_files"
    by (simp add: held_def legacy_files_def event_path_def snapshot_path_def)
  ultimately have "released toy_ledger 10 legacy_files legacy_event"
    by (simp add: released_def legacy_simps)
  moreover have "ls_purged (legacy_snapshot n t) = []" for n t
    by (simp add: legacy_snapshot_def)
  ultimately show ?thesis
    by (simp add: snapshot_keys_def references_def legacy_simps legacy_snapshots)
qed

lemma toy_purge_run:
  obtains us where "toy_purge = (purge_writes toy_ledger 10 ''why'' legacy_files [''a'', ''b''] @ us, Inr 2)"
proof -
  have time: "lx_time toy_ledger ''5'' = Some 5"
    by (simp add: toy_ledger_def read_decimal_int_def read_decimal_def)
  obtain ob where ob: "computeSnapshotObligations toy_ledger [legacy_event] = Inr ob"
    by (simp add: computeSnapshotObligations_def legacy_simps time)
  let ?vs = "purge_writes toy_ledger 10 ''why'' legacy_files [''a'', ''b'']"
  have loop: "purge_loop toy_ledger 10 ''why'' [''a'', ''b''] [''a'', ''b''] [] legacy_files = (?vs, Inr [''a'', ''b''])"
    by (subst purge_loop_run) (simp_all add: legacy_snapshots)
  have "fmlookup (apply_writes ?vs legacy_files) LedgerAuditHeadFile = None"
    by (simp add: purge_writes_def legacy_files_def event_path_def snapshot_path_def)
  then obtain us e where "AppendAudit toy_ledger toy_store ''9'' ''purge_expired'' ''op'' ''why'' [] (Some (purge_details (sort [''a'', ''b''])))
      (apply_writes ?vs legacy_files) = (us, Inr e)"
    by (simp add: AppendAudit_def loadAuditHead_def andThen_def Let_def)
  then have "toy_purge = (?vs @ us, Inr 2)"
    by (simp add: toy_purge_def PurgeExpired_def counted_read in_ledger_case legacy_events legacy_eligible ob record_all_def
        purge_tail_def [symmetric] del: purge_loop.simps)
      (simp add: purge_tail_def andThen_def loop lift_errors_def map_error_def del: purge_loop.simps)
  then show thesis
    by (rule that)
qed

section \<open>Properties\<close>

text \<open>
  C10. A purge respects retention. Whatever a purge, cut off after any number of its writes, has changed of a snapshot: the
  ledger is declared to have the schema for itself; the retention table has confirmed the purge of that
  snapshot; every event that refers to it is free of a legal hold and has expired; the snapshot was not purged before, and now it
  differs in its blanked content, the time and the reason only. If the purge ran to its end, an audit entry with its
  operator and reason attests the snapshot.
\<close>

theorem purge_respects_retention:
  assumes run: "PurgeExpired env s order recorder now operator reason tenancy at d = (ws, q)" and order: "\<forall>es. distinct (order es)"
    and changed: "fmlookup (apply_writes (take n ws) d) (snapshot_path sha) \<noteq> fmlookup d (snapshot_path sha)"
  shows "tenancy = ''exclusive''
    \<and> (\<exists>rc el ob recorded. recorder = Some rc \<and> rc el ob (lt_id s) operator reason = Inr recorded \<and> sha \<in> set el \<and> sha \<in> set recorded)
    \<and> (\<exists>es x. ListEvents d = Inr es
        \<and> (\<forall>e \<in> set es. sha \<in> {le_request_snapshot e, le_response_snapshot e} \<longrightarrow>
             \<not> held (le_id e) d \<and> (\<exists>t. lx_time env (le_expires e) = Some t \<and> t \<le> now))
        \<and> LoadSnapshot sha d = Inr x \<and> ls_purged x = []
        \<and> fmlookup (apply_writes (take n ws) d) (snapshot_path sha) = Some (LSnapshot (purged_envelope env now reason x)))
    \<and> (\<forall>k. q = Inr k \<longrightarrow> (\<exists>entry. fmlookup (apply_writes ws d) (audit_path entry) = Some (LAudit entry)
        \<and> sha \<in> set (attested_by entry) \<and> la_operator entry = operator \<and> la_reason entry = reason))"
proof -
  note distinct = spec [OF order]
  have "\<exists>w \<in> set (take n ws). path_of w = snapshot_path sha
      \<and> fmlookup (apply_writes (take n ws) d) (snapshot_path sha) = content_of w"
    using last_write_cases [of "snapshot_path sha" "take n ws" "fmlookup d (snapshot_path sha)"] changed
    unfolding lookup_apply_writes by metis
  then obtain w where w: "w \<in> set ws" "path_of w = snapshot_path sha" "fmlookup (apply_writes (take n ws) d) (snapshot_path sha) = content_of w"
    using in_set_takeD by fast
  have "\<not> audits d w"
    using w(2) by (auto simp: audits_def snapshot_path_def audit_path_def)
  then obtain rc es el ob recorded sha' where p: "recorder = Some rc" "tenancy = ''exclusive''" "ListEvents d = Inr es" "purgeable env now es d sha'"
    "rc el ob (lt_id s) operator reason = Inr recorded" "sha' \<in> set el" "sha' \<in> set recorded" "blanks env now reason d sha' w"
    using purge_write [OF run distinct w(1)] by blast
  then obtain x where x: "LoadSnapshot sha' d = Inr x" "w = Put (snapshot_path sha') (LSnapshot (purged_envelope env now reason x))"
    by (auto simp: blanks_def)
  have same: "sha' = sha"
    using x(2) w(2) by simp
  have "\<exists>entry. fmlookup (apply_writes ws d) (audit_path entry) = Some (LAudit entry)
        \<and> sha \<in> set (attested_by entry) \<and> la_operator entry = operator \<and> la_reason entry = reason" if k: "q = Inr k" for k
  proof -
    obtain vs entry where vs: "ws = vs @ [Put (audit_path entry) (LAudit entry), Put LedgerAuditHeadFile (LHead (audit_head s entry))]"
      "la_operator entry = operator" "la_reason entry = reason" "\<forall>w \<in> set vs. \<exists>sha \<in> set (attested_by entry). blanks env now reason d sha w"
      by (rule purge_attests [OF run [unfolded k] distinct])
    then have "w \<in> set vs"
      using w(1,2) by (auto simp: snapshot_path_def audit_path_def)
    then obtain b where "b \<in> set (attested_by entry)" "blanks env now reason d b w"
      using vs(4) by blast
    then have "sha \<in> set (attested_by entry)"
      using w(2) by (auto simp: blanks_def)
    moreover have "fmlookup (apply_writes ws d) (audit_path entry) = Some (LAudit entry)"
      by (simp add: vs(1) audit_path_def)
    ultimately show ?thesis
      using vs(2,3) by blast
  qed
  then show ?thesis
    using p x w(3) unfolding same purgeable_def by auto
qed

theorem purge_respects_retention_witness:
  "\<exists>ws. toy_purge = (ws, Inr 2) \<and> (\<exists>entry. fmlookup (apply_writes ws legacy_files) (audit_path entry) = Some (LAudit entry)
     \<and> ''b'' \<in> set (attested_by entry) \<and> la_operator entry = ''op'')"
proof -
  obtain us where run: "toy_purge = (purge_writes toy_ledger 10 ''why'' legacy_files [''a'', ''b''] @ us, Inr 2)"
    by (rule toy_purge_run)
  define ws where "ws = purge_writes toy_ledger 10 ''why'' legacy_files [''a'', ''b''] @ us"
  have "fmlookup (apply_writes (take 2 ws) legacy_files) (snapshot_path ''b'')
      = Some (LSnapshot (purged_envelope toy_ledger 10 ''why'' (legacy_snapshot ''b'' ''22'')))"
    by (simp add: ws_def purge_writes_def legacy_snapshots)
  moreover have "fmlookup legacy_files (snapshot_path ''b'') = Some (LSnapshot (legacy_snapshot ''b'' ''22''))"
    using legacy_snapshots(2) by (simp add: LoadSnapshot_lookup)
  moreover have "purged_envelope toy_ledger 10 ''why'' (legacy_snapshot ''b'' ''22'') \<noteq> legacy_snapshot ''b'' ''22''"
    by (simp add: purged_envelope_def legacy_snapshot_def)
  ultimately have "fmlookup (apply_writes (take 2 ws) legacy_files) (snapshot_path ''b'') \<noteq> fmlookup legacy_files (snapshot_path ''b'')"
    by simp
  from purge_respects_retention [OF run [unfolded toy_purge_def, folded ws_def] snapshot_keys_distinct this] show ?thesis
    using run unfolding ws_def [symmetric] by blast
qed

text \<open>
  An interrupted purge is never accepted. If a purge that would have run to its end is cut off before its
  audit entry, then every snapshot it had blanked stays without an attestation however often the purge is run again, because
  a purged snapshot is not eligible any more; and anchored verification of the directory fails from then on.
\<close>

theorem interrupted_purge_is_never_accepted:
  assumes run: "PurgeExpired env s order recorder now operator reason tenancy at d = (ws, Inr k)" and order: "\<forall>es. distinct (order es)"
    and cut: "n \<le> k" "d1 = apply_writes (take n ws) d" and x: "LoadSnapshot sha d1 = Inr x" "ls_purged x \<noteq> []"
    and fresh: "\<forall>p e. fmlookup d p = Some (LAudit e) \<longrightarrow> sha \<notin> set (attested_by e)"
    and e: "ListEvents d = Inr es" "e \<in> set es" "sha \<in> set (snapshot_refs e)" and pending: "fmlookup d LedgerPendingFile = None"
    and later: "(purge_rerun env s)\<^sup>*\<^sup>* d1 d2"
    and mode: "anchor_mode ao = ''anchored''" and rd: "ao_anchors ao = Some rd" "ar_latest rd (lt_id s) = Inr (Some a)"
  shows "\<not> is_ok (snd (VerifyAnchored env s ao d2))"
proof -
  obtain vs entry where vs: "ws = vs @ [Put (audit_path entry) (LAudit entry), Put LedgerAuditHeadFile (LHead (audit_head s entry))]"
    "length vs = k" "\<forall>w \<in> set vs. \<exists>sha \<in> set (attested_by entry). blanks env now reason d sha w"
    by (rule purge_attests [OF run spec [OF order]])
  have take: "take n ws = take n vs"
    using vs(1,2) cut(1) by simp
  have written: "fmlookup d1 p = fmlookup d p \<or> (\<exists>b y. p = snapshot_path b \<and> fmlookup d1 p = Some (LSnapshot y))" for p
  proof -
    have "fmlookup d1 p = fmlookup d p \<or> (\<exists>w \<in> set vs. path_of w = p \<and> fmlookup d1 p = content_of w)"
      unfolding cut(2) lookup_apply_writes take using last_write_cases [of p "take n vs" "fmlookup d p"] in_set_takeD by fast
    then show ?thesis
      using vs(3) by (fastforce simp: blanks_def)
  qed
  have "sha \<notin> set (attested_by f)" if "fmlookup d1 p = Some (LAudit f)" for p f
    using written [of p] that fresh by auto
  then have "orphaned sha d1"
    using x unfolding orphaned_def by blast
  moreover have "ListEvents d1 = ListEvents d"
    using written by (intro listing_cong) (fastforce simp: snapshot_path_def)
  moreover have "fmlookup d1 LedgerPendingFile = None"
    using written [of LedgerPendingFile] pending by (auto simp: snapshot_path_def)
  ultimately have "orphaned sha d2" "fmlookup d2 LedgerPendingFile = None" "ListEvents d2 = Inr es"
    using reruns_orphaned [OF later] e(1) by auto
  then show ?thesis
    using orphaned_refused e(2,3) mode rd by blast
qed

theorem interrupted_purge_is_never_accepted_witness:
  "\<exists>ws. toy_purge = (ws, Inr 2) \<and> \<not> is_ok (snd (VerifyAnchored toy_ledger toy_store (toy_anchored 1) (apply_writes (take 1 ws) legacy_files)))"
proof -
  obtain us where run: "toy_purge = (purge_writes toy_ledger 10 ''why'' legacy_files [''a'', ''b''] @ us, Inr 2)"
    by (rule toy_purge_run)
  define ws where "ws = purge_writes toy_ledger 10 ''why'' legacy_files [''a'', ''b''] @ us"
  have x: "LoadSnapshot ''a'' (apply_writes (take 1 ws) legacy_files) = Inr (purged_envelope toy_ledger 10 ''why'' (legacy_snapshot ''a'' ''1''))"
    "ls_purged (purged_envelope toy_ledger 10 ''why'' (legacy_snapshot ''a'' ''1'')) \<noteq> []"
    by (simp_all add: ws_def purge_writes_def legacy_snapshots LoadSnapshot_lookup purged_envelope_def toy_ledger_def decimal_int_def)
  have "\<forall>p e. fmlookup legacy_files p = Some (LAudit e) \<longrightarrow> ''a'' \<notin> set (attested_by e)" "fmlookup legacy_files LedgerPendingFile = None"
    by (auto simp: legacy_files_def event_path_def snapshot_path_def split: if_splits)
  moreover have "''a'' \<in> set (snapshot_refs legacy_event)"
    by (simp add: snapshot_refs_def legacy_simps)
  ultimately have "\<not> is_ok (snd (VerifyAnchored toy_ledger toy_store (toy_anchored 1) (apply_writes (take 1 ws) legacy_files)))"
    using run by (intro interrupted_purge_is_never_accepted [where ws = ws and k = 2 and n = 1 and sha = "''a''" and e = legacy_event,
        OF run [unfolded toy_purge_def, folded ws_def] snapshot_keys_distinct _ refl x _ legacy_events])
      (auto simp: toy_anchored_def anchor_mode_def toy_reader_def)
  then show ?thesis
    using run unfolding ws_def [symmetric] by blast
qed

text \<open>
  Content that comes back after its purge is lost. A snapshot is named by the digest of its content, and \<^verbatim>\<open>Append\<close> keeps
  a file of that name as it is, also when it has been purged: an event appended later for the same request
  is accepted although its request can never be decrypted.
\<close>

lemma recover_keeps_snapshots:
  "safe (\<lambda>d'. fmlookup d' (snapshot_path sha) = Some c) (recoverLocked s) (\<lambda>_ d'. fmlookup d' (snapshot_path sha) = Some c) d"
  if "fmlookup d (snapshot_path sha) = Some c"
proof -
  have "path_of w \<noteq> snapshot_path sha" if "w \<in> set (fst (recoverLocked s d))" for w
    using recover_paths [of s d, OF surjective_pairing] that by (force simp: snapshot_path_def)
  then have "fmlookup (apply_writes (take k (fst (recoverLocked s d))) d) (snapshot_path sha) = Some c" for k
    using that by (subst lookup_untouched) (metis imageE in_set_takeD)+
  from this this [of "length (fst (recoverLocked s d))"] show ?thesis
    by (auto simp: safe_def crash_def)
qed

lemma append_keeps_snapshots:
  assumes "fmlookup d (snapshot_path sha) = Some c"
  shows "safe (\<lambda>d'. fmlookup d' (snapshot_path sha) = Some c) (Append env s now n1 n2 input) (\<lambda>_ d'. fmlookup d' (snapshot_path sha) = Some c) d"
proof -
  let ?I = "\<lambda>d'. fmlookup d' (snapshot_path sha) = Some c"
  have stored: "safe ?I (writeSnapshot env e) (\<lambda>_. ?I) d'" if "?I d'" for e d'
    using that by (auto simp: safe_def crash_def writeSnapshot_def take_Cons' split: option.split if_splits)
  have commit: "safe ?I (commit_event s e) (\<lambda>_. ?I) d'" if "?I d'" for e d'
    unfolding commit_event_def by (intro safe_step_writep safe_writep) (use that in \<open>simp_all add: snapshot_path_def event_path_def\<close>)
  show ?thesis
    unfolding Append_def Let_def
    by (intro safe_step [OF recover_keeps_snapshots] safe_step_readp assms)
      (auto split: option.split simp del: prog_simps intro!: safe_step_readp safe_step [OF stored] safe_step [OF commit] safe_ret)
qed

theorem append_after_purge_lacks_evidence:
  assumes run: "Append env s now n1 n2 input d = (ws, Inr (e, b))"
    and x: "LoadSnapshot (le_request_snapshot e) d = Inr x" "ls_purged x \<noteq> []"
  shows "DecryptSnapshot env s (le_request_snapshot e) (apply_writes ws d) = Inl SnapshotPurged"
proof -
  have "fmlookup (apply_writes ws d) (snapshot_path (le_request_snapshot e)) = Some (LSnapshot x)"
    using safe_end [OF append_keeps_snapshots run] x(1) by (simp add: LoadSnapshot_lookup)
  then show ?thesis
    using x(2) by (simp add: DecryptSnapshot_def LoadSnapshot_lookup [THEN iffD2] decryptSnapshot_def)
qed

section \<open>Export\<close>

text \<open>Every member of every object of a JSON value, at any depth.\<close>

fun all_members :: "json \<Rightarrow> (string \<times> json) list" where
  "all_members (JObj kvs) = concat (map (\<lambda>p. p # all_members (snd p)) kvs)"
| "all_members (JArr vs) = concat (map all_members vs)"
| "all_members v = []"

lemma redacted_members:
  "(k, v) \<in> set (all_members (redactValue env redact hash secret j)) \<Longrightarrow>
     (if ToLower (lx_unicode env) k \<in> set redact then v = JStr ''[REDACTED]''
      else ToLower (lx_unicode env) k \<in> set hash \<longrightarrow> (\<exists>c. v = JStr (''hmac-sha256:'' @ hmacHex env secret c)))"
proof (induction env redact hash secret j rule: redactValue.induct)
  case (1 env redact hash secret kvs)
  then show ?case
    by (fastforce simp: Let_def split: if_splits)
qed auto

lemma canonical_all_members:
  "(k, v) \<in> set (all_members (canonical_json j)) \<Longrightarrow> \<exists>w. (k, w) \<in> set (all_members j) \<and> v = canonical_json w"
proof (induction j rule: canonical_json.induct)
  case (1 vs)
  then show ?case
    by simp blast
next
  case (2 kvs)
  then obtain n x where x: "(n, x) \<in> set (sort_members (map (\<lambda>p. (fst p, canonical_json (snd p))) kvs))"
    "(k, v) = (n, x) \<or> (k, v) \<in> set (all_members x)"
    by auto
  obtain y where y: "(n, y) \<in> set kvs" "x = canonical_json y"
    using sort_members_values [OF x(1)] by auto
  show ?case
    using x(2)
  proof
    assume "(k, v) = (n, x)"
    then show ?thesis
      using y by (intro exI [of _ y]) (auto intro!: bexI [of _ "(n, y)"])
  next
    assume "(k, v) \<in> set (all_members x)"
    then obtain w where "(k, w) \<in> set (all_members y)" "v = canonical_json w"
      using "2.IH" [OF y(1)] y(2) by auto
    then show ?thesis
      using y(1) by (intro exI [of _ w]) (auto intro!: bexI [of _ "(n, y)"])
  qed
qed auto

text \<open>
  A redacted bundle hides the redacted fields: if the export in mode \<^verbatim>\<open>redacted\<close> succeeds, the ledger was verified
  first, and in the request and in the response of the bundle every member at any depth whose name folds to one of the
  redacted keys reads \<^verbatim>\<open>[REDACTED]\<close>, every member named by a hashed key a keyed digest.
\<close>

theorem redacted_bundle_hides_fields:
  assumes run: "ExportBundle env s verified now at i ''redacted'' policy d = (ws, Inr (m, files))"
    and part: "(name, text) \<in> set files" "name \<in> {''request.json'', ''response.json''}"
  shows "verified = Inr () \<and> (\<exists>j. text = marshal j \<and> (\<forall>(k, v) \<in> set (all_members j).
    if ToLower (lx_unicode env) k \<in> set (lowerSet (lx_unicode env) (lr_redact policy)) then v = JStr ''[REDACTED]''
    else ToLower (lx_unicode env) k \<in> set (lowerSet (lx_unicode env) (lr_hash policy)) \<longrightarrow>
      (\<exists>c. v = JStr (''hmac-sha256:'' @ hmacHex env (ck_redact (lt_keys s)) c))))"
proof -
  obtain fs where v: "verified = Inr ()" and fs: "bundle_files env s ''redacted'' policy i d = Inr fs" "(name, text) \<in> set fs"
    using run part(2) part(1)
    by (auto simp: ExportBundle_def andThen_readp map_error_def best_effort_def andThen_def Let_def split: sum.splits)
  then obtain sha where "bundle_evidence env s ''redacted'' policy sha d = Inr text"
    using part(2) by (auto simp: bundle_files_def split: option.splits)
  then obtain j where shape: "text = marshal (canonical_json (redactValue env (lowerSet (lx_unicode env) (lr_redact policy))
      (lowerSet (lx_unicode env) (lr_hash policy)) (ck_redact (lt_keys s)) j))"
    by (auto simp: bundle_evidence_def RedactJSON_def split: option.splits)
  have "if ToLower (lx_unicode env) k \<in> set (lowerSet (lx_unicode env) (lr_redact policy)) then v = JStr ''[REDACTED]''
    else ToLower (lx_unicode env) k \<in> set (lowerSet (lx_unicode env) (lr_hash policy)) \<longrightarrow>
      (\<exists>c. v = JStr (''hmac-sha256:'' @ hmacHex env (ck_redact (lt_keys s)) c))"
    if "(k, v) \<in> set (all_members (canonical_json (redactValue env (lowerSet (lx_unicode env) (lr_redact policy))
      (lowerSet (lx_unicode env) (lr_hash policy)) (ck_redact (lt_keys s)) j)))" for k v
    using canonical_all_members [OF that] by (auto dest!: redacted_members split: if_splits) (rule exI, rule refl)
  then show ?thesis
    using v shape by blast
qed

end
