(* ===== verification/LedgerAlerts.thy ===== *)
theory LedgerAlerts imports LedgerDemo AlertPolicy begin

text \<open>
  The screening ledger and the alerts built from it: which events of an accepted ledger the alert component takes
  as evidence.
\<close>

section \<open>Reading an event back\<close>

lemma event_names:
  "fold_name ''schema_version'' = ''schema_version''" "fold_name ''event_id'' = ''event_id''" "fold_name ''ledger_id'' = ''ledger_id''"
  "fold_name ''sequence'' = ''sequence''" "fold_name ''previous_event_sha256'' = ''previous_event_sha256''"
  "fold_name ''event_sha256'' = ''event_sha256''" "fold_name ''occurred_at'' = ''occurred_at''" "fold_name ''route'' = ''route''"
  "fold_name ''http_status'' = ''http_status''" "fold_name ''correlation_id_hash'' = ''correlation_id_hash''"
  "fold_name ''idempotency_key_hash'' = ''idempotency_key_hash''" "fold_name ''request_sha256'' = ''request_sha256''"
  "fold_name ''response_sha256'' = ''response_sha256''" "fold_name ''request_snapshot_sha256'' = ''request_snapshot_sha256''"
  "fold_name ''response_snapshot_sha256'' = ''response_snapshot_sha256''" "fold_name ''activation_lineage'' = ''activation_lineage''"
  "fold_name ''promotion_lineage'' = ''promotion_lineage''" "fold_name ''candidate_summary'' = ''candidate_summary''"
  "fold_name ''retention_class'' = ''retention_class''" "fold_name ''expires_at'' = ''expires_at''"
  by (rule fold_name_plain; simp add: byte_of_def)+

lemma members_of_simps:
  "members_of k [] = []" "members_of k ((n, v) # kvs) = (if fold_name n = k then v # members_of k kvs else members_of k kvs)"
  "members_of k (xs @ ys) = members_of k xs @ members_of k ys"
  "members_of k (opt n b v) = (if fold_name n = k \<and> \<not> b then [v] else [])"
  "members_of k (raw_member n w) = (if fold_name n = k then (case w of None \<Rightarrow> [] | Some x \<Rightarrow> [x]) else [])"
  by (simp_all add: members_of_def opt_def raw_member_def opt_member_def split: option.splits)

lemmas members_simps = members_of_simps event_names

text \<open>What one component writes the other reads: every event survives the trip through its JSON text.\<close>

lemma decode_ledger_event_json:
  assumes "in_int64 (le_status e)"
  shows "decode_ledger_event (ledger_event_json e) = Some e"
proof -
  obtain kvs where def: "ledger_event_json e = JObj kvs" and kvs: "object_members (ledger_event_json e) = Some kvs"
    by (simp add: ledger_event_json_def object_members_def)
  note eq = def [unfolded ledger_event_json_def json.inject, symmetric]
  have str: "str_member kvs ''schema_version'' = Some (le_schema e)" "str_member kvs ''event_id'' = Some (le_id e)"
    "str_member kvs ''ledger_id'' = Some (le_ledger e)" "str_member kvs ''previous_event_sha256'' = Some (le_previous e)"
    "str_member kvs ''event_sha256'' = Some (le_sha e)" "str_member kvs ''occurred_at'' = Some (le_occurred e)"
    "str_member kvs ''route'' = Some (le_route e)" "str_member kvs ''correlation_id_hash'' = Some (le_correlation e)"
    "str_member kvs ''idempotency_key_hash'' = Some (le_idempotency e)" "str_member kvs ''request_sha256'' = Some (le_request_sha e)"
    "str_member kvs ''response_sha256'' = Some (le_response_sha e)"
    "str_member kvs ''request_snapshot_sha256'' = Some (le_request_snapshot e)"
    "str_member kvs ''response_snapshot_sha256'' = Some (le_response_snapshot e)"
    "str_member kvs ''retention_class'' = Some (le_retention e)" "str_member kvs ''expires_at'' = Some (le_expires e)"
    by (simp_all add: eq str_member_def members_simps str_step_def)
  have num: "u64_member kvs ''sequence'' = Some (le_sequence e)" "int_member kvs ''http_status'' = Some (le_status e)"
    using assms unsigned_less [of "le_sequence e"]
    by (simp_all add: eq u64_member_def int_member_def members_simps u64_step_def int_step_def ju64_def)
  have raw: "rawm_member kvs ''activation_lineage'' = le_activation e" "rawm_member kvs ''promotion_lineage'' = le_promotion e"
    "rawm_member kvs ''candidate_summary'' = le_candidates e"
    by (simp_all add: eq rawm_member_def members_simps raw_step_def split: option.splits)
  show ?thesis
    unfolding decode_ledger_event_def kvs option.case Let_def ledger_strings_def by (simp add: str num raw)
qed

section \<open>Alerts from the ledger\<close>

lemma evidence_of_event:
  assumes "in_int64 (le_status e)"
  shows "is_ok (ledger_evidence cenv (ledger_event_json e)) \<longleftrightarrow>
    le_schema e = EventSchemaV1 \<and> le_id e \<noteq> [] \<and> le_sha e \<noteq> [] \<and> ce_sha cenv (marshal (ledger_event_json (e\<lparr>le_sha := []\<rparr>))) = le_sha e
    \<and> (case le_candidates e of None \<Rightarrow> Some ([], []) | Some v \<Rightarrow> decode_bounded v) \<noteq> None"
  unfolding ledger_evidence_def decode_ledger_event_json [OF assms] option.case EventSchemaV1_def digest_json_def
  by (auto split: option.splits)

lemma BuildAlert_ledger:
  assumes "normalizeTime cenv (aq_occurred q) \<noteq> None" and "\<not> blank (aq_tenant q)" and "\<not> blank (aq_correlation q)" and "\<not> blank (aq_key q)"
    and "aq_source q = ''screening_ledger''" and "aq_event q = Some raw"
  shows "is_ok (BuildAlert cenv p q) \<longleftrightarrow> is_ok (ledger_evidence cenv raw)"
proof -
  have "source_evidence cenv q = ledger_evidence cenv raw"
    using assms(2-6) by (simp add: source_evidence_def)
  then show ?thesis
    using assms(1) by (auto simp: BuildAlert_def is_ok_iff split: sum.splits prod.splits)
qed

text \<open>A request for the legacy event.\<close>

definition toy_request :: alert_request where
  "toy_request = \<lparr>aq_tenant = ''t'', aq_source = ''screening_ledger'', aq_event = Some (ledger_event_json legacy_event), aq_external = None,
     aq_subject = None, aq_correlation = ''c'', aq_key = ''k'', aq_occurred = ''2026''\<rparr>"

definition toy_case_env :: case_env where
  "toy_case_env = \<lparr>ce_sha = lx_sha toy_ledger, ce_time = Some\<rparr>"

definition toy_alert_policy :: alert_policy where
  "toy_alert_policy = \<lparr>ap_schema = ''openwatchlist.alert-policy.v1'', ap_id = ''p'', ap_version = ''1'', ap_high = 900,
     ap_review = 500, ap_external = 700, ap_sha = []\<rparr>"

lemma toy_not_blank: "\<not> blank ''t''" "\<not> blank ''c''" "\<not> blank ''k''" "\<not> blank ''2026''"
  by (rule not_blank_ascii; simp add: byte_of_def IsSpace_def)+

text \<open>
  C12. From ledger to alert: of the events of an accepted ledger, the alert component builds an alert exactly from
  those before the genesis boundary of the policy, which carry the first schema and the unkeyed digest; every event the
  ledger writes today is refused.
\<close>

theorem alerts_accept_exactly_frozen_events:
  assumes v: "VerifyPolicy env s vo d = (ws, Inr r)" and e: "ListEvents (apply_writes ws d) = Inr es" "e \<in> set es"
    and wf: "in_int64 (le_status e)" "le_id e \<noteq> []" "le_sha e \<noteq> []"
      "(case le_candidates e of None \<Rightarrow> Some ([], []) | Some v \<Rightarrow> decode_bounded v) \<noteq> None"
    and sha: "ce_sha cenv = lx_sha env"
    and q: "normalizeTime cenv (aq_occurred q) \<noteq> None" "\<not> blank (aq_tenant q)" "\<not> blank (aq_correlation q)" "\<not> blank (aq_key q)"
      "aq_source q = ''screening_ledger''" "aq_event q = Some (ledger_event_json e)"
  shows "is_ok (BuildAlert cenv p q) \<longleftrightarrow> le_sequence e < vp_genesis_event (vo_policy vo)"
proof -
  have "verify_files env s vo (apply_writes ws d) = Inr r"
    using v by (simp add: VerifyPolicy_ok)
  then have "if le_sequence e < vp_genesis_event (vo_policy vo)
       then le_schema e = EventSchemaV1 \<and> le_sha e = legacyHashEvent env e
       else le_schema e = EventSchemaV2 \<and> le_sha e = hashEvent env (ck_chain (lt_keys s)) e"
    using e by (rule accepted_digests)
  then show ?thesis
    unfolding BuildAlert_ledger [OF q] evidence_of_event [OF wf(1)] sha legacyHashEvent_def
    using wf(2-4) by (auto simp: schema_names split: if_splits)
qed

theorem alerts_accept_exactly_frozen_events_witness: "is_ok (BuildAlert toy_case_env toy_alert_policy toy_request)"
proof -
  obtain r where v: "VerifyPolicy toy_ledger toy_store legacy_options legacy_files = ([], Inr r)"
    using legacy_verifies by blast
  have e: "ListEvents (apply_writes [] legacy_files) = Inr [legacy_event]"
    by (simp add: legacy_events)
  have ev: "in_int64 (le_status legacy_event)" "le_id legacy_event \<noteq> []" "le_sha legacy_event \<noteq> []" "le_candidates legacy_event = None"
      "le_sequence legacy_event = 1"
    by (simp_all add: legacy_event_def legacy_draft_def in_int64_def legacyHashEvent_def toy_ledger_def)
  have q: "normalizeTime toy_case_env (aq_occurred toy_request) \<noteq> None" "\<not> blank (aq_tenant toy_request)" "\<not> blank (aq_correlation toy_request)"
      "\<not> blank (aq_key toy_request)" "aq_source toy_request = ''screening_ledger''" "aq_event toy_request = Some (ledger_event_json legacy_event)"
    by (simp_all add: toy_request_def normalizeTime_def toy_case_env_def toy_not_blank)
  have "is_ok (BuildAlert toy_case_env toy_alert_policy toy_request) \<longleftrightarrow> le_sequence legacy_event < vp_genesis_event (vo_policy legacy_options)"
    by (rule alerts_accept_exactly_frozen_events [OF v e _ ev(1-3) _ _ q]) (simp_all add: ev toy_case_env_def)
  then show ?thesis
    by (simp add: ev legacy_options_def)
qed

end
