(* ===== verification/Spec2Isabelle.thy ===== *)
theory Spec2Isabelle imports OutboxProps Normalization ScoringProps PolicyProps CaseProps AlertProps PromotionProps LedgerRetentionProps LedgerAlerts begin

text \<open>
  A verification development of the watchlist screening platform: the decision core (candidate
  scoring, classification of false positives, the policy engine), the alert and case store that
  acts on decisions, the outbox that delivers them, the packages, activations and controlled promotions
  by which a new catalogue and policy come into service, and the ledger that records every screening.

  \<^bold>\<open>How the parts interact.\<close> A screening compares a subject with watchlist candidates
  (\<^verbatim>\<open>internal/candidatescoring\<close>, \<^verbatim>\<open>internal/normalization\<close>). What the matcher observed is classified against
  a pattern library and a countervailing policy (\<^verbatim>\<open>internal/falsepositive\<close>); the classification batch is the
  input of the policy engine (\<^verbatim>\<open>internal/policyengine\<close>), which emits a score, a trace and one of the
  dispositions clear, investigate and escalate. Screening events and external alerts become alert
  records, alerts are grouped into cases, and cases move through a life cycle with a four-eyes
  decision (\<^verbatim>\<open>internal/alertcase\<close>). Messages to other systems go through the operational outbox
  (\<^verbatim>\<open>internal/productionops\<close>). The candidates themselves come from a catalogue feed that is compiled into a
  checksum-addressed projection package (\<^verbatim>\<open>internal/projectionpackage\<close>). A catalogue, a package and a scoring policy are bound
  to an activation document, one of which is active (\<^verbatim>\<open>internal/scoringactivation\<close>); a staged activation
  replaces the active one through shadow comparison, canary and acknowledgements
  (\<^verbatim>\<open>internal/activationpromotion\<close>). Requests and responses of screenings are appended, encrypted, to a hash-chained
  ledger, which is verified under a signed policy and against anchors kept elsewhere (\<^verbatim>\<open>internal/screeningledger\<close>); its
  events are what alerts are built from.

  \<^bold>\<open>Foundations.\<close> \<open>Prelude\<close>: results as sums, loops that stop at the first error, stable sorting by a Go
  comparison function (locale \<open>comparator\<close>, interpreted on every comparison the code sorts by), sorted
  sets, binary search, 64-bit integer bounds. \<open>GoStrings\<close> and \<open>Segments\<close>: Go strings as byte strings, UTF-8 decoding as
  \<^verbatim>\<open>range\<close> performs it, \<^verbatim>\<open>TrimSpace\<close>, \<^verbatim>\<open>ToUpper\<close>, \<^verbatim>\<open>ToLower\<close>, \<^verbatim>\<open>Fields\<close>, \<^verbatim>\<open>Join\<close>. \<open>GoJson\<close>: JSON values, their printed form, the
  canonical form of \<^verbatim>\<open>CanonicalJSON\<close>, optional members. \<open>HashChain\<close>: append-only logs whose events carry a
  sequence number, the digest of the predecessor and their own digest (locale \<open>hash_chain\<close>, interpreted
  on outbox events, case events, the audit events of the case store and those of the promotion manager, and on the events, frozen
  events and audit entries of the screening ledger). \<open>GoPath\<close>: \<^verbatim>\<open>path/filepath\<close> and a disk of
  directories with named files. \<open>Files\<close>: programs that read files and perform a list of atomic writes; cutting
  the list short is a crash; a small logic for invariants that every write keeps; the locale \<open>publisher\<close> for a
  register that names one active document, interpreted in \<open>ActivationProofs\<close> on publishing a staged activation.

  \<^bold>\<open>Outbox.\<close> \<open>Outbox\<close> models \<^verbatim>\<open>outbox.go\<close>: the directory is a record of messages, receipts and one event log;
  \<open>Enqueue\<close>, \<open>Claim\<close>, \<open>Complete\<close>, \<open>Fail\<close>, \<open>Recover\<close>, \<open>Verify\<close> and \<open>Status\<close> are the methods. \<open>OutboxProofs\<close> has the
  reachability relation and its invariants, \<open>OutboxProps\<close> the properties: exclusive leases (whatever others do until they expire, relation
  \<open>lease_step\<close>), completion inside a lease, bounded delivery, finality, progress, idempotent enqueueing, tamper evidence.

  \<^bold>\<open>Scoring.\<close> \<open>Normalization\<close> models \<^verbatim>\<open>normalize.go\<close> of \<^verbatim>\<open>internal/normalization\<close>. \<open>CandidateScoring\<close> models the normalisers,
  comparators and \<^verbatim>\<open>scoreCandidate\<close>; \<open>ScoringEngine\<close> models policy validation, ranking and batches; \<open>ScoringProps\<close> shows
  the score formula, its bounds, independence of the order of attributes and candidates, and what
  the evidence of a result means.

  \<^bold>\<open>False positives.\<close> \<open>FalsePositive\<close> models data, text, identifiers, checksums, validation and lookups; \<open>FpClassify\<close> the
  canonical observation, the ten pattern tests, the countervailing signals, routes and batches. \<open>FpProofs\<close> and
  \<open>FpProps\<close>: classification is total on valid input, its result validates, escalation needs primary
  evidence, clearing needs the absence of contrary evidence, lookups are correct, order is irrelevant.

  \<^bold>\<open>Policy engine.\<close> \<open>PolicyData\<close> and \<open>PolicyEngine\<close> model documents, overlays, validation, evaluation and gates. \<open>PolicyProofs\<close>,
  \<open>PolicyDecisions\<close> and \<open>PolicyProps\<close>: evaluation refines an abstract reading of the document, decisions
  validate, overlays change exactly what they name, and the composition with the classifier
  escalates and clears only on the evidence both components demand.

  \<^bold>\<open>Alerts and cases.\<close> \<open>AlertData\<close> models \<^verbatim>\<open>types.go\<close> and \<^verbatim>\<open>canonical.go\<close>, \<open>AlertPolicy\<close> models \<^verbatim>\<open>policy.go\<close> with the decoding of
  screening events, \<open>CaseStore\<close> models \<^verbatim>\<open>store.go\<close>: the state directory is a record of alerts, cases (events,
  projection, head), receipts, batch results and the audit log. \<open>CaseReplay\<close> proves that replaying stored
  events does what the requests did, \<open>CaseReach\<close> defines the reachable stores and their invariant, \<open>CaseLife\<close> the
  abstract life cycle and the trail behind a decision, \<open>CaseDemo\<close> a concrete store for the witnesses.
  \<open>CaseProps\<close> and \<open>AlertProps\<close> hold the properties: every reachable store verifies, resolved cases had four
  eyes, the store follows the life cycle, a writer with a stale revision changes nothing in any later store (relation
  \<open>store_step\<close>), repetitions are answered.

  \<^bold>\<open>Projection packages.\<close> \<open>ProjectionPackage\<close> models \<^verbatim>\<open>internal/projectionpackage\<close>: descriptors, canonical input, normalisation of
  records, \<open>Compile\<close> and \<open>LoadPackage\<close>. \<open>ProjectionScore\<close> shows that the normalisers of packages and of scoring agree and are idempotent;
  \<open>ProjectionProps\<close>: projecting a record does not change its score, a compiled package loads again, no existing
  package changes, and the digest of a package determines its content.

  \<^bold>\<open>Activations.\<close> \<open>ActivationData\<close> holds the documents and file names of the activation and promotion directories,
  \<open>ScoringActivation\<close> models \<^verbatim>\<open>manager.go\<close> and \<^verbatim>\<open>phase8f_promotion.go\<close> (\<open>Activate\<close>, \<open>Rollback\<close>, \<open>RecoverActivation\<close>, \<open>Stage\<close>,
  \<open>PromoteExisting\<close>). \<open>ActivationProofs\<close> has the reachable directories, their invariant and recovery, \<open>ActivationProps\<close> the
  properties: an activation reads back as it was made, and interrupted operations leave the old or the new document active.

  \<^bold>\<open>Promotions.\<close> \<open>Promotion\<close> models \<^verbatim>\<open>manager.go\<close>, \<^verbatim>\<open>audit.go\<close> and \<^verbatim>\<open>shadow.go\<close> of \<^verbatim>\<open>internal/activationpromotion\<close>. \<open>PromotionProofs\<close>: what
  holds whatever operations of both managers were cut off wherever (relation \<open>promotion_reach\<close>). \<open>PromotionRecovery\<close> and \<open>PromotionAtomic\<close>: recovery
  completes a commit. \<open>PromotionAudit\<close> and \<open>PromotionSteady\<close>: the audit log is a verifying hash chain and the active document follows the phase
  as long as operations succeed and interrupted transactions are recovered (relation \<open>promotion_steady\<close>). \<open>PromotionTyped\<close>: files hold what their
  names say. \<open>PromotionDemo\<close>, \<open>PromotionCase\<close> and \<open>PromotionEnd\<close> carry one promotion through all its phases for the
  witnesses. \<open>PromotionProps\<close>: the properties, among them two interruptions from which the code does not recover.

  \<^bold>\<open>Screening ledger.\<close> \<open>LedgerData\<close> models documents, derived keys, digests, encryption of snapshots, the canonical reader and redaction
  (\<^verbatim>\<open>types.go\<close>, \<^verbatim>\<open>chainkey.go\<close>, \<^verbatim>\<open>crypto.go\<close>, \<^verbatim>\<open>canonicalread.go\<close>, \<^verbatim>\<open>redact.go\<close>); \<open>Ledger\<close> the store of \<^verbatim>\<open>store.go\<close> and \<^verbatim>\<open>audit.go\<close>
  (\<open>NewStore\<close>, \<open>Append\<close>, \<open>AppendAudit\<close>, recovery, lookups, \<open>VerifyPolicy\<close>); \<open>LedgerAnchor\<close> the anchors and purge claims of \<^verbatim>\<open>anchor.go\<close>
  (\<open>WriteAnchor\<close>, \<open>VerifyAnchored\<close>). \<open>LedgerProofs\<close>: what the verification loops compute. \<open>LedgerReach\<close>: the reachable
  directories (relation \<open>ledger_reach\<close>; appends and recoveries cut off anywhere), what becomes of a directory later (\<open>ledger_later\<close>), and their invariant. \<open>LedgerTamper\<close> and \<open>LedgerAnchorProofs\<close>: what
  acceptance means for a directory that anyone may have written. \<open>LedgerDemo\<close> and \<open>LedgerAnchorDemo\<close>: concrete ledgers for the witnesses.
  \<open>LedgerProps\<close> and \<open>LedgerAnchorProps\<close> hold the properties: reachable ledgers verify, appends are atomic and idempotent, no digest
  is downgraded, anchored history is fixed, purges are attested; and three defects. \<open>LedgerRetention\<close> models purging and export of bundles
  (\<^verbatim>\<open>replay.go\<close>), \<open>LedgerRetentionProofs\<close> what a purge writes, \<open>LedgerRetentionProps\<close> that a purge respects holds and expiry, that redacted
  bundles hide the named fields, and two more defects: an interrupted purge is never accepted again, and content that comes back after
  its purge is recorded without evidence. \<open>LedgerAlerts\<close> composes the ledger with
  \<open>AlertPolicy\<close>: an event survives the trip through its JSON text, and alerts are built exactly from events before the genesis boundary.

  \<^bold>\<open>Parameters.\<close> SHA-256, RFC 3339 parsing and printing, the Unicode tables and JSON syntax checks of
  payloads are arguments of the definitions (\<open>env\<close>, \<open>unicode\<close>, \<open>case_env\<close>, \<open>package_env\<close>, \<open>activation_env\<close>,
  \<open>ledger_env\<close> with HMAC, HKDF, AES-GCM and base64); the properties that need documented
  behaviour of them say so by \<open>env_ok\<close>, \<open>unicode_ok\<close> and \<open>ledger_env_ok\<close>, all satisfied by concrete instances. Random nonces are arguments.
  No fuel is used: every loop is structurally recursive or a fold.

  \<^bold>\<open>Abstractions.\<close> Strings that are printed as JSON are taken to be valid UTF-8. A raw JSON message is
  identified with its value. A nil slice and an empty one are identified where the code does not
  distinguish them in its output. Go maps are association lists. Integers are kept at 64 bits where the
  code can overflow. No operation does failing input or output; locks and symbolic links are outside the model. In particular the lock file
  that a killed process leaves in the promotion directory, and that has to be removed by hand before recovery runs, is not modelled. The operations of
  the outbox and of the case store are atomic; those of activations, promotions and the screening ledger may be cut off between any two of their
  atomic file writes. A file of these directories is its decoded document: strict decoding is a test of the
  kind of document, not of its JSON syntax or of unknown fields, and equality of documents stands for equality of their canonical bytes; the clock readings of an operation are arguments; scores in
  shadow responses are integers; the panic of \<^verbatim>\<open>nextAuditEvent\<close> on an unreadable head and
  that of the cipher on a nonce of the wrong length are error results. Identifiers in file names of the ledger contain no path
  separator, sorting by sequence number is stable, and the age of an anchor is not reported.

  \<^bold>\<open>Not modelled.\<close> HTTP servers and command lines; PostgreSQL stores; parsing of YAML, XML, CSV and binary
  catalogues; acquisition of catalogues; the matcher process and its contracts; replay
  of screenings against a backend, the archive format of exported bundles, the signing of ledger policies and the replication of the ledger; retrieval, note drafting and release tooling.
\<close>

end
